(* ===== verification/Api.thy ===== *)
theory Api
  imports Prelude
begin

text \<open>
  The vocabulary of \<open>proton-sdk\<close>: identifiers (\<open>ids.rs\<close>), the response envelope
  and its codes (\<open>api.rs\<close>), errors and their retriability (\<open>error.rs\<close>) and the
  client configuration (\<open>config.rs\<close>).  JSON values carried in an error's
  \<open>Details\<close> are the wire's data model; the functions that decode bytes into typed
  values belong to a third-party crate and are arguments wherever they are used.
\<close>

section \<open>Identifiers\<close>

datatype session_id = SessionId (session_id_str: string)
datatype address_id = AddressId (address_id_str: string)
datatype volume_id = VolumeId (volume_id_str: string)
datatype share_id = ShareId (share_id_str: string)
datatype link_id = LinkId (link_id_str: string)
datatype drive_event_id = DriveEventId (drive_event_id_str: string)
datatype share_membership_id = ShareMembershipId (share_membership_id_str: string)
datatype device_uid = DeviceUid (device_uid_str: string)

record node_uid =
  uid_volume :: volume_id
  uid_link :: link_id

definition NodeUid_new :: "volume_id \<Rightarrow> link_id \<Rightarrow> node_uid" where
  "NodeUid_new v l = \<lparr>uid_volume = v, uid_link = l\<rparr>"

definition NodeUid_display :: "node_uid \<Rightarrow> string" where
  "NodeUid_display u = volume_id_str (uid_volume u) @ ''~'' @ link_id_str (uid_link u)"

lemma NodeUid_new_sel [simp]:
  "uid_volume (NodeUid_new v l) = v" "uid_link (NodeUid_new v l) = l"
  by (simp_all add: NodeUid_new_def)

lemma NodeUid_new_eta [simp]: "NodeUid_new (uid_volume u) (uid_link u) = u"
  by (simp add: NodeUid_new_def)

lemma NodeUid_new_inject [simp]: "NodeUid_new v l = NodeUid_new v' l' \<longleftrightarrow> v = v' \<and> l = l'"
  by (auto simp: NodeUid_new_def)

section \<open>JSON values\<close>

datatype json =
    JNull
  | JBool bool
  | JNumber string
  | JString string
  | JArray "json list"
  | JObject "(string \<times> json) list"

text \<open>\<open>Value::get(key)\<close>, \<open>Value::as_array\<close>, \<open>Value::as_str\<close> on the data model.\<close>

fun json_get :: "json \<Rightarrow> string \<Rightarrow> json option" where
  "json_get (JObject kvs) k = map_of kvs k"
| "json_get _ k = None"

fun json_as_array :: "json \<Rightarrow> json list option" where
  "json_as_array (JArray xs) = Some xs"
| "json_as_array _ = None"

fun json_as_str :: "json \<Rightarrow> string option" where
  "json_as_str (JString s) = Some s"
| "json_as_str _ = None"

section \<open>Response codes\<close>

datatype response_code =
    Unknown
  | Unauthorized | Forbidden | RequestTimeout | TooManyRequests | ServiceUnavailable
  | Success | MultipleResponses | InvalidRequirements | InvalidValue
  | NotEnoughPermissions | NotEnoughPermissionsToGrantPermissions | Blocked
  | InvalidEncryptedIdFormat | AlreadyExists | DoesNotExist | Timeout
  | IncompatibleState | InvalidApp | OutdatedApp | Offline
  | IncorrectLoginCredentials | HumanVerificationRequired | InsufficientScope
  | AccountDeleted | AccountDisabled | InvalidRefreshToken | NoActiveSubscription
  | AddressMissing | DomainExternal | ProtonDriveUnknown | InsufficientQuota
  | InsufficientSpace | InsufficientVolumeQuota | TooManyChildren | NestingTooDeep
  | AlbumContainsPhotosNotInTimeline

text \<open>The discriminant \<open>#[repr(i64)]\<close> assigns to each variant.\<close>

fun ResponseCode_discriminant :: "response_code \<Rightarrow> int" where
  "ResponseCode_discriminant Unknown = 0"
| "ResponseCode_discriminant Unauthorized = 401"
| "ResponseCode_discriminant Forbidden = 403"
| "ResponseCode_discriminant RequestTimeout = 408"
| "ResponseCode_discriminant TooManyRequests = 429"
| "ResponseCode_discriminant ServiceUnavailable = 503"
| "ResponseCode_discriminant Success = 1000"
| "ResponseCode_discriminant MultipleResponses = 1001"
| "ResponseCode_discriminant InvalidRequirements = 2000"
| "ResponseCode_discriminant InvalidValue = 2001"
| "ResponseCode_discriminant NotEnoughPermissions = 2011"
| "ResponseCode_discriminant NotEnoughPermissionsToGrantPermissions = 2026"
| "ResponseCode_discriminant Blocked = 2028"
| "ResponseCode_discriminant InvalidEncryptedIdFormat = 2061"
| "ResponseCode_discriminant AlreadyExists = 2500"
| "ResponseCode_discriminant DoesNotExist = 2501"
| "ResponseCode_discriminant Timeout = 2503"
| "ResponseCode_discriminant IncompatibleState = 2511"
| "ResponseCode_discriminant InvalidApp = 5002"
| "ResponseCode_discriminant OutdatedApp = 5003"
| "ResponseCode_discriminant Offline = 7001"
| "ResponseCode_discriminant IncorrectLoginCredentials = 8002"
| "ResponseCode_discriminant HumanVerificationRequired = 9001"
| "ResponseCode_discriminant InsufficientScope = 9101"
| "ResponseCode_discriminant AccountDeleted = 10002"
| "ResponseCode_discriminant AccountDisabled = 10003"
| "ResponseCode_discriminant InvalidRefreshToken = 10013"
| "ResponseCode_discriminant NoActiveSubscription = 22110"
| "ResponseCode_discriminant AddressMissing = 33102"
| "ResponseCode_discriminant DomainExternal = 33103"
| "ResponseCode_discriminant ProtonDriveUnknown = 200000"
| "ResponseCode_discriminant InsufficientQuota = 200001"
| "ResponseCode_discriminant InsufficientSpace = 200002"
| "ResponseCode_discriminant InsufficientVolumeQuota = 200100"
| "ResponseCode_discriminant TooManyChildren = 200300"
| "ResponseCode_discriminant NestingTooDeep = 200301"
| "ResponseCode_discriminant AlbumContainsPhotosNotInTimeline = 200302"

definition ResponseCode_from_raw :: "int \<Rightarrow> response_code" where
  "ResponseCode_from_raw raw =
     (if raw = 401 then Unauthorized
      else if raw = 403 then Forbidden
      else if raw = 408 then RequestTimeout
      else if raw = 429 then TooManyRequests
      else if raw = 503 then ServiceUnavailable
      else if raw = 1000 then Success
      else if raw = 1001 then MultipleResponses
      else if raw = 2000 then InvalidRequirements
      else if raw = 2001 then InvalidValue
      else if raw = 2011 then NotEnoughPermissions
      else if raw = 2026 then NotEnoughPermissionsToGrantPermissions
      else if raw = 2028 then Blocked
      else if raw = 2061 then InvalidEncryptedIdFormat
      else if raw = 2500 then AlreadyExists
      else if raw = 2501 then DoesNotExist
      else if raw = 2503 then Timeout
      else if raw = 2511 then IncompatibleState
      else if raw = 5002 then InvalidApp
      else if raw = 5003 then OutdatedApp
      else if raw = 7001 then Offline
      else if raw = 8002 then IncorrectLoginCredentials
      else if raw = 9001 then HumanVerificationRequired
      else if raw = 9101 then InsufficientScope
      else if raw = 10002 then AccountDeleted
      else if raw = 10003 then AccountDisabled
      else if raw = 10013 then InvalidRefreshToken
      else if raw = 22110 then NoActiveSubscription
      else if raw = 33102 then AddressMissing
      else if raw = 33103 then DomainExternal
      else if raw = 200000 then ProtonDriveUnknown
      else if raw = 200001 then InsufficientQuota
      else if raw = 200002 then InsufficientSpace
      else if raw = 200100 then InsufficientVolumeQuota
      else if raw = 200300 then TooManyChildren
      else if raw = 200301 then NestingTooDeep
      else if raw = 200302 then AlbumContainsPhotosNotInTimeline
      else Unknown)"

section \<open>The response envelope and human verification\<close>

record api_response =
  resp_code :: response_code
  resp_error_message :: "string option"
  resp_details :: "json option"

definition ApiResponse_is_success :: "api_response \<Rightarrow> bool" where
  "ApiResponse_is_success r = (resp_code r = Success)"

record human_verification =
  hv_token :: string
  hv_methods :: "string list"

definition supports_captcha :: "human_verification \<Rightarrow> bool" where
  "supports_captcha hv = list_ex (\<lambda>m. m = ''captcha'') (hv_methods hv)"

definition hex_upper :: "nat \<Rightarrow> char" where
  "hex_upper d = (if d < 10 then char_of (48 + d) else char_of (55 + d))"

definition is_unreserved :: "char \<Rightarrow> bool" where
  "is_unreserved c =
     (let n = (of_char c :: nat) in
      65 \<le> n \<and> n \<le> 90 \<or> 97 \<le> n \<and> n \<le> 122 \<or> 48 \<le> n \<and> n \<le> 57 \<or>
      c = CHR ''-'' \<or> c = CHR ''_'' \<or> c = CHR ''.'' \<or> c = CHR ''~'')"

definition percent_byte :: "char \<Rightarrow> string" where
  "percent_byte c =
     (let n = (of_char c :: nat) in [CHR ''%'', hex_upper (n div 16), hex_upper (n mod 16)])"

fun urlencoding_minimal :: "string \<Rightarrow> string" where
  "urlencoding_minimal [] = []"
| "urlencoding_minimal (c # s) =
     (if is_unreserved c then c # urlencoding_minimal s
      else percent_byte c @ urlencoding_minimal s)"

definition verification_url :: "human_verification \<Rightarrow> string" where
  "verification_url hv =
     ''https://verify.proton.me/?embed=1&methods='' @ join_with '','' (hv_methods hv) @
     ''&token='' @ urlencoding_minimal (hv_token hv)"

record human_verification_credential =
  hvc_token :: string
  hvc_method :: string

definition HumanVerificationCredential_captcha :: "string \<Rightarrow> human_verification_credential" where
  "HumanVerificationCredential_captcha t = \<lparr>hvc_token = t, hvc_method = ''captcha''\<rparr>"

section \<open>Errors\<close>

text \<open>
  What the code observes of a \<open>reqwest::Error\<close>: its three classification methods
  and its text.
\<close>

record transport_error =
  te_timeout :: bool
  te_connect :: bool
  te_request :: bool
  te_text :: string

record proton_api_error =
  ae_code :: response_code
  ae_http_status :: nat
  ae_message :: string
  ae_details :: "json option"

datatype proton_error =
    Api proton_api_error
  | Transport transport_error
  | Serialization string
  | Crypto string
  | KeysLocked
  | InvalidOperation string

type_synonym 'a result = "proton_error + 'a"

definition ProtonApiError_is_retriable :: "proton_api_error \<Rightarrow> bool" where
  "ProtonApiError_is_retriable e =
     (if ae_code e = TooManyRequests \<or> ae_code e = DoesNotExist then True
      else \<not> (400 \<le> ae_http_status e \<and> ae_http_status e < 500)
           \<or> ae_http_status e = 404 \<or> ae_http_status e = 408 \<or> ae_http_status e = 429)"

fun ProtonError_is_retriable :: "proton_error \<Rightarrow> bool" where
  "ProtonError_is_retriable (Api e) = ProtonApiError_is_retriable e"
| "ProtonError_is_retriable (Transport _) = True"
| "ProtonError_is_retriable (Serialization _) = False"
| "ProtonError_is_retriable (Crypto _) = False"
| "ProtonError_is_retriable KeysLocked = False"
| "ProtonError_is_retriable (InvalidOperation _) = False"

definition is_unauthorized :: "proton_api_error \<Rightarrow> bool" where
  "is_unauthorized e = (ae_http_status e = 401)"

definition is_invalid_refresh_token :: "proton_api_error \<Rightarrow> bool" where
  "is_invalid_refresh_token e = (ae_code e = InvalidRefreshToken)"

definition is_insufficient_scope :: "proton_api_error \<Rightarrow> bool" where
  "is_insufficient_scope e = (ae_code e = InsufficientScope)"

definition is_human_verification_required :: "proton_api_error \<Rightarrow> bool" where
  "is_human_verification_required e = (ae_code e = HumanVerificationRequired)"

text \<open>The challenge decoder is the derived \<open>serde\<close> one, an argument.\<close>

definition human_verification_of ::
  "(json \<Rightarrow> human_verification option) \<Rightarrow> proton_api_error \<Rightarrow> human_verification option" where
  "human_verification_of from_value e =
     (if \<not> is_human_verification_required e then None
      else (case ae_details e of None \<Rightarrow> None | Some d \<Rightarrow> from_value d))"

text \<open>
  Errors are not \<open>Clone\<close>: where one failure is charged to several callers the
  code rebuilds it, keeping an API error whole and reducing any other to its text.
  \<open>show\<close> is the \<open>Display\<close> text of an error.
\<close>

definition rebuild_error :: "(proton_error \<Rightarrow> string) \<Rightarrow> proton_error \<Rightarrow> proton_error" where
  "rebuild_error show e = (case e of Api a \<Rightarrow> Api a | _ \<Rightarrow> InvalidOperation (show e))"

section \<open>Configuration\<close>

text \<open>
  A \<open>Duration\<close> is its number of nanoseconds, at most \<open>Duration::MAX\<close>.
\<close>

type_synonym duration = nat

definition duration_max :: duration where
  "duration_max = (2 ^ 64 - 1) * 10 ^ 9 + 999999999"

definition from_secs :: "nat \<Rightarrow> duration" where
  "from_secs s = s * 10 ^ 9"

definition from_millis :: "nat \<Rightarrow> duration" where
  "from_millis m = m * 10 ^ 6"

definition as_millis :: "duration \<Rightarrow> nat" where
  "as_millis d = d div 10 ^ 6"

definition duration_saturating_mul :: "duration \<Rightarrow> u32 \<Rightarrow> duration" where
  "duration_saturating_mul d k = min (d * unat k) duration_max"

definition DEFAULT_TIMEOUT :: duration where
  "DEFAULT_TIMEOUT = from_secs 30"

definition DEFAULT_STORAGE_TIMEOUT :: duration where
  "DEFAULT_STORAGE_TIMEOUT = from_secs 300"

record retry_policy =
  max_retries :: u32
  base_delay :: duration
  max_delay :: duration
  max_retry_after :: duration

definition RetryPolicy_default :: retry_policy where
  "RetryPolicy_default =
     \<lparr>max_retries = 3, base_delay = from_millis 500, max_delay = from_secs 30,
      max_retry_after = from_secs 120\<rparr>"

definition RetryPolicy_disabled :: retry_policy where
  "RetryPolicy_disabled = RetryPolicy_default\<lparr>max_retries := 0\<rparr>"

record client_configuration =
  cfg_base_url :: string
  cfg_app_version :: string
  cfg_user_agent :: string
  cfg_refresh_redirect_uri :: string
  cfg_request_timeout :: duration
  cfg_storage_timeout :: duration
  cfg_retry_policy :: retry_policy

definition ProtonClientConfiguration_new :: "string \<Rightarrow> client_configuration" where
  "ProtonClientConfiguration_new app_version =
     \<lparr>cfg_base_url = ''https://drive-api.proton.me/'',
      cfg_app_version = app_version,
      cfg_user_agent = '''',
      cfg_refresh_redirect_uri = ''https://proton.me'',
      cfg_request_timeout = DEFAULT_TIMEOUT,
      cfg_storage_timeout = DEFAULT_STORAGE_TIMEOUT,
      cfg_retry_policy = RetryPolicy_default\<rparr>"

section \<open>Lemmas\<close>

lemma ResponseCode_from_raw_discriminant [simp]:
  "ResponseCode_from_raw (ResponseCode_discriminant c) = c"
  by (cases c) (simp_all add: ResponseCode_from_raw_def)

lemma ResponseCode_from_raw_known:
  "ResponseCode_from_raw n \<noteq> Unknown \<Longrightarrow> ResponseCode_discriminant (ResponseCode_from_raw n) = n"
  by (simp add: ResponseCode_from_raw_def split: if_splits)

lemma rebuild_error_Api [simp]: "rebuild_error show (Api a) = Api a"
  by (simp add: rebuild_error_def)

lemma rebuild_error_retriable:
  "ProtonError_is_retriable (rebuild_error show e) \<longleftrightarrow> (\<exists>a. e = Api a \<and> ProtonApiError_is_retriable a)"
  by (cases e) (auto simp: rebuild_error_def)

text \<open>Unreserved characters pass through; escapes use only \<open>%\<close> and hex digits.\<close>

lemma hex_upper_unreserved: "d < 16 \<Longrightarrow> is_unreserved (hex_upper d)"
  by (auto simp: hex_upper_def is_unreserved_def Let_def)

lemma urlencoding_minimal_chars:
  "c \<in> set (urlencoding_minimal s) \<Longrightarrow> is_unreserved c \<or> c = CHR ''%''"
proof (induction s)
  case Nil
  then show ?case by simp
next
  case (Cons x s)
  have "(of_char x :: nat) div 16 < 16"
    by (simp add: less_mult_imp_div_less)
  with Cons show ?case
    by (auto simp: percent_byte_def Let_def hex_upper_unreserved split: if_splits)
qed

end
