(* ===== verification/Cache.thy ===== *)
theory Cache
  imports Api "HOL-Library.AList"
begin

text \<open>
  The key/value cache of \<open>proton-sdk/src/cache.rs\<close>: the \<open>CacheRepository\<close> trait
  as a record of operations, the bounded in-memory repository with its two tag
  indexes, and the wrapper that encrypts values at rest.  The \<open>lru\<close> crate, the
  cipher, HKDF, the random source and base64 are arguments; what the code relies
  on of the \<open>lru\<close> crate is the locale \<open>lru_cache\<close>.  A \<open>HashMap\<close> is an association
  list with distinct keys and a \<open>HashSet\<close> a list without repetition, so an
  iteration visits each element once, in an order the theorems do not use.

  Locale \<open>cache_repository\<close> is the contract of the trait: what a read may answer
  after each operation when entries may be evicted at any write.  Both
  repositories satisfy it, and the typed caches above rely only on it.
\<close>

section \<open>The trait\<close>

record 's cache_repo =
  rep_set :: "string \<Rightarrow> string \<Rightarrow> string list \<Rightarrow> 's \<Rightarrow> unit result \<times> 's"
  rep_get :: "string \<Rightarrow> 's \<Rightarrow> string option result \<times> 's"
  rep_remove :: "string \<Rightarrow> 's \<Rightarrow> unit result \<times> 's"
  rep_remove_by_tag :: "string \<Rightarrow> 's \<Rightarrow> unit result \<times> 's"
  rep_clear :: "'s \<Rightarrow> unit result \<times> 's"
  rep_get_by_tags :: "string list \<Rightarrow> 's \<Rightarrow> (string \<times> string) list result \<times> 's"

definition set_untagged :: "'s cache_repo \<Rightarrow> string \<Rightarrow> string \<Rightarrow> 's \<Rightarrow> unit result \<times> 's" where
  "set_untagged repo key v s = rep_set repo key v [] s"

definition DEFAULT_CACHE_CAPACITY :: nat where
  "DEFAULT_CACHE_CAPACITY = 8192"

section \<open>The in-memory repository\<close>

text \<open>The operations of \<open>lru::LruCache<String, String>\<close> the code calls.\<close>

record 'l lru =
  lru_new :: "nat \<Rightarrow> 'l"
  lru_push :: "string \<Rightarrow> string \<Rightarrow> 'l \<Rightarrow> (string \<times> string) option \<times> 'l"
  lru_get :: "string \<Rightarrow> 'l \<Rightarrow> string option \<times> 'l"
  lru_pop :: "string \<Rightarrow> 'l \<Rightarrow> 'l"
  lru_peek :: "string \<Rightarrow> 'l \<Rightarrow> string option"
  lru_clear :: "'l \<Rightarrow> 'l"
  lru_len :: "'l \<Rightarrow> nat"

type_synonym index = "(string \<times> string list) list"

record 'l in_memory_state =
  entries :: 'l
  key_to_tags :: index
  tag_to_keys :: index

definition with_capacity :: "'l lru \<Rightarrow> nat \<Rightarrow> 'l in_memory_state" where
  "with_capacity L capacity =
     \<lparr>entries = lru_new L (if capacity = 0 then 1 else capacity), key_to_tags = [], tag_to_keys = []\<rparr>"

definition InMemoryCacheRepository_default :: "'l lru \<Rightarrow> 'l in_memory_state" where
  "InMemoryCacheRepository_default L = with_capacity L DEFAULT_CACHE_CAPACITY"

definition cache_len :: "'l lru \<Rightarrow> 'l in_memory_state \<Rightarrow> nat" where
  "cache_len L s = lru_len L (entries s)"

definition cache_is_empty :: "'l lru \<Rightarrow> 'l in_memory_state \<Rightarrow> bool" where
  "cache_is_empty L s = (cache_len L s = 0)"

definition tag_index_len :: "'l in_memory_state \<Rightarrow> nat" where
  "tag_index_len s = length (key_to_tags s)"

definition clear_tag :: "string \<Rightarrow> string \<Rightarrow> index \<Rightarrow> index" where
  "clear_tag key tag t2k =
     (case map_of t2k tag of
        None \<Rightarrow> t2k
      | Some keys \<Rightarrow>
          (let keys' = removeAll key keys
           in if keys' = [] then AList.delete tag t2k else AList.update tag keys' t2k))"

definition clear_tags_for_key :: "string \<Rightarrow> 'l in_memory_state \<Rightarrow> 'l in_memory_state" where
  "clear_tags_for_key key s =
     (case map_of (key_to_tags s) key of
        None \<Rightarrow> s
      | Some tags \<Rightarrow>
          s\<lparr>key_to_tags := AList.delete key (key_to_tags s),
            tag_to_keys := fold (clear_tag key) tags (tag_to_keys s)\<rparr>)"

definition add_tag :: "string \<Rightarrow> string \<Rightarrow> index \<Rightarrow> index" where
  "add_tag key tag t2k =
     (let keys = (case map_of t2k tag of Some ks \<Rightarrow> ks | None \<Rightarrow> [])
      in AList.update tag (if key \<in> set keys then keys else keys @ [key]) t2k)"

definition cache_set ::
  "'l lru \<Rightarrow> string \<Rightarrow> string \<Rightarrow> string list \<Rightarrow> 'l in_memory_state \<Rightarrow> unit result \<times> 'l in_memory_state" where
  "cache_set L key v tags s =
     (let s1 = clear_tags_for_key key s;
          (evicted, l') = lru_push L key v (entries s1);
          s2 = s1\<lparr>entries := l'\<rparr>;
          s3 = (case evicted of
                  Some (k, _) \<Rightarrow> if k \<noteq> key then clear_tags_for_key k s2 else s2
                | None \<Rightarrow> s2);
          tag_set = remdups tags
      in (Inr (), s3\<lparr>tag_to_keys := fold (add_tag key) tag_set (tag_to_keys s3),
                     key_to_tags := AList.update key tag_set (key_to_tags s3)\<rparr>))"

definition cache_get ::
  "'l lru \<Rightarrow> string \<Rightarrow> 'l in_memory_state \<Rightarrow> string option result \<times> 'l in_memory_state" where
  "cache_get L key s =
     (let (v, l') = lru_get L key (entries s) in (Inr v, s\<lparr>entries := l'\<rparr>))"

definition cache_remove ::
  "'l lru \<Rightarrow> string \<Rightarrow> 'l in_memory_state \<Rightarrow> unit result \<times> 'l in_memory_state" where
  "cache_remove L key s =
     (Inr (), clear_tags_for_key key (s\<lparr>entries := lru_pop L key (entries s)\<rparr>))"

definition cache_remove_by_tag ::
  "'l lru \<Rightarrow> string \<Rightarrow> 'l in_memory_state \<Rightarrow> unit result \<times> 'l in_memory_state" where
  "cache_remove_by_tag L tag s =
     (let keys = (case map_of (tag_to_keys s) tag of Some ks \<Rightarrow> ks | None \<Rightarrow> [])
      in (Inr (), fold (\<lambda>key st. clear_tags_for_key key (st\<lparr>entries := lru_pop L key (entries st)\<rparr>))
                    keys s))"

definition cache_clear :: "'l lru \<Rightarrow> 'l in_memory_state \<Rightarrow> unit result \<times> 'l in_memory_state" where
  "cache_clear L s =
     (Inr (), \<lparr>entries = lru_clear L (entries s), key_to_tags = [], tag_to_keys = []\<rparr>)"

text \<open>
  The intersection loop of \<open>get_by_tags\<close>; an unknown tag or an empty intermediate
  result ends it with no candidates.
\<close>

fun intersect_tags :: "index \<Rightarrow> string list \<Rightarrow> string list option \<Rightarrow> string list" where
  "intersect_tags t2k [] candidates = (case candidates of Some c \<Rightarrow> c | None \<Rightarrow> [])"
| "intersect_tags t2k (tag # tags) candidates =
     (case map_of t2k tag of
        None \<Rightarrow> []
      | Some keys \<Rightarrow>
          (let c = (case candidates of
                      Some existing \<Rightarrow> filter (\<lambda>k. k \<in> set keys) existing
                    | None \<Rightarrow> keys)
           in if c = [] then [] else intersect_tags t2k tags (Some c)))"

definition cache_get_by_tags ::
  "'l lru \<Rightarrow> string list \<Rightarrow> 'l in_memory_state \<Rightarrow> (string \<times> string) list result \<times> 'l in_memory_state" where
  "cache_get_by_tags L tags s =
     (if tags = [] then (Inr [], s)
      else (Inr (List.map_filter (\<lambda>k. map_option (Pair k) (lru_peek L k (entries s)))
                   (intersect_tags (tag_to_keys s) tags None)), s))"

definition in_memory_repo :: "'l lru \<Rightarrow> 'l in_memory_state cache_repo" where
  "in_memory_repo L =
     \<lparr>rep_set = cache_set L, rep_get = cache_get L, rep_remove = cache_remove L,
      rep_remove_by_tag = cache_remove_by_tag L, rep_clear = cache_clear L,
      rep_get_by_tags = cache_get_by_tags L\<rparr>"

section \<open>Encryption at rest\<close>

record 'w cache_crypto =
  cc_random :: "nat \<Rightarrow> 'w \<Rightarrow> (string + bytes) \<times> 'w"
  cc_hkdf :: "bytes \<Rightarrow> bytes \<Rightarrow> bytes \<Rightarrow> nat \<Rightarrow> string + bytes"
    \<comment> \<open>salt, input keying material, info, output length\<close>
  cc_new_cipher :: "bytes \<Rightarrow> string option"
    \<comment> \<open>the error of \<open>new_from_slice\<close>, if the key is refused\<close>
  cc_seal :: "bytes \<Rightarrow> bytes \<Rightarrow> bytes \<Rightarrow> bytes option"
  cc_open :: "bytes \<Rightarrow> bytes \<Rightarrow> bytes \<Rightarrow> bytes option"
  cc_b64_encode :: "bytes \<Rightarrow> string"
  cc_b64_decode :: "string \<Rightarrow> string + bytes"
  cc_utf8_error :: "bytes \<Rightarrow> string"
    \<comment> \<open>the text of the error \<open>String::from_utf8\<close> returns\<close>

definition SALT_LEN :: nat where "SALT_LEN = 16"
definition KEY_LEN :: nat where "KEY_LEN = 32"
definition NONCE_LEN :: nat where "NONCE_LEN = 12"
definition TAG_LEN :: nat where "TAG_LEN = 16"
definition ENCRYPTION_CONTEXT :: bytes where
  "ENCRYPTION_CONTEXT = as_bytes ''Drive.EncryptedCacheRepository''"

definition derive :: "'w cache_crypto \<Rightarrow> bytes \<Rightarrow> bytes \<Rightarrow> string \<Rightarrow> (bytes \<times> bytes) result" where
  "derive cc encryption_key salt entry_key =
     (let info = ENCRYPTION_CONTEXT @ as_bytes entry_key
      in case cc_hkdf cc salt encryption_key info (KEY_LEN + NONCE_LEN) of
           Inl e \<Rightarrow> Inl (InvalidOperation (''cache HKDF expand: '' @ e))
         | Inr okm \<Rightarrow> Inr (take KEY_LEN okm, drop KEY_LEN okm))"

definition cache_encrypt ::
  "'w cache_crypto \<Rightarrow> bytes \<Rightarrow> string \<Rightarrow> string \<Rightarrow> 'w \<Rightarrow> string result \<times> 'w" where
  "cache_encrypt cc encryption_key entry_key plaintext w =
     (case cc_random cc SALT_LEN w of
        (Inl e, w') \<Rightarrow> (Inl (InvalidOperation (''cache salt: '' @ e)), w')
      | (Inr salt, w') \<Rightarrow>
          (case derive cc encryption_key salt entry_key of
             Inl e \<Rightarrow> (Inl e, w')
           | Inr (key, nonce) \<Rightarrow>
               (case cc_new_cipher cc key of
                  Some e \<Rightarrow> (Inl (InvalidOperation (''cache cipher: '' @ e)), w')
                | None \<Rightarrow>
                    (case cc_seal cc key nonce (as_bytes plaintext) of
                       None \<Rightarrow> (Inl (InvalidOperation ''cache encrypt failed''), w')
                     | Some sealed \<Rightarrow> (Inr (cc_b64_encode cc (salt @ sealed)), w')))))"

definition cache_decrypt ::
  "'w cache_crypto \<Rightarrow> bytes \<Rightarrow> string \<Rightarrow> string \<Rightarrow> string option result" where
  "cache_decrypt cc encryption_key entry_key encoded =
     (case cc_b64_decode cc encoded of
        Inl e \<Rightarrow> Inl (InvalidOperation (''cache base64: '' @ e))
      | Inr combined \<Rightarrow>
          if length combined < SALT_LEN + TAG_LEN
          then Inl (InvalidOperation ''cache value too short'')
          else
            (case derive cc encryption_key (take SALT_LEN combined) entry_key of
               Inl e \<Rightarrow> Inl e
             | Inr (key, nonce) \<Rightarrow>
                 (case cc_new_cipher cc key of
                    Some e \<Rightarrow> Inl (InvalidOperation (''cache cipher: '' @ e))
                  | None \<Rightarrow>
                      (case cc_open cc key nonce (drop SALT_LEN combined) of
                         None \<Rightarrow> Inr None
                       | Some plaintext \<Rightarrow>
                           (case from_utf8 plaintext of
                              None \<Rightarrow> Inl (InvalidOperation (''cache utf8: '' @ cc_utf8_error cc plaintext))
                            | Some text \<Rightarrow> Inr (Some text))))))"

definition encrypted_set ::
  "'w cache_crypto \<Rightarrow> bytes \<Rightarrow> 's cache_repo \<Rightarrow> string \<Rightarrow> string \<Rightarrow> string list \<Rightarrow> 's \<times> 'w
     \<Rightarrow> unit result \<times> 's \<times> 'w" where
  "encrypted_set cc ek inner key v tags = (\<lambda>(s, w).
     case cache_encrypt cc ek key v w of
       (Inl e, w') \<Rightarrow> (Inl e, s, w')
     | (Inr encrypted, w') \<Rightarrow> (let (r, s') = rep_set inner key encrypted tags s in (r, s', w')))"

definition encrypted_get ::
  "'w cache_crypto \<Rightarrow> bytes \<Rightarrow> 's cache_repo \<Rightarrow> string \<Rightarrow> 's \<times> 'w
     \<Rightarrow> string option result \<times> 's \<times> 'w" where
  "encrypted_get cc ek inner key = (\<lambda>(s, w).
     case rep_get inner key s of
       (Inl e, s') \<Rightarrow> (Inl e, s', w)
     | (Inr None, s') \<Rightarrow> (Inr None, s', w)
     | (Inr (Some encrypted), s') \<Rightarrow>
         (case cache_decrypt cc ek key encrypted of
            Inl e \<Rightarrow> (Inl e, s', w)
          | Inr (Some v) \<Rightarrow> (Inr (Some v), s', w)
          | Inr None \<Rightarrow>
              (case rep_clear inner s' of
                 (Inl e, s'') \<Rightarrow> (Inl e, s'', w)
               | (Inr _, s'') \<Rightarrow> (Inr None, s'', w))))"

fun decrypt_entries ::
  "'w cache_crypto \<Rightarrow> bytes \<Rightarrow> (string \<times> string) list \<Rightarrow> (string \<times> string) list option result" where
  "decrypt_entries cc ek [] = Inr (Some [])"
| "decrypt_entries cc ek ((key, encrypted) # es) =
     (case cache_decrypt cc ek key encrypted of
        Inl e \<Rightarrow> Inl e
      | Inr None \<Rightarrow> Inr None
      | Inr (Some v) \<Rightarrow>
          (case decrypt_entries cc ek es of
             Inl e \<Rightarrow> Inl e
           | Inr None \<Rightarrow> Inr None
           | Inr (Some out) \<Rightarrow> Inr (Some ((key, v) # out))))"

definition encrypted_get_by_tags ::
  "'w cache_crypto \<Rightarrow> bytes \<Rightarrow> 's cache_repo \<Rightarrow> string list \<Rightarrow> 's \<times> 'w
     \<Rightarrow> (string \<times> string) list result \<times> 's \<times> 'w" where
  "encrypted_get_by_tags cc ek inner tags = (\<lambda>(s, w).
     case rep_get_by_tags inner tags s of
       (Inl e, s') \<Rightarrow> (Inl e, s', w)
     | (Inr es, s') \<Rightarrow>
         (case decrypt_entries cc ek es of
            Inl e \<Rightarrow> (Inl e, s', w)
          | Inr (Some out) \<Rightarrow> (Inr out, s', w)
          | Inr None \<Rightarrow>
              (case rep_clear inner s' of
                 (Inl e, s'') \<Rightarrow> (Inl e, s'', w)
               | (Inr _, s'') \<Rightarrow> (Inr [], s'', w))))"

definition lift_inner :: "('s \<Rightarrow> 'a \<times> 's) \<Rightarrow> 's \<times> 'w \<Rightarrow> 'a \<times> 's \<times> 'w" where
  "lift_inner f = (\<lambda>(s, w). let (r, s') = f s in (r, s', w))"

definition encrypted_repo ::
  "'w cache_crypto \<Rightarrow> bytes \<Rightarrow> 's cache_repo \<Rightarrow> ('s \<times> 'w) cache_repo" where
  "encrypted_repo cc ek inner =
     \<lparr>rep_set = encrypted_set cc ek inner,
      rep_get = encrypted_get cc ek inner,
      rep_remove = (\<lambda>key. lift_inner (rep_remove inner key)),
      rep_remove_by_tag = (\<lambda>tag. lift_inner (rep_remove_by_tag inner tag)),
      rep_clear = lift_inner (rep_clear inner),
      rep_get_by_tags = encrypted_get_by_tags cc ek inner\<rparr>"

section \<open>The tag indexes\<close>

definition idx :: "index \<Rightarrow> string \<Rightarrow> string set" where
  "idx m k = set (case map_of m k of Some xs \<Rightarrow> xs | None \<Rightarrow> [])"

definition no_empty :: "index \<Rightarrow> bool" where
  "no_empty m = (\<forall>t. map_of m t \<noteq> Some [])"

lemma idx_Nil [simp]: "idx [] k = {}"
  by (simp add: idx_def)

lemma idx_update [simp]: "idx (AList.update k v m) k' = (if k' = k then set v else idx m k')"
  by (simp add: idx_def update_conv)

lemma idx_delete [simp]: "idx (AList.delete k m) k' = (if k' = k then {} else idx m k')"
  by (simp add: idx_def delete_conv)

lemma idx_None: "map_of m k = None \<Longrightarrow> idx m k = {}"
  by (simp add: idx_def)

lemma idx_clear_tag [simp]:
  "idx (clear_tag key tag m) t = (if t = tag then idx m t - {key} else idx m t)"
proof (cases "map_of m tag")
  case None
  then show ?thesis by (auto simp: clear_tag_def idx_def)
next
  case (Some ks)
  then have "idx m tag = set ks" by (simp add: idx_def)
  with Some show ?thesis
    by (cases "removeAll key ks = []")
       (simp_all add: clear_tag_def Let_def flip: set_removeAll)
qed

lemma idx_fold_clear_tag [simp]:
  "idx (fold (clear_tag key) tags m) t = (if t \<in> set tags then idx m t - {key} else idx m t)"
  by (induction tags arbitrary: m) auto

lemma idx_add_tag [simp]:
  "idx (add_tag key tag m) t = (if t = tag then insert key (idx m t) else idx m t)"
  by (auto simp: add_tag_def Let_def idx_def update_conv split: option.splits)

lemma idx_fold_add_tag [simp]:
  "idx (fold (add_tag key) tags m) t = (if t \<in> set tags then insert key (idx m t) else idx m t)"
  by (induction tags arbitrary: m) auto

lemma no_empty_clear_tag: "no_empty m \<Longrightarrow> no_empty (clear_tag key tag m)"
  by (auto simp: no_empty_def clear_tag_def Let_def update_conv delete_conv split: option.splits if_splits)

lemma no_empty_add_tag: "no_empty m \<Longrightarrow> no_empty (add_tag key tag m)"
  by (auto simp: no_empty_def add_tag_def Let_def update_conv split: option.splits if_splits)

lemma no_empty_fold:
  "(\<And>t m. no_empty m \<Longrightarrow> no_empty (f t m)) \<Longrightarrow> no_empty m \<Longrightarrow> no_empty (fold f ts m)"
  by (induction ts arbitrary: m) auto

lemma set_intersect_tags:
  "set (intersect_tags m tags c) =
     (case c of None \<Rightarrow> if tags = [] then {} else {k. \<forall>t\<in>set tags. k \<in> idx m t}
      | Some xs \<Rightarrow> {k \<in> set xs. \<forall>t\<in>set tags. k \<in> idx m t})"
proof (induction tags arbitrary: c)
  case Nil
  then show ?case by (simp split: option.splits)
next
  case (Cons tag tags)
  show ?case
  proof (cases "map_of m tag")
    case None
    then show ?thesis by (auto simp: idx_None split: option.splits)
  next
    case (Some keys)
    then have i: "idx m tag = set keys" by (simp add: idx_def)
    define c' where "c' = (case c of Some xs \<Rightarrow> filter (\<lambda>k. k \<in> set keys) xs | None \<Rightarrow> keys)"
    have "set (intersect_tags m (tag # tags) c) = {k \<in> set c'. \<forall>t\<in>set tags. k \<in> idx m t}"
      using Some Cons.IH [of "Some c'"] by (auto simp: c'_def Let_def)
    then show ?thesis using i by (auto simp: c'_def split: option.splits)
  qed
qed

text \<open>
  The invariant the comments of \<open>InMemoryState\<close> ask for: the two indexes are inverse
  to each other, no tag is kept for an empty set of keys, and exactly the held keys
  are indexed.
\<close>

definition index_ok :: "'l in_memory_state \<Rightarrow> bool" where
  "index_ok s =
     ((\<forall>t. idx (tag_to_keys s) t = {k. t \<in> idx (key_to_tags s) k}) \<and>
      no_empty (tag_to_keys s) \<and> distinct (map fst (key_to_tags s)))"

definition indexed :: "'l in_memory_state \<Rightarrow> string set" where
  "indexed s = dom (map_of (key_to_tags s))"

lemma index_ok_mem:
  "index_ok s \<Longrightarrow> k \<in> idx (tag_to_keys s) t \<longleftrightarrow> t \<in> idx (key_to_tags s) k"
  by (simp add: index_ok_def)

lemma clear_tags_for_key_entries [simp]: "entries (clear_tags_for_key k s) = entries s"
  by (simp add: clear_tags_for_key_def split: option.splits)

lemma clear_tags_for_key_tags [simp]:
  "idx (key_to_tags (clear_tags_for_key k s)) k' = (if k' = k then {} else idx (key_to_tags s) k')"
  by (auto simp: clear_tags_for_key_def idx_None split: option.splits)

lemma clear_tags_for_key_indexed [simp]: "indexed (clear_tags_for_key k s) = indexed s - {k}"
  by (auto simp: indexed_def clear_tags_for_key_def delete_conv' split: option.splits if_splits)

lemma clear_tags_for_key_keys:
  assumes "index_ok s"
  shows "idx (tag_to_keys (clear_tags_for_key k s)) t = idx (tag_to_keys s) t - {k}"
proof (cases "map_of (key_to_tags s) k")
  case None
  then have "idx (key_to_tags s) k = {}" by (rule idx_None)
  then have "k \<notin> idx (tag_to_keys s) t" using index_ok_mem [OF assms] by simp
  with None show ?thesis by (simp add: clear_tags_for_key_def)
next
  case (Some tags)
  then have "idx (key_to_tags s) k = set tags" by (simp add: idx_def)
  then have "t \<notin> set tags \<Longrightarrow> k \<notin> idx (tag_to_keys s) t"
    using index_ok_mem [OF assms] by simp
  with Some show ?thesis by (simp add: clear_tags_for_key_def)
qed

lemma clear_tags_for_key_ok:
  assumes "index_ok s"
  shows "index_ok (clear_tags_for_key k s)"
proof -
  have "no_empty (tag_to_keys (clear_tags_for_key k s))"
    using assms by (auto simp: clear_tags_for_key_def index_ok_def
        intro: no_empty_fold no_empty_clear_tag split: option.splits)
  moreover have "distinct (map fst (key_to_tags (clear_tags_for_key k s)))"
    using assms by (auto simp: clear_tags_for_key_def index_ok_def
        intro: distinct_delete split: option.splits)
  ultimately show ?thesis
    using clear_tags_for_key_keys [OF assms] index_ok_mem [OF assms]
    by (auto simp: index_ok_def split: if_splits)
qed

lemma index_ok_entries [simp]: "index_ok (s\<lparr>entries := l\<rparr>) = index_ok s"
  by (simp add: index_ok_def)

lemma indexed_entries [simp]: "indexed (s\<lparr>entries := l\<rparr>) = indexed s"
  by (simp add: indexed_def)

text \<open>Indexing a key that carries no tags yet.\<close>

lemma index_ok_insert:
  assumes ok: "index_ok s" and fresh: "idx (key_to_tags s) key = {}"
  shows "index_ok (s\<lparr>tag_to_keys := fold (add_tag key) tags (tag_to_keys s),
                     key_to_tags := AList.update key tags (key_to_tags s)\<rparr>)"
proof -
  have "no_empty (fold (add_tag key) tags (tag_to_keys s))"
    using ok by (auto simp: index_ok_def intro: no_empty_fold no_empty_add_tag)
  moreover have "distinct (map fst (AList.update key tags (key_to_tags s)))"
    using ok by (simp add: index_ok_def distinct_update)
  ultimately show ?thesis
    using index_ok_mem [OF ok] fresh by (auto simp: index_ok_def)
qed

section \<open>The contract of the trait\<close>

text \<open>
  \<open>content s k\<close> is what a read of \<open>k\<close> can produce.  A write may evict other entries,
  so an operation leaves each of them as it was or drops it (\<open>fades\<close>).
\<close>

definition fades :: "(string \<Rightarrow> string option) \<Rightarrow> (string \<Rightarrow> string option) \<Rightarrow> bool" where
  "fades m m' = (\<forall>k. m' k = None \<or> m' k = m k)"

lemma fades_refl [simp]: "fades m m"
  by (simp add: fades_def)

lemma fades_trans: "fades m m' \<Longrightarrow> fades m' m'' \<Longrightarrow> fades m m''"
  unfolding fades_def by metis

lemma fadesD: "fades m m' \<Longrightarrow> m' k = Some v \<Longrightarrow> m k = Some v"
  by (metis fades_def option.distinct(1))

locale cache_repository =
  fixes R :: "'s cache_repo"
    and inv :: "'s \<Rightarrow> bool"
    and content :: "'s \<Rightarrow> string \<Rightarrow> string option"
  assumes set_law:
      "inv s \<Longrightarrow> utf8_string v \<Longrightarrow> rep_set R k v ts s = (r, s') \<Longrightarrow>
         inv s' \<and> (r = Inr () \<longrightarrow> content s' k = Some v) \<and>
         (\<forall>k'. k' \<noteq> k \<longrightarrow> content s' k' = None \<or> content s' k' = content s k')"
    and get_law:
      "inv s \<Longrightarrow> rep_get R k s = (g, s') \<Longrightarrow>
         inv s' \<and> fades (content s) (content s') \<and>
         (\<forall>v. g = Inr (Some v) \<longleftrightarrow> content s k = Some v)"
    and remove_law:
      "inv s \<Longrightarrow> rep_remove R k s = (r, s') \<Longrightarrow>
         inv s' \<and> fades (content s) (content s') \<and> (r = Inr () \<longrightarrow> content s' k = None)"
    and remove_by_tag_law:
      "inv s \<Longrightarrow> rep_remove_by_tag R t s = (r, s') \<Longrightarrow> inv s' \<and> fades (content s) (content s')"
    and clear_law:
      "inv s \<Longrightarrow> rep_clear R s = (r, s') \<Longrightarrow>
         inv s' \<and> fades (content s) (content s') \<and> (r = Inr () \<longrightarrow> content s' = Map.empty)"
    and get_by_tags_law:
      "inv s \<Longrightarrow> rep_get_by_tags R tags s = (gs, s') \<Longrightarrow>
         inv s' \<and> fades (content s) (content s') \<and>
         (\<forall>es. gs = Inr es \<longrightarrow> (\<forall>(k, v)\<in>set es. content s k = Some v))"
begin

lemma get_after_set:
  assumes "inv s" "utf8_string v" "rep_set R k v ts s = (Inr (), s1)"
    "rep_get R k s1 = (r, s2)"
  shows "r = Inr (Some v)"
  using set_law [OF assms(1-3)] get_law [of s1, OF _ assms(4)] by simp

lemma get_after_remove:
  assumes "inv s" "rep_remove R k s = (Inr (), s1)" "rep_get R k s1 = (Inr x, s2)"
  shows "x = None"
proof (cases x)
  case (Some v)
  then show ?thesis
    using remove_law [OF assms(1,2)] get_law [of s1, OF _ assms(3)] by simp
qed

end

section \<open>The in-memory repository meets it\<close>

text \<open>
  What the code relies on of the \<open>lru\<close> crate, as that crate documents it: \<open>held\<close> is the
  map a cache stores and \<open>cap\<close> its capacity; \<open>push\<close> returns the entry it replaced, or
  the entry it evicted from a full cache, or nothing.
\<close>

locale lru_cache =
  fixes L :: "'l lru"
    and good :: "'l \<Rightarrow> bool"
    and held :: "'l \<Rightarrow> string \<Rightarrow> string option"
    and cap :: "'l \<Rightarrow> nat"
  assumes new_law:
      "0 < c \<Longrightarrow> good (lru_new L c) \<and> held (lru_new L c) = Map.empty \<and> cap (lru_new L c) = c"
    and len_law:
      "good l \<Longrightarrow> finite (dom (held l)) \<and> lru_len L l = card (dom (held l)) \<and>
         card (dom (held l)) \<le> cap l"
    and push_replace:
      "good l \<Longrightarrow> held l k = Some old \<Longrightarrow> lru_push L k v l = (e, l') \<Longrightarrow>
         e = Some (k, old) \<and> good l' \<and> held l' = (held l)(k \<mapsto> v) \<and> cap l' = cap l"
    and push_room:
      "good l \<Longrightarrow> held l k = None \<Longrightarrow> lru_len L l < cap l \<Longrightarrow> lru_push L k v l = (e, l') \<Longrightarrow>
         e = None \<and> good l' \<and> held l' = (held l)(k \<mapsto> v) \<and> cap l' = cap l"
    and push_full:
      "good l \<Longrightarrow> held l k = None \<Longrightarrow> cap l \<le> lru_len L l \<Longrightarrow> lru_push L k v l = (e, l') \<Longrightarrow>
         (\<exists>k' v'. e = Some (k', v') \<and> held l k' = Some v' \<and>
                  held l' = (held l)(k' := None, k \<mapsto> v)) \<and> good l' \<and> cap l' = cap l"
    and get_law:
      "good l \<Longrightarrow> lru_get L k l = (x, l') \<Longrightarrow>
         x = held l k \<and> good l' \<and> held l' = held l \<and> cap l' = cap l"
    and pop_law:
      "good l \<Longrightarrow> good (lru_pop L k l) \<and> held (lru_pop L k l) = (held l)(k := None) \<and>
         cap (lru_pop L k l) = cap l"
    and peek_law: "good l \<Longrightarrow> lru_peek L k l = held l k"
    and clear_law:
      "good l \<Longrightarrow> good (lru_clear L l) \<and> held (lru_clear L l) = Map.empty \<and>
         cap (lru_clear L l) = cap l"

text \<open>
  The repository's invariant over a cache with those laws: the indexes agree with one
  another, and the keys they know are exactly the keys held.
\<close>

definition cache_ok ::
  "('l \<Rightarrow> bool) \<Rightarrow> ('l \<Rightarrow> string \<Rightarrow> string option) \<Rightarrow> 'l in_memory_state \<Rightarrow> bool" where
  "cache_ok good held s = (good (entries s) \<and> index_ok s \<and> indexed s = dom (held (entries s)))"

lemma map_of_update_dom: "dom (map_of (AList.update k v m)) = insert k (dom (map_of m))"
  by (auto simp: update_conv')

context lru_cache
begin

lemma push_cases:
  assumes "good l" "lru_push L k v l = (e, l')"
  obtains "e = None" "good l'" "held l' = (held l)(k \<mapsto> v)" "cap l' = cap l"
  | old where "e = Some (k, old)" "good l'" "held l' = (held l)(k \<mapsto> v)" "cap l' = cap l"
  | k' v' where "held l k = None" "cap l \<le> lru_len L l"
      "e = Some (k', v')" "k' \<noteq> k" "held l k' = Some v'" "good l'"
      "held l' = (held l)(k' := None, k \<mapsto> v)" "cap l' = cap l"
proof (cases "held l k")
  case (Some old)
  then show ?thesis using push_replace [OF assms(1) Some assms(2)] that(2) by blast
next
  case None
  show ?thesis
  proof (cases "lru_len L l < cap l")
    case True
    then show ?thesis using push_room [OF assms(1) None True assms(2)] that(1) by blast
  next
    case False
    then have full: "cap l \<le> lru_len L l" by simp
    obtain k' v' where e: "e = Some (k', v')" "held l k' = Some v'"
        "held l' = (held l)(k' := None, k \<mapsto> v)" "good l'" "cap l' = cap l"
      using push_full [OF assms(1) None full assms(2)] by blast
    then have "k' \<noteq> k" using None by auto
    then show ?thesis using e None full that(3) by blast
  qed
qed

lemma cache_set_ok:
  assumes ok: "cache_ok good held s" and run: "cache_set L k v ts s = (r, s')"
  shows "cache_ok good held s' \<and> cap (entries s') = cap (entries s) \<and>
     held (entries s') k = Some v \<and> idx (key_to_tags s') k = set ts \<and>
     (\<exists>evicted.
        (evicted \<noteq> None \<longrightarrow>
           held (entries s) k = None \<and> cap (entries s) \<le> card (dom (held (entries s)))) \<and>
        (\<forall>k'. k' \<noteq> k \<longrightarrow>
           (if evicted = Some k' then held (entries s') k' = None
            else held (entries s') k' = held (entries s) k' \<and>
                 idx (key_to_tags s') k' = idx (key_to_tags s) k')))"
proof -
  define s1 where "s1 = clear_tags_for_key k s"
  obtain e l' where push: "lru_push L k v (entries s) = (e, l')" by fastforce
  define s2 where "s2 = s1\<lparr>entries := l'\<rparr>"
  define s3 where "s3 = (case e of Some (k', _) \<Rightarrow> if k' \<noteq> k then clear_tags_for_key k' s2 else s2
                                 | None \<Rightarrow> s2)"
  have s': "s' = s3\<lparr>tag_to_keys := fold (add_tag k) (remdups ts) (tag_to_keys s3),
                    key_to_tags := AList.update k (remdups ts) (key_to_tags s3)\<rparr>"
    using run push unfolding s3_def s2_def s1_def by (auto simp: cache_set_def Let_def)
  have g: "good (entries s)" and io: "index_ok s" and ix: "indexed s = dom (held (entries s))"
    using ok by (auto simp: cache_ok_def)
  have io2: "index_ok s2" by (simp add: s2_def s1_def clear_tags_for_key_ok io)
  have ix2: "indexed s2 = dom (held (entries s)) - {k}" by (simp add: s2_def s1_def ix)
  have t2: "idx (key_to_tags s2) k' = (if k' = k then {} else idx (key_to_tags s) k')" for k'
    by (simp add: s2_def s1_def)
  have e2: "entries s3 = l'" by (simp add: s3_def s2_def split: option.splits)
  have io3: "index_ok s3" by (simp add: s3_def io2 clear_tags_for_key_ok split: option.splits)
  have t3: "idx (key_to_tags s3) k = {}" by (simp add: s3_def t2 split: option.splits)
  have io': "index_ok s'" unfolding s' by (rule index_ok_insert [OF io3 t3])
  have ix': "indexed s' = insert k (indexed s3)"
    by (simp add: s' indexed_def map_of_update_dom)
  have t': "idx (key_to_tags s') k' = (if k' = k then set ts else idx (key_to_tags s3) k')" for k'
    by (simp add: s')
  have e': "entries s' = l'" by (simp add: s' e2)
  from g push show ?thesis
  proof (cases rule: push_cases)
    case 1
    then have "s3 = s2" by (simp add: s3_def)
    with 1 show ?thesis
      using io' ix' ix2 t' t2 e' by (intro conjI exI [of _ None]) (auto simp: cache_ok_def)
  next
    case (2 old)
    then have "s3 = s2" by (simp add: s3_def)
    with 2 show ?thesis
      using io' ix' ix2 t' t2 e' by (intro conjI exI [of _ None]) (auto simp: cache_ok_def)
  next
    case (3 k' v')
    then have "s3 = clear_tags_for_key k' s2" by (simp add: s3_def)
    with 3 show ?thesis
      using io' ix' ix2 t' t2 e' len_law [OF g]
      by (intro conjI exI [of _ "Some k'"]) (auto simp: cache_ok_def)
  qed
qed

lemma cache_get_ok:
  assumes "cache_ok good held s" "cache_get L k s = (r, s')"
  shows "cache_ok good held s' \<and> cap (entries s') = cap (entries s) \<and>
     r = Inr (held (entries s) k) \<and> held (entries s') = held (entries s) \<and>
     key_to_tags s' = key_to_tags s \<and> tag_to_keys s' = tag_to_keys s"
  using assms get_law
  by (auto simp: cache_get_def cache_ok_def split: prod.splits)

definition drop_key :: "string \<Rightarrow> 'l in_memory_state \<Rightarrow> 'l in_memory_state" where
  "drop_key key st = clear_tags_for_key key (st\<lparr>entries := lru_pop L key (entries st)\<rparr>)"

lemma drop_key_ok:
  assumes "cache_ok good held s"
  shows "cache_ok good held (drop_key k s) \<and> cap (entries (drop_key k s)) = cap (entries s) \<and>
     held (entries (drop_key k s)) = (held (entries s))(k := None) \<and>
     (\<forall>k'. k' \<noteq> k \<longrightarrow> idx (key_to_tags (drop_key k s)) k' = idx (key_to_tags s) k')"
proof -
  have "index_ok (s\<lparr>entries := lru_pop L k (entries s)\<rparr>)" using assms by (simp add: cache_ok_def)
  from clear_tags_for_key_ok [OF this] assms pop_law show ?thesis
    by (auto simp: drop_key_def cache_ok_def)
qed

lemma cache_remove_ok:
  assumes "cache_ok good held s" "cache_remove L k s = (r, s')"
  shows "cache_ok good held s' \<and> cap (entries s') = cap (entries s) \<and>
     held (entries s') = (held (entries s))(k := None) \<and>
     (\<forall>k'. k' \<noteq> k \<longrightarrow> idx (key_to_tags s') k' = idx (key_to_tags s) k')"
  using assms(2) drop_key_ok [OF assms(1), of k] by (auto simp: cache_remove_def drop_key_def)

lemma fold_drop_key_ok:
  assumes "cache_ok good held s"
  shows "cache_ok good held (fold drop_key ks s) \<and>
     cap (entries (fold drop_key ks s)) = cap (entries s) \<and>
     held (entries (fold drop_key ks s)) = (\<lambda>k. if k \<in> set ks then None else held (entries s) k) \<and>
     (\<forall>k'. k' \<notin> set ks \<longrightarrow> idx (key_to_tags (fold drop_key ks s)) k' = idx (key_to_tags s) k')"
  using assms
proof (induction ks arbitrary: s)
  case Nil
  then show ?case by auto
next
  case (Cons k ks)
  note d = drop_key_ok [OF Cons.prems, of k]
  from d have "cache_ok good held (drop_key k s)" by blast
  from Cons.IH [OF this] d show ?case by (auto simp: fun_eq_iff)
qed

lemma cache_remove_by_tag_ok:
  assumes ok: "cache_ok good held s" and run: "cache_remove_by_tag L t s = (r, s')"
  shows "cache_ok good held s' \<and> cap (entries s') = cap (entries s) \<and>
     held (entries s') = (\<lambda>k. if t \<in> idx (key_to_tags s) k then None else held (entries s) k) \<and>
     (\<forall>k. t \<notin> idx (key_to_tags s) k \<longrightarrow> idx (key_to_tags s') k = idx (key_to_tags s) k)"
proof -
  define ks where "ks = (case map_of (tag_to_keys s) t of Some ks \<Rightarrow> ks | None \<Rightarrow> [])"
  have s': "s' = fold drop_key ks s"
    using run by (simp add: cache_remove_by_tag_def ks_def drop_key_def [abs_def] Let_def)
  have "k \<in> set ks \<longleftrightarrow> t \<in> idx (key_to_tags s) k" for k
    using ok index_ok_mem [of s k t] by (simp add: cache_ok_def ks_def idx_def)
  then show ?thesis using fold_drop_key_ok [OF ok, of ks] by (simp add: s')
qed

lemma cache_clear_ok:
  assumes "cache_ok good held s" "cache_clear L s = (r, s')"
  shows "cache_ok good held s' \<and> cap (entries s') = cap (entries s) \<and>
     held (entries s') = Map.empty \<and> key_to_tags s' = []"
  using assms clear_law [of "entries s"]
  by (auto simp: cache_clear_def cache_ok_def index_ok_def indexed_def no_empty_def)

lemma with_capacity_ok:
  "cache_ok good held (with_capacity L c) \<and> cap (entries (with_capacity L c)) = max 1 c"
  using new_law [of "if c = 0 then 1 else c"]
  by (auto simp: with_capacity_def cache_ok_def index_ok_def indexed_def no_empty_def)

lemma cache_get_by_tags_ok:
  assumes ok: "cache_ok good held s" and run: "cache_get_by_tags L tags s = (r, s')"
  shows "s' = s \<and> (\<exists>es. r = Inr es \<and>
     set es = {(k, v). tags \<noteq> [] \<and> held (entries s) k = Some v \<and>
                       set tags \<subseteq> idx (key_to_tags s) k})"
proof (cases "tags = []")
  case True
  with run show ?thesis by (simp add: cache_get_by_tags_def)
next
  case False
  have "k \<in> set (intersect_tags (tag_to_keys s) tags None) \<longleftrightarrow> set tags \<subseteq> idx (key_to_tags s) k" for k
    using ok False by (auto simp: set_intersect_tags cache_ok_def index_ok_mem)
  moreover have "lru_peek L k (entries s) = held (entries s) k" for k
    using ok peek_law by (simp add: cache_ok_def)
  ultimately show ?thesis
    using run False by (auto simp: cache_get_by_tags_def set_map_filter_pairs)
qed

end

text \<open>The repository is an instance of the trait's contract, with exact reads.\<close>

sublocale lru_cache \<subseteq> mem: cache_repository "in_memory_repo L" "cache_ok good held"
  "\<lambda>s. held (entries s)"
proof
  fix s k v ts and r :: "unit result" and s'
  assume "cache_ok good held s" "rep_set (in_memory_repo L) k v ts s = (r, s')"
  from cache_set_ok [OF this(1), of k v ts r s'] this(2)
  show "cache_ok good held s' \<and> (r = Inr () \<longrightarrow> held (entries s') k = Some v) \<and>
      (\<forall>k'. k' \<noteq> k \<longrightarrow> held (entries s') k' = None \<or> held (entries s') k' = held (entries s) k')"
    by (auto simp: in_memory_repo_def) metis
next
  fix s k and g :: "string option result" and s'
  assume "cache_ok good held s" "rep_get (in_memory_repo L) k s = (g, s')"
  from cache_get_ok [OF this(1), of k g s'] this(2)
  show "cache_ok good held s' \<and> fades (held (entries s)) (held (entries s')) \<and>
      (\<forall>v. g = Inr (Some v) \<longleftrightarrow> held (entries s) k = Some v)"
    by (simp add: in_memory_repo_def)
next
  fix s k and r :: "unit result" and s'
  assume "cache_ok good held s" "rep_remove (in_memory_repo L) k s = (r, s')"
  from cache_remove_ok [OF this(1), of k r s'] this(2)
  show "cache_ok good held s' \<and> fades (held (entries s)) (held (entries s')) \<and>
      (r = Inr () \<longrightarrow> held (entries s') k = None)"
    by (simp add: in_memory_repo_def fades_def)
next
  fix s t and r :: "unit result" and s'
  assume "cache_ok good held s" "rep_remove_by_tag (in_memory_repo L) t s = (r, s')"
  from cache_remove_by_tag_ok [OF this(1), of t r s'] this(2)
  show "cache_ok good held s' \<and> fades (held (entries s)) (held (entries s'))"
    by (simp add: in_memory_repo_def fades_def)
next
  fix s and r :: "unit result" and s'
  assume "cache_ok good held s" "rep_clear (in_memory_repo L) s = (r, s')"
  from cache_clear_ok [OF this(1), of r s'] this(2)
  show "cache_ok good held s' \<and> fades (held (entries s)) (held (entries s')) \<and>
      (r = Inr () \<longrightarrow> held (entries s') = Map.empty)"
    by (simp add: in_memory_repo_def fades_def)
next
  fix s tags and gs :: "(string \<times> string) list result" and s'
  assume "cache_ok good held s" "rep_get_by_tags (in_memory_repo L) tags s = (gs, s')"
  from cache_get_by_tags_ok [OF this(1), of tags gs s'] this \<open>cache_ok good held s\<close>
  show "cache_ok good held s' \<and> fades (held (entries s)) (held (entries s')) \<and>
      (\<forall>es. gs = Inr es \<longrightarrow> (\<forall>(k, v)\<in>set es. held (entries s) k = Some v))"
    by (auto simp: in_memory_repo_def)
qed

context lru_cache
begin

lemma mem_repository:
  "cache_repository (in_memory_repo L) (cache_ok good held) (\<lambda>s. held (entries s))"
  by (rule mem.cache_repository_axioms)

end

section \<open>The encrypting repository meets it\<close>

text \<open>
  What the wrapper relies on of the cipher, the random source and base64: opening
  inverts sealing and a sealed text carries its 16-byte tag, a random draw has the
  length asked for, decoding inverts encoding, and base64 text is valid UTF-8.
\<close>

definition cache_crypto_ok :: "'w cache_crypto \<Rightarrow> bool" where
  "cache_crypto_ok cc =
     ((\<forall>k n m c. cc_seal cc k n m = Some c \<longrightarrow> cc_open cc k n c = Some m \<and> TAG_LEN \<le> length c) \<and>
      (\<forall>n w b w'. cc_random cc n w = (Inr b, w') \<longrightarrow> length b = n) \<and>
      (\<forall>b. cc_b64_decode cc (cc_b64_encode cc b) = Inr b \<and> utf8_string (cc_b64_encode cc b)))"

lemma cache_decrypt_encrypt:
  assumes ok: "cache_crypto_ok cc" and utf8: "utf8_string v"
    and enc: "cache_encrypt cc ek key v w = (Inr e, w')"
  shows "cache_decrypt cc ek key e = Inr (Some v) \<and> utf8_string e"
proof -
  obtain salt k n sealed where p: "cc_random cc SALT_LEN w = (Inr salt, w')"
      "derive cc ek salt key = Inr (k, n)" "cc_new_cipher cc k = None"
      "cc_seal cc k n (as_bytes v) = Some sealed" "e = cc_b64_encode cc (salt @ sealed)"
    using enc by (auto simp: cache_encrypt_def split: prod.splits sum.splits option.splits)
  have "length salt = SALT_LEN" "cc_open cc k n sealed = Some (as_bytes v)" "TAG_LEN \<le> length sealed"
    using ok p unfolding cache_crypto_ok_def by blast+
  moreover have "cc_b64_decode cc e = Inr (salt @ sealed)" "utf8_string e"
    using ok p(5) unfolding cache_crypto_ok_def by blast+
  ultimately show ?thesis
    using p by (simp add: cache_decrypt_def from_utf8_as_bytes utf8)
qed

definition decrypted ::
  "'w cache_crypto \<Rightarrow> bytes \<Rightarrow> (string \<Rightarrow> string option) \<Rightarrow> string \<Rightarrow> string option" where
  "decrypted cc ek m k =
     (case m k of
        None \<Rightarrow> None
      | Some e \<Rightarrow> (case cache_decrypt cc ek k e of Inr v \<Rightarrow> v | Inl _ \<Rightarrow> None))"

lemma decrypted_fades: "fades m m' \<Longrightarrow> fades (decrypted cc ek m) (decrypted cc ek m')"
  unfolding fades_def decrypted_def by (metis option.case(1))

lemma decrypted_empty [simp]: "decrypted cc ek Map.empty = Map.empty"
  by (simp add: decrypted_def fun_eq_iff)

lemma decrypted_None: "m k = None \<Longrightarrow> decrypted cc ek m k = None"
  by (simp add: decrypted_def)

lemma decrypt_entries_mem:
  "decrypt_entries cc ek es = Inr (Some out) \<Longrightarrow> (k, v) \<in> set out \<Longrightarrow>
     \<exists>e. (k, e) \<in> set es \<and> cache_decrypt cc ek k e = Inr (Some v)"
proof (induction es arbitrary: out)
  case (Cons p es)
  obtain key enc where p: "p = (key, enc)" by fastforce
  obtain x rest where d: "cache_decrypt cc ek key enc = Inr (Some x)"
      "decrypt_entries cc ek es = Inr (Some rest)" "out = (key, x) # rest"
    using Cons.prems(1) by (auto simp: p split: sum.splits option.splits)
  show ?case
  proof (cases "(k, v) \<in> set rest")
    case True
    with Cons.IH [OF d(2)] show ?thesis by auto
  next
    case False
    with Cons.prems(2) d p show ?thesis by auto
  qed
qed simp

locale encrypted_repository = cache_repository R inv content
  for R :: "'s cache_repo" and inv content +
  fixes cc :: "'w cache_crypto" and ek :: bytes
  assumes crypto: "cache_crypto_ok cc"
begin

lemma encrypted_set_law:
  assumes i: "inv s" and u: "utf8_string v" and run: "encrypted_set cc ek R k v ts (s, w) = (r, s', w')"
  shows "inv s' \<and> (r = Inr () \<longrightarrow> decrypted cc ek (content s') k = Some v) \<and>
     (\<forall>k'. k' \<noteq> k \<longrightarrow> decrypted cc ek (content s') k' = None \<or>
        decrypted cc ek (content s') k' = decrypted cc ek (content s) k')"
proof (cases "cache_encrypt cc ek k v w")
  case (Pair x w1)
  show ?thesis
  proof (cases x)
    case (Inl e)
    with Pair run i show ?thesis by (auto simp: encrypted_set_def)
  next
    case (Inr e)
    with Pair have enc: "cache_encrypt cc ek k v w = (Inr e, w1)" by simp
    then have set: "rep_set R k e ts s = (r, s')"
      using run by (auto simp: encrypted_set_def split: prod.splits)
    note d = cache_decrypt_encrypt [OF crypto u enc]
    from set_law [OF i _ set] d show ?thesis by (auto simp: decrypted_def)
  qed
qed

lemma encrypted_get_law:
  assumes i: "inv s" and run: "encrypted_get cc ek R k (s, w) = (g, s', w')"
  shows "inv s' \<and> fades (decrypted cc ek (content s)) (decrypted cc ek (content s')) \<and>
     (\<forall>v. g = Inr (Some v) \<longleftrightarrow> decrypted cc ek (content s) k = Some v)"
proof (cases "rep_get R k s")
  case (Pair x s1)
  note got = get_law [OF i Pair]
  show ?thesis
  proof (cases "\<exists>e. x = Inr (Some e)")
    case False
    then have "content s k = None" using got by (metis option.exhaust)
    then have "decrypted cc ek (content s) k = None" by (rule decrypted_None)
    moreover have "s' = s1 \<and> (\<forall>v. g \<noteq> Inr (Some v))"
      using False run Pair by (auto simp: encrypted_get_def split: sum.splits option.splits)
    ultimately show ?thesis using got by (simp add: decrypted_fades)
  next
    case True
    then obtain e where e: "x = Inr (Some e)" by blast
    then have c: "content s k = Some e" using got by blast
    have cl: "rep_clear R s1 = (r2, s2) \<Longrightarrow> inv s2 \<and> fades (content s) (content s2)" for r2 s2
      using clear_law [of s1 r2 s2] got fades_trans by blast
    show ?thesis
    proof (cases "cache_decrypt cc ek k e = Inr None")
      case True
      obtain r2 s2 where r2: "rep_clear R s1 = (r2, s2)" by fastforce
      have "s' = s2 \<and> (\<forall>v. g \<noteq> Inr (Some v))"
        using run Pair e True r2 by (auto simp: encrypted_get_def split: sum.splits)
      moreover have "decrypted cc ek (content s) k = None" by (simp add: decrypted_def c True)
      ultimately show ?thesis using cl [OF r2] by (simp add: decrypted_fades)
    next
      case False
      then have "s' = s1 \<and> (\<forall>v. g = Inr (Some v) \<longleftrightarrow> decrypted cc ek (content s) k = Some v)"
        using run Pair e c
        by (auto simp: encrypted_get_def decrypted_def split: sum.splits option.splits)
      with got show ?thesis by (simp add: decrypted_fades)
    qed
  qed
qed

lemma encrypted_get_by_tags_law:
  assumes i: "inv s" and run: "encrypted_get_by_tags cc ek R tags (s, w) = (g, s', w')"
  shows "inv s' \<and> fades (decrypted cc ek (content s)) (decrypted cc ek (content s')) \<and>
     (\<forall>es. g = Inr es \<longrightarrow> (\<forall>(k, v)\<in>set es. decrypted cc ek (content s) k = Some v))"
proof (cases "rep_get_by_tags R tags s")
  case (Pair x s1)
  note got = get_by_tags_law [OF i Pair]
  have cl: "rep_clear R s1 = (r2, s2) \<Longrightarrow> inv s2 \<and> fades (content s) (content s2)" for r2 s2
    using clear_law [of s1 r2 s2] got fades_trans by blast
  have m: "decrypted cc ek (content s) k = Some v"
    if "x = Inr es" "decrypt_entries cc ek es = Inr (Some out)" "(k, v) \<in> set out" for es out k v
    using decrypt_entries_mem [OF that(2,3)] got that(1) by (auto simp: decrypted_def)
  show ?thesis
  proof (cases "\<exists>es. x = Inr es \<and> decrypt_entries cc ek es = Inr None")
    case True
    obtain r2 s2 where r2: "rep_clear R s1 = (r2, s2)" by fastforce
    have "s' = s2 \<and> (\<forall>es. g = Inr es \<longrightarrow> es = [])"
      using run Pair True r2 by (auto simp: encrypted_get_by_tags_def split: sum.splits)
    then show ?thesis using cl [OF r2] by (auto simp: decrypted_fades)
  next
    case False
    then have "s' = s1 \<and> (\<forall>out. g = Inr out \<longrightarrow>
        (\<exists>es. x = Inr es \<and> decrypt_entries cc ek es = Inr (Some out)))"
      using run Pair by (auto simp: encrypted_get_by_tags_def split: sum.splits option.splits)
    with got m show ?thesis by (fastforce simp: decrypted_fades)
  qed
qed

end

sublocale encrypted_repository \<subseteq> enc: cache_repository "encrypted_repo cc ek R" "\<lambda>(s, w). inv s"
  "\<lambda>(s, w). decrypted cc ek (content s)"
proof
  fix sw k v ts and r :: "unit result" and sw'
  assume "(\<lambda>(s, w). inv s) sw" "utf8_string v"
    "rep_set (encrypted_repo cc ek R) k v ts sw = (r, sw')"
  with encrypted_set_law [of "fst sw" v k ts "snd sw" r "fst sw'" "snd sw'"]
  show "(\<lambda>(s, w). inv s) sw' \<and> (r = Inr () \<longrightarrow> (\<lambda>(s, w). decrypted cc ek (content s)) sw' k = Some v) \<and>
    (\<forall>k'. k' \<noteq> k \<longrightarrow> (\<lambda>(s, w). decrypted cc ek (content s)) sw' k' = None \<or>
      (\<lambda>(s, w). decrypted cc ek (content s)) sw' k' = (\<lambda>(s, w). decrypted cc ek (content s)) sw k')"
    by (simp add: encrypted_repo_def split_beta)
next
  fix sw k and g :: "string option result" and sw'
  assume "(\<lambda>(s, w). inv s) sw" "rep_get (encrypted_repo cc ek R) k sw = (g, sw')"
  with encrypted_get_law [of "fst sw" k "snd sw" g "fst sw'" "snd sw'"]
  show "(\<lambda>(s, w). inv s) sw' \<and>
    fades ((\<lambda>(s, w). decrypted cc ek (content s)) sw) ((\<lambda>(s, w). decrypted cc ek (content s)) sw') \<and>
    (\<forall>v. g = Inr (Some v) \<longleftrightarrow> (\<lambda>(s, w). decrypted cc ek (content s)) sw k = Some v)"
    by (simp add: encrypted_repo_def split_beta)
next
  fix sw k and r :: "unit result" and sw'
  assume "(\<lambda>(s, w). inv s) sw" "rep_remove (encrypted_repo cc ek R) k sw = (r, sw')"
  with remove_law [of "fst sw" k r "fst sw'"]
  show "(\<lambda>(s, w). inv s) sw' \<and>
    fades ((\<lambda>(s, w). decrypted cc ek (content s)) sw) ((\<lambda>(s, w). decrypted cc ek (content s)) sw') \<and>
    (r = Inr () \<longrightarrow> (\<lambda>(s, w). decrypted cc ek (content s)) sw' k = None)"
    by (auto simp: encrypted_repo_def lift_inner_def decrypted_None intro: decrypted_fades split: prod.splits)
next
  fix sw t and r :: "unit result" and sw'
  assume "(\<lambda>(s, w). inv s) sw" "rep_remove_by_tag (encrypted_repo cc ek R) t sw = (r, sw')"
  with remove_by_tag_law [of "fst sw" t r "fst sw'"]
  show "(\<lambda>(s, w). inv s) sw' \<and>
    fades ((\<lambda>(s, w). decrypted cc ek (content s)) sw) ((\<lambda>(s, w). decrypted cc ek (content s)) sw')"
    by (auto simp: encrypted_repo_def lift_inner_def intro: decrypted_fades split: prod.splits)
next
  fix sw and r :: "unit result" and sw'
  assume "(\<lambda>(s, w). inv s) sw" "rep_clear (encrypted_repo cc ek R) sw = (r, sw')"
  with clear_law [of "fst sw" r "fst sw'"]
  show "(\<lambda>(s, w). inv s) sw' \<and>
    fades ((\<lambda>(s, w). decrypted cc ek (content s)) sw) ((\<lambda>(s, w). decrypted cc ek (content s)) sw') \<and>
    (r = Inr () \<longrightarrow> (\<lambda>(s, w). decrypted cc ek (content s)) sw' = Map.empty)"
    by (auto simp: encrypted_repo_def lift_inner_def intro: decrypted_fades split: prod.splits)
next
  fix sw tags and gs :: "(string \<times> string) list result" and sw'
  assume "(\<lambda>(s, w). inv s) sw" "rep_get_by_tags (encrypted_repo cc ek R) tags sw = (gs, sw')"
  with encrypted_get_by_tags_law [of "fst sw" tags "snd sw" gs "fst sw'" "snd sw'"]
  show "(\<lambda>(s, w). inv s) sw' \<and>
    fades ((\<lambda>(s, w). decrypted cc ek (content s)) sw) ((\<lambda>(s, w). decrypted cc ek (content s)) sw') \<and>
    (\<forall>es. gs = Inr es \<longrightarrow> (\<forall>(k, v)\<in>set es. (\<lambda>(s, w). decrypted cc ek (content s)) sw k = Some v))"
    by (simp add: encrypted_repo_def split_beta)
qed

section \<open>A least-recently-used list\<close>

text \<open>
  A reference cache with the laws of \<open>lru_cache\<close>: a capacity and the entries, most
  recently used first.
\<close>

type_synonym lru_list = "nat \<times> (string \<times> string) list"

fun lru_list_push :: "string \<Rightarrow> string \<Rightarrow> lru_list \<Rightarrow> (string \<times> string) option \<times> lru_list" where
  "lru_list_push k v (c, xs) =
     (case map_of xs k of
        Some old \<Rightarrow> (Some (k, old), (c, (k, v) # AList.delete k xs))
      | None \<Rightarrow>
          if length xs < c then (None, (c, (k, v) # xs))
          else (Some (last xs), (c, (k, v) # butlast xs)))"

fun lru_list_get :: "string \<Rightarrow> lru_list \<Rightarrow> string option \<times> lru_list" where
  "lru_list_get k (c, xs) =
     (case map_of xs k of
        Some v \<Rightarrow> (Some v, (c, (k, v) # AList.delete k xs))
      | None \<Rightarrow> (None, (c, xs)))"

definition list_lru :: "lru_list lru" where
  "list_lru =
     \<lparr>lru_new = (\<lambda>c. (c, [])), lru_push = lru_list_push, lru_get = lru_list_get,
      lru_pop = (\<lambda>k (c, xs). (c, AList.delete k xs)), lru_peek = (\<lambda>k (c, xs). map_of xs k),
      lru_clear = (\<lambda>(c, xs). (c, [])), lru_len = (\<lambda>(c, xs). length xs)\<rparr>"

definition lru_list_good :: "lru_list \<Rightarrow> bool" where
  "lru_list_good l = (0 < fst l \<and> distinct (map fst (snd l)) \<and> length (snd l) \<le> fst l)"

definition lru_list_held :: "lru_list \<Rightarrow> string \<Rightarrow> string option" where
  "lru_list_held l = map_of (snd l)"

lemma length_delete_present:
  "map_of xs k = Some v \<Longrightarrow> length (AList.delete k xs) < length xs"
  by (induction xs) (auto simp: le_imp_less_Suc length_delete_le)

lemma delete_present_fits:
  "(k, v) \<in> set xs \<Longrightarrow> length xs \<le> c \<Longrightarrow> Suc (length (AList.delete k xs)) \<le> c"
  using length_delete_present [of xs k] by (metis Suc_leI le_trans weak_map_of_SomeI)

lemma map_of_butlast:
  assumes "xs \<noteq> []" "distinct (map fst xs)"
  shows "map_of (butlast xs) = (map_of xs)(fst (last xs) := None)"
proof -
  obtain ys y where xs: "xs = ys @ [y]" using assms(1) by (metis append_butlast_last_id)
  then have "fst y \<notin> set (map fst ys)" using assms(2) by auto
  then have "map_of ys (fst y) = None" by (simp add: map_of_eq_None_iff)
  then show ?thesis by (auto simp: xs fun_eq_iff map_add_def split: option.splits)
qed

interpretation list_lru: lru_cache list_lru lru_list_good lru_list_held fst
proof (unfold_locales, goal_cases)
  case (1 c)
  then show ?case by (simp add: list_lru_def lru_list_good_def lru_list_held_def)
next
  case (2 l)
  then show ?case
    by (auto simp: list_lru_def lru_list_good_def lru_list_held_def dom_map_of_conv_image_fst
        finite_dom_map_of split_beta distinct_card simp flip: set_map)
next
  case (3 l k old v e l')
  then show ?case
    using length_delete_present [of "snd l" k old] by (cases l)
      (auto simp: list_lru_def lru_list_good_def lru_list_held_def distinct_delete delete_conv'
         delete_notin_dom)
next
  case (4 l k v e l')
  then have "k \<notin> fst ` set (snd l)" by (simp add: lru_list_held_def map_of_eq_None_iff)
  with 4 show ?case
    by (cases l) (auto simp: list_lru_def lru_list_good_def lru_list_held_def)
next
  case (5 l k v e l')
  then obtain c xs where l: "l = (c, xs)" by (cases l)
  with 5 have "k \<notin> fst ` set xs" by (simp add: lru_list_held_def map_of_eq_None_iff)
  with 5 l have xs: "xs \<noteq> []" "distinct (map fst xs)" "k \<notin> fst ` set xs" "length xs = c" "0 < c"
      "e = Some (last xs)" "l' = (c, (k, v) # butlast xs)"
    by (auto simp: list_lru_def lru_list_good_def lru_list_held_def)
  obtain ek ev where last: "last xs = (ek, ev)" by fastforce
  then have "map_of xs ek = Some ev" using xs by (metis last_in_set map_of_is_SomeI)
  moreover have "k \<notin> fst ` set (butlast xs)" using xs(3) by (auto dest: in_set_butlastD)
  moreover have "distinct (map fst (butlast xs))" using xs(2) by (simp add: map_butlast distinct_butlast)
  ultimately show ?case
    using xs map_of_butlast [OF xs(1,2)] last
    by (auto simp: l lru_list_good_def lru_list_held_def)
next
  case (6 l k x l')
  then show ?case
    by (cases l, cases "map_of (snd l) k")
      (auto simp: list_lru_def lru_list_good_def lru_list_held_def distinct_delete delete_conv'
         delete_notin_dom intro: delete_present_fits split: option.splits)
next
  case (7 l k)
  then show ?case
    using length_delete_le [of k "snd l"] by (cases l)
      (auto simp: list_lru_def lru_list_good_def lru_list_held_def distinct_delete delete_conv')
next
  case (8 l k)
  then show ?case by (cases l) (simp add: list_lru_def lru_list_held_def)
next
  case (9 l)
  then show ?case by (cases l) (simp add: list_lru_def lru_list_good_def lru_list_held_def)
qed

section \<open>Properties\<close>

datatype cache_op =
    OpSet string string "string list"
  | OpGet string
  | OpRemove string
  | OpRemoveByTag string
  | OpClear
  | OpGetByTags "string list"

fun run_op :: "'s cache_repo \<Rightarrow> cache_op \<Rightarrow> 's \<Rightarrow> 's" where
  "run_op R (OpSet k v ts) s = snd (rep_set R k v ts s)"
| "run_op R (OpGet k) s = snd (rep_get R k s)"
| "run_op R (OpRemove k) s = snd (rep_remove R k s)"
| "run_op R (OpRemoveByTag t) s = snd (rep_remove_by_tag R t s)"
| "run_op R OpClear s = snd (rep_clear R s)"
| "run_op R (OpGetByTags ts) s = snd (rep_get_by_tags R ts s)"

context lru_cache
begin

lemma run_op_ok:
  assumes "cache_ok good held s"
  shows "cache_ok good held (run_op (in_memory_repo L) op s) \<and>
     cap (entries (run_op (in_memory_repo L) op s)) = cap (entries s)"
proof (cases op)
  case (OpSet k v ts)
  with cache_set_ok [OF assms] show ?thesis
    by (cases "cache_set L k v ts s") (auto simp: in_memory_repo_def)
next
  case (OpGet k)
  with cache_get_ok [OF assms] show ?thesis
    by (cases "cache_get L k s") (auto simp: in_memory_repo_def)
next
  case (OpRemove k)
  with cache_remove_ok [OF assms] show ?thesis
    by (cases "cache_remove L k s") (auto simp: in_memory_repo_def)
next
  case (OpRemoveByTag t)
  with cache_remove_by_tag_ok [OF assms] show ?thesis
    by (cases "cache_remove_by_tag L t s") (auto simp: in_memory_repo_def)
next
  case OpClear
  with cache_clear_ok [OF assms] show ?thesis
    by (cases "cache_clear L s") (auto simp: in_memory_repo_def)
next
  case (OpGetByTags ts)
  with cache_get_by_tags_ok [OF assms] assms show ?thesis
    by (cases "cache_get_by_tags L ts s") (auto simp: in_memory_repo_def)
qed

lemma run_ops_ok:
  assumes "cache_ok good held s"
  shows "cache_ok good held (fold (run_op (in_memory_repo L)) ops s) \<and>
     cap (entries (fold (run_op (in_memory_repo L)) ops s)) = cap (entries s)"
  using assms by (induction ops arbitrary: s) (simp_all add: run_op_ok)

lemma cache_ok_sizes:
  assumes "cache_ok good held s"
  shows "tag_index_len s = cache_len L s \<and> cache_len L s \<le> cap (entries s)"
proof -
  have "card (indexed s) = length (key_to_tags s)"
    using assms by (simp add: cache_ok_def index_ok_def indexed_def dom_map_of_conv_image_fst
        distinct_card flip: set_map) (metis distinct_card length_map)
  then show ?thesis
    using assms len_law [of "entries s"] by (simp add: cache_ok_def tag_index_len_def cache_len_def)
qed

end

text \<open>C3: whatever operations run against a new in-memory cache, over any store with the
  documented behaviour of the \<open>lru\<close> crate, the two tag indexes stay inverse to each other and
  index exactly the held keys, so the index never outgrows the entries, and the entries never
  outgrow the capacity (raised to one when zero).\<close>

theorem cache_reachable_ok:
  assumes "lru_cache L good held cap"
  shows "cache_ok good held (fold (run_op (in_memory_repo L)) ops (with_capacity L c)) \<and>
     tag_index_len (fold (run_op (in_memory_repo L)) ops (with_capacity L c)) =
       cache_len L (fold (run_op (in_memory_repo L)) ops (with_capacity L c)) \<and>
     cache_len L (fold (run_op (in_memory_repo L)) ops (with_capacity L c)) \<le> max 1 c"
proof -
  note lru = lru_cache.with_capacity_ok [OF assms, of c]
  note ok = lru_cache.run_ops_ok [OF assms conjunct1 [OF lru], of ops]
  show ?thesis using ok lru lru_cache.cache_ok_sizes [OF assms conjunct1 [OF ok]] by simp
qed

text \<open>The abstract view of the repository: each held key with its value and its tags.\<close>

definition tagged ::
  "('l \<Rightarrow> string \<Rightarrow> string option) \<Rightarrow> 'l in_memory_state \<Rightarrow> string \<Rightarrow> (string \<times> string set) option" where
  "tagged held s k = map_option (\<lambda>v. (v, idx (key_to_tags s) k)) (held (entries s) k)"

text \<open>\<open>remove_by_tag\<close> removes exactly the entries that carry the tag, and
  \<open>get_by_tags\<close> with at least one tag returns exactly the held entries that carry all of
  them and changes nothing.\<close>

theorem cache_tags_exact:
  assumes "lru_cache L good held cap" and "cache_ok good held s" and "tags \<noteq> []"
  shows "tagged held (snd (cache_remove_by_tag L t s)) =
       (\<lambda>k. case tagged held s k of
              None \<Rightarrow> None
            | Some (v, ts) \<Rightarrow> if t \<in> ts then None else Some (v, ts)) \<and>
     (\<exists>es. cache_get_by_tags L tags s = (Inr es, s) \<and>
           set es = {(k, v). \<exists>ts. tagged held s k = Some (v, ts) \<and> set tags \<subseteq> ts})"
proof
  obtain r s' where r: "cache_remove_by_tag L t s = (r, s')" by fastforce
  show "tagged held (snd (cache_remove_by_tag L t s)) =
       (\<lambda>k. case tagged held s k of
              None \<Rightarrow> None
            | Some (v, ts) \<Rightarrow> if t \<in> ts then None else Some (v, ts))"
    using lru_cache.cache_remove_by_tag_ok [OF assms(1,2) r]
    by (auto simp: r tagged_def fun_eq_iff split: option.splits)
  obtain g s'' where g: "cache_get_by_tags L tags s = (g, s'')" by fastforce
  show "\<exists>es. cache_get_by_tags L tags s = (Inr es, s) \<and>
           set es = {(k, v). \<exists>ts. tagged held s k = Some (v, ts) \<and> set tags \<subseteq> ts}"
    using lru_cache.cache_get_by_tags_ok [OF assms(1,2) g] assms(3)
    by (auto simp: g tagged_def)
qed

text \<open>C4: \<open>set\<close> stores the value under exactly the given tags; every other entry is kept with
  its value and tags, except that at most one is evicted, and only when the key was not held
  and the cache was full.\<close>

theorem cache_set_exact:
  assumes "lru_cache L good held cap" and "cache_ok good held s"
  shows "tagged held (snd (cache_set L k v ts s)) k = Some (v, set ts) \<and>
     (\<exists>evicted.
        (evicted \<noteq> None \<longrightarrow> held (entries s) k = None \<and> cap (entries s) \<le> cache_len L s) \<and>
        (\<forall>k'. k' \<noteq> k \<longrightarrow> tagged held (snd (cache_set L k v ts s)) k' =
                (if evicted = Some k' then None else tagged held s k')))"
proof -
  obtain r s' where r: "cache_set L k v ts s = (r, s')" by fastforce
  note ok = lru_cache.cache_set_ok [OF assms r]
  have len: "cache_len L s = card (dom (held (entries s)))"
    using lru_cache.len_law [OF assms(1)] assms(2) by (simp add: cache_len_def cache_ok_def)
  from ok obtain ev where ev:
      "ev \<noteq> None \<longrightarrow> held (entries s) k = None \<and> cap (entries s) \<le> card (dom (held (entries s)))"
      "\<forall>k'. k' \<noteq> k \<longrightarrow>
           (if ev = Some k' then held (entries s') k' = None
            else held (entries s') k' = held (entries s) k' \<and>
                 idx (key_to_tags s') k' = idx (key_to_tags s) k')"
    by blast
  have "tagged held s' k' = (if ev = Some k' then None else tagged held s k')" if "k' \<noteq> k" for k'
    using ev(2) that by (auto simp: tagged_def)
  then show ?thesis using ok ev(1) len by (auto simp: r tagged_def)
qed

text \<open>a value written through the encrypting wrapper over an in-memory cache reads back
  unchanged, and the wrapper's invariant is kept.\<close>

theorem encrypted_round_trip:
  assumes "lru_cache L good held cap" and "cache_crypto_ok cc" and "cache_ok good held s"
    and "utf8_string v"
    and "encrypted_set cc ek (in_memory_repo L) k v ts (s, w) = (Inr (), s1, w1)"
  shows "fst (encrypted_get cc ek (in_memory_repo L) k (s1, w1)) = Inr (Some v) \<and>
     cache_ok good held s1"
proof -
  note m = lru_cache.mem_repository [OF assms(1)]
  have e: "encrypted_repository (in_memory_repo L) (cache_ok good held) (\<lambda>s. held (entries s)) cc"
    using m assms(2) by (simp add: encrypted_repository_def encrypted_repository_axioms_def)
  obtain g s2 w2 where g: "encrypted_get cc ek (in_memory_repo L) k (s1, w1) = (g, s2, w2)"
    using prod_cases3 by blast
  note s = encrypted_repository.encrypted_set_law [OF e assms(3,4,5)]
  from encrypted_repository.encrypted_get_law [OF e _ g] s show ?thesis by (simp add: g)
qed


subsection \<open>Witnesses\<close>

text \<open>A stand-in cipher: a nibble encoding for base64 and a sixteen-byte zero tag.\<close>

definition nibbles :: "bytes \<Rightarrow> string" where
  "nibbles bs =
     concat (map (\<lambda>b. [char_of (65 + unat b div 16), char_of (65 + unat b mod 16)]) bs)"

fun unnibbles :: "string \<Rightarrow> bytes" where
  "unnibbles (h # l # s) = of_nat ((of_char h - 65) * 16 + (of_char l - 65)) # unnibbles s"
| "unnibbles s = []"

definition example_crypto :: "nat cache_crypto" where
  "example_crypto =
     \<lparr>cc_random = (\<lambda>n w. (Inr (replicate n (of_nat w)), Suc w)),
      cc_hkdf = (\<lambda>salt ikm info n. Inr (replicate n 7)),
      cc_new_cipher = (\<lambda>k. None),
      cc_seal = (\<lambda>k n m. Some (m @ replicate TAG_LEN 0)),
      cc_open = (\<lambda>k n c. if drop (length c - TAG_LEN) c = replicate TAG_LEN 0
                          then Some (take (length c - TAG_LEN) c) else None),
      cc_b64_encode = nibbles,
      cc_b64_decode = (\<lambda>s. Inr (unnibbles s)),
      cc_utf8_error = (\<lambda>b. [])\<rparr>"

lemma unat_u8_less: "unat (b :: u8) < 256"
  using unsigned_less [of b] by simp

lemma unnibbles_nibbles: "unnibbles (nibbles bs) = bs"
proof (induction bs)
  case Nil
  then show ?case by (simp add: nibbles_def)
next
  case (Cons b bs)
  have "(of_char (char_of (65 + unat b div 16) :: char) :: nat) = 65 + unat b div 16"
    "(of_char (char_of (65 + unat b mod 16) :: char) :: nat) = 65 + unat b mod 16"
    using unat_u8_less [of b] by simp_all
  moreover have "(of_nat (unat b div 16 * 16 + unat b mod 16) :: u8) = b"
    by (simp only: div_mult_mod_eq) simp
  ultimately show ?case using Cons by (simp add: nibbles_def)
qed

lemma utf8_nibbles: "utf8_string (nibbles bs)"
proof -
  have "list_all (\<lambda>c. (of_char c :: nat) < 128) (nibbles bs)"
  proof (induction bs)
    case (Cons b bs)
    have "unat b div 16 < 16" using unat_u8_less [of b] by (simp add: less_mult_imp_div_less)
    moreover have "unat b mod 16 < 16" by simp
    ultimately have "unat b div 16 < 63 \<and> unat b mod 16 < 63" by linarith
    with Cons show ?case by (simp add: nibbles_def)
  qed (simp add: nibbles_def)
  then show ?thesis by (simp add: utf8_string_def utf8_valid_ascii list.pred_map comp_def)
qed

lemma example_crypto_ok: "cache_crypto_ok example_crypto"
  by (auto simp: cache_crypto_ok_def example_crypto_def unnibbles_nibbles utf8_nibbles)

definition example_cache :: "lru_list in_memory_state" where
  "example_cache =
     fold (run_op (in_memory_repo list_lru))
       [OpSet ''a'' ''1'' [''x''], OpSet ''b'' ''2'' [''x'', ''y''], OpSet ''c'' ''3'' [''y'']]
       (with_capacity list_lru 2)"

lemmas cache_eval =
  example_cache_def in_memory_repo_def with_capacity_def list_lru_def cache_set_def cache_get_def
  cache_remove_by_tag_def cache_get_by_tags_def clear_tags_for_key_def clear_tag_def add_tag_def
  List.map_filter_def Let_def

lemma example_cache_value:
  "example_cache =
     \<lparr>entries = (2, [(''c'', ''3''), (''b'', ''2'')]),
      key_to_tags = [(''b'', [''x'', ''y'']), (''c'', [''y''])],
      tag_to_keys = [(''x'', [''b'']), (''y'', [''b'', ''c''])]\<rparr>"
  by (simp add: cache_eval)

lemma example_cache_ok: "cache_ok lru_list_good lru_list_held example_cache"
  unfolding example_cache_def
  using list_lru.run_ops_ok [OF conjunct1 [OF list_lru.with_capacity_ok]] by blast

theorem cache_reachable_ok_witness:
  "tag_index_len example_cache = cache_len list_lru example_cache \<and>
   cache_len list_lru example_cache \<le> 2"
  using cache_reachable_ok [OF list_lru.lru_cache_axioms,
      of "[OpSet ''a'' ''1'' [''x''], OpSet ''b'' ''2'' [''x'', ''y''], OpSet ''c'' ''3'' [''y'']]" 2]
  unfolding example_cache_def [symmetric] by simp

theorem cache_tags_exact_witness:
  "\<exists>es. cache_get_by_tags list_lru [''y'', ''x''] example_cache = (Inr es, example_cache) \<and>
     set es = {(''b'', ''2'')}"
proof -
  have "{(k, v). \<exists>ts. tagged lru_list_held example_cache k = Some (v, ts) \<and> set [''y'', ''x''] \<subseteq> ts}
      = {(''b'', ''2'')}"
    by (auto simp: tagged_def example_cache_value lru_list_held_def idx_def split: if_splits)
  moreover have "[''y'', ''x''] \<noteq> []" by simp
  ultimately show ?thesis
    using cache_tags_exact [OF list_lru.lru_cache_axioms example_cache_ok, of "[''y'', ''x'']" "[]"]
    by (simp only: simp_thms)
qed

theorem cache_set_exact_witness:
  "tagged lru_list_held (snd (cache_set list_lru ''d'' ''4'' [''z''] example_cache)) ''d'' =
     Some (''4'', {''z''})"
  using cache_set_exact [OF list_lru.lru_cache_axioms example_cache_ok, of "''d''" "''4''" "[''z'']"]
  by simp

lemma example_encrypted_set:
  "\<exists>s1 w1. encrypted_set example_crypto [] (in_memory_repo list_lru) ''k'' ''v'' [] (example_cache, 0)
     = (Inr (), s1, w1)"
  by (simp add: encrypted_set_def cache_encrypt_def derive_def example_crypto_def in_memory_repo_def
      cache_set_def Let_def split: prod.splits)

theorem encrypted_round_trip_witness:
  "\<exists>s1 w1. encrypted_set example_crypto [] (in_memory_repo list_lru) ''k'' ''v'' [] (example_cache, 0)
     = (Inr (), s1, w1) \<and>
     fst (encrypted_get example_crypto [] (in_memory_repo list_lru) ''k'' (s1, w1)) = Inr (Some ''v'')"
proof -
  obtain s1 w1 where
    "encrypted_set example_crypto [] (in_memory_repo list_lru) ''k'' ''v'' [] (example_cache, 0)
       = (Inr (), s1, w1)"
    using example_encrypted_set by blast
  moreover have "utf8_string ''v''" by (simp add: utf8_string_def)
  ultimately show ?thesis
    using encrypted_round_trip [OF list_lru.lru_cache_axioms example_crypto_ok example_cache_ok]
    by blast
qed

definition tampered_cache :: "lru_list in_memory_state" where
  "tampered_cache =
     fold (run_op (in_memory_repo list_lru)) [OpSet ''k'' (nibbles (replicate 40 9)) []]
       (with_capacity list_lru 2)"

lemma tampered_cache_ok: "cache_ok lru_list_good lru_list_held tampered_cache"
  unfolding tampered_cache_def
  using list_lru.run_ops_ok [OF conjunct1 [OF list_lru.with_capacity_ok]] by blast

lemma tampered_cache_held:
  "lru_list_held (entries tampered_cache) ''k'' = Some (nibbles (replicate 40 9))"
  by (simp add: tampered_cache_def lru_list_held_def in_memory_repo_def with_capacity_def
      list_lru_def cache_set_def clear_tags_for_key_def)

lemma tampered_fails: "cache_decrypt example_crypto [] ''k'' (nibbles (replicate 40 9)) = Inr None"
  by (simp add: cache_decrypt_def derive_def example_crypto_def unnibbles_nibbles SALT_LEN_def
      TAG_LEN_def)


end
