(* ===== verification/Node.thy ===== *)
theory Node
  imports Complex_Main Api
begin

text \<open>
  The decrypted node model (\<open>proton-drive-rs/src/node.rs\<close>), sharing roles and
  records (\<open>sharing.rs\<close>), devices (\<open>devices.rs\<close>), photo tags (\<open>photos.rs\<close>) and
  the wire records of \<open>dtos.rs\<close> that the client reads links from, with the
  conversions between the two.  Times and counters that are only carried along
  are \<^typ>\<open>int\<close>; the coordinates of a photo are IEEE values, of which the code
  uses the order.
\<close>

section \<open>Signature status and sharing\<close>

datatype verification_status = VerificationOk | NotSigned | NoVerifier | Failed

fun VerificationStatus_is_ok :: "verification_status \<Rightarrow> bool" where
  "VerificationStatus_is_ok VerificationOk = True"
| "VerificationStatus_is_ok _ = False"

datatype member_role = Viewer | Editor | Admin | Inherited

definition VIEWER_PERMISSIONS :: int where "VIEWER_PERMISSIONS = 4"
definition EDITOR_PERMISSIONS :: int where "EDITOR_PERMISSIONS = 6"
definition ADMIN_PERMISSIONS :: int where "ADMIN_PERMISSIONS = 22"

fun to_permissions :: "member_role \<Rightarrow> int option" where
  "to_permissions Viewer = Some VIEWER_PERMISSIONS"
| "to_permissions Editor = Some EDITOR_PERMISSIONS"
| "to_permissions Admin = Some ADMIN_PERMISSIONS"
| "to_permissions Inherited = None"

fun from_permissions :: "int option \<Rightarrow> member_role" where
  "from_permissions None = Inherited"
| "from_permissions (Some p) =
     (if p = VIEWER_PERMISSIONS then Viewer
      else if p = EDITOR_PERMISSIONS then Editor
      else if p = ADMIN_PERMISSIONS then Admin
      else Viewer)"

fun from_permissions_exact :: "int option \<Rightarrow> member_role option" where
  "from_permissions_exact None = Some Inherited"
| "from_permissions_exact (Some p) =
     (if p = VIEWER_PERMISSIONS then Some Viewer
      else if p = EDITOR_PERMISSIONS then Some Editor
      else if p = ADMIN_PERMISSIONS then Some Admin
      else None)"

record share_membership =
  sm_share_id :: share_id
  sm_membership_id :: share_membership_id
  sm_permissions :: int
  sm_invite_time :: "int option"
  sm_inviter_email :: "string option"
  sm_inviter_verification :: "verification_status option"

definition ShareMembership_role :: "share_membership \<Rightarrow> member_role" where
  "ShareMembership_role m = from_permissions (Some (sm_permissions m))"

definition ShareMembership_role_exact :: "share_membership \<Rightarrow> member_role option" where
  "ShareMembership_role_exact m = from_permissions_exact (Some (sm_permissions m))"

record shared_with_me_item =
  swm_uid :: node_uid
  swm_share_id :: share_id

record share_member =
  mem_share_id :: share_id
  mem_membership_id :: share_membership_id
  mem_email :: string
  mem_added_by_email :: string
  mem_role :: member_role
  mem_invitation_time :: int

record public_link =
  pl_share_id :: share_id
  pl_public_link_id :: string
  pl_url :: "string option"
  pl_role :: member_role
  pl_creation_time :: int
  pl_expiration_time :: "int option"
  pl_has_custom_password :: bool
  pl_custom_password :: "string option"

record share_invitation =
  inv_share_id :: share_id
  inv_invitation_id :: string
  inv_invitee_email :: string
  inv_inviter_email :: string
  inv_role :: member_role
  inv_invitation_time :: int

datatype external_invitation_state = Pending | UserRegistered

definition ExternalInvitationState_from_raw :: "int \<Rightarrow> external_invitation_state" where
  "ExternalInvitationState_from_raw s = (if s = 1 then Pending else UserRegistered)"

record external_invitation = share_invitation +
  ext_state :: external_invitation_state

record incoming_invitation =
  inc_invitation_id :: string
  inc_inviter_email :: string
  inc_invitee_email :: string
  inc_role :: member_role
  inc_invitation_time :: int
  inc_node_uid :: node_uid
  inc_node_name :: "string option"
  inc_is_folder :: bool

record bookmark =
  bm_token :: string
  bm_url :: string
  bm_custom_password :: "string option"
  bm_node_name :: "string option"
  bm_is_folder :: bool
  bm_creation_time :: int

text \<open>What \<open>Debug\<close> shows of a secret.\<close>

definition redacted :: "string option \<Rightarrow> string option" where
  "redacted secret = map_option (\<lambda>_. ''<redacted>'') secret"

section \<open>Nodes\<close>

text \<open>An \<open>f64\<close> as the code compares it: a number, an infinity or no number at all.\<close>

datatype f64 = Finite rat | PosInf | NegInf | NaN

definition f64_between :: "rat \<Rightarrow> rat \<Rightarrow> f64 \<Rightarrow> bool" where
  "f64_between lo hi x = (case x of Finite r \<Rightarrow> lo \<le> r \<and> r \<le> hi | _ \<Rightarrow> False)"

record photo_location =
  latitude :: f64
  longitude :: f64

definition PhotoLocation_from_claimed :: "f64 option \<Rightarrow> f64 option \<Rightarrow> photo_location option" where
  "PhotoLocation_from_claimed lat lon =
     (case (lat, lon) of
        (Some la, Some lo) \<Rightarrow>
          if f64_between (- 90) 90 la \<and> f64_between (- 180) 180 lo
          then Some \<lparr>latitude = la, longitude = lo\<rparr> else None
      | _ \<Rightarrow> None)"

datatype photo_tag =
    Favorite | Screenshot | Video | LivePhoto | MotionPhoto | Selfie | Portrait | Burst
  | Panorama | Raw

fun PhotoTag_as_i32 :: "photo_tag \<Rightarrow> int" where
  "PhotoTag_as_i32 Favorite = 0"
| "PhotoTag_as_i32 Screenshot = 1"
| "PhotoTag_as_i32 Video = 2"
| "PhotoTag_as_i32 LivePhoto = 3"
| "PhotoTag_as_i32 MotionPhoto = 4"
| "PhotoTag_as_i32 Selfie = 5"
| "PhotoTag_as_i32 Portrait = 6"
| "PhotoTag_as_i32 Burst = 7"
| "PhotoTag_as_i32 Panorama = 8"
| "PhotoTag_as_i32 Raw = 9"

definition PhotoTag_from_raw :: "int \<Rightarrow> photo_tag option" where
  "PhotoTag_from_raw v =
     (if v = 0 then Some Favorite
      else if v = 1 then Some Screenshot
      else if v = 2 then Some Video
      else if v = 3 then Some LivePhoto
      else if v = 4 then Some MotionPhoto
      else if v = 5 then Some Selfie
      else if v = 6 then Some Portrait
      else if v = 7 then Some Burst
      else if v = 8 then Some Panorama
      else if v = 9 then Some Raw
      else None)"

record photo_properties =
  pp_capture_time :: int
  pp_content_hash :: "string option"
  pp_main_photo_uid :: "node_uid option"
  pp_related_photo_uids :: "node_uid list"
  pp_tags :: "photo_tag list"
  pp_album_uids :: "node_uid list"
  pp_location :: "photo_location option"

record album_properties =
  ap_photo_count :: int
  ap_cover_photo_uid :: "node_uid option"
  ap_last_activity_time :: "int option"

record node_verification =
  nv_name :: verification_status
  nv_passphrase :: verification_status
  nv_content_key :: "verification_status option"
  nv_extended_attributes :: "verification_status option"

definition NodeVerification_default :: node_verification where
  "NodeVerification_default =
     \<lparr>nv_name = NotSigned, nv_passphrase = NotSigned, nv_content_key = None,
      nv_extended_attributes = None\<rparr>"

definition status_acceptable :: "verification_status \<Rightarrow> bool" where
  "status_acceptable s = (s = VerificationOk \<or> s = NotSigned)"

definition is_fully_verified :: "node_verification \<Rightarrow> bool" where
  "is_fully_verified v =
     (status_acceptable (nv_name v) \<and> status_acceptable (nv_passphrase v) \<and>
      (case nv_content_key v of None \<Rightarrow> True | Some s \<Rightarrow> status_acceptable s) \<and>
      (case nv_extended_attributes v of None \<Rightarrow> True | Some s \<Rightarrow> status_acceptable s))"

datatype revision_state = RevActive | RevSuperseded

definition RevisionState_from_raw :: "int option \<Rightarrow> revision_state" where
  "RevisionState_from_raw v = (if v = Some 2 then RevSuperseded else RevActive)"

definition is_listable_revision_state :: "int option \<Rightarrow> bool" where
  "is_listable_revision_state s = (s = Some 1 \<or> s = Some 2)"

record file_kind =
  fk_media_type :: string
  fk_total_size_on_storage :: int
  fk_active_revision_state :: "revision_state option"
  fk_active_revision_id :: "string option"
  fk_claimed_size :: "int option"
  fk_claimed_modification_time :: "string option"
  fk_content_sha1 :: "string option"

datatype node_kind = KFolder | KFile file_kind

record node =
  n_uid :: node_uid
  n_parent_uid :: "node_uid option"
  n_kind :: node_kind
  n_name :: string
  n_creation_time :: int
  n_modification_time :: int
  n_trashed :: bool
  n_is_shared :: bool
  n_is_shared_publicly :: bool
  n_signature_email :: "string option"
  n_membership :: "share_membership option"
  n_direct_role :: "member_role option"
  n_share_id :: "share_id option"
  n_photo :: "photo_properties option"
  n_album :: "album_properties option"
  n_verification :: node_verification

definition is_folder :: "node \<Rightarrow> bool" where
  "is_folder n = (case n_kind n of KFolder \<Rightarrow> True | KFile _ \<Rightarrow> False)"

definition is_file :: "node \<Rightarrow> bool" where
  "is_file n = (case n_kind n of KFolder \<Rightarrow> False | KFile _ \<Rightarrow> True)"

datatype drive_event_scope_id = DriveEventScopeId (scope_volume: volume_id)

definition tree_event_scope_id :: "node \<Rightarrow> drive_event_scope_id" where
  "tree_event_scope_id n = DriveEventScopeId (uid_volume (n_uid n))"

datatype thumbnail_type = TThumbnail | TPreview

fun ThumbnailType_as_i32 :: "thumbnail_type \<Rightarrow> int" where
  "ThumbnailType_as_i32 TThumbnail = 1"
| "ThumbnailType_as_i32 TPreview = 2"

record thumbnail =
  th_type :: thumbnail_type
  th_content :: bytes

definition Thumbnail_new :: "thumbnail_type \<Rightarrow> bytes \<Rightarrow> thumbnail result" where
  "Thumbnail_new t content =
     (if content = [] then Inl (InvalidOperation ''Thumbnail content must not be empty.'')
      else Inr \<lparr>th_type = t, th_content = content\<rparr>)"

record file_thumbnail =
  ft_file_uid :: node_uid
  ft_result :: "bytes result"

definition FileThumbnail_ok :: "node_uid \<Rightarrow> bytes \<Rightarrow> file_thumbnail" where
  "FileThumbnail_ok uid bs = \<lparr>ft_file_uid = uid, ft_result = Inr bs\<rparr>"

definition FileThumbnail_err :: "node_uid \<Rightarrow> proton_error \<Rightarrow> file_thumbnail" where
  "FileThumbnail_err uid e = \<lparr>ft_file_uid = uid, ft_result = Inl e\<rparr>"

record node_move_item =
  nmi_uid :: node_uid
  nmi_target_name :: "string option"

datatype available_name_target = TargetFile | TargetFolder

record recently_accessed_report_item =
  ra_uid :: node_uid
  ra_access_time :: "int option"

section \<open>Devices\<close>

datatype device_type = Windows | MacOs | Linux

fun DeviceType_as_i32 :: "device_type \<Rightarrow> int" where
  "DeviceType_as_i32 Windows = 1"
| "DeviceType_as_i32 MacOs = 2"
| "DeviceType_as_i32 Linux = 3"

definition DeviceType_from_raw :: "int \<Rightarrow> device_type result" where
  "DeviceType_from_raw v =
     (if v = 1 then Inr Windows else if v = 2 then Inr MacOs else if v = 3 then Inr Linux
      else Inl (InvalidOperation (''unsupported device type '' @ int_to_string v)))"

record device_metadata =
  dm_uid :: device_uid
  dm_device_type :: device_type
  dm_root_folder_uid :: node_uid
  dm_creation_time :: int
  dm_last_sync_time :: "int option"
  dm_has_deprecated_name :: bool
  dm_share_id :: share_id

record device =
  dev_uid :: device_uid
  dev_device_type :: device_type
  dev_name :: "string result"
  dev_root_folder_uid :: node_uid
  dev_creation_time :: int
  dev_last_sync_time :: "int option"
  dev_share_id :: share_id

definition into_device :: "device_metadata \<Rightarrow> string result \<Rightarrow> device" where
  "into_device m name =
     \<lparr>dev_uid = dm_uid m, dev_device_type = dm_device_type m, dev_name = name,
      dev_root_folder_uid = dm_root_folder_uid m, dev_creation_time = dm_creation_time m,
      dev_last_sync_time = dm_last_sync_time m, dev_share_id = dm_share_id m\<rparr>"

section \<open>Wire records\<close>

record link_dto =
  l_id :: link_id
  l_type :: int
  l_parent_id :: "link_id option"
  l_state :: int
  l_creation_time :: int
  l_modification_time :: int
  l_trash_time :: "int option"
  l_trashed_legacy :: "int option"
  l_name :: string
  l_name_hash :: "string option"
  l_key :: string
  l_passphrase :: string
  l_passphrase_signature :: "string option"
  l_signature_email :: "string option"
  l_name_signature_email :: "string option"
  l_third_party :: bool
  l_sdk :: bool

datatype link_type = LtFolder | LtFile | LtAlbum | LtUnknown

definition LinkType_from_raw :: "int \<Rightarrow> link_type" where
  "LinkType_from_raw raw =
     (if raw = 1 then LtFolder else if raw = 2 then LtFile else if raw = 3 then LtAlbum
      else LtUnknown)"

definition LinkState_Trashed :: int where "LinkState_Trashed = 2"

definition parsed_type :: "link_dto \<Rightarrow> link_type" where
  "parsed_type l = LinkType_from_raw (l_type l)"

definition is_trashed :: "link_dto \<Rightarrow> bool" where
  "is_trashed l =
     (l_state l = LinkState_Trashed \<or> l_trash_time l \<noteq> None \<or> l_trashed_legacy l \<noteq> None)"

record folder_dto =
  fo_hash_key :: string
  fo_extended_attributes :: "string option"

record active_revision_dto =
  ar_id :: string
  ar_creation_time :: int
  ar_state :: "int option"
  ar_encrypted_size :: int
  ar_signature_email :: "string option"
  ar_extended_attributes :: "string option"
  ar_third_party :: bool
  ar_sdk :: bool

record file_dto =
  fi_media_type :: string
  fi_total_size_on_storage :: int
  fi_content_key_packet :: "string option"
  fi_content_key_signature :: "string option"
  fi_active_revision :: "active_revision_dto option"

record photo_album_inclusion_dto =
  pai_album_link_id :: link_id
  pai_creation_time :: int

record photo_dto =
  ph_file :: file_dto
  ph_capture_time :: int
  ph_content_hash :: "string option"
  ph_main_photo_link_id :: "link_id option"
  ph_related_photo_link_ids :: "link_id list"
  ph_tags :: "int list"
  ph_album_inclusions :: "photo_album_inclusion_dto list"

record album_dto =
  al_hash_key :: string
  al_extended_attributes :: "string option"
  al_photo_count :: int
  al_cover_link_id :: "link_id option"
  al_last_activity_time :: int

record link_sharing_dto =
  ls_share_id :: share_id
  ls_share_url_id :: "string option"

record share_membership_summary_dto =
  sms_share_id :: share_id
  sms_membership_id :: share_membership_id
  sms_permissions :: int
  sms_invite_time :: "int option"
  sms_inviter_email :: "string option"
  sms_key_packet :: "string option"
  sms_key_packet_signature :: "string option"

record link_details_dto =
  ld_link :: link_dto
  ld_folder :: "folder_dto option"
  ld_file :: "file_dto option"
  ld_photo :: "photo_dto option"
  ld_album :: "album_dto option"
  ld_sharing :: "link_sharing_dto option"
  ld_membership :: "share_membership_summary_dto option"

definition file_properties :: "link_details_dto \<Rightarrow> file_dto option" where
  "file_properties d =
     (case ld_file d of Some f \<Rightarrow> Some f | None \<Rightarrow> map_option ph_file (ld_photo d))"

definition folder_properties :: "link_details_dto \<Rightarrow> folder_dto option" where
  "folder_properties d =
     (case ld_folder d of
        Some f \<Rightarrow> Some f
      | None \<Rightarrow> map_option (\<lambda>a. \<lparr>fo_hash_key = al_hash_key a,
                                 fo_extended_attributes = al_extended_attributes a\<rparr>) (ld_album d))"

definition share_membership_from_dto :: "share_membership_summary_dto \<Rightarrow> share_membership" where
  "share_membership_from_dto dto =
     \<lparr>sm_share_id = sms_share_id dto, sm_membership_id = sms_membership_id dto,
      sm_permissions = sms_permissions dto, sm_invite_time = sms_invite_time dto,
      sm_inviter_email = sms_inviter_email dto, sm_inviter_verification = None\<rparr>"

record share_invitation_dto =
  sid_invitation_id :: string
  sid_inviter_email :: string
  sid_invitee_email :: string
  sid_permissions :: "int option"
  sid_create_time :: int

record external_invitation_response_dto = share_invitation_dto +
  eid_state :: int

definition invitation_from_dto :: "share_id \<Rightarrow> share_invitation_dto \<Rightarrow> share_invitation" where
  "invitation_from_dto sid dto =
     \<lparr>inv_share_id = sid, inv_invitation_id = sid_invitation_id dto,
      inv_invitee_email = sid_invitee_email dto, inv_inviter_email = sid_inviter_email dto,
      inv_role = from_permissions (sid_permissions dto), inv_invitation_time = sid_create_time dto\<rparr>"

definition external_invitation_from_dto ::
  "share_id \<Rightarrow> external_invitation_response_dto \<Rightarrow> external_invitation" where
  "external_invitation_from_dto sid dto =
     \<lparr>inv_share_id = sid, inv_invitation_id = sid_invitation_id dto,
      inv_invitee_email = sid_invitee_email dto, inv_inviter_email = sid_inviter_email dto,
      inv_role = from_permissions (sid_permissions dto), inv_invitation_time = sid_create_time dto,
      ext_state = ExternalInvitationState_from_raw (eid_state dto)\<rparr>"

datatype share_target_type = StRoot | StFolder | StFile | StAlbum | StPhoto | StProtonVendor

definition ShareTargetType_from_raw :: "int \<Rightarrow> share_target_type option" where
  "ShareTargetType_from_raw v =
     (if v = 0 then Some StRoot else if v = 1 then Some StFolder else if v = 2 then Some StFile
      else if v = 3 then Some StAlbum else if v = 4 then Some StPhoto
      else if v = 5 then Some StProtonVendor else None)"

fun is_drive_item :: "share_target_type \<Rightarrow> bool" where
  "is_drive_item StFolder = True"
| "is_drive_item StFile = True"
| "is_drive_item StProtonVendor = True"
| "is_drive_item _ = False"

fun is_photos_item :: "share_target_type \<Rightarrow> bool" where
  "is_photos_item StAlbum = True"
| "is_photos_item StPhoto = True"
| "is_photos_item _ = False"

record shared_with_me_link_dto =
  swl_volume_id :: volume_id
  swl_share_id :: share_id
  swl_link_id :: link_id
  swl_share_target_type :: int

record shared_with_me_response =
  swr_links :: "shared_with_me_link_dto list"
  swr_anchor_id :: "string option"
  swr_more :: bool

definition drive_items :: "shared_with_me_response \<Rightarrow> shared_with_me_item list" where
  "drive_items page =
     map (\<lambda>l. \<lparr>swm_uid = NodeUid_new (swl_volume_id l) (swl_link_id l), swm_share_id = swl_share_id l\<rparr>)
       (filter (\<lambda>l. case ShareTargetType_from_raw (swl_share_target_type l) of
                      Some t \<Rightarrow> is_drive_item t | None \<Rightarrow> False) (swr_links page))"

record volume_list_item_dto =
  vl_id :: volume_id
  vl_state :: int
  vl_type :: "int option"

definition has_active_regular_volume :: "volume_list_item_dto list \<Rightarrow> bool" where
  "has_active_regular_volume vs =
     list_ex (\<lambda>v. vl_state v = 1 \<and> (case vl_type v of Some t \<Rightarrow> t | None \<Rightarrow> 1) = 1) vs"

section \<open>Public links\<close>

definition PUBLIC_LINK_PASSWORD_CHARSET :: string where
  "PUBLIC_LINK_PASSWORD_CHARSET =
     ''ABCDEFGHIJKLMNOPQRSTUVWXYZabcdefghijklmnopqrstuvwxyz0123456789''"

definition PUBLIC_LINK_PASSWORD_LEN :: nat where
  "PUBLIC_LINK_PASSWORD_LEN = 12"

definition public_link_permissions :: "member_role \<Rightarrow> int result" where
  "public_link_permissions role =
     (case to_permissions role of
        Some p \<Rightarrow>
          if role = Viewer \<or> role = Editor then Inr p
          else Inl (InvalidOperation ''a public link can only grant the Viewer or Editor role'')
      | None \<Rightarrow> Inl (InvalidOperation ''a public link can only grant the Viewer or Editor role''))"

definition split_link_password :: "string \<Rightarrow> string \<times> string option" where
  "split_link_password password =
     (let split = (case char_offset PUBLIC_LINK_PASSWORD_LEN password of
                     None \<Rightarrow> length password | Some i \<Rightarrow> i);
          custom = drop split password
      in (take split password, if custom = [] then None else Some custom))"

text \<open>The random bytes are drawn by the caller of the definition; the system source fills
  exactly \<open>PUBLIC_LINK_PASSWORD_LEN\<close> of them.\<close>

definition generate_public_link_password :: "bytes \<Rightarrow> string" where
  "generate_public_link_password raw =
     map (\<lambda>b. PUBLIC_LINK_PASSWORD_CHARSET ! (unat b mod length PUBLIC_LINK_PASSWORD_CHARSET)) raw"

definition invalid_public_link_url :: proton_error where
  "invalid_public_link_url = InvalidOperation ''invalid public link url''"

definition parse_public_link_url :: "string \<Rightarrow> (string \<times> string) result" where
  "parse_public_link_url url =
     (case split_once (CHR ''#'') url of
        None \<Rightarrow> Inl invalid_public_link_url
      | Some (before_hash, password) \<Rightarrow>
          (case rsplit_once ''/urls/'' before_hash of
             None \<Rightarrow> Inl invalid_public_link_url
           | Some (_, after_container) \<Rightarrow>
               (let token = trim_end_matches (CHR ''/'') after_container
                in if token = [] \<or> CHR ''/'' \<in> set token \<or> password = []
                   then Inl invalid_public_link_url
                   else Inr (token, password))))"

definition is_custom_password_protected :: "32 word \<Rightarrow> bool" where
  "is_custom_password_protected flags = ((and) flags 1 = 1)"

definition is_legacy :: "32 word \<Rightarrow> bool" where
  "is_legacy flags = (flags = 0 \<or> flags = 1)"

section \<open>Lemmas\<close>

lemmas permission_masks = VIEWER_PERMISSIONS_def EDITOR_PERMISSIONS_def ADMIN_PERMISSIONS_def

lemma from_to_permissions [simp]: "from_permissions (to_permissions r) = r"
  by (cases r) (simp_all add: permission_masks)

lemma from_permissions_exact_iff:
  "from_permissions_exact p = Some r \<longleftrightarrow> p = to_permissions r"
  by (cases p; cases r) (auto simp: permission_masks)

lemma PhotoTag_from_raw_as_i32: "PhotoTag_from_raw v = Some t \<longleftrightarrow> v = PhotoTag_as_i32 t"
  by (cases t) (auto simp: PhotoTag_from_raw_def)

lemma DeviceType_from_raw_as_i32: "DeviceType_from_raw v = Inr t \<longleftrightarrow> v = DeviceType_as_i32 t"
  by (cases t) (auto simp: DeviceType_from_raw_def)

text \<open>Code points of an ASCII prefix: offset and count agree.\<close>

lemma char_offset_ascii:
  assumes "\<forall>c\<in>set p. \<not> is_continuation c" and "s \<noteq> [] \<longrightarrow> \<not> is_continuation (hd s)"
  shows "char_offset (length p) (p @ s) = (if s = [] then None else Some (length p))"
  using assms
proof (induction p)
  case Nil
  then show ?case by (cases s) auto
qed simp

lemma utf8_string_hd: "utf8_string s \<Longrightarrow> s \<noteq> [] \<Longrightarrow> \<not> is_continuation (hd s)"
  by (cases s) (auto simp: utf8_string_def is_continuation_def)

lemma charset_ascii: "c \<in> set PUBLIC_LINK_PASSWORD_CHARSET \<Longrightarrow> \<not> is_continuation c"
  by (auto simp: PUBLIC_LINK_PASSWORD_CHARSET_def is_continuation_def)

lemma charset_length: "length PUBLIC_LINK_PASSWORD_CHARSET = 62"
  by (simp add: PUBLIC_LINK_PASSWORD_CHARSET_def)

lemma generated_in_charset:
  "c \<in> set (generate_public_link_password raw) \<Longrightarrow> c \<in> set PUBLIC_LINK_PASSWORD_CHARSET"
  by (auto simp: generate_public_link_password_def charset_length)

lemma rsplit_once_None:
  "pat \<noteq> [] \<Longrightarrow> (\<And>k. \<not> prefix pat (drop k s)) \<Longrightarrow> rsplit_once pat s = None"
proof (induction s)
  case (Cons x s)
  have "\<not> prefix pat (drop k s)" for k using Cons.prems(2) [of "Suc k"] by simp
  then have "rsplit_once pat s = None" using Cons.IH Cons.prems(1) by blast
  moreover have "\<not> prefix pat (x # s)" using Cons.prems(2) [of 0] by simp
  ultimately show ?case by simp
qed simp

text \<open>A separator that starts and ends with a character the text does not contain.\<close>

lemma no_later_container:
  assumes "CHR ''/'' \<notin> set t" and "0 < k"
  shows "\<not> prefix ''/urls/'' (drop k (''/urls/'' @ t))"
proof
  assume p: "prefix ''/urls/'' (drop k (''/urls/'' @ t))"
  then obtain z where z: "drop k (''/urls/'' @ t) = ''/urls/'' @ z" by (auto simp: prefix_def)
  have "k < 6 \<or> 6 \<le> k" by linarith
  then show False
  proof
    assume "6 \<le> k"
    then have "length ''/urls/'' \<le> k" by simp
    then have "drop k (''/urls/'' @ t) = drop (k - length ''/urls/'') t"
      by (simp only: drop_append drop_all append_Nil)
    then have "CHR ''/'' \<in> set t"
      using z by (metis append_Cons in_set_dropD list.set_intros(1))
    then show False using assms(1) by simp
  next
    assume "k < 6"
    then have "k = 1 \<or> k = 2 \<or> k = 3 \<or> k = 4 \<or> k = 5" using assms(2) by linarith
    then show False using z assms(1) by (elim disjE) (auto simp: Cons_eq_append_conv)
  qed
qed

lemma rsplit_once_append:
  assumes "rsplit_once pat s = Some (a, b)"
  shows "rsplit_once pat (p @ s) = Some (p @ a, b)"
  using assms by (induction p) auto

lemma rsplit_once_container:
  assumes "CHR ''/'' \<notin> set t"
  shows "rsplit_once ''/urls/'' (p @ ''/urls/'' @ t) = Some (p, t)"
proof -
  have "rsplit_once ''/urls/'' (''urls/'' @ t) = None"
  proof (rule rsplit_once_None)
    fix k show "\<not> prefix ''/urls/'' (drop k (''urls/'' @ t))"
      using no_later_container [OF assms, of "Suc k"] by simp
  qed simp
  then have "rsplit_once ''/urls/'' (''/urls/'' @ t) = Some ([], t)" by simp
  from rsplit_once_append [OF this, of p] show ?thesis by simp
qed

section \<open>Properties\<close>

text \<open>a public link URL made of a prefix without a fragment, the container segment, a token
  without separators and a secret fragment is split into exactly that token and that secret,
  whatever the secret contains.\<close>

theorem public_link_url_round_trip:
  assumes "CHR ''#'' \<notin> set origin" and "token \<noteq> []" and "CHR ''/'' \<notin> set token"
    and "CHR ''#'' \<notin> set token" and "password \<noteq> []"
  shows "parse_public_link_url (origin @ ''/urls/'' @ token @ ''#'' @ password) = Inr (token, password)"
proof -
  have "split_once (CHR ''#'') ((origin @ ''/urls/'' @ token) @ CHR ''#'' # password)
      = Some (origin @ ''/urls/'' @ token, password)"
    using assms by (intro split_once_append) auto
  moreover have "trim_end_matches (CHR ''/'') token = token"
    using assms(3) by (intro trim_end_matches_no_trailing) (auto dest: last_in_set)
  ultimately show ?thesis
    using assms rsplit_once_container [OF assms(3), of origin]
    by (simp add: parse_public_link_url_def)
qed

text \<open>an accepted public link URL yields a token that is one non-empty path segment and a
  non-empty secret: a URL with no fragment, an empty token or a nested path is refused.\<close>

theorem public_link_url_sound:
  assumes "parse_public_link_url url = Inr (token, password)"
  shows "token \<noteq> [] \<and> CHR ''/'' \<notin> set token \<and> CHR ''#'' \<notin> set token \<and> password \<noteq> [] \<and>
     (\<exists>origin slashes. url = origin @ ''/urls/'' @ token @ slashes @ ''#'' @ password \<and>
        set slashes \<subseteq> {CHR ''/''})"
proof -
  obtain bh pw where sp: "split_once (CHR ''#'') url = Some (bh, pw)"
    using assms by (cases "split_once (CHR ''#'') url") (simp_all add: parse_public_link_url_def, fastforce)
  obtain o' ac where rs: "rsplit_once ''/urls/'' bh = Some (o', ac)"
    using assms sp
    by (cases "rsplit_once ''/urls/'' bh") (simp_all add: parse_public_link_url_def, fastforce)
  let ?t = "trim_end_matches (CHR ''/'') ac"
  have "(if ?t = [] \<or> CHR ''/'' \<in> set ?t \<or> pw = [] then Inl invalid_public_link_url
      else Inr (?t, pw)) = Inr (token, password)"
    using assms by (simp only: parse_public_link_url_def sp rs option.case prod.case Let_def)
  then have s: "split_once (CHR ''#'') url = Some (bh, password)"
      "rsplit_once ''/urls/'' bh = Some (o', ac)" "token = ?t"
      "token \<noteq> []" "CHR ''/'' \<notin> set token" "password \<noteq> []"
    using sp rs by (simp_all split: if_splits)
  have u: "url = bh @ CHR ''#'' # password" "CHR ''#'' \<notin> set bh" using split_once_Some [OF s(1)] by auto
  have b: "bh = o' @ ''/urls/'' @ ac" using rsplit_once_Some [OF s(2)] by simp
  define sl where "sl = rev (takeWhile (\<lambda>x. x = CHR ''/'') (rev ac))"
  have ac: "ac = token @ sl"
    unfolding s(3) trim_end_matches_def sl_def
    by (metis rev_append rev_rev_ident takeWhile_dropWhile_id)
  have "set sl \<subseteq> {CHR ''/''}" by (auto simp: sl_def dest: set_takeWhileD)
  moreover have "CHR ''#'' \<notin> set token" using u(2) b ac by auto
  moreover have "url = o' @ ''/urls/'' @ token @ sl @ ''#'' @ password" using u(1) b ac by simp
  ultimately show ?thesis using s(4-6) by blast
qed

text \<open>the generated and the custom part of a link password are recovered from their
  concatenation, at a code-point boundary.\<close>

theorem split_link_password_round_trip:
  assumes "length raw = PUBLIC_LINK_PASSWORD_LEN" and "utf8_string custom"
  shows "split_link_password (generate_public_link_password raw @ custom) =
     (generate_public_link_password raw, if custom = [] then None else Some custom)"
proof -
  let ?g = "generate_public_link_password raw"
  have l: "length ?g = PUBLIC_LINK_PASSWORD_LEN"
    using assms(1) by (simp add: generate_public_link_password_def)
  have "\<forall>c\<in>set ?g. \<not> is_continuation c" using generated_in_charset charset_ascii by blast
  from char_offset_ascii [OF this, of custom] utf8_string_hd [OF assms(2)]
  have "char_offset PUBLIC_LINK_PASSWORD_LEN (?g @ custom) =
      (if custom = [] then None else Some PUBLIC_LINK_PASSWORD_LEN)" by (simp add: l)
  then show ?thesis by (simp add: split_link_password_def l Let_def)
qed

text \<open>a public link grants read or read-write and nothing else: the mask it sends is the
  exact mask of the role asked for, and administration is refused.\<close>

theorem public_link_permissions_exact:
  "(\<exists>p. public_link_permissions role = Inr p) = (role \<in> {Viewer, Editor}) \<and>
   (\<forall>p. public_link_permissions role = Inr p \<longrightarrow>
      p \<in> {4, 6} \<and> from_permissions_exact (Some p) = Some role)"
  by (cases role) (auto simp: public_link_permissions_def permission_masks)

subsection \<open>Witnesses\<close>

theorem public_link_url_round_trip_witness:
  "parse_public_link_url ''https://drive.proton.me/urls/T0K3N#a#b'' = Inr (''T0K3N'', ''a#b'')"
  using public_link_url_round_trip [of "''https://drive.proton.me''" "''T0K3N''" "''a#b''"] by simp

theorem public_link_url_sound_witness:
  "\<exists>origin slashes. ''https://d/urls/T0K3N//#pw'' =
       origin @ ''/urls/'' @ ''T0K3N'' @ slashes @ ''#'' @ ''pw'' \<and> set slashes \<subseteq> {CHR ''/''}"
proof -
  have "parse_public_link_url ''https://d/urls/T0K3N//#pw'' = Inr (''T0K3N'', ''pw'')"
    by (simp add: parse_public_link_url_def trim_end_matches_def)
  from public_link_url_sound [OF this] show ?thesis by blast
qed

theorem split_link_password_round_trip_witness:
  "split_link_password (replicate 12 (CHR ''F'') @ ''secret'') =
     (replicate 12 (CHR ''F''), Some ''secret'')"
proof -
  have "utf8_string ''secret''" by (simp add: utf8_string_def)
  moreover have "length (replicate 12 (5::u8)) = PUBLIC_LINK_PASSWORD_LEN"
    by (simp add: PUBLIC_LINK_PASSWORD_LEN_def)
  moreover have "generate_public_link_password (replicate 12 5) = replicate 12 (CHR ''F'')"
    by (simp add: generate_public_link_password_def charset_length)
       (simp add: PUBLIC_LINK_PASSWORD_CHARSET_def)
  ultimately show ?thesis
    using split_link_password_round_trip [of "replicate 12 5" "''secret''"] by simp
qed

theorem public_link_permissions_exact_witness:
  "public_link_permissions Editor = Inr 6 \<and> from_permissions_exact (Some 6) = Some Editor"
proof -
  have "public_link_permissions Editor = Inr 6"
    by (simp add: public_link_permissions_def permission_masks)
  with public_link_permissions_exact [of Editor] show ?thesis by blast
qed

end
