(* ===== verification/Entity_Cache.thy ===== *)
theory Entity_Cache
  imports Cache Node
begin

text \<open>
  The typed entity cache of \<open>proton-drive-rs/src/cache.rs\<close>: entities serialized
  under stable keys in any \<open>CacheRepository\<close>.  It relies only on the contract
  \<open>cache_repository\<close>, so its lemmas hold over the in-memory and the encrypting
  repository alike.  The derived serializers are arguments (\<open>json_codec\<close>).
\<close>

record cached_node_info =
  cni_node :: node
  cni_membership_share_id :: "share_id option"
  cni_name_hash_digest :: string

definition CLIENT_UID_KEY :: string where "CLIENT_UID_KEY = ''client:id''"
definition MAIN_VOLUME_ID_KEY :: string where "MAIN_VOLUME_ID_KEY = ''volume:main:id''"
definition MY_FILES_SHARE_ID_KEY :: string where "MY_FILES_SHARE_ID_KEY = ''share:my-files:id''"

definition node_key :: "node_uid \<Rightarrow> string" where
  "node_key uid = ''node:'' @ NodeUid_display uid"

record 'a json_codec =
  js_to_string :: "'a \<Rightarrow> string + string"
  js_from_str :: "string \<Rightarrow> 'a option"

definition get_json ::
  "'s cache_repo \<Rightarrow> 'a json_codec \<Rightarrow> string \<Rightarrow> 's \<Rightarrow> 'a option result \<times> 's" where
  "get_json repo js key s =
     (case rep_get repo key s of
        (Inl e, s1) \<Rightarrow> (Inl e, s1)
      | (Inr None, s1) \<Rightarrow> (Inr None, s1)
      | (Inr (Some raw), s1) \<Rightarrow>
          (case js_from_str js raw of
             Some v \<Rightarrow> (Inr (Some v), s1)
           | None \<Rightarrow>
               (case rep_remove repo key s1 of
                  (Inl e, s2) \<Rightarrow> (Inl e, s2)
                | (Inr _, s2) \<Rightarrow> (Inr None, s2))))"

definition set_json ::
  "'s cache_repo \<Rightarrow> 'a json_codec \<Rightarrow> string \<Rightarrow> 'a \<Rightarrow> 's \<Rightarrow> unit result \<times> 's" where
  "set_json repo js key v s =
     (case js_to_string js v of
        Inl e \<Rightarrow> (Inl (Serialization e), s)
      | Inr serialized \<Rightarrow> rep_set repo key serialized [] s)"

definition client_uid :: "'s cache_repo \<Rightarrow> 's \<Rightarrow> string option result \<times> 's" where
  "client_uid repo s = rep_get repo CLIENT_UID_KEY s"

definition set_client_uid :: "'s cache_repo \<Rightarrow> string \<Rightarrow> 's \<Rightarrow> unit result \<times> 's" where
  "set_client_uid repo uid s = rep_set repo CLIENT_UID_KEY uid [] s"

definition main_volume_id :: "'s cache_repo \<Rightarrow> volume_id json_codec \<Rightarrow> 's \<Rightarrow> volume_id option result \<times> 's" where
  "main_volume_id repo js s = get_json repo js MAIN_VOLUME_ID_KEY s"

definition set_main_volume_id :: "'s cache_repo \<Rightarrow> volume_id json_codec \<Rightarrow> volume_id \<Rightarrow> 's \<Rightarrow> unit result \<times> 's" where
  "set_main_volume_id repo js v s = set_json repo js MAIN_VOLUME_ID_KEY v s"

definition my_files_share_id :: "'s cache_repo \<Rightarrow> share_id json_codec \<Rightarrow> 's \<Rightarrow> share_id option result \<times> 's" where
  "my_files_share_id repo js s = get_json repo js MY_FILES_SHARE_ID_KEY s"

definition set_my_files_share_id :: "'s cache_repo \<Rightarrow> share_id json_codec \<Rightarrow> share_id \<Rightarrow> 's \<Rightarrow> unit result \<times> 's" where
  "set_my_files_share_id repo js v s = set_json repo js MY_FILES_SHARE_ID_KEY v s"

definition set_node ::
  "'s cache_repo \<Rightarrow> cached_node_info json_codec \<Rightarrow> node_uid \<Rightarrow> node \<Rightarrow> share_id option \<Rightarrow> string \<Rightarrow> 's
     \<Rightarrow> unit result \<times> 's" where
  "set_node repo js uid node membership_share_id name_hash_digest s =
     set_json repo js (node_key uid)
       \<lparr>cni_node = node, cni_membership_share_id = membership_share_id,
        cni_name_hash_digest = name_hash_digest\<rparr> s"

definition try_get_node ::
  "'s cache_repo \<Rightarrow> cached_node_info json_codec \<Rightarrow> node_uid \<Rightarrow> 's \<Rightarrow> cached_node_info option result \<times> 's" where
  "try_get_node repo js uid s = get_json repo js (node_key uid) s"

definition remove_node :: "'s cache_repo \<Rightarrow> node_uid \<Rightarrow> 's \<Rightarrow> unit result \<times> 's" where
  "remove_node repo uid s = rep_remove repo (node_key uid) s"

definition clear_entities :: "'s cache_repo \<Rightarrow> 's \<Rightarrow> unit result \<times> 's" where
  "clear_entities repo s = rep_clear repo s"

section \<open>Keys\<close>

text \<open>
  Volume identifiers carry no \<open>~\<close>; then two nodes never share a key, and no node's
  key is one of the scalar keys.
\<close>

definition uid_ok :: "node_uid \<Rightarrow> bool" where
  "uid_ok u = (CHR ''~'' \<notin> set (volume_id_str (uid_volume u)))"

lemma NodeUid_display_inject:
  assumes "uid_ok u" "uid_ok v" "NodeUid_display u = NodeUid_display v"
  shows "u = v"
proof -
  have "split_once (CHR ''~'') (NodeUid_display x) =
      Some (volume_id_str (uid_volume x), link_id_str (uid_link x))" if "uid_ok x" for x
    using that split_once_append by (simp add: NodeUid_display_def uid_ok_def)
  then have "volume_id_str (uid_volume u) = volume_id_str (uid_volume v)"
    "link_id_str (uid_link u) = link_id_str (uid_link v)"
    using assms by (metis option.inject prod.inject)+
  then show ?thesis
    by (metis NodeUid_new_eta link_id.exhaust_sel volume_id.exhaust_sel)
qed

lemma node_key_inject: "uid_ok u \<Longrightarrow> uid_ok v \<Longrightarrow> node_key u = node_key v \<longleftrightarrow> u = v"
  by (auto simp: node_key_def dest: NodeUid_display_inject)

section \<open>Over the repository contract\<close>

definition codec_ok :: "'a json_codec \<Rightarrow> bool" where
  "codec_ok js = (\<forall>v t. js_to_string js v = Inr t \<longrightarrow> js_from_str js t = Some v \<and> utf8_string t)"

context cache_repository
begin

lemma get_json_set_json:
  assumes ok: "codec_ok js" and i: "inv s"
    and run: "set_json R js k v s = (Inr (), s1)"
  shows "inv s1 \<and> fst (get_json R js k s1) = Inr (Some v) \<and>
     (\<forall>k'. k' \<noteq> k \<longrightarrow> content s1 k' = None \<or> content s1 k' = content s k')"
proof -
  obtain t where t: "js_to_string js v = Inr t" "rep_set R k t [] s = (Inr (), s1)"
    using run by (auto simp: set_json_def split: sum.splits)
  have c: "js_from_str js t = Some v" "utf8_string t" using ok t(1) by (auto simp: codec_ok_def)
  note set = set_law [OF i c(2) t(2)]
  obtain g s2 where g: "rep_get R k s1 = (g, s2)" by fastforce
  then have "g = Inr (Some t)" using get_law [of s1 k g s2] set by simp
  then show ?thesis using g c(1) set by (simp add: get_json_def)
qed

lemma get_json_malformed:
  assumes i: "inv s" and c: "content s k = Some raw" and bad: "js_from_str js raw = None"
    and run: "get_json R js k s = (Inr x, s1)"
  shows "x = None \<and> content s1 k = None \<and> fades (content s) (content s1) \<and> inv s1"
proof -
  obtain g s2 where g: "rep_get R k s = (g, s2)" by fastforce
  note got = get_law [OF i g]
  then have gr: "g = Inr (Some raw)" using c by blast
  obtain r s3 where r: "rep_remove R k s2 = (r, s3)" by fastforce
  then have r3: "r = Inr ()" "x = None" "s1 = s3"
    using run g gr bad by (auto simp: get_json_def split: sum.splits)
  from remove_law [of s2 k r s3] got r r3 show ?thesis by (auto intro: fades_trans)
qed

end

context lru_cache
begin

lemma get_json_mem:
  assumes "cache_ok good held s"
  shows "fst (get_json (in_memory_repo L) js k s) =
     Inr (Option.bind (held (entries s) k) (js_from_str js))"
proof -
  obtain g s1 where g: "cache_get L k s = (g, s1)" by fastforce
  with cache_get_ok [OF assms g] show ?thesis
    by (auto simp: get_json_def in_memory_repo_def cache_remove_def split: option.splits)
qed

end

section \<open>Properties\<close>

text \<open>a node written to the entity cache over an in-memory repository reads back whole, with
  its membership share and name hash, and writing another node leaves it readable or evicted,
  never changed.\<close>

theorem entity_node_round_trip:
  assumes "lru_cache L good held cap" and "cache_ok good held s" and "codec_ok js"
    and "set_node (in_memory_repo L) js uid node ms nh s = (Inr (), s1)"
    and "uid_ok uid" and "uid_ok uid'" and "uid \<noteq> uid'"
    and "set_node (in_memory_repo L) js uid' node' ms' nh' s1 = (Inr (), s2)"
  shows "fst (try_get_node (in_memory_repo L) js uid s1) =
       Inr (Some \<lparr>cni_node = node, cni_membership_share_id = ms, cni_name_hash_digest = nh\<rparr>) \<and>
     fst (try_get_node (in_memory_repo L) js uid s2) \<in>
       {Inr None, Inr (Some \<lparr>cni_node = node, cni_membership_share_id = ms, cni_name_hash_digest = nh\<rparr>)}"
proof -
  let ?R = "in_memory_repo L"
  let ?info = "\<lparr>cni_node = node, cni_membership_share_id = ms, cni_name_hash_digest = nh\<rparr>"
  note repo = lru_cache.mem_repository [OF assms(1)]
  note one = cache_repository.get_json_set_json [OF repo assms(3,2) assms(4) [unfolded set_node_def]]
  then have s1: "cache_ok good held s1" and r1: "fst (get_json ?R js (node_key uid) s1) = Inr (Some ?info)"
    by blast+
  note two = cache_repository.get_json_set_json [OF repo assms(3) s1 assms(8) [unfolded set_node_def]]
  have ne: "node_key uid \<noteq> node_key uid'" using assms(5-7) by (simp add: node_key_inject)
  have "held (entries s2) (node_key uid) = None \<or>
      held (entries s2) (node_key uid) = held (entries s1) (node_key uid)" using two ne by blast
  moreover note get = lru_cache.get_json_mem [OF assms(1)]
  ultimately have "fst (get_json ?R js (node_key uid) s2) \<in> {Inr None, Inr (Some ?info)}"
    using r1 get [OF s1, of js "node_key uid"] get [of s2 js "node_key uid"] two
    by (auto split: option.splits)
  then show ?thesis using r1 by (simp add: try_get_node_def)
qed

text \<open>a cached entry that no longer parses is reported as a miss and evicted, and no other
  entry is touched.\<close>

theorem entity_malformed_evicted:
  assumes "lru_cache L good held cap" and "cache_ok good held s"
    and "held (entries s) (node_key uid) = Some raw" and "js_from_str js raw = None"
  shows "\<exists>s1. try_get_node (in_memory_repo L) js uid s = (Inr None, s1) \<and>
     held (entries s1) = (held (entries s))(node_key uid := None) \<and> cache_ok good held s1"
proof -
  let ?k = "node_key uid"
  obtain g s1 where g: "cache_get L ?k s = (g, s1)" by fastforce
  note got = lru_cache.cache_get_ok [OF assms(1,2) g]
  obtain r s2 where r: "cache_remove L ?k s1 = (r, s2)" by fastforce
  then have "r = Inr ()" by (simp add: cache_remove_def)
  with got r lru_cache.cache_remove_ok [OF assms(1) _ r] g assms(3,4) show ?thesis
    by (simp add: try_get_node_def get_json_def in_memory_repo_def)
qed

subsection \<open>Witnesses\<close>

definition example_node :: "node_uid \<Rightarrow> node" where
  "example_node uid =
     \<lparr>n_uid = uid, n_parent_uid = None, n_kind = KFolder, n_name = ''Docs'', n_creation_time = 1,
      n_modification_time = 2, n_trashed = False, n_is_shared = False, n_is_shared_publicly = False,
      n_signature_email = None, n_membership = None, n_direct_role = None, n_share_id = None,
      n_photo = None, n_album = None, n_verification = NodeVerification_default\<rparr>"

text \<open>A serializer for the two example nodes.\<close>

definition uid_a :: node_uid where "uid_a = NodeUid_new (VolumeId ''v'') (LinkId ''a'')"
definition uid_b :: node_uid where "uid_b = NodeUid_new (VolumeId ''v'') (LinkId ''b'')"

definition info :: "node_uid \<Rightarrow> cached_node_info" where
  "info uid = \<lparr>cni_node = example_node uid, cni_membership_share_id = None, cni_name_hash_digest = ''h''\<rparr>"

definition example_js :: "cached_node_info json_codec" where
  "example_js =
     \<lparr>js_to_string = (\<lambda>v. if v = info uid_a then Inr ''A'' else if v = info uid_b then Inr ''B''
                          else Inl ''unsupported''),
      js_from_str = (\<lambda>t. if t = ''A'' then Some (info uid_a) else if t = ''B'' then Some (info uid_b)
                         else None)\<rparr>"

lemma info_distinct: "info uid_a \<noteq> info uid_b"
  by (simp add: info_def example_node_def uid_a_def uid_b_def)

lemma example_js_ok: "codec_ok example_js"
  using info_distinct by (auto simp: codec_ok_def example_js_def utf8_string_def)

lemma uids_ok: "uid_ok uid_a" "uid_ok uid_b" "uid_a \<noteq> uid_b"
  by (simp_all add: uid_ok_def uid_a_def uid_b_def)

lemma set_node_runs:
  "uid \<in> {uid_a, uid_b} \<Longrightarrow>
   set_node (in_memory_repo list_lru) example_js uid (example_node uid) None ''h'' s =
     (Inr (), snd (set_node (in_memory_repo list_lru) example_js uid (example_node uid) None ''h'' s))"
  using info_distinct
  by (auto simp: set_node_def set_json_def example_js_def info_def [symmetric] in_memory_repo_def
      cache_set_def Let_def prod_eq_iff split: prod.splits)

theorem entity_node_round_trip_witness:
  "\<exists>s1 s2. set_node (in_memory_repo list_lru) example_js uid_a (example_node uid_a) None ''h'' example_cache
       = (Inr (), s1) \<and>
     set_node (in_memory_repo list_lru) example_js uid_b (example_node uid_b) None ''h'' s1 = (Inr (), s2) \<and>
     fst (try_get_node (in_memory_repo list_lru) example_js uid_a s1) = Inr (Some (info uid_a)) \<and>
     fst (try_get_node (in_memory_repo list_lru) example_js uid_a s2) \<in> {Inr None, Inr (Some (info uid_a))}"
proof -
  have a: "uid_a \<in> {uid_a, uid_b}" and b: "uid_b \<in> {uid_a, uid_b}" by simp_all
  note s1 = set_node_runs [OF a, of example_cache]
  note s2 = set_node_runs [OF b, of "snd (set_node (in_memory_repo list_lru) example_js uid_a
      (example_node uid_a) None ''h'' example_cache)"]
  from entity_node_round_trip [OF list_lru.lru_cache_axioms example_cache_ok example_js_ok s1
      uids_ok s2] s1 s2
  show ?thesis unfolding info_def by blast
qed

definition malformed_cache :: "lru_list in_memory_state" where
  "malformed_cache =
     fold (run_op (in_memory_repo list_lru)) [OpSet (node_key uid_a) ''not json'' []]
       (with_capacity list_lru 2)"

theorem entity_malformed_evicted_witness:
  "\<exists>s1. try_get_node (in_memory_repo list_lru) example_js uid_a malformed_cache = (Inr None, s1) \<and>
     lru_list_held (entries s1) (node_key uid_a) = None"
proof -
  have ok: "cache_ok lru_list_good lru_list_held malformed_cache"
    unfolding malformed_cache_def
    using list_lru.run_ops_ok [OF conjunct1 [OF list_lru.with_capacity_ok]] by blast
  have held: "lru_list_held (entries malformed_cache) (node_key uid_a) = Some ''not json''"
    by (simp add: malformed_cache_def lru_list_held_def cache_eval)
  have bad: "js_from_str example_js ''not json'' = None" by (simp add: example_js_def)
  from entity_malformed_evicted [OF list_lru.lru_cache_axioms ok held bad] show ?thesis by auto
qed

end
