(* ===== verification/Single_Flight.thy ===== *)
theory Single_Flight
  imports Api
begin

text \<open>
  The load collapser of \<open>proton-drive-rs/src/single_flight.rs\<close> as a step relation.
  A call of \<open>run\<close> has three atomic parts: under the map lock it joins the load in
  the key's slot or starts one there; it awaits the shared load; under the lock
  again it removes the key's slot and returns the outcome.  Tasks interleave
  between the parts.  A caller may also be dropped while it waits.
\<close>

section \<open>State and steps\<close>

datatype ('k, 'v) phase =
    Waiting 'k nat
  | Clearing 'k nat "'v result"
  | Returned 'k nat "'v result"
  | Dropped

record ('k, 'v) flight =
  slots :: "'k \<Rightarrow> nat option"
  loads :: "nat \<Rightarrow> ('k \<times> 'v result option) option"
  next_load :: nat
  tasks :: "nat \<Rightarrow> ('k, 'v) phase option"

definition flight_init :: "('k, 'v) flight" where
  "flight_init = \<lparr>slots = Map.empty, loads = Map.empty, next_load = 0, tasks = Map.empty\<rparr>"

definition run_enter :: "nat \<Rightarrow> 'k \<Rightarrow> ('k, 'v) flight \<Rightarrow> ('k, 'v) flight" where
  "run_enter t k s =
     (case slots s k of
        Some l \<Rightarrow> s\<lparr>tasks := (tasks s)(t \<mapsto> Waiting k l)\<rparr>
      | None \<Rightarrow>
          s\<lparr>slots := (slots s)(k \<mapsto> next_load s),
            loads := (loads s)(next_load s \<mapsto> (k, None)),
            next_load := Suc (next_load s),
            tasks := (tasks s)(t \<mapsto> Waiting k (next_load s))\<rparr>)"

definition load_complete :: "nat \<Rightarrow> 'k \<Rightarrow> 'v result \<Rightarrow> ('k, 'v) flight \<Rightarrow> ('k, 'v) flight" where
  "load_complete l k r s = s\<lparr>loads := (loads s)(l \<mapsto> (k, Some r))\<rparr>"

definition run_wake :: "nat \<Rightarrow> 'k \<Rightarrow> nat \<Rightarrow> 'v result \<Rightarrow> ('k, 'v) flight \<Rightarrow> ('k, 'v) flight" where
  "run_wake t k l r s = s\<lparr>tasks := (tasks s)(t \<mapsto> Clearing k l r)\<rparr>"

definition shared_outcome :: "(proton_error \<Rightarrow> string) \<Rightarrow> 'v result \<Rightarrow> 'v result" where
  "shared_outcome disp r = (case r of Inl e \<Rightarrow> Inl (rebuild_error disp e) | Inr v \<Rightarrow> Inr v)"

definition run_clear ::
  "(proton_error \<Rightarrow> string) \<Rightarrow> nat \<Rightarrow> 'k \<Rightarrow> nat \<Rightarrow> 'v result \<Rightarrow> ('k, 'v) flight \<Rightarrow> ('k, 'v) flight" where
  "run_clear disp t k l r s =
     s\<lparr>slots := (slots s)(k := None),
       tasks := (tasks s)(t \<mapsto> Returned k l (shared_outcome disp r))\<rparr>"

definition run_drop :: "nat \<Rightarrow> ('k, 'v) flight \<Rightarrow> ('k, 'v) flight" where
  "run_drop t s = s\<lparr>tasks := (tasks s)(t \<mapsto> Dropped)\<rparr>"

inductive flight_step ::
  "(proton_error \<Rightarrow> string) \<Rightarrow> ('k, 'v) flight \<Rightarrow> ('k, 'v) flight \<Rightarrow> bool" for disp where
  enter: "tasks s t = None \<Longrightarrow> flight_step disp s (run_enter t k s)"
| complete: "loads s l = Some (k, None) \<Longrightarrow> flight_step disp s (load_complete l k r s)"
| wake: "tasks s t = Some (Waiting k l) \<Longrightarrow> loads s l = Some (k, Some r) \<Longrightarrow>
         flight_step disp s (run_wake t k l r s)"
| clear: "tasks s t = Some (Clearing k l r) \<Longrightarrow> flight_step disp s (run_clear disp t k l r s)"
| drop: "tasks s t = Some (Waiting k l) \<Longrightarrow> flight_step disp s (run_drop t s)"

inductive flight_reachable :: "(proton_error \<Rightarrow> string) \<Rightarrow> ('k, 'v) flight \<Rightarrow> bool" for disp where
  init: "flight_reachable disp flight_init"
| step: "flight_reachable disp s \<Longrightarrow> flight_step disp s s' \<Longrightarrow> flight_reachable disp s'"

inductive_cases flight_stepE: "flight_step disp s s'"

section \<open>What a caller is handed\<close>

definition running :: "('k, 'v) flight \<Rightarrow> 'k \<Rightarrow> nat \<Rightarrow> bool" where
  "running s k l = (loads s l = Some (k, None))"

text \<open>A waiting task waits for a load of its own key; a woken one holds that load's outcome.\<close>

fun phase_ok ::
  "(proton_error \<Rightarrow> string) \<Rightarrow> (nat \<Rightarrow> ('k \<times> 'v result option) option) \<Rightarrow> ('k, 'v) phase \<Rightarrow> bool" where
  "phase_ok disp ls (Waiting k l) = (\<exists>r. ls l = Some (k, r))"
| "phase_ok disp ls (Clearing k l r) = (ls l = Some (k, Some r))"
| "phase_ok disp ls (Returned k l r) =
     (\<exists>r0. ls l = Some (k, Some r0) \<and> r = shared_outcome disp r0)"
| "phase_ok disp ls Dropped = True"

definition flight_ok :: "(proton_error \<Rightarrow> string) \<Rightarrow> ('k, 'v) flight \<Rightarrow> bool" where
  "flight_ok disp s =
     ((\<forall>l. next_load s \<le> l \<longrightarrow> loads s l = None) \<and>
      (\<forall>k l. slots s k = Some l \<longrightarrow> (\<exists>r. loads s l = Some (k, r))) \<and>
      (\<forall>t p. tasks s t = Some p \<longrightarrow> phase_ok disp (loads s) p))"

text \<open>Loads are only added and completed.\<close>

definition grows ::
  "(nat \<Rightarrow> ('k \<times> 'v result option) option) \<Rightarrow> (nat \<Rightarrow> ('k \<times> 'v result option) option) \<Rightarrow> bool" where
  "grows ls ls' = (\<forall>l k r. ls l = Some (k, r) \<longrightarrow>
     (\<exists>r'. ls' l = Some (k, r') \<and> (r \<noteq> None \<longrightarrow> r' = r)))"

lemma grows_refl [simp]: "grows ls ls"
  by (simp add: grows_def)

lemma grows_add: "ls l = None \<Longrightarrow> grows ls (ls(l \<mapsto> x))"
  by (simp add: grows_def)

lemma grows_complete: "ls l = Some (k, None) \<Longrightarrow> grows ls (ls(l \<mapsto> (k, Some r)))"
  by (simp add: grows_def)

lemma phase_ok_grows: "phase_ok disp ls p \<Longrightarrow> grows ls ls' \<Longrightarrow> phase_ok disp ls' p"
  by (cases p) (fastforce simp: grows_def)+

lemma flight_okI:
  assumes "flight_ok disp s" and "grows (loads s) (loads s')"
    and "\<And>l. next_load s' \<le> l \<Longrightarrow> loads s' l = None"
    and "\<And>k l. slots s' k = Some l \<Longrightarrow> slots s k \<noteq> Some l \<Longrightarrow> \<exists>r. loads s' l = Some (k, r)"
    and "\<And>t p. tasks s' t = Some p \<Longrightarrow> tasks s t \<noteq> Some p \<Longrightarrow> phase_ok disp (loads s') p"
  shows "flight_ok disp s'"
proof -
  have "\<exists>r. loads s' l = Some (k, r)" if "slots s' k = Some l" for k l
  proof (cases "slots s k = Some l")
    case True
    then obtain r where "loads s l = Some (k, r)" using assms(1) unfolding flight_ok_def by blast
    then show ?thesis using assms(2) unfolding grows_def by blast
  next
    case False
    then show ?thesis using assms(4) [OF that] by blast
  qed
  moreover have "phase_ok disp (loads s') p" if "tasks s' t = Some p" for t p
  proof (cases "tasks s t = Some p")
    case True
    then have "phase_ok disp (loads s) p" using assms(1) unfolding flight_ok_def by blast
    then show ?thesis using assms(2) by (rule phase_ok_grows)
  next
    case False
    then show ?thesis using assms(5) [OF that] by blast
  qed
  ultimately show ?thesis using assms(3) by (simp add: flight_ok_def)
qed

lemma flight_ok_enter: "flight_ok disp s \<Longrightarrow> flight_ok disp (run_enter t k s)"
proof (cases "slots s k")
  case None
  assume ok: "flight_ok disp s"
  then have "loads s (next_load s) = None" by (simp add: flight_ok_def)
  with ok None show ?thesis
    by (intro flight_okI [OF ok]) (auto simp: run_enter_def grows_add flight_ok_def split: if_splits)
next
  case (Some l)
  assume ok: "flight_ok disp s"
  with Some show ?thesis
    by (intro flight_okI [OF ok]) (auto simp: run_enter_def flight_ok_def split: if_splits)
qed

lemma flight_ok_step: "flight_step disp s s' \<Longrightarrow> flight_ok disp s \<Longrightarrow> flight_ok disp s'"
proof (induction rule: flight_step.induct)
  case (enter s t k)
  then show ?case by (intro flight_ok_enter)
next
  case (complete s l k r)
  then show ?case
    by (intro flight_okI [OF complete(2)])
       (auto simp: load_complete_def grows_complete flight_ok_def split: if_splits)
next
  case (wake s t k l r)
  then show ?case
    by (intro flight_okI [OF wake(3)]) (auto simp: run_wake_def flight_ok_def split: if_splits)
next
  case (clear s t k l r)
  then have "loads s l = Some (k, Some r)" by (fastforce simp: flight_ok_def)
  then show ?case
    using clear
    by (intro flight_okI [OF clear(2)]) (auto simp: run_clear_def flight_ok_def split: if_splits)
next
  case (drop s t k l)
  then show ?case
    by (intro flight_okI [OF drop(2)]) (auto simp: run_drop_def flight_ok_def split: if_splits)
qed

lemma flight_reachable_ok: "flight_reachable disp s \<Longrightarrow> flight_ok disp s"
proof (induction rule: flight_reachable.induct)
  case init
  then show ?case by (simp add: flight_ok_def flight_init_def)
next
  case (step s s')
  then show ?case by (blast intro: flight_ok_step)
qed

section \<open>How many loads of a key run\<close>

text \<open>
  A task is late for its key when the key's slot no longer holds the load it waited
  for.  An orderly execution starts a load only when nobody is late: every caller of
  the previous load has come back.
\<close>

definition active_on :: "('k, 'v) flight \<Rightarrow> 'k \<Rightarrow> nat \<Rightarrow> bool" where
  "active_on s k l =
     (\<exists>t r. tasks s t = Some (Waiting k l) \<or> tasks s t = Some (Clearing k l r))"

inductive orderly_reachable :: "(proton_error \<Rightarrow> string) \<Rightarrow> ('k, 'v) flight \<Rightarrow> bool" for disp where
  orderly_init: "orderly_reachable disp flight_init"
| orderly_enter: "orderly_reachable disp s \<Longrightarrow> tasks s t = None \<Longrightarrow>
    (slots s k = None \<longrightarrow> (\<forall>l. \<not> active_on s k l)) \<Longrightarrow> orderly_reachable disp (run_enter t k s)"
| orderly_complete: "orderly_reachable disp s \<Longrightarrow> loads s l = Some (k, None) \<Longrightarrow>
    orderly_reachable disp (load_complete l k r s)"
| orderly_wake: "orderly_reachable disp s \<Longrightarrow> tasks s t = Some (Waiting k l) \<Longrightarrow>
    loads s l = Some (k, Some r) \<Longrightarrow> orderly_reachable disp (run_wake t k l r s)"
| orderly_clear: "orderly_reachable disp s \<Longrightarrow> tasks s t = Some (Clearing k l r) \<Longrightarrow>
    orderly_reachable disp (run_clear disp t k l r s)"
| orderly_drop: "orderly_reachable disp s \<Longrightarrow> tasks s t = Some (Waiting k l) \<Longrightarrow>
    orderly_reachable disp (run_drop t s)"

lemma orderly_imp_reachable: "orderly_reachable disp s \<Longrightarrow> flight_reachable disp s"
  by (induction rule: orderly_reachable.induct)
     (auto intro: flight_reachable.intros flight_step.intros)

definition orderly_ok :: "('k, 'v) flight \<Rightarrow> bool" where
  "orderly_ok s =
     ((\<forall>k l. running s k l \<longrightarrow> slots s k = Some l) \<and>
      (\<forall>k l l'. active_on s k l \<longrightarrow> slots s k = Some l' \<longrightarrow> l = l'))"

lemma active_on_update:
  "active_on s' k l \<Longrightarrow> tasks s' = (tasks s)(t \<mapsto> p) \<Longrightarrow>
     active_on s k l \<or> p = Waiting k l \<or> (\<exists>r. p = Clearing k l r)"
  unfolding active_on_def by (metis fun_upd_apply option.inject)

lemma active_onI: "tasks s t = Some (Waiting k l) \<Longrightarrow> active_on s k l"
  "tasks s t = Some (Clearing k l r) \<Longrightarrow> active_on s k l"
  unfolding active_on_def by blast+

lemma orderly_okI:
  assumes "orderly_ok s"
    and "\<And>k l. running s' k l \<Longrightarrow> slots s' k \<noteq> Some l \<Longrightarrow> running s k l \<and> slots s k \<noteq> Some l"
    and "\<And>k l l'. active_on s' k l \<Longrightarrow> slots s' k = Some l' \<Longrightarrow> l \<noteq> l' \<Longrightarrow>
            active_on s k l \<and> slots s k = Some l'"
  shows "orderly_ok s'"
proof -
  have one: "slots s k = Some l" if "running s k l" for k l
    using assms(1) that unfolding orderly_ok_def by blast
  have two: "l = l'" if "active_on s k l" "slots s k = Some l'" for k l l'
    using assms(1) that unfolding orderly_ok_def by blast
  have "slots s' k = Some l" if "running s' k l" for k l
    using assms(2) [OF that] one by blast
  moreover have "l = l'" if "active_on s' k l" "slots s' k = Some l'" for k l l'
    using assms(3) [OF that] two by blast
  ultimately show ?thesis unfolding orderly_ok_def by blast
qed

lemma orderly_reachable_ok: "orderly_reachable disp s \<Longrightarrow> orderly_ok s"
proof (induction rule: orderly_reachable.induct)
  case orderly_init
  then show ?case by (simp add: orderly_ok_def running_def active_on_def flight_init_def)
next
  case (orderly_enter s t k)
  have ok: "flight_ok disp s" using orderly_enter.hyps(1) orderly_imp_reachable flight_reachable_ok by blast
  show ?case
  proof (cases "slots s k")
    case (Some l)
    then have e: "run_enter t k s = s\<lparr>tasks := (tasks s)(t \<mapsto> Waiting k l)\<rparr>"
      by (simp add: run_enter_def)
    show ?thesis
    proof (rule orderly_okI [OF orderly_enter.IH])
      fix k' l1 l2 assume a: "active_on (run_enter t k s) k' l1"
        "slots (run_enter t k s) k' = Some l2" "l1 \<noteq> l2"
      have "active_on s k' l1 \<or> k' = k \<and> l1 = l" using active_on_update [OF a(1), of s t] by (auto simp: e)
      with a Some show "active_on s k' l1 \<and> slots s k' = Some l2" by (auto simp: e)
    qed (simp add: e running_def)
  next
    case None
    then have free: "\<And>l. \<not> active_on s k l" using orderly_enter.hyps(3) by blast
    have none: "\<And>l. \<not> running s k l" using orderly_enter.IH None by (auto simp: orderly_ok_def)
    show ?thesis
    proof (rule orderly_okI [OF orderly_enter.IH])
      fix k' l assume "running (run_enter t k s) k' l" "slots (run_enter t k s) k' \<noteq> Some l"
      then show "running s k' l \<and> slots s k' \<noteq> Some l"
        using none None by (auto simp: running_def run_enter_def split: if_splits)
    next
      fix k' l1 l2 assume a: "active_on (run_enter t k s) k' l1"
        "slots (run_enter t k s) k' = Some l2" "l1 \<noteq> l2"
      have "active_on s k' l1 \<or> k' = k \<and> l1 = next_load s"
        using active_on_update [OF a(1), of s t "Waiting k (next_load s)"] None
        by (auto simp: run_enter_def)
      then show "active_on s k' l1 \<and> slots s k' = Some l2"
        using a free None by (auto simp: run_enter_def split: if_splits)
    qed
  qed
next
  case (orderly_complete s l k r)
  show ?case
  proof (rule orderly_okI [OF orderly_complete.IH])
    fix k' l' assume "running (load_complete l k r s) k' l'" "slots (load_complete l k r s) k' \<noteq> Some l'"
    then show "running s k' l' \<and> slots s k' \<noteq> Some l'"
      by (auto simp: running_def load_complete_def split: if_splits)
  qed (auto simp: load_complete_def active_on_def)
next
  case (orderly_wake s t k l r)
  show ?case
  proof (rule orderly_okI [OF orderly_wake.IH])
    fix k' l1 l2 assume a: "active_on (run_wake t k l r s) k' l1"
      "slots (run_wake t k l r s) k' = Some l2" "l1 \<noteq> l2"
    have "active_on s k' l1"
      using active_on_update [OF a(1), of s t "Clearing k l r"] active_onI(1) [OF orderly_wake.hyps(2)]
      by (auto simp: run_wake_def)
    then show "active_on s k' l1 \<and> slots s k' = Some l2" using a by (simp add: run_wake_def)
  qed (simp add: run_wake_def running_def)
next
  case (orderly_clear s t k l r)
  have ok: "flight_ok disp s" using orderly_clear.hyps(1) orderly_imp_reachable flight_reachable_ok by blast
  then have "phase_ok disp (loads s) (Clearing k l r)"
    using orderly_clear.hyps(2) unfolding flight_ok_def by blast
  then have ended: "loads s l = Some (k, Some r)" by simp
  have idle: "\<not> running s k l'" for l'
  proof
    assume run: "running s k l'"
    then have "slots s k = Some l'" using orderly_clear.IH unfolding orderly_ok_def by blast
    then have "l = l'"
      using orderly_clear.IH active_onI(2) [OF orderly_clear.hyps(2)] unfolding orderly_ok_def by blast
    with run ended show False by (simp add: running_def)
  qed
  show ?case
  proof (rule orderly_okI [OF orderly_clear.IH])
    fix k' l' assume "running (run_clear disp t k l r s) k' l'" "slots (run_clear disp t k l r s) k' \<noteq> Some l'"
    then show "running s k' l' \<and> slots s k' \<noteq> Some l'"
      using idle by (auto simp: running_def run_clear_def split: if_splits)
  next
    fix k' l1 l2 assume a: "active_on (run_clear disp t k l r s) k' l1"
      "slots (run_clear disp t k l r s) k' = Some l2" "l1 \<noteq> l2"
    have "active_on s k' l1"
      using active_on_update [OF a(1), of s t] by (auto simp: run_clear_def)
    then show "active_on s k' l1 \<and> slots s k' = Some l2"
      using a by (auto simp: run_clear_def split: if_splits)
  qed
next
  case (orderly_drop s t k l)
  show ?case
  proof (rule orderly_okI [OF orderly_drop.IH])
    fix k' l1 l2 assume a: "active_on (run_drop t s) k' l1" "slots (run_drop t s) k' = Some l2" "l1 \<noteq> l2"
    have "active_on s k' l1" using active_on_update [OF a(1), of s t] by (auto simp: run_drop_def)
    then show "active_on s k' l1 \<and> slots s k' = Some l2" using a by (simp add: run_drop_def)
  qed (simp add: run_drop_def running_def)
qed

lemma shared_outcome_cases:
  "shared_outcome disp r0 =
     (case r0 of Inr v \<Rightarrow> Inr v | Inl (Api a) \<Rightarrow> Inl (Api a) | Inl e \<Rightarrow> Inl (InvalidOperation (disp e)))"
proof (cases r0)
  case (Inl e)
  then show ?thesis by (cases e) (simp_all add: shared_outcome_def rebuild_error_def)
qed (simp add: shared_outcome_def)

section \<open>Properties\<close>

text \<open>C8: in every interleaving, a call that returns hands back the outcome of a completed load
  of its own key: the value itself, an API error unchanged, any other error by its text.\<close>

theorem single_flight_returns_own_load:
  assumes "flight_reachable disp s" and "tasks s t = Some (Returned k l r)"
  shows "\<exists>r0. loads s l = Some (k, Some r0) \<and>
     r = (case r0 of Inr v \<Rightarrow> Inr v | Inl (Api a) \<Rightarrow> Inl (Api a) | Inl e \<Rightarrow> Inl (InvalidOperation (disp e)))"
proof -
  have "phase_ok disp (loads s) (Returned k l r)"
    using flight_reachable_ok [OF assms(1)] assms(2) unfolding flight_ok_def by blast
  then show ?thesis by (simp only: phase_ok.simps shared_outcome_cases)
qed

text \<open>when a new load of a key starts only after every caller of the previous one has come
  back, at most one load of the key runs at any time.\<close>

theorem single_flight_orderly_once:
  assumes "orderly_reachable disp s" and "loads s l1 = Some (k, None)" and "loads s l2 = Some (k, None)"
  shows "l1 = l2"
  using orderly_reachable_ok [OF assms(1)] assms(2,3)
  unfolding orderly_ok_def running_def by (metis option.inject)

text \<open>The interleaving behind the next theorem: two callers share load 0; the first comes back
  and clears the slot; a third starts load 1; the second comes back and clears the slot again,
  which now belongs to load 1; a fourth finds no slot and starts load 2.\<close>

definition overlap_trace :: "'k \<Rightarrow> 'v \<Rightarrow> (proton_error \<Rightarrow> string) \<Rightarrow> ('k, 'v) flight" where
  "overlap_trace k v disp =
     run_enter 3 k
       (run_clear disp 1 k 0 (Inr v)
         (run_enter 2 k
           (run_clear disp 0 k 0 (Inr v)
             (run_wake 1 k 0 (Inr v)
               (run_wake 0 k 0 (Inr v)
                 (load_complete 0 k (Inr v)
                   (run_enter 1 k (run_enter 0 k flight_init))))))))"

lemmas trace_simps =
  run_enter_def load_complete_def run_wake_def run_clear_def run_drop_def flight_init_def

lemma overlap_trace_reachable: "flight_reachable disp (overlap_trace k v disp)"
proof -
  let ?s1 = "run_enter 1 k (run_enter 0 k flight_init)"
  let ?s2 = "run_wake 1 k 0 (Inr v) (run_wake 0 k 0 (Inr v) (load_complete 0 k (Inr v) ?s1))"
  let ?s3 = "run_enter 2 k (run_clear disp 0 k 0 (Inr v) ?s2)"
  have 0: "flight_reachable disp (run_enter 0 k flight_init)"
    by (rule flight_reachable.step [OF flight_reachable.init flight_step.enter])
       (simp add: flight_init_def)
  have 1: "flight_reachable disp ?s1"
    by (rule flight_reachable.step [OF 0 flight_step.enter]) (simp add: trace_simps)
  have 2: "flight_reachable disp (load_complete 0 k (Inr v) ?s1)"
    by (rule flight_reachable.step [OF 1 flight_step.complete]) (simp add: trace_simps)
  have 3: "flight_reachable disp (run_wake 0 k 0 (Inr v) (load_complete 0 k (Inr v) ?s1))"
    by (rule flight_reachable.step [OF 2 flight_step.wake]) (simp_all add: trace_simps)
  have 4: "flight_reachable disp ?s2"
    by (rule flight_reachable.step [OF 3 flight_step.wake]) (simp_all add: trace_simps)
  have 5: "flight_reachable disp (run_clear disp 0 k 0 (Inr v) ?s2)"
    by (rule flight_reachable.step [OF 4 flight_step.clear]) (simp add: trace_simps)
  have 6: "flight_reachable disp ?s3"
    by (rule flight_reachable.step [OF 5 flight_step.enter]) (simp add: trace_simps)
  have 7: "flight_reachable disp (run_clear disp 1 k 0 (Inr v) ?s3)"
    by (rule flight_reachable.step [OF 6 flight_step.clear]) (simp add: trace_simps)
  show ?thesis
    unfolding overlap_trace_def
    by (rule flight_reachable.step [OF 7 flight_step.enter]) (simp add: trace_simps)
qed

text \<open>without that discipline the collapser does start a second load of a key while one is
  running: a caller that comes back late removes the slot of a newer load.\<close>

theorem single_flight_overlap:
  "\<exists>s. flight_reachable disp s \<and> loads s 1 = Some (k, None) \<and> loads s 2 = Some (k, None) \<and>
     tasks s 2 = Some (Waiting k 1) \<and> tasks s 3 = Some (Waiting k 2)"
  using overlap_trace_reachable [of disp k undefined]
  by (intro exI [of _ "overlap_trace k undefined disp"]) (simp add: overlap_trace_def trace_simps)

subsection \<open>Witnesses\<close>

theorem single_flight_returns_own_load_witness:
  "\<exists>r0. loads (overlap_trace (1::nat) (7::nat) (\<lambda>e. [])) 0 = Some (1, Some r0) \<and> Inr 7 = r0"
proof -
  let ?s = "overlap_trace (1::nat) (7::nat) (\<lambda>e. [])"
  have "tasks ?s 1 = Some (Returned 1 0 (Inr 7))"
    by (simp add: overlap_trace_def trace_simps shared_outcome_def)
  from single_flight_returns_own_load [OF overlap_trace_reachable this] obtain r0 where
      r0: "loads ?s 0 = Some (1, Some r0)"
        "Inr 7 = (case r0 of Inr v \<Rightarrow> Inr v | Inl (Api a) \<Rightarrow> Inl (Api a) | Inl e \<Rightarrow> Inl (InvalidOperation []))"
    by blast
  have "r0 = Inr 7"
  proof (cases r0)
    case (Inl e)
    with r0(2) show ?thesis by (cases e) simp_all
  next
    case (Inr v)
    with r0(2) show ?thesis by simp
  qed
  with r0(1) show ?thesis by blast
qed

theorem single_flight_orderly_once_witness:
  "{l. loads (run_enter 1 (5::nat) (run_enter 0 5 (flight_init :: (nat, nat) flight))) l = Some (5, None)}
     = {0}"
proof -
  let ?s0 = "run_enter 0 (5::nat) (flight_init :: (nat, nat) flight)"
  have 0: "orderly_reachable (\<lambda>e. []) ?s0"
    by (rule orderly_enter [OF orderly_init]) (simp_all add: flight_init_def active_on_def)
  have 1: "orderly_reachable (\<lambda>e. []) (run_enter 1 5 ?s0)"
    by (rule orderly_enter [OF 0]) (simp_all add: trace_simps)
  have "loads (run_enter 1 5 ?s0) 0 = Some (5, None)" by (simp add: trace_simps)
  with single_flight_orderly_once [OF 1] show ?thesis by blast
qed

end
