(* ===== verification/Events.thy ===== *)
theory Events
  imports Entity_Cache
begin

text \<open>
  Incremental sync: the event model (\<open>events.rs\<close>), the draining of a volume's event
  feed and the cache invalidation each event causes (\<open>client.rs\<close>:
  \<open>to_drive_event\<close>, \<open>latest_event_id\<close>, \<open>enumerate_events\<close>,
  \<open>invalidate_caches_for_event\<close>), and the polling loop of
  \<open>event_manager.rs\<close>.  The two feed endpoints and the cursor store are arguments.
  The client's bounded key caches are the maps of what they hold.  Loops that
  only the server or the network can end are \<open>partial_function (option)\<close>; the
  endless loop of \<open>EventManager::run\<close> is its body, \<open>run_cycle\<close>.
\<close>

section \<open>Events\<close>

datatype drive_event =
    NodeUpdated drive_event_id node_uid "node_uid option" bool bool
  | NodeDeleted drive_event_id node_uid "node_uid option"
  | CursorAdvanced drive_event_id
  | ContinuityLost drive_event_id
  | ScopeAccessLost drive_event_id
  | SharedWithMeUpdated drive_event_id

fun DriveEvent_id :: "drive_event \<Rightarrow> drive_event_id" where
  "DriveEvent_id (NodeUpdated i _ _ _ _) = i"
| "DriveEvent_id (NodeDeleted i _ _) = i"
| "DriveEvent_id (CursorAdvanced i) = i"
| "DriveEvent_id (ContinuityLost i) = i"
| "DriveEvent_id (ScopeAccessLost i) = i"
| "DriveEvent_id (SharedWithMeUpdated i) = i"

record volume_event_link_dto =
  vel_id :: link_id
  vel_parent_id :: "link_id option"
  vel_is_shared :: bool
  vel_is_trashed :: bool

record volume_event_dto =
  ve_id :: drive_event_id
  ve_event_type :: int
  ve_link :: volume_event_link_dto

record volume_event_list_response =
  vl_last_event_id :: drive_event_id
  vl_events :: "volume_event_dto list"
  vl_more_entries_exist :: bool
  vl_refresh_required :: bool

definition to_drive_event :: "volume_id \<Rightarrow> volume_event_dto \<Rightarrow> drive_event result" where
  "to_drive_event vid e =
     (let uid = NodeUid_new vid (vel_id (ve_link e));
          parent = map_option (NodeUid_new vid) (vel_parent_id (ve_link e))
      in if 1 \<le> ve_event_type e \<and> ve_event_type e \<le> 3 then
           Inr (NodeUpdated (ve_id e) uid parent (vel_is_trashed (ve_link e)) (vel_is_shared (ve_link e)))
         else if ve_event_type e = 0 then Inr (NodeDeleted (ve_id e) uid parent)
         else Inl (InvalidOperation (''unknown volume event type '' @ int_to_string (ve_event_type e))))"

text \<open>The conversion loop: the first event that does not convert fails the whole drain.\<close>

fun to_drive_events :: "volume_id \<Rightarrow> volume_event_dto list \<Rightarrow> drive_event list \<Rightarrow> drive_event list result" where
  "to_drive_events vid [] events = Inr events"
| "to_drive_events vid (e # es) events =
     (case to_drive_event vid e of
        Inl err \<Rightarrow> Inl err
      | Inr ev \<Rightarrow> to_drive_events vid es (events @ [ev]))"

section \<open>Draining the feed\<close>

record 'w event_api =
  ea_latest :: "string \<Rightarrow> 'w \<Rightarrow> drive_event_id result \<times> 'w"
  ea_page :: "string \<Rightarrow> 'w \<Rightarrow> volume_event_list_response result \<times> 'w"

definition latest_event_id :: "'w event_api \<Rightarrow> volume_id \<Rightarrow> 'w \<Rightarrow> drive_event_id result \<times> 'w" where
  "latest_event_id api vid w =
     ea_latest api (''volumes/'' @ volume_id_str vid @ ''/events/latest'') w"

definition event_page_path :: "volume_id \<Rightarrow> drive_event_id \<Rightarrow> string" where
  "event_page_path vid cursor =
     ''v2/volumes/'' @ volume_id_str vid @ ''/events/'' @ drive_event_id_str cursor"

partial_function (option) drain_events ::
  "'w event_api \<Rightarrow> volume_id \<Rightarrow> drive_event_id \<Rightarrow> drive_event list \<Rightarrow> 'w
     \<Rightarrow> (drive_event list result \<times> 'w) option" where
  "drain_events api vid cursor events w =
     (case ea_page api (event_page_path vid cursor) w of
        (Inl e, w1) \<Rightarrow> Some (Inl e, w1)
      | (Inr page, w1) \<Rightarrow>
          if vl_refresh_required page then
            Some (Inr (events @ [ContinuityLost (vl_last_event_id page)]), w1)
          else if vl_events page = [] then
            Some (Inr (if vl_last_event_id page \<noteq> cursor
                       then events @ [CursorAdvanced (vl_last_event_id page)] else events), w1)
          else
            (case to_drive_events vid (vl_events page) events of
               Inl e \<Rightarrow> Some (Inl e, w1)
             | Inr events' \<Rightarrow>
                 if \<not> vl_more_entries_exist page then Some (Inr events', w1)
                 else drain_events api vid (vl_last_event_id page) events' w1))"

definition enumerate_events ::
  "'w event_api \<Rightarrow> drive_event_scope_id \<Rightarrow> drive_event_id option \<Rightarrow> 'w
     \<Rightarrow> (drive_event list result \<times> 'w) option" where
  "enumerate_events api scope cursor w =
     (case cursor of
        Some c \<Rightarrow> drain_events api (scope_volume scope) c [] w
      | None \<Rightarrow>
          (case latest_event_id api (scope_volume scope) w of
             (Inl e, w1) \<Rightarrow> Some (Inl e, w1)
           | (Inr i, w1) \<Rightarrow> Some (Inr [CursorAdvanced i], w1)))"

section \<open>Invalidation\<close>

record 'key share_key =
  sk_share_id :: share_id
  sk_address_id :: address_id
  sk_key :: 'key

record 'key drive_cache =
  dc_main_volume_id :: "volume_id option"
  dc_my_files_share :: "'key share_key option"
  dc_my_files_root :: "node_uid option"
  dc_photos_share :: "'key share_key option"
  dc_photos_root :: "node_uid option"
  dc_photos_volume_exists :: "bool option"
  dc_folder_keys :: "node_uid \<Rightarrow> 'key option"
  dc_shared_with_me_shares :: "(node_uid \<Rightarrow> share_id option) option"
  dc_context_share_ids :: "node_uid \<Rightarrow> share_id option"

definition DriveCache_default :: "'key drive_cache" where
  "DriveCache_default =
     \<lparr>dc_main_volume_id = None, dc_my_files_share = None, dc_my_files_root = None,
      dc_photos_share = None, dc_photos_root = None,
      dc_photos_volume_exists = None, dc_folder_keys = Map.empty,
      dc_shared_with_me_shares = None, dc_context_share_ids = Map.empty\<rparr>"

record ('key, 's) client_caches =
  cc_drive :: "'key drive_cache"
  cc_entities :: 's

definition pop_folder_key :: "node_uid \<Rightarrow> 'key drive_cache \<Rightarrow> 'key drive_cache" where
  "pop_folder_key uid c = c\<lparr>dc_folder_keys := (dc_folder_keys c)(uid := None)\<rparr>"

definition clear_context_shares :: "'key drive_cache \<Rightarrow> 'key drive_cache" where
  "clear_context_shares c = c\<lparr>dc_context_share_ids := Map.empty\<rparr>"

definition clear_folder_keys :: "'key drive_cache \<Rightarrow> 'key drive_cache" where
  "clear_folder_keys c = c\<lparr>dc_folder_keys := Map.empty\<rparr>"

definition invalidate_node ::
  "'s cache_repo \<Rightarrow> node_uid \<Rightarrow> ('key, 's) client_caches \<Rightarrow> unit result \<times> ('key, 's) client_caches" where
  "invalidate_node repo uid c =
     (let (r, s) = remove_node repo uid (cc_entities c)
      in (r, c\<lparr>cc_drive := clear_context_shares (pop_folder_key uid (cc_drive c)), cc_entities := s\<rparr>))"

definition invalidate_all ::
  "'s cache_repo \<Rightarrow> ('key, 's) client_caches \<Rightarrow> unit result \<times> ('key, 's) client_caches" where
  "invalidate_all repo c =
     (let (r, s) = clear_entities repo (cc_entities c)
      in (r, c\<lparr>cc_drive := clear_context_shares (clear_folder_keys (cc_drive c)), cc_entities := s\<rparr>))"

fun invalidate_caches_for_event ::
  "'s cache_repo \<Rightarrow> drive_event \<Rightarrow> ('key, 's) client_caches \<Rightarrow> unit result \<times> ('key, 's) client_caches" where
  "invalidate_caches_for_event repo (NodeUpdated _ uid _ _ _) c = invalidate_node repo uid c"
| "invalidate_caches_for_event repo (NodeDeleted _ uid _) c = invalidate_node repo uid c"
| "invalidate_caches_for_event repo (ContinuityLost _) c = invalidate_all repo c"
| "invalidate_caches_for_event repo (ScopeAccessLost _) c = invalidate_all repo c"
| "invalidate_caches_for_event repo (SharedWithMeUpdated _) c =
     (Inr (), c\<lparr>cc_drive := clear_context_shares (cc_drive c)\<rparr>)"
| "invalidate_caches_for_event repo (CursorAdvanced _) c = (Inr (), c)"

section \<open>The event manager\<close>

definition DEFAULT_FOREGROUND_INTERVAL :: duration where
  "DEFAULT_FOREGROUND_INTERVAL = from_secs 30"

definition DEFAULT_BACKGROUND_INTERVAL :: duration where
  "DEFAULT_BACKGROUND_INTERVAL = from_secs (10 * 60)"

definition RETRY_MIN :: duration where
  "RETRY_MIN = from_secs 1"

record 'c cursor_store =
  st_load :: "'c \<Rightarrow> drive_event_id option result \<times> 'c"
  st_save :: "drive_event_id \<Rightarrow> 'c \<Rightarrow> unit result \<times> 'c"

definition MemoryCursorStore :: "drive_event_id option cursor_store" where
  "MemoryCursorStore =
     \<lparr>st_load = (\<lambda>c. (Inr c, c)), st_save = (\<lambda>i c. (Inr (), Some i))\<rparr>"

record event_manager_config =
  em_foreground_interval :: duration
  em_background_interval :: duration
  em_channel_capacity :: nat

definition EventManagerConfig_default :: event_manager_config where
  "EventManagerConfig_default =
     \<lparr>em_foreground_interval = DEFAULT_FOREGROUND_INTERVAL,
      em_background_interval = DEFAULT_BACKGROUND_INTERVAL, em_channel_capacity = 256\<rparr>"

text \<open>
  The manager's calls and, separately, its state: caches, cursor store, the world
  behind the API, the events published so far, the delays slept and the
  foreground switch.
\<close>

record ('s, 'c, 'w) event_manager =
  mg_api :: "'w event_api"
  mg_repo :: "'s cache_repo"
  mg_store :: "'c cursor_store"
  mg_scope :: drive_event_scope_id
  mg_config :: event_manager_config

record ('key, 's, 'c, 'w) manager_state =
  ms_caches :: "('key, 's) client_caches"
  ms_store :: 'c
  ms_world :: 'w
  ms_sent :: "drive_event list"
  ms_slept :: "duration list"
  ms_foreground :: bool

definition set_foreground :: "bool \<Rightarrow> ('key, 's, 'c, 'w) manager_state \<Rightarrow> ('key, 's, 'c, 'w) manager_state" where
  "set_foreground fg st = st\<lparr>ms_foreground := fg\<rparr>"

definition current_interval ::
  "('s, 'c, 'w) event_manager \<Rightarrow> ('key, 's, 'c, 'w) manager_state \<Rightarrow> duration" where
  "current_interval mg st =
     (if ms_foreground st then em_foreground_interval (mg_config mg)
      else em_background_interval (mg_config mg))"

definition manager_sleep ::
  "duration \<Rightarrow> ('key, 's, 'c, 'w) manager_state \<Rightarrow> ('key, 's, 'c, 'w) manager_state" where
  "manager_sleep d st = st\<lparr>ms_slept := ms_slept st @ [d]\<rparr>"

definition save_cursor ::
  "('s, 'c, 'w) event_manager \<Rightarrow> drive_event_id option \<Rightarrow> ('key, 's, 'c, 'w) manager_state
     \<Rightarrow> ('key, 's, 'c, 'w) manager_state" where
  "save_cursor mg cursor st =
     (case cursor of
        None \<Rightarrow> st
      | Some i \<Rightarrow> st\<lparr>ms_store := snd (st_save (mg_store mg) i (ms_store st))\<rparr>)"

definition last_id :: "drive_event list \<Rightarrow> drive_event_id option" where
  "last_id events = (if events = [] then None else Some (DriveEvent_id (last events)))"

partial_function (option) seed_cursor ::
  "('s, 'c, 'w) event_manager \<Rightarrow> duration \<Rightarrow> ('key, 's, 'c, 'w) manager_state
     \<Rightarrow> (drive_event_id option \<times> ('key, 's, 'c, 'w) manager_state) option" where
  "seed_cursor mg delay st =
     (case enumerate_events (mg_api mg) (mg_scope mg) None (ms_world st) of
        None \<Rightarrow> None
      | Some (Inr events, w) \<Rightarrow>
          Some (last_id events, save_cursor mg (last_id events) (st\<lparr>ms_world := w\<rparr>))
      | Some (Inl e, w) \<Rightarrow>
          seed_cursor mg (min (delay * 2) (em_background_interval (mg_config mg)))
            (manager_sleep delay (st\<lparr>ms_world := w\<rparr>)))"

definition resolve_start_cursor ::
  "('s, 'c, 'w) event_manager \<Rightarrow> ('key, 's, 'c, 'w) manager_state
     \<Rightarrow> (drive_event_id option \<times> ('key, 's, 'c, 'w) manager_state) option" where
  "resolve_start_cursor mg st =
     (case st_load (mg_store mg) (ms_store st) of
        (Inr (Some cursor), c) \<Rightarrow> Some (Some cursor, st\<lparr>ms_store := c\<rparr>)
      | (_, c) \<Rightarrow> seed_cursor mg RETRY_MIN (st\<lparr>ms_store := c\<rparr>))"

fun apply_events ::
  "'s cache_repo \<Rightarrow> drive_event list \<Rightarrow> ('key, 's, 'c, 'w) manager_state
     \<Rightarrow> ('key, 's, 'c, 'w) manager_state" where
  "apply_events repo [] st = st"
| "apply_events repo (e # es) st =
     apply_events repo es
       (st\<lparr>ms_caches := snd (invalidate_caches_for_event repo e (ms_caches st)),
          ms_sent := ms_sent st @ [e]\<rparr>)"

text \<open>One turn of the polling loop, from its cursor and retry delay to the next ones.\<close>

definition run_cycle ::
  "('s, 'c, 'w) event_manager \<Rightarrow> drive_event_id option \<times> duration \<Rightarrow> ('key, 's, 'c, 'w) manager_state
     \<Rightarrow> ((drive_event_id option \<times> duration) \<times> ('key, 's, 'c, 'w) manager_state) option" where
  "run_cycle mg = (\<lambda>(cursor, retry) st0.
     let st = manager_sleep (current_interval mg st0) st0 in
     case enumerate_events (mg_api mg) (mg_scope mg) cursor (ms_world st) of
       None \<Rightarrow> None
     | Some (Inl e, w) \<Rightarrow>
         (let st1 = manager_sleep retry (st\<lparr>ms_world := w\<rparr>)
          in Some ((cursor, min (retry * 2) (current_interval mg st1)), st1))
     | Some (Inr events, w) \<Rightarrow>
         if events = [] then Some ((cursor, RETRY_MIN), st\<lparr>ms_world := w\<rparr>)
         else
           (let st1 = apply_events (mg_repo mg) events (st\<lparr>ms_world := w\<rparr>);
                cursor' = last_id events
            in Some ((cursor', RETRY_MIN), save_cursor mg cursor' st1)))"

fun run_cycles ::
  "nat \<Rightarrow> ('s, 'c, 'w) event_manager \<Rightarrow> drive_event_id option \<times> duration \<Rightarrow> ('key, 's, 'c, 'w) manager_state
     \<Rightarrow> ((drive_event_id option \<times> duration) \<times> ('key, 's, 'c, 'w) manager_state) option" where
  "run_cycles 0 mg c st = Some (c, st)"
| "run_cycles (Suc n) mg c st =
     (case run_cycle mg c st of None \<Rightarrow> None | Some (c', st') \<Rightarrow> run_cycles n mg c' st')"

section \<open>Lemmas\<close>

definition event_type_known :: "volume_event_dto \<Rightarrow> bool" where
  "event_type_known e = (0 \<le> ve_event_type e \<and> ve_event_type e \<le> 3)"

definition converted :: "volume_id \<Rightarrow> volume_event_dto \<Rightarrow> drive_event" where
  "converted vid e = projr (to_drive_event vid e)"

lemma to_drive_event_known:
  "event_type_known e \<Longrightarrow> to_drive_event vid e = Inr (converted vid e) \<and> DriveEvent_id (converted vid e) = ve_id e"
  by (auto simp: event_type_known_def converted_def to_drive_event_def Let_def)

lemma to_drive_events_known:
  "list_all event_type_known es \<Longrightarrow> to_drive_events vid es evs = Inr (evs @ map (converted vid) es)"
  by (induction es arbitrary: evs) (simp_all add: to_drive_event_known)

text \<open>
  A server with an event log: position \<open>i\<close> of the log is addressed by the cursor left
  after the first \<open>i\<close> events, and a page at a position inside the log carries some
  positive number of the following events.
\<close>

definition cursor_at :: "drive_event_id \<Rightarrow> volume_event_dto list \<Rightarrow> nat \<Rightarrow> drive_event_id" where
  "cursor_at c0 evs0 i = (c0 # map ve_id evs0) ! i"

definition serves_log :: "'w event_api \<Rightarrow> volume_id \<Rightarrow> drive_event_id \<Rightarrow> volume_event_dto list \<Rightarrow> bool" where
  "serves_log api vid c0 evs0 =
     (\<forall>i\<le>length evs0. \<forall>w. \<exists>w' n. i + n \<le> length evs0 \<and> (i < length evs0 \<longrightarrow> 0 < n) \<and>
        ea_page api (event_page_path vid (cursor_at c0 evs0 i)) w =
          (Inr \<lparr>vl_last_event_id = cursor_at c0 evs0 (i + n), vl_events = take n (drop i evs0),
                vl_more_entries_exist = (i + n < length evs0), vl_refresh_required = False\<rparr>, w'))"

lemma drain_events_log:
  assumes serve: "serves_log api vid c0 evs0" and known: "list_all event_type_known evs0"
    and i: "i \<le> length evs0"
  shows "\<exists>w'. drain_events api vid (cursor_at c0 evs0 i) evs w =
     Some (Inr (evs @ map (converted vid) (drop i evs0)), w')"
  using i
proof (induction "length evs0 - i" arbitrary: i evs w rule: less_induct)
  case less
  obtain w' n where p: "i + n \<le> length evs0" "i < length evs0 \<longrightarrow> 0 < n"
      "ea_page api (event_page_path vid (cursor_at c0 evs0 i)) w =
          (Inr \<lparr>vl_last_event_id = cursor_at c0 evs0 (i + n), vl_events = take n (drop i evs0),
                vl_more_entries_exist = (i + n < length evs0), vl_refresh_required = False\<rparr>, w')"
    using serve less.prems unfolding serves_log_def by blast
  show ?case
  proof (cases "i < length evs0")
    case False
    then show ?thesis using p less.prems by (subst drain_events.simps) simp
  next
    case True
    then have ne: "take n (drop i evs0) \<noteq> []" using p(2) by simp
    have "list_all event_type_known (take n (drop i evs0))"
      using known by (meson in_set_dropD in_set_takeD list_all_iff)
    note conv = to_drive_events_known [OF this, of vid evs]
    have split: "take n (drop i evs0) @ drop (i + n) evs0 = drop i evs0"
      by (metis add.commute append_take_drop_id drop_drop)
    show ?thesis
    proof (cases "i + n < length evs0")
      case True
      have "length evs0 - (i + n) < length evs0 - i" using True p(2) by simp
      from less.hyps [OF this p(1), of "evs @ map (converted vid) (take n (drop i evs0))" w']
      obtain w2 where "drain_events api vid (cursor_at c0 evs0 (i + n))
          (evs @ map (converted vid) (take n (drop i evs0))) w' =
          Some (Inr (evs @ map (converted vid) (take n (drop i evs0) @ drop (i + n) evs0)), w2)" by auto
      then show ?thesis using p(3) ne conv True by (subst drain_events.simps) (simp add: split)
    next
      case False
      then have "take n (drop i evs0) = drop i evs0" by simp
      then show ?thesis using p(3) ne conv False by (subst drain_events.simps) simp
    qed
  qed
qed

lemma last_id_converted:
  assumes "list_all event_type_known evs0" "i < length evs0"
  shows "last_id (map (converted vid) (drop i evs0)) = Some (cursor_at c0 evs0 (length evs0))"
proof -
  have ne: "drop i evs0 \<noteq> []" "evs0 \<noteq> []" using assms(2) by auto
  have "event_type_known (last evs0)" using assms(1) ne(2) by (simp add: list_all_iff)
  then show ?thesis
    using ne by (simp add: last_id_def last_map last_drop to_drive_event_known cursor_at_def
        last_conv_nth nth_Cons' assms(2))
qed

lemma apply_events_frame [simp]:
  "ms_store (apply_events repo es st) = ms_store st"
  "ms_world (apply_events repo es st) = ms_world st"
  "ms_slept (apply_events repo es st) = ms_slept st"
  "ms_foreground (apply_events repo es st) = ms_foreground st"
  "ms_sent (apply_events repo es st) = ms_sent st @ es"
  by (induction es arbitrary: st) simp_all

lemma manager_frames [simp]:
  "ms_sent (save_cursor mg c st) = ms_sent st"
  "ms_caches (save_cursor mg c st) = ms_caches st"
  "ms_sent (manager_sleep d st) = ms_sent st"
  "ms_world (manager_sleep d st) = ms_world st"
  "ms_store (manager_sleep d st) = ms_store st"
  "ms_caches (manager_sleep d st) = ms_caches st"
  by (simp_all add: save_cursor_def manager_sleep_def split: option.splits)

lemma run_cycle_log:
  assumes serve: "serves_log (mg_api mg) (scope_volume (mg_scope mg)) c0 evs0"
    and known: "list_all event_type_known evs0" and i: "i \<le> length evs0"
  shows "\<exists>st'. run_cycle mg (Some (cursor_at c0 evs0 i), retry) st =
       Some ((Some (cursor_at c0 evs0 (length evs0)), RETRY_MIN), st') \<and>
     ms_sent st' = ms_sent st @ map (converted (scope_volume (mg_scope mg))) (drop i evs0)"
proof -
  let ?vid = "scope_volume (mg_scope mg)"
  obtain w' where d: "drain_events (mg_api mg) ?vid (cursor_at c0 evs0 i) [] (ms_world st) =
      Some (Inr (map (converted ?vid) (drop i evs0)), w')"
    using drain_events_log [OF serve known i, of "[]" "ms_world st"] by auto
  show ?thesis
  proof (cases "i < length evs0")
    case True
    then have "drop i evs0 \<noteq> []" by simp
    then show ?thesis
      using d last_id_converted [OF known True, of ?vid c0]
      by (simp add: run_cycle_def enumerate_events_def Let_def)
  next
    case False
    then have "i = length evs0" using i by simp
    then show ?thesis using d by (simp add: run_cycle_def enumerate_events_def Let_def)
  qed
qed

text \<open>Which nodes an event may concern.\<close>

fun event_concerns :: "drive_event \<Rightarrow> node_uid \<Rightarrow> bool" where
  "event_concerns (NodeUpdated _ u _ _ _) uid = (u = uid)"
| "event_concerns (NodeDeleted _ u _) uid = (u = uid)"
| "event_concerns (ContinuityLost _) uid = True"
| "event_concerns (ScopeAccessLost _) uid = True"
| "event_concerns _ uid = False"

definition forgotten ::
  "('l \<Rightarrow> string \<Rightarrow> string option) \<Rightarrow> node_uid \<Rightarrow> ('key, 'l in_memory_state) client_caches \<Rightarrow> bool" where
  "forgotten held uid c =
     (dc_folder_keys (cc_drive c) uid = None \<and> dc_context_share_ids (cc_drive c) = Map.empty \<and>
      held (entries (cc_entities c)) (node_key uid) = None)"

context lru_cache
begin

lemma invalidate_step:
  assumes ok: "cache_ok good held (cc_entities c)"
    and run: "invalidate_caches_for_event (in_memory_repo L) e c = (r, c')"
  shows "cache_ok good held (cc_entities c') \<and> (forgotten held uid c \<longrightarrow> forgotten held uid c') \<and>
     (event_concerns e uid \<longrightarrow> forgotten held uid c')"
proof -
  have rm: "cache_ok good held (snd (cache_remove L k (cc_entities c))) \<and>
      held (entries (snd (cache_remove L k (cc_entities c)))) = (held (entries (cc_entities c)))(k := None)" for k
    using cache_remove_ok [OF ok, of k] by (metis prod.collapse)
  have cl: "cache_ok good held (snd (cache_clear L (cc_entities c))) \<and>
      held (entries (snd (cache_clear L (cc_entities c)))) = Map.empty"
    using cache_clear_ok [OF ok] by (metis prod.collapse)
  note defs = invalidate_node_def invalidate_all_def remove_node_def clear_entities_def
    in_memory_repo_def split_beta Let_def forgotten_def pop_folder_key_def clear_context_shares_def
    clear_folder_keys_def
  show ?thesis
    using run rm cl ok by (cases e) (auto simp: defs)
qed

lemma apply_events_forget:
  assumes "cache_ok good held (cc_entities (ms_caches st))"
    and "forgotten held uid (ms_caches st) \<or> (\<exists>e\<in>set es. event_concerns e uid)"
  shows "forgotten held uid (ms_caches (apply_events (in_memory_repo L) es st))"
  using assms
proof (induction es arbitrary: st)
  case (Cons e es)
  obtain r c' where r: "invalidate_caches_for_event (in_memory_repo L) e (ms_caches st) = (r, c')"
    by fastforce
  note step = invalidate_step [OF Cons.prems(1) r, of uid]
  show ?case using Cons.prems(2) step r by (auto intro!: Cons.IH)
qed simp

end

section \<open>Properties\<close>

text \<open>against a server with an event log, a drain from any cursor of the log returns, with
  exactly the events after that cursor, in order, over however many pages; and the id of the last
  one is the cursor at which the next drain finds nothing.\<close>

theorem enumerate_events_complete:
  assumes "serves_log api vid c0 evs0" and "list_all event_type_known evs0" and "i \<le> length evs0"
  shows "\<exists>w'. enumerate_events api (DriveEventScopeId vid) (Some (cursor_at c0 evs0 i)) w =
       Some (Inr (map (converted vid) (drop i evs0)), w') \<and>
     (i < length evs0 \<longrightarrow>
        last_id (map (converted vid) (drop i evs0)) = Some (cursor_at c0 evs0 (length evs0)))"
  using drain_events_log [OF assms, of "[]" w] last_id_converted [OF assms(2), of i vid c0]
  by (simp add: enumerate_events_def)

text \<open>C9: however many polling cycles run, every event of the log is published exactly once and
  in order.\<close>

theorem run_cycles_publish_once:
  assumes "serves_log (mg_api mg) (scope_volume (mg_scope mg)) c0 evs0"
    and "list_all event_type_known evs0"
  shows "\<exists>st'. run_cycles (Suc n) mg (Some c0, retry) st =
       Some ((Some (cursor_at c0 evs0 (length evs0)), RETRY_MIN), st') \<and>
     ms_sent st' = ms_sent st @ map (converted (scope_volume (mg_scope mg))) evs0"
proof -
  have idle: "\<exists>st'. run_cycles m mg (Some (cursor_at c0 evs0 (length evs0)), r) s =
       Some ((Some (cursor_at c0 evs0 (length evs0)), if m = 0 then r else RETRY_MIN), st') \<and>
     ms_sent st' = ms_sent s" for m r s
  proof (induction m arbitrary: r s)
    case (Suc m)
    obtain s1 where "run_cycle mg (Some (cursor_at c0 evs0 (length evs0)), r) s =
        Some ((Some (cursor_at c0 evs0 (length evs0)), RETRY_MIN), s1)" "ms_sent s1 = ms_sent s"
      using run_cycle_log [OF assms, of "length evs0" r s] by auto
    with Suc [of RETRY_MIN s1] show ?case by auto
  qed simp
  have "cursor_at c0 evs0 0 = c0" by (simp add: cursor_at_def)
  then obtain s1 where s1: "run_cycle mg (Some c0, retry) st =
        Some ((Some (cursor_at c0 evs0 (length evs0)), RETRY_MIN), s1)"
      "ms_sent s1 = ms_sent st @ map (converted (scope_volume (mg_scope mg))) evs0"
    using run_cycle_log [OF assms, of 0 retry st] by auto
  with idle [of n RETRY_MIN s1] show ?thesis by auto
qed


text \<open>a failed poll, be it a transport failure or an event of a type the client does not
  know, publishes nothing, keeps the cursor, the stored cursor and the caches, and leaves a retry delay
  of at most the polling interval.\<close>

theorem failed_poll_keeps_cursor:
  assumes "enumerate_events (mg_api mg) (mg_scope mg) cursor (ms_world st) = Some (Inl e, w)"
  shows "\<exists>retry' st'. run_cycle mg (cursor, retry) st = Some ((cursor, retry'), st') \<and>
     retry' \<le> current_interval mg st \<and> ms_sent st' = ms_sent st \<and> ms_store st' = ms_store st \<and>
     ms_caches st' = ms_caches st"
  using assms by (simp add: run_cycle_def Let_def current_interval_def manager_sleep_def)

subsection \<open>Witnesses\<close>

definition example_event :: "string \<Rightarrow> int \<Rightarrow> volume_event_dto" where
  "example_event i ty =
     \<lparr>ve_id = DriveEventId i, ve_event_type = ty,
      ve_link = \<lparr>vel_id = LinkId i, vel_parent_id = None, vel_is_shared = False, vel_is_trashed = False\<rparr>\<rparr>"

definition example_log :: "volume_event_dto list" where
  "example_log = [example_event ''e1'' 1, example_event ''e2'' 2, example_event ''e3'' 0]"

text \<open>A feed of one event per page.\<close>

definition example_feed :: "nat event_api" where
  "example_feed =
     \<lparr>ea_latest = (\<lambda>path w. (Inr (DriveEventId ''e3''), w)),
      ea_page = (\<lambda>path w.
        if path = event_page_path (VolumeId ''v'') (DriveEventId ''e0'') then
          (Inr \<lparr>vl_last_event_id = DriveEventId ''e1'', vl_events = [example_event ''e1'' 1],
                vl_more_entries_exist = True, vl_refresh_required = False\<rparr>, Suc w)
        else if path = event_page_path (VolumeId ''v'') (DriveEventId ''e1'') then
          (Inr \<lparr>vl_last_event_id = DriveEventId ''e2'', vl_events = [example_event ''e2'' 2],
                vl_more_entries_exist = True, vl_refresh_required = False\<rparr>, Suc w)
        else if path = event_page_path (VolumeId ''v'') (DriveEventId ''e2'') then
          (Inr \<lparr>vl_last_event_id = DriveEventId ''e3'', vl_events = [example_event ''e3'' 0],
                vl_more_entries_exist = False, vl_refresh_required = False\<rparr>, Suc w)
        else
          (Inr \<lparr>vl_last_event_id = DriveEventId ''e3'', vl_events = [],
                vl_more_entries_exist = False, vl_refresh_required = False\<rparr>, Suc w))\<rparr>"

lemma example_feed_serves:
  "serves_log example_feed (VolumeId ''v'') (DriveEventId ''e0'') example_log"
proof -
  have three: "i = 0 \<or> i = 1 \<or> i = 2 \<or> i = 3" if "i \<le> length example_log" for i
    using that by (auto simp: example_log_def)
  have "\<exists>w' n. i + n \<le> length example_log \<and> (i < length example_log \<longrightarrow> 0 < n) \<and>
        ea_page example_feed (event_page_path (VolumeId ''v'') (cursor_at (DriveEventId ''e0'') example_log i)) w =
          (Inr \<lparr>vl_last_event_id = cursor_at (DriveEventId ''e0'') example_log (i + n),
                vl_events = take n (drop i example_log),
                vl_more_entries_exist = (i + n < length example_log), vl_refresh_required = False\<rparr>, w')"
    if "i \<le> length example_log" for i w
    using three [OF that]
    by (elim disjE; intro exI [of _ "Suc w"] exI [of _ "if i < 3 then 1 else 0"])
       (simp_all add: example_feed_def example_log_def example_event_def cursor_at_def event_page_path_def)
  then show ?thesis unfolding serves_log_def by blast
qed

lemma example_log_known: "list_all event_type_known example_log"
  by (simp add: example_log_def example_event_def event_type_known_def)

theorem enumerate_events_complete_witness:
  "\<exists>w'. enumerate_events example_feed (DriveEventScopeId (VolumeId ''v'')) (Some (DriveEventId ''e1'')) 0 =
     Some (Inr (map (converted (VolumeId ''v'')) (drop 1 example_log)), w')"
proof -
  have "1 \<le> length example_log" by (simp add: example_log_def)
  moreover have "cursor_at (DriveEventId ''e0'') example_log 1 = DriveEventId ''e1''"
    by (simp add: cursor_at_def example_log_def example_event_def)
  ultimately show ?thesis
    using enumerate_events_complete [OF example_feed_serves example_log_known, of 1 0] by auto
qed

definition example_manager :: "(lru_list in_memory_state, drive_event_id option, nat) event_manager" where
  "example_manager =
     \<lparr>mg_api = example_feed, mg_repo = in_memory_repo list_lru, mg_store = MemoryCursorStore,
      mg_scope = DriveEventScopeId (VolumeId ''v''), mg_config = EventManagerConfig_default\<rparr>"

definition example_manager_state ::
  "(nat, lru_list in_memory_state, drive_event_id option, nat) manager_state" where
  "example_manager_state =
     \<lparr>ms_caches = \<lparr>cc_drive = DriveCache_default, cc_entities = example_cache\<rparr>, ms_store = None,
      ms_world = 0, ms_sent = [], ms_slept = [], ms_foreground = True\<rparr>"

theorem run_cycles_publish_once_witness:
  "\<exists>c st'. run_cycles 3 example_manager (Some (DriveEventId ''e0''), RETRY_MIN) example_manager_state
     = Some (c, st') \<and> ms_sent st' = map (converted (VolumeId ''v'')) example_log"
proof -
  have "serves_log (mg_api example_manager) (scope_volume (mg_scope example_manager))
      (DriveEventId ''e0'') example_log"
    by (simp add: example_manager_def example_feed_serves)
  from run_cycles_publish_once [OF this example_log_known, of 2 RETRY_MIN example_manager_state]
  show ?thesis
    by (auto simp: numeral_3_eq_3 numeral_2_eq_2 example_manager_def example_manager_state_def)
qed


theorem failed_poll_keeps_cursor_witness:
  "\<exists>retry' st'. run_cycle (example_manager\<lparr>mg_api := example_feed\<lparr>ea_page := \<lambda>p w. (Inl KeysLocked, w)\<rparr>\<rparr>)
       (Some (DriveEventId ''e0''), RETRY_MIN) example_manager_state
     = Some ((Some (DriveEventId ''e0''), retry'), st') \<and> ms_sent st' = []"
proof -
  let ?mg = "example_manager\<lparr>mg_api := example_feed\<lparr>ea_page := \<lambda>p w. (Inl KeysLocked, w)\<rparr>\<rparr>"
  have "enumerate_events (mg_api ?mg) (mg_scope ?mg) (Some (DriveEventId ''e0''))
      (ms_world example_manager_state) = Some (Inl KeysLocked, 0)"
    by (simp add: enumerate_events_def drain_events.simps example_manager_state_def)
  from failed_poll_keeps_cursor [OF this, of RETRY_MIN] show ?thesis
    by (auto simp: example_manager_state_def)
qed

end
