(* ===== verification/Pgp.thy ===== *)
theory Pgp
  imports Node
begin

text \<open>
  The SDK's layer over its OpenPGP library (\<open>proton-sdk/src/crypto/\<close>: \<open>errors.rs\<close>,
  \<open>keys.rs\<close>, \<open>messages.rs\<close>, \<open>verify.rs\<close>, \<open>derive.rs\<close>): unlocking keys,
  trying keys in turn, stripping compression layers, and classifying signatures.  The
  library itself is the argument \<open>rpgp\<close>; its errors are their texts.
\<close>

section \<open>Errors\<close>

datatype crypto_error =
    Parse string | Unlock string | Decrypt string | Encrypt string | Verification string

fun CryptoError_display :: "crypto_error \<Rightarrow> string" where
  "CryptoError_display (Parse e) = ''failed to parse PGP data: '' @ e"
| "CryptoError_display (Unlock e) = ''failed to unlock private key: '' @ e"
| "CryptoError_display (Decrypt e) = ''failed to decrypt: '' @ e"
| "CryptoError_display (Encrypt e) = ''failed to encrypt: '' @ e"
| "CryptoError_display (Verification e) = ''signature verification failed: '' @ e"

type_synonym 'a crypto_result = "crypto_error + 'a"

definition from_crypto :: "'a crypto_result \<Rightarrow> 'a result" where
  "from_crypto r = map_sum (\<lambda>e. Crypto (CryptoError_display e)) id r"

definition map_err :: "('e \<Rightarrow> 'f) \<Rightarrow> 'e + 'a \<Rightarrow> 'f + 'a" where
  "map_err f r = map_sum f id r"

definition sum_bind :: "'e + 'a \<Rightarrow> ('a \<Rightarrow> 'e + 'b) \<Rightarrow> 'e + 'b" where
  "sum_bind r f = (case r of Inl e \<Rightarrow> Inl e | Inr x \<Rightarrow> f x)"

section \<open>The library\<close>

text \<open>
  \<open>rp_depth\<close> bounds the compression layers of a message: it is the fuel of the loops
  that strip them, and \<open>finite_layers\<close> (every decompression removes a layer) is what
  makes it enough.  \<open>rp_verify_nested\<close> gives per signature whether it is valid, or
  fails as a whole.
\<close>

text \<open>
  The encrypted session keys of a message: a public-key one has a fingerprint (an error for
  the old packet version, \<open>None\<close> when hidden) and a key id with its wildcard flag.
\<close>

datatype esk =
    PublicKeyEncryptedSessionKey (esk_fingerprint: "string + string option") (esk_id: "(string \<times> bool) option")
  | SymKeyEncryptedSessionKey

record ('sk, 'pub, 'sig, 'msg) rpgp =
  rp_parse_secret :: "string \<Rightarrow> string + 'sk"
  rp_unlock_primary :: "'sk \<Rightarrow> bytes \<Rightarrow> string + 'sk"
  rp_subkey_count :: "'sk \<Rightarrow> nat"
  rp_unlock_subkey :: "'sk \<Rightarrow> nat \<Rightarrow> bytes \<Rightarrow> 'sk option"
  rp_public :: "'sk \<Rightarrow> 'pub"
  rp_primary_ids :: "'sk \<Rightarrow> string \<times> string"
  rp_subkey_ids :: "'sk \<Rightarrow> (string \<times> string) list"
  rp_parse_public :: "string \<Rightarrow> string + 'pub"
  rp_parse_signature :: "string \<Rightarrow> string + 'sig"
  rp_signature_bytes :: "bytes \<Rightarrow> 'sig option"
  rp_notations :: "'sig \<Rightarrow> (string \<times> bytes) list"
  rp_verify :: "'sig \<Rightarrow> 'pub \<Rightarrow> bytes \<Rightarrow> string + unit"
  rp_parse_message :: "string \<Rightarrow> string + 'msg"
  rp_message_bytes :: "bytes \<Rightarrow> string + 'msg"
  rp_esk :: "'msg \<Rightarrow> esk list option"
  rp_decrypt :: "'msg \<Rightarrow> bytes \<Rightarrow> 'sk \<Rightarrow> string + 'msg"
  rp_decrypt_password :: "'msg \<Rightarrow> bytes \<Rightarrow> string + 'msg"
  rp_is_compressed :: "'msg \<Rightarrow> bool"
  rp_decompress :: "'msg \<Rightarrow> string + 'msg"
  rp_depth :: "'msg \<Rightarrow> nat"
  rp_data :: "'msg \<Rightarrow> string + bytes"
  rp_is_signed :: "'msg \<Rightarrow> bool"
  rp_is_one_pass_signed :: "'msg \<Rightarrow> bool"
  rp_verify_nested :: "'msg \<Rightarrow> 'pub list \<Rightarrow> bool list option"
  rp_base64_decode :: "string \<Rightarrow> bytes option"

section \<open>Messages\<close>

fun strip_layers :: "('sk, 'pub, 'sig, 'msg) rpgp \<Rightarrow> nat \<Rightarrow> 'msg \<Rightarrow> 'msg crypto_result" where
  "strip_layers P 0 m = Inr m"
| "strip_layers P (Suc n) m =
     (if rp_is_compressed P m then
        sum_bind (map_err (\<lambda>e. Decrypt (''decompress: '' @ e)) (rp_decompress P m)) (strip_layers P n)
      else Inr m)"

definition read_plaintext :: "('sk, 'pub, 'sig, 'msg) rpgp \<Rightarrow> 'msg \<Rightarrow> bytes crypto_result" where
  "read_plaintext P m =
     sum_bind (strip_layers P (rp_depth P m) m)
       (\<lambda>m'. map_err (\<lambda>e. Decrypt (''read literal: '' @ e)) (rp_data P m'))"

definition decrypt_armored :: "('sk, 'pub, 'sig, 'msg) rpgp \<Rightarrow> string \<Rightarrow> 'sk \<Rightarrow> bytes \<Rightarrow> bytes crypto_result" where
  "decrypt_armored P armored key pw =
     sum_bind (map_err (\<lambda>e. Parse (''message: '' @ e)) (rp_parse_message P armored)) (\<lambda>m.
     sum_bind (map_err Decrypt (rp_decrypt P m pw key)) (read_plaintext P))"

definition decrypt_binary :: "('sk, 'pub, 'sig, 'msg) rpgp \<Rightarrow> bytes \<Rightarrow> 'sk \<Rightarrow> bytes \<Rightarrow> bytes crypto_result" where
  "decrypt_binary P ct key pw =
     sum_bind (map_err (\<lambda>e. Parse (''message: '' @ e)) (rp_message_bytes P ct)) (\<lambda>m.
     sum_bind (map_err Decrypt (rp_decrypt P m pw key)) (read_plaintext P))"

definition decrypt_armored_with_password ::
  "('sk, 'pub, 'sig, 'msg) rpgp \<Rightarrow> string \<Rightarrow> bytes \<Rightarrow> bytes crypto_result" where
  "decrypt_armored_with_password P armored pw =
     sum_bind (map_err (\<lambda>e. Parse (''message: '' @ e)) (rp_parse_message P armored)) (\<lambda>m.
     sum_bind (map_err Decrypt (rp_decrypt_password P m pw)) (read_plaintext P))"

fun decrypt_any_from ::
  "('sk, 'pub, 'sig, 'msg) rpgp \<Rightarrow> string \<Rightarrow> ('sk \<times> bytes) list \<Rightarrow> crypto_error \<Rightarrow> bytes crypto_result" where
  "decrypt_any_from P armored [] last_err = Inl last_err"
| "decrypt_any_from P armored ((key, pw) # keys) last_err =
     (case decrypt_armored P armored key pw of
        Inr plaintext \<Rightarrow> Inr plaintext
      | Inl e \<Rightarrow> decrypt_any_from P armored keys e)"

definition decrypt_armored_any ::
  "('sk, 'pub, 'sig, 'msg) rpgp \<Rightarrow> string \<Rightarrow> ('sk \<times> bytes) list \<Rightarrow> bytes crypto_result" where
  "decrypt_armored_any P armored keys = decrypt_any_from P armored keys (Decrypt ''no candidate keys'')"

fun recipient :: "esk \<Rightarrow> string option option" where
  "recipient (PublicKeyEncryptedSessionKey (Inr fp) _) = Some fp"
| "recipient (PublicKeyEncryptedSessionKey (Inl _) None) = Some None"
| "recipient (PublicKeyEncryptedSessionKey (Inl _) (Some (i, wildcard))) =
     Some (if wildcard then None else Some i)"
| "recipient SymKeyEncryptedSessionKey = None"

definition recipients :: "('sk, 'pub, 'sig, 'msg) rpgp \<Rightarrow> string \<Rightarrow> string option list crypto_result" where
  "recipients P armored =
     sum_bind (map_err (\<lambda>e. Parse (''message: '' @ e)) (rp_parse_message P armored)) (\<lambda>m.
       Inr (case rp_esk P m of None \<Rightarrow> [] | Some es \<Rightarrow> List.map_filter recipient es))"

section \<open>Private keys\<close>

record 'sk private_key =
  pk_key :: 'sk
  pk_passphrase :: bytes

definition unlock_subkeys :: "('sk, 'pub, 'sig, 'msg) rpgp \<Rightarrow> 'sk \<Rightarrow> bytes \<Rightarrow> 'sk" where
  "unlock_subkeys P key passphrase =
     fold (\<lambda>i k. case rp_unlock_subkey P k i passphrase of Some k' \<Rightarrow> k' | None \<Rightarrow> k)
       [0..<rp_subkey_count P key] key"

definition PrivateKey_from_armored ::
  "('sk, 'pub, 'sig, 'msg) rpgp \<Rightarrow> string \<Rightarrow> bytes \<Rightarrow> 'sk private_key crypto_result" where
  "PrivateKey_from_armored P armored passphrase =
     sum_bind (map_err (\<lambda>e. Parse (''secret key: '' @ e)) (rp_parse_secret P armored)) (\<lambda>key.
     sum_bind (map_err Unlock (rp_unlock_primary P key passphrase)) (\<lambda>key1.
       Inr \<lparr>pk_key = unlock_subkeys P key1 passphrase, pk_passphrase = passphrase\<rparr>))"

definition decrypt_armored_message ::
  "('sk, 'pub, 'sig, 'msg) rpgp \<Rightarrow> 'sk private_key \<Rightarrow> string \<Rightarrow> bytes crypto_result" where
  "decrypt_armored_message P k armored = decrypt_armored P armored (pk_key k) (pk_passphrase k)"

definition decrypt_binary_message ::
  "('sk, 'pub, 'sig, 'msg) rpgp \<Rightarrow> 'sk private_key \<Rightarrow> bytes \<Rightarrow> bytes crypto_result" where
  "decrypt_binary_message P k ct = decrypt_binary P ct (pk_key k) (pk_passphrase k)"

definition signed_public_key :: "('sk, 'pub, 'sig, 'msg) rpgp \<Rightarrow> 'sk private_key \<Rightarrow> 'pub" where
  "signed_public_key P k = rp_public P (pk_key k)"

definition verify_detached_signature ::
  "('sk, 'pub, 'sig, 'msg) rpgp \<Rightarrow> 'sk private_key \<Rightarrow> string \<Rightarrow> bytes \<Rightarrow> unit crypto_result" where
  "verify_detached_signature P k armored_sig data =
     sum_bind (map_err (\<lambda>e. Parse (''detached signature: '' @ e)) (rp_parse_signature P armored_sig))
       (\<lambda>s. map_err Verification (rp_verify P s (signed_public_key P k) data))"

definition key_ids :: "('sk, 'pub, 'sig, 'msg) rpgp \<Rightarrow> string \<Rightarrow> string list crypto_result" where
  "key_ids P armored =
     sum_bind (map_err (\<lambda>e. Parse (''secret key: '' @ e)) (rp_parse_secret P armored))
       (\<lambda>key. Inr (concat (map (\<lambda>(i, fp). [i, fp]) (rp_primary_ids P key # rp_subkey_ids P key))))"

definition decrypt_armored_with_keys ::
  "('sk, 'pub, 'sig, 'msg) rpgp \<Rightarrow> string \<Rightarrow> 'sk private_key list \<Rightarrow> bytes crypto_result" where
  "decrypt_armored_with_keys P armored keys =
     decrypt_armored_any P armored (map (\<lambda>k. (pk_key k, pk_passphrase k)) keys)"

section \<open>Verification\<close>

definition PublicKey_from_armored :: "('sk, 'pub, 'sig, 'msg) rpgp \<Rightarrow> string \<Rightarrow> 'pub crypto_result" where
  "PublicKey_from_armored P armored = map_err (\<lambda>e. Parse (''public key: '' @ e)) (rp_parse_public P armored)"

datatype 'pub verification_key_ring = KeyRing (ring_keys: "'pub list")

definition ring_from_public_keys :: "'pub list \<Rightarrow> 'pub verification_key_ring" where
  "ring_from_public_keys keys = KeyRing keys"

definition ring_from_private ::
  "('sk, 'pub, 'sig, 'msg) rpgp \<Rightarrow> 'sk private_key \<Rightarrow> 'pub verification_key_ring" where
  "ring_from_private P k = KeyRing [signed_public_key P k]"

definition ring_from_private_and_public_keys ::
  "('sk, 'pub, 'sig, 'msg) rpgp \<Rightarrow> 'sk private_key \<Rightarrow> 'pub list \<Rightarrow> 'pub verification_key_ring" where
  "ring_from_private_and_public_keys P k keys = KeyRing (signed_public_key P k # keys)"

definition ring_is_empty :: "'pub verification_key_ring \<Rightarrow> bool" where
  "ring_is_empty r = (ring_keys r = [])"

fun verify_with_keys ::
  "('sk, 'pub, 'sig, 'msg) rpgp \<Rightarrow> 'sig \<Rightarrow> bytes \<Rightarrow> 'pub list \<Rightarrow> verification_status" where
  "verify_with_keys P s data [] = Failed"
| "verify_with_keys P s data (k # ks) =
     (if rp_verify P s k data = Inr () then VerificationOk else verify_with_keys P s data ks)"

definition verify_detached ::
  "('sk, 'pub, 'sig, 'msg) rpgp \<Rightarrow> string \<Rightarrow> bytes \<Rightarrow> 'pub verification_key_ring \<Rightarrow> verification_status" where
  "verify_detached P armored_sig data r =
     (case rp_parse_signature P armored_sig of
        Inl _ \<Rightarrow> Failed
      | Inr s \<Rightarrow> if ring_is_empty r then NoVerifier else verify_with_keys P s data (ring_keys r))"

definition SIGNATURE_CONTEXT_NOTATION :: string where
  "SIGNATURE_CONTEXT_NOTATION = ''context@proton.ch''"

definition parse_any_signature :: "('sk, 'pub, 'sig, 'msg) rpgp \<Rightarrow> string \<Rightarrow> 'sig option" where
  "parse_any_signature P signature =
     (case rp_parse_signature P signature of
        Inr s \<Rightarrow> Some s
      | Inl _ \<Rightarrow> Option.bind (rp_base64_decode P (trim signature)) (rp_signature_bytes P))"

definition in_context :: "('sk, 'pub, 'sig, 'msg) rpgp \<Rightarrow> string \<Rightarrow> 'sig \<Rightarrow> bool" where
  "in_context P ctx s =
     list_ex (\<lambda>(name, v). name = SIGNATURE_CONTEXT_NOTATION \<and> v = as_bytes ctx) (rp_notations P s)"

definition verify_detached_with_context ::
  "('sk, 'pub, 'sig, 'msg) rpgp \<Rightarrow> string \<Rightarrow> bytes \<Rightarrow> 'pub verification_key_ring \<Rightarrow> string
     \<Rightarrow> verification_status" where
  "verify_detached_with_context P signature data r ctx =
     (if ring_is_empty r then NoVerifier
      else
        (case parse_any_signature P signature of
           None \<Rightarrow> Failed
         | Some s \<Rightarrow>
             if \<not> in_context P ctx s then Failed
             else verify_with_keys P s data (ring_keys r)))"

definition verify_message ::
  "('sk, 'pub, 'sig, 'msg) rpgp \<Rightarrow> 'msg \<Rightarrow> 'pub verification_key_ring \<Rightarrow> verification_status" where
  "verify_message P m r =
     (if \<not> rp_is_signed P m \<and> \<not> rp_is_one_pass_signed P m then NotSigned
      else if ring_is_empty r then NoVerifier
      else (case rp_verify_nested P m (ring_keys r) of
              Some results \<Rightarrow> if list_ex id results then VerificationOk else Failed
            | None \<Rightarrow> Failed))"

definition decrypt_and_verify ::
  "('sk, 'pub, 'sig, 'msg) rpgp \<Rightarrow> string \<Rightarrow> 'sk \<Rightarrow> bytes \<Rightarrow> 'pub verification_key_ring
     \<Rightarrow> (bytes \<times> verification_status) crypto_result" where
  "decrypt_and_verify P armored key pw r =
     sum_bind (map_err (\<lambda>e. Parse (''message: '' @ e)) (rp_parse_message P armored)) (\<lambda>m.
     sum_bind (map_err Decrypt (rp_decrypt P m pw key)) (\<lambda>d.
     sum_bind (strip_layers P (rp_depth P d) d) (\<lambda>d'.
     sum_bind (map_err (\<lambda>e. Decrypt (''read literal: '' @ e)) (rp_data P d')) (\<lambda>data.
       Inr (data, verify_message P d' r)))))"

definition decrypt_armored_verify ::
  "('sk, 'pub, 'sig, 'msg) rpgp \<Rightarrow> 'sk private_key \<Rightarrow> string \<Rightarrow> 'pub verification_key_ring
     \<Rightarrow> (bytes \<times> verification_status) crypto_result" where
  "decrypt_armored_verify P k armored r = decrypt_and_verify P armored (pk_key k) (pk_passphrase k) r"

section \<open>Passphrases from passwords\<close>

definition BCRYPT_COST :: nat where "BCRYPT_COST = 10"
definition BCRYPT_PREFIX_LEN :: nat where "BCRYPT_PREFIX_LEN = 29"

text \<open>The bcrypt hash, as the string \<open>$2b$10$<salt><hash>\<close>, is an argument; it is ASCII.\<close>

definition derive_key_passphrase ::
  "(bytes \<Rightarrow> nat \<Rightarrow> bytes \<Rightarrow> string + string) \<Rightarrow> bytes \<Rightarrow> bytes \<Rightarrow> bytes crypto_result" where
  "derive_key_passphrase bcrypt password salt =
     (if length salt \<noteq> 16 then
        Inl (Unlock (''key salt must be 16 bytes, got '' @ nat_to_string (length salt)))
      else
        sum_bind (map_err (\<lambda>e. Unlock (''bcrypt: '' @ e)) (bcrypt password BCRYPT_COST salt)) (\<lambda>h.
          if length h < BCRYPT_PREFIX_LEN then Inl (Unlock ''bcrypt hash shorter than expected'')
          else Inr (as_bytes (drop BCRYPT_PREFIX_LEN h))))"

section \<open>Lemmas\<close>

lemma sum_bind_simps [simp]:
  "sum_bind (Inl e) f = Inl e" "sum_bind (Inr x) f = f x"
  by (simp_all add: sum_bind_def)

lemma sum_bind_Inr: "sum_bind r f = Inr y \<longleftrightarrow> (\<exists>x. r = Inr x \<and> f x = Inr y)"
  by (cases r) auto

lemma map_err_simps [simp]: "map_err f (Inl e) = Inl (f e)" "map_err f (Inr x) = Inr x"
  by (simp_all add: map_err_def)

lemma map_err_Inr [simp]: "map_err f r = Inr y \<longleftrightarrow> r = Inr y"
  by (cases r) auto

lemma from_crypto_simps [simp]:
  "from_crypto (Inr x) = Inr x" "from_crypto (Inl e) = Inl (Crypto (CryptoError_display e))"
  by (simp_all add: from_crypto_def)

lemma from_crypto_Inr [simp]: "from_crypto r = Inr x \<longleftrightarrow> r = Inr x"
  by (cases r) auto

lemma verify_with_keys_iff:
  "verify_with_keys P s data ks =
     (if \<exists>k\<in>set ks. rp_verify P s k data = Inr () then VerificationOk else Failed)"
  by (induction ks) auto

lemma decrypt_any_from_Inr:
  "decrypt_any_from P armored keys e = Inr p \<longleftrightarrow>
     (\<exists>i<length keys. decrypt_armored P armored (fst (keys ! i)) (snd (keys ! i)) = Inr p \<and>
        (\<forall>j<i. \<forall>q. decrypt_armored P armored (fst (keys ! j)) (snd (keys ! j)) \<noteq> Inr q))"
proof (induction keys arbitrary: e)
  case (Cons kp keys)
  obtain k pw where kp: "kp = (k, pw)" by fastforce
  show ?case
  proof (cases "decrypt_armored P armored k pw")
    case (Inl e')
    then show ?thesis unfolding kp using Cons.IH [of e'] by (auto simp: Ex_less_Suc2 All_less_Suc2)
  next
    case (Inr q)
    then show ?thesis unfolding kp by (auto simp: Ex_less_Suc2 All_less_Suc2)
  qed
qed simp

text \<open>The fuel of the decompression loop is enough: the loop ends at an uncompressed message.\<close>

definition finite_layers :: "('sk, 'pub, 'sig, 'msg) rpgp \<Rightarrow> bool" where
  "finite_layers P \<longleftrightarrow>
     (\<forall>m m'. rp_is_compressed P m \<longrightarrow> rp_decompress P m = Inr m' \<longrightarrow> rp_depth P m' < rp_depth P m) \<and>
     (\<forall>m. rp_is_compressed P m \<longrightarrow> 0 < rp_depth P m)"

lemma strip_layers_uncompressed:
  assumes "finite_layers P" "rp_depth P m \<le> n" "strip_layers P n m = Inr m'"
  shows "\<not> rp_is_compressed P m'"
  using assms(2,3)
proof (induction n arbitrary: m)
  case 0
  then show ?case using assms(1) unfolding finite_layers_def by fastforce
next
  case (Suc n)
  show ?case
  proof (cases "rp_is_compressed P m")
    case True
    with Suc.prems(2) obtain m1 where m1: "rp_decompress P m = Inr m1" "strip_layers P n m1 = Inr m'"
      by (auto simp: sum_bind_Inr)
    have "rp_depth P m1 < rp_depth P m" using assms(1) True m1(1) unfolding finite_layers_def by blast
    then show ?thesis using Suc.IH [of m1] Suc.prems(1) m1(2) by simp
  qed (use Suc.prems(2) in simp)
qed

section \<open>Properties\<close>

text \<open>A signature checked in a context is accepted only if it parses, carries the context
  notation with exactly that context, and verifies over the data with a key of the ring: a
  signature made for another context, or without one, is never accepted.\<close>

theorem context_signature_ok_iff:
  "verify_detached_with_context P signature data r ctx = VerificationOk \<longleftrightarrow>
     (\<exists>s k. parse_any_signature P signature = Some s \<and> k \<in> set (ring_keys r) \<and>
        rp_verify P s k data = Inr () \<and>
        (SIGNATURE_CONTEXT_NOTATION, as_bytes ctx) \<in> set (rp_notations P s))"
  unfolding verify_detached_with_context_def in_context_def
  by (cases "parse_any_signature P signature")
     (force simp: verify_with_keys_iff ring_is_empty_def list_ex_iff)+

lemma verify_detached_classes:
  "verify_detached P armored_sig data r =
     (case rp_parse_signature P armored_sig of
        Inl _ \<Rightarrow> Failed
      | Inr s \<Rightarrow> if ring_keys r = [] then NoVerifier
                else if \<exists>k\<in>set (ring_keys r). rp_verify P s k data = Inr () then VerificationOk
                else Failed)"
  by (auto simp: verify_detached_def ring_is_empty_def verify_with_keys_iff split: sum.splits)

text \<open>Decryption with several candidate keys returns the plaintext of the first key that
  opens the message, whatever the errors of the keys before it.\<close>

lemma decrypt_with_keys_first_opening:
  "decrypt_armored_with_keys P armored keys = Inr p \<longleftrightarrow>
     (\<exists>i<length keys. decrypt_armored_message P (keys ! i) armored = Inr p \<and>
        (\<forall>j<i. \<forall>q. decrypt_armored_message P (keys ! j) armored \<noteq> Inr q))"
proof -
  have "decrypt_armored_with_keys P armored keys = Inr p \<longleftrightarrow>
     (\<exists>i<length keys. decrypt_armored P armored (pk_key (keys ! i)) (pk_passphrase (keys ! i)) = Inr p \<and>
        (\<forall>j<i. \<forall>q. decrypt_armored P armored (pk_key (keys ! j)) (pk_passphrase (keys ! j)) \<noteq> Inr q))"
    unfolding decrypt_armored_with_keys_def decrypt_armored_any_def decrypt_any_from_Inr by auto
  then show ?thesis by (simp add: decrypt_armored_message_def)
qed

section \<open>An example library\<close>

text \<open>
  A toy library to evaluate the definitions on: a key is its name and opens with it, a
  message is \<open>key:plaintext\<close>, a signature is \<open>signer:context\<close>.
\<close>

definition example_rpgp :: "(string, string, string \<times> string, string \<times> bytes) rpgp" where
  "example_rpgp =
     \<lparr>rp_parse_secret = Inr,
      rp_unlock_primary = (\<lambda>k pw. if pw = as_bytes k then Inr k else Inl ''wrong passphrase''),
      rp_subkey_count = (\<lambda>_. 0), rp_unlock_subkey = (\<lambda>_ _ _. None), rp_public = id,
      rp_primary_ids = (\<lambda>k. (k, k)), rp_subkey_ids = (\<lambda>_. []), rp_parse_public = Inr,
      rp_parse_signature = (\<lambda>s. case split_once CHR '':'' s of Some p \<Rightarrow> Inr p | None \<Rightarrow> Inl ''no signature''),
      rp_signature_bytes = (\<lambda>_. None),
      rp_notations = (\<lambda>(_, ctx). if ctx = [] then [] else [(SIGNATURE_CONTEXT_NOTATION, as_bytes ctx)]),
      rp_verify = (\<lambda>(signer, _) pub data. if signer = pub then Inr () else Inl ''bad signature''),
      rp_parse_message = (\<lambda>s. case split_once CHR '':'' s of Some (k, d) \<Rightarrow> Inr (k, as_bytes d) | None \<Rightarrow> Inl ''no message''),
      rp_message_bytes = (\<lambda>b. Inl ''no message''), rp_esk = (\<lambda>_. None),
      rp_decrypt = (\<lambda>(k, d) pw sk. if k = sk then Inr (k, d) else Inl ''missing key''),
      rp_decrypt_password = (\<lambda>_ _. Inl ''no password''), rp_is_compressed = (\<lambda>_. False),
      rp_decompress = Inr, rp_depth = (\<lambda>_. 0), rp_data = (\<lambda>(k, d). Inr d),
      rp_is_signed = (\<lambda>_. False), rp_is_one_pass_signed = (\<lambda>_. False),
      rp_verify_nested = (\<lambda>_ _. None), rp_base64_decode = (\<lambda>_. None)\<rparr>"

end
