(* ===== verification/Content.thy ===== *)
theory Content
  imports Pgp
begin

text \<open>
  Content keys and packets (\<open>proton-sdk/src/crypto/content.rs\<close>): sealing and opening
  blocks and thumbnails, key packets, rewrapping a message to another key.  The packet
  parser, serialiser, ciphers and armor of the OpenPGP library are an argument, with the
  random number generator as the state threaded through.
\<close>

section \<open>Fallible calls that draw randomness\<close>

type_synonym ('a, 'r) gen = "'r \<Rightarrow> 'a crypto_result \<times> 'r"

definition gen_bind :: "('a, 'r) gen \<Rightarrow> ('a \<Rightarrow> ('b, 'r) gen) \<Rightarrow> ('b, 'r) gen" where
  "gen_bind m f = (\<lambda>g. case m g of (Inl e, g') \<Rightarrow> (Inl e, g') | (Inr x, g') \<Rightarrow> f x g')"

definition gen_of :: "'a crypto_result \<Rightarrow> ('a, 'r) gen" where
  "gen_of r = (\<lambda>g. (r, g))"

definition gen_err :: "(string \<Rightarrow> crypto_error) \<Rightarrow> ('r \<Rightarrow> (string + 'a) \<times> 'r) \<Rightarrow> ('a, 'r) gen" where
  "gen_err f m = (\<lambda>g. case m g of (r, g') \<Rightarrow> (map_err f r, g'))"

definition prefixed :: "(string \<Rightarrow> crypto_error) \<Rightarrow> string \<Rightarrow> string \<Rightarrow> crypto_error" where
  "prefixed c s e = c (s @ e)"

lemma gen_bind_simps [simp]:
  "gen_bind (gen_of (Inr x)) f = f x" "gen_bind (gen_of (Inl e)) f = gen_of (Inl e)"
  by (auto simp: gen_bind_def gen_of_def)

lemma gen_of_apply [simp]: "gen_of r g = (r, g)"
  by (simp add: gen_of_def)

lemma gen_bind_Inr:
  "gen_bind m f g = (Inr y, g') \<longleftrightarrow> (\<exists>x g1. m g = (Inr x, g1) \<and> f x g1 = (Inr y, g'))"
  by (auto simp: gen_bind_def split: prod.splits sum.splits)

lemma gen_err_Inr: "gen_err f m g = (Inr x, g') \<longleftrightarrow> m g = (Inr x, g')"
  by (auto simp: gen_err_def split: prod.splits)

section \<open>Packets and the library\<close>

datatype sym_alg = AES256 | OtherAlg nat
datatype aead_alg = Gcm | OtherAead nat
datatype esk_type = EskV3_4 | EskV6

datatype plain_session_key = V3_4 (v4_sym_alg: sym_alg) (v4_key: bytes) | V6 (v6_key: bytes) | OtherSessionKey

datatype ('pk, 'sd) packet =
    SymEncryptedProtectedData 'sd
  | PublicKeyEncryptedSessionKeyPacket 'pk
  | SymKeyEncryptedSessionKeyPacket bytes
  | LiteralData bytes
  | OnePassSignature
  | SignaturePacket
  | OtherPacket string

text \<open>
  \<open>pg_parse\<close> is what the packet parser yields until it ends; \<open>pg_key_decrypt\<close> opens a
  session key with the primary key (\<open>None\<close>) or a subkey.
\<close>

record ('sk, 'pub, 'ek, 'pk, 'sd, 'r) pgp_lib =
  pg_parse :: "bytes \<Rightarrow> (string + ('pk, 'sd) packet) list"
  pg_tag :: "('pk, 'sd) packet \<Rightarrow> string"
  pg_write :: "('pk, 'sd) packet \<Rightarrow> string + bytes"
  pg_literal :: "bytes \<Rightarrow> string + ('pk, 'sd) packet"
  pg_sign_inline :: "'sk \<Rightarrow> bytes \<Rightarrow> bool \<Rightarrow> bytes \<Rightarrow> 'r \<Rightarrow> (string + bytes) \<times> 'r"
  pg_seipdv1 :: "sym_alg \<Rightarrow> bytes \<Rightarrow> bytes \<Rightarrow> 'r \<Rightarrow> (string + 'sd) \<times> 'r"
  pg_seipdv2 :: "sym_alg \<Rightarrow> aead_alg \<Rightarrow> nat \<Rightarrow> bytes \<Rightarrow> bytes \<Rightarrow> 'r \<Rightarrow> (string + 'sd) \<times> 'r"
  pg_seipd_decrypt :: "'sd \<Rightarrow> bytes \<Rightarrow> sym_alg option \<Rightarrow> string + bytes"
  pg_secret_targets :: "'sk \<Rightarrow> 'ek \<times> 'ek list"
  pg_public_targets :: "'pub \<Rightarrow> 'ek \<times> 'ek list"
  pg_can_encrypt :: "'ek \<Rightarrow> bool"
  pg_pkesk_v3 :: "bytes \<Rightarrow> sym_alg \<Rightarrow> 'ek \<Rightarrow> 'r \<Rightarrow> (string + 'pk) \<times> 'r"
  pg_pkesk_v6 :: "bytes \<Rightarrow> 'ek \<Rightarrow> 'r \<Rightarrow> (string + 'pk) \<times> 'r"
  pg_pkesk_values :: "'pk \<Rightarrow> string + 'pk"
  pg_pkesk_is_v6 :: "'pk \<Rightarrow> bool"
  pg_subkey_count :: "'sk \<Rightarrow> nat"
  pg_key_decrypt :: "'sk \<Rightarrow> nat option \<Rightarrow> bytes \<Rightarrow> 'pk \<Rightarrow> esk_type \<Rightarrow> string + plain_session_key"
  pg_new_session_key :: "sym_alg \<Rightarrow> 'r \<Rightarrow> bytes \<times> 'r"
  pg_skesk_v4 :: "bytes \<Rightarrow> bytes \<Rightarrow> sym_alg \<Rightarrow> 'r \<Rightarrow> (string + bytes) \<times> 'r"
  pg_armor :: "bytes \<Rightarrow> string + bytes"
  pg_dearmor :: "string \<Rightarrow> string + bytes"

definition AEAD_ALGO :: aead_alg where "AEAD_ALGO = Gcm"
definition AEAD_CHUNK_SIZE :: nat where "AEAD_CHUNK_SIZE = 131072"

section \<open>Recipients\<close>

definition select_target :: "('sk, 'pub, 'ek, 'pk, 'sd, 'r) pgp_lib \<Rightarrow> 'ek \<times> 'ek list \<Rightarrow> (string \<times> 'ek) option" where
  "select_target L ts =
     (if pg_can_encrypt L (fst ts) then Some (''encrypt to primary key: '', fst ts)
      else map_option (Pair ''encrypt to subkey: '') (List.find (pg_can_encrypt L) (snd ts)))"

definition run_recipient ::
  "string \<Rightarrow> (string \<times> 'ek) option \<Rightarrow> ('ek \<Rightarrow> 'r \<Rightarrow> (string + 'o) \<times> 'r) \<Rightarrow> ('o, 'r) gen" where
  "run_recipient none target run =
     (case target of
        None \<Rightarrow> gen_of (Inl (Encrypt none))
      | Some (label, ek) \<Rightarrow> gen_err (prefixed Encrypt label) (run ek))"

definition recipient_encryption_key ::
  "('sk, 'pub, 'ek, 'pk, 'sd, 'r) pgp_lib \<Rightarrow> 'sk \<Rightarrow> ('ek \<Rightarrow> 'r \<Rightarrow> (string + 'o) \<times> 'r) \<Rightarrow> ('o, 'r) gen" where
  "recipient_encryption_key L key run =
     run_recipient ''key has no encryption-capable (sub)key'' (select_target L (pg_secret_targets L key)) run"

definition recipient_encryption_key_public ::
  "('sk, 'pub, 'ek, 'pk, 'sd, 'r) pgp_lib \<Rightarrow> 'pub \<Rightarrow> ('ek \<Rightarrow> 'r \<Rightarrow> (string + 'o) \<times> 'r) \<Rightarrow> ('o, 'r) gen" where
  "recipient_encryption_key_public L key run =
     run_recipient ''public key has no encryption-capable (sub)key'' (select_target L (pg_public_targets L key)) run"

section \<open>Content keys\<close>

datatype content_key = ContentKey (session_key: plain_session_key)

definition ContentKey_generate :: "('sk, 'pub, 'ek, 'pk, 'sd, 'r) pgp_lib \<Rightarrow> 'r \<Rightarrow> content_key \<times> 'r" where
  "ContentKey_generate L g =
     (case pg_new_session_key L AES256 g of (key, g') \<Rightarrow> (ContentKey (V3_4 AES256 key), g'))"

definition ContentKey_generate_aead :: "('sk, 'pub, 'ek, 'pk, 'sd, 'r) pgp_lib \<Rightarrow> 'r \<Rightarrow> content_key \<times> 'r" where
  "ContentKey_generate_aead L g =
     (case pg_new_session_key L AES256 g of (key, g') \<Rightarrow> (ContentKey (V6 key), g'))"

definition is_aead :: "content_key \<Rightarrow> bool" where
  "is_aead ck = (case session_key ck of V6 _ \<Rightarrow> True | _ \<Rightarrow> False)"

definition session_parts :: "content_key \<Rightarrow> (sym_alg \<times> bytes) crypto_result" where
  "session_parts ck =
     (case session_key ck of
        V3_4 alg key \<Rightarrow> Inr (alg, key)
      | V6 key \<Rightarrow> Inr (AES256, key)
      | OtherSessionKey \<Rightarrow> Inl (Encrypt ''content key is not a V3/V4 or V6 session key''))"

definition export_key :: "content_key \<Rightarrow> bytes crypto_result" where
  "export_key ck = sum_bind (session_parts ck) (\<lambda>(_, key). Inr key)"

definition seal_seipd ::
  "('sk, 'pub, 'ek, 'pk, 'sd, 'r) pgp_lib \<Rightarrow> content_key \<Rightarrow> bytes \<Rightarrow> (bytes, 'r) gen" where
  "seal_seipd L ck inner =
     gen_bind (gen_of (session_parts ck)) (\<lambda>(alg, key).
     gen_bind
       (if is_aead ck
        then gen_err (prefixed Encrypt ''encrypt seipdv2: '') (pg_seipdv2 L alg AEAD_ALGO AEAD_CHUNK_SIZE key inner)
        else gen_err (prefixed Encrypt ''encrypt seipdv1: '') (pg_seipdv1 L alg key inner))
       (\<lambda>sd. gen_of (map_err (prefixed Encrypt ''serialize seipd: '') (pg_write L (SymEncryptedProtectedData sd)))))"

definition encrypt_block ::
  "('sk, 'pub, 'ek, 'pk, 'sd, 'r) pgp_lib \<Rightarrow> content_key \<Rightarrow> bytes \<Rightarrow> (bytes, 'r) gen" where
  "encrypt_block L ck plaintext =
     gen_bind (gen_of (map_err (prefixed Encrypt ''literal packet: '') (pg_literal L plaintext))) (\<lambda>lit.
     gen_bind (gen_of (map_err (prefixed Encrypt ''serialize literal: '') (pg_write L lit)))
       (seal_seipd L ck))"

definition encrypt_thumbnail ::
  "('sk, 'pub, 'ek, 'pk, 'sd, 'r) pgp_lib \<Rightarrow> content_key \<Rightarrow> 'sk private_key \<Rightarrow> bytes \<Rightarrow> (bytes, 'r) gen" where
  "encrypt_thumbnail L ck signer plaintext =
     gen_bind (gen_err (prefixed Encrypt ''sign thumbnail: '')
                 (pg_sign_inline L (pk_key signer) (pk_passphrase signer) False plaintext))
       (seal_seipd L ck)"

text \<open>The key packet of a content key for a selected recipient.\<close>

definition content_key_packet_op ::
  "('sk, 'pub, 'ek, 'pk, 'sd, 'r) pgp_lib \<Rightarrow> content_key \<Rightarrow> sym_alg \<Rightarrow> bytes \<Rightarrow> 'ek
     \<Rightarrow> 'r \<Rightarrow> (string + 'pk) \<times> 'r" where
  "content_key_packet_op L ck alg key ek =
     (if is_aead ck then pg_pkesk_v6 L key ek else pg_pkesk_v3 L key alg ek)"

definition to_packet ::
  "('sk, 'pub, 'ek, 'pk, 'sd, 'r) pgp_lib \<Rightarrow> content_key \<Rightarrow> 'sk private_key \<Rightarrow> (bytes, 'r) gen" where
  "to_packet L ck node_key =
     gen_bind (gen_of (session_parts ck)) (\<lambda>(alg, key).
     gen_bind (recipient_encryption_key L (pk_key node_key) (content_key_packet_op L ck alg key)) (\<lambda>pk.
       gen_of (map_err (prefixed Encrypt ''serialize content key packet: '')
                 (pg_write L (PublicKeyEncryptedSessionKeyPacket pk)))))"

definition to_packet_for_public ::
  "('sk, 'pub, 'ek, 'pk, 'sd, 'r) pgp_lib \<Rightarrow> content_key \<Rightarrow> 'pub \<Rightarrow> (bytes, 'r) gen" where
  "to_packet_for_public L ck pubkey =
     gen_bind (gen_of (session_parts ck)) (\<lambda>(alg, key).
     gen_bind (recipient_encryption_key_public L pubkey (content_key_packet_op L ck alg key)) (\<lambda>pk.
       gen_of (map_err (prefixed Encrypt ''serialize session key packet: '')
                 (pg_write L (PublicKeyEncryptedSessionKeyPacket pk)))))"

definition armor_message :: "('sk, 'pub, 'ek, 'pk, 'sd, 'r) pgp_lib \<Rightarrow> bytes \<Rightarrow> string crypto_result" where
  "armor_message L message =
     sum_bind (map_err (prefixed Encrypt ''armor message: '') (pg_armor L message)) (\<lambda>out.
       case from_utf8 out of
         Some s \<Rightarrow> Inr s
       | None \<Rightarrow> Inl (Encrypt ''armored message is not utf8''))"

fun packets_to ::
  "('sk, 'pub, 'ek, 'pk, 'sd, 'r) pgp_lib \<Rightarrow> content_key \<Rightarrow> 'sk private_key list \<Rightarrow> (bytes, 'r) gen" where
  "packets_to L ck [] = gen_of (Inr [])"
| "packets_to L ck (r # rs) =
     gen_bind (to_packet L ck r) (\<lambda>p. gen_bind (packets_to L ck rs) (\<lambda>ps. gen_of (Inr (p @ ps))))"

definition encrypt_message_to ::
  "('sk, 'pub, 'ek, 'pk, 'sd, 'r) pgp_lib \<Rightarrow> content_key \<Rightarrow> 'sk private_key list \<Rightarrow> bytes \<Rightarrow> (string, 'r) gen" where
  "encrypt_message_to L ck rs data =
     (if rs = [] then gen_of (Inl (Encrypt ''encrypt_message_to needs at least one recipient''))
      else
        gen_bind (packets_to L ck rs) (\<lambda>ps.
        gen_bind (encrypt_block L ck data) (\<lambda>b.
          gen_of (armor_message L (ps @ b)))))"

definition encrypt_and_sign_text_to ::
  "('sk, 'pub, 'ek, 'pk, 'sd, 'r) pgp_lib \<Rightarrow> content_key \<Rightarrow> 'sk private_key \<Rightarrow> 'sk private_key \<Rightarrow> bytes
     \<Rightarrow> (string, 'r) gen" where
  "encrypt_and_sign_text_to L ck r signer data =
     gen_bind (gen_err (prefixed Encrypt ''sign name: '')
                 (pg_sign_inline L (pk_key signer) (pk_passphrase signer) True data)) (\<lambda>inner.
     gen_bind (to_packet L ck r) (\<lambda>p.
     gen_bind (seal_seipd L ck inner) (\<lambda>b.
       gen_of (armor_message L (p @ b)))))"

definition encrypt_with_password ::
  "('sk, 'pub, 'ek, 'pk, 'sd, 'r) pgp_lib \<Rightarrow> content_key \<Rightarrow> bytes \<Rightarrow> (bytes, 'r) gen" where
  "encrypt_with_password L ck password =
     gen_bind (gen_of (session_parts ck)) (\<lambda>(alg, key).
     gen_bind (gen_err (prefixed Encrypt ''skesk encrypt: '') (pg_skesk_v4 L password key alg)) (\<lambda>e.
       gen_of (map_err (prefixed Encrypt ''serialize skesk: '') (pg_write L (SymKeyEncryptedSessionKeyPacket e)))))"

section \<open>Opening blocks\<close>

fun find_seipd ::
  "('sk, 'pub, 'ek, 'pk, 'sd, 'r) pgp_lib \<Rightarrow> (string + ('pk, 'sd) packet) list \<Rightarrow> 'sd crypto_result" where
  "find_seipd L [] = Inl (Parse ''block has no SEIPD packet'')"
| "find_seipd L (Inl e # ps) = Inl (Parse (''block packet: '' @ e))"
| "find_seipd L (Inr p # ps) =
     (case p of
        SymEncryptedProtectedData sd \<Rightarrow> Inr sd
      | PublicKeyEncryptedSessionKeyPacket _ \<Rightarrow> find_seipd L ps
      | other \<Rightarrow> Inl (Parse (''unexpected block packet: '' @ pg_tag L other)))"

definition decrypt_seipd ::
  "('sk, 'pub, 'ek, 'pk, 'sd, 'r) pgp_lib \<Rightarrow> content_key \<Rightarrow> bytes \<Rightarrow> bytes crypto_result" where
  "decrypt_seipd L ck ct =
     sum_bind (session_parts ck) (\<lambda>(alg, key).
     sum_bind (find_seipd L (pg_parse L ct)) (\<lambda>sd.
       map_err (prefixed Decrypt ''block: '') (pg_seipd_decrypt L sd key (Some alg))))"

definition decrypt_block ::
  "('sk, 'pub, 'ek, 'pk, 'sd, 'r) pgp_lib \<Rightarrow> content_key \<Rightarrow> bytes \<Rightarrow> bytes crypto_result" where
  "decrypt_block L ck ct =
     sum_bind (decrypt_seipd L ck ct) (\<lambda>inner.
       case pg_parse L inner of
         [] \<Rightarrow> Inl (Parse ''block payload is empty'')
       | Inl e # _ \<Rightarrow> Inl (Parse (''block payload packet: '' @ e))
       | Inr (LiteralData data) # _ \<Rightarrow> Inr data
       | Inr other # _ \<Rightarrow> Inl (Parse (''block payload is not literal data: '' @ pg_tag L other)))"

fun find_literal ::
  "('sk, 'pub, 'ek, 'pk, 'sd, 'r) pgp_lib \<Rightarrow> (string + ('pk, 'sd) packet) list \<Rightarrow> bytes crypto_result" where
  "find_literal L [] = Inl (Parse ''thumbnail payload had no literal data'')"
| "find_literal L (Inl e # ps) = Inl (Parse (''thumbnail payload packet: '' @ e))"
| "find_literal L (Inr p # ps) =
     (case p of
        LiteralData data \<Rightarrow> Inr data
      | OnePassSignature \<Rightarrow> find_literal L ps
      | SignaturePacket \<Rightarrow> find_literal L ps
      | other \<Rightarrow> Inl (Parse (''unexpected thumbnail payload packet: '' @ pg_tag L other)))"

definition decrypt_thumbnail ::
  "('sk, 'pub, 'ek, 'pk, 'sd, 'r) pgp_lib \<Rightarrow> content_key \<Rightarrow> bytes \<Rightarrow> bytes crypto_result" where
  "decrypt_thumbnail L ck ct =
     sum_bind (decrypt_seipd L ck ct) (\<lambda>inner. find_literal L (pg_parse L inner))"

section \<open>Key packets\<close>

fun try_subkeys ::
  "('sk, 'pub, 'ek, 'pk, 'sd, 'r) pgp_lib \<Rightarrow> 'sk private_key \<Rightarrow> 'pk \<Rightarrow> esk_type \<Rightarrow> nat list \<Rightarrow> crypto_error
     \<Rightarrow> content_key crypto_result" where
  "try_subkeys L k pk esk [] last_err = Inl last_err"
| "try_subkeys L k pk esk (i # is) last_err =
     (case pg_key_decrypt L (pk_key k) (Some i) (pk_passphrase k) pk esk of
        Inr s \<Rightarrow> Inr (ContentKey s)
      | Inl e \<Rightarrow> try_subkeys L k pk esk is (Decrypt (''content key (subkey): '' @ e)))"

definition decrypt_content_key ::
  "('sk, 'pub, 'ek, 'pk, 'sd, 'r) pgp_lib \<Rightarrow> 'sk private_key \<Rightarrow> bytes \<Rightarrow> content_key crypto_result" where
  "decrypt_content_key L k packet_bytes =
     (case pg_parse L packet_bytes of
        [] \<Rightarrow> Inl (Parse ''empty content key packet'')
      | Inl e # _ \<Rightarrow> Inl (Parse (''content key packet: '' @ e))
      | Inr (PublicKeyEncryptedSessionKeyPacket pk) # _ \<Rightarrow>
          sum_bind (map_err (prefixed Parse ''content key PKESK values: '') (pg_pkesk_values L pk)) (\<lambda>vals.
          let esk = (if pg_pkesk_is_v6 L pk then EskV6 else EskV3_4) in
          case pg_key_decrypt L (pk_key k) None (pk_passphrase k) vals esk of
            Inr s \<Rightarrow> Inr (ContentKey s)
          | Inl e \<Rightarrow> try_subkeys L k vals esk [0..<pg_subkey_count L (pk_key k)] (Decrypt (''content key: '' @ e)))
      | Inr _ # _ \<Rightarrow> Inl (Parse ''content key packet is not a PKESK''))"

definition dearmor_message :: "('sk, 'pub, 'ek, 'pk, 'sd, 'r) pgp_lib \<Rightarrow> string \<Rightarrow> bytes crypto_result" where
  "dearmor_message L armored = map_err (prefixed Parse ''de-armor message: '') (pg_dearmor L armored)"

definition recover_message_session_key ::
  "('sk, 'pub, 'ek, 'pk, 'sd, 'r) pgp_lib \<Rightarrow> 'sk private_key \<Rightarrow> string \<Rightarrow> content_key crypto_result" where
  "recover_message_session_key L k armored = sum_bind (dearmor_message L armored) (decrypt_content_key L k)"

fun serialize_seipd_of ::
  "('sk, 'pub, 'ek, 'pk, 'sd, 'r) pgp_lib \<Rightarrow> (string + ('pk, 'sd) packet) list \<Rightarrow> bytes crypto_result" where
  "serialize_seipd_of L [] = Inl (Parse ''message has no SEIPD packet'')"
| "serialize_seipd_of L (Inl e # ps) = Inl (Parse (''message packet: '' @ e))"
| "serialize_seipd_of L (Inr (SymEncryptedProtectedData sd) # ps) =
     map_err (prefixed Encrypt ''serialize seipd: '') (pg_write L (SymEncryptedProtectedData sd))"
| "serialize_seipd_of L (Inr _ # ps) = serialize_seipd_of L ps"

definition serialize_seipd :: "('sk, 'pub, 'ek, 'pk, 'sd, 'r) pgp_lib \<Rightarrow> bytes \<Rightarrow> bytes crypto_result" where
  "serialize_seipd L raw = serialize_seipd_of L (pg_parse L raw)"

definition rewrap_message_to ::
  "('sk, 'pub, 'ek, 'pk, 'sd, 'r) pgp_lib \<Rightarrow> 'sk private_key \<Rightarrow> string \<Rightarrow> 'sk private_key \<Rightarrow> (string, 'r) gen" where
  "rewrap_message_to L k armored destination =
     gen_bind (gen_of (dearmor_message L armored)) (\<lambda>raw.
     gen_bind (gen_of (decrypt_content_key L k raw)) (\<lambda>session.
     gen_bind (gen_of (serialize_seipd L raw)) (\<lambda>body.
     gen_bind (to_packet L session destination) (\<lambda>p.
       gen_of (armor_message L (p @ body))))))"

section \<open>What the library promises\<close>

text \<open>
  A written packet parses back, in front of whatever follows; a sealed payload opens with its
  key; armor comes off.
\<close>

definition packets_work :: "('sk, 'pub, 'ek, 'pk, 'sd, 'r) pgp_lib \<Rightarrow> bool" where
  "packets_work L \<longleftrightarrow>
     (\<forall>p b rest. pg_write L p = Inr b \<longrightarrow> pg_parse L (b @ rest) = Inr p # pg_parse L rest) \<and>
     pg_parse L [] = [] \<and>
     (\<forall>d p. pg_literal L d = Inr p \<longrightarrow> p = LiteralData d) \<and>
     (\<forall>alg key inner g sd g'. pg_seipdv1 L alg key inner g = (Inr sd, g') \<longrightarrow>
        pg_seipd_decrypt L sd key (Some alg) = Inr inner) \<and>
     (\<forall>alg aead n key inner g sd g'. pg_seipdv2 L alg aead n key inner g = (Inr sd, g') \<longrightarrow>
        pg_seipd_decrypt L sd key (Some alg) = Inr inner) \<and>
     (\<forall>b out s. pg_armor L b = Inr out \<longrightarrow> from_utf8 out = Some s \<longrightarrow> pg_dearmor L s = Inr b)"

text \<open>A key opens the session keys encrypted to it, and to nothing else.\<close>

definition opens_as ::
  "('sk, 'pub, 'ek, 'pk, 'sd, 'r) pgp_lib \<Rightarrow> 'sk private_key \<Rightarrow> 'pk \<Rightarrow> plain_session_key \<Rightarrow> bool" where
  "opens_as L k pk s \<longleftrightarrow>
     (\<exists>v. pg_pkesk_values L pk = Inr v \<and>
        (let attempt = (\<lambda>pos. pg_key_decrypt L (pk_key k) pos (pk_passphrase k) v
                       (if pg_pkesk_is_v6 L pk then EskV6 else EskV3_4)) in
         (attempt None = Inr s \<or> (\<exists>i<pg_subkey_count L (pk_key k). attempt (Some i) = Inr s)) \<and>
         (\<forall>pos s'. attempt pos = Inr s' \<longrightarrow> s' = s)))"

definition key_opens :: "('sk, 'pub, 'ek, 'pk, 'sd, 'r) pgp_lib \<Rightarrow> 'ek \<Rightarrow> 'sk private_key \<Rightarrow> bool" where
  "key_opens L ek k \<longleftrightarrow>
     (\<forall>key alg pk g g'. pg_pkesk_v3 L key alg ek g = (Inr pk, g') \<longrightarrow> opens_as L k pk (V3_4 alg key)) \<and>
     (\<forall>key pk g g'. pg_pkesk_v6 L key ek g = (Inr pk, g') \<longrightarrow> opens_as L k pk (V6 key))"

definition reads_own_packets :: "('sk, 'pub, 'ek, 'pk, 'sd, 'r) pgp_lib \<Rightarrow> 'sk private_key \<Rightarrow> bool" where
  "reads_own_packets L k \<longleftrightarrow>
     (case select_target L (pg_secret_targets L (pk_key k)) of None \<Rightarrow> True | Some (_, ek) \<Rightarrow> key_opens L ek k)"

section \<open>Lemmas\<close>

lemma parse_written: "packets_work L \<Longrightarrow> pg_write L p = Inr b \<Longrightarrow> pg_parse L (b @ rest) = Inr p # pg_parse L rest"
  by (simp add: packets_work_def)

lemma parse_written_alone: "packets_work L \<Longrightarrow> pg_write L p = Inr b \<Longrightarrow> pg_parse L b = [Inr p]"
  using parse_written [of L p b "[]"] unfolding packets_work_def by simp

lemma seal_seipd_opens:
  assumes "packets_work L" "seal_seipd L ck inner g = (Inr ct, g')"
  shows "\<exists>sd alg key. session_parts ck = Inr (alg, key) \<and> pg_write L (SymEncryptedProtectedData sd) = Inr ct \<and>
     pg_seipd_decrypt L sd key (Some alg) = Inr inner"
  using assms unfolding packets_work_def seal_seipd_def
  by (fastforce simp: gen_bind_Inr gen_err_Inr split: if_splits)

text \<open>A sealed payload opens, alone or behind key packets.\<close>

lemma find_seipd_packets:
  assumes "packets_work L" "packets_to L ck rs g = (Inr ps, g')"
  shows "find_seipd L (pg_parse L (ps @ rest)) = find_seipd L (pg_parse L rest)"
  using assms(2)
proof (induction rs arbitrary: g ps)
  case (Cons r rs)
  then obtain p qs g1 where p: "to_packet L ck r g = (Inr p, g1)" "packets_to L ck rs g1 = (Inr qs, g')" "ps = p @ qs"
    by (auto simp: gen_bind_Inr)
  then obtain pk where "pg_write L (PublicKeyEncryptedSessionKeyPacket pk) = Inr p"
    by (auto simp: to_packet_def gen_bind_Inr)
  then show ?case using parse_written [OF assms(1)] Cons.IH [OF p(2)] p(3) by simp
qed simp

lemma decrypt_sealed:
  assumes work: "packets_work L" and seal: "seal_seipd L ck inner g = (Inr ct, g')"
    and ps: "packets_to L ck' rs h = (Inr ps, h')"
  shows "decrypt_seipd L ck (ps @ ct @ rest) = Inr inner"
proof -
  obtain sd alg key where s: "session_parts ck = Inr (alg, key)" "pg_write L (SymEncryptedProtectedData sd) = Inr ct"
    "pg_seipd_decrypt L sd key (Some alg) = Inr inner"
    using seal_seipd_opens [OF work seal] by blast
  have "find_seipd L (pg_parse L (ps @ ct @ rest)) = Inr sd"
    using find_seipd_packets [OF work ps] parse_written [OF work s(2)] by simp
  then show ?thesis using s by (simp add: decrypt_seipd_def)
qed

lemma try_subkeys_Inr:
  assumes "\<And>pos s'. pg_key_decrypt L (pk_key k) pos (pk_passphrase k) v esk = Inr s' \<Longrightarrow> s' = s"
    and "\<exists>i\<in>set is. pg_key_decrypt L (pk_key k) (Some i) (pk_passphrase k) v esk = Inr s"
  shows "try_subkeys L k v esk is e = Inr (ContentKey s)"
  using assms(2) by (induction "is" arbitrary: e) (auto dest: assms(1) split: sum.splits)

lemma decrypt_content_key_opens:
  assumes work: "packets_work L" and "pg_write L (PublicKeyEncryptedSessionKeyPacket pk) = Inr b"
    and opens: "opens_as L k pk s"
  shows "decrypt_content_key L k (b @ rest) = Inr (ContentKey s)"
proof -
  let ?esk = "if pg_pkesk_is_v6 L pk then EskV6 else EskV3_4"
  let ?attempt = "\<lambda>v pos. pg_key_decrypt L (pk_key k) pos (pk_passphrase k) v ?esk"
  obtain v where v: "pg_pkesk_values L pk = Inr v" "\<And>pos s'. ?attempt v pos = Inr s' \<Longrightarrow> s' = s"
    and hit: "?attempt v None = Inr s \<or> (\<exists>i<pg_subkey_count L (pk_key k). ?attempt v (Some i) = Inr s)"
    using opens unfolding opens_as_def Let_def by blast
  have parse: "pg_parse L (b @ rest) = Inr (PublicKeyEncryptedSessionKeyPacket pk) # pg_parse L rest"
    by (rule parse_written [OF work assms(2)])
  show ?thesis
  proof (cases "?attempt v None")
    case (Inl e)
    then have "\<exists>i\<in>set [0..<pg_subkey_count L (pk_key k)]. ?attempt v (Some i) = Inr s" using hit by auto
    from try_subkeys_Inr [OF v(2) this] show ?thesis using parse v(1) Inl
      by (simp add: decrypt_content_key_def Let_def)
  next
    case (Inr s')
    then show ?thesis using parse v by (simp add: decrypt_content_key_def Let_def)
  qed
qed

lemma content_key_packet_opens:
  assumes "key_opens L ek k" "content_key_packet_op L ck alg key ek g = (Inr pk, g1)"
    "session_parts ck = Inr (alg, key)"
  shows "opens_as L k pk (session_key ck)"
  using assms unfolding key_opens_def content_key_packet_op_def is_aead_def session_parts_def
  by (auto split: plain_session_key.splits if_splits) metis+

lemma to_packet_opens:
  assumes work: "packets_work L" and reads: "reads_own_packets L k" and run: "to_packet L ck k g = (Inr b, g')"
  shows "decrypt_content_key L k (b @ rest) = Inr ck"
proof -
  obtain alg key pk g1 where parts: "session_parts ck = Inr (alg, key)"
    and pk: "recipient_encryption_key L (pk_key k) (content_key_packet_op L ck alg key) g = (Inr pk, g1)"
    and wr: "pg_write L (PublicKeyEncryptedSessionKeyPacket pk) = Inr b"
    using run by (auto simp: to_packet_def gen_bind_Inr)
  obtain lab ek where sel: "select_target L (pg_secret_targets L (pk_key k)) = Some (lab, ek)"
    and made: "content_key_packet_op L ck alg key ek g = (Inr pk, g1)"
    using pk by (cases "select_target L (pg_secret_targets L (pk_key k))")
      (auto simp: recipient_encryption_key_def run_recipient_def gen_err_Inr)
  have "key_opens L ek k" using reads sel by (simp add: reads_own_packets_def)
  then have "opens_as L k pk (session_key ck)" using made parts by (rule content_key_packet_opens)
  from decrypt_content_key_opens [OF work wr this] show ?thesis by simp
qed

lemma armor_message_dearmor:
  "packets_work L \<Longrightarrow> armor_message L b = Inr s \<Longrightarrow> dearmor_message L s = Inr b"
  unfolding packets_work_def armor_message_def dearmor_message_def
  by (auto simp: sum_bind_Inr split: option.splits)

lemma serialize_seipd_of_written:
  "serialize_seipd_of L ps = Inr b \<Longrightarrow> \<exists>sd. pg_write L (SymEncryptedProtectedData sd) = Inr b \<and>
     (\<forall>sd'. find_seipd L ps = Inr sd' \<longrightarrow> sd' = sd)"
  by (induction L ps rule: serialize_seipd_of.induct) auto

section \<open>Properties\<close>

text \<open>A block encrypted under a content key decrypts to its plaintext, bare as it is stored
  and also behind the key packets of a full message.\<close>

theorem block_round_trip:
  assumes "packets_work L" "encrypt_block L ck data g = (Inr ct, g')" "packets_to L ck rs h = (Inr ps, h')"
  shows "decrypt_block L ck (ps @ ct) = Inr data"
proof -
  obtain lit inner where lit: "pg_literal L data = Inr lit" "pg_write L lit = Inr inner"
    and seal: "seal_seipd L ck inner g = (Inr ct, g')"
    using assms(2) by (auto simp: encrypt_block_def gen_bind_Inr)
  have "lit = LiteralData data" using assms(1) lit(1) by (simp add: packets_work_def)
  then have "pg_parse L inner = [Inr (LiteralData data)]" using parse_written_alone [OF assms(1) lit(2)] by simp
  then show ?thesis
    using decrypt_sealed [OF assms(1) seal assms(3), of "[]"] by (simp add: decrypt_block_def)
qed

text \<open>Rewrapping a message to another key changes its key packet only: the destination
  recovers the same session key from it, the encrypted body is carried over byte for byte, and
  whatever payload the session key opened in the old message it opens in the new one.  So a
  moved node's passphrase, and the detached signature over it, stay valid.\<close>

theorem rewrap_preserves_message:
  assumes "packets_work L" "reads_own_packets L destination"
    and "rewrap_message_to L k armored destination g = (Inr armored', g')"
  shows "\<exists>raw raw' session body.
     dearmor_message L armored = Inr raw \<and> dearmor_message L armored' = Inr raw' \<and>
     decrypt_content_key L k raw = Inr session \<and> decrypt_content_key L destination raw' = Inr session \<and>
     serialize_seipd L raw = Inr body \<and> serialize_seipd L raw' = Inr body \<and>
     (\<forall>payload. decrypt_seipd L session raw = Inr payload \<longrightarrow> decrypt_seipd L session raw' = Inr payload)"
proof -
  obtain raw session body p g1 where raw: "dearmor_message L armored = Inr raw"
    and ck: "decrypt_content_key L k raw = Inr session" and body: "serialize_seipd L raw = Inr body"
    and p: "to_packet L session destination g = (Inr p, g1)" and out: "armor_message L (p @ body) = Inr armored'"
    using assms(3) by (auto simp: rewrap_message_to_def gen_bind_Inr)
  obtain sd where sd: "pg_write L (SymEncryptedProtectedData sd) = Inr body"
    "\<And>sd'. find_seipd L (pg_parse L raw) = Inr sd' \<Longrightarrow> sd' = sd"
    using serialize_seipd_of_written body unfolding serialize_seipd_def by blast
  obtain pk where "pg_write L (PublicKeyEncryptedSessionKeyPacket pk) = Inr p"
    using p by (auto simp: to_packet_def gen_bind_Inr)
  then have parse: "pg_parse L (p @ body) =
      [Inr (PublicKeyEncryptedSessionKeyPacket pk), Inr (SymEncryptedProtectedData sd)]"
    using parse_written [OF assms(1)] parse_written_alone [OF assms(1) sd(1)] by simp
  have "decrypt_seipd L session (p @ body) = Inr payload" if "decrypt_seipd L session raw = Inr payload" for payload
    using that sd(2) parse by (auto simp: decrypt_seipd_def sum_bind_Inr)
  moreover have "serialize_seipd L (p @ body) = Inr body" using parse sd(1) by (simp add: serialize_seipd_def)
  ultimately show ?thesis
    using raw ck body armor_message_dearmor [OF assms(1) out] to_packet_opens [OF assms(1,2) p, of body] by blast
qed

section \<open>An example library\<close>

text \<open>
  A toy packet library: a packet is its length and its encoding, a sealed payload names its
  key, a session key names its recipient.
\<close>

fun ex_encode :: "(string \<times> bytes, bytes \<times> bytes) packet \<Rightarrow> bytes" where
  "ex_encode (SymEncryptedProtectedData (key, inner)) = 1 # word_of_nat (length key) # key @ inner"
| "ex_encode (PublicKeyEncryptedSessionKeyPacket (r, key)) = 2 # word_of_nat (length r) # as_bytes r @ key"
| "ex_encode (LiteralData d) = 3 # d"
| "ex_encode _ = []"

fun ex_decode :: "bytes \<Rightarrow> string + (string \<times> bytes, bytes \<times> bytes) packet" where
  "ex_decode (t # b) =
     (if t = 3 then Inr (LiteralData b)
      else (case b of
              n # c \<Rightarrow> if t = 1 then Inr (SymEncryptedProtectedData (take (unat n) c, drop (unat n) c))
                     else if t = 2 then Inr (PublicKeyEncryptedSessionKeyPacket
                         (map (\<lambda>x. char_of (unat x)) (take (unat n) c), drop (unat n) c))
                     else Inl ''packet''
            | [] \<Rightarrow> Inl ''packet''))"
| "ex_decode [] = Inl ''packet''"

definition ex_write :: "(string \<times> bytes, bytes \<times> bytes) packet \<Rightarrow> string + bytes" where
  "ex_write p =
     (let b = ex_encode p in
      if length b < 256 \<and> ex_decode b = Inr p then Inr (word_of_nat (length b) # b) else Inl ''packet'')"

function ex_parse :: "bytes \<Rightarrow> (string + (string \<times> bytes, bytes \<times> bytes) packet) list" where
  "ex_parse [] = []"
| "ex_parse (n # b) = ex_decode (take (unat n) b) # ex_parse (drop (unat n) b)"
  by pat_completeness auto
termination by (relation "measure length") auto

definition example_lib :: "(string, string, string, string \<times> bytes, bytes \<times> bytes, nat) pgp_lib" where
  "example_lib =
     \<lparr>pg_parse = ex_parse, pg_tag = (\<lambda>_. ''packet''), pg_write = ex_write, pg_literal = (\<lambda>d. Inr (LiteralData d)),
      pg_sign_inline = (\<lambda>_ _ _ d g. (map_err id (ex_write (LiteralData d)), g)),
      pg_seipdv1 = (\<lambda>_ key inner g. (Inr (key, inner), g)),
      pg_seipdv2 = (\<lambda>_ _ _ key inner g. (Inr (key, inner), g)),
      pg_seipd_decrypt = (\<lambda>(key, inner) k _. if k = key then Inr inner else Inl ''key''),
      pg_secret_targets = (\<lambda>k. (k, [])), pg_public_targets = (\<lambda>k. (k, [])), pg_can_encrypt = (\<lambda>_. True),
      pg_pkesk_v3 = (\<lambda>key alg ek g. (if alg = AES256 then Inr (ek, key) else Inl ''algorithm'', g)),
      pg_pkesk_v6 = (\<lambda>key ek g. (Inl ''version'', g)),
      pg_pkesk_values = Inr, pg_pkesk_is_v6 = (\<lambda>_. False), pg_subkey_count = (\<lambda>_. 0),
      pg_key_decrypt = (\<lambda>sk pos pw (r, key) esk. if r = sk then Inr (V3_4 AES256 key) else Inl ''recipient''),
      pg_new_session_key = (\<lambda>_ g. ([7], g)), pg_skesk_v4 = (\<lambda>_ _ _ g. (Inl ''skesk'', g)),
      pg_armor = (\<lambda>b. Inr (if list_all (\<lambda>c. unat c < 128) b then b else [255])),
      pg_dearmor = (\<lambda>s. Inr (as_bytes s))\<rparr>"

lemma ex_parse_written: "ex_write p = Inr b \<Longrightarrow> ex_parse (b @ rest) = Inr p # ex_parse rest"
  by (auto simp: ex_write_def Let_def unat_of_nat split: if_splits)

lemma of_char_char_of_unat: "(of_char (char_of (unat x)) :: u8) = x"
proof -
  have "(of_char (char_of (unat x)) :: u8) = of_nat (of_char (char_of (unat x)) :: nat)"
    by (rule of_nat_of_char [symmetric])
  also have "\<dots> = of_nat (unat x)" using unsigned_less [of x, where ?'a = nat] by simp
  finally show ?thesis by simp
qed

lemma as_bytes_from_utf8: "from_utf8 b = Some s \<Longrightarrow> as_bytes s = b"
  unfolding from_utf8_def as_bytes_def
  by (auto split: if_splits simp: o_def of_char_char_of_unat intro!: map_idI)

lemma example_lib_works: "packets_work example_lib"
  unfolding packets_work_def
  by (auto simp: example_lib_def ex_parse_written dest: as_bytes_from_utf8 split: if_splits)
     (auto simp: from_utf8_def)

lemma example_key_reads: "reads_own_packets example_lib k"
  by (simp add: reads_own_packets_def select_target_def key_opens_def opens_as_def example_lib_def)

definition example_ck :: content_key where "example_ck = ContentKey (V3_4 AES256 [7])"

definition ex_priv :: "string \<Rightarrow> string private_key" where "ex_priv n = \<lparr>pk_key = n, pk_passphrase = as_bytes n\<rparr>"

definition example_message :: string where
  "example_message = projr (fst (encrypt_message_to example_lib example_ck [ex_priv ''1''] [5, 6] 0))"

theorem block_round_trip_witness:
  "encrypt_block example_lib example_ck [5, 6] 0 = (Inr [7, 1, 1, 7, 3, 3, 5, 6], 0) \<and>
   decrypt_block example_lib example_ck ([4, 2, 1, 49, 7] @ [7, 1, 1, 7, 3, 3, 5, 6]) = Inr [5, 6]"
proof -
  have e: "encrypt_block example_lib example_ck [5, 6] 0 = (Inr [7, 1, 1, 7, 3, 3, 5, 6], 0)" by code_simp
  have p: "packets_to example_lib example_ck [ex_priv ''1''] 0 = (Inr [4, 2, 1, 49, 7], 0)" by code_simp
  show ?thesis using e block_round_trip [OF example_lib_works e p] by blast
qed

theorem rewrap_preserves_message_witness:
  "\<exists>raw raw' session. dearmor_message example_lib example_message = Inr raw \<and>
     rewrap_message_to example_lib (ex_priv ''1'') example_message (ex_priv ''2'') 0 = (armor_message example_lib raw', 0) \<and>
     decrypt_content_key example_lib (ex_priv ''1'') raw = Inr session \<and>
     decrypt_content_key example_lib (ex_priv ''2'') raw' = Inr session"
proof -
  have a: "\<exists>s. rewrap_message_to example_lib (ex_priv ''1'') example_message (ex_priv ''2'') 0 = (Inr s, 0)"
  proof -
    have "(case fst (rewrap_message_to example_lib (ex_priv ''1'') example_message (ex_priv ''2'') 0) of
        Inr _ \<Rightarrow> True | Inl _ \<Rightarrow> False) \<and>
        snd (rewrap_message_to example_lib (ex_priv ''1'') example_message (ex_priv ''2'') 0) = 0" by code_simp
    then show ?thesis
      by (cases "rewrap_message_to example_lib (ex_priv ''1'') example_message (ex_priv ''2'') 0") (auto split: sum.splits)
  qed
  then obtain s where s: "rewrap_message_to example_lib (ex_priv ''1'') example_message (ex_priv ''2'') 0 = (Inr s, 0)" by blast
  then obtain raw' where armored: "armor_message example_lib raw' = Inr s"
    by (auto simp: rewrap_message_to_def gen_bind_Inr)
  have d: "dearmor_message example_lib s = Inr raw'" by (rule armor_message_dearmor [OF example_lib_works armored])
  from rewrap_preserves_message [OF example_lib_works example_key_reads s] d obtain raw session where
    "dearmor_message example_lib example_message = Inr raw"
    "decrypt_content_key example_lib (ex_priv ''1'') raw = Inr session"
    "decrypt_content_key example_lib (ex_priv ''2'') raw' = Inr session" by auto
  then show ?thesis using s armored by (metis (no_types))
qed

end
