(* ===== verification/Encrypt.thy ===== *)
theory Encrypt
  imports Content
begin

text \<open>
  Encryption, signatures and new keys (\<open>proton-sdk/src/crypto/encrypt.rs\<close>): messages to a
  key, detached signatures with and without a context, node keys, and the material of new
  volumes, shares and invitations.  Message building, signing and key generation of the
  OpenPGP library are an argument.
\<close>

section \<open>The library\<close>

datatype key_version = KeyV2 | KeyV3 | KeyV4 | KeyV5 | KeyV6
datatype key_type = Ed25519 | X25519

datatype subpacket_data =
    IssuerFingerprint string | SignatureCreationTime nat | IssuerKeyId string
  | NotationData bool string bytes

datatype subpacket = Regular subpacket_data | Critical subpacket_data

record subkey_params =
  skp_version :: key_version
  skp_key_type :: key_type
  skp_can_encrypt :: bool
  skp_passphrase :: "string option"

record secret_key_params =
  kpa_version :: key_version
  kpa_key_type :: key_type
  kpa_can_certify :: bool
  kpa_can_sign :: bool
  kpa_primary_user_id :: string
  kpa_passphrase :: "string option"
  kpa_subkey :: subkey_params

text \<open>
  \<open>wl_encrypt_to\<close> builds the armored message for one recipient: signer, data, text mode,
  compression.
\<close>

record ('sk, 'ek, 'sg, 'r) write_lib =
  wl_encrypt_to :: "'ek \<Rightarrow> 'sk private_key option \<Rightarrow> bytes \<Rightarrow> bool \<Rightarrow> bool \<Rightarrow> 'r \<Rightarrow> (string + string) \<times> 'r"
  wl_signature_config :: "'sk \<Rightarrow> 'r \<Rightarrow> (string + unit) \<times> 'r"
  wl_subpacket :: "subpacket \<Rightarrow> string + subpacket"
  wl_fingerprint :: "'sk \<Rightarrow> string"
  wl_key_id :: "'sk \<Rightarrow> string"
  wl_key_version :: "'sk \<Rightarrow> key_version"
  wl_now :: "'r \<Rightarrow> nat \<times> 'r"
  wl_sign :: "'sk \<Rightarrow> bytes \<Rightarrow> subpacket list \<Rightarrow> subpacket list \<Rightarrow> bytes \<Rightarrow> string + 'sg"
  wl_armor_signature :: "'sg \<Rightarrow> string + string"
  wl_signature_bytes :: "'sg \<Rightarrow> string + bytes"
  wl_subkey_params :: "subkey_params \<Rightarrow> string + subkey_params"
  wl_key_params :: "secret_key_params \<Rightarrow> string + secret_key_params"
  wl_generate :: "secret_key_params \<Rightarrow> 'r \<Rightarrow> (string + 'sk) \<times> 'r"
  wl_armor_key :: "'sk \<Rightarrow> string + string"
  wl_random :: "nat \<Rightarrow> 'r \<Rightarrow> bytes \<times> 'r"
  wl_base64_encode :: "bytes \<Rightarrow> string"
  wl_base64_decode :: "string \<Rightarrow> string + bytes"

type_synonym ('sk, 'pub, 'sig, 'msg, 'ek, 'pk, 'sd, 'sg, 'r) crypto_env =
  "('sk, 'pub, 'sig, 'msg) rpgp \<times> ('sk, 'pub, 'ek, 'pk, 'sd, 'r) pgp_lib \<times> ('sk, 'ek, 'sg, 'r) write_lib"

definition gen_draw :: "('r \<Rightarrow> 'a \<times> 'r) \<Rightarrow> ('a, 'r) gen" where
  "gen_draw f = (\<lambda>g. case f g of (x, g') \<Rightarrow> (Inr x, g'))"

lemma gen_draw_Inr: "gen_draw f g = (Inr x, g') \<longleftrightarrow> f g = (x, g')"
  by (auto simp: gen_draw_def split: prod.splits)

section \<open>Messages and signatures\<close>

definition encrypt_and_sign ::
  "('sk, 'pub, 'ek, 'pk, 'sd, 'r) pgp_lib \<Rightarrow> ('sk, 'ek, 'sg, 'r) write_lib \<Rightarrow> 'sk \<Rightarrow> 'sk private_key option
     \<Rightarrow> bytes \<Rightarrow> bool \<Rightarrow> bool \<Rightarrow> (string, 'r) gen" where
  "encrypt_and_sign L W to signer data txt compress =
     recipient_encryption_key L to (\<lambda>ek. wl_encrypt_to W ek signer data txt compress)"

definition encrypt ::
  "('sk, 'pub, 'ek, 'pk, 'sd, 'r) pgp_lib \<Rightarrow> ('sk, 'ek, 'sg, 'r) write_lib \<Rightarrow> 'sk private_key \<Rightarrow> bytes
     \<Rightarrow> (string, 'r) gen" where
  "encrypt L W k data = encrypt_and_sign L W (pk_key k) None data False False"

definition hashed_subpackets ::
  "('sk, 'ek, 'sg, 'r) write_lib \<Rightarrow> 'sk \<Rightarrow> nat \<Rightarrow> string option \<Rightarrow> subpacket list crypto_result" where
  "hashed_subpackets W key now ctx =
     sum_bind (map_err (prefixed Encrypt ''issuer fingerprint subpacket: '')
                 (wl_subpacket W (Regular (IssuerFingerprint (wl_fingerprint W key))))) (\<lambda>f.
     sum_bind (map_err (prefixed Encrypt ''creation-time subpacket: '')
                 (wl_subpacket W (Regular (SignatureCreationTime now)))) (\<lambda>t.
     case ctx of
       None \<Rightarrow> Inr [f, t]
     | Some c \<Rightarrow>
         sum_bind (map_err (prefixed Encrypt ''context notation subpacket: '')
                     (wl_subpacket W (Critical (NotationData True SIGNATURE_CONTEXT_NOTATION (as_bytes c)))))
           (\<lambda>n. Inr [f, t, n])))"

definition unhashed_subpackets ::
  "('sk, 'ek, 'sg, 'r) write_lib \<Rightarrow> 'sk \<Rightarrow> subpacket list crypto_result" where
  "unhashed_subpackets W key =
     (if wl_key_version W key \<in> {KeyV2, KeyV3, KeyV4} then
        sum_bind (map_err (prefixed Encrypt ''issuer subpacket: '')
                    (wl_subpacket W (Regular (IssuerKeyId (wl_key_id W key))))) (\<lambda>i. Inr [i])
      else Inr [])"

definition make_signature ::
  "('sk, 'ek, 'sg, 'r) write_lib \<Rightarrow> 'sk private_key \<Rightarrow> bytes \<Rightarrow> string option \<Rightarrow> ('sg, 'r) gen" where
  "make_signature W signer data ctx =
     gen_bind (gen_err (prefixed Encrypt ''signature config: '') (wl_signature_config W (pk_key signer))) (\<lambda>_.
     gen_bind (gen_draw (wl_now W)) (\<lambda>now.
     gen_bind (gen_of (hashed_subpackets W (pk_key signer) now ctx)) (\<lambda>hashed.
     gen_bind (gen_of (unhashed_subpackets W (pk_key signer))) (\<lambda>unhashed.
       gen_of (map_err (prefixed Encrypt ''detached sign: '')
                 (wl_sign W (pk_key signer) (pk_passphrase signer) hashed unhashed data))))))"

definition sign_detached ::
  "('sk, 'ek, 'sg, 'r) write_lib \<Rightarrow> 'sk private_key \<Rightarrow> bytes \<Rightarrow> (string, 'r) gen" where
  "sign_detached W signer data =
     gen_bind (make_signature W signer data None) (\<lambda>s.
       gen_of (map_err (prefixed Encrypt ''armor signature: '') (wl_armor_signature W s)))"

definition sign_detached_binary_with_context ::
  "('sk, 'ek, 'sg, 'r) write_lib \<Rightarrow> 'sk private_key \<Rightarrow> bytes \<Rightarrow> string \<Rightarrow> (bytes, 'r) gen" where
  "sign_detached_binary_with_context W signer data ctx =
     gen_bind (make_signature W signer data (Some ctx)) (\<lambda>s.
       gen_of (map_err (prefixed Encrypt ''serialize signature: '') (wl_signature_bytes W s)))"

definition SHARING_INVITER_CONTEXT :: string where
  "SHARING_INVITER_CONTEXT = ''drive.share-member.inviter''"
definition SHARING_MEMBER_CONTEXT :: string where
  "SHARING_MEMBER_CONTEXT = ''drive.share-member.member''"
definition SHARING_EXTERNAL_INVITATION_CONTEXT :: string where
  "SHARING_EXTERNAL_INVITATION_CONTEXT = ''drive.share-member.external-invitation''"

section \<open>New keys\<close>

record 'sk generated_node_key =
  gk_key :: "'sk private_key"
  gk_locked_armored :: string
  gk_passphrase :: bytes

definition generate_passphrase :: "('sk, 'ek, 'sg, 'r) write_lib \<Rightarrow> 'r \<Rightarrow> bytes \<times> 'r" where
  "generate_passphrase W g = (case wl_random W 32 g of (b, g') \<Rightarrow> (as_bytes (wl_base64_encode W b), g'))"

definition node_subkey_params :: "key_version \<Rightarrow> string \<Rightarrow> subkey_params" where
  "node_subkey_params version pw =
     \<lparr>skp_version = version, skp_key_type = X25519, skp_can_encrypt = True, skp_passphrase = Some pw\<rparr>"

definition node_key_params :: "key_version \<Rightarrow> string \<Rightarrow> subkey_params \<Rightarrow> secret_key_params" where
  "node_key_params version pw sub =
     \<lparr>kpa_version = version, kpa_key_type = Ed25519, kpa_can_certify = True, kpa_can_sign = True,
      kpa_primary_user_id = ''Drive key <no-reply@proton.me>'', kpa_passphrase = Some pw, kpa_subkey = sub\<rparr>"

definition generate_node_key_versioned ::
  "('sk, 'pub, 'sig, 'msg) rpgp \<Rightarrow> ('sk, 'ek, 'sg, 'r) write_lib \<Rightarrow> key_version
     \<Rightarrow> ('sk generated_node_key, 'r) gen" where
  "generate_node_key_versioned P W version =
     gen_bind (gen_draw (generate_passphrase W)) (\<lambda>passphrase.
     gen_bind (gen_of (case from_utf8 passphrase of
                         Some s \<Rightarrow> Inr s | None \<Rightarrow> Inl (Encrypt ''passphrase is not ascii''))) (\<lambda>pw.
     gen_bind (gen_of (map_err (prefixed Encrypt ''node subkey params: '')
                         (wl_subkey_params W (node_subkey_params version pw)))) (\<lambda>sub.
     gen_bind (gen_of (map_err (prefixed Encrypt ''node key params: '')
                         (wl_key_params W (node_key_params version pw sub)))) (\<lambda>params.
     gen_bind (gen_err (prefixed Encrypt ''generate node key: '') (wl_generate W params)) (\<lambda>signed.
     gen_bind (gen_of (map_err (prefixed Encrypt ''armor node key: '') (wl_armor_key W signed))) (\<lambda>locked.
     gen_bind (gen_of (PrivateKey_from_armored P locked passphrase)) (\<lambda>key.
       gen_of (Inr \<lparr>gk_key = key, gk_locked_armored = locked, gk_passphrase = passphrase\<rparr>))))))))"

definition generate_node_key ::
  "('sk, 'pub, 'sig, 'msg) rpgp \<Rightarrow> ('sk, 'ek, 'sg, 'r) write_lib \<Rightarrow> ('sk generated_node_key, 'r) gen" where
  "generate_node_key P W = generate_node_key_versioned P W KeyV4"

definition generate_node_key_aead ::
  "('sk, 'pub, 'sig, 'msg) rpgp \<Rightarrow> ('sk, 'ek, 'sg, 'r) write_lib \<Rightarrow> ('sk generated_node_key, 'r) gen" where
  "generate_node_key_aead P W = generate_node_key_versioned P W KeyV6"

definition generate_node_hash_key ::
  "('sk, 'pub, 'ek, 'pk, 'sd, 'r) pgp_lib \<Rightarrow> ('sk, 'ek, 'sg, 'r) write_lib \<Rightarrow> 'sk private_key \<Rightarrow> (string, 'r) gen" where
  "generate_node_hash_key L W node_key =
     gen_bind (gen_draw (wl_random W 32)) (\<lambda>b.
       encrypt_and_sign L W (pk_key node_key) (Some node_key) b False False)"

section \<open>Volumes, shares and invitations\<close>

record volume_creation_material =
  vm_share_key_armored :: string
  vm_share_passphrase :: string
  vm_share_passphrase_signature :: string
  vm_folder_name :: string
  vm_folder_key_armored :: string
  vm_folder_passphrase :: string
  vm_folder_passphrase_signature :: string
  vm_folder_hash_key :: string

definition build_volume_creation_material ::
  "('sk, 'pub, 'sig, 'msg, 'ek, 'pk, 'sd, 'sg, 'r) crypto_env \<Rightarrow> 'sk private_key \<Rightarrow> string
     \<Rightarrow> (volume_creation_material, 'r) gen" where
  "build_volume_creation_material = (\<lambda>(P, L, W) address_key root_folder_name.
     gen_bind (generate_node_key P W) (\<lambda>share.
     gen_bind (generate_node_key P W) (\<lambda>folder.
     gen_bind (encrypt L W address_key (gk_passphrase share)) (\<lambda>share_passphrase.
     gen_bind (sign_detached W address_key (gk_passphrase share)) (\<lambda>share_signature.
     gen_bind (encrypt_and_sign L W (pk_key (gk_key share)) (Some address_key) (as_bytes root_folder_name) True False)
       (\<lambda>folder_name.
     gen_bind (encrypt L W (gk_key share) (gk_passphrase folder)) (\<lambda>folder_passphrase.
     gen_bind (sign_detached W address_key (gk_passphrase folder)) (\<lambda>folder_signature.
     gen_bind (gen_draw (wl_random W 32)) (\<lambda>hash_key.
     gen_bind (encrypt_and_sign L W (pk_key (gk_key folder)) (Some address_key) hash_key False False) (\<lambda>folder_hash_key.
       gen_of (Inr
         \<lparr>vm_share_key_armored = gk_locked_armored share, vm_share_passphrase = share_passphrase,
          vm_share_passphrase_signature = share_signature, vm_folder_name = folder_name,
          vm_folder_key_armored = gk_locked_armored folder, vm_folder_passphrase = folder_passphrase,
          vm_folder_passphrase_signature = folder_signature, vm_folder_hash_key = folder_hash_key\<rparr>)))))))))))"

record 'sk standard_share_material =
  sm_share_key_armored :: string
  sm_share_passphrase :: string
  sm_share_passphrase_signature :: string
  sm_passphrase_key_packet :: string
  sm_name_key_packet :: string
  sm_share_key :: "'sk private_key"
  sm_share_session_key :: content_key

definition build_standard_share_material ::
  "('sk, 'pub, 'sig, 'msg, 'ek, 'pk, 'sd, 'sg, 'r) crypto_env \<Rightarrow> 'sk private_key \<Rightarrow> content_key \<Rightarrow> content_key
     \<Rightarrow> 'sk private_key \<Rightarrow> ('sk standard_share_material, 'r) gen" where
  "build_standard_share_material = (\<lambda>(P, L, W) node_key passphrase_session_key name_session_key address_key.
     gen_bind (generate_node_key P W) (\<lambda>generated.
     gen_bind (gen_draw (ContentKey_generate L)) (\<lambda>share_session_key.
     gen_bind (encrypt_message_to L share_session_key [node_key, address_key] (gk_passphrase generated))
       (\<lambda>share_passphrase.
     gen_bind (sign_detached W address_key (gk_passphrase generated)) (\<lambda>share_signature.
     gen_bind (to_packet L passphrase_session_key (gk_key generated)) (\<lambda>pp.
     gen_bind (to_packet L name_session_key (gk_key generated)) (\<lambda>np.
       gen_of (Inr
         \<lparr>sm_share_key_armored = gk_locked_armored generated, sm_share_passphrase = share_passphrase,
          sm_share_passphrase_signature = share_signature,
          sm_passphrase_key_packet = wl_base64_encode W pp, sm_name_key_packet = wl_base64_encode W np,
          sm_share_key = gk_key generated, sm_share_session_key = share_session_key\<rparr>))))))))"

definition encrypt_invitation ::
  "('sk, 'pub, 'ek, 'pk, 'sd, 'r) pgp_lib \<Rightarrow> ('sk, 'ek, 'sg, 'r) write_lib \<Rightarrow> content_key \<Rightarrow> 'sk private_key
     \<Rightarrow> 'pub \<Rightarrow> (string \<times> string, 'r) gen" where
  "encrypt_invitation L W share_session_key inviter_key invitee =
     gen_bind (to_packet_for_public L share_session_key invitee) (\<lambda>kp.
     gen_bind (sign_detached_binary_with_context W inviter_key kp SHARING_INVITER_CONTEXT) (\<lambda>s.
       gen_of (Inr (wl_base64_encode W kp, wl_base64_encode W s))))"

fun find_map_ok :: "('a \<Rightarrow> 'e + 'b) \<Rightarrow> 'a list \<Rightarrow> 'b option" where
  "find_map_ok f [] = None"
| "find_map_ok f (x # xs) = (case f x of Inr y \<Rightarrow> Some y | Inl _ \<Rightarrow> find_map_ok f xs)"

definition accept_invitation ::
  "('sk, 'pub, 'ek, 'pk, 'sd, 'r) pgp_lib \<Rightarrow> ('sk, 'ek, 'sg, 'r) write_lib \<Rightarrow> string \<Rightarrow> 'sk private_key list
     \<Rightarrow> 'sk private_key \<Rightarrow> (string, 'r) gen" where
  "accept_invitation L W b64 invitee_keys signing_key =
     gen_bind (gen_of (map_err (prefixed Parse ''invitation key packet base64: '') (wl_base64_decode W b64))) (\<lambda>kp.
     gen_bind (gen_of (case find_map_ok (\<lambda>k. decrypt_content_key L k kp) invitee_keys of
                         Some ck \<Rightarrow> Inr ck
                       | None \<Rightarrow> Inl (Decrypt ''no invitee key could decrypt the invitation key packet''))) (\<lambda>ck.
     gen_bind (gen_of (export_key ck)) (\<lambda>key.
     gen_bind (sign_detached_binary_with_context W signing_key key SHARING_MEMBER_CONTEXT) (\<lambda>s.
       gen_of (Inr (wl_base64_encode W s))))))"

definition encrypt_external_invitation ::
  "('sk, 'ek, 'sg, 'r) write_lib \<Rightarrow> content_key \<Rightarrow> 'sk private_key \<Rightarrow> string \<Rightarrow> (string, 'r) gen" where
  "encrypt_external_invitation W share_session_key inviter_key invitee_email =
     gen_bind (gen_of (export_key share_session_key)) (\<lambda>key.
     gen_bind (sign_detached_binary_with_context W inviter_key
                 (as_bytes (invitee_email @ ''|'' @ wl_base64_encode W key)) SHARING_EXTERNAL_INVITATION_CONTEXT) (\<lambda>s.
       gen_of (Inr (wl_base64_encode W s))))"

section \<open>What the library promises\<close>

text \<open>
  A message encrypted to a key is read back with it; base64 decodes.  \<open>P\<close> is the reading
  half of the library.
\<close>

definition reads_own_messages ::
  "('sk, 'pub, 'sig, 'msg) rpgp \<Rightarrow> ('sk, 'pub, 'ek, 'pk, 'sd, 'r) pgp_lib \<Rightarrow> ('sk, 'ek, 'sg, 'r) write_lib
     \<Rightarrow> 'sk private_key \<Rightarrow> bool" where
  "reads_own_messages P L W k \<longleftrightarrow>
     (\<forall>lab ek signer data txt compress g s g'.
        select_target L (pg_secret_targets L (pk_key k)) = Some (lab, ek) \<longrightarrow>
        wl_encrypt_to W ek signer data txt compress g = (Inr s, g') \<longrightarrow>
        decrypt_armored_message P k s = Inr data)"

definition base64_works :: "('sk, 'ek, 'sg, 'r) write_lib \<Rightarrow> bool" where
  "base64_works W \<longleftrightarrow> (\<forall>b. wl_base64_decode W (wl_base64_encode W b) = Inr b)"

lemma encrypt_and_sign_reads:
  assumes "reads_own_messages P L W k" "encrypt_and_sign L W (pk_key k) signer data txt compress g = (Inr s, g')"
  shows "decrypt_armored_message P k s = Inr data"
proof -
  obtain lab ek where "select_target L (pg_secret_targets L (pk_key k)) = Some (lab, ek)"
    "wl_encrypt_to W ek signer data txt compress g = (Inr s, g')"
    using assms(2)
    by (cases "select_target L (pg_secret_targets L (pk_key k))")
       (auto simp: encrypt_and_sign_def recipient_encryption_key_def run_recipient_def gen_err_Inr)
  then show ?thesis using assms(1) unfolding reads_own_messages_def by blast
qed

lemma encrypt_reads:
  "reads_own_messages P L W k \<Longrightarrow> encrypt L W k data g = (Inr s, g') \<Longrightarrow> decrypt_armored_message P k s = Inr data"
  unfolding encrypt_def by (rule encrypt_and_sign_reads)

lemma generated_key_opens:
  "generate_node_key_versioned P W v g = (Inr gk, g') \<Longrightarrow>
     PrivateKey_from_armored P (gk_locked_armored gk) (gk_passphrase gk) = Inr (gk_key gk)"
  by (auto simp: generate_node_key_versioned_def gen_bind_Inr)

lemma make_signature_contextual:
  assumes "make_signature W signer data (Some ctx) g = (Inr s, g')" "\<And>p q. wl_subpacket W p = Inr q \<Longrightarrow> q = p"
  shows "\<exists>hashed unhashed. wl_sign W (pk_key signer) (pk_passphrase signer) hashed unhashed data = Inr s \<and>
     Critical (NotationData True SIGNATURE_CONTEXT_NOTATION (as_bytes ctx)) \<in> set hashed"
  using assms(1)
  by (auto simp: make_signature_def gen_bind_Inr hashed_subpackets_def sum_bind_Inr dest!: assms(2))

lemma find_map_ok_first:
  "find_map_ok f xs = Some y \<longleftrightarrow> (\<exists>pre x post. xs = pre @ x # post \<and> f x = Inr y \<and> (\<forall>z\<in>set pre. \<exists>e. f z = Inl e))"
proof (induction xs)
  case (Cons x xs)
  show ?case
  proof (cases "f x")
    case (Inl e)
    have "(\<exists>pre z post. x # xs = pre @ z # post \<and> f z = Inr y \<and> (\<forall>z\<in>set pre. \<exists>e. f z = Inl e)) \<longleftrightarrow>
        (\<exists>pre z post. xs = pre @ z # post \<and> f z = Inr y \<and> (\<forall>z\<in>set pre. \<exists>e. f z = Inl e))" (is "?l \<longleftrightarrow> ?r")
    proof
      assume ?l
      then obtain pre z post where p: "x # xs = pre @ z # post" "f z = Inr y" "\<forall>z\<in>set pre. \<exists>e. f z = Inl e" by blast
      then show ?r using Inl by (cases pre) auto
    next
      assume ?r
      then obtain pre z post where "xs = pre @ z # post" "f z = Inr y" "\<forall>z\<in>set pre. \<exists>e. f z = Inl e" by blast
      then show ?l using Inl by (intro exI [of _ "x # pre"] exI [of _ z] exI [of _ post]) auto
    qed
    then show ?thesis using Cons.IH Inl by simp
  next
    case (Inr b)
    have "b = y" if "x # xs = pre @ z # post" "f z = Inr y" "\<forall>z\<in>set pre. \<exists>e. f z = Inl e" for pre z post
      using that Inr by (cases pre) auto
    then show ?thesis using Inr by (auto intro!: exI [of _ "[]"])
  qed
qed simp

section \<open>Properties\<close>

text \<open>C14: An invitation round trip: accepting an invitation with the key it was made for signs
  exactly the share's session key, under the member context; keys tried before that cannot
  open the packet do not matter.\<close>

theorem invitation_round_trip:
  assumes "packets_work L" "base64_works W"
    and "select_target L (pg_public_targets L invitee) = Some (lab, ek)" "key_opens L ek k"
    and "encrypt_invitation L W ck inviter invitee g = (Inr (packet, signature), g')"
    and "\<And>k' kp. k' \<in> set pre \<Longrightarrow> wl_base64_decode W packet = Inr kp \<Longrightarrow> \<exists>e. decrypt_content_key L k' kp = Inl e"
  shows "accept_invitation L W packet (pre @ k # post) signing_key =
     gen_bind (gen_of (export_key ck)) (\<lambda>key.
     gen_bind (sign_detached_binary_with_context W signing_key key SHARING_MEMBER_CONTEXT) (\<lambda>s.
       gen_of (Inr (wl_base64_encode W s))))"
proof -
  obtain kp g1 where kp: "to_packet_for_public L ck invitee g = (Inr kp, g1)" "packet = wl_base64_encode W kp"
    using assms(5) by (auto simp: encrypt_invitation_def gen_bind_Inr)
  obtain alg key pk g2 where parts: "session_parts ck = Inr (alg, key)"
    and made: "content_key_packet_op L ck alg key ek g = (Inr pk, g2)"
    and wr: "pg_write L (PublicKeyEncryptedSessionKeyPacket pk) = Inr kp"
    using kp(1) assms(3)
    by (auto simp: to_packet_for_public_def gen_bind_Inr recipient_encryption_key_public_def run_recipient_def
        gen_err_Inr)
  have "opens_as L k pk (session_key ck)"
    by (rule content_key_packet_opens [OF assms(4) made parts])
  then have k: "decrypt_content_key L k kp = Inr ck"
    using decrypt_content_key_opens [OF assms(1) wr, of k _ "[]"] by simp
  have dec: "wl_base64_decode W packet = Inr kp" using assms(2) kp(2) by (simp add: base64_works_def)
  have "find_map_ok (\<lambda>k. decrypt_content_key L k kp) (pre @ k # post) = Some ck"
    unfolding find_map_ok_first using k assms(6) [OF _ dec] by blast
  then show ?thesis using dec by (simp add: accept_invitation_def)
qed

section \<open>An example library\<close>

text \<open>The writing half of the toy library: keys are named by their passphrase, drawn from a counter.\<close>

definition example_write_lib :: "(string, string, bytes, nat) write_lib" where
  "example_write_lib =
     \<lparr>wl_encrypt_to = (\<lambda>ek signer data txt compress g.
        (if CHR '':'' \<in> set ek then Inl ''recipient'' else Inr (ek @ '':'' @ map (\<lambda>x. char_of (unat x)) data), g)),
      wl_signature_config = (\<lambda>_ g. (Inr (), g)), wl_subpacket = Inr, wl_fingerprint = id, wl_key_id = id,
      wl_key_version = (\<lambda>_. KeyV4), wl_now = (\<lambda>g. (0, g)),
      wl_sign = (\<lambda>k _ _ _ data. Inr (as_bytes k @ data)),
      wl_armor_signature = (\<lambda>s. Inr (map (\<lambda>x. char_of (unat x)) s)), wl_signature_bytes = Inr,
      wl_subkey_params = Inr, wl_key_params = Inr,
      wl_generate = (\<lambda>ps g. (case kpa_passphrase ps of Some pw \<Rightarrow> Inr pw | None \<Rightarrow> Inl ''passphrase'', g)),
      wl_armor_key = Inr, wl_random = (\<lambda>n g. ([word_of_nat (65 + g)], Suc g)),
      wl_base64_encode = map (\<lambda>x. char_of (unat x)), wl_base64_decode = (\<lambda>s. Inr (as_bytes s))\<rparr>"

lemma as_bytes_char_of_unat: "as_bytes (map (\<lambda>x. char_of (unat x)) b) = b"
  unfolding as_bytes_def by (simp add: o_def of_char_char_of_unat)

lemma example_base64_works: "base64_works example_write_lib"
  by (simp add: base64_works_def example_write_lib_def as_bytes_char_of_unat)

lemma example_reads_own_messages: "reads_own_messages example_rpgp example_lib example_write_lib k"
  by (auto simp: reads_own_messages_def select_target_def example_lib_def example_write_lib_def example_rpgp_def
      decrypt_armored_message_def decrypt_armored_def split_once_append as_bytes_char_of_unat read_plaintext_def
      split: if_splits)

theorem invitation_round_trip_witness:
  "\<exists>packet signature. encrypt_invitation example_lib example_write_lib example_ck (ex_priv ''a'') ''b'' 0 =
       (Inr (packet, signature), 0) \<and>
     fst (accept_invitation example_lib example_write_lib packet [ex_priv ''b''] (ex_priv ''b'') 0) = Inr [CHR ''b'', CHR 0x07]"
proof -
  let ?run = "encrypt_invitation example_lib example_write_lib example_ck (ex_priv ''a'') ''b'' 0"
  have r: "(case ?run of (Inr _, g) \<Rightarrow> g = 0 | (Inl _, g) \<Rightarrow> False)" by code_simp
  obtain packet signature where e: "?run = (Inr (packet, signature), 0)"
    using r by (cases ?run) (auto split: sum.splits)
  have t: "select_target example_lib (pg_public_targets example_lib ''b'') = Some (''encrypt to primary key: '', ''b'')"
    by code_simp
  have o: "key_opens example_lib ''b'' (ex_priv ''b'')"
    by (simp add: key_opens_def opens_as_def example_lib_def ex_priv_def)
  have "fst (gen_bind (gen_of (export_key example_ck)) (\<lambda>key.
     gen_bind (sign_detached_binary_with_context example_write_lib (ex_priv ''b'') key SHARING_MEMBER_CONTEXT) (\<lambda>s.
       gen_of (Inr (wl_base64_encode example_write_lib s)))) 0) = Inr [CHR ''b'', CHR 0x07]" by code_simp
  then show ?thesis
    using e invitation_round_trip [OF example_lib_works example_base64_works t o e, of "[]" "[]" "ex_priv ''b''"] by simp
qed

end
