(* ===== verification/Effects.thy ===== *)
theory Effects
  imports Api
begin

text \<open>
  Fallible, stateful, possibly diverging calls.  An \<open>('a, 'w) op\<close> takes the state and
  gives \<open>None\<close> when it never returns, else its result and the new state: what an
  \<open>async fn\<close> returning \<open>Result\<close> does between two points of its caller.
  \<open>op_bind\<close> is the \<open>?\<close> operator in sequence.
\<close>

type_synonym ('a, 'w) op = "'w \<Rightarrow> ('a result \<times> 'w) option"

definition op_return :: "'a \<Rightarrow> ('a, 'w) op" where
  "op_return x = (\<lambda>w. Some (Inr x, w))"

definition op_fail :: "proton_error \<Rightarrow> ('a, 'w) op" where
  "op_fail e = (\<lambda>w. Some (Inl e, w))"

definition op_bind :: "('a, 'w) op \<Rightarrow> ('a \<Rightarrow> ('b, 'w) op) \<Rightarrow> ('b, 'w) op" where
  "op_bind m f = (\<lambda>w. Option.bind (m w) (\<lambda>(r, w1). case r of Inl e \<Rightarrow> Some (Inl e, w1) | Inr x \<Rightarrow> f x w1))"

definition op_then :: "('a, 'w) op \<Rightarrow> ('b, 'w) op \<Rightarrow> ('b, 'w) op" where
  "op_then m n = op_bind m (\<lambda>_. n)"

text \<open>A call that always returns, a value already computed, and an absent value.\<close>

definition op_call :: "('w \<Rightarrow> 'a result \<times> 'w) \<Rightarrow> ('a, 'w) op" where
  "op_call f = (\<lambda>w. Some (f w))"

definition op_of :: "'a result \<Rightarrow> ('a, 'w) op" where
  "op_of r = (\<lambda>w. Some (r, w))"

definition op_ok_or :: "proton_error \<Rightarrow> 'a option \<Rightarrow> ('a, 'w) op" where
  "op_ok_or e x = (case x of Some v \<Rightarrow> op_return v | None \<Rightarrow> op_fail e)"

text \<open>Reading and replacing the state.\<close>

definition op_get :: "('w \<Rightarrow> 'a) \<Rightarrow> ('a, 'w) op" where
  "op_get f = (\<lambda>w. Some (Inr (f w), w))"

definition op_modify :: "('w \<Rightarrow> 'w) \<Rightarrow> (unit, 'w) op" where
  "op_modify f = (\<lambda>w. Some (Inr (), f w))"

text \<open>\<open>match call.await\<close>: the outcome as a value.\<close>

definition op_try :: "('a, 'w) op \<Rightarrow> ('a result, 'w) op" where
  "op_try m = (\<lambda>w. map_option (\<lambda>(r, w1). (Inr r, w1)) (m w))"

fun op_map :: "('a \<Rightarrow> ('b, 'w) op) \<Rightarrow> 'a list \<Rightarrow> ('b list, 'w) op" where
  "op_map f [] = op_return []"
| "op_map f (x # xs) = op_bind (f x) (\<lambda>y. op_bind (op_map f xs) (\<lambda>ys. op_return (y # ys)))"

lemmas op_defs = op_return_def op_fail_def op_call_def op_of_def op_get_def op_modify_def op_then_def

lemma op_eval [simp]:
  "op_return x w = Some (Inr x, w)" "op_fail e w = Some (Inl e, w)" "op_call g w = Some (g w)"
  "op_of r w = Some (r, w)" "op_get h w = Some (Inr (h w), w)" "op_modify k w = Some (Inr (), k w)"
  by (simp_all add: op_defs)

lemma op_bind_eval:
  "m w = None \<Longrightarrow> op_bind m f w = None"
  "m w = Some (Inl e, w1) \<Longrightarrow> op_bind m f w = Some (Inl e, w1)"
  "m w = Some (Inr x, w1) \<Longrightarrow> op_bind m f w = f x w1"
  by (simp_all add: op_bind_def)

lemma op_bind_simps [simp]:
  "op_bind (op_return x) f = f x" "op_bind (op_fail e) f = op_fail e"
  "op_bind (op_of (Inr x)) f = f x" "op_bind (op_of (Inl e)) f = op_fail e"
  "op_bind (op_get h) f w = f (h w) w" "op_bind (op_modify k) g w = g () (k w)"
  "op_then (op_modify k) n w = n (k w)"
  by (auto simp: op_bind_def op_defs)

lemma op_ok_or_simps [simp]:
  "op_ok_or e (Some v) = op_return v" "op_ok_or e None = op_fail e"
  by (simp_all add: op_ok_or_def)

lemma op_bind_assoc: "op_bind (op_bind m f) g = op_bind m (\<lambda>x. op_bind (f x) g)"
  by (rule ext) (simp add: op_bind_def split: option.splits sum.splits prod.splits Option.bind_splits)

lemma op_bind_return: "op_bind m op_return = m"
  by (rule ext) (auto simp: op_bind_def op_defs split: option.splits sum.splits Option.bind_splits)

text \<open>Inversion of a sequence by its outcome.\<close>

lemma op_bind_Inr:
  "op_bind m f w = Some (Inr y, w') \<longleftrightarrow>
     (\<exists>x w1. m w = Some (Inr x, w1) \<and> f x w1 = Some (Inr y, w'))"
  by (auto simp: op_bind_def split: sum.splits Option.bind_splits)

lemma op_bind_Inl:
  "op_bind m f w = Some (Inl e, w') \<longleftrightarrow>
     m w = Some (Inl e, w') \<or> (\<exists>x w1. m w = Some (Inr x, w1) \<and> f x w1 = Some (Inl e, w'))"
  by (auto simp: op_bind_def split: sum.splits Option.bind_splits)

lemma op_bind_None:
  "op_bind m f w = None \<longleftrightarrow> m w = None \<or> (\<exists>x w1. m w = Some (Inr x, w1) \<and> f x w1 = None)"
  by (auto simp: op_bind_def split: sum.splits Option.bind_splits)

lemma op_ok_or_Inr [simp]: "op_ok_or e x w = Some (Inr y, w') \<longleftrightarrow> x = Some y \<and> w' = w"
  by (cases x) auto

lemma op_try_Some:
  "op_try m w = Some (r, w') \<longleftrightarrow> (\<exists>q. r = Inr q \<and> m w = Some (q, w'))"
  by (cases "m w") (auto simp: op_try_def)

lemma op_try_eval: "m w = Some (q, w') \<Longrightarrow> op_try m w = Some (Inr q, w')"
  by (simp add: op_try_def)

lemma op_map_Inr:
  "op_map f xs w = Some (Inr ys, w') \<Longrightarrow> length ys = length xs"
  by (induction xs arbitrary: w ys) (auto simp: op_bind_Inr)

text \<open>A call that succeeds with a result and state that satisfy a predicate; it computes.\<close>

definition op_gives :: "('a, 'w) op \<Rightarrow> ('a \<Rightarrow> 'w \<Rightarrow> bool) \<Rightarrow> 'w \<Rightarrow> bool" where
  "op_gives m Q w = (case m w of Some (Inr x, w') \<Rightarrow> Q x w' | _ \<Rightarrow> False)"

lemma op_gives_iff: "op_gives m Q w \<longleftrightarrow> (\<exists>x w'. m w = Some (Inr x, w') \<and> Q x w')"
  unfolding op_gives_def by (auto split: option.splits sum.splits)

text \<open>
  A predicate of the state that a call keeps, whatever its outcome; the collection has the
  rules that follow the structure of a call.
\<close>

named_theorems keeps \<open>preservation of a state predicate by a call\<close>

definition op_keeps :: "('w \<Rightarrow> bool) \<Rightarrow> ('a, 'w) op \<Rightarrow> bool" where
  "op_keeps I m \<longleftrightarrow> (\<forall>w r w'. I w \<longrightarrow> m w = Some (r, w') \<longrightarrow> I w')"

lemma op_keepsD: "op_keeps I m \<Longrightarrow> I w \<Longrightarrow> m w = Some (r, w') \<Longrightarrow> I w'"
  unfolding op_keeps_def by blast

lemma op_keeps_pure [keeps]:
  "op_keeps I (op_return x)" "op_keeps I (op_fail e)" "op_keeps I (op_of r)" "op_keeps I (op_get h)"
  "op_keeps I (op_ok_or e v)"
  unfolding op_keeps_def by (auto simp: op_ok_or_def split: option.splits)

lemma op_keeps_modify [keeps]: "(\<And>w. I w \<Longrightarrow> I (f w)) \<Longrightarrow> op_keeps I (op_modify f)"
  unfolding op_keeps_def by auto

lemma op_keeps_call [keeps]: "(\<And>w. I w \<Longrightarrow> I (snd (f w))) \<Longrightarrow> op_keeps I (op_call f)"
  unfolding op_keeps_def by (metis op_eval(3) option.inject snd_conv)

lemma op_keeps_bind [keeps]:
  assumes m: "op_keeps I m" and f: "\<And>x. op_keeps I (f x)"
  shows "op_keeps I (op_bind m f)"
  unfolding op_keeps_def
proof (intro allI impI)
  fix w r w'
  assume w: "I w" and run: "op_bind m f w = Some (r, w')"
  then obtain q w1 where q: "m w = Some (q, w1)" by (cases "m w") (auto simp: op_bind_def)
  have w1: "I w1" using m w q unfolding op_keeps_def by blast
  show "I w'"
  proof (cases q)
    case (Inr x)
    then show ?thesis using run q w1 f [of x] unfolding op_keeps_def by (simp add: op_bind_def)
  qed (use run q w1 in \<open>simp add: op_bind_def\<close>)
qed

text \<open>The continuation may rely on more than the predicate, when the first call establishes it.\<close>

lemma op_keeps_bind_from:
  assumes m: "op_keeps I m" and f: "\<And>x. op_keeps J (f x)"
    and est: "\<And>w x w'. I w \<Longrightarrow> m w = Some (Inr x, w') \<Longrightarrow> J w'" and weak: "\<And>w. J w \<Longrightarrow> I w"
  shows "op_keeps I (op_bind m f)"
  unfolding op_keeps_def
proof (intro allI impI)
  fix w r w'
  assume w: "I w" and run: "op_bind m f w = Some (r, w')"
  then obtain q w1 where q: "m w = Some (q, w1)" by (cases "m w") (auto simp: op_bind_def)
  show "I w'"
  proof (cases q)
    case (Inl e)
    then show ?thesis using run q op_keepsD [OF m w q] by (simp add: op_bind_def)
  next
    case (Inr x)
    have "f x w1 = Some (r, w')" using run q Inr by (simp add: op_bind_def)
    then show ?thesis using op_keepsD [OF f] est [OF w] q Inr weak by blast
  qed
qed

text \<open>The continuation may rely on what the first call says of its result.\<close>

lemma op_keeps_bind_post:
  assumes m: "op_keeps I m" and post: "\<And>w x w'. m w = Some (Inr x, w') \<Longrightarrow> Q x"
    and f: "\<And>x. Q x \<Longrightarrow> op_keeps I (f x)"
  shows "op_keeps I (op_bind m f)"
  unfolding op_keeps_def
proof (intro allI impI)
  fix w r w'
  assume w: "I w" and run: "op_bind m f w = Some (r, w')"
  then obtain q w1 where q: "m w = Some (q, w1)" by (cases "m w") (auto simp: op_bind_def)
  show "I w'"
  proof (cases q)
    case (Inl e)
    then show ?thesis using run q op_keepsD [OF m w q] by (simp add: op_bind_def)
  next
    case (Inr x)
    have "f x w1 = Some (r, w')" using run q Inr by (simp add: op_bind_def)
    then show ?thesis using op_keepsD [OF f] post [OF q [unfolded Inr]] op_keepsD [OF m w q] by blast
  qed
qed

lemma op_keeps_then [keeps]: "op_keeps I m \<Longrightarrow> op_keeps I n \<Longrightarrow> op_keeps I (op_then m n)"
  unfolding op_then_def by (intro keeps)

lemma op_keeps_try [keeps]: "op_keeps I m \<Longrightarrow> op_keeps I (op_try m)"
  unfolding op_keeps_def by (auto simp: op_try_Some)

lemma op_keeps_if [keeps]: "op_keeps I m \<Longrightarrow> op_keeps I n \<Longrightarrow> op_keeps I (if b then m else n)"
  by simp

lemma op_keeps_map [keeps]: "(\<And>x. op_keeps I (f x)) \<Longrightarrow> op_keeps I (op_map f xs)"
  by (induction xs) (auto intro!: keeps)

text \<open>
  Total correctness: the call returns, and its outcome and state satisfy a predicate.  The
  equations push the predicate through the structure of a call.
\<close>

named_theorems wp \<open>total correctness of calls\<close>

definition op_wp :: "('a, 'w) op \<Rightarrow> ('a result \<Rightarrow> 'w \<Rightarrow> bool) \<Rightarrow> 'w \<Rightarrow> bool" where
  "op_wp m Q w = (case m w of Some (r, w') \<Rightarrow> Q r w' | None \<Rightarrow> False)"

lemma op_wp_iff: "op_wp m Q w \<longleftrightarrow> (\<exists>r w'. m w = Some (r, w') \<and> Q r w')"
  unfolding op_wp_def by (auto split: option.splits)

lemma op_wp_pure [wp]:
  "op_wp (op_return x) Q w = Q (Inr x) w" "op_wp (op_fail e) Q w = Q (Inl e) w" "op_wp (op_of r) Q w = Q r w"
  "op_wp (op_get h) Q w = Q (Inr (h w)) w" "op_wp (op_modify k) R w = R (Inr ()) (k w)"
  by (simp_all add: op_wp_def)

lemma op_wp_bind [wp]:
  "op_wp (op_bind m f) Q w = op_wp m (\<lambda>r w1. case r of Inl e \<Rightarrow> Q (Inl e) w1 | Inr x \<Rightarrow> op_wp (f x) Q w1) w"
  by (cases "m w") (auto simp: op_wp_def op_bind_def split: sum.splits)

lemma op_wp_then [wp]:
  "op_wp (op_then m n) Q w = op_wp m (\<lambda>r w1. case r of Inl e \<Rightarrow> Q (Inl e) w1 | Inr _ \<Rightarrow> op_wp n Q w1) w"
  unfolding op_then_def by (simp add: wp)

lemma op_wp_try [wp]: "op_wp (op_try m) Q w = op_wp m (\<lambda>r. Q (Inr r)) w"
  by (cases "m w") (auto simp: op_wp_def op_try_def)

lemma op_wp_mono:
  "op_wp m Q w \<Longrightarrow> (\<And>r w'. m w = Some (r, w') \<Longrightarrow> Q r w' \<Longrightarrow> R r w') \<Longrightarrow> op_wp m R w"
  unfolding op_wp_iff by blast

text \<open>A call that always returns on the states of a predicate, and stays in it.\<close>

definition op_returns :: "('w \<Rightarrow> bool) \<Rightarrow> ('a, 'w) op \<Rightarrow> bool" where
  "op_returns P m \<longleftrightarrow> (\<forall>w. P w \<longrightarrow> op_wp m (\<lambda>_. P) w)"

lemma op_returns_wp:
  "op_returns P m \<Longrightarrow> P w \<Longrightarrow> (\<And>r w'. m w = Some (r, w') \<Longrightarrow> P w' \<Longrightarrow> Q r w') \<Longrightarrow> op_wp m Q w"
  unfolding op_returns_def op_wp_iff by blast

text \<open>Loops written with \<open>op_bind\<close> may be \<open>partial_function (option)\<close>.\<close>

lemma op_bind_mono [partial_function_mono]:
  assumes m: "\<And>w. mono_option (\<lambda>F. m F w)" and f: "\<And>x w. mono_option (\<lambda>F. f F x w)"
  shows "mono_option (\<lambda>F. op_bind (m F) (f F) w)"
proof -
  have "mono_option (\<lambda>F. case r of Inl e \<Rightarrow> Some (Inl e, w1) | Inr x \<Rightarrow> f F x w1)" for r w1
    by (cases r) (auto intro: f option.const_mono)
  then have "mono_option (\<lambda>F. (\<lambda>(r, w1). case r of Inl e \<Rightarrow> Some (Inl e, w1) | Inr x \<Rightarrow> f F x w1) p)" for p
    by (cases p) simp
  from bind_mono [OF m this] show ?thesis unfolding op_bind_def .
qed

lemma op_try_mono [partial_function_mono]:
  assumes m: "\<And>w. mono_option (\<lambda>F. m F w)"
  shows "mono_option (\<lambda>F. op_try (m F) w)"
proof -
  have "op_try (m F) w = Option.bind (m F w) (\<lambda>(r, w1). Some (Inr r, w1))" for F
    by (cases "m F w") (auto simp: op_try_def)
  then show ?thesis by (auto intro!: bind_mono [OF m] option.const_mono)
qed

end
