(* ===== verification/Account.thy ===== *)
theory Account
  imports Pgp Effects "HOL-Library.Multiset" "HOL-Library.AList" "HOL-Library.Char_ord" "HOL-Library.List_Lexorder"
begin

text \<open>
  The account client (\<open>proton-sdk/src/account.rs\<close>, \<open>account/dtos.rs\<close>,
  \<open>account/passphrases.rs\<close>, \<open>account/report.rs\<close>): the chain from the mailbox password
  over key passphrases and user keys to address keys, with the caches it fills, the public
  keys of other addresses, and the report on the chain.  The server's endpoints, bcrypt,
  base64 and the OpenPGP library are arguments; the state is the cache and the server.
\<close>

section \<open>Key passphrases\<close>

text \<open>A hash map, as its entries in iteration order; no key occurs twice.\<close>

type_synonym key_passphrases = "(string \<times> bytes) list"

definition kp_insert :: "string \<Rightarrow> bytes \<Rightarrow> key_passphrases \<Rightarrow> key_passphrases" where
  "kp_insert key_id passphrase kp = AList.update key_id passphrase kp"

definition kp_get :: "key_passphrases \<Rightarrow> string \<Rightarrow> bytes option" where
  "kp_get kp key_id = map_of kp key_id"

definition kp_from_iter :: "(string \<times> bytes) list \<Rightarrow> key_passphrases" where
  "kp_from_iter xs = fold (\<lambda>(key_id, passphrase). kp_insert key_id passphrase) xs []"

definition kp_eq :: "key_passphrases \<Rightarrow> key_passphrases \<Rightarrow> bool" where
  "kp_eq a b \<longleftrightarrow> length a = length b \<and> list_all (\<lambda>(key_id, p). kp_get b key_id = Some p) a"

definition kp_debug :: "key_passphrases \<Rightarrow> string" where
  "kp_debug kp = ''KeyPassphrases('' @ nat_to_string (length kp) @ '' redacted)''"

fun be_bytes :: "nat \<Rightarrow> nat \<Rightarrow> bytes" where
  "be_bytes 0 n = []"
| "be_bytes (Suc k) n = be_bytes k (n div 256) @ [word_of_nat (n mod 256)]"

definition to_be_bytes :: "u64 \<Rightarrow> bytes" where
  "to_be_bytes w = be_bytes 8 (unat w)"

definition entry_material :: "string \<times> bytes \<Rightarrow> bytes" where
  "entry_material e =
     to_be_bytes (word_of_nat (length (fst e))) @ as_bytes (fst e) @
     to_be_bytes (word_of_nat (length (snd e))) @ snd e"

definition secret_material :: "key_passphrases \<Rightarrow> bytes" where
  "secret_material kp = concat (map entry_material (sort_by_key fst kp))"

definition derive_secret :: "(bytes \<Rightarrow> bytes \<Rightarrow> bytes \<Rightarrow> bytes) \<Rightarrow> key_passphrases \<Rightarrow> bytes \<Rightarrow> bytes" where
  "derive_secret hkdf kp purpose =
     hkdf (as_bytes ''proton-sdk.KeyPassphrases.derive_secret'') (secret_material kp) purpose"

section \<open>Wire types\<close>

datatype user_key_id = UserKeyId (user_key_id_str: string)
datatype address_key_id = AddressKeyId (address_key_id_str: string)

record user_key_dto =
  uk_id :: user_key_id
  uk_private_key :: string
  uk_primary :: int
  uk_active :: int

definition UserKeyDto_is_active :: "user_key_dto \<Rightarrow> bool" where
  "UserKeyDto_is_active k \<longleftrightarrow> uk_active k \<noteq> 0"

record user_dto =
  us_id :: string
  us_max_space :: u64
  us_used_space :: u64
  us_keys :: "user_key_dto list"

record address_key_dto =
  ak_id :: address_key_id
  ak_private_key :: string
  ak_token :: "string option"
  ak_signature :: "string option"
  ak_primary :: int
  ak_active :: int

definition AddressKeyDto_is_active :: "address_key_dto \<Rightarrow> bool" where
  "AddressKeyDto_is_active k \<longleftrightarrow> ak_active k \<noteq> 0"

definition AddressKeyDto_is_primary :: "address_key_dto \<Rightarrow> bool" where
  "AddressKeyDto_is_primary k \<longleftrightarrow> ak_primary k \<noteq> 0"

record address_dto =
  ad_id :: address_id
  ad_email :: string
  ad_status :: int
  ad_order :: int
  ad_keys :: "address_key_dto list"

record key_salt =
  ks_key_id :: string
  ks_value :: "string option"

record public_key_entry =
  pke_flags :: u32
  pke_public_key :: string

definition is_not_compromised :: "public_key_entry \<Rightarrow> bool" where
  "is_not_compromised e \<longleftrightarrow> bit (pke_flags e) 0"

record address =
  adr_id :: address_id
  adr_email :: string
  adr_order :: int
  adr_status :: int
  adr_primary_key_index :: nat
  adr_primary_key_id :: address_key_id

text \<open>The space fields are \<open>i64\<close>; their difference wraps.\<close>

record quota =
  q_max_space :: u64
  q_used_space :: u64

definition Quota_available :: "quota \<Rightarrow> int" where
  "Quota_available q = max (sint (q_max_space q - q_used_space q)) 0"

section \<open>The client\<close>

record ('sk, 'pub, 'sig, 'msg, 'w) account_env =
  ae_rpgp :: "('sk, 'pub, 'sig, 'msg) rpgp"
  ae_bcrypt :: "bytes \<Rightarrow> nat \<Rightarrow> bytes \<Rightarrow> string + string"
  ae_base64 :: "string \<Rightarrow> string + bytes"
  ae_mailbox_password :: bytes
  ae_get_salts :: "string \<Rightarrow> 'w \<Rightarrow> key_salt list result \<times> 'w"
  ae_get_user :: "string \<Rightarrow> 'w \<Rightarrow> user_dto result \<times> 'w"
  ae_get_addresses :: "string \<Rightarrow> 'w \<Rightarrow> address_dto list result \<times> 'w"
  ae_get_public_keys :: "string \<Rightarrow> 'w \<Rightarrow> public_key_entry list result \<times> 'w"

record ('sk, 'pub, 'w) account =
  ac_key_salts :: "key_salt list option"
  ac_key_passphrases :: "key_passphrases option"
  ac_user_keys :: "'sk private_key list option"
  ac_token_keys :: "'sk private_key list option"
  ac_addresses :: "address list option"
  ac_address_keys :: "address_id \<rightharpoonup> 'sk private_key list"
  ac_failed_addresses :: "address_id \<rightharpoonup> string"
  ac_default_failed :: "string option"
  ac_public_keys :: "string \<rightharpoonup> 'pub list"
  ac_world :: 'w

definition AccountClient_new :: "'w \<Rightarrow> ('sk, 'pub, 'w) account" where
  "AccountClient_new w =
     \<lparr>ac_key_salts = None, ac_key_passphrases = None, ac_user_keys = None, ac_token_keys = None,
      ac_addresses = None, ac_address_keys = Map.empty, ac_failed_addresses = Map.empty,
      ac_default_failed = None, ac_public_keys = Map.empty, ac_world = w\<rparr>"

definition with_key_salts :: "key_salt list \<Rightarrow> 'w \<Rightarrow> ('sk, 'pub, 'w) account" where
  "with_key_salts salts w = (AccountClient_new w)\<lparr>ac_key_salts := Some salts\<rparr>"

definition with_key_passphrases :: "key_passphrases \<Rightarrow> 'w \<Rightarrow> ('sk, 'pub, 'w) account" where
  "with_key_passphrases kp w = (AccountClient_new w)\<lparr>ac_key_passphrases := Some kp\<rparr>"

definition account_get ::
  "(string \<Rightarrow> 'w \<Rightarrow> 'a result \<times> 'w) \<Rightarrow> string \<Rightarrow> ('a, ('sk, 'pub, 'w) account) op" where
  "account_get f path = op_call (\<lambda>acc. case f path (ac_world acc) of (r, w) \<Rightarrow> (r, acc\<lparr>ac_world := w\<rparr>))"

text \<open>A cached field, else what the load gives.\<close>

definition cached_or :: "('w \<Rightarrow> 'a option) \<Rightarrow> ('a, 'w) op \<Rightarrow> ('a, 'w) op" where
  "cached_or field load = (\<lambda>acc. case field acc of Some x \<Rightarrow> Some (Inr x, acc) | None \<Rightarrow> load acc)"

definition key_salts ::
  "('sk, 'pub, 'sig, 'msg, 'w) account_env \<Rightarrow> (key_salt list, ('sk, 'pub, 'w) account) op" where
  "key_salts E =
     cached_or ac_key_salts
       (op_bind (account_get (ae_get_salts E) ''core/v4/keys/salts'') (\<lambda>salts.
        op_then (op_modify (\<lambda>acc. acc\<lparr>ac_key_salts := Some salts\<rparr>)) (op_return salts)))"

definition decode_base64_salt :: "('sk, 'pub, 'sig, 'msg, 'w) account_env \<Rightarrow> string \<Rightarrow> bytes result" where
  "decode_base64_salt E v =
     map_sum (\<lambda>e. InvalidOperation (''invalid base64 salt: '' @ e)) id (ae_base64 E v)"

fun derive_passphrases ::
  "('sk, 'pub, 'sig, 'msg, 'w) account_env \<Rightarrow> key_salt list \<Rightarrow> key_passphrases \<Rightarrow> key_passphrases result" where
  "derive_passphrases E [] kp = Inr kp"
| "derive_passphrases E (salt # salts) kp =
     (case ks_value salt of
        None \<Rightarrow> derive_passphrases E salts kp
      | Some b64 \<Rightarrow>
          if b64 = [] then derive_passphrases E salts kp
          else
            (case decode_base64_salt E b64 of
               Inl e \<Rightarrow> Inl e
             | Inr salt_bytes \<Rightarrow>
                 (case from_crypto (derive_key_passphrase (ae_bcrypt E) (ae_mailbox_password E) salt_bytes) of
                    Inl e \<Rightarrow> Inl e
                  | Inr p \<Rightarrow> derive_passphrases E salts (kp_insert (ks_key_id salt) p kp))))"

definition key_passphrases ::
  "('sk, 'pub, 'sig, 'msg, 'w) account_env \<Rightarrow> (key_passphrases, ('sk, 'pub, 'w) account) op" where
  "key_passphrases E =
     cached_or ac_key_passphrases
       (op_bind (key_salts E) (\<lambda>salts.
        op_bind (op_of (derive_passphrases E salts [])) (\<lambda>kp.
        op_then (op_modify (\<lambda>acc. acc\<lparr>ac_key_passphrases := Some kp\<rparr>)) (op_return kp))))"

text \<open>One pass over the user keys: those that open, active and inactive apart.\<close>

fun open_user_keys ::
  "('sk, 'pub, 'sig, 'msg) rpgp \<Rightarrow> key_passphrases \<Rightarrow> user_key_dto list
     \<Rightarrow> 'sk private_key list \<times> 'sk private_key list" where
  "open_user_keys P kp [] = ([], [])"
| "open_user_keys P kp (dto # dtos) =
     (let (keys, inactive) = open_user_keys P kp dtos in
      case kp_get kp (user_key_id_str (uk_id dto)) of
        None \<Rightarrow> (keys, inactive)
      | Some passphrase \<Rightarrow>
          (case PrivateKey_from_armored P (uk_private_key dto) passphrase of
             Inl _ \<Rightarrow> (keys, inactive)
           | Inr key \<Rightarrow>
               if UserKeyDto_is_active dto then (key # keys, inactive) else (keys, key # inactive)))"

definition user_keys ::
  "('sk, 'pub, 'sig, 'msg, 'w) account_env \<Rightarrow> ('sk private_key list, ('sk, 'pub, 'w) account) op" where
  "user_keys E =
     cached_or ac_user_keys
       (op_bind (key_passphrases E) (\<lambda>kp.
        op_bind (account_get (ae_get_user E) ''core/v4/users'') (\<lambda>user.
        let (keys, inactive) = open_user_keys (ae_rpgp E) kp (us_keys user) in
        if keys = [] then
          op_fail (if list_ex UserKeyDto_is_active (us_keys user) then KeysLocked
                   else InvalidOperation ''the account has no active user key'')
        else
          op_then (op_modify (\<lambda>acc. acc\<lparr>ac_token_keys := Some (keys @ inactive), ac_user_keys := Some keys\<rparr>))
            (op_return keys))))"

definition token_keys ::
  "('sk, 'pub, 'sig, 'msg, 'w) account_env \<Rightarrow> ('sk private_key list, ('sk, 'pub, 'w) account) op" where
  "token_keys E =
     op_then (user_keys E) (op_get (\<lambda>acc. case ac_token_keys acc of Some ks \<Rightarrow> ks | None \<Rightarrow> []))"

definition unlock :: "('sk, 'pub, 'sig, 'msg, 'w) account_env \<Rightarrow> (unit, ('sk, 'pub, 'w) account) op" where
  "unlock E = op_then (user_keys E) (op_return ())"

definition quota_op :: "('sk, 'pub, 'sig, 'msg, 'w) account_env \<Rightarrow> (quota, ('sk, 'pub, 'w) account) op" where
  "quota_op E =
     op_bind (account_get (ae_get_user E) ''core/v4/users'') (\<lambda>user.
       op_return \<lparr>q_max_space = us_max_space user, q_used_space = us_used_space user\<rparr>)"

section \<open>Addresses\<close>

text \<open>The passphrase of an address key: from its token, else derived from the password.\<close>

definition address_key_passphrase ::
  "('sk, 'pub, 'sig, 'msg) rpgp \<Rightarrow> 'sk private_key list \<Rightarrow> key_passphrases \<Rightarrow> address_key_dto
     \<Rightarrow> string + bytes" where
  "address_key_passphrase P tks kp dto =
     (case (ak_token dto, ak_signature dto) of
        (Some token, Some _) \<Rightarrow>
          map_err (\<lambda>e. ''token: '' @ CryptoError_display e) (decrypt_armored_with_keys P token tks)
      | _ \<Rightarrow> (case kp_get kp (address_key_id_str (ak_id dto)) of
                Some p \<Rightarrow> Inr p
              | None \<Rightarrow> Inl ''no passphrase for this key''))"

definition open_address_key ::
  "('sk, 'pub, 'sig, 'msg) rpgp \<Rightarrow> 'sk private_key list \<Rightarrow> key_passphrases \<Rightarrow> address_key_dto
     \<Rightarrow> string + 'sk private_key" where
  "open_address_key P tks kp dto =
     sum_bind (address_key_passphrase P tks kp dto) (\<lambda>p.
       map_err CryptoError_display (PrivateKey_from_armored P (ak_private_key dto) p))"

fun address_keys_loop ::
  "('sk, 'pub, 'sig, 'msg) rpgp \<Rightarrow> 'sk private_key list \<Rightarrow> key_passphrases \<Rightarrow> address_key_dto list
     \<Rightarrow> 'sk private_key list \<Rightarrow> (nat \<times> address_key_id) option
     \<Rightarrow> 'sk private_key list \<times> (nat \<times> address_key_id) option" where
  "address_keys_loop P tks kp [] keys primary = (keys, primary)"
| "address_keys_loop P tks kp (dto # dtos) keys primary =
     (if \<not> AddressKeyDto_is_active dto then address_keys_loop P tks kp dtos keys primary
      else
        (case open_address_key P tks kp dto of
           Inl _ \<Rightarrow> address_keys_loop P tks kp dtos keys primary
         | Inr key \<Rightarrow>
             address_keys_loop P tks kp dtos (keys @ [key])
               (if AddressKeyDto_is_primary dto \<and> primary = None then Some (length keys, ak_id dto)
                else primary)))"

definition open_address ::
  "('sk, 'pub, 'sig, 'msg) rpgp \<Rightarrow> 'sk private_key list \<Rightarrow> key_passphrases \<Rightarrow> address_dto
     \<Rightarrow> (address \<times> 'sk private_key list) result" where
  "open_address P tks kp dto =
     (case address_keys_loop P tks kp (ad_keys dto) [] None of
        (keys, None) \<Rightarrow>
          Inl (InvalidOperation (''address '' @ address_id_str (ad_id dto) @ '' has no primary key''))
      | (keys, Some (i, kid)) \<Rightarrow>
          Inr (\<lparr>adr_id = ad_id dto, adr_email = ad_email dto, adr_order = ad_order dto,
                adr_status = ad_status dto, adr_primary_key_index = i, adr_primary_key_id = kid\<rparr>, keys))"

definition decrypt_address ::
  "('sk, 'pub, 'sig, 'msg, 'w) account_env \<Rightarrow> address_dto
     \<Rightarrow> (address \<times> 'sk private_key list, ('sk, 'pub, 'w) account) op" where
  "decrypt_address E dto =
     op_bind (token_keys E) (\<lambda>ks. op_bind (key_passphrases E) (\<lambda>kp.
       op_of (open_address (ae_rpgp E) ks kp dto)))"

text \<open>
  The loop over the addresses: those that open with their keys cached, the reasons of those
  that do not, the first reason.
\<close>

record address_scan =
  sc_addresses :: "address list"
  sc_failed :: "address_id \<rightharpoonup> string"
  sc_first_error :: "string option"

fun scan_addresses ::
  "('sk, 'pub, 'sig, 'msg, 'w) account_env \<Rightarrow> address_dto list \<Rightarrow> address_scan
     \<Rightarrow> (address_scan, ('sk, 'pub, 'w) account) op" where
  "scan_addresses E [] sc = op_return sc"
| "scan_addresses E (dto # dtos) sc =
     op_bind (op_try (decrypt_address E dto)) (\<lambda>r.
       case r of
         Inr (address, keys) \<Rightarrow>
           op_then (op_modify (\<lambda>acc. acc\<lparr>ac_address_keys := (ac_address_keys acc)(adr_id address \<mapsto> keys)\<rparr>))
             (scan_addresses E dtos (sc\<lparr>sc_addresses := sc_addresses sc @ [address]\<rparr>))
       | Inl (InvalidOperation reason) \<Rightarrow>
           scan_addresses E dtos
             (sc\<lparr>sc_failed := (sc_failed sc)(ad_id dto \<mapsto> reason),
                 sc_first_error := (case sc_first_error sc of None \<Rightarrow> Some reason | Some e \<Rightarrow> Some e)\<rparr>)
       | Inl e \<Rightarrow> op_fail e)"

fun min_by_key :: "('a \<Rightarrow> int) \<Rightarrow> 'a list \<Rightarrow> 'a option" where
  "min_by_key f [] = None"
| "min_by_key f (x # xs) =
     (case min_by_key f xs of None \<Rightarrow> Some x | Some y \<Rightarrow> Some (if f x \<le> f y then x else y))"

definition addresses ::
  "('sk, 'pub, 'sig, 'msg, 'w) account_env \<Rightarrow> (address list, ('sk, 'pub, 'w) account) op" where
  "addresses E =
     cached_or ac_addresses
       (op_then (user_keys E)
        (op_bind (account_get (ae_get_addresses E) ''core/v4/addresses'') (\<lambda>dtos.
         op_bind (scan_addresses E dtos \<lparr>sc_addresses = [], sc_failed = Map.empty, sc_first_error = None\<rparr>) (\<lambda>sc.
         if sc_addresses sc = [] \<and> sc_first_error sc \<noteq> None then
           op_fail (InvalidOperation (the (sc_first_error sc)))
         else
           (let sorted = sort_by_key adr_order (sc_addresses sc);
                default_failed = Option.bind (min_by_key ad_order dtos) (\<lambda>dto. sc_failed sc (ad_id dto)) in
            op_then (op_modify (\<lambda>acc. acc\<lparr>ac_failed_addresses := sc_failed sc,
                                          ac_default_failed := default_failed,
                                          ac_addresses := Some sorted\<rparr>))
              (op_return sorted))))))"

definition find_address :: "address_id \<Rightarrow> address list \<Rightarrow> address option" where
  "find_address aid as = List.find (\<lambda>a. adr_id a = aid) as"

definition address_op ::
  "('sk, 'pub, 'sig, 'msg, 'w) account_env \<Rightarrow> address_id \<Rightarrow> (address, ('sk, 'pub, 'w) account) op" where
  "address_op E aid =
     op_bind (addresses E) (\<lambda>as.
       case find_address aid as of
         Some a \<Rightarrow> op_return a
       | None \<Rightarrow>
           op_bind (op_get (\<lambda>acc. ac_failed_addresses acc aid)) (\<lambda>failed.
             op_fail (InvalidOperation (case failed of
                Some reason \<Rightarrow> reason | None \<Rightarrow> ''no address '' @ address_id_str aid))))"

definition default_address ::
  "('sk, 'pub, 'sig, 'msg, 'w) account_env \<Rightarrow> (address, ('sk, 'pub, 'w) account) op" where
  "default_address E =
     op_bind (addresses E) (\<lambda>as.
     op_bind (op_get ac_default_failed) (\<lambda>failed.
       case failed of
         Some reason \<Rightarrow> op_fail (InvalidOperation reason)
       | None \<Rightarrow> op_ok_or (InvalidOperation ''user has no address'')
                   (case as of [] \<Rightarrow> None | a # _ \<Rightarrow> Some a)))"

definition address_private_keys ::
  "('sk, 'pub, 'sig, 'msg, 'w) account_env \<Rightarrow> address_id
     \<Rightarrow> ('sk private_key list, ('sk, 'pub, 'w) account) op" where
  "address_private_keys E aid =
     cached_or (\<lambda>acc. ac_address_keys acc aid)
       (op_then (addresses E)
        (op_bind (op_get id) (\<lambda>acc.
           case ac_address_keys acc aid of
             Some keys \<Rightarrow> op_return keys
           | None \<Rightarrow> op_fail (InvalidOperation (case ac_failed_addresses acc aid of
                        Some reason \<Rightarrow> reason
                      | None \<Rightarrow> ''no keys for address '' @ address_id_str aid)))))"

section \<open>Public keys of other addresses\<close>

definition encode_query_component :: "string \<Rightarrow> string" where
  "encode_query_component s = concat (map (\<lambda>c. if is_unreserved c then [c] else percent_byte c) s)"

definition usable_public_keys ::
  "('sk, 'pub, 'sig, 'msg) rpgp \<Rightarrow> public_key_entry list \<Rightarrow> 'pub list" where
  "usable_public_keys P entries =
     List.map_filter (\<lambda>e. case PublicKey_from_armored P (pke_public_key e) of Inr k \<Rightarrow> Some k | Inl _ \<Rightarrow> None)
       (filter is_not_compromised entries)"

definition public_keys ::
  "('sk, 'pub, 'sig, 'msg, 'w) account_env \<Rightarrow> string \<Rightarrow> ('sk, 'pub, 'w) account
     \<Rightarrow> 'pub list \<times> ('sk, 'pub, 'w) account" where
  "public_keys E email acc =
     (case ac_public_keys acc email of
        Some keys \<Rightarrow> (keys, acc)
      | None \<Rightarrow>
          (case ae_get_public_keys E (''core/v4/keys/all?InternalOnly=1&Email='' @ encode_query_component email)
                  (ac_world acc) of
             (r, w) \<Rightarrow>
               let keys = (case r of Inr entries \<Rightarrow> usable_public_keys (ae_rpgp E) entries | Inl _ \<Rightarrow> []) in
               (keys, acc\<lparr>ac_world := w, ac_public_keys := (ac_public_keys acc)(email \<mapsto> keys)\<rparr>)))"

section \<open>The key report\<close>

record user_key_report =
  ukr_id :: user_key_id
  ukr_primary :: bool
  ukr_active :: bool
  ukr_unlocks :: bool
  ukr_error :: "string option"
  ukr_key_ids :: "string list"

record address_key_report =
  akr_id :: address_key_id
  akr_primary :: bool
  akr_active :: bool
  akr_token_recipients :: "string option list option"
  akr_unlocks :: bool
  akr_error :: "string option"
  akr_key_ids :: "string list"

record address_report =
  adrr_id :: address_id
  adrr_email :: string
  adrr_keys :: "address_key_report list"

record key_report =
  kr_user_keys :: "user_key_report list"
  kr_addresses :: "address_report list"

definition key_ids_or_default :: "('sk, 'pub, 'sig, 'msg) rpgp \<Rightarrow> string \<Rightarrow> string list" where
  "key_ids_or_default P armored = (case key_ids P armored of Inr ids \<Rightarrow> ids | Inl _ \<Rightarrow> [])"

definition report_unlock ::
  "('sk, 'pub, 'sig, 'msg) rpgp \<Rightarrow> key_passphrases \<Rightarrow> user_key_dto \<Rightarrow> string + 'sk private_key" where
  "report_unlock P kp dto =
     (case kp_get kp (user_key_id_str (uk_id dto)) of
        Some p \<Rightarrow> map_err CryptoError_display (PrivateKey_from_armored P (uk_private_key dto) p)
      | None \<Rightarrow> Inl ''no passphrase for this key'')"

definition report_error :: "string + 'a \<Rightarrow> string option" where
  "report_error r = (case r of Inl e \<Rightarrow> Some e | Inr _ \<Rightarrow> None)"

fun report_user_keys ::
  "('sk, 'pub, 'sig, 'msg) rpgp \<Rightarrow> key_passphrases \<Rightarrow> user_key_dto list
     \<Rightarrow> user_key_report list \<times> 'sk private_key list \<times> 'sk private_key list" where
  "report_user_keys P kp [] = ([], [], [])"
| "report_user_keys P kp (dto # dtos) =
     (let (reports, active, inactive) = report_user_keys P kp dtos;
          unlocked = report_unlock P kp dto;
          r = \<lparr>ukr_id = uk_id dto, ukr_primary = (uk_primary dto \<noteq> 0), ukr_active = UserKeyDto_is_active dto,
               ukr_unlocks = (case unlocked of Inr _ \<Rightarrow> True | Inl _ \<Rightarrow> False),
               ukr_error = report_error unlocked, ukr_key_ids = key_ids_or_default P (uk_private_key dto)\<rparr> in
      case unlocked of
        Inl _ \<Rightarrow> (r # reports, active, inactive)
      | Inr key \<Rightarrow>
          if UserKeyDto_is_active dto then (r # reports, key # active, inactive)
          else (r # reports, active, key # inactive))"

definition report_address_key ::
  "('sk, 'pub, 'sig, 'msg) rpgp \<Rightarrow> 'sk private_key list \<Rightarrow> key_passphrases \<Rightarrow> address_key_dto
     \<Rightarrow> address_key_report" where
  "report_address_key P tks kp dto =
     (let unlocked = open_address_key P tks kp dto in
      \<lparr>akr_id = ak_id dto, akr_primary = AddressKeyDto_is_primary dto, akr_active = AddressKeyDto_is_active dto,
       akr_token_recipients =
         map_option (\<lambda>t. case recipients P t of Inr rs \<Rightarrow> rs | Inl _ \<Rightarrow> []) (ak_token dto),
       akr_unlocks = (case unlocked of Inr _ \<Rightarrow> True | Inl _ \<Rightarrow> False),
       akr_error = report_error unlocked, akr_key_ids = key_ids_or_default P (ak_private_key dto)\<rparr>)"

definition key_report_op ::
  "('sk, 'pub, 'sig, 'msg, 'w) account_env \<Rightarrow> (key_report, ('sk, 'pub, 'w) account) op" where
  "key_report_op E =
     op_bind (key_passphrases E) (\<lambda>kp.
     op_bind (account_get (ae_get_user E) ''core/v4/users'') (\<lambda>user.
     let (reports, active, inactive) = report_user_keys (ae_rpgp E) kp (us_keys user) in
     op_bind (account_get (ae_get_addresses E) ''core/v4/addresses'') (\<lambda>dtos.
       op_return
         \<lparr>kr_user_keys = reports,
          kr_addresses = map (\<lambda>dto. \<lparr>adrr_id = ad_id dto, adrr_email = ad_email dto,
              adrr_keys = map (report_address_key (ae_rpgp E) (active @ inactive) kp) (ad_keys dto)\<rparr>) dtos\<rparr>)))"

definition user_key_named :: "key_report \<Rightarrow> string \<Rightarrow> user_key_report option" where
  "user_key_named r named = List.find (\<lambda>k. list_ex (\<lambda>i. i = named) (ukr_key_ids k)) (kr_user_keys r)"

fun address_key_named_in ::
  "address_report list \<Rightarrow> string \<Rightarrow> (address_report \<times> address_key_report) option" where
  "address_key_named_in [] named = None"
| "address_key_named_in (a # as) named =
     (case List.find (\<lambda>k. list_ex (\<lambda>i. i = named) (akr_key_ids k)) (adrr_keys a) of
        Some k \<Rightarrow> Some (a, k)
      | None \<Rightarrow> address_key_named_in as named)"

definition address_key_named :: "key_report \<Rightarrow> string \<Rightarrow> (address_report \<times> address_key_report) option" where
  "address_key_named r named = address_key_named_in (kr_addresses r) named"

section \<open>Key material\<close>

lemma be_bytes_length [simp]: "length (be_bytes k n) = k"
  by (induction k arbitrary: n) auto

lemma be_bytes_inj:
  "be_bytes k m = be_bytes k n \<Longrightarrow> m < 256 ^ k \<Longrightarrow> n < 256 ^ k \<Longrightarrow> m = n"
proof (induction k arbitrary: m n)
  case (Suc k)
  have "m div 256 = n div 256"
    by (rule Suc.IH) (use Suc.prems in \<open>auto simp: less_mult_imp_div_less mult.commute\<close>)
  moreover have "(word_of_nat (m mod 256) :: u8) = word_of_nat (n mod 256)" using Suc.prems(1) by simp
  then have "unat (word_of_nat (m mod 256) :: u8) = unat (word_of_nat (n mod 256) :: u8)" by simp
  then have "m mod 256 = n mod 256" by (simp add: unat_of_nat)
  ultimately show ?case by (metis div_mult_mod_eq)
qed simp

lemma to_be_bytes_length [simp]: "length (to_be_bytes w) = 8"
  by (simp add: to_be_bytes_def)

lemma to_be_bytes_inj:
  assumes "to_be_bytes v = to_be_bytes w"
  shows "v = w"
proof -
  have bound: "unat x < 256 ^ 8" for x :: u64 using unsigned_less [of x, where ?'a = nat] by simp
  have "unat v = unat w"
    using be_bytes_inj [OF assms [unfolded to_be_bytes_def] bound bound] .
  then show "v = w" by (simp add: word_unat_eq_iff)
qed

lemma to_be_bytes_length_inj:
  assumes "to_be_bytes (word_of_nat m) = to_be_bytes (word_of_nat n)" "m < 2 ^ 64" "n < 2 ^ 64"
  shows "m = n"
proof -
  have "(word_of_nat m :: u64) = word_of_nat n" using assms(1) by (rule to_be_bytes_inj)
  then have "unat (word_of_nat m :: u64) = unat (word_of_nat n :: u64)" by simp
  then show ?thesis using assms(2,3) by (simp add: unat_of_nat)
qed

lemma as_bytes_length [simp]: "length (as_bytes s) = length s"
  by (simp add: as_bytes_def)

lemma of_char_word_inj: "(of_char c :: u8) = of_char d \<Longrightarrow> c = d"
proof -
  assume "(of_char c :: u8) = of_char d"
  then have "unat (of_char c :: u8) = unat (of_char d :: u8)" by simp
  then have "(of_char c :: nat) = of_char d" by (simp add: unat_of_char)
  then show "c = d" by simp
qed

lemma as_bytes_inj: "as_bytes s = as_bytes t \<Longrightarrow> s = t"
proof -
  have "inj (of_char :: char \<Rightarrow> u8)" by (rule injI) (rule of_char_word_inj)
  then show "as_bytes s = as_bytes t \<Longrightarrow> s = t" by (simp add: as_bytes_def inj_map_eq_map)
qed

definition entry_fits :: "string \<times> bytes \<Rightarrow> bool" where
  "entry_fits e \<longleftrightarrow> length (fst e) < 2 ^ 64 \<and> length (snd e) < 2 ^ 64"

lemma entry_material_split:
  assumes eq: "entry_material e @ r = entry_material e' @ r'" and fits: "entry_fits e" "entry_fits e'"
  shows "e = e' \<and> r = r'"
proof -
  let ?B = "\<lambda>n. to_be_bytes (word_of_nat n)"
  from eq have h: "?B (length (fst e)) = ?B (length (fst e'))"
    and t: "as_bytes (fst e) @ ?B (length (snd e)) @ snd e @ r =
      as_bytes (fst e') @ ?B (length (snd e')) @ snd e' @ r'"
    by (simp_all add: entry_material_def)
  have l: "length (fst e) = length (fst e')" using h fits unfolding entry_fits_def by (blast intro: to_be_bytes_length_inj)
  from t l have i: "fst e = fst e'" and h2: "?B (length (snd e)) = ?B (length (snd e'))"
    and t2: "snd e @ r = snd e' @ r'"
    by (simp_all add: as_bytes_inj)
  have "length (snd e) = length (snd e')" using h2 fits unfolding entry_fits_def by (blast intro: to_be_bytes_length_inj)
  with t2 have "snd e = snd e'" "r = r'" by simp_all
  with i show ?thesis by (simp add: prod_eq_iff)
qed

lemma entry_material_not_Nil [simp]: "entry_material e \<noteq> []" "[] \<noteq> entry_material e"
proof -
  have "0 < length (entry_material e)" by (simp add: entry_material_def)
  then show "entry_material e \<noteq> []" by blast
  then show "[] \<noteq> entry_material e" by metis
qed

lemma entries_material_inj:
  "concat (map entry_material xs) = concat (map entry_material ys) \<Longrightarrow>
   list_all entry_fits xs \<Longrightarrow> list_all entry_fits ys \<Longrightarrow> xs = ys"
proof (induction xs arbitrary: ys)
  case Nil
  then show ?case by (cases ys) auto
next
  case (Cons x xs)
  show ?case
  proof (cases ys)
    case Nil
    then show ?thesis using Cons.prems(1) by simp
  next
    case (Cons y ys')
    then have "x = y \<and> concat (map entry_material xs) = concat (map entry_material ys')"
      using Cons.prems by (intro entry_material_split) auto
    then show ?thesis using Cons Cons.prems Cons.IH [of ys'] by simp
  qed
qed

lemma kp_from_iter_entries:
  "distinct (map fst (kp_from_iter xs))" "map_of (kp_from_iter xs) = map_of (rev xs)"
proof -
  have "distinct (map fst a) \<Longrightarrow>
      distinct (map fst (fold (\<lambda>(i, p). kp_insert i p) xs a)) \<and>
      map_of (fold (\<lambda>(i, p). kp_insert i p) xs a) = map_of (rev xs @ a)" for a
  proof (induction xs arbitrary: a)
    case (Cons e xs)
    obtain i p where e: "e = (i, p)" by fastforce
    have d: "distinct (map fst (kp_insert i p a))" using Cons.prems by (simp add: kp_insert_def distinct_update)
    have "map_of (kp_insert i p a) = map_of ((i, p) # a)" by (simp add: kp_insert_def update_conv')
    then show ?case using Cons.IH [OF d] e by (simp add: map_add_assoc)
  qed simp
  from this [of "[]"] show "distinct (map fst (kp_from_iter xs))" "map_of (kp_from_iter xs) = map_of (rev xs)"
    by (simp_all add: kp_from_iter_def)
qed

lemma sort_entries_eq_iff:
  assumes "distinct (map fst xs)" "distinct (map fst ys)"
  shows "sort_key fst xs = sort_key fst ys \<longleftrightarrow> map_of xs = map_of ys"
proof
  assume "sort_key fst xs = sort_key fst ys"
  then have "mset xs = mset ys" by (metis mset_sort)
  then show "map_of xs = map_of ys" using assms by (metis map_of_inject_set set_mset_mset)
next
  assume "map_of xs = map_of ys"
  then have "set xs = set ys" using assms by (simp add: map_of_inject_set)
  then have "mset xs = mset ys" using assms by (simp add: set_eq_iff_mset_eq_distinct distinct_map)
  moreover have "inj_on fst (set xs)" using assms by (simp add: distinct_map)
  ultimately show "sort_key fst xs = sort_key fst ys"
    by (intro sort_key_inj_key_eq) auto
qed

section \<open>Keeping the caches consistent\<close>

text \<open>
  Once the user keys are cached, so are the token keys and the passphrases they were opened
  with; and the cached addresses come from one answer of the server whose lowest-ordered
  address is either the first of them or recorded as failed.
\<close>

definition served_addresses :: "('sk, 'pub, 'sig, 'msg, 'w) account_env \<Rightarrow> address_dto list \<Rightarrow> bool" where
  "served_addresses E dtos \<longleftrightarrow> (\<exists>w w'. ae_get_addresses E ''core/v4/addresses'' w = (Inr dtos, w'))"

definition keys_ok :: "('sk, 'pub, 'w) account \<Rightarrow> bool" where
  "keys_ok acc \<longleftrightarrow> (ac_user_keys acc \<noteq> None \<longrightarrow> ac_token_keys acc \<noteq> None \<and> ac_key_passphrases acc \<noteq> None)"

definition lowest_first :: "address_dto list \<Rightarrow> address list \<Rightarrow> bool" where
  "lowest_first dtos as \<longleftrightarrow>
     (\<exists>d a rest. min_by_key ad_order dtos = Some d \<and> as = a # rest \<and> adr_id a = ad_id d \<and>
        adr_email a = ad_email d \<and> adr_order a = ad_order d)"

definition addresses_ok ::
  "('sk, 'pub, 'sig, 'msg, 'w) account_env \<Rightarrow> ('sk, 'pub, 'w) account \<Rightarrow> bool" where
  "addresses_ok E acc \<longleftrightarrow>
     (\<forall>as. ac_addresses acc = Some as \<longrightarrow>
        (\<exists>dtos. served_addresses E dtos \<and> (ac_default_failed acc = None \<longrightarrow> as = [] \<or> lowest_first dtos as)))"

definition account_ok ::
  "('sk, 'pub, 'sig, 'msg, 'w) account_env \<Rightarrow> ('sk, 'pub, 'w) account \<Rightarrow> bool" where
  "account_ok E acc \<longleftrightarrow> keys_ok acc \<and> addresses_ok E acc"

lemma account_okI: "keys_ok acc \<Longrightarrow> addresses_ok E acc \<Longrightarrow> account_ok E acc"
  by (simp add: account_ok_def)

lemma cached_or_eval [simp]:
  "field acc = Some x \<Longrightarrow> cached_or field load acc = Some (Inr x, acc)"
  "field acc = None \<Longrightarrow> cached_or field load acc = load acc"
  by (simp_all add: cached_or_def)

lemma cached_or_keeps [keeps]: "op_keeps I load \<Longrightarrow> op_keeps I (cached_or field load)"
  unfolding op_keeps_def cached_or_def by (auto split: option.splits)

lemma account_get_keeps [keeps]:
  "(\<And>acc w. I acc \<Longrightarrow> I (acc\<lparr>ac_world := w\<rparr>)) \<Longrightarrow> op_keeps I (account_get f path)"
  unfolding op_keeps_def account_get_def by (auto split: prod.splits)

lemma account_ok_world [simp]: "account_ok E (acc\<lparr>ac_world := w\<rparr>) = account_ok E acc"
  by (simp add: account_ok_def keys_ok_def addresses_ok_def)

lemma account_get_Inr:
  "account_get f path acc = Some (Inr x, acc') \<longleftrightarrow>
     (\<exists>w. f path (ac_world acc) = (Inr x, w) \<and> acc' = acc\<lparr>ac_world := w\<rparr>)"
  by (auto simp: account_get_def split: prod.splits)

lemma key_salts_keeps: "op_keeps (account_ok E) (key_salts E)"
  unfolding key_salts_def by (intro keeps) (auto simp: account_ok_def keys_ok_def addresses_ok_def)

lemma key_passphrases_keeps: "op_keeps (account_ok E) (key_passphrases E)"
  unfolding key_passphrases_def
  by (intro keeps key_salts_keeps) (auto simp: account_ok_def keys_ok_def addresses_ok_def)

lemma key_passphrases_cached:
  assumes "key_passphrases E acc = Some (Inr kp, acc')"
  shows "ac_key_passphrases acc' = Some kp"
  using assms by (cases "ac_key_passphrases acc") (auto simp: key_passphrases_def op_bind_Inr op_then_def)

lemma user_keys_keeps: "op_keeps (account_ok E) (user_keys E)"
proof -
  let ?J = "\<lambda>acc. account_ok E acc \<and> ac_key_passphrases acc \<noteq> None"
  have step: "op_keeps ?J (op_modify (\<lambda>acc. acc\<lparr>ac_token_keys := Some ts, ac_user_keys := Some ks\<rparr>))" for ts ks
    by (intro keeps) (auto simp: account_ok_def keys_ok_def addresses_ok_def)
  have get: "op_keeps ?J (account_get (ae_get_user E) ''core/v4/users'')"
    by (intro keeps) auto
  let ?rest = "\<lambda>kp user. let (keys, inactive) = open_user_keys (ae_rpgp E) kp (us_keys user) in
        if keys = [] then
          op_fail (if list_ex UserKeyDto_is_active (us_keys user) then KeysLocked
                   else InvalidOperation ''the account has no active user key'')
        else
          op_then (op_modify (\<lambda>acc. acc\<lparr>ac_token_keys := Some (keys @ inactive), ac_user_keys := Some keys\<rparr>))
            (op_return keys)"
  have rest: "op_keeps ?J (?rest kp user)" for kp user
    unfolding Let_def case_prod_beta by (intro op_keeps_if op_keeps_pure op_keeps_then step)
  show ?thesis unfolding user_keys_def
    by (intro cached_or_keeps op_keeps_bind_from [where J = ?J] key_passphrases_keeps op_keeps_bind get rest)
       (auto dest: key_passphrases_cached key_passphrases_keeps [THEN op_keepsD])
qed

lemma user_keys_cached:
  "user_keys E acc = Some (Inr ks, acc') \<Longrightarrow> ac_user_keys acc' = Some ks"
  by (cases "ac_user_keys acc")
     (auto simp: user_keys_def op_bind_Inr op_then_def Let_def case_prod_beta split: if_splits)

section \<open>The addresses that open\<close>

definition unlocked_with ::
  "('sk, 'pub, 'w) account \<Rightarrow> 'sk private_key list \<Rightarrow> key_passphrases \<Rightarrow> bool" where
  "unlocked_with acc ts kp \<longleftrightarrow>
     ac_user_keys acc \<noteq> None \<and> ac_token_keys acc = Some ts \<and> ac_key_passphrases acc = Some kp"

definition opened ::
  "('sk, 'pub, 'sig, 'msg) rpgp \<Rightarrow> 'sk private_key list \<Rightarrow> key_passphrases \<Rightarrow> address_dto \<Rightarrow> address option" where
  "opened P ts kp dto = (case open_address P ts kp dto of Inr (a, _) \<Rightarrow> Some a | Inl _ \<Rightarrow> None)"

definition no_primary_key :: "address_dto \<Rightarrow> string" where
  "no_primary_key dto = ''address '' @ address_id_str (ad_id dto) @ '' has no primary key''"

lemma open_address_Inl:
  "open_address P ts kp dto = Inl e \<Longrightarrow> e = InvalidOperation (no_primary_key dto)"
  by (auto simp: open_address_def no_primary_key_def split: prod.splits option.splits)

lemma open_address_Inr:
  "open_address P ts kp dto = Inr (a, ks) \<Longrightarrow>
     adr_id a = ad_id dto \<and> adr_email a = ad_email dto \<and> adr_order a = ad_order dto"
  by (auto simp: open_address_def split: prod.splits option.splits)

lemma openedD: "opened P ts kp dto = Some a \<Longrightarrow>
     adr_id a = ad_id dto \<and> adr_email a = ad_email dto \<and> adr_order a = ad_order dto"
  by (auto simp: opened_def dest: open_address_Inr split: sum.splits)

lemma decrypt_address_unlocked:
  "unlocked_with acc ts kp \<Longrightarrow> decrypt_address E dto acc = Some (open_address (ae_rpgp E) ts kp dto, acc)"
  by (auto simp: unlocked_with_def decrypt_address_def token_keys_def user_keys_def key_passphrases_def
      op_bind_def op_then_def)

text \<open>The scan as a fold: every address that opens, the reasons of the others.\<close>

lemma scan_addresses_run:
  assumes "unlocked_with acc ts kp"
  shows "\<exists>acc'. scan_addresses E dtos sc acc = Some (Inr
       \<lparr>sc_addresses = sc_addresses sc @ List.map_filter (opened (ae_rpgp E) ts kp) dtos,
        sc_failed = sc_failed sc ++
          map_of (rev (map (\<lambda>d. (ad_id d, no_primary_key d)) (filter (\<lambda>d. opened (ae_rpgp E) ts kp d = None) dtos))),
        sc_first_error = (case sc_first_error sc of Some e \<Rightarrow> Some e
           | None \<Rightarrow> map_option no_primary_key (List.find (\<lambda>d. opened (ae_rpgp E) ts kp d = None) dtos))\<rparr>, acc')
     \<and> unlocked_with acc' ts kp \<and> ac_addresses acc' = ac_addresses acc"
  using assms
proof (induction dtos arbitrary: sc acc)
  case Nil
  then show ?case by (auto split: option.splits)
next
  case (Cons dto dtos)
  let ?P = "ae_rpgp E"
  note d = decrypt_address_unlocked [OF Cons.prems, of E dto]
  show ?case
  proof (cases "open_address ?P ts kp dto")
    case (Inl e)
    then have e: "e = InvalidOperation (no_primary_key dto)" by (rule open_address_Inl)
    have o: "opened ?P ts kp dto = None" using Inl by (simp add: opened_def)
    show ?thesis
      using Cons.IH [OF Cons.prems, of "sc\<lparr>sc_failed := (sc_failed sc)(ad_id dto \<mapsto> no_primary_key dto),
          sc_first_error := (case sc_first_error sc of None \<Rightarrow> Some (no_primary_key dto) | Some e \<Rightarrow> Some e)\<rparr>"]
        d Inl e o
      by (auto simp: op_bind_def op_try_def map_filter_simps map_add_assoc [symmetric] split: option.splits)
        (simp_all add: fun_upd_def)
  next
    case (Inr p)
    obtain a ks where p: "p = (a, ks)" by fastforce
    have o: "opened ?P ts kp dto = Some a" using Inr p by (simp add: opened_def)
    have u: "unlocked_with (acc\<lparr>ac_address_keys := m\<rparr>) ts kp" for m
      using Cons.prems by (simp add: unlocked_with_def)
    show ?thesis
      using Cons.IH [OF u, of "sc\<lparr>sc_addresses := sc_addresses sc @ [a]\<rparr>"
          "(ac_address_keys acc)(adr_id a \<mapsto> ks)"] d Inr p o
      by (auto simp: op_bind_def op_try_def op_then_def map_filter_simps split: option.splits)
  qed
qed

lemma min_by_key_None [simp]: "min_by_key f xs = None \<longleftrightarrow> xs = []"
  by (cases xs) (auto split: option.splits)

lemma min_by_key_least: "min_by_key f xs = Some y \<Longrightarrow> y \<in> set xs \<and> (\<forall>x\<in>set xs. f y \<le> f x)"
  by (induction xs arbitrary: y) (fastforce split: option.splits if_splits)+

lemma min_by_key_map_filter:
  assumes key: "\<And>x a. g x = Some a \<Longrightarrow> f' a = f x"
  shows "min_by_key f xs = Some x \<Longrightarrow> g x = Some a \<Longrightarrow> min_by_key f' (List.map_filter g xs) = Some a"
proof (induction xs arbitrary: x a)
  case (Cons z zs)
  have ms: "f z \<le> f' b" if "min_by_key f' (List.map_filter g zs) = Some b" "\<forall>y\<in>set zs. f z \<le> f y" for b
    using min_by_key_least [OF that(1)] that(2) key by (auto simp: map_filter_def)
  show ?case
  proof (cases "min_by_key f zs")
    case (Some y)
    show ?thesis
    proof (cases "f z \<le> f y")
      case True
      then have "x = z" using Cons.prems(1) Some by simp
      moreover have "\<forall>y\<in>set zs. f z \<le> f y" using True min_by_key_least [OF Some] by force
      ultimately show ?thesis using Cons.prems(2) ms key [of z a]
        by (auto simp: map_filter_simps split: option.splits)
    next
      case False
      then have "x = y" using Cons.prems(1) Some by simp
      with False show ?thesis using Cons.IH [OF Some] Cons.prems(2) key [of z] key [of y a]
        by (auto simp: map_filter_simps split: option.splits)
    qed
  qed (use Cons.prems in \<open>auto simp: map_filter_simps\<close>)
qed simp

lemma sort_key_hd: "min_by_key f xs = Some x \<Longrightarrow> \<exists>rest. sort_key f xs = x # rest"
proof (induction xs arbitrary: x)
  case (Cons z zs)
  show ?case
  proof (cases "min_by_key f zs")
    case (Some y)
    then obtain rest where "sort_key f zs = y # rest" using Cons.IH by blast
    then show ?thesis using Cons.prems Some by auto
  qed (use Cons.prems in auto)
qed simp

text \<open>What a load of the addresses gives and caches, from the server's answer.\<close>

definition fails :: "('sk, 'pub, 'sig, 'msg) rpgp \<Rightarrow> 'sk private_key list \<Rightarrow> key_passphrases \<Rightarrow> address_dto list
     \<Rightarrow> address_id \<rightharpoonup> string" where
  "fails P ts kp dtos =
     map_of (rev (map (\<lambda>d. (ad_id d, no_primary_key d)) (filter (\<lambda>d. opened P ts kp d = None) dtos)))"

lemma fails_None: "fails P ts kp dtos (ad_id d) = None \<Longrightarrow> d \<in> set dtos \<Longrightarrow> opened P ts kp d \<noteq> None"
  unfolding fails_def by (force simp: map_of_eq_None_iff)

lemma addresses_load:
  assumes unl: "unlocked_with acc ts kp" and none: "ac_addresses acc = None"
    and get: "ae_get_addresses E ''core/v4/addresses'' (ac_world acc) = (Inr dtos, w)"
  shows "\<exists>acc'. addresses E acc = Some
    (case (List.map_filter (opened (ae_rpgp E) ts kp) dtos, dtos) of
       ([], d # _) \<Rightarrow> Inl (InvalidOperation (no_primary_key d))
     | (as, _) \<Rightarrow> Inr (sort_by_key adr_order as), acc')"
  "addresses E acc = Some (r, acc') \<Longrightarrow> unlocked_with acc' ts kp \<and> (r = Inl e \<longrightarrow> ac_addresses acc' = None)"
  "addresses E acc = Some (Inr as, acc') \<Longrightarrow>
     ac_addresses acc' = Some as \<and> as = sort_by_key adr_order (List.map_filter (opened (ae_rpgp E) ts kp) dtos) \<and>
     ac_failed_addresses acc' = fails (ae_rpgp E) ts kp dtos \<and>
     ac_default_failed acc' = Option.bind (min_by_key ad_order dtos) (\<lambda>d. fails (ae_rpgp E) ts kp dtos (ad_id d))"
proof -
  let ?as = "List.map_filter (opened (ae_rpgp E) ts kp) dtos"
  have uk: "user_keys E acc = Some (Inr (the (ac_user_keys acc)), acc)"
    using unl by (auto simp: unlocked_with_def user_keys_def)
  have gt: "account_get (ae_get_addresses E) ''core/v4/addresses'' acc = Some (Inr dtos, acc\<lparr>ac_world := w\<rparr>)"
    using get by (simp add: account_get_def)
  have "unlocked_with (acc\<lparr>ac_world := w\<rparr>) ts kp" using unl by (simp add: unlocked_with_def)
  from scan_addresses_run [OF this, of E dtos "\<lparr>sc_addresses = [], sc_failed = Map.empty, sc_first_error = None\<rparr>"]
  obtain acc1 where scan: "scan_addresses E dtos \<lparr>sc_addresses = [], sc_failed = Map.empty, sc_first_error = None\<rparr>
      (acc\<lparr>ac_world := w\<rparr>) = Some (Inr \<lparr>sc_addresses = ?as, sc_failed = fails (ae_rpgp E) ts kp dtos,
        sc_first_error = map_option no_primary_key (List.find (\<lambda>d. opened (ae_rpgp E) ts kp d = None) dtos)\<rparr>, acc1)"
    and acc1: "unlocked_with acc1 ts kp" "ac_addresses acc1 = None"
    using none by (auto simp: fails_def)
  let ?find = "List.find (\<lambda>d. opened (ae_rpgp E) ts kp d = None) dtos"
  have run: "addresses E acc = Some (if ?as = [] \<and> ?find \<noteq> None
       then (Inl (InvalidOperation (no_primary_key (the ?find))), acc1)
       else (Inr (sort_by_key adr_order ?as), acc1\<lparr>ac_failed_addresses := fails (ae_rpgp E) ts kp dtos,
          ac_default_failed := Option.bind (min_by_key ad_order dtos) (\<lambda>d. fails (ae_rpgp E) ts kp dtos (ad_id d)),
          ac_addresses := Some (sort_by_key adr_order ?as)\<rparr>))"
    using none uk gt scan by (auto simp: addresses_def op_bind_def op_then_def Let_def option.map_sel)
  have first: "?find = Some d" if "?as = []" "dtos = d # ds" for d ds
    using that by (auto simp: map_filter_simps split: option.splits)
  show "\<exists>acc'. addresses E acc = Some
    (case (?as, dtos) of ([], d # _) \<Rightarrow> Inl (InvalidOperation (no_primary_key d))
     | (as, _) \<Rightarrow> Inr (sort_by_key adr_order as), acc')"
  proof (cases dtos)
    case Nil
    then show ?thesis unfolding run by (simp add: map_filter_simps)
  next
    case (Cons d ds)
    show ?thesis unfolding run using first [OF _ Cons] Cons
      by (cases ?as) auto
  qed
  show "unlocked_with acc' ts kp \<and> (r = Inl e \<longrightarrow> ac_addresses acc' = None)" if "addresses E acc = Some (r, acc')"
    using that acc1 unfolding run unlocked_with_def by (auto split: if_splits)
  assume ret: "addresses E acc = Some (Inr as, acc')"
  show "ac_addresses acc' = Some as \<and> as = sort_by_key adr_order ?as \<and>
     ac_failed_addresses acc' = fails (ae_rpgp E) ts kp dtos \<and>
     ac_default_failed acc' = Option.bind (min_by_key ad_order dtos) (\<lambda>d. fails (ae_rpgp E) ts kp dtos (ad_id d))"
    using ret unfolding run by (auto split: if_splits)
qed

lemma load_lowest_first:
  assumes "Option.bind (min_by_key ad_order dtos) (\<lambda>d. fails P ts kp dtos (ad_id d)) = None"
    and "as = sort_by_key adr_order (List.map_filter (opened P ts kp) dtos)"
  shows "as = [] \<or> lowest_first dtos as"
proof (cases "min_by_key ad_order dtos")
  case None
  then show ?thesis using assms(2) by (simp add: map_filter_simps)
next
  case (Some d)
  then have "opened P ts kp d \<noteq> None"
    using assms(1) min_by_key_least [OF Some] by (intro fails_None [of P ts kp dtos]) auto
  then obtain a where a: "opened P ts kp d = Some a" by auto
  have "min_by_key adr_order (List.map_filter (opened P ts kp) dtos) = Some a"
    using Some a openedD by (intro min_by_key_map_filter [of _ adr_order ad_order]) blast+
  from sort_key_hd [OF this] obtain rest where "as = a # rest" using assms(2) by auto
  then show ?thesis unfolding lowest_first_def using Some openedD [OF a] by blast
qed

lemma user_keys_same_addresses: "op_keeps (\<lambda>acc. ac_addresses acc = x) (user_keys E)"
  unfolding user_keys_def key_passphrases_def key_salts_def Let_def case_prod_beta
  by (intro keeps) auto

lemma addresses_after_user_keys:
  assumes "user_keys E acc = Some (Inr ks, acc1)" "ac_addresses acc = None"
  shows "ac_addresses acc1 = None" "addresses E acc = addresses E acc1"
proof -
  show n: "ac_addresses acc1 = None" using op_keepsD [OF user_keys_same_addresses assms(2,1)] .
  have "user_keys E acc1 = Some (Inr ks, acc1)"
    using user_keys_cached [OF assms(1)] by (simp add: user_keys_def)
  then show "addresses E acc = addresses E acc1"
    using assms n by (simp add: addresses_def op_then_def op_bind_def)
qed

lemma unlocked_withI:
  assumes "account_ok E acc" "ac_user_keys acc = Some ks"
  obtains ts kp where "unlocked_with acc ts kp"
  using assms unfolding account_ok_def keys_ok_def unlocked_with_def by auto

text \<open>Unlocked, the load keeps the caches consistent.\<close>

lemma addresses_keeps_unlocked:
  assumes unl: "unlocked_with acc ts kp" and none: "ac_addresses acc = None" and ok: "account_ok E acc"
    and run: "addresses E acc = Some (r, acc')"
  shows "account_ok E acc'"
proof -
  obtain g w where g: "ae_get_addresses E ''core/v4/addresses'' (ac_world acc) = (g, w)" by fastforce
  show ?thesis
  proof (cases g)
    case (Inl e)
    have "user_keys E acc = Some (Inr (the (ac_user_keys acc)), acc)"
      using unl by (auto simp: unlocked_with_def user_keys_def)
    then have "acc' = acc\<lparr>ac_world := w\<rparr>"
      using run none g Inl by (auto simp: addresses_def op_then_def op_bind_def account_get_def)
    then show ?thesis using ok by simp
  next
    case (Inr dtos)
    note load = addresses_load(2,3) [OF unl none g [unfolded Inr]]
    have keys: "keys_ok acc'" using load(1) [OF run] by (simp add: unlocked_with_def keys_ok_def)
    have served: "served_addresses E dtos" using g Inr unfolding served_addresses_def by blast
    have "addresses_ok E acc'"
    proof (cases r)
      case (Inl e)
      then show ?thesis using load(1) [OF run] by (simp add: addresses_ok_def)
    next
      case (Inr as)
      note l = load(2) [OF run [unfolded Inr]]
      then show ?thesis
        using served load_lowest_first [of dtos "ae_rpgp E" ts kp as] by (auto simp: addresses_ok_def)
    qed
    with keys show ?thesis by (rule account_okI)
  qed
qed

lemma addresses_keeps: "op_keeps (account_ok E) (addresses E)"
  unfolding op_keeps_def
proof (intro allI impI)
  fix acc r acc'
  assume ok: "account_ok E acc" and run: "addresses E acc = Some (r, acc')"
  show "account_ok E acc'"
  proof (cases "ac_addresses acc")
    case None
    show ?thesis
    proof (cases "user_keys E acc")
      case (Some p)
      then obtain q acc1 where uk: "user_keys E acc = Some (q, acc1)" by (cases p) auto
      have ok1: "account_ok E acc1" using op_keepsD [OF user_keys_keeps ok uk] .
      show ?thesis
      proof (cases q)
        case (Inr ks)
        then have uk: "user_keys E acc = Some (Inr ks, acc1)" using uk by simp
        note eq = addresses_after_user_keys [OF uk None]
        obtain ts kp where unl: "unlocked_with acc1 ts kp"
          using ok1 user_keys_cached [OF uk] by (rule unlocked_withI)
        show ?thesis using addresses_keeps_unlocked [OF unl eq(1) ok1] run eq(2) by simp
      next
        case (Inl e)
        then have "acc' = acc1" using uk run None by (simp add: addresses_def op_then_def op_bind_def)
        then show ?thesis using ok1 by simp
      qed
    qed (use run None in \<open>simp add: addresses_def op_then_def op_bind_def\<close>)
  qed (use run ok in \<open>simp add: addresses_def\<close>)
qed

section \<open>Reachable clients\<close>

inductive account_reach ::
  "('sk, 'pub, 'sig, 'msg, 'w) account_env \<Rightarrow> ('sk, 'pub, 'w) account \<Rightarrow> bool" for E where
  reach_new: "account_reach E (AccountClient_new w)"
| reach_salts: "account_reach E (with_key_salts salts w)"
| reach_passphrases: "account_reach E (with_key_passphrases kp w)"
| step_key_salts: "account_reach E acc \<Longrightarrow> key_salts E acc = Some (r1, acc') \<Longrightarrow> account_reach E acc'"
| step_key_passphrases: "account_reach E acc \<Longrightarrow> key_passphrases E acc = Some (r2, acc') \<Longrightarrow> account_reach E acc'"
| step_unlock: "account_reach E acc \<Longrightarrow> unlock E acc = Some (r3, acc') \<Longrightarrow> account_reach E acc'"
| step_quota: "account_reach E acc \<Longrightarrow> quota_op E acc = Some (r4, acc') \<Longrightarrow> account_reach E acc'"
| step_addresses: "account_reach E acc \<Longrightarrow> addresses E acc = Some (r5, acc') \<Longrightarrow> account_reach E acc'"
| step_address: "account_reach E acc \<Longrightarrow> address_op E aid acc = Some (r6, acc') \<Longrightarrow> account_reach E acc'"
| step_default: "account_reach E acc \<Longrightarrow> default_address E acc = Some (r7, acc') \<Longrightarrow> account_reach E acc'"
| step_private_keys: "account_reach E acc \<Longrightarrow> address_private_keys E aid acc = Some (r8, acc') \<Longrightarrow> account_reach E acc'"
| step_public_keys: "account_reach E acc \<Longrightarrow> public_keys E email acc = (r9, acc') \<Longrightarrow> account_reach E acc'"
| step_report: "account_reach E acc \<Longrightarrow> key_report_op E acc = Some (r10, acc') \<Longrightarrow> account_reach E acc'"
| step_world: "account_reach E acc \<Longrightarrow> account_reach E (acc\<lparr>ac_world := w\<rparr>)"

lemma account_ok_init:
  "account_ok E (AccountClient_new w)" "account_ok E (with_key_salts salts w)"
  "account_ok E (with_key_passphrases kp w)"
  by (simp_all add: account_ok_def keys_ok_def addresses_ok_def AccountClient_new_def with_key_salts_def
      with_key_passphrases_def)

lemma account_ops_keep:
  "op_keeps (account_ok E) (unlock E)" "op_keeps (account_ok E) (quota_op E)"
  "op_keeps (account_ok E) (address_op E aid)" "op_keeps (account_ok E) (default_address E)"
  "op_keeps (account_ok E) (address_private_keys E aid)" "op_keeps (account_ok E) (key_report_op E)"
proof -
  show "op_keeps (account_ok E) (unlock E)"
    unfolding unlock_def by (intro keeps user_keys_keeps)
  show "op_keeps (account_ok E) (quota_op E)"
    unfolding quota_op_def by (intro keeps) simp
  have case_op: "op_keeps I (case x of None \<Rightarrow> m | Some y \<Rightarrow> n y)"
    if "op_keeps I m" "\<And>y. op_keeps I (n y)" for I x m n
    using that by (cases x) auto
  show "op_keeps (account_ok E) (address_op E aid)"
    unfolding address_op_def by (intro keeps addresses_keeps case_op)
  show "op_keeps (account_ok E) (default_address E)"
    unfolding default_address_def by (intro keeps addresses_keeps case_op)
  show "op_keeps (account_ok E) (address_private_keys E aid)"
    unfolding address_private_keys_def by (intro keeps addresses_keeps case_op)
  show "op_keeps (account_ok E) (key_report_op E)"
    unfolding key_report_op_def Let_def case_prod_beta
    by (intro keeps key_passphrases_keeps) simp_all
qed

lemma public_keys_ok: "account_ok E acc \<Longrightarrow> public_keys E email acc = (r, acc') \<Longrightarrow> account_ok E acc'"
  by (auto simp: public_keys_def account_ok_def keys_ok_def addresses_ok_def Let_def
      split: option.splits prod.splits)

lemma account_reach_ok: "account_reach E acc \<Longrightarrow> account_ok E acc"
  by (induction rule: account_reach.induct)
     (auto intro: account_ok_init public_keys_ok
        dest: op_keepsD [OF key_salts_keeps] op_keepsD [OF key_passphrases_keeps] op_keepsD [OF addresses_keeps]
          account_ops_keep [THEN op_keepsD])

section \<open>Unlocking and reporting\<close>

definition opens_user_key ::
  "('sk, 'pub, 'sig, 'msg) rpgp \<Rightarrow> key_passphrases \<Rightarrow> user_key_dto \<Rightarrow> 'sk private_key option" where
  "opens_user_key P kp dto =
     Option.bind (kp_get kp (user_key_id_str (uk_id dto)))
       (\<lambda>p. case PrivateKey_from_armored P (uk_private_key dto) p of Inr k \<Rightarrow> Some k | Inl _ \<Rightarrow> None)"

lemma open_user_keys_filter:
  "open_user_keys P kp dtos =
     (List.map_filter (opens_user_key P kp) (filter UserKeyDto_is_active dtos),
      List.map_filter (opens_user_key P kp) (filter (\<lambda>d. \<not> UserKeyDto_is_active d) dtos))"
  by (induction dtos)
     (auto simp: map_filter_simps opens_user_key_def Let_def split: option.splits sum.splits)

lemma report_user_keys_opens:
  "snd (report_user_keys P kp dtos) = open_user_keys P kp dtos"
  by (induction dtos)
     (auto simp: Let_def report_unlock_def case_prod_beta split: option.splits sum.splits)

lemma report_user_keys_unlocks:
  "map ukr_unlocks (fst (report_user_keys P kp dtos)) = map (\<lambda>d. opens_user_key P kp d \<noteq> None) dtos"
  by (induction dtos)
     (auto simp: Let_def report_unlock_def opens_user_key_def case_prod_beta split: option.splits sum.splits)

definition unlocks_primary :: "address_key_report \<Rightarrow> bool" where
  "unlocks_primary r \<longleftrightarrow> akr_active r \<and> akr_primary r \<and> akr_unlocks r"

lemma address_keys_loop_primary:
  "snd (address_keys_loop P ts kp dtos keys primary) \<noteq> None \<longleftrightarrow>
     primary \<noteq> None \<or> list_ex unlocks_primary (map (report_address_key P ts kp) dtos)"
  by (induction dtos arbitrary: keys primary)
     (auto simp: unlocks_primary_def report_address_key_def split: sum.splits)

section \<open>Properties\<close>

text \<open>The default address is never another address than the lowest-ordered one.  In any
  state a client can reach, with a server whose address list is \<open>dtos\<close>, a default address
  that is handed out is the first lowest-ordered address of that list; when that address does
  not open, none is handed out.\<close>

theorem default_address_lowest_ordered:
  assumes "account_reach E acc"
    and "\<And>w r w'. ae_get_addresses E ''core/v4/addresses'' w = (Inr r, w') \<Longrightarrow> r = dtos"
    and "default_address E acc = Some (Inr a, acc')"
  shows "\<exists>d. min_by_key ad_order dtos = Some d \<and> adr_id a = ad_id d \<and> adr_email a = ad_email d"
proof -
  from assms(3) obtain as rest where run: "addresses E acc = Some (Inr as, acc')"
    and none: "ac_default_failed acc' = None" and as: "as = a # rest"
    by (auto simp: default_address_def op_bind_Inr split: option.splits list.splits)
  have ok: "account_ok E acc'"
    using op_keepsD [OF addresses_keeps account_reach_ok [OF assms(1)] run] .
  have cached: "ac_addresses acc' = Some as"
    using run by (cases "ac_addresses acc") (auto simp: addresses_def op_bind_Inr op_then_def Let_def split: if_splits)
  obtain ds where "served_addresses E ds" "lowest_first ds as"
    using ok cached none as unfolding account_ok_def addresses_ok_def by auto
  then show ?thesis using assms(2) as unfolding served_addresses_def lowest_first_def by blast
qed

text \<open>Loading the addresses of an unlocked client gives exactly the addresses that open,
  by their order; the broken ones are left out.  Only when there are addresses and none opens
  does the load fail, with the reason of the first.\<close>

theorem addresses_skip_broken:
  assumes "ac_user_keys acc = Some ks" "ac_token_keys acc = Some ts" "ac_key_passphrases acc = Some kp"
    and "ac_addresses acc = None"
    and "ae_get_addresses E ''core/v4/addresses'' (ac_world acc) = (Inr dtos, w)"
  shows "\<exists>acc'. addresses E acc = Some
    (case (List.map_filter (opened (ae_rpgp E) ts kp) dtos, dtos) of
       ([], d # _) \<Rightarrow> Inl (InvalidOperation (no_primary_key d))
     | (as, _) \<Rightarrow> Inr (sort_by_key adr_order as), acc')"
  using addresses_load(1) [OF _ assms(4,5)] assms(1-3) by (simp add: unlocked_with_def)

text \<open>Unlocking tells a wrong secret from an account no password fixes: it succeeds iff
  an active user key opens, fails with \<open>KeysLocked\<close> iff there are active keys and none opens,
  and says there is no active key otherwise.\<close>

theorem unlock_outcome:
  assumes "ac_user_keys acc = None" "ac_key_passphrases acc = Some kp"
    and "ae_get_user E ''core/v4/users'' (ac_world acc) = (Inr user, w)"
  shows "\<exists>acc'. unlock E acc = Some
    (if list_ex (\<lambda>d. UserKeyDto_is_active d \<and> opens_user_key (ae_rpgp E) kp d \<noteq> None) (us_keys user) then Inr ()
     else if list_ex UserKeyDto_is_active (us_keys user) then Inl KeysLocked
     else Inl (InvalidOperation ''the account has no active user key''), acc')"
proof -
  have "List.map_filter (opens_user_key (ae_rpgp E) kp) (filter UserKeyDto_is_active ds) = [] \<longleftrightarrow>
      \<not> list_ex (\<lambda>d. UserKeyDto_is_active d \<and> opens_user_key (ae_rpgp E) kp d \<noteq> None) ds" for ds
    by (induction ds) (auto simp: map_filter_simps split: option.splits)
  then show ?thesis using assms
    by (auto simp: unlock_def user_keys_def key_passphrases_def op_then_def op_bind_def account_get_def
        open_user_keys_filter Let_def)
qed

text \<open>The key report agrees with the unlock path: it collects the same user keys, and an
  address opens iff the report shows an active primary key of it that unlocks.\<close>

theorem report_agrees_with_unlock:
  "snd (report_user_keys P kp uks) = open_user_keys P kp uks \<and>
   ((\<exists>p. open_address P ts kp dto = Inr p) \<longleftrightarrow>
      list_ex unlocks_primary (map (report_address_key P ts kp) (ad_keys dto)))"
proof -
  have "(\<exists>p. open_address P ts kp dto = Inr p) \<longleftrightarrow>
      snd (address_keys_loop P ts kp (ad_keys dto) [] None) \<noteq> None"
    by (auto simp: open_address_def split: prod.splits option.splits)
  then show ?thesis by (simp add: address_keys_loop_primary report_user_keys_opens del: not_None_eq)
qed

text \<open>C13: The secret derived from the key passphrases hashes an injective encoding of them:
  two collections give the same key material iff they hold the same passphrases, in whatever
  order they were inserted and however their boundaries fall.\<close>

theorem secret_material_faithful:
  assumes "list_all entry_fits (kp_from_iter xs)" "list_all entry_fits (kp_from_iter ys)"
  shows "secret_material (kp_from_iter xs) = secret_material (kp_from_iter ys) \<longleftrightarrow>
     kp_get (kp_from_iter xs) = kp_get (kp_from_iter ys)"
proof -
  have "secret_material (kp_from_iter xs) = secret_material (kp_from_iter ys) \<longleftrightarrow>
      sort_key fst (kp_from_iter xs) = sort_key fst (kp_from_iter ys)"
    unfolding secret_material_def using assms by (auto intro!: entries_material_inj simp: list_all_iff)
  then show ?thesis
    by (simp add: sort_entries_eq_iff [OF kp_from_iter_entries(1) kp_from_iter_entries(1)] kp_get_def fun_eq_iff)
qed

section \<open>Examples\<close>

text \<open>An account with one user key and two addresses; the lower-ordered one is broken or not.\<close>

definition example_address :: "string \<Rightarrow> int \<Rightarrow> string \<Rightarrow> address_dto" where
  "example_address i ord key =
     \<lparr>ad_id = AddressId i, ad_email = i @ ''@p'', ad_status = 1, ad_order = ord,
      ad_keys = [\<lparr>ak_id = AddressKeyId i, ak_private_key = key, ak_token = Some (''u:'' @ i),
                  ak_signature = Some [], ak_primary = 1, ak_active = 1\<rparr>]\<rparr>"

definition example_account ::
  "string \<Rightarrow> (string, string, string \<times> string, string \<times> bytes, unit) account_env" where
  "example_account first_key =
     \<lparr>ae_rpgp = example_rpgp, ae_bcrypt = (\<lambda>_ _ _. Inl ''bcrypt''), ae_base64 = (\<lambda>_. Inl ''base64''),
      ae_mailbox_password = [], ae_get_salts = (\<lambda>_ w. (Inr [], w)),
      ae_get_user = (\<lambda>_ w. (Inr \<lparr>us_id = [], us_max_space = 10, us_used_space = 3,
         us_keys = [\<lparr>uk_id = UserKeyId ''u'', uk_private_key = ''u'', uk_primary = 1, uk_active = 1\<rparr>]\<rparr>, w)),
      ae_get_addresses = (\<lambda>_ w. (Inr [example_address ''b'' 2 ''b'', example_address ''a'' 1 first_key], w)),
      ae_get_public_keys = (\<lambda>_ w. (Inr [], w))\<rparr>"

definition example_account_client :: "(string, string, unit) account" where
  "example_account_client = with_key_passphrases [(''u'', as_bytes ''u'')] ()"

definition example_unlocked :: "(string, string, unit) account" where
  "example_unlocked = snd (the (unlock (example_account ''a'') example_account_client))"

definition example_first :: "address" where
  "example_first = projr (fst (the (default_address (example_account ''a'') example_account_client)))"

lemma example_default:
  "default_address (example_account ''a'') example_account_client =
     Some (Inr example_first, snd (the (default_address (example_account ''a'') example_account_client)))"
proof -
  have "map_option (\<lambda>(r, _). case r of Inr _ \<Rightarrow> True | Inl _ \<Rightarrow> False)
      (default_address (example_account ''a'') example_account_client) = Some True" by code_simp
  then show ?thesis unfolding example_first_def
    by (cases "default_address (example_account ''a'') example_account_client") (auto split: sum.splits)
qed

theorem default_address_lowest_ordered_witness:
  "\<exists>d. min_by_key ad_order [example_address ''b'' 2 ''b'', example_address ''a'' 1 ''a''] = Some d \<and>
     adr_id example_first = ad_id d \<and> adr_email example_first = ad_email d"
  by (rule default_address_lowest_ordered [OF _ _ example_default])
     (auto simp: example_account_client_def example_account_def intro: reach_passphrases)

definition example_key :: "string private_key" where
  "example_key = \<lparr>pk_key = ''u'', pk_passphrase = as_bytes ''u''\<rparr>"

lemma example_unlocked_caches:
  "ac_user_keys example_unlocked = Some [example_key]" "ac_token_keys example_unlocked = Some [example_key]"
  "ac_key_passphrases example_unlocked = Some [(''u'', as_bytes ''u'')]"
  "ac_addresses example_unlocked = None"
  by code_simp+

theorem addresses_skip_broken_witness:
  "\<exists>acc' a. addresses (example_account ''x'') example_unlocked = Some (Inr [a], acc') \<and> adr_id a = AddressId ''b''"
proof -
  let ?D = "[example_address ''b'' 2 ''b'', example_address ''a'' 1 ''x'']"
  let ?O = "opened (ae_rpgp (example_account ''x'')) [example_key] [(''u'', as_bytes ''u'')]"
  have get: "ae_get_addresses (example_account ''x'') ''core/v4/addresses'' w = (Inr ?D, w)" for w
    by (simp add: example_account_def)
  have "map (map_option adr_id \<circ> ?O) ?D = [Some (AddressId ''b''), None]" by code_simp
  then obtain a where a: "List.map_filter ?O ?D = [a]" "adr_id a = AddressId ''b''"
    by (auto simp: map_filter_simps)
  show ?thesis
    using addresses_skip_broken [OF example_unlocked_caches get] a by auto
qed

theorem unlock_outcome_witness:
  "\<exists>acc'. unlock (example_account ''a'') (with_key_passphrases [(''u'', as_bytes ''v'')] ()) = Some (Inl KeysLocked, acc')"
proof -
  let ?U = "[\<lparr>uk_id = UserKeyId ''u'', uk_private_key = ''u'', uk_primary = 1, uk_active = 1\<rparr>]"
  let ?P = "example_rpgp"
  have "list_ex (\<lambda>d. UserKeyDto_is_active d \<and> opens_user_key ?P [(''u'', as_bytes ''v'')] d \<noteq> None) ?U = False"
    "list_ex UserKeyDto_is_active ?U" by code_simp+
  then show ?thesis
    using unlock_outcome [of "with_key_passphrases [(''u'', as_bytes ''v'')] ()" "[(''u'', as_bytes ''v'')]"
        "example_account ''a''" "\<lparr>us_id = [], us_max_space = 10, us_used_space = 3, us_keys = ?U\<rparr>" "()"]
    by (simp add: with_key_passphrases_def AccountClient_new_def example_account_def)
qed

theorem secret_material_faithful_witness:
  "secret_material (kp_from_iter [(''ab'', [1]), (''k'', [2])]) = secret_material (kp_from_iter [(''k'', [2]), (''ab'', [1])]) \<and>
   kp_get (kp_from_iter [(''ab'', [1]), (''k'', [2])]) = kp_get (kp_from_iter [(''k'', [2]), (''ab'', [1])])"
proof -
  let ?X = "[(''ab'', [1]), (''k'', [2])]" and ?Y = "[(''k'', [2]), (''ab'', [1])]"
  have f: "list_all entry_fits (kp_from_iter ?X)" "list_all entry_fits (kp_from_iter ?Y)" 
    by (simp_all add: kp_from_iter_def kp_insert_def entry_fits_def)
  have "kp_get (kp_from_iter ?X) = kp_get (kp_from_iter ?Y)"
    by (auto simp: kp_get_def kp_from_iter_def kp_insert_def fun_eq_iff)
  then show ?thesis using secret_material_faithful [OF f] by blast
qed

end
