(* ===== verification/Http.thy ===== *)
theory Http
  imports Api
begin

text \<open>
  The HTTP client of \<open>proton-sdk/src/http.rs\<close>: request construction, the two
  retry loops, the response envelope, bearer-token refresh and the typed calls
  built from them.  The network, the jitter source and the JSON decoders are
  arguments (records \<open>net\<close> and \<open>codec\<close>); everything the client decides about their
  answers is defined here.  Each retry loop returns, beside its result, the
  attempts it made and the delays it slept, so that statements about how often a
  request leaves are statements about values.  Telemetry timers and log lines
  record what happened and decide nothing; they are left out.
\<close>

section \<open>Requests\<close>

datatype http_method = GET | POST | PUT | DELETE

datatype request_body =
    NoBody
  | JsonBody bytes
  | MultipartBody "(string \<times> string \<times> bytes) list"
    \<comment> \<open>parts: name, media type, content\<close>

record http_request =
  rq_method :: http_method
  rq_url :: string
  rq_headers :: "(string \<times> string) list"
  rq_timeout :: duration
  rq_body :: request_body

definition SESSION_ID_HEADER :: string where "SESSION_ID_HEADER = ''x-pm-uid''"
definition APP_VERSION_HEADER :: string where "APP_VERSION_HEADER = ''x-pm-appversion''"
definition STORAGE_TOKEN_HEADER :: string where "STORAGE_TOKEN_HEADER = ''pm-storage-token''"
definition HV_TOKEN_HEADER :: string where
  "HV_TOKEN_HEADER = ''x-pm-human-verification-token''"
definition HV_TOKEN_TYPE_HEADER :: string where
  "HV_TOKEN_TYPE_HEADER = ''x-pm-human-verification-token-type''"
definition ACCEPT :: string where "ACCEPT = ''accept''"
definition AUTHORIZATION :: string where "AUTHORIZATION = ''authorization''"
definition USER_AGENT :: string where "USER_AGENT = ''user-agent''"
definition API_CONTENT_TYPE :: string where
  "API_CONTENT_TYPE = ''application/vnd.protonmail.api+json''"

definition ensure_trailing_slash :: "string \<Rightarrow> string" where
  "ensure_trailing_slash url = (if url \<noteq> [] \<and> last url = CHR ''/'' then url else url @ ''/'')"

definition user_agent_header :: "client_configuration \<Rightarrow> (string \<times> string) list" where
  "user_agent_header cfg =
     (if cfg_user_agent cfg = [] then [] else [(USER_AGENT, cfg_user_agent cfg)])"

section \<open>What the network and the decoders answer\<close>

datatype body_read = BodyOk bytes | BodyErr transport_error

text \<open>
  One \<open>build().send().await\<close>: the server answered with a status, an optional
  \<open>Retry-After\<close> header (as text) and a body that reads to its end or breaks off;
  or the send itself failed.
\<close>

datatype attempt = Answered nat "string option" body_read | SendErr transport_error

record 'w net =
  net_send :: "http_request \<Rightarrow> 'w \<Rightarrow> attempt \<times> 'w"
  net_jitter :: "nat \<Rightarrow> 'w \<Rightarrow> nat \<times> 'w"

record tokens =
  access_token :: string
  refresh_token :: string

record codec =
  dec_envelope :: "bytes \<Rightarrow> api_response option"
  dec_refresh :: "bytes \<Rightarrow> string + tokens"
  enc_refresh :: "string \<Rightarrow> string \<Rightarrow> bytes"
  canonical_reason :: "nat \<Rightarrow> string option"

definition status_is_success :: "nat \<Rightarrow> bool" where
  "status_is_success s = (200 \<le> s \<and> s < 300)"

record buffered =
  buf_status :: nat
  buf_bytes :: bytes

section \<open>Retry decisions\<close>

datatype replay = Safe | Unsafe

definition is_retryable_status :: "nat \<Rightarrow> bool" where
  "is_retryable_status s = (s = 408 \<or> s = 429 \<or> s = 502 \<or> s = 503 \<or> s = 504)"

definition is_retryable_error :: "transport_error \<Rightarrow> replay \<Rightarrow> bool" where
  "is_retryable_error e r = (te_timeout e \<or> te_connect e \<or> (r = Safe \<and> te_request e))"

definition parse_retry_after_secs :: "string \<Rightarrow> duration option" where
  "parse_retry_after_secs v = map_option from_secs (parse_u64 (trim v))"

definition retry_after :: "string option \<Rightarrow> duration option" where
  "retry_after header = Option.bind header parse_retry_after_secs"

definition checked_shl_one :: "u32 \<Rightarrow> u32 option" where
  "checked_shl_one a = (if unat a < 32 then Some (push_bit (unat a) 1) else None)"

definition u32_max :: u32 where
  "u32_max = - 1"

definition backoff_ceiling :: "retry_policy \<Rightarrow> u32 \<Rightarrow> duration" where
  "backoff_ceiling p attempt =
     min (duration_saturating_mul (base_delay p)
            (case checked_shl_one attempt of Some k \<Rightarrow> k | None \<Rightarrow> u32_max))
         (max_delay p)"

definition backoff :: "'w net \<Rightarrow> retry_policy \<Rightarrow> u32 \<Rightarrow> 'w \<Rightarrow> duration \<times> 'w" where
  "backoff n p attempt w =
     (let ceiling_ms = as_millis (backoff_ceiling p attempt) mod 2 ^ 64
      in if ceiling_ms = 0 then (0, w)
         else (let (ms, w') = net_jitter n ceiling_ms w in (from_millis ms, w')))"

text \<open>What one attempt leads to: the loop's answer, or another attempt after a delay.\<close>

datatype ('a, 'w) decision = Finish 'a 'w | Again duration 'w

definition retry_or_fail ::
  "'w net \<Rightarrow> retry_policy \<Rightarrow> u32 \<Rightarrow> bool \<Rightarrow> transport_error \<Rightarrow> 'w \<Rightarrow> (buffered result, 'w) decision" where
  "retry_or_fail n p attempt retry e w =
     (if retry \<and> attempt < max_retries p
      then (let (d, w') = backoff n p attempt w in Again d w')
      else Finish (Inl (Transport e)) w)"

definition retrying_decision ::
  "'w net \<Rightarrow> retry_policy \<Rightarrow> replay \<Rightarrow> u32 \<Rightarrow> attempt \<Rightarrow> 'w \<Rightarrow> (buffered result, 'w) decision" where
  "retrying_decision n p replay attempt a w =
     (case a of
        Answered status header body \<Rightarrow>
          if attempt < max_retries p \<and> is_retryable_status status then
            (case retry_after header of
               Some delay \<Rightarrow> Again (min delay (max_retry_after p)) w
             | None \<Rightarrow> (let (d, w') = backoff n p attempt w in Again d w'))
          else
            (case body of
               BodyOk bs \<Rightarrow> Finish (Inr \<lparr>buf_status = status, buf_bytes = bs\<rparr>) w
             | BodyErr e \<Rightarrow> retry_or_fail n p attempt (replay = Safe) e w)
      | SendErr e \<Rightarrow> retry_or_fail n p attempt (is_retryable_error e replay) e w)"

text \<open>
  \<open>send_unrepeatable\<close> returns the response unread; \<open>parse_response\<close> reads its body
  next, so the decision reads it in the same place.
\<close>

definition unrepeatable_decision ::
  "'w net \<Rightarrow> retry_policy \<Rightarrow> u32 \<Rightarrow> attempt \<Rightarrow> 'w \<Rightarrow> (buffered result, 'w) decision" where
  "unrepeatable_decision n p attempt a w =
     (case a of
        Answered status header body \<Rightarrow>
          (case body of
             BodyOk bs \<Rightarrow> Finish (Inr \<lparr>buf_status = status, buf_bytes = bs\<rparr>) w
           | BodyErr e \<Rightarrow> Finish (Inl (Transport e)) w)
      | SendErr e \<Rightarrow> retry_or_fail n p attempt (te_connect e) e w)"

lemma retry_or_fail_Again:
  "retry_or_fail n p attempt retry e w = Again d w' \<Longrightarrow>
     retry \<and> attempt < max_retries p \<and> backoff n p attempt w = (d, w')"
  by (auto simp: retry_or_fail_def split: if_splits prod.splits)

lemma retrying_decision_Again_less:
  "retrying_decision n p r attempt a w = Again d w' \<Longrightarrow> attempt < max_retries p"
  by (auto simp: retrying_decision_def
           split: attempt.splits if_splits option.splits body_read.splits prod.splits
           dest: retry_or_fail_Again)

lemma unrepeatable_decision_Again:
  "unrepeatable_decision n p attempt a w = Again d w' \<Longrightarrow>
     attempt < max_retries p \<and> (\<exists>e. a = SendErr e \<and> te_connect e)"
  by (auto simp: unrepeatable_decision_def
           split: attempt.splits body_read.splits dest: retry_or_fail_Again)

lemma unat_Suc_less_bound:
  fixes a m :: u32
  assumes "a < m"
  shows "unat m - unat (a + 1) < unat m - unat a" and "unat (a + 1) = Suc (unat a)"
proof -
  have "unat a < unat m" using assms by (simp add: word_less_nat_alt)
  moreover have "unat m < 2 ^ 32" using unsigned_less [of m] by simp
  ultimately have "unat a + 1 < 2 ^ 32" by simp
  then show suc: "unat (a + 1) = Suc (unat a)"
    by (simp add: unat_word_ariths)
  show "unat m - unat (a + 1) < unat m - unat a"
    using suc \<open>unat a < unat m\<close> by simp
qed

section \<open>The retry loops\<close>

record 'w run =
  run_result :: "buffered result"
  run_attempts :: "attempt list"
  run_sleeps :: "duration list"
  run_world :: 'w

definition run_finish :: "attempt \<Rightarrow> buffered result \<Rightarrow> 'w \<Rightarrow> 'w run" where
  "run_finish a r w =
     \<lparr>run_result = r, run_attempts = [a], run_sleeps = [], run_world = w\<rparr>"

definition run_again :: "attempt \<Rightarrow> duration \<Rightarrow> 'w run \<Rightarrow> 'w run" where
  "run_again a d r =
     r\<lparr>run_attempts := a # run_attempts r, run_sleeps := d # run_sleeps r\<rparr>"

function send_retrying ::
  "'w net \<Rightarrow> retry_policy \<Rightarrow> replay \<Rightarrow> http_request \<Rightarrow> u32 \<Rightarrow> 'w \<Rightarrow> 'w run" where
  "send_retrying n p replay rq attempt w =
     (case net_send n rq w of (a, w1) \<Rightarrow>
        (case retrying_decision n p replay attempt a w1 of
           Finish r w2 \<Rightarrow> run_finish a r w2
         | Again d w2 \<Rightarrow> run_again a d (send_retrying n p replay rq (attempt + 1) w2)))"
  by pat_completeness auto
termination
  by (relation "measure (\<lambda>(n, p, replay, rq, attempt, w). unat (max_retries p) - unat attempt)")
     (auto dest: retrying_decision_Again_less intro: unat_Suc_less_bound)

declare send_retrying.simps [simp del]

function send_unrepeatable ::
  "'w net \<Rightarrow> retry_policy \<Rightarrow> http_request \<Rightarrow> u32 \<Rightarrow> 'w \<Rightarrow> 'w run" where
  "send_unrepeatable n p rq attempt w =
     (case net_send n rq w of (a, w1) \<Rightarrow>
        (case unrepeatable_decision n p attempt a w1 of
           Finish r w2 \<Rightarrow> run_finish a r w2
         | Again d w2 \<Rightarrow> run_again a d (send_unrepeatable n p rq (attempt + 1) w2)))"
  by pat_completeness auto
termination
  by (relation "measure (\<lambda>(n, p, rq, attempt, w). unat (max_retries p) - unat attempt)")
     (auto dest: unrepeatable_decision_Again intro: unat_Suc_less_bound)

declare send_unrepeatable.simps [simp del]

section \<open>The response envelope\<close>

definition api_error :: "codec \<Rightarrow> nat \<Rightarrow> bytes \<Rightarrow> proton_error" where
  "api_error c status bs =
     (let envelope = dec_envelope c bs in
      Api \<lparr>ae_code = (case envelope of Some e \<Rightarrow> resp_code e | None \<Rightarrow> Unknown),
           ae_http_status = status,
           ae_message =
             (case Option.bind envelope resp_error_message of
                Some m \<Rightarrow> m
              | None \<Rightarrow> (case canonical_reason c status of Some r \<Rightarrow> r | None \<Rightarrow> ''unknown error'')),
           ae_details = Option.bind envelope resp_details\<rparr>)"

text \<open>The typed payload decoder \<open>dec\<close> is the derived one of the caller's type.\<close>

definition parse_buffered :: "codec \<Rightarrow> (bytes \<Rightarrow> string + 'a) \<Rightarrow> buffered \<Rightarrow> 'a result" where
  "parse_buffered c dec b =
     (let failed =
        (case dec_envelope c (buf_bytes b) of
           Some e \<Rightarrow> \<not> ApiResponse_is_success e \<and> resp_code e \<noteq> MultipleResponses
         | None \<Rightarrow> \<not> status_is_success (buf_status b))
      in if failed then Inl (api_error c (buf_status b) (buf_bytes b))
         else (case dec (buf_bytes b) of Inl t \<Rightarrow> Inl (Serialization t) | Inr v \<Rightarrow> Inr v))"

text \<open>Block-storage answers: a success body is raw bytes, only an error is an envelope.\<close>

definition storage_outcome :: "codec \<Rightarrow> buffered \<Rightarrow> bytes result" where
  "storage_outcome c b =
     (case dec_envelope c (buf_bytes b) of
        Some e \<Rightarrow>
          if \<not> ApiResponse_is_success e then Inl (api_error c (buf_status b) (buf_bytes b))
          else Inr (buf_bytes b)
      | None \<Rightarrow>
          if \<not> status_is_success (buf_status b)
          then Inl (api_error c (buf_status b) (buf_bytes b))
          else Inr (buf_bytes b))"

section \<open>The client\<close>

text \<open>
  The immutable half of \<open>ApiHttpClient\<close>/\<open>Inner\<close> and the shared mutable half: the
  current tokens and the tokens the registered callback has been handed, in order.
\<close>

record api_http_client =
  cl_base_url :: string
  cl_config :: client_configuration
  cl_session_id :: session_id
  cl_route_prefix :: string
  cl_refresh_tokens :: bool

record 'w client_state =
  cs_tokens :: tokens
  cs_callback :: bool
  cs_notified :: "tokens list"
  cs_world :: 'w

definition ApiHttpClient_new :: "client_configuration \<Rightarrow> session_id \<Rightarrow> api_http_client" where
  "ApiHttpClient_new cfg sid =
     \<lparr>cl_base_url = ensure_trailing_slash (cfg_base_url cfg), cl_config = cfg,
      cl_session_id = sid, cl_route_prefix = '''', cl_refresh_tokens = True\<rparr>"

definition with_base_route :: "api_http_client \<Rightarrow> string \<Rightarrow> api_http_client" where
  "with_base_route cl route = cl\<lparr>cl_route_prefix := route\<rparr>"

definition without_token_refresh :: "api_http_client \<Rightarrow> api_http_client" where
  "without_token_refresh cl = cl\<lparr>cl_refresh_tokens := False\<rparr>"

definition set_on_tokens_refreshed :: "'w client_state \<Rightarrow> 'w client_state" where
  "set_on_tokens_refreshed st = st\<lparr>cs_callback := True\<rparr>"

definition current_tokens :: "'w client_state \<Rightarrow> tokens" where
  "current_tokens st = cs_tokens st"

definition client_url :: "api_http_client \<Rightarrow> string \<Rightarrow> string" where
  "client_url cl path =
     cl_base_url cl @ cl_route_prefix cl @ trim_start_matches (CHR ''/'') path"

definition bearer :: "string \<Rightarrow> string \<times> string" where
  "bearer t = (AUTHORIZATION, ''Bearer '' @ t)"

definition session_headers :: "api_http_client \<Rightarrow> string \<Rightarrow> (string \<times> string) list" where
  "session_headers cl token =
     [(SESSION_ID_HEADER, session_id_str (cl_session_id cl)),
      (APP_VERSION_HEADER, cfg_app_version (cl_config cl)),
      (ACCEPT, API_CONTENT_TYPE), bearer token] @ user_agent_header (cl_config cl)"

definition api_request ::
  "api_http_client \<Rightarrow> http_method \<Rightarrow> string \<Rightarrow> bytes option \<Rightarrow> string \<Rightarrow> http_request" where
  "api_request cl m path body token =
     \<lparr>rq_method = m, rq_url = client_url cl path, rq_headers = session_headers cl token,
      rq_timeout = cfg_request_timeout (cl_config cl),
      rq_body = (case body of None \<Rightarrow> NoBody | Some b \<Rightarrow> JsonBody b)\<rparr>"

definition multipart_request ::
  "api_http_client \<Rightarrow> string \<Rightarrow> bytes \<Rightarrow> (string \<times> bytes) list \<Rightarrow> string \<Rightarrow> http_request" where
  "multipart_request cl path metadata parts token =
     \<lparr>rq_method = POST, rq_url = client_url cl path, rq_headers = session_headers cl token,
      rq_timeout = cfg_storage_timeout (cl_config cl),
      rq_body = MultipartBody
        ((''Metadata'', ''application/json'', metadata) #
         map (\<lambda>(name, bs). (name, ''application/octet-stream'', bs)) parts)\<rparr>"

definition storage_get_request :: "api_http_client \<Rightarrow> string \<Rightarrow> string \<Rightarrow> http_request" where
  "storage_get_request cl url token =
     \<lparr>rq_method = GET, rq_url = url,
      rq_headers = (STORAGE_TOKEN_HEADER, token) # user_agent_header (cl_config cl),
      rq_timeout = cfg_storage_timeout (cl_config cl), rq_body = NoBody\<rparr>"

definition storage_post_request ::
  "api_http_client \<Rightarrow> string \<Rightarrow> string \<Rightarrow> bytes \<Rightarrow> http_request" where
  "storage_post_request cl url token blob =
     \<lparr>rq_method = POST, rq_url = url,
      rq_headers = (STORAGE_TOKEN_HEADER, token) # user_agent_header (cl_config cl),
      rq_timeout = cfg_storage_timeout (cl_config cl),
      rq_body = MultipartBody [(''Block'', ''application/octet-stream'', blob)]\<rparr>"

definition refresh_request :: "codec \<Rightarrow> api_http_client \<Rightarrow> string \<Rightarrow> http_request" where
  "refresh_request c cl rt =
     \<lparr>rq_method = POST, rq_url = cl_base_url cl @ ''auth/v4/refresh'',
      rq_headers =
        [(SESSION_ID_HEADER, session_id_str (cl_session_id cl)),
         (APP_VERSION_HEADER, cfg_app_version (cl_config cl)),
         (ACCEPT, API_CONTENT_TYPE)],
      rq_timeout = cfg_request_timeout (cl_config cl),
      rq_body = JsonBody (enc_refresh c rt (cfg_refresh_redirect_uri (cl_config cl)))\<rparr>"

section \<open>Storage transfers\<close>

definition lift_run :: "'w client_state \<Rightarrow> 'w run \<Rightarrow> buffered result \<times> 'w client_state" where
  "lift_run st r = (run_result r, st\<lparr>cs_world := run_world r\<rparr>)"

definition get_storage_blob ::
  "'w net \<Rightarrow> codec \<Rightarrow> api_http_client \<Rightarrow> string \<Rightarrow> string \<Rightarrow> 'w client_state
     \<Rightarrow> bytes result \<times> 'w client_state" where
  "get_storage_blob n c cl url token st =
     (case lift_run st (send_retrying n (cfg_retry_policy (cl_config cl)) Safe
                          (storage_get_request cl url token) 0 (cs_world st)) of
        (Inl e, st') \<Rightarrow> (Inl e, st')
      | (Inr b, st') \<Rightarrow> (storage_outcome c b, st'))"

definition post_storage_blob ::
  "'w net \<Rightarrow> codec \<Rightarrow> api_http_client \<Rightarrow> string \<Rightarrow> string \<Rightarrow> bytes \<Rightarrow> 'w client_state
     \<Rightarrow> unit result \<times> 'w client_state" where
  "post_storage_blob n c cl url token blob st =
     (case lift_run st (send_retrying n (cfg_retry_policy (cl_config cl)) Unsafe
                          (storage_post_request cl url token blob) 0 (cs_world st)) of
        (Inl e, st') \<Rightarrow> (Inl e, st')
      | (Inr b, st') \<Rightarrow> (map_sum id (\<lambda>_. ()) (storage_outcome c b), st'))"

section \<open>Token refresh\<close>

definition request_refresh ::
  "'w net \<Rightarrow> codec \<Rightarrow> api_http_client \<Rightarrow> string \<Rightarrow> 'w client_state
     \<Rightarrow> tokens result \<times> 'w client_state" where
  "request_refresh n c cl rt st =
     (case lift_run st (send_unrepeatable n (cfg_retry_policy (cl_config cl))
                          (refresh_request c cl rt) 0 (cs_world st)) of
        (Inl e, st') \<Rightarrow> (Inl e, st')
      | (Inr b, st') \<Rightarrow> (parse_buffered c (dec_refresh c) b, st'))"

text \<open>
  The body runs under the refresh lock, so two refreshes never interleave; the
  spawned task that carries it completes whether or not its caller waits.
\<close>

definition refresh_access_token_now ::
  "'w net \<Rightarrow> codec \<Rightarrow> api_http_client \<Rightarrow> string \<Rightarrow> 'w client_state
     \<Rightarrow> string result \<times> 'w client_state" where
  "refresh_access_token_now n c cl rejected st =
     (if access_token (cs_tokens st) \<noteq> rejected
      then (Inr (access_token (cs_tokens st)), st)
      else
        (case request_refresh n c cl (refresh_token (cs_tokens st)) st of
           (Inl e, st') \<Rightarrow> (Inl e, st')
         | (Inr t, st') \<Rightarrow>
             (Inr (access_token t),
              st'\<lparr>cs_tokens := t,
                  cs_notified := (if cs_callback st' then cs_notified st' @ [t]
                                  else cs_notified st')\<rparr>)))"

section \<open>Calls\<close>

definition send_with_token ::
  "'w net \<Rightarrow> api_http_client \<Rightarrow> http_method \<Rightarrow> string \<Rightarrow> bytes option \<Rightarrow> replay \<Rightarrow> string
     \<Rightarrow> 'w client_state \<Rightarrow> buffered result \<times> 'w client_state" where
  "send_with_token n cl m path body replay token st =
     lift_run st (send_retrying n (cfg_retry_policy (cl_config cl)) replay
                    (api_request cl m path body token) 0 (cs_world st))"

definition send_multipart_with_token ::
  "'w net \<Rightarrow> api_http_client \<Rightarrow> string \<Rightarrow> bytes \<Rightarrow> (string \<times> bytes) list \<Rightarrow> string
     \<Rightarrow> 'w client_state \<Rightarrow> buffered result \<times> 'w client_state" where
  "send_multipart_with_token n cl path metadata parts token st =
     lift_run st (send_retrying n (cfg_retry_policy (cl_config cl)) Unsafe
                    (multipart_request cl path metadata parts token) 0 (cs_world st))"

definition is_terminal_account_state :: "codec \<Rightarrow> bytes \<Rightarrow> bool" where
  "is_terminal_account_state c bs =
     (case dec_envelope c bs of
        Some e \<Rightarrow> resp_code e = AccountDeleted \<or> resp_code e = AccountDisabled
      | None \<Rightarrow> False)"

text \<open>
  A 401 answered to \<open>resend\<close>'s request: give up on a terminal account state,
  otherwise refresh and send once more with the new token.
\<close>

definition handle_unauthorized ::
  "'w net \<Rightarrow> codec \<Rightarrow> api_http_client
     \<Rightarrow> (string \<Rightarrow> 'w client_state \<Rightarrow> buffered result \<times> 'w client_state)
     \<Rightarrow> buffered \<Rightarrow> string \<Rightarrow> 'w client_state \<Rightarrow> buffered result \<times> 'w client_state" where
  "handle_unauthorized n c cl resend b rejected st =
     (if is_terminal_account_state c (buf_bytes b) then (Inl (api_error c 401 (buf_bytes b)), st)
      else
        (case refresh_access_token_now n c cl rejected st of
           (Inl e, st') \<Rightarrow> (Inl e, st')
         | (Inr token, st') \<Rightarrow> resend token st'))"

definition authorized ::
  "'w net \<Rightarrow> codec \<Rightarrow> api_http_client
     \<Rightarrow> (string \<Rightarrow> 'w client_state \<Rightarrow> buffered result \<times> 'w client_state)
     \<Rightarrow> (bytes \<Rightarrow> string + 'a) \<Rightarrow> 'w client_state \<Rightarrow> 'a result \<times> 'w client_state" where
  "authorized n c cl issue dec st =
     (let token = access_token (cs_tokens st) in
      case issue token st of
        (Inl e, st1) \<Rightarrow> (Inl e, st1)
      | (Inr b, st1) \<Rightarrow>
          (case (if buf_status b = 401 \<and> cl_refresh_tokens cl
                 then handle_unauthorized n c cl issue b token st1
                 else (Inr b, st1)) of
             (Inl e, st2) \<Rightarrow> (Inl e, st2)
           | (Inr b', st2) \<Rightarrow> (parse_buffered c dec b', st2)))"

definition send ::
  "'w net \<Rightarrow> codec \<Rightarrow> api_http_client \<Rightarrow> http_method \<Rightarrow> string \<Rightarrow> bytes option \<Rightarrow> replay
     \<Rightarrow> (bytes \<Rightarrow> string + 'a) \<Rightarrow> 'w client_state \<Rightarrow> 'a result \<times> 'w client_state" where
  "send n c cl m path body replay dec st =
     authorized n c cl (send_with_token n cl m path body replay) dec st"

definition post_multipart ::
  "'w net \<Rightarrow> codec \<Rightarrow> api_http_client \<Rightarrow> string \<Rightarrow> bytes \<Rightarrow> (string \<times> bytes) list
     \<Rightarrow> (bytes \<Rightarrow> string + 'a) \<Rightarrow> 'w client_state \<Rightarrow> 'a result \<times> 'w client_state" where
  "post_multipart n c cl path metadata parts dec st =
     authorized n c cl (send_multipart_with_token n cl path metadata parts) dec st"

definition http_get where
  "http_get n c cl path dec st = send n c cl GET path None Safe dec st"

definition http_post where
  "http_post n c cl path body dec st = send n c cl POST path (Some body) Unsafe dec st"

definition http_post_query where
  "http_post_query n c cl path body dec st = send n c cl POST path (Some body) Safe dec st"

definition http_put where
  "http_put n c cl path body dec st = send n c cl PUT path (Some body) Unsafe dec st"

definition http_delete where
  "http_delete n c cl path dec st = send n c cl DELETE path None Unsafe dec st"

definition http_delete_with_body where
  "http_delete_with_body n c cl path body dec st =
     send n c cl DELETE path (Some body) Unsafe dec st"

section \<open>Session-less calls\<close>

definition unauthenticated_url :: "client_configuration \<Rightarrow> string \<Rightarrow> string" where
  "unauthenticated_url cfg path =
     ensure_trailing_slash (cfg_base_url cfg) @ trim_start_matches (CHR ''/'') path"

definition unauthenticated_request ::
  "client_configuration \<Rightarrow> http_method \<Rightarrow> string \<Rightarrow> request_body
     \<Rightarrow> human_verification_credential option \<Rightarrow> http_request" where
  "unauthenticated_request cfg m path body hv =
     \<lparr>rq_method = m, rq_url = unauthenticated_url cfg path,
      rq_headers =
        [(APP_VERSION_HEADER, cfg_app_version cfg), (ACCEPT, API_CONTENT_TYPE)] @
        user_agent_header cfg @
        (case hv of None \<Rightarrow> []
         | Some h \<Rightarrow> [(HV_TOKEN_HEADER, hvc_token h), (HV_TOKEN_TYPE_HEADER, hvc_method h)]),
      rq_timeout = cfg_request_timeout cfg, rq_body = body\<rparr>"

definition get_unauthenticated ::
  "'w net \<Rightarrow> codec \<Rightarrow> client_configuration \<Rightarrow> string \<Rightarrow> (bytes \<Rightarrow> string + 'a) \<Rightarrow> 'w
     \<Rightarrow> 'a result \<times> 'w" where
  "get_unauthenticated n c cfg path dec w =
     (let r = send_retrying n (cfg_retry_policy cfg) Safe
                (unauthenticated_request cfg GET path NoBody None) 0 w
      in (case run_result r of Inl e \<Rightarrow> Inl e | Inr b \<Rightarrow> parse_buffered c dec b, run_world r))"

definition post_unauthenticated_verified ::
  "'w net \<Rightarrow> codec \<Rightarrow> client_configuration \<Rightarrow> string \<Rightarrow> bytes
     \<Rightarrow> human_verification_credential option \<Rightarrow> (bytes \<Rightarrow> string + 'a) \<Rightarrow> 'w
     \<Rightarrow> 'a result \<times> 'w" where
  "post_unauthenticated_verified n c cfg path body hv dec w =
     (let r = send_retrying n (cfg_retry_policy cfg) Unsafe
                (unauthenticated_request cfg POST path (JsonBody body) hv) 0 w
      in (case run_result r of Inl e \<Rightarrow> Inl e | Inr b \<Rightarrow> parse_buffered c dec b, run_world r))"

definition post_unauthenticated where
  "post_unauthenticated n c cfg path body dec w =
     post_unauthenticated_verified n c cfg path body None dec w"

section \<open>The contract both retry loops share\<close>

text \<open>
  A loop that sends, decides and either finishes or sleeps and goes round, where
  going round is only ever decided below the retry limit.
\<close>

locale retry_loop =
  fixes loop :: "u32 \<Rightarrow> 'w \<Rightarrow> 'w run"
    and limit :: u32
    and decide :: "u32 \<Rightarrow> attempt \<Rightarrow> 'w \<Rightarrow> (buffered result, 'w) decision"
    and transmit :: "'w \<Rightarrow> attempt \<times> 'w"
  assumes unfold:
    "loop k w = (case transmit w of (a, w1) \<Rightarrow>
       (case decide k a w1 of
          Finish r w2 \<Rightarrow> run_finish a r w2
        | Again d w2 \<Rightarrow> run_again a d (loop (k + 1) w2)))"
    and again_less: "decide k a w = Again d w' \<Longrightarrow> k < limit"
begin

lemma loop_induct [case_names Finish Again]:
  assumes fin: "\<And>k w a w1 r w2. transmit w = (a, w1) \<Longrightarrow> decide k a w1 = Finish r w2 \<Longrightarrow>
      P k (run_finish a r w2)"
    and again: "\<And>k w a w1 d w2. transmit w = (a, w1) \<Longrightarrow> decide k a w1 = Again d w2 \<Longrightarrow>
      P (k + 1) (loop (k + 1) w2) \<Longrightarrow> P k (run_again a d (loop (k + 1) w2))"
  shows "P k (loop k w)"
proof (induction "unat limit - unat k" arbitrary: k w rule: less_induct)
  case less
  obtain a w1 where aw: "transmit w = (a, w1)" by (cases "transmit w")
  show ?case
  proof (cases "decide k a w1")
    case (Finish r w2)
    with fin [OF aw] aw show ?thesis by (simp add: unfold [of k w])
  next
    case (Again d w2)
    have "unat limit - unat (k + 1) < unat limit - unat k"
      using again_less [OF Again] by (rule unat_Suc_less_bound)
    then have "P (k + 1) (loop (k + 1) w2)" by (rule less)
    with again [OF aw Again] aw Again show ?thesis by (simp add: unfold [of k w])
  qed
qed

lemma attempts_nonempty: "run_attempts (loop k w) \<noteq> []"
  by (rule loop_induct) (simp_all add: run_finish_def run_again_def)

lemma sleeps_length: "Suc (length (run_sleeps (loop k w))) = length (run_attempts (loop k w))"
  by (rule loop_induct) (simp_all add: run_finish_def run_again_def)

lemma attempts_bound: "length (run_attempts (loop k w)) \<le> Suc (unat limit - unat k)"
proof (induction rule: loop_induct)
  case (Finish k w a w1 r w2)
  then show ?case by (simp add: run_finish_def)
next
  case (Again k w a w1 d w2)
  have "k < limit" using Again(2) by (rule again_less)
  then have "unat k < unat limit" "unat (k + 1) = Suc (unat k)"
    by (simp_all add: word_less_nat_alt unat_Suc_less_bound)
  with Again(3) show ?case by (simp add: run_again_def)
qed

lemma butlast_decided:
  "x \<in> set (butlast (run_attempts (loop k w))) \<Longrightarrow> \<exists>j v d v'. decide j x v = Again d v'"
proof (induction rule: loop_induct)
  case (Finish k w a w1 r w2)
  then show ?case by (simp add: run_finish_def)
next
  case (Again k w a w1 d w2)
  have "butlast (run_attempts (run_again a d (loop (k + 1) w2)))
      = a # butlast (run_attempts (loop (k + 1) w2))"
    using attempts_nonempty by (simp add: run_again_def)
  with Again show ?case by auto
qed

lemma sleeps_decided:
  "d \<in> set (run_sleeps (loop k w)) \<Longrightarrow> \<exists>j a v v'. decide j a v = Again d v'"
  by (induction rule: loop_induct) (auto simp: run_finish_def run_again_def)

lemma result_decided:
  "\<exists>j v v'. decide j (last (run_attempts (loop k w))) v = Finish (run_result (loop k w)) v'"
proof (induction rule: loop_induct)
  case (Finish k w a w1 r w2)
  then show ?case by (auto simp: run_finish_def)
next
  case (Again k w a w1 d w2)
  then show ?case using attempts_nonempty by (auto simp: run_again_def)
qed

end

interpretation retrying:
  retry_loop "send_retrying n p replay rq" "max_retries p" "retrying_decision n p replay"
    "net_send n rq" for n p replay rq
  by unfold_locales (simp add: send_retrying.simps, rule retrying_decision_Again_less)

interpretation unrepeatable:
  retry_loop "send_unrepeatable n p rq" "max_retries p" "unrepeatable_decision n p"
    "net_send n rq" for n p rq
  by unfold_locales (simp add: send_unrepeatable.simps, simp add: unrepeatable_decision_Again)

section \<open>Delays\<close>

definition jitter_bounded :: "'w net \<Rightarrow> bool" where
  "jitter_bounded n = (\<forall>c w. fst (net_jitter n c w) \<le> c)"

lemma backoff_ceiling_le: "backoff_ceiling p k \<le> max_delay p"
  by (simp add: backoff_ceiling_def)

lemma backoff_le:
  assumes "jitter_bounded n"
  shows "fst (backoff n p k w) \<le> max_delay p"
proof -
  let ?m = "as_millis (backoff_ceiling p k) mod 2 ^ 64"
  have "fst (net_jitter n ?m w) \<le> ?m"
    using assms by (simp add: jitter_bounded_def)
  then have "from_millis (fst (net_jitter n ?m w)) \<le> from_millis ?m"
    by (simp add: from_millis_def)
  also have "\<dots> \<le> from_millis (as_millis (backoff_ceiling p k))"
    by (simp add: from_millis_def)
  also have "\<dots> \<le> backoff_ceiling p k"
    by (simp add: from_millis_def as_millis_def)
  also have "\<dots> \<le> max_delay p" by (rule backoff_ceiling_le)
  finally show ?thesis
    by (auto simp: backoff_def Let_def split: prod.splits)
qed

lemma retry_or_fail_delay:
  "jitter_bounded n \<Longrightarrow> retry_or_fail n p k retry e w = Again d w' \<Longrightarrow> d \<le> max_delay p"
  by (metis backoff_le fst_conv retry_or_fail_Again)

lemma retrying_decision_delay:
  assumes "jitter_bounded n" and "retrying_decision n p r k a w = Again d w'"
  shows "d \<le> max (max_delay p) (max_retry_after p)"
proof (cases a)
  case (Answered status header body)
  show ?thesis
  proof (cases "k < max_retries p \<and> is_retryable_status status")
    case True
    show ?thesis
    proof (cases "retry_after header")
      case None
      then have "d = fst (backoff n p k w)"
        using assms(2) Answered True
        by (auto simp: retrying_decision_def split: prod.splits)
      then show ?thesis using backoff_le [OF assms(1)] by (simp add: le_max_iff_disj)
    next
      case (Some delay)
      then have "d = min delay (max_retry_after p)"
        using assms(2) Answered True by (auto simp: retrying_decision_def)
      then show ?thesis by (simp add: le_max_iff_disj)
    qed
  next
    case False
    then obtain e where "retry_or_fail n p k (r = Safe) e w = Again d w'"
      using assms(2) Answered
      by (cases body) (auto simp: retrying_decision_def)
    then show ?thesis using retry_or_fail_delay [OF assms(1)] by (simp add: le_max_iff_disj)
  qed
next
  case (SendErr e)
  then have "retry_or_fail n p k (is_retryable_error e r) e w = Again d w'"
    using assms(2) by (simp add: retrying_decision_def)
  then show ?thesis using retry_or_fail_delay [OF assms(1)] by (simp add: le_max_iff_disj)
qed

section \<open>Which attempts may be repeated\<close>

text \<open>An attempt after which an unsafe request may be sent again.\<close>

fun replayable_unsafe :: "attempt \<Rightarrow> bool" where
  "replayable_unsafe (Answered s h b) = is_retryable_status s"
| "replayable_unsafe (SendErr e) = (te_timeout e \<or> te_connect e)"

text \<open>An attempt whose request may have reached the server.\<close>

fun reached_server :: "attempt \<Rightarrow> bool" where
  "reached_server (Answered s h b) = True"
| "reached_server (SendErr e) = (\<not> te_connect e)"

lemma retrying_decision_Again_unsafe:
  "retrying_decision n p Unsafe k a w = Again d w' \<Longrightarrow> replayable_unsafe a"
  by (cases a)
     (auto simp: retrying_decision_def is_retryable_error_def
           split: if_splits option.splits body_read.splits prod.splits
           dest!: retry_or_fail_Again)

lemma filter_nil_butlast:
  "xs \<noteq> [] \<Longrightarrow> \<forall>x\<in>set (butlast xs). \<not> P x \<Longrightarrow> length (filter P xs) \<le> 1"
proof -
  assume "xs \<noteq> []" and none: "\<forall>x\<in>set (butlast xs). \<not> P x"
  then have "xs = butlast xs @ [last xs]" by simp
  then have "filter P xs = filter P (butlast xs) @ filter P [last xs]"
    by (metis filter_append)
  moreover have "filter P (butlast xs) = []" using none by (simp add: filter_empty_conv)
  ultimately show ?thesis by simp
qed

section \<open>Properties\<close>

text \<open>every retried request ends: it is sent at least once, at most one time more than
  the policy's retry budget, and sleeps exactly between two consecutive attempts.\<close>

theorem send_retrying_attempts:
  "run_attempts (send_retrying n p replay rq 0 w) \<noteq> []
   \<and> length (run_attempts (send_retrying n p replay rq 0 w)) \<le> Suc (unat (max_retries p))
   \<and> Suc (length (run_sleeps (send_retrying n p replay rq 0 w)))
       = length (run_attempts (send_retrying n p replay rq 0 w))"
  using retrying.attempts_nonempty [of n p replay rq 0 w]
    retrying.attempts_bound [of n p replay rq 0 w]
    retrying.sleeps_length [of n p replay rq 0 w] by simp

text \<open>no single sleep of the retry loop exceeds the larger of the policy's backoff
  ceiling and its Retry-After ceiling, whatever the server advises and whatever the jitter
  source draws inside the range it was asked for.\<close>

theorem send_retrying_sleeps:
  assumes "jitter_bounded n"
    and "d \<in> set (run_sleeps (send_retrying n p replay rq 0 w))"
  shows "d \<le> max (max_delay p) (max_retry_after p)"
  using retrying.sleeps_decided [OF assms(2)] retrying_decision_delay [OF assms(1)] by blast

text \<open>a request that may change something is sent again only after a retryable status,
  a timeout or a failure to connect: never after a dropped connection or a body that broke
  off.\<close>

theorem unsafe_request_replay:
  "list_all replayable_unsafe (butlast (run_attempts (send_retrying n p Unsafe rq 0 w)))"
  by (auto simp: list_all_iff dest!: retrying.butlast_decided retrying_decision_Again_unsafe)

text \<open>C1: a request sent through \<open>send_unrepeatable\<close>, such as a token refresh, gets past
  connecting in at most one of its attempts, so its single-use token is presented at most
  once.\<close>

theorem unrepeatable_reaches_once:
  "length (filter reached_server (run_attempts (send_unrepeatable n p rq 0 w))) \<le> 1"
proof (rule filter_nil_butlast)
  show "run_attempts (send_unrepeatable n p rq 0 w) \<noteq> []"
    by (rule unrepeatable.attempts_nonempty)
  show "\<forall>x\<in>set (butlast (run_attempts (send_unrepeatable n p rq 0 w))). \<not> reached_server x"
    by (auto dest!: unrepeatable.butlast_decided unrepeatable_decision_Again)
qed

subsection \<open>Token refresh\<close>

text \<open>Callers queued on the refresh lock, each with the token it was rejected with.\<close>

fun refresh_queue ::
  "'w net \<Rightarrow> codec \<Rightarrow> api_http_client \<Rightarrow> string list \<Rightarrow> 'w client_state
     \<Rightarrow> string result list \<times> 'w client_state" where
  "refresh_queue n c cl [] st = ([], st)"
| "refresh_queue n c cl (t # ts) st =
     (let (r, st1) = refresh_access_token_now n c cl t st;
          (rs, st2) = refresh_queue n c cl ts st1
      in (r # rs, st2))"

lemma lift_run_state [simp]:
  "cs_tokens (snd (lift_run st r)) = cs_tokens st"
  "cs_callback (snd (lift_run st r)) = cs_callback st"
  "cs_notified (snd (lift_run st r)) = cs_notified st"
  by (simp_all add: lift_run_def)

lemma request_refresh_state:
  assumes "request_refresh n c cl rt st = (r, st')"
  shows "cs_tokens st' = cs_tokens st \<and> cs_callback st' = cs_callback st
       \<and> cs_notified st' = cs_notified st"
  using assms lift_run_state
  by (auto simp: request_refresh_def lift_run_def split: sum.splits)

lemma refresh_queue_settled:
  "access_token (cs_tokens st) \<noteq> old \<Longrightarrow>
   refresh_queue n c cl (replicate k old) st = (replicate k (Inr (access_token (cs_tokens st))), st)"
  by (induction k) (simp_all add: refresh_access_token_now_def)

text \<open>What a step may do to the tokens: nothing, or replace them once and report exactly
  the stored tokens to the callback.\<close>

definition refreshed_at_most_once :: "'w client_state \<Rightarrow> 'w client_state \<Rightarrow> bool" where
  "refreshed_at_most_once st st' =
     (cs_callback st' = cs_callback st \<and>
      (cs_tokens st' = cs_tokens st \<and> cs_notified st' = cs_notified st \<or>
       cs_notified st' =
         cs_notified st @ (if cs_callback st then [cs_tokens st'] else [])))"

lemma refresh_access_token_now_state:
  "refresh_access_token_now n c cl t st = (r, st') \<Longrightarrow> refreshed_at_most_once st st'"
  by (auto simp: refresh_access_token_now_def refreshed_at_most_once_def
           dest!: request_refresh_state split: if_splits prod.splits sum.splits)

definition keeps_tokens ::
  "(string \<Rightarrow> 'w client_state \<Rightarrow> buffered result \<times> 'w client_state) \<Rightarrow> bool" where
  "keeps_tokens issue =
     (\<forall>t st. cs_tokens (snd (issue t st)) = cs_tokens st \<and>
             cs_callback (snd (issue t st)) = cs_callback st \<and>
             cs_notified (snd (issue t st)) = cs_notified st)"

lemma keeps_tokensD:
  assumes "keeps_tokens issue" "issue t st = (r, st')"
  shows "cs_tokens st' = cs_tokens st" "cs_callback st' = cs_callback st"
    "cs_notified st' = cs_notified st"
  using assms unfolding keeps_tokens_def by (metis snd_conv)+

lemma handle_unauthorized_state:
  assumes keeps: "keeps_tokens issue"
    and run: "handle_unauthorized n c cl issue b rejected st = (r, st')"
  shows "refreshed_at_most_once st st'"
proof (cases "is_terminal_account_state c (buf_bytes b)")
  case True
  with run show ?thesis by (simp add: handle_unauthorized_def refreshed_at_most_once_def)
next
  case False
  obtain r1 st1 where r1: "refresh_access_token_now n c cl rejected st = (r1, st1)"
    by fastforce
  then have once: "refreshed_at_most_once st st1"
    by (rule refresh_access_token_now_state)
  show ?thesis
  proof (cases r1)
    case (Inl e)
    with run False r1 once show ?thesis by (simp add: handle_unauthorized_def)
  next
    case (Inr t)
    with run False r1 have "issue t st1 = (r, st')" by (simp add: handle_unauthorized_def)
    from keeps_tokensD [OF keeps this] once show ?thesis
      by (auto simp: refreshed_at_most_once_def)
  qed
qed

lemma authorized_state:
  assumes keeps: "keeps_tokens issue"
    and run: "authorized n c cl issue dec st = (r, st')"
  shows "refreshed_at_most_once st st'"
proof -
  let ?t = "access_token (cs_tokens st)"
  obtain r1 st1 where i: "issue ?t st = (r1, st1)" by fastforce
  note same = keeps_tokensD [OF keeps i]
  show ?thesis
  proof (cases r1)
    case (Inl e)
    with run i same show ?thesis by (simp add: authorized_def refreshed_at_most_once_def)
  next
    case (Inr b)
    show ?thesis
    proof (cases "buf_status b = 401 \<and> cl_refresh_tokens cl")
      case True
      obtain r2 st2 where h: "handle_unauthorized n c cl issue b ?t st1 = (r2, st2)"
        by fastforce
      then have "refreshed_at_most_once st1 st2" by (rule handle_unauthorized_state [OF keeps])
      moreover have "st' = st2"
        using run i Inr True h by (auto simp: authorized_def split: sum.splits)
      ultimately show ?thesis using same by (simp add: refreshed_at_most_once_def)
    next
      case False
      with run i Inr have "st' = st1" by (auto simp: authorized_def split: if_splits)
      with same show ?thesis by (simp add: refreshed_at_most_once_def)
    qed
  qed
qed

lemma send_with_token_keeps [simp]: "keeps_tokens (send_with_token n cl m path body replay)"
  by (simp add: keeps_tokens_def send_with_token_def)

lemma send_multipart_with_token_keeps [simp]:
  "keeps_tokens (send_multipart_with_token n cl path metadata parts)"
  by (simp add: keeps_tokens_def send_multipart_with_token_def)

text \<open>C2: callers rejected with the same access token cost one refresh: the first one
  through the refresh lock replaces the tokens, and every later one is handed the new
  access token with no further request and no further change of state.\<close>

theorem refresh_coalesces:
  assumes "access_token (cs_tokens st) = old"
    and "request_refresh n c cl (refresh_token (cs_tokens st)) st = (Inr t, st1)"
    and "access_token t \<noteq> old"
  shows "refresh_queue n c cl (replicate (Suc k) old) st =
     (replicate (Suc k) (Inr (access_token t)),
      st1\<lparr>cs_tokens := t,
          cs_notified := (if cs_callback st then cs_notified st @ [t] else cs_notified st)\<rparr>)"
proof -
  let ?st2 = "st1\<lparr>cs_tokens := t,
    cs_notified := (if cs_callback st then cs_notified st @ [t] else cs_notified st)\<rparr>"
  have "refresh_access_token_now n c cl old st = (Inr (access_token t), ?st2)"
    using assms request_refresh_state [OF assms(2)] by (simp add: refresh_access_token_now_def)
  moreover have "refresh_queue n c cl (replicate k old) ?st2 =
      (replicate k (Inr (access_token t)), ?st2)"
    using refresh_queue_settled [of ?st2 old] assms(3) by simp
  ultimately show ?thesis by simp
qed

text \<open>one typed call, whatever the server answers, leaves the session's tokens alone or
  replaces them once, and then the refresh callback has been told exactly the stored
  tokens.\<close>

theorem send_refreshes_at_most_once:
  "refreshed_at_most_once st (snd (send n c cl m path body replay dec st))"
  using authorized_state [OF send_with_token_keeps] by (metis prod.collapse send_def)

text \<open>a client derived with \<open>without_token_refresh\<close> never touches the tokens, and hands
  a 401 that carries a failure envelope to the caller as an API error with that status,
  also after a change of base route.\<close>

theorem without_refresh_surfaces_401:
  assumes "cl' = with_base_route (without_token_refresh cl) route"
    and "send_with_token n cl' m path body replay (access_token (cs_tokens st)) st = (Inr b, st1)"
    and "buf_status b = 401"
    and "dec_envelope c (buf_bytes b) = Some e" "resp_code e \<noteq> Success"
      "resp_code e \<noteq> MultipleResponses"
  shows "send n c cl' m path body replay dec st = (Inl (api_error c 401 (buf_bytes b)), st1)
       \<and> cs_tokens st1 = cs_tokens st \<and> cs_notified st1 = cs_notified st"
proof -
  have "\<not> cl_refresh_tokens cl'"
    using assms(1) by (simp add: with_base_route_def without_token_refresh_def)
  then have "send n c cl' m path body replay dec st = (Inl (api_error c 401 (buf_bytes b)), st1)"
    using assms(2-6)
    by (simp add: send_def authorized_def parse_buffered_def ApiResponse_is_success_def Let_def)
  moreover have "cs_tokens st1 = cs_tokens st \<and> cs_notified st1 = cs_notified st"
    using keeps_tokensD [OF send_with_token_keeps assms(2)] by simp
  ultimately show ?thesis by blast
qed

text \<open>an envelope that declares success decides the outcome on its own: the payload is
  returned whatever the HTTP status is, 401 and 500 included.\<close>

theorem success_envelope_overrides_status:
  assumes "dec_envelope c bs = Some e" and "resp_code e = Success" and "dec bs = Inr v"
  shows "parse_buffered c dec \<lparr>buf_status = status, buf_bytes = bs\<rparr> = Inr v"
  using assms by (simp add: parse_buffered_def ApiResponse_is_success_def Let_def)

subsection \<open>Witnesses\<close>

definition example_codec :: codec where
  "example_codec =
     \<lparr>dec_envelope = (\<lambda>bs. if bs = [] then Some \<lparr>resp_code = Success, resp_error_message = None,
                                               resp_details = None\<rparr>
                           else Some \<lparr>resp_code = Unauthorized, resp_error_message = None,
                                      resp_details = None\<rparr>),
      dec_refresh = (\<lambda>bs. Inr \<lparr>access_token = ''new'', refresh_token = ''r2''\<rparr>),
      enc_refresh = (\<lambda>rt uri. []),
      canonical_reason = (\<lambda>s. None)\<rparr>"

text \<open>A server that rate-limits twice, asking for an hour, then answers.\<close>

definition example_net :: "nat net" where
  "example_net =
     \<lparr>net_send = (\<lambda>rq w. if w < 2 then (Answered 429 (Some ''3600'') (BodyOk []), Suc w)
                          else (Answered 200 None (BodyOk []), Suc w)),
      net_jitter = (\<lambda>c w. (c div 2, w))\<rparr>"

definition example_client :: api_http_client where
  "example_client = ApiHttpClient_new (ProtonClientConfiguration_new ''app@1'') (SessionId ''s'')"

definition example_state :: "nat \<Rightarrow> nat client_state" where
  "example_state w =
     \<lparr>cs_tokens = \<lparr>access_token = ''old'', refresh_token = ''r1''\<rparr>, cs_callback = True,
      cs_notified = [], cs_world = w\<rparr>"

definition reject_net :: "nat net" where
  "reject_net =
     \<lparr>net_send = (\<lambda>rq w. (Answered 401 None (BodyOk [1]), Suc w)), net_jitter = (\<lambda>c w. (0, w))\<rparr>"

lemmas example_defs =
  example_codec_def example_net_def example_client_def example_state_def reject_net_def
  ApiHttpClient_new_def ProtonClientConfiguration_new_def RetryPolicy_default_def
  DEFAULT_TIMEOUT_def DEFAULT_STORAGE_TIMEOUT_def

lemma jitter_bounded_example: "jitter_bounded example_net"
  by (simp add: jitter_bounded_def example_net_def)

lemma parse_3600: "parse_retry_after_secs ''3600'' = Some (from_secs 3600)"
  by (simp add: parse_retry_after_secs_def trim_def is_space_def parse_u64_def digits_value_def
      digit_value_def is_digit_def)

lemma example_run_sleeps:
  "run_sleeps (send_retrying example_net RetryPolicy_default Safe rq 0 0) =
     [from_secs 120, from_secs 120]"
  by (simp add: send_retrying.simps retrying_decision_def is_retryable_status_def
      RetryPolicy_default_def retry_after_def parse_3600 run_again_def run_finish_def
      from_secs_def example_net_def)

theorem send_retrying_sleeps_witness:
  "from_secs 120 \<in> set (run_sleeps (send_retrying example_net RetryPolicy_default Safe
       (refresh_request example_codec example_client ''r1'') 0 0))
   \<and> from_secs 120 \<le> max (max_delay RetryPolicy_default) (max_retry_after RetryPolicy_default)"
proof -
  have m: "from_secs 120 \<in> set (run_sleeps (send_retrying example_net RetryPolicy_default Safe
       (refresh_request example_codec example_client ''r1'') 0 0))"
    by (simp add: example_run_sleeps)
  show ?thesis using m send_retrying_sleeps [OF jitter_bounded_example m] by simp
qed

lemma example_refresh:
  "request_refresh example_net example_codec example_client
     (refresh_token (cs_tokens (example_state 2))) (example_state 2)
   = (Inr \<lparr>access_token = ''new'', refresh_token = ''r2''\<rparr>, example_state 3)"
  by (simp add: request_refresh_def send_unrepeatable.simps unrepeatable_decision_def
      lift_run_def run_finish_def parse_buffered_def ApiResponse_is_success_def example_defs)

theorem refresh_coalesces_witness:
  "fst (refresh_queue example_net example_codec example_client (replicate 3 ''old'')
        (example_state 2)) = [Inr ''new'', Inr ''new'', Inr ''new'']"
proof -
  have old: "access_token (cs_tokens (example_state 2)) = ''old''"
    by (simp add: example_state_def)
  show ?thesis
    using refresh_coalesces [OF old example_refresh, of 2]
    by (simp add: numeral_3_eq_3 numeral_2_eq_2)
qed

lemma reject_sent:
  "send_with_token reject_net
     (with_base_route (without_token_refresh example_client) ''drive/'') GET ''p'' None Safe
     (access_token (cs_tokens (example_state 0))) (example_state 0)
   = (Inr \<lparr>buf_status = 401, buf_bytes = [1]\<rparr>, example_state 1)"
  by (simp add: send_with_token_def send_retrying.simps retrying_decision_def
      is_retryable_status_def lift_run_def run_finish_def with_base_route_def
      without_token_refresh_def example_defs)

theorem without_refresh_surfaces_401_witness:
  "fst (send reject_net example_codec
          (with_base_route (without_token_refresh example_client) ''drive/'') GET ''p'' None Safe
          (\<lambda>bs. Inr ()) (example_state 0))
   = Inl (api_error example_codec 401 [1])"
  using without_refresh_surfaces_401 [OF refl reject_sent, of example_codec
      "\<lparr>resp_code = Unauthorized, resp_error_message = None, resp_details = None\<rparr>" "\<lambda>bs. Inr ()"]
  by (simp add: example_codec_def)

theorem success_envelope_overrides_status_witness:
  "parse_buffered example_codec (\<lambda>bs. Inr bs) \<lparr>buf_status = 500, buf_bytes = []\<rparr> = Inr []"
  using success_envelope_overrides_status [of example_codec "[]"
      "\<lparr>resp_code = Success, resp_error_message = None, resp_details = None\<rparr>" "\<lambda>bs. Inr bs" "[]" 500]
  by (simp add: example_codec_def)

end
