(* ===== verification/Transport.thy ===== *)
theory Transport
  imports Http Node Effects
begin

text \<open>
  What a revision read needs from its client (\<open>proton-drive-rs/src/transport.rs\<close>):
  the session behind its authenticated calls with the one-shot renewal, the paged
  listing of a revision's blocks, and the ranking of the sources of per-block
  sizes.  The two implementations of \<open>BlockSession\<close> are here: the static one and
  the public-link session of \<open>public_link.rs\<close>, whose handshake is an argument.

  State is passed explicitly.  Requests the code issues concurrently and consumes
  in order are run in that order.  A loop whose end depends on the server is a
  \<open>partial_function (option)\<close>; \<^const>\<open>None\<close> means it never returns.
\<close>

section \<open>Sessions\<close>

record 's block_session =
  bs_http :: "'s \<Rightarrow> api_http_client \<times> u64"
  bs_renew :: "u64 \<Rightarrow> (unit, 's) op"

definition StaticSession :: "api_http_client \<Rightarrow> 's block_session" where
  "StaticSession http = \<lparr>bs_http = (\<lambda>st. (http, 0)), bs_renew = (\<lambda>seen. op_return ())\<rparr>"

text \<open>
  The client of a public link and the tokens it was made with; a handshake gives both, among
  what else it yields, and may never end.
\<close>

record 'w link_session =
  live_http :: api_http_client
  live_tokens :: tokens
  live_generation :: u64
  ls_world :: 'w

definition PublicLinkSession_renew ::
  "(api_http_client \<times> tokens, 'w) op \<Rightarrow> u64 \<Rightarrow> (unit, 'w link_session) op" where
  "PublicLinkSession_renew auth seen st =
     (if live_generation st \<noteq> seen then Some (Inr (), st)
      else (case auth (ls_world st) of
              None \<Rightarrow> None
            | Some (Inl e, w) \<Rightarrow> Some (Inl e, st\<lparr>ls_world := w\<rparr>)
            | Some (Inr (http, tokens), w) \<Rightarrow>
                Some (Inr (), st\<lparr>live_http := http, live_tokens := tokens,
                                live_generation := live_generation st + 1, ls_world := w\<rparr>)))"

definition PublicLinkSession :: "(api_http_client \<times> tokens, 'w) op \<Rightarrow> 'w link_session block_session" where
  "PublicLinkSession auth =
     \<lparr>bs_http = (\<lambda>st. (live_http st, live_generation st)),
      bs_renew = PublicLinkSession_renew auth\<rparr>"

definition PublicLinkSession_open ::
  "('a \<Rightarrow> api_http_client \<times> tokens) \<Rightarrow> ('a, 'w) op \<Rightarrow> ('w link_session \<times> 'a, 'w) op" where
  "PublicLinkSession_open client_of auth =
     op_bind auth (\<lambda>a.
     op_bind (op_get (\<lambda>w. w)) (\<lambda>w.
       op_return (\<lparr>live_http = fst (client_of a), live_tokens = snd (client_of a), live_generation = 0, ls_world = w\<rparr>, a)))"

definition is_session_expired :: "proton_error \<Rightarrow> bool" where
  "is_session_expired e = (case e of Api a \<Rightarrow> ae_http_status a = 401 | _ \<Rightarrow> False)"

text \<open>
  The shape \<open>RevisionTransport::get\<close> and \<open>post_query\<close> share: issue the call
  through the current session and, when the session is gone, renew it and issue
  the call once more.
\<close>

definition with_renewal ::
  "'s block_session \<Rightarrow> (api_http_client \<Rightarrow> 's \<Rightarrow> 'a result \<times> 's) \<Rightarrow> ('a, 's) op" where
  "with_renewal S call st =
     (let (http, generation) = bs_http S st in
      case call http st of
        (Inl e, st1) \<Rightarrow>
          if is_session_expired e then
            (case bs_renew S generation st1 of
               None \<Rightarrow> None
             | Some (Inl e', st2) \<Rightarrow> Some (Inl e', st2)
             | Some (Inr _, st2) \<Rightarrow> Some (call (fst (bs_http S st2)) st2))
          else Some (Inl e, st1)
      | (Inr v, st1) \<Rightarrow> Some (Inr v, st1))"

definition transport_get ::
  "'s block_session \<Rightarrow> (api_http_client \<Rightarrow> string \<Rightarrow> 's \<Rightarrow> 'a result \<times> 's) \<Rightarrow> string \<Rightarrow> ('a, 's) op" where
  "transport_get S get path = with_renewal S (\<lambda>http. get http path)"

definition transport_post_query ::
  "'s block_session \<Rightarrow> (api_http_client \<Rightarrow> string \<Rightarrow> 'b \<Rightarrow> 's \<Rightarrow> 'a result \<times> 's) \<Rightarrow> string \<Rightarrow> 'b
     \<Rightarrow> ('a, 's) op" where
  "transport_post_query S post path body = with_renewal S (\<lambda>http. post http path body)"

section \<open>Listing a revision's blocks\<close>

record block_dto =
  blk_index :: int
  blk_bare_url :: string
  blk_token :: string

record thumbnail_dto =
  tb_id :: "string option"
  tb_thumbnail_type :: int
  tb_hash_digest :: "string option"

record revision_dto =
  rev_id :: string
  rev_manifest_signature :: "string option"
  rev_signature_email :: "string option"
  rev_extended_attributes :: "string option"
  rev_thumbnails :: "thumbnail_dto list"
  rev_blocks :: "block_dto list"

definition PAGE_SIZE :: nat where "PAGE_SIZE = 50"
definition MAX_PAGE_WINDOW :: nat where "MAX_PAGE_WINDOW = 6"

definition block_page_path :: "volume_id \<Rightarrow> link_id \<Rightarrow> string \<Rightarrow> nat \<Rightarrow> string" where
  "block_page_path vid lid revision_id page_index =
     ''v2/volumes/'' @ volume_id_str vid @ ''/files/'' @ link_id_str lid @ ''/revisions/'' @
     revision_id @ ''?FromBlockIndex='' @ nat_to_string (page_index * PAGE_SIZE + 1) @
     ''&PageSize='' @ nat_to_string PAGE_SIZE @ ''&NoBlockUrls=0''"

text \<open>
  One batch: the responses are consumed in page order; once a page came up short
  the rest are read and dropped, but a failure among them still ends the listing.
\<close>

fun fetch_batch ::
  "(nat \<Rightarrow> (revision_dto, 's) op) \<Rightarrow> nat list \<Rightarrow> bool \<Rightarrow> block_dto list \<Rightarrow> (bool \<times> block_dto list, 's) op" where
  "fetch_batch page [] ended blocks st = Some (Inr (ended, blocks), st)"
| "fetch_batch page (p # ps) ended blocks st =
     (case page p st of
        None \<Rightarrow> None
      | Some (Inl e, st') \<Rightarrow> Some (Inl e, st')
      | Some (Inr r, st') \<Rightarrow>
          if ended then fetch_batch page ps ended blocks st'
          else fetch_batch page ps (length (rev_blocks r) < PAGE_SIZE) (blocks @ rev_blocks r) st')"

partial_function (option) fetch_pages ::
  "(nat \<Rightarrow> (revision_dto, 's) op) \<Rightarrow> nat \<Rightarrow> nat \<Rightarrow> bool \<Rightarrow> block_dto list \<Rightarrow> 's
     \<Rightarrow> (block_dto list result \<times> 's) option" where
  "fetch_pages page next_page window ended blocks st =
     (if ended then Some (Inr blocks, st)
      else (case fetch_batch page [next_page..<next_page + window] False blocks st of
              None \<Rightarrow> None
            | Some (Inl e, st') \<Rightarrow> Some (Inl e, st')
            | Some (Inr (c, bs), st') \<Rightarrow>
                fetch_pages page (next_page + window) (min (window * 2) MAX_PAGE_WINDOW) c bs st'))"

definition contiguous :: "block_dto list \<Rightarrow> bool" where
  "contiguous blocks = list_all (\<lambda>(offset, b). blk_index b = int offset + 1) (enumerate 0 blocks)"

definition list_blocks ::
  "'s block_session \<Rightarrow> (api_http_client \<Rightarrow> string \<Rightarrow> 's \<Rightarrow> revision_dto result \<times> 's)
     \<Rightarrow> volume_id \<Rightarrow> link_id \<Rightarrow> string \<Rightarrow> 's \<Rightarrow> ((revision_dto \<times> block_dto list) result \<times> 's) option" where
  "list_blocks S get vid lid revision_id st =
     (let page = (\<lambda>p. transport_get S get (block_page_path vid lid revision_id p)) in
      case page 0 st of
        None \<Rightarrow> None
      | Some (Inl e, st1) \<Rightarrow> Some (Inl e, st1)
      | Some (Inr first, st1) \<Rightarrow>
          (let metadata = first\<lparr>rev_blocks := []\<rparr> in
           case fetch_pages page 1 2 (length (rev_blocks first) < PAGE_SIZE) (rev_blocks first) st1 of
             None \<Rightarrow> None
           | Some (Inl e, st2) \<Rightarrow> Some (Inl e, st2)
           | Some (Inr blocks, st2) \<Rightarrow>
               (let sorted = sort_by_key blk_index blocks in
                if contiguous sorted then Some (Inr (metadata, sorted), st2)
                else Some (Inl (InvalidOperation
                        ''file contents are incomplete (non-contiguous blocks)''), st2))))"

section \<open>Block sizes\<close>

definition DEFAULT_BLOCK_SIZE :: nat where
  "DEFAULT_BLOCK_SIZE = 2 ^ 22"

record common_extended_attributes =
  cx_size :: "int option"
  cx_modification_time :: "string option"
  cx_block_sizes :: "int list option"
  cx_sha1 :: "string option"

definition u64_saturating_sub :: "u64 \<Rightarrow> u64 \<Rightarrow> u64" where
  "u64_saturating_sub a b = (if b \<le> a then a - b else 0)"

definition sizes_from_total :: "u64 \<Rightarrow> nat \<Rightarrow> u64 list" where
  "sizes_from_total sum_size block_count =
     (let block = (of_nat DEFAULT_BLOCK_SIZE :: u64)
      in map (\<lambda>i. min (u64_saturating_sub sum_size (block * of_nat i)) block) [0..<block_count])"

definition sizes_without_vector ::
  "common_extended_attributes option \<Rightarrow> string \<Rightarrow> nat \<Rightarrow> u64 list result" where
  "sizes_without_vector common revision_id block_count =
     (case Option.bind common cx_size of
        Some sum_size \<Rightarrow>
          if 0 \<le> sum_size then Inr (sizes_from_total (of_int sum_size) block_count)
          else if block_count \<le> 1 then Inr (replicate block_count (of_nat DEFAULT_BLOCK_SIZE))
          else Inl (InvalidOperation (''revision '' @ revision_id @ '' has '' @
                 nat_to_string block_count @ '' blocks but no usable size information '' @
                 ''(no block sizes and no total in its extended attributes)''))
      | None \<Rightarrow>
          if block_count \<le> 1 then Inr (replicate block_count (of_nat DEFAULT_BLOCK_SIZE))
          else Inl (InvalidOperation (''revision '' @ revision_id @ '' has '' @
                 nat_to_string block_count @ '' blocks but no usable size information '' @
                 ''(no block sizes and no total in its extended attributes)'')))"

definition rank_block_sizes ::
  "common_extended_attributes option \<Rightarrow> string \<Rightarrow> nat \<Rightarrow> u64 list result" where
  "rank_block_sizes common revision_id block_count =
     (case Option.bind common cx_block_sizes of
        Some sizes \<Rightarrow>
          if length sizes = block_count then
            (case position (\<lambda>n. n \<le> 0) sizes of
               Some bad \<Rightarrow> Inl (InvalidOperation (''revision '' @ revision_id @
                 '' records a non-positive size for block '' @ nat_to_string bad))
             | None \<Rightarrow> Inr (map of_int sizes))
          else sizes_without_vector common revision_id block_count
      | None \<Rightarrow> sizes_without_vector common revision_id block_count)"

section \<open>Generations\<close>

text \<open>
  A resource that callers replace when it has gone stale: each caller names the
  generation it saw fail, and only the first replaces it.  Sessions and block
  tables follow this contract; \<open>burst\<close> is a run of such callers.
\<close>

fun burst ::
  "(u64 \<Rightarrow> 's \<Rightarrow> (unit result \<times> 's) option) \<Rightarrow> u64 list \<Rightarrow> 's \<Rightarrow> (unit result list \<times> 's) option" where
  "burst replace [] s = Some ([], s)"
| "burst replace (g # gs) s =
     (case replace g s of
        None \<Rightarrow> None
      | Some (r, s1) \<Rightarrow> map_option (\<lambda>(rs, s2). (r # rs, s2)) (burst replace gs s1))"

locale generational =
  fixes gen :: "'s \<Rightarrow> u64"
    and replace :: "u64 \<Rightarrow> 's \<Rightarrow> (unit result \<times> 's) option"
  assumes stale: "gen s \<noteq> seen \<Longrightarrow> replace seen s = Some (Inr (), s)"
    and advance: "gen s = seen \<Longrightarrow> replace seen s = Some (Inr (), s') \<Longrightarrow> gen s' = seen + 1"
begin

lemma burst_settled:
  "gen s \<noteq> seen \<Longrightarrow> burst replace (replicate k seen) s = Some (replicate k (Inr ()), s)"
  by (induction k) (simp_all add: stale)

lemma burst_once:
  assumes "gen s = seen" and "replace seen s = Some (Inr (), s')"
  shows "burst replace (replicate (Suc k) seen) s = Some (replicate (Suc k) (Inr ()), s')"
proof -
  have "gen s' \<noteq> seen" using advance [OF assms] by simp
  then show ?thesis using assms(2) by (simp add: burst_settled)
qed

end

interpretation link_session: generational live_generation "PublicLinkSession_renew auth" for auth
  by unfold_locales
     (auto simp: PublicLinkSession_renew_def split: if_splits option.splits prod.splits sum.splits)

section \<open>Lemmas\<close>

lemma contiguous_iff:
  "contiguous bs \<longleftrightarrow> (\<forall>i<length bs. blk_index (bs ! i) = int i + 1)"
  by (auto simp: contiguous_def list_all_length nth_enumerate_eq)

lemma contiguous_sorted: "contiguous bs \<Longrightarrow> sorted (map blk_index bs)"
  by (auto simp: contiguous_iff sorted_iff_nth_mono)

text \<open>A server whose pages are the slices of one block table.\<close>

definition serves_table ::
  "(nat \<Rightarrow> (revision_dto, 's) op) \<Rightarrow> revision_dto \<Rightarrow> block_dto list \<Rightarrow> bool" where
  "serves_table page meta tbl =
     (\<forall>p st. \<exists>st'. page p st =
        Some (Inr (meta\<lparr>rev_blocks := take PAGE_SIZE (drop (PAGE_SIZE * p) tbl)\<rparr>), st'))"

lemma fetch_batch_serving:
  assumes "serves_table page meta tbl" and "c \<longleftrightarrow> length tbl < PAGE_SIZE * p"
  shows "\<exists>st'. fetch_batch page [p..<p + w] c (take (PAGE_SIZE * p) tbl) st =
     Some (Inr (length tbl < PAGE_SIZE * (p + w), take (PAGE_SIZE * (p + w)) tbl), st')"
  using assms(2)
proof (induction w arbitrary: p c st)
  case 0
  then show ?case by simp
next
  case (Suc w)
  obtain st1 where st1: "page p st =
      Some (Inr (meta\<lparr>rev_blocks := take PAGE_SIZE (drop (PAGE_SIZE * p) tbl)\<rparr>), st1)"
    using assms(1) unfolding serves_table_def by blast
  have upt: "[p..<Suc (p + w)] = p # [Suc p..<Suc (p + w)]" by (simp add: upt_conv_Cons del: upt_Suc)
  have t: "take (PAGE_SIZE * p) tbl @ take PAGE_SIZE (drop (PAGE_SIZE * p) tbl) = take (PAGE_SIZE * Suc p) tbl"
    by (simp add: take_add [symmetric] add.commute)
  show ?case
  proof (cases c)
    case True
    then have l: "length tbl < PAGE_SIZE * p" using Suc.prems by simp
    then have "take (PAGE_SIZE * p) tbl = take (PAGE_SIZE * Suc p) tbl" by simp
    moreover have "True \<longleftrightarrow> length tbl < PAGE_SIZE * Suc p" using l by simp
    ultimately show ?thesis using Suc.IH [of True "Suc p" st1] True st1 by (simp add: upt del: upt_Suc)
  next
    case False
    then have "PAGE_SIZE * p \<le> length tbl" using Suc.prems by simp
    then have "(length (take PAGE_SIZE (drop (PAGE_SIZE * p) tbl)) < PAGE_SIZE) \<longleftrightarrow>
        length tbl < PAGE_SIZE * Suc p" by (auto simp: min_def)
    from Suc.IH [OF this, of st1] show ?thesis using False st1 t by (simp add: upt del: upt_Suc)
  qed
qed

lemma fetch_pages_serving:
  assumes "serves_table page meta tbl" and "ended \<longleftrightarrow> length tbl < PAGE_SIZE * p" and "0 < w"
  shows "\<exists>st'. fetch_pages page p w ended (take (PAGE_SIZE * p) tbl) st = Some (Inr tbl, st')"
  using assms(2,3)
proof (induction "length tbl + 1 - PAGE_SIZE * p" arbitrary: p w ended st rule: less_induct)
  case less
  show ?case
  proof (cases ended)
    case True
    then show ?thesis using less.prems(1) by (subst fetch_pages.simps) simp
  next
    case False
    then have le: "PAGE_SIZE * p \<le> length tbl" using less.prems(1) by simp
    obtain st1 where b: "fetch_batch page [p..<p + w] False (take (PAGE_SIZE * p) tbl) st =
        Some (Inr (length tbl < PAGE_SIZE * (p + w), take (PAGE_SIZE * (p + w)) tbl), st1)"
      using fetch_batch_serving [OF assms(1), of False p w st] le by auto
    have "PAGE_SIZE * p < PAGE_SIZE * (p + w)" using less.prems(2) by (simp add: PAGE_SIZE_def)
    then have "length tbl + 1 - PAGE_SIZE * (p + w) < length tbl + 1 - PAGE_SIZE * p"
      using le by linarith
    from less.hyps [OF this refl, of "min (w * 2) MAX_PAGE_WINDOW" st1] less.prems(2)
    obtain st2 where "fetch_pages page (p + w) (min (w * 2) MAX_PAGE_WINDOW)
        (length tbl < PAGE_SIZE * (p + w)) (take (PAGE_SIZE * (p + w)) tbl) st1 = Some (Inr tbl, st2)"
      by (auto simp: MAX_PAGE_WINDOW_def)
    then show ?thesis using False b by (subst fetch_pages.simps) simp
  qed
qed

lemma sizes_from_total_standard:
  assumes "length content < 2 ^ 63"
  shows "sizes_from_total (of_nat (length content)) (length (chunks DEFAULT_BLOCK_SIZE content)) =
     map (\<lambda>c. of_nat (length c)) (chunks DEFAULT_BLOCK_SIZE content)"
proof (rule nth_equalityI)
  let ?n = DEFAULT_BLOCK_SIZE and ?cs = "chunks DEFAULT_BLOCK_SIZE content"
  fix i assume "i < length (sizes_from_total (of_nat (length content)) (length ?cs))"
  then have i: "i < length ?cs" by (simp add: sizes_from_total_def Let_def)
  have pos: "0 < ?n" and small: "?n < 2 ^ 64" by (simp_all add: DEFAULT_BLOCK_SIZE_def)
  note c = nth_chunks [OF pos i]
  then have lt: "?n * i < length content" by simp
  have l64: "length content < 2 ^ 64" using assms by simp
  have "(of_nat ?n :: u64) * of_nat i = of_nat (?n * i)" by simp
  moreover have "u64_saturating_sub (of_nat (length content)) (of_nat (?n * i)) =
      of_nat (length content - ?n * i)"
    using lt l64 by (simp add: u64_saturating_sub_def u64_of_nat_le of_nat_diff del: of_nat_mult)
  moreover have "min (of_nat (length content - ?n * i) :: u64) (of_nat ?n) =
      of_nat (min (length content - ?n * i) ?n)"
    using l64 small by (intro u64_of_nat_min) auto
  ultimately show "sizes_from_total (of_nat (length content)) (length ?cs) ! i =
      map (\<lambda>c. of_nat (length c)) ?cs ! i"
    using i c by (simp add: sizes_from_total_def Let_def min.commute)
qed (simp add: sizes_from_total_def Let_def)

section \<open>Properties\<close>

text \<open>C7: when the server's pages are the slices of one contiguous block table, the windowed,
  speculative listing returns, with exactly that table and the revision's metadata, however many
  pages it takes.\<close>

theorem list_blocks_complete:
  assumes "serves_table (\<lambda>p. transport_get S get (block_page_path vid lid rid p)) meta tbl"
    and "contiguous tbl"
  shows "\<exists>st'. list_blocks S get vid lid rid st = Some (Inr (meta\<lparr>rev_blocks := []\<rparr>, tbl), st')"
proof -
  let ?page = "\<lambda>p. transport_get S get (block_page_path vid lid rid p)"
  obtain st1 where p0: "?page 0 st = Some (Inr (meta\<lparr>rev_blocks := take PAGE_SIZE tbl\<rparr>), st1)"
    using assms(1) unfolding serves_table_def by (metis drop0 mult_0_right)
  have "length (take PAGE_SIZE tbl) < PAGE_SIZE \<longleftrightarrow> length tbl < PAGE_SIZE * 1"
    by (auto simp: min_def)
  from fetch_pages_serving [OF assms(1) this, of 2 st1]
  obtain st2 where "fetch_pages ?page 1 2 (length (take PAGE_SIZE tbl) < PAGE_SIZE)
      (take PAGE_SIZE tbl) st1 = Some (Inr tbl, st2)" by auto
  then show ?thesis
    using p0 assms(2) contiguous_sorted [OF assms(2)]
    by (simp add: list_blocks_def Let_def sort_key_id_if_sorted)
qed

text \<open>whatever the server answers, a block table that is returned carries the indices
  1, 2, 3, ... in order: a gap or a repetition is an error.\<close>

theorem list_blocks_contiguous:
  assumes "list_blocks S get vid lid rid st = Some (Inr (meta, blocks), st')"
  shows "\<forall>i<length blocks. blk_index (blocks ! i) = int i + 1"
  using assms
  by (auto simp: list_blocks_def Let_def contiguous_iff
           split: prod.splits sum.splits option.splits if_splits)

text \<open>for content written in the standard layout, full blocks and a final short one, the
  sizes derived from the recorded total alone are the true block sizes.\<close>

theorem rank_block_sizes_standard:
  assumes "length content < 2 ^ 63" and "cx_size common = Some (int (length content))"
    and "cx_block_sizes common = None"
  shows "rank_block_sizes (Some common) rid (length (chunks DEFAULT_BLOCK_SIZE content)) =
     Inr (map (\<lambda>c. of_nat (length c)) (chunks DEFAULT_BLOCK_SIZE content))"
  using assms sizes_from_total_standard [OF assms(1)]
  by (simp add: rank_block_sizes_def sizes_without_vector_def)

subsection \<open>Witnesses\<close>

definition example_table :: "block_dto list" where
  "example_table =
     map (\<lambda>i. \<lparr>blk_index = int i + 1, blk_bare_url = ''u'', blk_token = ''t''\<rparr>) [0..<120]"

definition example_revision :: revision_dto where
  "example_revision =
     \<lparr>rev_id = ''r'', rev_manifest_signature = None, rev_signature_email = None,
      rev_extended_attributes = None, rev_thumbnails = [], rev_blocks = []\<rparr>"

text \<open>A server of a table of three pages, which counts the requests it answers.\<close>

definition example_pages :: "api_http_client \<Rightarrow> string \<Rightarrow> nat \<Rightarrow> revision_dto result \<times> nat" where
  "example_pages http path st =
     (case find (\<lambda>p. path = block_page_path (VolumeId ''v'') (LinkId ''l'') ''r'' p) [0..<10] of
        Some p \<Rightarrow> (Inr (example_revision\<lparr>rev_blocks := take PAGE_SIZE (drop (PAGE_SIZE * p) example_table)\<rparr>), Suc st)
      | None \<Rightarrow> (Inr example_revision, Suc st))"

lemma block_page_path_inject: "block_page_path v l r p = block_page_path v l r q \<longleftrightarrow> p = q"
  by (simp add: block_page_path_def PAGE_SIZE_def)

lemma example_pages_serve:
  "serves_table (\<lambda>p. transport_get (StaticSession example_client) example_pages
     (block_page_path (VolumeId ''v'') (LinkId ''l'') ''r'' p)) example_revision example_table"
proof -
  have f: "find (\<lambda>q. block_page_path (VolumeId ''v'') (LinkId ''l'') ''r'' p =
        block_page_path (VolumeId ''v'') (LinkId ''l'') ''r'' q) [0..<10] =
      (if p < 10 then Some p else None)" for p
  proof (cases "p < 10")
    case True
    have "find (\<lambda>q. p = q) [0..<10] = Some p"
      unfolding find_Some_iff using True by (intro exI [of _ p]) simp
    then show ?thesis using True by (simp add: block_page_path_inject)
  next
    case False
    then show ?thesis by (auto simp: block_page_path_inject find_None_iff)
  qed
  have "drop (PAGE_SIZE * p) example_table = []" if "\<not> p < 10" for p
    using that by (simp add: example_table_def PAGE_SIZE_def)
  then show ?thesis
    by (auto simp: serves_table_def transport_get_def with_renewal_def StaticSession_def
        example_pages_def f example_revision_def)
qed

lemma example_table_contiguous: "contiguous example_table"
  by (simp add: contiguous_iff example_table_def)

theorem list_blocks_complete_witness:
  "\<exists>st'. list_blocks (StaticSession example_client) example_pages (VolumeId ''v'') (LinkId ''l'') ''r'' 0
     = Some (Inr (example_revision, example_table), st')"
proof -
  have "example_revision\<lparr>rev_blocks := []\<rparr> = example_revision" by (simp add: example_revision_def)
  with list_blocks_complete [OF example_pages_serve example_table_contiguous, of 0] show ?thesis
    by simp
qed

theorem list_blocks_contiguous_witness:
  "\<exists>blocks st'. list_blocks (StaticSession example_client)
       (\<lambda>http path st. (Inr (example_revision\<lparr>rev_blocks := rev (take 3 example_table)\<rparr>), st))
       (VolumeId ''v'') (LinkId ''l'') ''r'' () = Some (Inr (example_revision, blocks), st')
     \<and> length blocks = 3 \<and> blk_index (blocks ! 2) = 3"
proof -
  let ?get = "\<lambda>http path st. (Inr (example_revision\<lparr>rev_blocks := rev (take 3 example_table)\<rparr>), st)"
  have "\<exists>blocks. list_blocks (StaticSession example_client) ?get (VolumeId ''v'') (LinkId ''l'') ''r'' ()
      = Some (Inr (example_revision, blocks), ()) \<and> length blocks = 3"
    by (simp add: list_blocks_def transport_get_def with_renewal_def StaticSession_def
        fetch_pages.simps PAGE_SIZE_def example_table_def contiguous_def example_revision_def
        upt_conv_Cons)
  then obtain blocks where b: "list_blocks (StaticSession example_client) ?get (VolumeId ''v'')
      (LinkId ''l'') ''r'' () = Some (Inr (example_revision, blocks), ())" "length blocks = 3" by blast
  from list_blocks_contiguous [OF b(1)] b(2) have "blk_index (blocks ! 2) = 3" by simp
  with b show ?thesis by blast
qed

theorem rank_block_sizes_standard_witness:
  "rank_block_sizes
     (Some \<lparr>cx_size = Some 5, cx_modification_time = None, cx_block_sizes = None, cx_sha1 = None\<rparr>)
     ''r'' (length (chunks DEFAULT_BLOCK_SIZE (replicate 5 (0::u8)))) =
   Inr (map (\<lambda>c. of_nat (length c)) (chunks DEFAULT_BLOCK_SIZE (replicate 5 (0::u8))))"
  by (rule rank_block_sizes_standard) simp_all

end
