(* ===== verification/Link_Crypto.thy ===== *)
theory Link_Crypto
  imports Encrypt Account Transport
begin

text \<open>
  Decrypting shares and links (\<open>proton-drive-rs/src/crypto.rs\<close>): the share key from the
  member's address keys, a link's passphrase, key and name from its parent's key, and who a
  signature is checked against.  The calls that look up public keys run on the account client;
  \<open>serde_json\<close> is an argument.  The blocking pool is taken to complete its tasks.
\<close>

section \<open>Shares and links\<close>

record share_dto =
  sh_id :: share_id
  sh_key :: string
  sh_passphrase :: string
  sh_passphrase_signature :: "string option"
  sh_address_id :: address_id

definition decrypt_share_key ::
  "('sk, 'pub, 'sig, 'msg, 'w) account_env \<Rightarrow> share_dto \<Rightarrow> ('sk private_key, ('sk, 'pub, 'w) account) op" where
  "decrypt_share_key E share =
     op_bind (address_private_keys E (sh_address_id share)) (\<lambda>address_keys.
     op_bind (op_of (from_crypto (decrypt_armored_with_keys (ae_rpgp E) (sh_passphrase share) address_keys)))
       (\<lambda>passphrase. op_of (from_crypto (PrivateKey_from_armored (ae_rpgp E) (sh_key share) passphrase))))"

record 'sk decrypted_link =
  dl_node_key :: "'sk private_key"
  dl_name :: string

definition name_from_bytes :: "bytes \<Rightarrow> string result" where
  "name_from_bytes b =
     (case from_utf8 b of
        Some s \<Rightarrow> Inr s
      | None \<Rightarrow> Inl (InvalidOperation ''node name is not valid UTF-8''))"

definition decrypt_link ::
  "('sk, 'pub, 'sig, 'msg) rpgp \<Rightarrow> 'sk private_key \<Rightarrow> link_dto \<Rightarrow> 'sk decrypted_link result" where
  "decrypt_link P parent_key link =
     sum_bind (from_crypto (decrypt_armored_message P parent_key (l_passphrase link))) (\<lambda>passphrase.
     sum_bind (from_crypto (PrivateKey_from_armored P (l_key link) passphrase)) (\<lambda>node_key.
     sum_bind (from_crypto (decrypt_armored_message P parent_key (l_name link))) (\<lambda>name_bytes.
     sum_bind (name_from_bytes name_bytes) (\<lambda>name.
       Inr \<lparr>dl_node_key = node_key, dl_name = name\<rparr>))))"

section \<open>Authorship\<close>

record 'pub authorship_claim =
  cl_author :: "string option"
  cl_keys :: "'pub list"

definition AuthorshipClaim_create ::
  "('sk, 'pub, 'sig, 'msg, 'w) account_env \<Rightarrow> string option \<Rightarrow> ('pub authorship_claim, ('sk, 'pub, 'w) account) op" where
  "AuthorshipClaim_create E email =
     (case email of
        Some (c # cs) \<Rightarrow>
          op_call (\<lambda>acc. case public_keys E (c # cs) acc of
            (keys, acc') \<Rightarrow> (Inr \<lparr>cl_author = Some (c # cs), cl_keys = keys\<rparr>, acc'))
      | _ \<Rightarrow> op_return \<lparr>cl_author = None, cl_keys = []\<rparr>)"

definition claim_ring ::
  "('sk, 'pub, 'sig, 'msg) rpgp \<Rightarrow> 'pub authorship_claim \<Rightarrow> 'sk private_key \<Rightarrow> 'pub verification_key_ring" where
  "claim_ring P claim fallback =
     (if cl_author claim \<noteq> None then ring_from_public_keys (cl_keys claim) else ring_from_private P fallback)"

definition claim_content_ring ::
  "('sk, 'pub, 'sig, 'msg) rpgp \<Rightarrow> 'pub authorship_claim \<Rightarrow> 'sk private_key \<Rightarrow> 'pub verification_key_ring" where
  "claim_content_ring P claim node_key = ring_from_private_and_public_keys P node_key (cl_keys claim)"

definition open_link_parts ::
  "('sk, 'pub, 'sig, 'msg) rpgp \<Rightarrow> 'sk private_key \<Rightarrow> 'pub verification_key_ring \<Rightarrow> 'pub verification_key_ring
     \<Rightarrow> link_dto \<Rightarrow> (bytes \<times> string \<times> node_verification) result" where
  "open_link_parts P parent_key node_ring name_ring link =
     sum_bind (from_crypto (decrypt_armored_message P parent_key (l_passphrase link))) (\<lambda>passphrase.
     let passphrase_status = (case l_passphrase_signature link of
           Some s \<Rightarrow> verify_detached P s passphrase node_ring
         | None \<Rightarrow> NotSigned) in
     sum_bind (from_crypto (decrypt_armored_verify P parent_key (l_name link) name_ring)) (\<lambda>(name_bytes, name_status).
     sum_bind (name_from_bytes name_bytes) (\<lambda>name.
       Inr (passphrase, name,
         \<lparr>nv_name = name_status, nv_passphrase = passphrase_status, nv_content_key = None,
          nv_extended_attributes = None\<rparr>))))"

definition decrypt_link_parts ::
  "('sk, 'pub, 'sig, 'msg, 'w) account_env \<Rightarrow> 'sk private_key \<Rightarrow> link_dto
     \<Rightarrow> (bytes \<times> string \<times> node_verification, ('sk, 'pub, 'w) account) op" where
  "decrypt_link_parts E parent_key link =
     op_bind (AuthorshipClaim_create E (l_signature_email link)) (\<lambda>node_claim.
     op_bind (if l_name_signature_email link = l_signature_email link then op_return node_claim
              else AuthorshipClaim_create E (l_name_signature_email link)) (\<lambda>name_claim.
       op_of (open_link_parts (ae_rpgp E) parent_key (claim_ring (ae_rpgp E) node_claim parent_key)
                (claim_ring (ae_rpgp E) name_claim parent_key) link)))"

definition decrypt_link_verified ::
  "('sk, 'pub, 'sig, 'msg, 'w) account_env \<Rightarrow> 'sk private_key \<Rightarrow> link_dto
     \<Rightarrow> ('sk decrypted_link \<times> node_verification, ('sk, 'pub, 'w) account) op" where
  "decrypt_link_verified E parent_key link =
     op_bind (decrypt_link_parts E parent_key link) (\<lambda>(passphrase, name, verification).
     op_bind (op_of (from_crypto (PrivateKey_from_armored (ae_rpgp E) (l_key link) passphrase))) (\<lambda>node_key.
       op_return (\<lparr>dl_node_key = node_key, dl_name = name\<rparr>, verification)))"

definition decrypt_link_name_verified ::
  "('sk, 'pub, 'sig, 'msg, 'w) account_env \<Rightarrow> 'sk private_key \<Rightarrow> link_dto
     \<Rightarrow> (string \<times> node_verification, ('sk, 'pub, 'w) account) op" where
  "decrypt_link_name_verified E parent_key link =
     op_bind (decrypt_link_parts E parent_key link) (\<lambda>(_, name, verification). op_return (name, verification))"

section \<open>Content keys and attributes\<close>

definition decrypt_content_key_verified ::
  "('sk, 'pub, 'sig, 'msg, 'w) account_env \<Rightarrow> ('sk, 'pub, 'ek, 'pk, 'sd, 'r) pgp_lib \<Rightarrow> 'sk private_key
     \<Rightarrow> string option \<Rightarrow> bytes \<Rightarrow> string option
     \<Rightarrow> (content_key \<times> verification_status, ('sk, 'pub, 'w) account) op" where
  "decrypt_content_key_verified E L node_key email packet signature =
     op_bind (op_of (from_crypto (decrypt_content_key L node_key packet))) (\<lambda>content_key.
     case signature of
       None \<Rightarrow> op_return (content_key, NotSigned)
     | Some s \<Rightarrow>
         op_bind (AuthorshipClaim_create E email) (\<lambda>claim.
         op_bind (op_of (from_crypto (export_key content_key))) (\<lambda>exported.
           op_return (content_key,
             verify_detached (ae_rpgp E) s exported (claim_content_ring (ae_rpgp E) claim node_key)))))"

record decrypted_location =
  dxl_latitude :: "f64 option"
  dxl_longitude :: "f64 option"

record decrypted_extended_attributes =
  dx_common :: "common_extended_attributes option"
  dx_location :: "decrypted_location option"

type_synonym xattr_decoder = "bytes \<Rightarrow> string + decrypted_extended_attributes"

definition decode_xattr :: "xattr_decoder \<Rightarrow> bytes \<Rightarrow> decrypted_extended_attributes result" where
  "decode_xattr js json =
     map_sum (\<lambda>e. InvalidOperation (''deserialize extended attributes: '' @ e)) id (js json)"

definition decrypt_extended_attributes_verified ::
  "('sk, 'pub, 'sig, 'msg, 'w) account_env \<Rightarrow> xattr_decoder \<Rightarrow> 'sk private_key \<Rightarrow> string option \<Rightarrow> string
     \<Rightarrow> (decrypted_extended_attributes \<times> verification_status, ('sk, 'pub, 'w) account) op" where
  "decrypt_extended_attributes_verified E js node_key email armored =
     op_bind (AuthorshipClaim_create E email) (\<lambda>claim.
     op_bind (op_of (from_crypto (decrypt_armored_verify (ae_rpgp E) node_key armored (claim_ring (ae_rpgp E) claim node_key))))
       (\<lambda>(json, status).
     op_bind (op_of (decode_xattr js json)) (\<lambda>attrs. op_return (attrs, status))))"

definition decrypt_extended_attributes_unverified ::
  "('sk, 'pub, 'sig, 'msg) rpgp \<Rightarrow> xattr_decoder \<Rightarrow> 'sk private_key \<Rightarrow> string
     \<Rightarrow> decrypted_extended_attributes result" where
  "decrypt_extended_attributes_unverified P js node_key armored =
     sum_bind (from_crypto (decrypt_armored_message P node_key armored)) (decode_xattr js)"

section \<open>Lemmas\<close>

text \<open>The keys a signature with a claimed author may verify against.\<close>

definition author_keys ::
  "('sk, 'pub, 'sig, 'msg, 'w) account_env \<Rightarrow> string option \<Rightarrow> 'sk private_key \<Rightarrow> ('sk, 'pub, 'w) account \<Rightarrow> 'pub list" where
  "author_keys E email fallback acc =
     (case email of
        Some (c # cs) \<Rightarrow> fst (public_keys E (c # cs) acc)
      | _ \<Rightarrow> [signed_public_key (ae_rpgp E) fallback])"

lemma AuthorshipClaim_create_total:
  "\<exists>claim acc'. AuthorshipClaim_create E email acc = Some (Inr claim, acc') \<and>
     ring_keys (claim_ring (ae_rpgp E) claim fallback) = author_keys E email fallback acc"
  by (auto simp: AuthorshipClaim_create_def claim_ring_def author_keys_def ring_from_public_keys_def
      ring_from_private_def split: option.splits list.splits prod.splits)

lemma AuthorshipClaim_create_ring:
  "AuthorshipClaim_create E email acc = Some (Inr claim, acc') \<Longrightarrow>
     ring_keys (claim_ring (ae_rpgp E) claim fallback) = author_keys E email fallback acc"
  using AuthorshipClaim_create_total [of E email acc fallback] by auto

lemma verify_detached_Ok:
  "verify_detached P s data r = VerificationOk \<longleftrightarrow>
     (\<exists>sg k. rp_parse_signature P s = Inr sg \<and> k \<in> set (ring_keys r) \<and> rp_verify P sg k data = Inr ())"
  by (auto simp: verify_detached_classes split: sum.splits if_splits)

lemma name_from_bytes_Inr: "name_from_bytes b = Inr s \<longleftrightarrow> from_utf8 b = Some s"
  by (simp add: name_from_bytes_def split: option.splits)

lemma open_link_parts_Inr:
  "open_link_parts P parent_key nr mr link = Inr (passphrase, name, v) \<longleftrightarrow>
     decrypt_armored_message P parent_key (l_passphrase link) = Inr passphrase \<and>
     (\<exists>b st. decrypt_armored_verify P parent_key (l_name link) mr = Inr (b, st) \<and> from_utf8 b = Some name \<and>
        v = \<lparr>nv_name = st, nv_passphrase = (case l_passphrase_signature link of
               Some s \<Rightarrow> verify_detached P s passphrase nr | None \<Rightarrow> NotSigned),
             nv_content_key = None, nv_extended_attributes = None\<rparr>)"
  by (auto simp: open_link_parts_def sum_bind_Inr name_from_bytes_Inr Let_def)

lemma decrypt_armored_verify_plain:
  "map_sum id fst (decrypt_armored_verify P k armored r) = decrypt_armored_message P k armored"
  unfolding decrypt_armored_verify_def decrypt_and_verify_def decrypt_armored_message_def decrypt_armored_def
    read_plaintext_def sum_bind_def map_err_def
  by (auto split: sum.splits)

section \<open>Properties\<close>

text \<open>Reading a link with its signatures and reading it without give the same key and
  name: verification never changes what is decrypted, and a link one path opens the other
  opens too.\<close>

theorem verified_link_same_plaintext:
  "case decrypt_link_verified E parent_key link acc of
      Some (Inr (dl, v), _) \<Rightarrow> decrypt_link (ae_rpgp E) parent_key link = Inr dl
    | Some (Inl _, _) \<Rightarrow> \<exists>e. decrypt_link (ae_rpgp E) parent_key link = Inl e
    | None \<Rightarrow> False"
proof -
  let ?P = "ae_rpgp E"
  obtain c1 acc1 where c1: "AuthorshipClaim_create E (l_signature_email link) acc = Some (Inr c1, acc1)"
    using AuthorshipClaim_create_total by blast
  obtain c2 acc2 where c2: "(if l_name_signature_email link = l_signature_email link then op_return c1
      else AuthorshipClaim_create E (l_name_signature_email link)) acc1 = Some (Inr c2, acc2)"
    using AuthorshipClaim_create_total [of E "l_name_signature_email link" acc1 parent_key]
    by (cases "l_name_signature_email link = l_signature_email link") auto
  let ?nr = "claim_ring ?P c1 parent_key" and ?mr = "claim_ring ?P c2 parent_key"
  have parts: "decrypt_link_parts E parent_key link acc = Some (open_link_parts ?P parent_key ?nr ?mr link, acc2)"
    using c1 c2 by (simp add: decrypt_link_parts_def op_bind_def)
  have name: "decrypt_armored_message ?P parent_key (l_name link) =
      map_sum id fst (decrypt_armored_verify ?P parent_key (l_name link) ?mr)"
    by (rule decrypt_armored_verify_plain [symmetric])
  show ?thesis
    unfolding decrypt_link_verified_def decrypt_link_def op_bind_def parts open_link_parts_def name sum_bind_def Let_def
    by (cases "decrypt_armored_verify ?P parent_key (l_name link) ?mr") (auto split: sum.splits prod.splits)
qed

text \<open>C16: A passphrase signature counts as good only under the claimed author's keys: with a
  signature e-mail it verified against a public key of that address, and only an anonymous
  link may be signed with its parent's own key.\<close>

theorem passphrase_signature_by_author:
  assumes "decrypt_link_verified E parent_key link acc = Some (Inr (dl, v), acc')"
    and "nv_passphrase v = VerificationOk"
  shows "\<exists>s sg k passphrase. l_passphrase_signature link = Some s \<and> rp_parse_signature (ae_rpgp E) s = Inr sg \<and>
     decrypt_armored_message (ae_rpgp E) parent_key (l_passphrase link) = Inr passphrase \<and>
     rp_verify (ae_rpgp E) sg k passphrase = Inr () \<and>
     k \<in> set (author_keys E (l_signature_email link) parent_key acc)"
proof -
  obtain passphrase name c1 acc1 mr where
    c1: "AuthorshipClaim_create E (l_signature_email link) acc = Some (Inr c1, acc1)"
    and parts: "open_link_parts (ae_rpgp E) parent_key (claim_ring (ae_rpgp E) c1 parent_key) mr link = Inr (passphrase, name, v)"
    using assms(1) by (auto simp: decrypt_link_verified_def decrypt_link_parts_def op_bind_Inr)
  obtain s where s: "l_passphrase_signature link = Some s"
    "verify_detached (ae_rpgp E) s passphrase (claim_ring (ae_rpgp E) c1 parent_key) = VerificationOk"
    using parts assms(2) by (auto simp: open_link_parts_Inr split: option.splits)
  moreover have "decrypt_armored_message (ae_rpgp E) parent_key (l_passphrase link) = Inr passphrase"
    using parts by (simp add: open_link_parts_Inr)
  ultimately show ?thesis
    unfolding verify_detached_Ok AuthorshipClaim_create_ring [OF c1] by blast
qed

text \<open>C15: A new volume can be opened: the read path recovers, from the material uploaded when
  a volume is created, the share key with the owner's address key and from it the root
  folder's key and name.\<close>

theorem new_volume_opens:
  assumes "build_volume_creation_material (ae_rpgp E, L, W) address_key folder_name g = (Inr vm, g')"
    and "\<And>k. reads_own_messages (ae_rpgp E) L W k" "utf8_string folder_name"
    and "address_private_keys E (sh_address_id share) acc = Some (Inr (address_key # others), acc')"
    and "sh_key share = vm_share_key_armored vm" "sh_passphrase share = vm_share_passphrase vm"
    and "l_key link = vm_folder_key_armored vm" "l_passphrase link = vm_folder_passphrase vm"
    and "l_name link = vm_folder_name vm"
  shows "\<exists>share_key folder_key. decrypt_share_key E share acc = Some (Inr share_key, acc') \<and>
     decrypt_link (ae_rpgp E) share_key link = Inr \<lparr>dl_node_key = folder_key, dl_name = folder_name\<rparr>"
proof -
  let ?P = "ae_rpgp E"
  obtain sk fk g1 g2 g3 g4 g5 g6 g7 where gen: "generate_node_key_versioned ?P W KeyV4 g = (Inr sk, g1)"
      "generate_node_key_versioned ?P W KeyV4 g1 = (Inr fk, g2)"
    and enc: "encrypt L W address_key (gk_passphrase sk) g2 = (Inr (vm_share_passphrase vm), g3)"
      "encrypt_and_sign L W (pk_key (gk_key sk)) (Some address_key) (as_bytes folder_name) True False g4 =
         (Inr (vm_folder_name vm), g5)"
      "encrypt L W (gk_key sk) (gk_passphrase fk) g6 = (Inr (vm_folder_passphrase vm), g7)"
    and keys: "vm_share_key_armored vm = gk_locked_armored sk" "vm_folder_key_armored vm = gk_locked_armored fk"
    using assms(1) by (auto simp: build_volume_creation_material_def generate_node_key_def gen_bind_Inr)
  note opens = generated_key_opens [OF gen(1)] generated_key_opens [OF gen(2)]
  note reads = encrypt_reads [OF assms(2) enc(1)] encrypt_and_sign_reads [OF assms(2) enc(2)]
    encrypt_reads [OF assms(2) enc(3)]
  have "decrypt_armored_with_keys ?P (vm_share_passphrase vm) (address_key # others) = Inr (gk_passphrase sk)"
    using reads(1) by (simp add: decrypt_armored_with_keys_def decrypt_armored_any_def decrypt_armored_message_def)
  then have "decrypt_share_key E share acc = Some (Inr (gk_key sk), acc')"
    using assms(4-6) opens(1) keys(1) by (simp add: decrypt_share_key_def op_bind_def)
  moreover have "decrypt_link ?P (gk_key sk) link = Inr \<lparr>dl_node_key = gk_key fk, dl_name = folder_name\<rparr>"
    using assms(3,7-9) reads opens keys(2)
    by (simp add: decrypt_link_def name_from_bytes_def from_utf8_as_bytes)
  ultimately show ?thesis by blast
qed

section \<open>Examples\<close>

definition example_link :: link_dto where
  "example_link =
     \<lparr>l_id = LinkId ''l'', l_type = 1, l_parent_id = None, l_state = 1, l_creation_time = 0,
      l_modification_time = 0, l_trash_time = None, l_trashed_legacy = None, l_name = ''p:name'',
      l_name_hash = None, l_key = ''n'', l_passphrase = ''p:n'', l_passphrase_signature = Some ''q:ctx'',
      l_signature_email = Some ''q@p'', l_name_signature_email = None, l_third_party = False, l_sdk = False\<rparr>"

text \<open>A server that knows one public key of the author.\<close>

definition example_author_env ::
  "(string, string, string \<times> string, string \<times> bytes, unit) account_env" where
  "example_author_env =
     (example_account ''a'')\<lparr>ae_get_public_keys := (\<lambda>_ w. (Inr [\<lparr>pke_flags = 1, pke_public_key = ''q''\<rparr>], w))\<rparr>"

lemma example_link_run:
  "\<exists>dl v acc'. decrypt_link_verified example_author_env (ex_priv ''p'') example_link example_account_client =
     Some (Inr (dl, v), acc') \<and> nv_passphrase v = VerificationOk"
proof -
  let ?run = "decrypt_link_verified example_author_env (ex_priv ''p'') example_link example_account_client"
  have "case ?run of Some (Inr (dl, v), _) \<Rightarrow> nv_passphrase v = VerificationOk | _ \<Rightarrow> False" by code_simp
  then show ?thesis by (cases ?run) (auto split: sum.splits)
qed

theorem passphrase_signature_by_author_witness:
  "\<exists>k sg passphrase. rp_verify example_rpgp sg k passphrase = Inr () \<and>
     k \<in> set (author_keys example_author_env (l_signature_email example_link) (ex_priv ''p'') example_account_client)"
proof -
  have "ae_rpgp example_author_env = example_rpgp" by (simp add: example_author_env_def example_account_def)
  moreover obtain dl v acc' where
    "decrypt_link_verified example_author_env (ex_priv ''p'') example_link example_account_client = Some (Inr (dl, v), acc')"
    "nv_passphrase v = VerificationOk" using example_link_run by blast
  note passphrase_signature_by_author [OF this]
  ultimately show ?thesis by auto
qed

definition example_material :: volume_creation_material where
  "example_material =
     projr (fst (build_volume_creation_material (example_rpgp, example_lib, example_write_lib) (ex_priv ''a'') ''root'' 0))"

definition example_share :: share_dto where
  "example_share =
     \<lparr>sh_id = ShareId ''s'', sh_key = vm_share_key_armored example_material,
      sh_passphrase = vm_share_passphrase example_material, sh_passphrase_signature = None,
      sh_address_id = AddressId ''a''\<rparr>"

definition example_root :: link_dto where
  "example_root = example_link\<lparr>l_key := vm_folder_key_armored example_material,
     l_passphrase := vm_folder_passphrase example_material, l_name := vm_folder_name example_material\<rparr>"

theorem new_volume_opens_witness:
  "\<exists>share_key folder_key acc'. decrypt_share_key (example_account ''a'') example_share example_account_client = Some (Inr share_key, acc') \<and>
     decrypt_link example_rpgp share_key example_root = Inr \<lparr>dl_node_key = folder_key, dl_name = ''root''\<rparr>"
proof -
  let ?E = "example_account ''a''"
  have P: "ae_rpgp ?E = example_rpgp" by (simp add: example_account_def)
  let ?run = "build_volume_creation_material (example_rpgp, example_lib, example_write_lib) (ex_priv ''a'') ''root'' 0"
  have "case fst ?run of Inr _ \<Rightarrow> True | Inl _ \<Rightarrow> False" by code_simp
  then have m: "build_volume_creation_material (ae_rpgp ?E, example_lib, example_write_lib) (ex_priv ''a'') ''root'' 0 =
      (Inr example_material, snd ?run)"
    unfolding example_material_def P by (cases ?run) (auto split: sum.splits)
  let ?keys = "address_private_keys ?E (AddressId ''a'') example_account_client"
  have "case ?keys of Some (Inr ks, _) \<Rightarrow> ks = [ex_priv ''a''] | _ \<Rightarrow> False" by code_simp
  then obtain acc' where k: "address_private_keys ?E (sh_address_id example_share) example_account_client =
      Some (Inr [ex_priv ''a''], acc')"
    by (cases ?keys) (auto simp: example_share_def split: sum.splits)
  have u: "utf8_string ''root''" by code_simp
  have r: "reads_own_messages (ae_rpgp ?E) example_lib example_write_lib k" for k
    unfolding P by (rule example_reads_own_messages)
  show ?thesis
    using new_volume_opens [OF m r u k, of example_root] P by (auto simp: example_share_def example_root_def)
qed

end
