(* ===== verification/Drive_Keys.thy ===== *)
theory Drive_Keys
  imports Link_Crypto Events
begin

text \<open>
  Keys of the Drive client (\<open>proton-drive-rs/src/client.rs\<close>): the My Files and Photos
  bootstrap, share keys, the walk over a link's ancestors that yields its parent's key, and
  the membership address that signs.  What the client uses of the account client and of link
  decryption is an interface (\<open>drive_env\<close>), provided by \<open>account_drive\<close>; the
  server's endpoints and the bounded caches' choice of a victim are arguments.  One call runs
  at a time: what concurrent callers share is the subject of \<open>Single_Flight\<close>.
\<close>

section \<open>Wire types\<close>

record my_files_share_response =
  mfr_volume_id :: volume_id
  mfr_share :: share_dto
  mfr_link :: link_details_dto

record volume_creation_request =
  vcr_address_id :: address_id
  vcr_address_key_id :: address_key_id
  vcr_material :: volume_creation_material

record device_data_dto =
  ddd_id :: device_uid
  ddd_volume_id :: volume_id
  ddd_device_type :: int
  ddd_creation_time :: int
  ddd_last_sync_time :: "int option"

record device_share_data_dto =
  dsd_id :: share_id
  dsd_root_link_id :: link_id
  dsd_name :: "string option"

record device_list_item_dto =
  dli_device :: device_data_dto
  dli_share :: device_share_data_dto

section \<open>The client and what it uses\<close>

record ('k, 's, 'w) drive_env =
  de_address :: "address_id \<Rightarrow> (address, 'w) op"
  de_default_address :: "(address, 'w) op"
  de_address_private_keys :: "address_id \<Rightarrow> ('k list, 'w) op"
  de_decrypt_share_key :: "share_dto \<Rightarrow> ('k, 'w) op"
  de_decrypt_link :: "'k \<Rightarrow> link_dto \<Rightarrow> ('k \<times> string) result"
  de_decrypt_message :: "'k \<Rightarrow> string \<Rightarrow> bytes result"
  de_volume_material :: "'k \<Rightarrow> string \<Rightarrow> (volume_creation_material, 'w) op"
  de_repo :: "'s cache_repo"
  de_js :: "cached_node_info json_codec"
  de_display :: "proton_error \<Rightarrow> string"
  de_victim :: "node_uid \<Rightarrow> 'w \<Rightarrow> node_uid option"
  de_get_root_share :: "string \<Rightarrow> (my_files_share_response, 'w) op"
  de_get_volumes :: "string \<Rightarrow> (volume_list_item_dto list, 'w) op"
  de_post_volume :: "string \<Rightarrow> volume_creation_request \<Rightarrow> (unit, 'w) op"
  de_get_devices :: "string \<Rightarrow> (device_list_item_dto list, 'w) op"
  de_get_share :: "string \<Rightarrow> (share_dto, 'w) op"
  de_get_shared_with_me :: "string \<Rightarrow> (shared_with_me_response, 'w) op"
  de_post_links :: "string \<Rightarrow> link_id list \<Rightarrow> (link_details_dto list, 'w) op"
  de_get_context :: "string \<Rightarrow> (share_id, 'w) op"

record ('k, 's, 'w) drive =
  dv_world :: 'w
  dv_caches :: "('k, 's) client_caches"

definition on_world :: "('a, 'w) op \<Rightarrow> ('a, ('k, 's, 'w) drive) op" where
  "on_world m = (\<lambda>d. map_option (\<lambda>(r, w). (r, d\<lparr>dv_world := w\<rparr>)) (m (dv_world d)))"

definition on_entities :: "('s \<Rightarrow> 'a result \<times> 's) \<Rightarrow> ('a, ('k, 's, 'w) drive) op" where
  "on_entities f = op_call (\<lambda>d. case f (cc_entities (dv_caches d)) of
     (r, s) \<Rightarrow> (r, d\<lparr>dv_caches := (dv_caches d)\<lparr>cc_entities := s\<rparr>\<rparr>))"

definition drive_cache_of :: "('k, 's, 'w) drive \<Rightarrow> 'k drive_cache" where
  "drive_cache_of d = cc_drive (dv_caches d)"

definition set_drive_cache :: "('k drive_cache \<Rightarrow> 'k drive_cache) \<Rightarrow> ('k, 's, 'w) drive \<Rightarrow> ('k, 's, 'w) drive" where
  "set_drive_cache f d = d\<lparr>dv_caches := (dv_caches d)\<lparr>cc_drive := f (cc_drive (dv_caches d))\<rparr>\<rparr>"

definition folder_key :: "node_uid \<Rightarrow> ('k, 's, 'w) drive \<Rightarrow> 'k option" where
  "folder_key uid d = dc_folder_keys (drive_cache_of d) uid"

text \<open>An insertion into the bounded key cache drops the victim, if the cache was full.\<close>

definition put_folder_key ::
  "('k, 's, 'w) drive_env \<Rightarrow> node_uid \<Rightarrow> 'k \<Rightarrow> ('k, 's, 'w) drive \<Rightarrow> ('k, 's, 'w) drive" where
  "put_folder_key E uid key d =
     (let dropped = (case de_victim E uid (dv_world d) of
             None \<Rightarrow> dc_folder_keys (drive_cache_of d)
           | Some v \<Rightarrow> (dc_folder_keys (drive_cache_of d))(v := None)) in
      set_drive_cache (\<lambda>c. c\<lparr>dc_folder_keys := dropped(uid \<mapsto> key)\<rparr>) d)"

definition is_not_found :: "proton_error \<Rightarrow> bool" where
  "is_not_found e =
     (case e of Api a \<Rightarrow> ae_code a = DoesNotExist \<or> ae_http_status a = 404 | _ \<Rightarrow> False)"

section \<open>Volumes and shares\<close>

definition create_volume :: "('k, 's, 'w) drive_env \<Rightarrow> (unit, ('k, 's, 'w) drive) op" where
  "create_volume E =
     op_bind (on_world (de_default_address E)) (\<lambda>address.
     op_bind (on_world (de_address_private_keys E (adr_id address))) (\<lambda>keys.
     op_bind (op_ok_or (InvalidOperation ''default address has no primary key'')
                (if adr_primary_key_index address < length keys then Some (keys ! adr_primary_key_index address)
                 else None)) (\<lambda>address_key.
     op_bind (on_world (de_volume_material E address_key ''root'')) (\<lambda>material.
       on_world (de_post_volume E ''volumes''
         \<lparr>vcr_address_id = adr_id address, vcr_address_key_id = adr_primary_key_id address, vcr_material = material\<rparr>)))))"

definition my_files_share_key ::
  "('k, 's, 'w) drive_env \<Rightarrow> my_files_share_response \<Rightarrow> (my_files_share_response \<times> 'k, ('k, 's, 'w) drive) op" where
  "my_files_share_key E response =
     op_bind (op_try (on_world (de_decrypt_share_key E (mfr_share response)))) (\<lambda>r.
       case r of
         Inr key \<Rightarrow> op_return (response, key)
       | Inl (Crypto e) \<Rightarrow>
           op_bind (on_world (de_get_volumes E ''volumes'')) (\<lambda>volumes.
             if has_active_regular_volume volumes then op_fail (Crypto e)
             else
               op_then (create_volume E)
               (op_bind (on_world (de_get_root_share E ''v2/shares/my-files'')) (\<lambda>response'.
                op_bind (on_world (de_decrypt_share_key E (mfr_share response'))) (\<lambda>key.
                  op_return (response', key)))))
       | Inl e \<Rightarrow> op_fail e)"

definition root_uid_of :: "my_files_share_response \<Rightarrow> node_uid" where
  "root_uid_of response = NodeUid_new (mfr_volume_id response) (l_id (ld_link (mfr_link response)))"

definition share_key_of :: "my_files_share_response \<Rightarrow> 'k \<Rightarrow> 'k share_key" where
  "share_key_of response key =
     \<lparr>sk_share_id = sh_id (mfr_share response), sk_address_id = sh_address_id (mfr_share response), sk_key = key\<rparr>"

definition ensure_my_files :: "('k, 's, 'w) drive_env \<Rightarrow> (unit, ('k, 's, 'w) drive) op" where
  "ensure_my_files E =
     op_bind (op_get (\<lambda>d. dc_my_files_share (drive_cache_of d))) (\<lambda>cached.
     if cached \<noteq> None then op_return ()
     else
       op_bind (op_try (on_world (de_get_root_share E ''v2/shares/my-files''))) (\<lambda>first.
       op_bind (case first of
                  Inr response \<Rightarrow> op_return response
                | Inl e \<Rightarrow>
                    if is_not_found e then
                      op_then (create_volume E) (on_world (de_get_root_share E ''v2/shares/my-files''))
                    else op_fail e) (\<lambda>response0.
       op_bind (my_files_share_key E response0) (\<lambda>(response, share_key).
       op_bind (op_of (de_decrypt_link E share_key (ld_link (mfr_link response)))) (\<lambda>(node_key, _).
         op_modify (\<lambda>d.
           set_drive_cache (\<lambda>c. c\<lparr>dc_my_files_share := Some (share_key_of response share_key)\<rparr>)
             (put_folder_key E (root_uid_of response) node_key
               (set_drive_cache (\<lambda>c. c\<lparr>dc_main_volume_id := Some (mfr_volume_id response),
                                       dc_my_files_root := Some (root_uid_of response)\<rparr>) d))))))))"

definition root_share_key :: "('k, 's, 'w) drive_env \<Rightarrow> ('k, ('k, 's, 'w) drive) op" where
  "root_share_key E =
     op_then (ensure_my_files E)
       (op_get (\<lambda>d. sk_key (the (dc_my_files_share (drive_cache_of d)))))"

definition share_key_by_id ::
  "('k, 's, 'w) drive_env \<Rightarrow> share_id \<Rightarrow> ('k \<times> address_id, ('k, 's, 'w) drive) op" where
  "share_key_by_id E sid =
     op_bind (on_world (de_get_share E (''shares/'' @ share_id_str sid))) (\<lambda>share.
     op_bind (on_world (de_decrypt_share_key E share)) (\<lambda>key.
       op_return (key, sh_address_id share)))"

fun device_metadata_of :: "device_list_item_dto list \<Rightarrow> device_metadata list result" where
  "device_metadata_of [] = Inr []"
| "device_metadata_of (item # items) =
     sum_bind (DeviceType_from_raw (ddd_device_type (dli_device item))) (\<lambda>ty.
     sum_bind (device_metadata_of items) (\<lambda>rest.
       Inr (\<lparr>dm_uid = ddd_id (dli_device item), dm_device_type = ty,
             dm_root_folder_uid = NodeUid_new (ddd_volume_id (dli_device item)) (dsd_root_link_id (dli_share item)),
             dm_creation_time = ddd_creation_time (dli_device item),
             dm_last_sync_time = ddd_last_sync_time (dli_device item),
             dm_has_deprecated_name = (case dsd_name (dli_share item) of Some n \<Rightarrow> n \<noteq> [] | None \<Rightarrow> False),
             dm_share_id = dsd_id (dli_share item)\<rparr> # rest)))"

definition device_metadata_op :: "('k, 's, 'w) drive_env \<Rightarrow> (device_metadata list, ('k, 's, 'w) drive) op" where
  "device_metadata_op E =
     op_bind (on_world (de_get_devices E ''devices'')) (\<lambda>items. op_of (device_metadata_of items))"

definition device_metadata_by_uid ::
  "('k, 's, 'w) drive_env \<Rightarrow> device_uid \<Rightarrow> (device_metadata, ('k, 's, 'w) drive) op" where
  "device_metadata_by_uid E uid =
     op_bind (device_metadata_op E) (\<lambda>devices.
       op_ok_or (InvalidOperation (''device '' @ device_uid_str uid @ '' not found''))
         (List.find (\<lambda>m. dm_uid m = uid) devices))"

text \<open>Paging \<open>sharedwithme\<close>; a server that never ends its pages never ends the loop.\<close>

definition next_anchor :: "string option \<Rightarrow> bool \<Rightarrow> string option" where
  "next_anchor anchor has_more =
     (case anchor of Some a \<Rightarrow> if a = [] \<or> \<not> has_more then None else Some a | None \<Rightarrow> None)"

definition index_shares :: "shared_with_me_item list \<Rightarrow> (node_uid \<rightharpoonup> share_id) \<Rightarrow> node_uid \<rightharpoonup> share_id" where
  "index_shares items shares = fold (\<lambda>i m. m(swm_uid i \<mapsto> swm_share_id i)) items shares"

partial_function (option) shared_with_me_pages ::
  "('k, 's, 'w) drive_env \<Rightarrow> string option \<Rightarrow> shared_with_me_item list \<Rightarrow> (node_uid \<rightharpoonup> share_id)
     \<Rightarrow> 'w \<Rightarrow> ((shared_with_me_item list \<times> (node_uid \<rightharpoonup> share_id)) result \<times> 'w) option" where
  [code]: "shared_with_me_pages E anchor items shares w =
     op_bind (de_get_shared_with_me E (case anchor of
                Some a \<Rightarrow> ''v2/sharedwithme?AnchorID='' @ a | None \<Rightarrow> ''v2/sharedwithme''))
       (\<lambda>page w1.
          if next_anchor (swr_anchor_id page) (swr_more page) = None
          then Some (Inr (items @ drive_items page, index_shares (drive_items page) shares), w1)
          else shared_with_me_pages E (next_anchor (swr_anchor_id page) (swr_more page))
                 (items @ drive_items page) (index_shares (drive_items page) shares) w1) w"

definition page_shared_with_me ::
  "('k, 's, 'w) drive_env \<Rightarrow> (shared_with_me_item list, ('k, 's, 'w) drive) op" where
  "page_shared_with_me E =
     op_bind (on_world (shared_with_me_pages E None [] Map.empty)) (\<lambda>(items, shares).
     op_then (op_modify (set_drive_cache (\<lambda>c. c\<lparr>dc_shared_with_me_shares := Some shares\<rparr>)))
       (op_return items))"

definition shared_with_me_shares ::
  "('k, 's, 'w) drive_env \<Rightarrow> bool \<Rightarrow> (node_uid \<rightharpoonup> share_id, ('k, 's, 'w) drive) op" where
  "shared_with_me_shares E refresh =
     op_bind (op_get (\<lambda>d. dc_shared_with_me_shares (drive_cache_of d))) (\<lambda>cached.
       case cached of
         Some shares \<Rightarrow>
           if \<not> refresh then op_return shares
           else op_then (page_shared_with_me E)
                  (op_get (\<lambda>d. case dc_shared_with_me_shares (drive_cache_of d) of Some m \<Rightarrow> m | None \<Rightarrow> Map.empty))
       | None \<Rightarrow>
           op_then (page_shared_with_me E)
             (op_get (\<lambda>d. case dc_shared_with_me_shares (drive_cache_of d) of Some m \<Rightarrow> m | None \<Rightarrow> Map.empty)))"

definition shared_with_me_share_key ::
  "('k, 's, 'w) drive_env \<Rightarrow> node_uid \<Rightarrow> ('k option, ('k, 's, 'w) drive) op" where
  "shared_with_me_share_key E uid =
     op_bind (op_get (\<lambda>d. dc_shared_with_me_shares (drive_cache_of d) \<noteq> None)) (\<lambda>was_cached.
     op_bind (shared_with_me_shares E False) (\<lambda>shares.
     op_bind (if shares uid = None \<and> was_cached then shared_with_me_shares E True else op_return shares) (\<lambda>shares'.
       case shares' uid of
         Some sid \<Rightarrow> op_bind (share_key_by_id E sid) (\<lambda>(key, _). op_return (Some key))
       | None \<Rightarrow> op_return None)))"

definition root_link_share_key ::
  "('k, 's, 'w) drive_env \<Rightarrow> volume_id \<Rightarrow> link_id \<Rightarrow> ('k, ('k, 's, 'w) drive) op" where
  "root_link_share_key E vid root_id =
     op_then (ensure_my_files E)
     (op_bind (op_get (\<lambda>d. case dc_my_files_root (drive_cache_of d) of
                 Some uid \<Rightarrow> uid_link uid = root_id | None \<Rightarrow> False)) (\<lambda>is_my_files.
      if is_my_files then root_share_key E
      else
        op_bind (op_try (device_metadata_op E)) (\<lambda>devices.
          case (case devices of
                  Inr ms \<Rightarrow> List.find (\<lambda>m. uid_link (dm_root_folder_uid m) = root_id \<and>
                                          uid_volume (dm_root_folder_uid m) = vid) ms
                | Inl _ \<Rightarrow> None) of
            Some m \<Rightarrow> op_bind (share_key_by_id E (dm_share_id m)) (\<lambda>(key, _). op_return key)
          | None \<Rightarrow>
              op_bind (shared_with_me_share_key E (NodeUid_new vid root_id)) (\<lambda>shared.
                case shared of Some key \<Rightarrow> op_return key | None \<Rightarrow> root_share_key E))))"

definition ensure_photos :: "('k, 's, 'w) drive_env \<Rightarrow> (bool, ('k, 's, 'w) drive) op" where
  "ensure_photos E =
     op_bind (op_get (\<lambda>d. dc_photos_volume_exists (drive_cache_of d))) (\<lambda>cached.
     case cached of
       Some exists \<Rightarrow> op_return exists
     | None \<Rightarrow>
         op_bind (op_try (on_world (de_get_root_share E ''v2/shares/photos''))) (\<lambda>r.
           case r of
             Inl e \<Rightarrow>
               (case e of
                  Api a \<Rightarrow>
                    if ae_code a = DoesNotExist then
                      op_then (op_modify (set_drive_cache (\<lambda>c. c\<lparr>dc_photos_volume_exists := Some False\<rparr>)))
                        (op_return False)
                    else op_fail e
                | _ \<Rightarrow> op_fail e)
           | Inr response \<Rightarrow>
               op_bind (on_world (de_decrypt_share_key E (mfr_share response))) (\<lambda>share_key.
               op_bind (op_of (de_decrypt_link E share_key (ld_link (mfr_link response)))) (\<lambda>(node_key, _).
               op_then (op_modify (\<lambda>d.
                 set_drive_cache (\<lambda>c. c\<lparr>dc_photos_share := Some (share_key_of response share_key),
                                         dc_photos_volume_exists := Some True\<rparr>)
                   (put_folder_key E (root_uid_of response) node_key
                     (set_drive_cache (\<lambda>c. c\<lparr>dc_photos_root := Some (root_uid_of response)\<rparr>) d))))
                 (op_return True)))))"

definition no_photos_volume :: proton_error where
  "no_photos_volume = InvalidOperation ''account has no photos volume''"

definition photos_share_key :: "('k, 's, 'w) drive_env \<Rightarrow> ('k, ('k, 's, 'w) drive) op" where
  "photos_share_key E =
     op_bind (ensure_photos E) (\<lambda>exists.
       if exists then op_get (\<lambda>d. sk_key (the (dc_photos_share (drive_cache_of d)))) else op_fail no_photos_volume)"

section \<open>Ancestors\<close>

definition MAX_BATCH_COUNT :: nat where "MAX_BATCH_COUNT = 150"

datatype parent_key_id = ParentOf link_id | RootOf link_id

definition ParentKeyId_of :: "link_dto \<Rightarrow> parent_key_id" where
  "ParentKeyId_of link = (case l_parent_id link of Some p \<Rightarrow> ParentOf p | None \<Rightarrow> RootOf (l_id link))"

definition links_path :: "volume_id \<Rightarrow> bool \<Rightarrow> string" where
  "links_path vid for_photos =
     (if for_photos then ''photos/volumes/'' else ''v2/volumes/'') @ volume_id_str vid @ ''/links''"

definition get_link_details_ctx ::
  "('k, 's, 'w) drive_env \<Rightarrow> volume_id \<Rightarrow> link_id list \<Rightarrow> bool \<Rightarrow> (link_details_dto list, ('k, 's, 'w) drive) op" where
  "get_link_details_ctx E vid ids for_photos = on_world (de_post_links E (links_path vid for_photos) ids)"

definition get_link_details ::
  "('k, 's, 'w) drive_env \<Rightarrow> volume_id \<Rightarrow> link_id list \<Rightarrow> (link_details_dto list, ('k, 's, 'w) drive) op" where
  "get_link_details E vid ids = get_link_details_ctx E vid ids False"

text \<open>The argument counts the ancestors that still fit into the batch.\<close>

fun ancestor_run ::
  "('k, 's, 'w) drive_env \<Rightarrow> volume_id \<Rightarrow> nat \<Rightarrow> link_id \<Rightarrow> link_id list \<Rightarrow> (link_id list, ('k, 's, 'w) drive) op" where
  "ancestor_run E vid 0 current run = op_return run"
| "ancestor_run E vid (Suc n) current run =
     op_bind (op_try (on_entities (try_get_node (de_repo E) (de_js E) (NodeUid_new vid current)))) (\<lambda>r.
       case r of
         Inr (Some ci) \<Rightarrow>
           (case n_parent_uid (cni_node ci) of
              None \<Rightarrow> op_return run
            | Some parent \<Rightarrow>
                op_bind (op_get (folder_key parent)) (\<lambda>key.
                  if key \<noteq> None then op_return run
                  else ancestor_run E vid n (uid_link parent) (run @ [uid_link parent])))
       | _ \<Rightarrow> op_return run)"

definition cached_ancestor_run ::
  "('k, 's, 'w) drive_env \<Rightarrow> volume_id \<Rightarrow> link_id \<Rightarrow> (link_id list, ('k, 's, 'w) drive) op" where
  "cached_ancestor_run E vid start = ancestor_run E vid (MAX_BATCH_COUNT - 1) start [start]"

fun take_run ::
  "volume_id \<Rightarrow> link_id list \<Rightarrow> (link_id \<rightharpoonup> link_dto) \<Rightarrow> link_id option \<Rightarrow> link_dto list
     \<Rightarrow> (link_id option \<times> link_dto list) result" where
  "take_run vid [] by_id current ancestry = Inr (current, ancestry)"
| "take_run vid (i # is) by_id current ancestry =
     (case by_id i of
        None \<Rightarrow> Inl (InvalidOperation (''ancestor '' @ NodeUid_display (NodeUid_new vid i) @ '' not found''))
      | Some link \<Rightarrow> take_run vid is (by_id(i := None)) (l_parent_id link) (ancestry @ [link]))"

definition links_by_id :: "link_details_dto list \<Rightarrow> link_id \<rightharpoonup> link_dto" where
  "links_by_id details = map_of (rev (map (\<lambda>d. (l_id (ld_link d), ld_link d)) details))"

partial_function (option) climb ::
  "('k, 's, 'w) drive_env \<Rightarrow> volume_id \<Rightarrow> bool \<Rightarrow> link_id option \<Rightarrow> link_dto list \<Rightarrow> ('k, 's, 'w) drive
     \<Rightarrow> (('k option \<times> link_dto list) result \<times> ('k, 's, 'w) drive) option" where
  [code]: "climb E vid for_photos current ancestry d =
     (case current of
        None \<Rightarrow> Some (Inr (None, ancestry), d)
      | Some p \<Rightarrow>
          (case folder_key (NodeUid_new vid p) d of
             Some key \<Rightarrow> Some (Inr (Some key, ancestry), d)
           | None \<Rightarrow>
               op_bind (op_bind (cached_ancestor_run E vid p) (\<lambda>run.
                        op_bind (get_link_details_ctx E vid run for_photos) (\<lambda>details.
                          op_of (take_run vid run (links_by_id details) None ancestry))))
                 (\<lambda>st. climb E vid for_photos (fst st) (snd st)) d))"

fun decrypt_down ::
  "('k, 's, 'w) drive_env \<Rightarrow> volume_id \<Rightarrow> 'k \<Rightarrow> link_dto list \<Rightarrow> ('k, ('k, 's, 'w) drive) op" where
  "decrypt_down E vid key [] = op_return key"
| "decrypt_down E vid key (link # links) =
     op_bind (op_of (de_decrypt_link E key link)) (\<lambda>(node_key, _).
     op_then (op_modify (put_folder_key E (NodeUid_new vid (l_id link)) node_key))
       (decrypt_down E vid node_key links))"

definition resolve_parent_key_walk ::
  "('k, 's, 'w) drive_env \<Rightarrow> volume_id \<Rightarrow> link_dto \<Rightarrow> bool \<Rightarrow> ('k, ('k, 's, 'w) drive) op" where
  "resolve_parent_key_walk E vid link for_photos =
     op_bind (climb E vid for_photos (l_parent_id link) []) (\<lambda>(base, ancestry).
     op_bind (case base of
                Some key \<Rightarrow> op_return key
              | None \<Rightarrow>
                  if for_photos then photos_share_key E
                  else root_link_share_key E vid
                         (if ancestry = [] then l_id link else l_id (last ancestry))) (\<lambda>key.
       decrypt_down E vid key (rev ancestry)))"

text \<open>A joined load reports an error rebuilt for each caller.\<close>

definition op_map_err :: "(proton_error \<Rightarrow> proton_error) \<Rightarrow> ('a, 'w) op \<Rightarrow> ('a, 'w) op" where
  "op_map_err f m = (\<lambda>w. map_option (\<lambda>(r, w'). (map_err f r, w')) (m w))"

definition resolve_parent_key_ctx ::
  "('k, 's, 'w) drive_env \<Rightarrow> volume_id \<Rightarrow> link_dto \<Rightarrow> bool \<Rightarrow> ('k, ('k, 's, 'w) drive) op" where
  "resolve_parent_key_ctx E vid link for_photos =
     op_bind (op_get (\<lambda>d. Option.bind (l_parent_id link) (\<lambda>p. folder_key (NodeUid_new vid p) d))) (\<lambda>cached.
       case cached of
         Some key \<Rightarrow> op_return key
       | None \<Rightarrow> op_map_err (rebuild_error (de_display E)) (resolve_parent_key_walk E vid link for_photos))"

definition resolve_parent_key ::
  "('k, 's, 'w) drive_env \<Rightarrow> volume_id \<Rightarrow> link_dto \<Rightarrow> ('k, ('k, 's, 'w) drive) op" where
  "resolve_parent_key E vid link = resolve_parent_key_ctx E vid link False"

definition folder_node_key ::
  "('k, 's, 'w) drive_env \<Rightarrow> node_uid \<Rightarrow> ('k, ('k, 's, 'w) drive) op" where
  "folder_node_key E uid =
     op_bind (op_get (folder_key uid)) (\<lambda>cached.
       case cached of
         Some key \<Rightarrow> op_return key
       | None \<Rightarrow>
           op_bind (get_link_details E (uid_volume uid) [uid_link uid]) (\<lambda>details.
           op_bind (op_ok_or (InvalidOperation (''folder '' @ NodeUid_display uid @ '' not found''))
                      (case details of [] \<Rightarrow> None | d # _ \<Rightarrow> Some (ld_link d))) (\<lambda>link.
           op_bind (resolve_parent_key E (uid_volume uid) link) (\<lambda>parent_key.
           op_bind (op_of (de_decrypt_link E parent_key link)) (\<lambda>(node_key, _).
           op_then (op_modify (put_folder_key E uid node_key)) (op_return node_key))))))"

fun resolve_parent_keys ::
  "(link_dto \<Rightarrow> ('k, 'd) op) \<Rightarrow> link_details_dto list \<Rightarrow> (parent_key_id \<rightharpoonup> 'k)
     \<Rightarrow> (parent_key_id \<rightharpoonup> 'k, 'd) op" where
  "resolve_parent_keys resolve [] keys = op_return keys"
| "resolve_parent_keys resolve (d # ds) keys =
     (let i = ParentKeyId_of (ld_link d) in
      if keys i \<noteq> None then resolve_parent_keys resolve ds keys
      else
        op_bind (op_try (resolve (ld_link d))) (\<lambda>r.
          resolve_parent_keys resolve ds (case r of Inr key \<Rightarrow> keys(i \<mapsto> key) | Inl _ \<Rightarrow> keys)))"

section \<open>Membership addresses\<close>

definition context_share_path :: "node_uid \<Rightarrow> string" where
  "context_share_path uid =
     ''volumes/'' @ volume_id_str (uid_volume uid) @ ''/links/'' @ link_id_str (uid_link uid) @ ''/context''"

definition context_share_id :: "('k, 's, 'w) drive_env \<Rightarrow> node_uid \<Rightarrow> (share_id, ('k, 's, 'w) drive) op" where
  "context_share_id E uid =
     op_bind (op_get (\<lambda>d. dc_context_share_ids (drive_cache_of d) uid)) (\<lambda>cached.
       case cached of
         Some sid \<Rightarrow> op_return sid
       | None \<Rightarrow>
           op_bind (on_world (de_get_context E (context_share_path uid))) (\<lambda>sid.
           op_then (op_modify (set_drive_cache (\<lambda>c. c\<lparr>dc_context_share_ids := (dc_context_share_ids c)(uid \<mapsto> sid)\<rparr>)))
             (op_return sid)))"

definition resolve_membership_address ::
  "('k, 's, 'w) drive_env \<Rightarrow> address_id \<Rightarrow> (address_id \<times> string \<times> 'k, ('k, 's, 'w) drive) op" where
  "resolve_membership_address E aid =
     op_bind (on_world (de_address E aid)) (\<lambda>address.
     op_bind (on_world (de_address_private_keys E aid)) (\<lambda>keys.
     op_bind (op_ok_or (InvalidOperation ''membership address has no primary key'')
                (if adr_primary_key_index address < length keys then Some (keys ! adr_primary_key_index address)
                 else None)) (\<lambda>key.
       op_return (aid, adr_email address, key))))"

definition membership_address ::
  "('k, 's, 'w) drive_env \<Rightarrow> (address_id \<times> string \<times> 'k, ('k, 's, 'w) drive) op" where
  "membership_address E =
     op_then (ensure_my_files E)
     (op_bind (op_get (\<lambda>d. sk_address_id (the (dc_my_files_share (drive_cache_of d)))))
        (resolve_membership_address E))"

definition membership_address_for ::
  "('k, 's, 'w) drive_env \<Rightarrow> node_uid \<Rightarrow> (address_id \<times> string \<times> 'k, ('k, 's, 'w) drive) op" where
  "membership_address_for E uid =
     op_bind (op_try (op_bind (context_share_id E uid) (\<lambda>sid.
                      op_bind (on_world (de_get_share E (''shares/'' @ share_id_str sid))) (\<lambda>share.
                        resolve_membership_address E (sh_address_id share))))) (\<lambda>r.
       case r of Inr address \<Rightarrow> op_return address | Inl _ \<Rightarrow> membership_address E)"

definition photos_membership_address ::
  "('k, 's, 'w) drive_env \<Rightarrow> (address_id \<times> string \<times> 'k, ('k, 's, 'w) drive) op" where
  "photos_membership_address E =
     op_bind (ensure_photos E) (\<lambda>exists.
       if \<not> exists then op_fail no_photos_volume
       else op_bind (op_get (\<lambda>d. sk_address_id (the (dc_photos_share (drive_cache_of d)))))
              (resolve_membership_address E))"

definition parent_hash_key_ctx ::
  "('k, 's, 'w) drive_env \<Rightarrow> node_uid \<Rightarrow> 'k \<Rightarrow> bool \<Rightarrow> (bytes, ('k, 's, 'w) drive) op" where
  "parent_hash_key_ctx E parent_uid parent_key for_photos =
     op_bind (get_link_details_ctx E (uid_volume parent_uid) [uid_link parent_uid] for_photos) (\<lambda>details.
     op_bind (op_ok_or (InvalidOperation ''parent node is not a folder'')
                (case details of [] \<Rightarrow> None | d # _ \<Rightarrow> folder_properties d)) (\<lambda>folder.
       op_of (de_decrypt_message E parent_key (fo_hash_key folder))))"

definition parent_hash_key ::
  "('k, 's, 'w) drive_env \<Rightarrow> node_uid \<Rightarrow> 'k \<Rightarrow> (bytes, ('k, 's, 'w) drive) op" where
  "parent_hash_key E parent_uid parent_key = parent_hash_key_ctx E parent_uid parent_key False"

definition device_root_folder_name ::
  "('k, 's, 'w) drive_env \<Rightarrow> device_metadata \<Rightarrow> (string, ('k, 's, 'w) drive) op" where
  "device_root_folder_name E m =
     op_bind (share_key_by_id E (dm_share_id m)) (\<lambda>(share_key, _).
     let uid = dm_root_folder_uid m in
     op_bind (get_link_details E (uid_volume uid) [uid_link uid]) (\<lambda>details.
     op_bind (op_ok_or (InvalidOperation (''device root folder '' @ NodeUid_display uid @ '' not found''))
                (case details of [] \<Rightarrow> None | d # _ \<Rightarrow> Some (ld_link d))) (\<lambda>link.
     op_bind (op_of (de_decrypt_link E share_key link)) (\<lambda>(node_key, name).
     op_then (op_modify (put_folder_key E uid node_key)) (op_return name)))))"

definition address_primary_key_id ::
  "('k, 's, 'w) drive_env \<Rightarrow> address_id \<Rightarrow> (address_key_id, ('k, 's, 'w) drive) op" where
  "address_primary_key_id E aid = op_bind (on_world (de_address E aid)) (\<lambda>a. op_return (adr_primary_key_id a))"

section \<open>The provider\<close>

text \<open>
  The interface on the account client and the crypto layer: the world is the account client's
  state, whose own world is the server and the random number generator.
\<close>

definition account_gen :: "('a, 'w) gen \<Rightarrow> ('a, ('sk, 'pub, 'w) account) op" where
  "account_gen m = op_call (\<lambda>acc. case m (ac_world acc) of (r, w) \<Rightarrow> (from_crypto r, acc\<lparr>ac_world := w\<rparr>))"

definition account_drive ::
  "('sk, 'pub, 'sig, 'msg, 'w) account_env \<Rightarrow> ('sk, 'pub, 'ek, 'pk, 'sd, 'w) pgp_lib \<Rightarrow> ('sk, 'ek, 'sg, 'w) write_lib
     \<Rightarrow> ('sk private_key, 's, ('sk, 'pub, 'w) account) drive_env
     \<Rightarrow> ('sk private_key, 's, ('sk, 'pub, 'w) account) drive_env" where
  "account_drive A L W endpoints =
     endpoints
       \<lparr>de_address := address_op A, de_default_address := default_address A,
        de_address_private_keys := address_private_keys A, de_decrypt_share_key := decrypt_share_key A,
        de_decrypt_link := (\<lambda>k link. map_sum id (\<lambda>dl. (dl_node_key dl, dl_name dl)) (decrypt_link (ae_rpgp A) k link)),
        de_decrypt_message := (\<lambda>k s. from_crypto (decrypt_armored_message (ae_rpgp A) k s)),
        de_volume_material := (\<lambda>k name. account_gen (build_volume_creation_material (ae_rpgp A, L, W) k name))\<rparr>"

section \<open>Soundness of the key cache\<close>

text \<open>
  \<open>T\<close> gives every node its own key.  A served link is genuine when whatever key opens it
  yields that node's key; the key cache is sound when it holds every node's own key.
\<close>

definition genuine_link ::
  "('k, 's, 'w) drive_env \<Rightarrow> (node_uid \<rightharpoonup> 'k) \<Rightarrow> volume_id \<Rightarrow> link_dto \<Rightarrow> bool" where
  "genuine_link E T vid link \<longleftrightarrow>
     (\<forall>key k name. de_decrypt_link E key link = Inr (k, name) \<longrightarrow> T (NodeUid_new vid (l_id link)) = Some k)"

definition genuine_server :: "('k, 's, 'w) drive_env \<Rightarrow> (node_uid \<rightharpoonup> 'k) \<Rightarrow> bool" where
  "genuine_server E T \<longleftrightarrow>
     (\<forall>vid for_photos ids w details w'. de_post_links E (links_path vid for_photos) ids w = Some (Inr details, w') \<longrightarrow>
        list_all (\<lambda>d. genuine_link E T vid (ld_link d)) details) \<and>
     (\<forall>path w r w'. de_get_root_share E path w = Some (Inr r, w') \<longrightarrow>
        genuine_link E T (mfr_volume_id r) (ld_link (mfr_link r)))"

definition keys_sound :: "(node_uid \<rightharpoonup> 'k) \<Rightarrow> ('k, 's, 'w) drive \<Rightarrow> bool" where
  "keys_sound T d \<longleftrightarrow> (\<forall>uid k. folder_key uid d = Some k \<longrightarrow> T uid = Some k)"

lemma folder_key_simps [simp]:
  "folder_key uid (d\<lparr>dv_world := w\<rparr>) = folder_key uid d"
  "folder_key uid (d\<lparr>dv_caches := (dv_caches d)\<lparr>cc_entities := s\<rparr>\<rparr>) = folder_key uid d"
  by (simp_all add: folder_key_def drive_cache_of_def)

lemma folder_key_set_cache:
  "(\<And>c. dc_folder_keys (f c) = dc_folder_keys c) \<Longrightarrow> folder_key uid (set_drive_cache f d) = folder_key uid d"
  by (simp add: folder_key_def drive_cache_of_def set_drive_cache_def)

lemma folder_key_put:
  "folder_key uid (put_folder_key E uid' key d) =
     (if uid = uid' then Some key
      else if de_victim E uid' (dv_world d) = Some uid then None else folder_key uid d)"
  by (auto simp: folder_key_def put_folder_key_def drive_cache_of_def set_drive_cache_def Let_def split: option.splits)

lemma keys_sound_put: "keys_sound T d \<Longrightarrow> T uid = Some key \<Longrightarrow> keys_sound T (put_folder_key E uid key d)"
  by (auto simp: keys_sound_def folder_key_put split: if_splits)

lemma keys_sound_set_cache:
  "(\<And>c. dc_folder_keys (f c) = dc_folder_keys c) \<Longrightarrow> keys_sound T (set_drive_cache f d) = keys_sound T d"
  by (simp add: keys_sound_def folder_key_set_cache)

lemma on_world_Some:
  "on_world m d = Some (r, d') \<longleftrightarrow> (\<exists>w. m (dv_world d) = Some (r, w) \<and> d' = d\<lparr>dv_world := w\<rparr>)"
  by (auto simp: on_world_def)

lemma keeps_on_world [keeps]: "op_keeps (keys_sound T) (on_world m)"
  by (auto simp: op_keeps_def on_world_Some keys_sound_def)

lemma keeps_on_entities [keeps]: "op_keeps (keys_sound T) (on_entities f)"
  by (auto simp: op_keeps_def on_entities_def keys_sound_def split: prod.splits)

lemma keeps_set_cache [keeps]:
  "(\<And>c. dc_folder_keys (f c) = dc_folder_keys c) \<Longrightarrow> op_keeps (keys_sound T) (op_modify (set_drive_cache f))"
  by (intro keeps) (simp add: keys_sound_set_cache)

lemma keeps_case [keeps]:
  "op_keeps I m \<Longrightarrow> (\<And>y. op_keeps I (n y)) \<Longrightarrow> op_keeps I (case x of None \<Rightarrow> m | Some y \<Rightarrow> n y)"
  "(\<And>e. op_keeps I (f e)) \<Longrightarrow> (\<And>y. op_keeps I (g y)) \<Longrightarrow> op_keeps I (case r of Inl e \<Rightarrow> f e | Inr y \<Rightarrow> g y)"
  "(\<And>a b. op_keeps I (h a b)) \<Longrightarrow> op_keeps I (case p of (a, b) \<Rightarrow> h a b)"
  by (auto split: option.splits sum.splits prod.splits)

lemma keeps_let [keeps]: "op_keeps I (f x) \<Longrightarrow> op_keeps I (let y = x in f y)"
  by simp

lemma keeps_map_err [keeps]: "op_keeps I m \<Longrightarrow> op_keeps I (op_map_err f m)"
  unfolding op_keeps_def op_map_err_def by (auto split: prod.splits)

lemma keeps_create_volume: "op_keeps (keys_sound T) (create_volume E)"
  unfolding create_volume_def by (intro keeps)

text \<open>A response stays genuine through the bootstrap; only genuine roots are cached.\<close>

lemma my_files_share_key_genuine:
  assumes "genuine_server E T" "genuine_link E T (mfr_volume_id r0) (ld_link (mfr_link r0))"
    and "my_files_share_key E r0 d = Some (Inr (r, key), d')"
  shows "genuine_link E T (mfr_volume_id r) (ld_link (mfr_link r))"
proof -
  obtain q d1 where q: "on_world (de_decrypt_share_key E (mfr_share r0)) d = Some (q, d1)"
    using assms(3) by (cases "on_world (de_decrypt_share_key E (mfr_share r0)) d")
      (auto simp: my_files_share_key_def op_bind_def op_try_def)
  have root: "genuine_link E T (mfr_volume_id r') (ld_link (mfr_link r'))"
    if "on_world (de_get_root_share E p) e = Some (Inr r', e')" for p e r' e'
    using that assms(1) unfolding genuine_server_def on_world_Some by blast
  show ?thesis
  proof (cases q)
    case (Inl e)
    then show ?thesis using assms(3) q root
      by (cases e) (auto simp: my_files_share_key_def op_bind_Inr op_try_Some op_then_def split: if_splits)
  next
    case (Inr k)
    then show ?thesis using assms q by (auto simp: my_files_share_key_def op_bind_Inr op_try_Some)
  qed
qed

lemma keeps_proton_error [keeps]:
  "(\<And>a. op_keeps I (f1 a)) \<Longrightarrow> (\<And>a. op_keeps I (f2 a)) \<Longrightarrow> (\<And>a. op_keeps I (f3 a)) \<Longrightarrow> (\<And>a. op_keeps I (f4 a)) \<Longrightarrow>
   op_keeps I f5 \<Longrightarrow> (\<And>a. op_keeps I (f6 a)) \<Longrightarrow>
   op_keeps I (case e of Api a \<Rightarrow> f1 a | Transport a \<Rightarrow> f2 a | Serialization a \<Rightarrow> f3 a | Crypto a \<Rightarrow> f4 a
     | KeysLocked \<Rightarrow> f5 | InvalidOperation a \<Rightarrow> f6 a)"
  by (cases e) auto

lemma keeps_my_files_share_key: "op_keeps (keys_sound T) (my_files_share_key E r)"
  unfolding my_files_share_key_def by (intro keeps keeps_create_volume)

definition genuine_response :: "('k, 's, 'w) drive_env \<Rightarrow> (node_uid \<rightharpoonup> 'k) \<Rightarrow> my_files_share_response \<Rightarrow> bool" where
  "genuine_response E T r \<longleftrightarrow> genuine_link E T (mfr_volume_id r) (ld_link (mfr_link r))"

lemma root_share_genuine:
  "genuine_server E T \<Longrightarrow> on_world (de_get_root_share E p) d = Some (Inr r, d') \<Longrightarrow> genuine_response E T r"
  unfolding genuine_server_def on_world_Some genuine_response_def by blast

lemma keeps_put_genuine:
  assumes "genuine_response E T r" "de_decrypt_link E key (ld_link (mfr_link r)) = Inr (k, name)"
  shows "op_keeps (keys_sound T) (op_modify (\<lambda>d. set_drive_cache (\<lambda>c. c\<lparr>dc_my_files_share := x\<rparr>)
     (put_folder_key E (root_uid_of r) k (set_drive_cache (\<lambda>c. c\<lparr>dc_main_volume_id := v, dc_my_files_root := u\<rparr>) d))))"
    "op_keeps (keys_sound T) (op_modify (\<lambda>d. set_drive_cache (\<lambda>c. c\<lparr>dc_photos_share := x, dc_photos_volume_exists := b\<rparr>)
     (put_folder_key E (root_uid_of r) k (set_drive_cache (\<lambda>c. c\<lparr>dc_photos_root := u\<rparr>) d))))"
proof -
  have "T (root_uid_of r) = Some k" using assms unfolding genuine_response_def genuine_link_def root_uid_of_def by blast
  then show "op_keeps (keys_sound T) (op_modify (\<lambda>d. set_drive_cache (\<lambda>c. c\<lparr>dc_my_files_share := x\<rparr>)
     (put_folder_key E (root_uid_of r) k (set_drive_cache (\<lambda>c. c\<lparr>dc_main_volume_id := v, dc_my_files_root := u\<rparr>) d))))"
    "op_keeps (keys_sound T) (op_modify (\<lambda>d. set_drive_cache (\<lambda>c. c\<lparr>dc_photos_share := x, dc_photos_volume_exists := b\<rparr>)
     (put_folder_key E (root_uid_of r) k (set_drive_cache (\<lambda>c. c\<lparr>dc_photos_root := u\<rparr>) d))))"
    by (auto intro!: op_keeps_modify simp: keys_sound_set_cache keys_sound_put)
qed

lemma keeps_ensure_my_files:
  assumes "genuine_server E T"
  shows "op_keeps (keys_sound T) (ensure_my_files E)"
proof -
  let ?first = "\<lambda>first. case first of Inr response \<Rightarrow> op_return response
       | Inl e \<Rightarrow> if is_not_found e then op_then (create_volume E) (on_world (de_get_root_share E ''v2/shares/my-files''))
                 else op_fail e"
  let ?rest = "\<lambda>p. case p of (response, share_key) \<Rightarrow>
       op_bind (op_of (de_decrypt_link E share_key (ld_link (mfr_link response)))) (\<lambda>(node_key, _).
         op_modify (\<lambda>d. set_drive_cache (\<lambda>c. c\<lparr>dc_my_files_share := Some (share_key_of response share_key)\<rparr>)
             (put_folder_key E (root_uid_of response) node_key
               (set_drive_cache (\<lambda>c. c\<lparr>dc_main_volume_id := Some (mfr_volume_id response),
                                       dc_my_files_root := Some (root_uid_of response)\<rparr>) d))))"
  have rest: "op_keeps (keys_sound T) (?rest p)" if "genuine_response E T (fst p)" for p
  proof (cases p)
    case (Pair response share_key)
    then show ?thesis using that keeps_put_genuine(1)
      by (cases "de_decrypt_link E share_key (ld_link (mfr_link response))") (auto intro: op_keeps_pure)
  qed
  have second: "op_keeps (keys_sound T) (op_bind (my_files_share_key E r0) ?rest)" if "genuine_response E T r0" for r0
    by (rule op_keeps_bind_post [where Q = "\<lambda>p. genuine_response E T (fst p)"])
       (use keeps_my_files_share_key my_files_share_key_genuine [OF assms] that rest in \<open>auto simp: genuine_response_def\<close>)
  have first: "op_keeps (keys_sound T) (op_bind (?first r) (\<lambda>r0. op_bind (my_files_share_key E r0) ?rest))"
    if "\<And>r0. r = Inr r0 \<Longrightarrow> genuine_response E T r0" for r
    by (rule op_keeps_bind_post [where Q = "genuine_response E T"])
       (use that second root_share_genuine [OF assms] in
         \<open>auto intro!: keeps keeps_create_volume simp: op_then_def op_bind_Inr split: sum.splits if_splits\<close>)
  have main: "op_keeps (keys_sound T) (op_bind (op_try (on_world (de_get_root_share E ''v2/shares/my-files'')))
      (\<lambda>f. op_bind (?first f) (\<lambda>r0. op_bind (my_files_share_key E r0) ?rest)))"
    by (rule op_keeps_bind_post [where Q = "\<lambda>r. \<forall>r0. r = Inr r0 \<longrightarrow> genuine_response E T r0"])
       (use first root_share_genuine [OF assms] in \<open>auto intro!: keeps simp: op_try_Some\<close>)
  show ?thesis unfolding ensure_my_files_def
    by (rule op_keeps_bind [OF op_keeps_pure(4) op_keeps_if [OF op_keeps_pure(1) main]])
qed

lemma keeps_share_calls:
  assumes "genuine_server E T"
  shows "op_keeps (keys_sound T) (root_share_key E)" "op_keeps (keys_sound T) (share_key_by_id E sid)"
    "op_keeps (keys_sound T) (device_metadata_op E)" "op_keeps (keys_sound T) (shared_with_me_share_key E uid)"
    "op_keeps (keys_sound T) (root_link_share_key E vid rid)"
proof -
  have share: "op_keeps (keys_sound T) (share_key_by_id E sid)" for sid
    unfolding share_key_by_id_def by (intro keeps)
  have page: "op_keeps (keys_sound T) (page_shared_with_me E)"
    unfolding page_shared_with_me_def by (intro keeps) (simp_all add: keys_sound_set_cache)
  have shares: "op_keeps (keys_sound T) (shared_with_me_shares E b)" for b
    unfolding shared_with_me_shares_def by (intro keeps page)
  have swm: "op_keeps (keys_sound T) (shared_with_me_share_key E uid)" for uid
    unfolding shared_with_me_share_key_def by (intro keeps shares share)
  show root: "op_keeps (keys_sound T) (root_share_key E)"
    unfolding root_share_key_def by (intro keeps keeps_ensure_my_files [OF assms])
  show dev: "op_keeps (keys_sound T) (device_metadata_op E)"
    unfolding device_metadata_op_def by (intro keeps)
  show "op_keeps (keys_sound T) (root_link_share_key E vid rid)"
    unfolding root_link_share_key_def by (intro keeps keeps_ensure_my_files [OF assms] root dev share swm)
  show "op_keeps (keys_sound T) (share_key_by_id E sid)" by (rule share)
  show "op_keeps (keys_sound T) (shared_with_me_share_key E uid)" by (rule swm)
qed

lemma keeps_ensure_photos:
  assumes "genuine_server E T"
  shows "op_keeps (keys_sound T) (ensure_photos E)" "op_keeps (keys_sound T) (photos_share_key E)"
proof -
  let ?found = "\<lambda>response. op_bind (on_world (de_decrypt_share_key E (mfr_share response))) (\<lambda>share_key.
               op_bind (op_of (de_decrypt_link E share_key (ld_link (mfr_link response)))) (\<lambda>(node_key, _).
               op_then (op_modify (\<lambda>d.
                 set_drive_cache (\<lambda>c. c\<lparr>dc_photos_share := Some (share_key_of response share_key),
                                         dc_photos_volume_exists := Some True\<rparr>)
                   (put_folder_key E (root_uid_of response) node_key
                     (set_drive_cache (\<lambda>c. c\<lparr>dc_photos_root := Some (root_uid_of response)\<rparr>) d))))
                 (op_return True)))"
  have found: "op_keeps (keys_sound T) (?found r)" if "genuine_response E T r" for r
  proof (rule op_keeps_bind [OF keeps_on_world])
    fix key
    show "op_keeps (keys_sound T) (op_bind (op_of (de_decrypt_link E key (ld_link (mfr_link r)))) (\<lambda>(node_key, _).
               op_then (op_modify (\<lambda>d.
                 set_drive_cache (\<lambda>c. c\<lparr>dc_photos_share := Some (share_key_of r key),
                                         dc_photos_volume_exists := Some True\<rparr>)
                   (put_folder_key E (root_uid_of r) node_key
                     (set_drive_cache (\<lambda>c. c\<lparr>dc_photos_root := Some (root_uid_of r)\<rparr>) d))))
                 (op_return True)))"
      using that by (cases "de_decrypt_link E key (ld_link (mfr_link r))")
        (auto intro!: op_keeps_then op_keeps_pure keeps_put_genuine(2))
  qed
  show photos: "op_keeps (keys_sound T) (ensure_photos E)"
    unfolding ensure_photos_def
    by (intro op_keeps_bind [OF op_keeps_pure(4)] keeps_case(1) op_keeps_pure
        op_keeps_bind_post [where Q = "\<lambda>r. \<forall>r0. r = Inr r0 \<longrightarrow> genuine_response E T r0"])
       (use found root_share_genuine [OF assms] in
         \<open>auto intro!: keeps simp: op_try_Some keys_sound_set_cache split: sum.splits proton_error.splits\<close>)
  show "op_keeps (keys_sound T) (photos_share_key E)"
    unfolding photos_share_key_def by (intro keeps photos)
qed

lemma keeps_ancestor_run: "op_keeps (keys_sound T) (ancestor_run E vid n cur run)"
proof (induction n arbitrary: cur run)
  case (Suc n)
  then show ?case unfolding ancestor_run.simps by (intro keeps)
qed (simp add: keeps)

lemma on_entities_total:
  obtains r d1 where "on_entities f d = Some (r, d1)" "drive_cache_of d1 = drive_cache_of d"
proof -
  obtain r s where "f (cc_entities (dv_caches d)) = (r, s)" by fastforce
  then have "on_entities f d = Some (r, d\<lparr>dv_caches := (dv_caches d)\<lparr>cc_entities := s\<rparr>\<rparr>)"
    by (simp add: on_entities_def)
  then show thesis by (rule that) (simp add: drive_cache_of_def)
qed

lemma ancestor_run_Suc:
  "on_entities (try_get_node (de_repo E) (de_js E) (NodeUid_new vid cur)) d = Some (q, d1) \<Longrightarrow>
   ancestor_run E vid (Suc n) cur run d =
     (case q of
        Inr (Some ci) \<Rightarrow>
          (case n_parent_uid (cni_node ci) of
             None \<Rightarrow> Some (Inr run, d1)
           | Some parent \<Rightarrow>
               if folder_key parent d1 \<noteq> None then Some (Inr run, d1)
               else ancestor_run E vid n (uid_link parent) (run @ [uid_link parent]) d1)
      | _ \<Rightarrow> Some (Inr run, d1))"
  by (auto simp: op_bind_def op_try_def split: sum.splits option.splits)

lemma ancestor_run_starts:
  "ancestor_run E vid n cur (i # run) d = Some (Inr r, d') \<Longrightarrow> \<exists>rest. r = i # rest"
proof (induction n arbitrary: cur run d)
  case (Suc n)
  obtain q d1 where q: "on_entities (try_get_node (de_repo E) (de_js E) (NodeUid_new vid cur)) d = Some (q, d1)"
    by (rule on_entities_total)
  show ?case using Suc.prems unfolding ancestor_run_Suc [OF q]
    by (auto intro: Suc.IH split: sum.splits option.splits if_splits)
qed auto

lemma take_run_spec:
  assumes "take_run vid is m cur anc = Inr (cur', anc')"
    and "\<And>i link. m i = Some link \<Longrightarrow> l_id link = i \<and> G link"
  shows "\<exists>new. anc' = anc @ new \<and> map l_id new = is \<and> list_all G new \<and>
     cur' = (if new = [] then cur else l_parent_id (last new))"
  using assms
proof (induction "is" arbitrary: m cur anc)
  case (Cons i "is")
  then obtain link where link: "m i = Some link" "take_run vid is (m(i := None)) (l_parent_id link) (anc @ [link]) = Inr (cur', anc')"
    by (auto split: option.splits)
  have "\<And>j lk. (m(i := None)) j = Some lk \<Longrightarrow> l_id lk = j \<and> G lk"
    using Cons.prems(2) by (auto split: if_splits)
  from Cons.IH [OF link(2) this] obtain new where "anc' = (anc @ [link]) @ new" "map l_id new = is" "list_all G new"
    "cur' = (if new = [] then l_parent_id link else l_parent_id (last new))" by blast
  then show ?case using link(1) Cons.prems(2) [OF link(1)] by (intro exI [of _ "link # new"]) auto
qed simp

lemma links_by_id_spec:
  "links_by_id details i = Some link \<Longrightarrow> l_id link = i \<and> (\<exists>d\<in>set details. ld_link d = link)"
  unfolding links_by_id_def by (auto dest!: map_of_SomeD)

text \<open>One round of the climb: the ancestors it adds, and where it goes on.\<close>

definition climb_round ::
  "('k, 's, 'w) drive_env \<Rightarrow> volume_id \<Rightarrow> bool \<Rightarrow> link_id \<Rightarrow> link_dto list
     \<Rightarrow> (link_id option \<times> link_dto list, ('k, 's, 'w) drive) op" where
  "climb_round E vid for_photos p ancestry =
     op_bind (cached_ancestor_run E vid p) (\<lambda>run.
     op_bind (get_link_details_ctx E vid run for_photos) (\<lambda>details.
       op_of (take_run vid run (links_by_id details) None ancestry)))"

lemma climb_unfold:
  "climb E vid for_photos current ancestry d =
     (case current of
        None \<Rightarrow> Some (Inr (None, ancestry), d)
      | Some p \<Rightarrow>
          (case folder_key (NodeUid_new vid p) d of
             Some key \<Rightarrow> Some (Inr (Some key, ancestry), d)
           | None \<Rightarrow> op_bind (climb_round E vid for_photos p ancestry)
                       (\<lambda>st. climb E vid for_photos (fst st) (snd st)) d))"
  by (subst climb.simps) (simp add: climb_round_def split: option.splits)

lemma keeps_climb_round: "op_keeps (keys_sound T) (climb_round E vid for_photos p ancestry)"
  unfolding climb_round_def cached_ancestor_run_def get_link_details_ctx_def
  by (intro keeps keeps_ancestor_run)

lemma climb_round_spec:
  assumes "genuine_server E T" "climb_round E vid for_photos p ancestry d = Some (Inr (cur', anc'), d')"
  shows "\<exists>link new. anc' = ancestry @ link # new \<and> l_id link = p \<and> list_all (genuine_link E T vid) (link # new)"
proof -
  obtain run d1 details where run: "ancestor_run E vid (MAX_BATCH_COUNT - 1) p [p] d = Some (Inr run, d1)"
    and det: "on_world (de_post_links E (links_path vid for_photos) run) d1 = Some (Inr details, d')"
    and tk: "take_run vid run (links_by_id details) None ancestry = Inr (cur', anc')"
    using assms(2) by (auto simp: climb_round_def cached_ancestor_run_def get_link_details_ctx_def op_bind_Inr)
  have "list_all (\<lambda>d. genuine_link E T vid (ld_link d)) details"
    using assms(1) det unfolding genuine_server_def on_world_Some by blast
  then have "\<And>i link. links_by_id details i = Some link \<Longrightarrow> l_id link = i \<and> genuine_link E T vid link"
    using links_by_id_spec by (fastforce simp: list_all_iff)
  from take_run_spec [OF tk this] obtain new where new: "anc' = ancestry @ new" "map l_id new = run"
    "list_all (genuine_link E T vid) new" by blast
  obtain rest where "run = p # rest" using ancestor_run_starts [OF run] by blast
  then show ?thesis using new by (cases new) auto
qed

text \<open>A climb that returns has collected genuine ancestors, the first of them the one it began at.\<close>

definition climbed ::
  "(node_uid \<rightharpoonup> 'k) \<Rightarrow> ('k, 's, 'w) drive_env \<Rightarrow> volume_id \<Rightarrow> link_id option \<Rightarrow> link_dto list \<Rightarrow> 'k option
     \<Rightarrow> link_dto list \<Rightarrow> bool" where
  "climbed T E vid current ancestry base anc' \<longleftrightarrow>
     list_all (genuine_link E T vid) anc' \<and>
     (\<exists>new. anc' = ancestry @ new \<and>
        (\<forall>p. current = Some p \<longrightarrow>
           (case new of [] \<Rightarrow> \<exists>k. base = Some k \<and> T (NodeUid_new vid p) = Some k | link # _ \<Rightarrow> l_id link = p)))"

definition climb_ok where
  "climb_ok T E vid current ancestry d rd \<longleftrightarrow>
     (genuine_server E T \<longrightarrow> keys_sound T d \<longrightarrow> list_all (genuine_link E T vid) ancestry \<longrightarrow>
      keys_sound T (snd rd) \<and>
      (case fst rd of Inl _ \<Rightarrow> True | Inr (base, anc') \<Rightarrow> climbed T E vid current ancestry base anc'))"

lemma climb_is_ok:
  assumes "climb E vid for_photos current ancestry d = Some rd"
  shows "climb_ok T E vid current ancestry d rd"
proof (rule climb.raw_induct [where P = "\<lambda>E vid for_photos current ancestry d rd. climb_ok T E vid current ancestry d rd",
      OF _ assms])
  fix climb' E vid for_photos current ancestry d rd
  assume IH: "\<And>E vid for_photos current ancestry d rd. climb' E vid for_photos current ancestry d = Some rd \<Longrightarrow>
      climb_ok T E vid current ancestry d rd"
    and step: "(case current of None \<Rightarrow> Some (Inr (None, ancestry), d)
      | Some p \<Rightarrow> (case folder_key (NodeUid_new vid p) d of
             None \<Rightarrow>
               op_bind (op_bind (cached_ancestor_run E vid p) (\<lambda>run.
                        op_bind (get_link_details_ctx E vid run for_photos) (\<lambda>details.
                          op_of (take_run vid run (links_by_id details) None ancestry))))
                 (\<lambda>st. climb' E vid for_photos (fst st) (snd st)) d
           | Some key \<Rightarrow> Some (Inr (Some key, ancestry), d))) = Some rd"
  show "climb_ok T E vid current ancestry d rd"
    unfolding climb_ok_def
  proof (intro impI)
    assume gen: "genuine_server E T" and ks: "keys_sound T d" and anc: "list_all (genuine_link E T vid) ancestry"
    show "keys_sound T (snd rd) \<and>
      (case fst rd of Inl _ \<Rightarrow> True | Inr (base, anc') \<Rightarrow> climbed T E vid current ancestry base anc')"
    proof (cases current)
      case None
      then show ?thesis using step ks anc by (auto simp: climbed_def)
    next
      case (Some p)
      show ?thesis
      proof (cases "folder_key (NodeUid_new vid p) d")
        case None
        have run: "op_bind (climb_round E vid for_photos p ancestry) (\<lambda>st. climb' E vid for_photos (fst st) (snd st)) d = Some rd"
          using step Some None by (simp add: climb_round_def)
        obtain q d1 where q: "climb_round E vid for_photos p ancestry d = Some (q, d1)"
          using run by (cases "climb_round E vid for_photos p ancestry d") (auto simp: op_bind_def)
        have ks1: "keys_sound T d1" using op_keepsD [OF keeps_climb_round ks q] .
        show ?thesis
        proof (cases q)
          case (Inl e)
          then show ?thesis using run q ks1 by (auto simp: op_bind_def)
        next
          case (Inr st)
          obtain cur' anc' where st: "st = (cur', anc')" by fastforce
          obtain link new where new: "anc' = ancestry @ link # new" "l_id link = p"
            "list_all (genuine_link E T vid) (link # new)"
            using climb_round_spec [OF gen] q Inr st by blast
          have "climb' E vid for_photos cur' anc' d1 = Some rd" using run q Inr st by (simp add: op_bind_def)
          from IH [OF this] have "keys_sound T (snd rd) \<and>
              (case fst rd of Inl _ \<Rightarrow> True | Inr (base, anc2) \<Rightarrow> climbed T E vid cur' anc' base anc2)"
            using gen ks1 anc new unfolding climb_ok_def by fastforce
          then show ?thesis using new Some by (auto simp: climbed_def split: sum.splits)
        qed
      next
        case key: (Some key)
        then show ?thesis using step ks anc Some by (auto simp: climbed_def keys_sound_def)
      qed
    qed
  qed
qed

lemma decrypt_down_sound:
  assumes "keys_sound T d" "list_all (genuine_link E T vid) links" "decrypt_down E vid key links d = Some (r, d')"
  shows "keys_sound T d' \<and> (\<forall>k. r = Inr k \<longrightarrow>
     (if links = [] then k = key else T (NodeUid_new vid (l_id (last links))) = Some k))"
  using assms
proof (induction links arbitrary: key d)
  case (Cons link links)
  show ?case
  proof (cases "de_decrypt_link E key link")
    case (Inl e)
    then show ?thesis using Cons.prems by auto
  next
    case (Inr p)
    obtain k name where p: "p = (k, name)" by fastforce
    have T: "T (NodeUid_new vid (l_id link)) = Some k"
      using Cons.prems(2) Inr p unfolding genuine_link_def by (auto simp: genuine_link_def)
    have "decrypt_down E vid k links (put_folder_key E (NodeUid_new vid (l_id link)) k d) = Some (r, d')"
      using Cons.prems(3) Inr p by simp
    from Cons.IH [OF keys_sound_put [OF Cons.prems(1) T] _ this] show ?thesis
      using Cons.prems(2) T by (auto split: if_splits)
  qed
qed auto

section \<open>Reaching a parent's key\<close>

text \<open>
  A server that knows a finite tree: \<open>lk\<close> gives each of its links, \<open>K\<close> each node's key,
  \<open>R\<close> the share key of a root; heights fall towards the root.
\<close>

record 'k link_tree =
  lt_nodes :: "link_id set"
  lt_link :: "link_id \<Rightarrow> link_dto"
  lt_key :: "link_id \<Rightarrow> 'k"
  lt_share_key :: 'k
  lt_height :: "link_id \<Rightarrow> nat"

definition serves_tree ::
  "('k, 's, 'w) drive_env \<Rightarrow> volume_id \<Rightarrow> 'k link_tree \<Rightarrow> bool" where
  "serves_tree E vid t \<longleftrightarrow>
     (\<forall>i\<in>lt_nodes t. l_id (lt_link t i) = i \<and>
        (case l_parent_id (lt_link t i) of
           None \<Rightarrow> \<exists>n. de_decrypt_link E (lt_share_key t) (lt_link t i) = Inr (lt_key t i, n)
         | Some p \<Rightarrow> p \<in> lt_nodes t \<and> lt_height t p < lt_height t i \<and>
             (\<exists>n. de_decrypt_link E (lt_key t p) (lt_link t i) = Inr (lt_key t i, n)))) \<and>
     (\<forall>ids w. set ids \<subseteq> lt_nodes t \<longrightarrow>
        (\<exists>details w'. de_post_links E (links_path vid False) ids w = Some (Inr details, w') \<and>
           (\<forall>i\<in>set ids. links_by_id details i = Some (lt_link t i))))"

text \<open>With these in-memory caches, the share key of the tree's root is found.\<close>

definition finds_share_key :: "('k, 's, 'w) drive_env \<Rightarrow> volume_id \<Rightarrow> 'k link_tree \<Rightarrow> 'k drive_cache \<Rightarrow> bool" where
  "finds_share_key E vid t c \<longleftrightarrow>
     (\<forall>i\<in>lt_nodes t. l_parent_id (lt_link t i) = None \<longrightarrow>
        (\<forall>d. drive_cache_of d = c \<longrightarrow> (\<exists>d'. root_link_share_key E vid i d = Some (Inr (lt_share_key t), d'))))"

lemma finds_share_key_bootstrapped:
  assumes "dc_my_files_share c = Some sk" "sk_key sk = lt_share_key t" "dc_my_files_root c = Some r"
    and "\<And>i. i \<in> lt_nodes t \<Longrightarrow> l_parent_id (lt_link t i) = None \<Longrightarrow> i = uid_link r"
  shows "finds_share_key E vid t c"
  using assms unfolding finds_share_key_def
  by (auto simp: root_link_share_key_def root_share_key_def ensure_my_files_def op_then_def op_bind_def op_get_def)

text \<open>
  \<open>P\<close> describes stores that tell the truth about the parents they know; reading an entity
  keeps it.
\<close>

definition truthful_entities ::
  "('k, 's, 'w) drive_env \<Rightarrow> volume_id \<Rightarrow> 'k link_tree \<Rightarrow> ('s \<Rightarrow> bool) \<Rightarrow> bool" where
  "truthful_entities E vid t P \<longleftrightarrow>
     (\<forall>i\<in>lt_nodes t. \<forall>s r s'. P s \<longrightarrow> try_get_node (de_repo E) (de_js E) (NodeUid_new vid i) s = (r, s') \<longrightarrow>
        P s' \<and> (\<forall>ci. r = Inr (Some ci) \<longrightarrow>
          n_parent_uid (cni_node ci) = map_option (NodeUid_new vid) (l_parent_id (lt_link t i))))"

definition entities_of :: "('k, 's, 'w) drive \<Rightarrow> 's" where
  "entities_of d = cc_entities (dv_caches d)"

text \<open>A run of ancestors, each the parent of the one before it.\<close>

fun parent_chain :: "'k link_tree \<Rightarrow> link_id list \<Rightarrow> bool" where
  "parent_chain t [] = True"
| "parent_chain t [i] = (i \<in> lt_nodes t)"
| "parent_chain t (i # j # is) = (i \<in> lt_nodes t \<and> l_parent_id (lt_link t i) = Some j \<and> parent_chain t (j # is))"

lemma parent_chain_append:
  "parent_chain t (is @ [i]) \<Longrightarrow> l_parent_id (lt_link t i) = Some j \<Longrightarrow> j \<in> lt_nodes t \<Longrightarrow> parent_chain t (is @ [i, j])"
  by (induction t "is" rule: parent_chain.induct) auto

lemma parent_chain_nodes: "parent_chain t is \<Longrightarrow> set is \<subseteq> lt_nodes t"
  by (induction t "is" rule: parent_chain.induct) auto

lemma parent_chain_heights:
  assumes "serves_tree E vid t"
  shows "parent_chain t (i # is) \<Longrightarrow> j \<in> set is \<Longrightarrow> lt_height t j < lt_height t i"
proof (induction "is" arbitrary: i)
  case (Cons k ks)
  then have h: "lt_height t k < lt_height t i" using assms unfolding serves_tree_def by force
  show ?case
  proof (cases "j = k")
    case False
    then have "lt_height t j < lt_height t k" using Cons.IH [of k] Cons.prems by simp
    then show ?thesis using h by simp
  qed (simp add: h)
qed simp

lemma parent_chain_distinct:
  assumes "serves_tree E vid t"
  shows "parent_chain t is \<Longrightarrow> distinct is"
proof (induction "is")
  case (Cons i "is")
  then have "parent_chain t is" by (cases "is") auto
  then show ?case using Cons.IH parent_chain_heights [OF assms Cons.prems, of i] by auto
qed simp

lemma ancestor_run_chain:
  assumes tree: "serves_tree E vid t" and ents: "truthful_entities E vid t P"
    and "parent_chain t (is @ [cur])" "P (entities_of d)"
  shows "\<exists>run d'. ancestor_run E vid n cur (is @ [cur]) d = Some (Inr run, d') \<and> parent_chain t run \<and>
     (\<exists>rest. run = is @ cur # rest) \<and> drive_cache_of d' = drive_cache_of d \<and> P (entities_of d')"
  using assms(3,4)
proof (induction n arbitrary: cur "is" d)
  case (Suc n)
  obtain q d1 where q: "on_entities (try_get_node (de_repo E) (de_js E) (NodeUid_new vid cur)) d = Some (q, d1)"
    and fk: "drive_cache_of d1 = drive_cache_of d"
    using on_entities_total [of "try_get_node (de_repo E) (de_js E) (NodeUid_new vid cur)" d] by blast
  have cur: "cur \<in> lt_nodes t" using parent_chain_nodes [OF Suc.prems(1)] by simp
  obtain s where s: "try_get_node (de_repo E) (de_js E) (NodeUid_new vid cur) (entities_of d) = (q, s)" "entities_of d1 = s"
    using q by (auto simp: on_entities_def entities_of_def split: prod.splits)
  have P1: "P (entities_of d1)" and truth: "\<And>ci. q = Inr (Some ci) \<Longrightarrow>
      n_parent_uid (cni_node ci) = map_option (NodeUid_new vid) (l_parent_id (lt_link t cur))"
    using ents cur Suc.prems(2) s unfolding truthful_entities_def by blast+
  have stop: ?case if "ancestor_run E vid (Suc n) cur (is @ [cur]) d = Some (Inr (is @ [cur]), d1)"
    using that Suc.prems fk P1 by auto
  show ?case
  proof (cases "\<exists>ci parent. q = Inr (Some ci) \<and> n_parent_uid (cni_node ci) = Some parent \<and> folder_key parent d1 = None")
    case True
    then obtain ci parent where c: "q = Inr (Some ci)" "n_parent_uid (cni_node ci) = Some parent" "folder_key parent d1 = None"
      by blast
    have "Some parent = map_option (NodeUid_new vid) (l_parent_id (lt_link t cur))" using truth [OF c(1)] c(2) by simp
    then obtain p where p: "l_parent_id (lt_link t cur) = Some p" "parent = NodeUid_new vid p"
      by (cases "l_parent_id (lt_link t cur)") auto
    have "p \<in> lt_nodes t" using tree cur p(1) unfolding serves_tree_def by force
    then have chain: "parent_chain t ((is @ [cur]) @ [p])" using parent_chain_append [OF Suc.prems(1) p(1)] by simp
    have run: "ancestor_run E vid (Suc n) cur (is @ [cur]) d = ancestor_run E vid n p ((is @ [cur]) @ [p]) d1"
      unfolding ancestor_run_Suc [OF q] using c p(2) by (simp add: NodeUid_new_def)
    from Suc.IH [OF chain P1] show ?thesis unfolding run using fk by auto
  next
    case False
    then have "ancestor_run E vid (Suc n) cur (is @ [cur]) d = Some (Inr (is @ [cur]), d1)"
      unfolding ancestor_run_Suc [OF q] by (auto split: sum.splits option.splits)
    then show ?thesis by (rule stop)
  qed
qed auto

lemma take_run_chain:
  assumes "distinct is" "\<And>i. i \<in> set is \<Longrightarrow> m i = Some (lt_link t i)"
  shows "take_run vid is m cur anc =
     Inr (if is = [] then cur else l_parent_id (lt_link t (last is)), anc @ map (lt_link t) is)"
  using assms
proof (induction "is" arbitrary: m cur anc)
  case (Cons i "is")
  have "take_run vid is (m(i := None)) (l_parent_id (lt_link t i)) (anc @ [lt_link t i]) =
     Inr (if is = [] then l_parent_id (lt_link t i) else l_parent_id (lt_link t (last is)),
          (anc @ [lt_link t i]) @ map (lt_link t) is)"
    using Cons.prems by (intro Cons.IH) auto
  then show ?case using Cons.prems(2) [of i] by simp
qed simp

lemma parent_chain_join:
  "parent_chain t xs \<Longrightarrow> xs \<noteq> [] \<Longrightarrow> l_parent_id (lt_link t (last xs)) = Some y \<Longrightarrow> parent_chain t (y # ys) \<Longrightarrow>
   parent_chain t (xs @ y # ys)"
  by (induction t xs rule: parent_chain.induct) auto

text \<open>The key a chain's top is opened with.\<close>

definition opens_top :: "'k link_tree \<Rightarrow> link_id list \<Rightarrow> 'k \<Rightarrow> bool" where
  "opens_top t chain k \<longleftrightarrow>
     (case l_parent_id (lt_link t (last chain)) of None \<Rightarrow> k = lt_share_key t | Some q \<Rightarrow> k = lt_key t q)"

definition tree_keys :: "'k link_tree \<Rightarrow> volume_id \<Rightarrow> ('k, 's, 'w) drive \<Rightarrow> bool" where
  "tree_keys t vid d \<longleftrightarrow> (\<forall>i\<in>lt_nodes t. \<forall>k. folder_key (NodeUid_new vid i) d = Some k \<longrightarrow> k = lt_key t i)"

lemma climb_returns:
  assumes tree: "serves_tree E vid t" and ents: "truthful_entities E vid t P"
    and "p \<in> lt_nodes t" "tree_keys t vid d" "P (entities_of d)"
  shows "\<exists>base chain d'. climb E vid False (Some p) anc d = Some (Inr (base, anc @ map (lt_link t) chain), d') \<and>
     (chain = [] \<longrightarrow> base = Some (lt_key t p)) \<and>
     (chain \<noteq> [] \<longrightarrow> hd chain = p \<and> parent_chain t chain \<and>
        (case base of Some k \<Rightarrow> opens_top t chain k | None \<Rightarrow> l_parent_id (lt_link t (last chain)) = None)) \<and>
     drive_cache_of d' = drive_cache_of d"
  using assms(3-5)
proof (induction "lt_height t p" arbitrary: p anc d rule: less_induct)
  case less
  show ?case
  proof (cases "folder_key (NodeUid_new vid p) d")
    case (Some k)
    then have "k = lt_key t p" using less.prems unfolding tree_keys_def by blast
    then show ?thesis using Some by (intro exI [of _ "Some k"] exI [of _ "[]"] exI [of _ d]) (simp add: climb_unfold)
  next
    case None
    obtain run d1 where run: "ancestor_run E vid (MAX_BATCH_COUNT - 1) p [p] d = Some (Inr run, d1)"
      and chain: "parent_chain t run" and start: "\<exists>rest. run = p # rest"
      and fk: "drive_cache_of d1 = drive_cache_of d" and P1: "P (entities_of d1)"
      using ancestor_run_chain [OF tree ents, of "[]" p d "MAX_BATCH_COUNT - 1"] less.prems(1,3) by auto
    have ne: "run \<noteq> []" using start by auto
    obtain details w where det: "de_post_links E (links_path vid False) run (dv_world d1) = Some (Inr details, w)"
      "\<forall>i\<in>set run. links_by_id details i = Some (lt_link t i)"
      using tree parent_chain_nodes [OF chain] unfolding serves_tree_def by blast
    let ?cur = "l_parent_id (lt_link t (last run))" and ?d2 = "d1\<lparr>dv_world := w\<rparr>"
    have dc2: "drive_cache_of ?d2 = drive_cache_of d" using fk by (simp add: drive_cache_of_def)
    have tk: "take_run vid run (links_by_id details) None anc = Inr (?cur, anc @ map (lt_link t) run)"
      using take_run_chain [OF parent_chain_distinct [OF tree chain], of "links_by_id details" t vid None anc] det(2) ne
      by simp
    have "climb_round E vid False p anc d = Some (Inr (?cur, anc @ map (lt_link t) run), ?d2)"
      using run det(1) tk
      by (simp add: climb_round_def cached_ancestor_run_def get_link_details_ctx_def op_bind_def on_world_def)
    then have step: "climb E vid False (Some p) anc d = climb E vid False ?cur (anc @ map (lt_link t) run) ?d2"
      using None by (subst climb_unfold) (simp add: op_bind_def)
    show ?thesis
    proof (cases ?cur)
      case None
      then have "climb E vid False (Some p) anc d = Some (Inr (None, anc @ map (lt_link t) run), ?d2)"
        using step by (simp add: climb_unfold)
      then show ?thesis using None chain start ne dc2 by (intro exI [of _ None] exI [of _ run] exI [of _ ?d2]) auto
    next
      case (Some q)
      have last: "last run \<in> lt_nodes t" using parent_chain_nodes [OF chain] ne by auto
      then have q: "q \<in> lt_nodes t" "lt_height t q < lt_height t (last run)"
        using tree Some unfolding serves_tree_def by force+
      have "lt_height t (last run) \<le> lt_height t p"
      proof (cases "last run = p")
        case False
        obtain rest where r: "run = p # rest" using start by blast
        then have "last run \<in> set rest" using False by (auto split: if_splits)
        then show ?thesis using parent_chain_heights [OF tree] chain r by (simp add: less_imp_le)
      qed simp
      then have h: "lt_height t q < lt_height t p" using q(2) by simp
      have tk2: "tree_keys t vid ?d2" using less.prems(2) dc2 unfolding tree_keys_def folder_key_def by simp
      have P2: "P (entities_of ?d2)" using P1 by (simp add: entities_of_def)
      from less.hyps [OF h q(1) tk2 P2, of "anc @ map (lt_link t) run"] obtain base ch d' where
        c: "climb E vid False (Some q) (anc @ map (lt_link t) run) ?d2 =
            Some (Inr (base, (anc @ map (lt_link t) run) @ map (lt_link t) ch), d')"
        and e: "ch = [] \<longrightarrow> base = Some (lt_key t q)"
        and ch: "ch \<noteq> [] \<longrightarrow> hd ch = q \<and> parent_chain t ch \<and>
          (case base of Some k \<Rightarrow> opens_top t ch k | None \<Rightarrow> l_parent_id (lt_link t (last ch)) = None)"
        and dc: "drive_cache_of d' = drive_cache_of ?d2" by blast
      have all: "climb E vid False (Some p) anc d = Some (Inr (base, anc @ map (lt_link t) (run @ ch)), d')"
        using step Some c by simp
      have "hd (run @ ch) = p \<and> parent_chain t (run @ ch) \<and>
          (case base of Some k \<Rightarrow> opens_top t (run @ ch) k | None \<Rightarrow> l_parent_id (lt_link t (last (run @ ch))) = None)"
      proof (cases ch)
        case Nil
        then show ?thesis using e start chain Some by (auto simp: opens_top_def)
      next
        case (Cons y ys)
        then have "y = q" "parent_chain t (y # ys)" using ch by auto
        then have "parent_chain t (run @ ch)" using parent_chain_join [OF chain ne Some, of ys] Cons by simp
        moreover have last: "last (run @ ch) = last ch" and "hd (run @ ch) = p" using Cons start by auto
        moreover have "case base of Some k \<Rightarrow> opens_top t (run @ ch) k
            | None \<Rightarrow> l_parent_id (lt_link t (last (run @ ch))) = None"
          unfolding opens_top_def last using ch Cons unfolding opens_top_def by blast
        ultimately show ?thesis by blast
      qed
      then show ?thesis using all ne dc [unfolded dc2] by blast
    qed
  qed
qed

text \<open>
  Links whose parents never end: each of \<open>C\<close> has its parent in \<open>C\<close>, and the stores in
  \<open>P\<close> know none of them.
\<close>

definition parents_loop ::
  "('k, 's, 'w) drive_env \<Rightarrow> volume_id \<Rightarrow> bool \<Rightarrow> link_id set \<Rightarrow> ('s \<Rightarrow> bool) \<Rightarrow> bool" where
  "parents_loop E vid for_photos C P \<longleftrightarrow>
     (\<forall>i\<in>C. \<forall>w. \<exists>details w' link p. de_post_links E (links_path vid for_photos) [i] w = Some (Inr details, w') \<and>
        links_by_id details i = Some link \<and> l_parent_id link = Some p \<and> p \<in> C) \<and>
     (\<forall>i\<in>C. \<forall>s. P s \<longrightarrow>
        (\<exists>s'. try_get_node (de_repo E) (de_js E) (NodeUid_new vid i) s = (Inr None, s') \<and> P s'))"

definition unknown_to :: "volume_id \<Rightarrow> link_id set \<Rightarrow> ('s \<Rightarrow> bool) \<Rightarrow> ('k, 's, 'w) drive \<Rightarrow> bool" where
  "unknown_to vid C P d \<longleftrightarrow> P (entities_of d) \<and> (\<forall>i\<in>C. folder_key (NodeUid_new vid i) d = None)"

lemma climb_round_loops:
  assumes "parents_loop E vid for_photos C P" "p \<in> C" "unknown_to vid C P d"
  shows "\<exists>q anc' d'. climb_round E vid for_photos p anc d = Some (Inr (Some q, anc'), d') \<and> q \<in> C \<and> unknown_to vid C P d'"
proof -
  obtain s' where s': "try_get_node (de_repo E) (de_js E) (NodeUid_new vid p) (entities_of d) = (Inr None, s')" "P s'"
    using assms unfolding parents_loop_def unknown_to_def by blast
  let ?d1 = "d\<lparr>dv_caches := (dv_caches d)\<lparr>cc_entities := s'\<rparr>\<rparr>"
  have miss: "on_entities (try_get_node (de_repo E) (de_js E) (NodeUid_new vid p)) d = Some (Inr None, ?d1)"
    using s'(1) by (simp add: on_entities_def entities_of_def)
  have batch: "MAX_BATCH_COUNT - 1 = Suc 148" by (simp add: MAX_BATCH_COUNT_def)
  have run: "cached_ancestor_run E vid p d = Some (Inr [p], ?d1)"
    unfolding cached_ancestor_run_def batch ancestor_run_Suc [OF miss] by simp
  obtain details w' link q where post: "de_post_links E (links_path vid for_photos) [p] (dv_world ?d1) = Some (Inr details, w')"
    and link: "links_by_id details p = Some link" "l_parent_id link = Some q" "q \<in> C"
    using assms(1,2) unfolding parents_loop_def by blast
  have "climb_round E vid for_photos p anc d = Some (Inr (Some q, anc @ [link]), ?d1\<lparr>dv_world := w'\<rparr>)"
    using run post link by (simp add: climb_round_def op_bind_def get_link_details_ctx_def on_world_def)
  moreover have "unknown_to vid C P (?d1\<lparr>dv_world := w'\<rparr>)"
    using assms(3) s'(2) by (auto simp: unknown_to_def entities_of_def)
  ultimately show ?thesis using link(3) by blast
qed

lemma climb_loops:
  assumes "parents_loop E vid for_photos C P"
  shows "\<forall>anc d p. p \<in> C \<longrightarrow> unknown_to vid C P d \<longrightarrow> climb E vid for_photos (Some p) anc d \<noteq> Some rd"
proof (intro allI impI notI)
  fix anc d p
  assume start: "p \<in> C" "unknown_to vid C P d" and run: "climb E vid for_photos (Some p) anc d = Some rd"
  let ?P = "\<lambda>E' vid' fp cur anc d (rd :: ('a option \<times> link_dto list) result \<times> ('a, 'b, 'c) drive).
      E' = E \<longrightarrow> vid' = vid \<longrightarrow> fp = for_photos \<longrightarrow> (\<exists>p\<in>C. cur = Some p) \<longrightarrow> unknown_to vid C P d \<longrightarrow> False"
  have "?P E vid for_photos (Some p) anc d rd"
  proof (rule climb.raw_induct [where P = ?P, OF _ run])
    fix climb' E' vid' fp cur anc d rd
    assume IH: "\<And>E' vid' fp cur anc d rd. climb' E' vid' fp cur anc d = Some rd \<Longrightarrow> ?P E' vid' fp cur anc d rd"
      and step: "(case cur of None \<Rightarrow> Some (Inr (None, anc), d)
      | Some p \<Rightarrow> (case folder_key (NodeUid_new vid' p) d of
             None \<Rightarrow>
               op_bind (op_bind (cached_ancestor_run E' vid' p) (\<lambda>run.
                        op_bind (get_link_details_ctx E' vid' run fp) (\<lambda>details.
                          op_of (take_run vid' run (links_by_id details) None anc))))
                 (\<lambda>st. climb' E' vid' fp (fst st) (snd st)) d
           | Some key \<Rightarrow> Some (Inr (Some key, anc), d))) = Some rd"
    show "?P E' vid' fp cur anc d rd"
    proof (intro impI)
      assume eqs: "E' = E" "vid' = vid" "fp = for_photos" and cur: "\<exists>p\<in>C. cur = Some p" and un: "unknown_to vid C P d"
      then obtain p where p: "p \<in> C" "cur = Some p" by blast
      obtain q anc' d' where r: "climb_round E vid for_photos p anc d = Some (Inr (Some q, anc'), d')" "q \<in> C" "unknown_to vid C P d'"
        using climb_round_loops [OF assms p(1) un] by blast
      have "folder_key (NodeUid_new vid p) d = None" using un p(1) unfolding unknown_to_def by blast
      then have "op_bind (climb_round E vid for_photos p anc) (\<lambda>st. climb' E vid for_photos (fst st) (snd st)) d = Some rd"
        using step p(2) eqs by (simp add: climb_round_def)
      then have "climb' E vid for_photos (Some q) anc' d' = Some rd" using r(1) by (simp add: op_bind_eval(3))
      from IH [OF this] show False using r by blast
    qed
  qed
  then show False using start by blast
qed

lemma decrypt_down_append:
  "decrypt_down E vid key (xs @ ys) = op_bind (decrypt_down E vid key xs) (\<lambda>k. decrypt_down E vid k ys)"
  by (induction xs arbitrary: key)
     (auto simp: op_bind_assoc op_then_def case_prod_beta intro!: arg_cong2 [of _ _ _ _ op_bind])

lemma decrypt_down_chain:
  assumes tree: "serves_tree E vid t" and "parent_chain t chain" "chain \<noteq> []" "opens_top t chain key"
  shows "\<exists>d'. decrypt_down E vid key (rev (map (lt_link t) chain)) d = Some (Inr (lt_key t (hd chain)), d')"
  using assms(2-4)
proof (induction chain arbitrary: d)
  case (Cons i "is")
  have node: "i \<in> lt_nodes t" using parent_chain_nodes [OF Cons.prems(1)] by simp
  obtain k d1 where down: "decrypt_down E vid key (rev (map (lt_link t) is)) d = Some (Inr k, d1)"
    and opens: "\<exists>n. de_decrypt_link E k (lt_link t i) = Inr (lt_key t i, n)"
  proof (cases "is")
    case Nil
    have "\<exists>n. de_decrypt_link E key (lt_link t i) = Inr (lt_key t i, n)"
      using tree node Cons.prems(3) Nil unfolding serves_tree_def opens_top_def by (auto split: option.splits)
    then show ?thesis using that Nil by simp
  next
    case c: (Cons j js)
    then have par: "l_parent_id (lt_link t i) = Some j" and ch: "parent_chain t is" using Cons.prems(1) by auto
    have "opens_top t is key" using Cons.prems(3) c by (simp add: opens_top_def)
    from Cons.IH [OF ch _ this] c obtain d1 where
      "decrypt_down E vid key (rev (map (lt_link t) is)) d = Some (Inr (lt_key t j), d1)" by auto
    moreover have "\<exists>n. de_decrypt_link E (lt_key t j) (lt_link t i) = Inr (lt_key t i, n)"
      using tree node par unfolding serves_tree_def by force
    ultimately show ?thesis using that by blast
  qed
  then show ?case by (auto simp: decrypt_down_append op_bind_def op_then_def)
qed simp

section \<open>Properties\<close>

text \<open>C17: The key cache and the parent-key walk never mix up nodes.  With a server whose links
  open only to their own nodes' keys, a sound key cache stays sound through every walk,
  whether it succeeds or fails and however stale the entity cache is, and a key resolved for a
  link with a parent is that parent's own key.\<close>

theorem resolved_key_is_parents:
  assumes "genuine_server E T" "keys_sound T d" "resolve_parent_key_ctx E vid link for_photos d = Some (r, d')"
  shows "keys_sound T d' \<and>
     (\<forall>p k. l_parent_id link = Some p \<longrightarrow> r = Inr k \<longrightarrow> T (NodeUid_new vid p) = Some k)"
proof (cases "Option.bind (l_parent_id link) (\<lambda>p. folder_key (NodeUid_new vid p) d)")
  case (Some key)
  then show ?thesis using assms(2,3)
    by (auto simp: resolve_parent_key_ctx_def keys_sound_def split: Option.bind_splits)
next
  case None
  then obtain q where walk: "resolve_parent_key_walk E vid link for_photos d = Some (q, d')"
    "r = map_err (rebuild_error (de_display E)) q"
    using assms(3) by (auto simp: resolve_parent_key_ctx_def op_map_err_def)
  obtain c d1 where climb: "climb E vid for_photos (l_parent_id link) [] d = Some (c, d1)"
    using walk(1) by (cases "climb E vid for_photos (l_parent_id link) [] d")
      (auto simp: resolve_parent_key_walk_def op_bind_def)
  have ok: "keys_sound T d1 \<and>
      (case c of Inl _ \<Rightarrow> True | Inr (base, anc') \<Rightarrow> climbed T E vid (l_parent_id link) [] base anc')"
    using climb_is_ok [OF climb, of T] assms(1,2) by (simp add: climb_ok_def)
  show ?thesis
  proof (cases c)
    case (Inl e)
    then show ?thesis using walk climb ok by (auto simp: resolve_parent_key_walk_def op_bind_def)
  next
    case (Inr p)
    obtain base anc where p: "p = (base, anc)" by fastforce
    let ?start = "case base of Some key \<Rightarrow> op_return key
        | None \<Rightarrow> if for_photos then photos_share_key E
                 else root_link_share_key E vid (if anc = [] then l_id link else l_id (last anc))"
    have run: "op_bind ?start (\<lambda>key. decrypt_down E vid key (rev anc)) d1 = Some (q, d')"
      using walk(1) climb Inr p by (simp add: resolve_parent_key_walk_def op_bind_def)
    have keep: "op_keeps (keys_sound T) ?start"
      by (intro keeps keeps_ensure_photos(2) keeps_share_calls(5)) (rule assms(1))+
    obtain s d2 where s: "?start d1 = Some (s, d2)" using run by (cases "?start d1") (auto simp: op_bind_def)
    have ks2: "keys_sound T d2" using op_keepsD [OF keep _ s] ok by blast
    have cl: "climbed T E vid (l_parent_id link) [] base anc" using ok Inr p by simp
    show ?thesis
    proof (cases s)
      case (Inl e)
      then show ?thesis using run s ks2 walk(2) by (auto simp: op_bind_def)
    next
      case (Inr key)
      have "decrypt_down E vid key (rev anc) d2 = Some (q, d')" using run s Inr by (simp add: op_bind_def)
      from decrypt_down_sound [OF ks2 _ this] cl have fin: "keys_sound T d' \<and> (\<forall>k. q = Inr k \<longrightarrow>
          (if anc = [] then k = key else T (NodeUid_new vid (l_id (hd anc))) = Some k))"
        by (cases anc) (simp_all add: climbed_def)
      have "T (NodeUid_new vid p') = Some k" if "l_parent_id link = Some p'" "q = Inr k" for p' k
        using fin cl that s Inr by (cases anc) (auto simp: climbed_def)
      then show ?thesis using fin walk(2) by auto
    qed
  qed
qed


text \<open>C19: The key walk has no guard against parents that form a cycle: when the server serves
  links each of whose parents is again among them, and neither cache knows any of them, a key
  below them is never resolved; the walk requests links forever.\<close>

theorem parent_cycle_never_returns:
  assumes "parents_loop E vid for_photos C P" "unknown_to vid C P d" "l_parent_id link = Some p" "p \<in> C"
  shows "resolve_parent_key_ctx E vid link for_photos d = None"
proof -
  have "climb E vid for_photos (Some p) [] d = None"
    using climb_loops [OF assms(1)] assms(2,4) by (metis option.exhaust)
  moreover have "folder_key (NodeUid_new vid p) d = None" using assms(2,4) unfolding unknown_to_def by blast
  ultimately show ?thesis using assms(3)
    by (simp add: resolve_parent_key_ctx_def resolve_parent_key_walk_def op_bind_def op_map_err_def)
qed

section \<open>Examples\<close>

text \<open>
  A server where every link is a folder below the root \<open>r\<close>, and a link's key opens as the
  link's own identifier; the entity cache knows the parent of \<open>p\<close>.
\<close>

definition tree_link :: "link_id \<Rightarrow> link_dto" where
  "tree_link i = example_link\<lparr>l_id := i, l_key := link_id_str i,
     l_parent_id := (if i = LinkId ''r'' then None else Some (LinkId ''r'')),
     l_passphrase := (if i = LinkId ''r'' then ''s'' else ''r'')\<rparr>"

definition tree_details :: "link_id \<Rightarrow> link_details_dto" where
  "tree_details i = \<lparr>ld_link = tree_link i, ld_folder = None, ld_file = None, ld_photo = None, ld_album = None,
     ld_sharing = None, ld_membership = None\<rparr>"

definition tree_parent_info :: cached_node_info where
  "tree_parent_info = (info uid_a)\<lparr>cni_node := (example_node (NodeUid_new (VolumeId ''v'') (LinkId ''p'')))
     \<lparr>n_parent_uid := Some (NodeUid_new (VolumeId ''v'') (LinkId ''r''))\<rparr>\<rparr>"

definition one_entity_repo :: "unit cache_repo" where
  "one_entity_repo =
     \<lparr>rep_set = (\<lambda>_ _ _ s. (Inr (), s)),
      rep_get = (\<lambda>key s. (Inr (if key = node_key (NodeUid_new (VolumeId ''v'') (LinkId ''p'')) then Some ''p'' else None), s)),
      rep_remove = (\<lambda>_ s. (Inr (), s)), rep_remove_by_tag = (\<lambda>_ s. (Inr (), s)), rep_clear = (\<lambda>s. (Inr (), s)),
      rep_get_by_tags = (\<lambda>_ s. (Inr [], s))\<rparr>"

definition drive_on :: "'s cache_repo \<Rightarrow> cached_node_info json_codec \<Rightarrow> (string, 's, 'w) drive_env" where
  "drive_on repo js =
     \<lparr>de_address = (\<lambda>_. op_fail KeysLocked), de_default_address = op_fail KeysLocked,
      de_address_private_keys = (\<lambda>_. op_fail KeysLocked), de_decrypt_share_key = (\<lambda>_. op_fail KeysLocked),
      de_decrypt_link = (\<lambda>k link. if l_passphrase link = k then Inr (l_key link, l_name link) else Inl KeysLocked),
      de_decrypt_message = (\<lambda>_ _. Inl KeysLocked), de_volume_material = (\<lambda>_ _. op_fail KeysLocked),
      de_repo = repo, de_js = js,
      de_display = (\<lambda>_. []), de_victim = (\<lambda>_ _. None), de_get_root_share = (\<lambda>_. op_fail KeysLocked),
      de_get_volumes = (\<lambda>_. op_fail KeysLocked), de_post_volume = (\<lambda>_ _. op_fail KeysLocked),
      de_get_devices = (\<lambda>_. op_fail KeysLocked), de_get_share = (\<lambda>_. op_fail KeysLocked),
      de_get_shared_with_me = (\<lambda>_. op_fail KeysLocked), de_post_links = (\<lambda>_ ids. op_return (map tree_details ids)),
      de_get_context = (\<lambda>_. op_fail KeysLocked)\<rparr>"

definition example_drive :: "(string, unit, unit) drive_env" where
  "example_drive =
     drive_on one_entity_repo \<lparr>js_to_string = (\<lambda>_. Inr ''p''), js_from_str = (\<lambda>_. Some tree_parent_info)\<rparr>"

definition drive_state_on :: "'s \<Rightarrow> (string, 's, unit) drive" where
  "drive_state_on s =
     \<lparr>dv_world = (), dv_caches = \<lparr>cc_drive = DriveCache_default\<lparr>
        dc_main_volume_id := Some (VolumeId ''v''),
        dc_my_files_share := Some \<lparr>sk_share_id = ShareId ''x'', sk_address_id = AddressId ''a'', sk_key = ''s''\<rparr>,
        dc_my_files_root := Some (NodeUid_new (VolumeId ''v'') (LinkId ''r''))\<rparr>, cc_entities = s\<rparr>\<rparr>"

definition example_drive_state :: "(string, unit, unit) drive" where
  "example_drive_state = drive_state_on ()"

definition example_tree :: "string link_tree" where
  "example_tree = \<lparr>lt_nodes = {LinkId ''r'', LinkId ''p''}, lt_link = tree_link, lt_key = link_id_str, lt_share_key = ''s'',
     lt_height = (\<lambda>i. if i = LinkId ''r'' then 0 else 1)\<rparr>"

lemma links_by_id_map:
  assumes "\<And>i. l_id (ld_link (f i)) = i" "i \<in> set is"
  shows "links_by_id (map f is) i = Some (ld_link (f i))"
proof -
  have "links_by_id (map f is) i \<noteq> None"
    using assms by (auto simp: links_by_id_def map_of_eq_None_iff image_iff)
  then obtain l where l: "links_by_id (map f is) i = Some l" by blast
  then show ?thesis using links_by_id_spec [OF l] assms(1) by auto
qed

lemmas example_tree_defs =
  example_tree_def tree_link_def tree_details_def example_link_def example_drive_def drive_on_def

lemma example_tree_served: "serves_tree example_drive (VolumeId ''v'') example_tree"
proof -
  have "links_by_id (map tree_details ids) i = Some (tree_link i)" if "i \<in> set ids" for ids i
    using links_by_id_map [of tree_details i ids] that by (simp add: tree_details_def tree_link_def)
  then show ?thesis by (auto simp: serves_tree_def example_tree_defs op_return_def)
qed

lemma example_tree_genuine:
  "genuine_server example_drive (\<lambda>uid. Some (link_id_str (uid_link uid)))"
  by (auto simp: genuine_server_def genuine_link_def example_tree_defs op_return_def op_fail_def NodeUid_new_def
      list_all_iff split: if_splits)

lemma example_entities_truthful: "truthful_entities example_drive (VolumeId ''v'') example_tree (\<lambda>_. True)"
  by (auto simp: truthful_entities_def example_tree_defs try_get_node_def get_json_def one_entity_repo_def node_key_def
      tree_parent_info_def NodeUid_new_def NodeUid_display_def split: if_splits)


theorem resolved_key_is_parents_witness:
  "\<exists>k d'. resolve_parent_key_ctx example_drive (VolumeId ''v'') (tree_link (LinkId ''c'')) False example_drive_state
     = Some (Inr k, d') \<and> keys_sound (\<lambda>uid. Some (link_id_str (uid_link uid))) d' \<and> k = ''r''"
proof -
  let ?run = "resolve_parent_key_ctx example_drive (VolumeId ''v'') (tree_link (LinkId ''c'')) False example_drive_state"
  have "case ?run of Some (Inr _, _) \<Rightarrow> True | _ \<Rightarrow> False" by code_simp
  then obtain k d' where run: "?run = Some (Inr k, d')" by (auto split: option.splits sum.splits)
  have "keys_sound (\<lambda>uid. Some (link_id_str (uid_link uid))) example_drive_state"
    by (simp add: keys_sound_def folder_key_def drive_cache_of_def example_drive_state_def drive_state_on_def DriveCache_default_def)
  from resolved_key_is_parents [OF example_tree_genuine this run] run show ?thesis
    by (simp add: tree_link_def NodeUid_new_def)
qed

definition cycle_details :: "link_id \<Rightarrow> link_details_dto" where
  "cycle_details i = (tree_details i)\<lparr>ld_link := (tree_link i)
     \<lparr>l_parent_id := Some (if i = LinkId ''a'' then LinkId ''b'' else LinkId ''a'')\<rparr>\<rparr>"

theorem parent_cycle_never_returns_witness:
  "resolve_parent_key_ctx (example_drive\<lparr>de_post_links := (\<lambda>_ ids. op_return (map cycle_details ids))\<rparr>)
     (VolumeId ''v'') (tree_link (LinkId ''c'')\<lparr>l_parent_id := Some (LinkId ''a'')\<rparr>) False example_drive_state = None"
proof (rule parent_cycle_never_returns [where p = "LinkId ''a''"])
  show "parents_loop (example_drive\<lparr>de_post_links := (\<lambda>_ ids. op_return (map cycle_details ids))\<rparr>) (VolumeId ''v'') False
      {LinkId ''a'', LinkId ''b''} (\<lambda>_. True)"
    by (auto simp: parents_loop_def op_return_def links_by_id_def cycle_details_def tree_details_def tree_link_def
        example_drive_def drive_on_def try_get_node_def get_json_def one_entity_repo_def node_key_def NodeUid_new_def NodeUid_display_def)
  show "unknown_to (VolumeId ''v'') {LinkId ''a'', LinkId ''b''} (\<lambda>_. True) example_drive_state"
    by (simp add: unknown_to_def folder_key_def drive_cache_of_def example_drive_state_def drive_state_on_def DriveCache_default_def)
qed simp_all

end
