(* ===== verification/Node_Tree.thy ===== *)
theory Node_Tree
  imports Drive_Keys
begin

text \<open>
  Reading the tree (\<open>proton-drive-rs/src/client.rs\<close>): building a node from its link
  details, the read-through node lookup, batched enumeration, the paged listings, the
  hierarchy, paths and free names.  What a build uses of the crypto layer and of the account
  client is an interface (\<open>node_env\<close>), provided by \<open>account_nodes\<close>; the server's
  endpoints, the clock and the keyed hash are arguments.  The builds and fetches the code
  overlaps run here one after the other, in the order their results are taken.
\<close>

section \<open>Wire types and the interface\<close>

datatype node_detail = Full | Light

record folder_children_response =
  fcr_link_ids :: "link_id list"
  fcr_anchor_id :: "link_id option"
  fcr_more_results_exist :: bool

record share_trash_dto =
  std_share_id :: share_id
  std_link_ids :: "link_id list"

record node_name_availability_request =
  nna_name_hashes :: "string list"
  nna_client_uid :: "string list"

record folder_size =
  fs_size :: nat
  fs_descendants :: nat

record report_recently_accessed_item =
  rri_volume_id :: volume_id
  rri_link_id :: link_id
  rri_access_time :: int

record ('k, 'p, 's, 'w) node_env =
  ne_drive :: "('k, 's, 'w) drive_env"
  ne_link_verified :: "'k \<Rightarrow> link_dto \<Rightarrow> ('k \<times> string \<times> node_verification, 'w) op"
  ne_link_name_verified :: "'k \<Rightarrow> link_dto \<Rightarrow> (string \<times> node_verification, 'w) op"
  ne_content_key_verified ::
    "'k \<Rightarrow> string option \<Rightarrow> bytes \<Rightarrow> string option \<Rightarrow> (content_key \<times> verification_status, 'w) op"
  ne_xattr_verified ::
    "'k \<Rightarrow> string option \<Rightarrow> string \<Rightarrow> (decrypted_extended_attributes \<times> verification_status, 'w) op"
  ne_public_keys :: "string \<Rightarrow> 'w \<Rightarrow> 'p list \<times> 'w"
  ne_verify_context :: "string \<Rightarrow> bytes \<Rightarrow> 'p list \<Rightarrow> string \<Rightarrow> verification_status"
  ne_base64 :: "string \<Rightarrow> string + bytes"
  ne_hmac_hex :: "bytes \<Rightarrow> bytes \<Rightarrow> string"
  ne_session_id :: string
  ne_now :: "'w \<Rightarrow> int"
  ne_get_children :: "string \<Rightarrow> (folder_children_response, 'w) op"
  ne_get_trash :: "string \<Rightarrow> (share_trash_dto list, 'w) op"
  ne_get_folder_size :: "string \<Rightarrow> (folder_size, 'w) op"
  ne_post_recent :: "string \<Rightarrow> report_recently_accessed_item list \<Rightarrow> (unit, 'w) op"
  ne_check_hashes :: "string \<Rightarrow> node_name_availability_request \<Rightarrow> (string list, 'w) op"

section \<open>Building a node\<close>

definition resolved_my_files_share_id :: "('k, 's, 'w) drive \<Rightarrow> share_id option" where
  "resolved_my_files_share_id d = map_option sk_share_id (dc_my_files_share (drive_cache_of d))"

definition photos_share_id :: "('k, 's, 'w) drive \<Rightarrow> share_id option" where
  "photos_share_id d = map_option sk_share_id (dc_photos_share (drive_cache_of d))"

definition drive_main_volume_id :: "('k, 's, 'w) drive_env \<Rightarrow> (volume_id, ('k, 's, 'w) drive) op" where
  "drive_main_volume_id D =
     op_then (ensure_my_files D) (op_get (\<lambda>d. the (dc_main_volume_id (drive_cache_of d))))"

definition is_own_volume :: "('k, 's, 'w) drive_env \<Rightarrow> volume_id \<Rightarrow> (bool, ('k, 's, 'w) drive) op" where
  "is_own_volume D vid =
     op_bind (op_try (drive_main_volume_id D)) (\<lambda>main.
     if main = Inr vid then op_return True
     else
       op_bind (op_try (ensure_photos D)) (\<lambda>photos.
       if photos \<noteq> Inr True then op_return False
       else op_get (\<lambda>d. case dc_photos_root (drive_cache_of d) of
              Some r \<Rightarrow> uid_volume r = vid | None \<Rightarrow> False)))"

definition verified_membership ::
  "('k, 'p, 's, 'w) node_env \<Rightarrow> share_membership_summary_dto \<Rightarrow> (share_membership, ('k, 's, 'w) drive) op" where
  "verified_membership E dto =
     op_bind (case (sms_key_packet dto, sms_key_packet_signature dto) of
                (Some packet, Some signature) \<Rightarrow>
                  (case ne_base64 E packet of
                     Inl _ \<Rightarrow> op_return Failed
                   | Inr packet_bytes \<Rightarrow>
                       (case sms_inviter_email dto of
                          Some (c # cs) \<Rightarrow>
                            on_world (op_call (\<lambda>w. case ne_public_keys E (c # cs) w of
                              (keys, w') \<Rightarrow>
                                (Inr (ne_verify_context E signature packet_bytes keys SHARING_INVITER_CONTEXT), w')))
                        | _ \<Rightarrow> op_return (ne_verify_context E signature packet_bytes [] SHARING_INVITER_CONTEXT)))
              | _ \<Rightarrow> op_return NotSigned) (\<lambda>status.
       op_return ((share_membership_from_dto dto)\<lparr>sm_inviter_verification := Some status\<rparr>))"

definition album_of :: "volume_id \<Rightarrow> link_details_dto \<Rightarrow> album_properties option" where
  "album_of vid details =
     map_option (\<lambda>a. \<lparr>ap_photo_count = al_photo_count a,
       ap_cover_photo_uid = map_option (NodeUid_new vid) (al_cover_link_id a),
       ap_last_activity_time = (if al_last_activity_time a \<noteq> 0 then Some (al_last_activity_time a) else None)\<rparr>)
       (ld_album details)"

text \<open>The content key is checked at best: a failure leaves the status absent.\<close>

definition content_key_status ::
  "('k, 'p, 's, 'w) node_env \<Rightarrow> link_dto \<Rightarrow> file_dto \<Rightarrow> 'k option
     \<Rightarrow> (verification_status option, ('k, 's, 'w) drive) op" where
  "content_key_status E link file nkey =
     (case (nkey, fi_content_key_packet file) of
        (Some key, Some packet_b64) \<Rightarrow>
          (case ne_base64 E packet_b64 of
             Inl _ \<Rightarrow> op_return None
           | Inr packet \<Rightarrow>
               op_bind (op_try (on_world (ne_content_key_verified E key (l_signature_email link) packet
                                  (fi_content_key_signature file)))) (\<lambda>r.
                 case r of Inr (_, status) \<Rightarrow> op_return (Some status) | Inl _ \<Rightarrow> op_return None))
      | _ \<Rightarrow> op_return None)"

text \<open>What the extended attributes claim, if they can be read.\<close>

record claimed_metadata =
  cm_size :: "int option"
  cm_modification_time :: "string option"
  cm_sha1 :: "string option"
  cm_location :: "photo_location option"
  cm_status :: "verification_status option"

definition nothing_claimed :: claimed_metadata where
  "nothing_claimed = \<lparr>cm_size = None, cm_modification_time = None, cm_sha1 = None, cm_location = None, cm_status = None\<rparr>"

definition claimed_metadata_of ::
  "('k, 'p, 's, 'w) node_env \<Rightarrow> file_dto \<Rightarrow> 'k option \<Rightarrow> (claimed_metadata, ('k, 's, 'w) drive) op" where
  "claimed_metadata_of E file nkey =
     (case (nkey, fi_active_revision file) of
        (Some key, Some revn) \<Rightarrow>
          (case ar_extended_attributes revn of
             None \<Rightarrow> op_return nothing_claimed
           | Some xattr \<Rightarrow>
               op_bind (op_try (on_world (ne_xattr_verified E key (ar_signature_email revn) xattr))) (\<lambda>r.
                 case r of
                   Inl _ \<Rightarrow> op_return nothing_claimed
                 | Inr (attrs, status) \<Rightarrow>
                     op_return
                       \<lparr>cm_size = Option.bind (dx_common attrs) cx_size,
                        cm_modification_time = Option.bind (dx_common attrs) cx_modification_time,
                        cm_sha1 = Option.bind (dx_common attrs) cx_sha1,
                        cm_location = Option.bind (dx_location attrs)
                          (\<lambda>l. PhotoLocation_from_claimed (dxl_latitude l) (dxl_longitude l)),
                        cm_status = Some status\<rparr>))
      | _ \<Rightarrow> op_return nothing_claimed)"

definition photo_of :: "volume_id \<Rightarrow> link_details_dto \<Rightarrow> photo_location option \<Rightarrow> photo_properties option" where
  "photo_of vid details location =
     map_option (\<lambda>p. \<lparr>pp_capture_time = ph_capture_time p, pp_content_hash = ph_content_hash p,
       pp_main_photo_uid = map_option (NodeUid_new vid) (ph_main_photo_link_id p),
       pp_related_photo_uids = map (NodeUid_new vid) (ph_related_photo_link_ids p),
       pp_tags = List.map_filter PhotoTag_from_raw (ph_tags p),
       pp_album_uids = map (\<lambda>a. NodeUid_new vid (pai_album_link_id a)) (ph_album_inclusions p),
       pp_location = location\<rparr>) (ld_photo details)"

definition file_kind_of :: "file_dto \<Rightarrow> claimed_metadata \<Rightarrow> node_kind" where
  "file_kind_of file cm =
     KFile \<lparr>fk_media_type = fi_media_type file, fk_total_size_on_storage = fi_total_size_on_storage file,
       fk_active_revision_state = map_option (\<lambda>rev. RevisionState_from_raw (ar_state rev)) (fi_active_revision file),
       fk_active_revision_id = map_option ar_id (fi_active_revision file),
       fk_claimed_size = cm_size cm, fk_claimed_modification_time = cm_modification_time cm,
       fk_content_sha1 = cm_sha1 cm\<rparr>"

definition build_kind ::
  "('k, 'p, 's, 'w) node_env \<Rightarrow> volume_id \<Rightarrow> link_details_dto \<Rightarrow> 'k option \<Rightarrow> node_verification
     \<Rightarrow> (node_kind \<times> album_properties option \<times> photo_properties option \<times> node_verification, ('k, 's, 'w) drive) op" where
  "build_kind E vid details nkey verification =
     (let link = ld_link details; uid = NodeUid_new vid (l_id link);
          folder = op_bind (op_ok_or (InvalidOperation ''folder node built without its key'') nkey) (\<lambda>key.
                   op_then (op_modify (put_folder_key (ne_drive E) uid key))
                     (op_return (KFolder, album_of vid details, None, verification))) in
      case parsed_type link of
        LtFolder \<Rightarrow> folder
      | LtAlbum \<Rightarrow> folder
      | LtFile \<Rightarrow>
          op_bind (op_ok_or (InvalidOperation ''file node missing file properties'') (file_properties details)) (\<lambda>file.
          op_bind (content_key_status E link file nkey) (\<lambda>ck.
          op_bind (claimed_metadata_of E file nkey) (\<lambda>cm.
            op_return (file_kind_of file cm, None, photo_of vid details (cm_location cm),
              verification\<lparr>nv_content_key := (case ck of Some s \<Rightarrow> Some s | None \<Rightarrow> nv_content_key verification),
                           nv_extended_attributes :=
                             (case cm_status cm of Some s \<Rightarrow> Some s | None \<Rightarrow> nv_extended_attributes verification)\<rparr>))))
      | LtUnknown \<Rightarrow> op_fail (InvalidOperation (''unsupported link type '' @ int_to_string (l_type link))))"

definition node_of ::
  "volume_id \<Rightarrow> link_details_dto \<Rightarrow> string \<Rightarrow> node_kind \<Rightarrow> share_membership option \<Rightarrow> member_role
     \<Rightarrow> photo_properties option \<Rightarrow> album_properties option \<Rightarrow> node_verification \<Rightarrow> node" where
  "node_of vid details name kind membership role photo album verification =
     (let link = ld_link details in
      \<lparr>n_uid = NodeUid_new vid (l_id link), n_parent_uid = map_option (NodeUid_new vid) (l_parent_id link),
       n_kind = kind, n_name = name, n_creation_time = l_creation_time link,
       n_modification_time = l_modification_time link, n_trashed = is_trashed link,
       n_is_shared = (ld_sharing details \<noteq> None),
       n_is_shared_publicly = (case ld_sharing details of Some s \<Rightarrow> ls_share_url_id s \<noteq> None | None \<Rightarrow> False),
       n_signature_email = l_signature_email link, n_membership = membership, n_direct_role = Some role,
       n_share_id = map_option ls_share_id (ld_sharing details), n_photo = photo, n_album = album,
       n_verification = verification\<rparr>)"

text \<open>The entity cache keeps the node with the name hash the server gave; a failure to
  store it is not the caller's.\<close>

definition cache_built_node ::
  "('k, 'p, 's, 'w) node_env \<Rightarrow> link_dto \<Rightarrow> node \<Rightarrow> bool \<Rightarrow> (unit, ('k, 's, 'w) drive) op" where
  "cache_built_node E link n for_photos =
     (case l_name_hash link of
        None \<Rightarrow> op_return ()
      | Some name_hash \<Rightarrow>
          op_bind (op_get (\<lambda>d. if for_photos then photos_share_id d else resolved_my_files_share_id d)) (\<lambda>membership.
          op_then (op_try (on_entities (set_node (de_repo (ne_drive E)) (de_js (ne_drive E)) (n_uid n) n membership name_hash)))
            (op_return ())))"

definition wants_node_key :: "node_detail \<Rightarrow> link_dto \<Rightarrow> bool" where
  "wants_node_key detail link = (detail = Full \<or> parsed_type link \<noteq> LtFile)"

definition open_link ::
  "('k, 'p, 's, 'w) node_env \<Rightarrow> link_dto \<Rightarrow> 'k \<Rightarrow> node_detail
     \<Rightarrow> (string \<times> 'k option \<times> node_verification, ('k, 's, 'w) drive) op" where
  "open_link E link parent_key detail =
     (if wants_node_key detail link
      then op_bind (on_world (ne_link_verified E parent_key link)) (\<lambda>(key, name, v). op_return (name, Some key, v))
      else op_bind (on_world (ne_link_name_verified E parent_key link)) (\<lambda>(name, v). op_return (name, None, v)))"

definition membership_of ::
  "('k, 'p, 's, 'w) node_env \<Rightarrow> link_details_dto \<Rightarrow> (share_membership option, ('k, 's, 'w) drive) op" where
  "membership_of E details =
     (case ld_membership details of
        Some dto \<Rightarrow> op_bind (verified_membership E dto) (\<lambda>m. op_return (Some m))
      | None \<Rightarrow> op_return None)"

definition build_node_ctx ::
  "('k, 'p, 's, 'w) node_env \<Rightarrow> volume_id \<Rightarrow> link_details_dto \<Rightarrow> 'k \<Rightarrow> bool \<Rightarrow> node_detail
     \<Rightarrow> (node, ('k, 's, 'w) drive) op" where
  "build_node_ctx E vid details parent_key for_photos detail =
     op_bind (open_link E (ld_link details) parent_key detail) (\<lambda>(name, nkey, verification0).
     op_bind (build_kind E vid details nkey verification0) (\<lambda>(kind, album, photo, verification).
     op_bind (is_own_volume (ne_drive E) vid) (\<lambda>own.
     op_bind (membership_of E details) (\<lambda>membership.
     let role = (if own then Admin else from_permissions (map_option sms_permissions (ld_membership details)));
         n = node_of vid details name kind membership role photo album verification in
     op_then (cache_built_node E (ld_link details) n for_photos) (op_return n)))))"

definition build_node ::
  "('k, 'p, 's, 'w) node_env \<Rightarrow> volume_id \<Rightarrow> link_details_dto \<Rightarrow> 'k \<Rightarrow> node_detail \<Rightarrow> (node, ('k, 's, 'w) drive) op" where
  "build_node E vid details parent_key detail = build_node_ctx E vid details parent_key False detail"

section \<open>Reading nodes\<close>

definition load_node ::
  "('k, 'p, 's, 'w) node_env \<Rightarrow> node_uid \<Rightarrow> (node option, ('k, 's, 'w) drive) op" where
  "load_node E uid =
     op_bind (get_link_details (ne_drive E) (uid_volume uid) [uid_link uid]) (\<lambda>links.
     case links of
       [] \<Rightarrow> op_return None
     | details # _ \<Rightarrow>
         op_bind (resolve_parent_key (ne_drive E) (uid_volume uid) (ld_link details)) (\<lambda>parent_key.
         op_bind (build_node E (uid_volume uid) details parent_key Full) (\<lambda>n. op_return (Some n))))"

definition cached_node ::
  "('k, 'p, 's, 'w) node_env \<Rightarrow> node_uid \<Rightarrow> (cached_node_info option, ('k, 's, 'w) drive) op" where
  "cached_node E uid = on_entities (try_get_node (de_repo (ne_drive E)) (de_js (ne_drive E)) uid)"

definition get_node ::
  "('k, 'p, 's, 'w) node_env \<Rightarrow> node_uid \<Rightarrow> (node option, ('k, 's, 'w) drive) op" where
  "get_node E uid =
     op_bind (cached_node E uid) (\<lambda>hit.
     case hit of
       Some ci \<Rightarrow> op_return (Some (cni_node ci))
     | None \<Rightarrow> op_map_err (rebuild_error (de_display (ne_drive E))) (load_node E uid))"

definition get_my_files_folder :: "('k, 'p, 's, 'w) node_env \<Rightarrow> (node, ('k, 's, 'w) drive) op" where
  "get_my_files_folder E =
     op_then (ensure_my_files (ne_drive E))
     (op_bind (op_get (\<lambda>d. the (dc_my_files_root (drive_cache_of d)))) (\<lambda>root_uid.
      op_bind (get_node E root_uid) (\<lambda>r. op_ok_or (InvalidOperation ''My Files root folder not found'') r)))"

definition get_photos_node ::
  "('k, 'p, 's, 'w) node_env \<Rightarrow> node_uid \<Rightarrow> (node option, ('k, 's, 'w) drive) op" where
  "get_photos_node E uid =
     op_bind (get_link_details_ctx (ne_drive E) (uid_volume uid) [uid_link uid] True) (\<lambda>links.
     case links of
       [] \<Rightarrow> op_return None
     | details # _ \<Rightarrow>
         op_bind (resolve_parent_key_ctx (ne_drive E) (uid_volume uid) (ld_link details) True) (\<lambda>parent_key.
         op_bind (build_node_ctx E (uid_volume uid) details parent_key True Full) (\<lambda>n. op_return (Some n))))"

definition get_photos_root :: "('k, 'p, 's, 'w) node_env \<Rightarrow> (node option, ('k, 's, 'w) drive) op" where
  "get_photos_root E =
     op_bind (ensure_photos (ne_drive E)) (\<lambda>exists.
     if \<not> exists then op_return None
     else op_bind (op_get (\<lambda>d. the (dc_photos_root (drive_cache_of d)))) (get_photos_node E))"

fun add_to_group :: "node_uid \<Rightarrow> (volume_id \<times> link_id list) list \<Rightarrow> (volume_id \<times> link_id list) list" where
  "add_to_group uid [] = [(uid_volume uid, [uid_link uid])]"
| "add_to_group uid ((vid, ids) # groups) =
     (if vid = uid_volume uid then (vid, ids @ [uid_link uid]) # groups else (vid, ids) # add_to_group uid groups)"

definition group_by_volume :: "node_uid list \<Rightarrow> (volume_id \<times> link_id list) list" where
  "group_by_volume uids = fold add_to_group uids []"

fun build_batch ::
  "('k, 'p, 's, 'w) node_env \<Rightarrow> volume_id \<Rightarrow> node_detail \<Rightarrow> (parent_key_id \<rightharpoonup> 'k) \<Rightarrow> link_details_dto list
     \<Rightarrow> (node list, ('k, 's, 'w) drive) op" where
  "build_batch E vid detail keys [] = op_return []"
| "build_batch E vid detail keys (d # ds) =
     (case keys (ParentKeyId_of (ld_link d)) of
        None \<Rightarrow> build_batch E vid detail keys ds
      | Some key \<Rightarrow>
          op_bind (op_try (build_node E vid d key detail)) (\<lambda>r.
          op_bind (build_batch E vid detail keys ds) (\<lambda>ns.
            op_return (case r of Inr n \<Rightarrow> n # ns | Inl _ \<Rightarrow> ns))))"

fun enumerate_chunks ::
  "('k, 'p, 's, 'w) node_env \<Rightarrow> volume_id \<Rightarrow> node_detail \<Rightarrow> link_id list list \<Rightarrow> (node list, ('k, 's, 'w) drive) op" where
  "enumerate_chunks E vid detail [] = op_return []"
| "enumerate_chunks E vid detail (chunk # later) =
     op_bind (get_link_details (ne_drive E) vid chunk) (\<lambda>details.
     op_bind (resolve_parent_keys (resolve_parent_key (ne_drive E) vid) details Map.empty) (\<lambda>keys.
     op_bind (build_batch E vid detail keys details) (\<lambda>ns.
     op_bind (enumerate_chunks E vid detail later) (\<lambda>rest. op_return (ns @ rest)))))"

fun enumerate_groups ::
  "('k, 'p, 's, 'w) node_env \<Rightarrow> node_detail \<Rightarrow> (volume_id \<times> link_id list) list \<Rightarrow> (node list, ('k, 's, 'w) drive) op" where
  "enumerate_groups E detail [] = op_return []"
| "enumerate_groups E detail ((vid, ids) # groups) =
     op_bind (enumerate_chunks E vid detail (chunks MAX_BATCH_COUNT ids)) (\<lambda>ns.
     op_bind (enumerate_groups E detail groups) (\<lambda>rest. op_return (ns @ rest)))"

definition enumerate_nodes_detail ::
  "('k, 'p, 's, 'w) node_env \<Rightarrow> node_uid list \<Rightarrow> node_detail \<Rightarrow> (node list, ('k, 's, 'w) drive) op" where
  "enumerate_nodes_detail E uids detail = enumerate_groups E detail (group_by_volume uids)"

definition enumerate_nodes ::
  "('k, 'p, 's, 'w) node_env \<Rightarrow> node_uid list \<Rightarrow> (node list, ('k, 's, 'w) drive) op" where
  "enumerate_nodes E uids = enumerate_nodes_detail E uids Full"

definition enumerate_nodes_light ::
  "('k, 'p, 's, 'w) node_env \<Rightarrow> node_uid list \<Rightarrow> (node list, ('k, 's, 'w) drive) op" where
  "enumerate_nodes_light E uids = enumerate_nodes_detail E uids Light"

fun build_photo_batch ::
  "('k, 'p, 's, 'w) node_env \<Rightarrow> volume_id \<Rightarrow> link_details_dto list \<Rightarrow> (node list, ('k, 's, 'w) drive) op" where
  "build_photo_batch E vid [] = op_return []"
| "build_photo_batch E vid (d # ds) =
     op_bind (op_try (resolve_parent_key_ctx (ne_drive E) vid (ld_link d) True)) (\<lambda>key.
     case key of
       Inl _ \<Rightarrow> build_photo_batch E vid ds
     | Inr parent_key \<Rightarrow>
         op_bind (op_try (build_node_ctx E vid d parent_key True Full)) (\<lambda>r.
         op_bind (build_photo_batch E vid ds) (\<lambda>ns.
           op_return (case r of Inr n \<Rightarrow> n # ns | Inl _ \<Rightarrow> ns))))"

fun enumerate_photo_chunks ::
  "('k, 'p, 's, 'w) node_env \<Rightarrow> (volume_id \<times> link_id list) list \<Rightarrow> (node list, ('k, 's, 'w) drive) op" where
  "enumerate_photo_chunks E [] = op_return []"
| "enumerate_photo_chunks E ((vid, chunk) # later) =
     op_bind (get_link_details_ctx (ne_drive E) vid chunk True) (\<lambda>details.
     op_bind (build_photo_batch E vid details) (\<lambda>ns.
     op_bind (enumerate_photo_chunks E later) (\<lambda>rest. op_return (ns @ rest))))"

definition enumerate_photos_nodes ::
  "('k, 'p, 's, 'w) node_env \<Rightarrow> node_uid list \<Rightarrow> (node list, ('k, 's, 'w) drive) op" where
  "enumerate_photos_nodes E uids =
     enumerate_photo_chunks E
       (concat (map (\<lambda>(vid, ids). map (\<lambda>c. (vid, c)) (chunks MAX_BATCH_COUNT ids)) (group_by_volume uids)))"

section \<open>Listings\<close>

definition children_path :: "node_uid \<Rightarrow> link_id option \<Rightarrow> string" where
  "children_path folder anchor =
     ''v2/volumes/'' @ volume_id_str (uid_volume folder) @ ''/folders/'' @ link_id_str (uid_link folder) @ ''/children'' @
     (case anchor of Some a \<Rightarrow> ''?AnchorID='' @ link_id_str a | None \<Rightarrow> [])"

partial_function (option) children_pages ::
  "('k, 'p, 's, 'w) node_env \<Rightarrow> node_uid \<Rightarrow> link_id option \<Rightarrow> node_uid list \<Rightarrow> 'w \<Rightarrow> (node_uid list result \<times> 'w) option" where
  [code]: "children_pages E folder anchor uids w =
     op_bind (ne_get_children E (children_path folder anchor))
       (\<lambda>page w1.
          if fcr_link_ids page = [] then Some (Inr uids, w1)
          else if \<not> fcr_more_results_exist page \<or> fcr_anchor_id page = None
          then Some (Inr (uids @ map (NodeUid_new (uid_volume folder)) (fcr_link_ids page)), w1)
          else children_pages E folder (fcr_anchor_id page)
                 (uids @ map (NodeUid_new (uid_volume folder)) (fcr_link_ids page)) w1) w"

definition enumerate_folder_children_node_uids ::
  "('k, 'p, 's, 'w) node_env \<Rightarrow> node_uid \<Rightarrow> (node_uid list, ('k, 's, 'w) drive) op" where
  "enumerate_folder_children_node_uids E folder = on_world (children_pages E folder None [])"

definition TRASH_PAGE_SIZE :: nat where "TRASH_PAGE_SIZE = 500"

definition trash_path :: "volume_id \<Rightarrow> nat \<Rightarrow> string" where
  "trash_path vid page =
     ''volumes/'' @ volume_id_str vid @ ''/trash?pageSize='' @ nat_to_string TRASH_PAGE_SIZE @ ''&page='' @ nat_to_string page"

partial_function (option) trash_pages ::
  "('k, 'p, 's, 'w) node_env \<Rightarrow> volume_id \<Rightarrow> nat \<Rightarrow> node_uid list \<Rightarrow> 'w \<Rightarrow> (node_uid list result \<times> 'w) option" where
  [code]: "trash_pages E vid page uids w =
     op_bind (ne_get_trash E (trash_path vid page))
       (\<lambda>groups w1.
          if length (concat (map std_link_ids groups)) < TRASH_PAGE_SIZE
          then Some (Inr (uids @ map (NodeUid_new vid) (concat (map std_link_ids groups))), w1)
          else trash_pages E vid (page + 1) (uids @ map (NodeUid_new vid) (concat (map std_link_ids groups))) w1) w"

definition enumerate_trash_node_uids :: "('k, 'p, 's, 'w) node_env \<Rightarrow> (node_uid list, ('k, 's, 'w) drive) op" where
  "enumerate_trash_node_uids E =
     op_bind (drive_main_volume_id (ne_drive E)) (\<lambda>vid. on_world (trash_pages E vid 0 []))"

definition get_folder_size :: "('k, 'p, 's, 'w) node_env \<Rightarrow> node_uid \<Rightarrow> (folder_size, ('k, 's, 'w) drive) op" where
  "get_folder_size E uid =
     on_world (ne_get_folder_size E (''volumes/'' @ volume_id_str (uid_volume uid) @ ''/folders/'' @
       link_id_str (uid_link uid) @ ''/calculate-descendents-size''))"

definition REPORT_BATCH :: nat where "REPORT_BATCH = 50"

fun report_batches ::
  "('k, 'p, 's, 'w) node_env \<Rightarrow> string \<Rightarrow> int \<Rightarrow> recently_accessed_report_item list list \<Rightarrow> (unit, ('k, 's, 'w) drive) op" where
  "report_batches E path now [] = op_return ()"
| "report_batches E path now (batch # batches) =
     op_then (on_world (ne_post_recent E path (map (\<lambda>item.
       \<lparr>rri_volume_id = uid_volume (ra_uid item), rri_link_id = uid_link (ra_uid item),
        rri_access_time = (case ra_access_time item of Some t \<Rightarrow> t | None \<Rightarrow> now)\<rparr>) batch)))
       (report_batches E path now batches)"

definition report_recently_accessed_to ::
  "('k, 'p, 's, 'w) node_env \<Rightarrow> string \<Rightarrow> recently_accessed_report_item list \<Rightarrow> (unit, ('k, 's, 'w) drive) op" where
  "report_recently_accessed_to E path items =
     op_bind (op_get (\<lambda>d. ne_now E (dv_world d))) (\<lambda>now. report_batches E path now (chunks REPORT_BATCH items))"

definition report_recently_accessed ::
  "('k, 'p, 's, 'w) node_env \<Rightarrow> recently_accessed_report_item list \<Rightarrow> (unit, ('k, 's, 'w) drive) op" where
  "report_recently_accessed E items = report_recently_accessed_to E ''recently-accessed-items'' items"

definition report_photos_recently_accessed ::
  "('k, 'p, 's, 'w) node_env \<Rightarrow> recently_accessed_report_item list \<Rightarrow> (unit, ('k, 's, 'w) drive) op" where
  "report_photos_recently_accessed E items = report_recently_accessed_to E ''photos/recently-accessed-items'' items"

section \<open>Hierarchy and paths\<close>

partial_function (option) climb_hierarchy ::
  "('k, 'p, 's, 'w) node_env \<Rightarrow> node list \<Rightarrow> node_uid set \<Rightarrow> ('k, 's, 'w) drive
     \<Rightarrow> (node list result \<times> ('k, 's, 'w) drive) option" where
  [code]: "climb_hierarchy E chain visited d =
     (case n_parent_uid (last chain) of
        None \<Rightarrow> Some (Inr chain, d)
      | Some p \<Rightarrow>
          if p \<in> visited
          then Some (Inl (InvalidOperation (''Folder structure loop detected at '' @ NodeUid_display p)), d)
          else
            op_bind (op_bind (get_node E p) (\<lambda>r. op_ok_or (InvalidOperation
                       (''Node hierarchy is broken: parent '' @ NodeUid_display p @ '' does not exist'')) r))
              (\<lambda>parent. climb_hierarchy E (chain @ [parent]) (insert p visited)) d)"

definition get_node_hierarchy ::
  "('k, 'p, 's, 'w) node_env \<Rightarrow> node_uid \<Rightarrow> (node list option, ('k, 's, 'w) drive) op" where
  "get_node_hierarchy E uid =
     op_bind (get_node E uid) (\<lambda>r.
     case r of
       None \<Rightarrow> op_return None
     | Some n \<Rightarrow> op_bind (climb_hierarchy E [n] {uid}) (\<lambda>chain. op_return (Some (rev chain))))"

definition path_segments :: "string \<Rightarrow> string list" where
  "path_segments path = filter (\<lambda>s. s \<noteq> []) (split_on CHR ''/'' path)"

definition join_node_path :: "string list \<Rightarrow> string" where
  "join_node_path names =
     (let path = concat (map (\<lambda>name. CHR ''/'' # name) names) in if path = [] then ''/'' else path)"

definition get_node_path ::
  "('k, 'p, 's, 'w) node_env \<Rightarrow> node_uid \<Rightarrow> (string option, ('k, 's, 'w) drive) op" where
  "get_node_path E uid =
     op_bind (get_node_hierarchy E uid) (\<lambda>r.
     case r of
       None \<Rightarrow> op_return None
     | Some hierarchy \<Rightarrow> op_return (Some (join_node_path (map n_name (drop 1 hierarchy)))))"

definition find_child_by_name ::
  "('k, 'p, 's, 'w) node_env \<Rightarrow> node_uid \<Rightarrow> string \<Rightarrow> (node_uid option, ('k, 's, 'w) drive) op" where
  "find_child_by_name E parent name =
     op_bind (enumerate_folder_children_node_uids E parent) (\<lambda>uids.
     if uids = [] then op_return None
     else op_bind (enumerate_nodes_light E uids) (\<lambda>children.
            op_return (map_option n_uid (List.find (\<lambda>c. n_name c = name) children))))"

definition find_existing_folder ::
  "('k, 'p, 's, 'w) node_env \<Rightarrow> node_uid \<Rightarrow> string \<Rightarrow> (node_uid option, ('k, 's, 'w) drive) op" where
  "find_existing_folder E parent name =
     op_bind (enumerate_folder_children_node_uids E parent) (\<lambda>uids.
     if uids = [] then op_return None
     else op_bind (enumerate_nodes_light E uids) (\<lambda>children.
            case List.find (\<lambda>c. n_name c = name) children of
              Some c \<Rightarrow>
                if is_folder c then op_return (Some (n_uid c))
                else op_fail (InvalidOperation (''Cannot create folder path: '' @ name @ '' exists as a file ('' @
                       NodeUid_display (n_uid c) @ '')''))
            | None \<Rightarrow> op_return None))"

fun descend ::
  "('k, 'p, 's, 'w) node_env \<Rightarrow> node_uid \<Rightarrow> string list \<Rightarrow> (node_uid option, ('k, 's, 'w) drive) op" where
  "descend E current [] = op_return (Some current)"
| "descend E current (segment # segments) =
     op_bind (find_child_by_name E current segment) (\<lambda>child.
     case child of None \<Rightarrow> op_return None | Some c \<Rightarrow> descend E c segments)"

definition get_node_by_path ::
  "('k, 'p, 's, 'w) node_env \<Rightarrow> node_uid \<Rightarrow> string \<Rightarrow> (node option, ('k, 's, 'w) drive) op" where
  "get_node_by_path E root_uid path =
     op_bind (descend E root_uid (path_segments path)) (\<lambda>target.
     case target of None \<Rightarrow> op_return None | Some uid \<Rightarrow> get_node E uid)"

section \<open>Names\<close>

definition MAX_NODE_NAME_LENGTH :: nat where "MAX_NODE_NAME_LENGTH = 255"

definition validate_node_name :: "string \<Rightarrow> unit result" where
  "validate_node_name name =
     (if name = [] then Inl (InvalidOperation ''Name must not be empty'')
      else if MAX_NODE_NAME_LENGTH < chars_count name
      then Inl (InvalidOperation (''Name must be '' @ nat_to_string MAX_NODE_NAME_LENGTH @ '' characters long at most''))
      else Inr ())"

definition alternate_file_name :: "string \<Rightarrow> nat \<Rightarrow> string" where
  "alternate_file_name original i =
     (let (stem, ext) = (case rfind CHR ''.'' original of
            Some dot \<Rightarrow> (take dot original, drop dot original) | None \<Rightarrow> (original, [])) in
      stem @ '' ('' @ nat_to_string i @ '')'' @ ext)"

definition alternate_folder_name :: "string \<Rightarrow> nat \<Rightarrow> string" where
  "alternate_folder_name original i = original @ '' ('' @ nat_to_string i @ '')''"

text \<open>The \<open>i\<close>th candidate: the name itself, then its alternates from 1 on.\<close>

definition name_candidate :: "available_name_target \<Rightarrow> string \<Rightarrow> nat \<Rightarrow> string" where
  "name_candidate target name i =
     (if i = 0 then name
      else case target of TargetFile \<Rightarrow> alternate_file_name name i | TargetFolder \<Rightarrow> alternate_folder_name name i)"

definition NAME_AVAILABILITY_BATCH :: nat where "NAME_AVAILABILITY_BATCH = 10"

definition check_hashes_path :: "node_uid \<Rightarrow> string" where
  "check_hashes_path parent =
     ''v2/volumes/'' @ volume_id_str (uid_volume parent) @ ''/links/'' @ link_id_str (uid_link parent) @ ''/checkAvailableHashes''"

partial_function (option) available_name_batches ::
  "('k, 'p, 's, 'w) node_env \<Rightarrow> node_uid \<Rightarrow> bytes \<Rightarrow> (nat \<Rightarrow> string) \<Rightarrow> nat \<Rightarrow> 'w \<Rightarrow> (string result \<times> 'w) option" where
  [code]: "available_name_batches E parent hash_key candidate next w =
     op_bind (ne_check_hashes E (check_hashes_path parent)
        \<lparr>nna_name_hashes = map (\<lambda>i. ne_hmac_hex E hash_key (as_bytes (candidate i))) [next..<next + NAME_AVAILABILITY_BATCH],
         nna_client_uid = [ne_session_id E]\<rparr>)
       (\<lambda>available w1.
          case available of
            digest # _ \<Rightarrow>
              (case map_of (rev (map (\<lambda>i. (ne_hmac_hex E hash_key (as_bytes (candidate i)), candidate i))
                                   [next..<next + NAME_AVAILABILITY_BATCH])) digest of
                 Some name \<Rightarrow> Some (Inr name, w1)
               | None \<Rightarrow> Some (Inl (InvalidOperation ''server returned an unknown name hash digest''), w1))
          | [] \<Rightarrow> available_name_batches E parent hash_key candidate (next + NAME_AVAILABILITY_BATCH) w1) w"

definition get_available_name ::
  "('k, 'p, 's, 'w) node_env \<Rightarrow> node_uid \<Rightarrow> string \<Rightarrow> available_name_target \<Rightarrow> (string, ('k, 's, 'w) drive) op" where
  "get_available_name E parent name target =
     op_bind (folder_node_key (ne_drive E) parent) (\<lambda>parent_key.
     op_bind (parent_hash_key (ne_drive E) parent parent_key) (\<lambda>hash_key.
       on_world (available_name_batches E parent hash_key (name_candidate target name) 0)))"

section \<open>The provider\<close>

definition account_nodes ::
  "('sk, 'pub, 'sig, 'msg, 'w) account_env \<Rightarrow> ('sk, 'pub, 'ek, 'pk, 'sd, 'w) pgp_lib \<Rightarrow> ('sk, 'ek, 'sg, 'w) write_lib
     \<Rightarrow> xattr_decoder \<Rightarrow> ('sk private_key, 'pub, 's, ('sk, 'pub, 'w) account) node_env
     \<Rightarrow> ('sk private_key, 'pub, 's, ('sk, 'pub, 'w) account) node_env" where
  "account_nodes A L W js endpoints =
     endpoints
       \<lparr>ne_drive := account_drive A L W (ne_drive endpoints),
        ne_link_verified := (\<lambda>k link. op_bind (decrypt_link_verified A k link)
          (\<lambda>(dl, v). op_return (dl_node_key dl, dl_name dl, v))),
        ne_link_name_verified := decrypt_link_name_verified A,
        ne_content_key_verified := decrypt_content_key_verified A L,
        ne_xattr_verified := decrypt_extended_attributes_verified A js,
        ne_public_keys := public_keys A,
        ne_verify_context := (\<lambda>s b keys ctx. verify_detached_with_context (ae_rpgp A) s b (ring_from_public_keys keys) ctx)\<rparr>"

section \<open>What a build leaves in the entity cache\<close>

lemma entities_of_simps [simp]:
  "entities_of (d\<lparr>dv_world := w\<rparr>) = entities_of d"
  "entities_of (set_drive_cache f d) = entities_of d"
  "entities_of (put_folder_key E uid key d) = entities_of d"
  by (simp_all add: entities_of_def set_drive_cache_def put_folder_key_def Let_def)

lemma keeps_entities_world [keeps]: "op_keeps (\<lambda>d. P (entities_of d)) (on_world m)"
  by (auto simp: op_keeps_def on_world_Some)

lemma keeps_case_list [keeps]:
  "op_keeps I m \<Longrightarrow> (\<And>y ys. op_keeps I (n y ys)) \<Longrightarrow> op_keeps I (case xs of [] \<Rightarrow> m | y # ys \<Rightarrow> n y ys)"
  by (auto split: list.splits)

lemma keeps_entities_modify:
  "op_keeps (\<lambda>d. P (entities_of d)) (op_modify (set_drive_cache f))"
  "op_keeps (\<lambda>d. P (entities_of d)) (op_modify (put_folder_key E uid key))"
  by (auto intro!: op_keeps_modify)

lemma keeps_entities_bootstrap:
  "op_keeps (\<lambda>d. P (entities_of d)) (ensure_my_files E)" "op_keeps (\<lambda>d. P (entities_of d)) (ensure_photos E)"
proof -
  have volume: "op_keeps (\<lambda>d. P (entities_of d)) (create_volume E)"
    unfolding create_volume_def by (intro keeps)
  have share: "op_keeps (\<lambda>d. P (entities_of d)) (my_files_share_key E r)" for r
    unfolding my_files_share_key_def by (intro keeps volume)
  show "op_keeps (\<lambda>d. P (entities_of d)) (ensure_my_files E)"
    unfolding ensure_my_files_def by (intro keeps volume share) simp_all
  show "op_keeps (\<lambda>d. P (entities_of d)) (ensure_photos E)"
    unfolding ensure_photos_def by (intro keeps) simp_all
qed

lemma keeps_entities_build:
  "op_keeps (\<lambda>d. P (entities_of d)) (is_own_volume D vid)"
  "op_keeps (\<lambda>d. P (entities_of d)) (verified_membership E dto)"
  "op_keeps (\<lambda>d. P (entities_of d)) (build_kind E vid details nkey v)"
proof -
  show "op_keeps (\<lambda>d. P (entities_of d)) (is_own_volume D vid)"
    unfolding is_own_volume_def drive_main_volume_id_def by (intro keeps keeps_entities_bootstrap)
  show "op_keeps (\<lambda>d. P (entities_of d)) (verified_membership E dto)"
    unfolding verified_membership_def by (intro keeps)
  have ck: "op_keeps (\<lambda>d. P (entities_of d)) (content_key_status E link fi nkey)" for link fi
    unfolding content_key_status_def by (intro keeps)
  have cm: "op_keeps (\<lambda>d. P (entities_of d)) (claimed_metadata_of E fi nkey)" for fi
    unfolding claimed_metadata_of_def by (intro keeps)
  have folder: "op_keeps (\<lambda>d. P (entities_of d)) (op_bind (op_ok_or e nkey) (\<lambda>key.
      op_then (op_modify (put_folder_key D uid key)) (op_return x)))" for e D uid x
    by (intro keeps keeps_entities_modify) simp_all
  show "op_keeps (\<lambda>d. P (entities_of d)) (build_kind E vid details nkey v)"
    unfolding build_kind_def Let_def
    by (cases "parsed_type (ld_link details)"; simp only: link_type.case; intro keeps ck cm folder)
qed

text \<open>A successful build ends with the node it returns in the cache; nothing before touches it.\<close>

lemma build_node_caches:
  assumes "build_node_ctx E vid details key for_photos detail d = Some (Inr n, d1)"
    and "l_name_hash (ld_link details) = Some h"
  shows "entities_of d1 = snd (set_node (de_repo (ne_drive E)) (de_js (ne_drive E)) (n_uid n) n
     (if for_photos then photos_share_id d1 else resolved_my_files_share_id d1) h (entities_of d))"
proof -
  let ?P = "\<lambda>e. entities_of e = entities_of d"
  obtain name nkey v0 e1 kind album photo v e2 own e3 membership e4 where
    e1: "open_link E (ld_link details) key detail d = Some (Inr (name, nkey, v0), e1)"
    and e2: "build_kind E vid details nkey v0 e1 = Some (Inr (kind, album, photo, v), e2)"
    and e3: "is_own_volume (ne_drive E) vid e2 = Some (Inr own, e3)"
    and e4: "membership_of E details e3 = Some (Inr membership, e4)"
    and fin: "op_then (cache_built_node E (ld_link details) n for_photos) (op_return n) e4 = Some (Inr n, d1)"
    using assms(1) unfolding build_node_ctx_def Let_def by (auto simp: op_bind_Inr op_then_def)
  have lnk: "op_keeps ?P (open_link E (ld_link details) key detail)"
    unfolding open_link_def by (intro keeps)
  have memb: "op_keeps ?P (membership_of E details)"
    unfolding membership_of_def by (intro keeps keeps_entities_build)
  note kind = keeps_entities_build(1,3) [where P = "\<lambda>s. s = entities_of d"]
  have "?P e1" by (rule op_keepsD [OF lnk refl e1])
  then have "?P e2" by (rule op_keepsD [OF kind(2) _ e2])
  then have "?P e3" by (rule op_keepsD [OF kind(1) _ e3])
  then have "?P e4" by (rule op_keepsD [OF memb _ e4])
  with fin assms(2) show ?thesis
    by (auto simp: photos_share_id_def resolved_my_files_share_id_def drive_cache_of_def op_then_def op_bind_Inr cache_built_node_def op_try_Some on_entities_def entities_of_def split: prod.splits)
qed

lemma build_node_uid:
  "build_node_ctx E vid details key for_photos detail d = Some (Inr n, d1) \<Longrightarrow> n_uid n = NodeUid_new vid (l_id (ld_link details))"
  unfolding build_node_ctx_def Let_def
  by (auto simp: op_bind_Inr op_then_def node_of_def Let_def split: prod.splits)

text \<open>A file built light claims nothing.\<close>

lemma light_file_claims_nothing:
  assumes "build_node_ctx E vid details key for_photos Light d = Some (Inr n, d1)" "parsed_type (ld_link details) = LtFile"
  shows "\<exists>f. n_kind n = KFile f \<and> fk_claimed_size f = None \<and> fk_claimed_modification_time f = None \<and> fk_content_sha1 f = None"
  using assms unfolding build_node_ctx_def Let_def
  by (auto simp: open_link_def wants_node_key_def build_kind_def claimed_metadata_of_def content_key_status_def op_bind_Inr op_then_def
      node_of_def Let_def file_kind_of_def nothing_claimed_def split: prod.splits)

section \<open>The hierarchy\<close>

text \<open>One step of a hierarchy: the upper node is what the lookup of the lower one's parent gave.\<close>

definition parent_read :: "('k, 'p, 's, 'w) node_env \<Rightarrow> node \<Rightarrow> node \<Rightarrow> bool" where
  "parent_read E upper lower \<longleftrightarrow>
     (\<exists>p d d'. n_parent_uid lower = Some p \<and> get_node E p d = Some (Inr (Some upper), d'))"

definition parent_lookup ::
  "('k, 'p, 's, 'w) node_env \<Rightarrow> node_uid \<Rightarrow> (node, ('k, 's, 'w) drive) op" where
  "parent_lookup E p = op_bind (get_node E p) (\<lambda>r. op_ok_or (InvalidOperation
     (''Node hierarchy is broken: parent '' @ NodeUid_display p @ '' does not exist'')) r)"

lemma climb_hierarchy_unfold:
  "climb_hierarchy E chain visited d =
     (case n_parent_uid (last chain) of
        None \<Rightarrow> Some (Inr chain, d)
      | Some p \<Rightarrow>
          if p \<in> visited
          then Some (Inl (InvalidOperation (''Folder structure loop detected at '' @ NodeUid_display p)), d)
          else op_bind (parent_lookup E p) (\<lambda>parent. climb_hierarchy E (chain @ [parent]) (insert p visited)) d)"
  unfolding parent_lookup_def by (rule climb_hierarchy.simps)

text \<open>Lookups of nodes of \<open>S\<close> return and name parents in \<open>S\<close>, in the states \<open>P\<close> they keep.\<close>

definition lookups_stay ::
  "('k, 'p, 's, 'w) node_env \<Rightarrow> node_uid set \<Rightarrow> (('k, 's, 'w) drive \<Rightarrow> bool) \<Rightarrow> bool" where
  "lookups_stay E S P \<longleftrightarrow>
     (\<forall>u\<in>S. \<forall>d. P d \<longrightarrow> (\<exists>r d'. get_node E u d = Some (r, d') \<and> P d' \<and>
        (\<forall>n p. r = Inr (Some n) \<longrightarrow> n_parent_uid n = Some p \<longrightarrow> p \<in> S)))"

lemma parent_lookup_stays:
  assumes "lookups_stay E S P" "u \<in> S" "P d"
  obtains r d' where "parent_lookup E u d = Some (r, d')" "P d'"
    "\<And>n. r = Inr n \<Longrightarrow> get_node E u d = Some (Inr (Some n), d') \<and> (\<forall>p. n_parent_uid n = Some p \<longrightarrow> p \<in> S)"
proof -
  obtain q d' where q: "get_node E u d = Some (q, d')" "P d'"
    "\<forall>n p. q = Inr (Some n) \<longrightarrow> n_parent_uid n = Some p \<longrightarrow> p \<in> S"
    using assms unfolding lookups_stay_def by blast
  show thesis
  proof (cases q)
    case (Inl e)
    then show ?thesis using q that [of "Inl e" d'] by (simp add: parent_lookup_def op_bind_def)
  next
    case (Inr x)
    then show ?thesis using q that by (cases x) (simp_all add: parent_lookup_def op_bind_def)
  qed
qed

text \<open>The climb returns: every step visits a node of the finite set for the first time.\<close>

lemma climb_hierarchy_returns:
  assumes S: "finite S" "lookups_stay E S P"
    and "chain \<noteq> []" "\<And>p. n_parent_uid (last chain) = Some p \<Longrightarrow> p \<in> S" "P d" "visited \<subseteq> S"
    and "successively (\<lambda>lower upper. parent_read E upper lower) chain"
  shows "\<exists>r d'. climb_hierarchy E chain visited d = Some (r, d') \<and>
     (\<forall>chain'. r = Inr chain' \<longrightarrow> (\<exists>ext. chain' = chain @ ext) \<and> n_parent_uid (last chain') = None \<and>
        successively (\<lambda>lower upper. parent_read E upper lower) chain')"
  using assms(3-7)
proof (induction "card (S - visited)" arbitrary: chain visited d rule: less_induct)
  case less
  show ?case
  proof (cases "n_parent_uid (last chain)")
    case None
    then show ?thesis using less.prems by (simp add: climb_hierarchy_unfold)
  next
    case (Some p)
    then have pS: "p \<in> S" using less.prems by blast
    show ?thesis
    proof (cases "p \<in> visited")
      case True
      then show ?thesis using Some by (simp add: climb_hierarchy_unfold)
    next
      case False
      obtain r d1 where r: "parent_lookup E p d = Some (r, d1)" "P d1"
        and ok: "\<And>n. r = Inr n \<Longrightarrow> get_node E p d = Some (Inr (Some n), d1) \<and> (\<forall>q. n_parent_uid n = Some q \<longrightarrow> q \<in> S)"
        using parent_lookup_stays [OF S(2) pS \<open>P d\<close>] by metis
      have step: "climb_hierarchy E chain visited d =
          op_bind (parent_lookup E p) (\<lambda>parent. climb_hierarchy E (chain @ [parent]) (insert p visited)) d"
        using Some False by (subst climb_hierarchy_unfold) simp
      show ?thesis
      proof (cases r)
        case (Inl e)
        then show ?thesis using step r by (simp add: op_bind_def)
      next
        case (Inr n)
        have fewer: "card (S - insert p visited) < card (S - visited)"
          using S(1) pS False by (intro psubset_card_mono) auto
        have "parent_read E n (last chain)" using ok [OF Inr] Some unfolding parent_read_def by blast
        then have succ: "successively (\<lambda>lower upper. parent_read E upper lower) (chain @ [n])"
          using less.prems(1,5) by (simp add: successively_append_iff)
        have "climb_hierarchy E chain visited d = climb_hierarchy E (chain @ [n]) (insert p visited) d1"
          using step r(1) Inr by (simp add: op_bind_eval(3))
        then show ?thesis
          using less.hyps [OF fewer, of "chain @ [n]" d1] ok [OF Inr] r(2) pS less.prems(4) succ by fastforce
      qed
    qed
  qed
qed

section \<open>Paths and names\<close>

lemma split_on_names:
  "\<forall>n\<in>set names. c \<notin> set n \<Longrightarrow> split_on c (concat (map (\<lambda>n. c # n) names)) = [] # names"
proof (induction names)
  case (Cons n names)
  have "split_on c (n @ concat (map (\<lambda>n. c # n) names)) = n # names"
  proof (cases names)
    case Nil
    then show ?thesis using Cons.prems by (simp add: split_on_no_sep)
  next
    case c: (Cons m ms)
    have "split_on c (concat (map (\<lambda>n. c # n) names)) = [] # names" using Cons by simp
    then have "split_on c (m @ concat (map (\<lambda>n. c # n) ms)) = names" using c by simp
    then show ?thesis using Cons.prems c split_on_append_sep [of c n] by simp
  qed
  then show ?case by simp
qed simp

lemma name_candidate_longer: "0 < i \<Longrightarrow> length name < length (name_candidate target name i)"
  by (cases target) (auto simp: name_candidate_def alternate_file_name_def alternate_folder_name_def
      split: option.splits dest: rfind_Some)

lemma name_candidate_inject: "name_candidate target name i = name_candidate target name j \<longleftrightarrow> i = j"
proof
  assume eq: "name_candidate target name i = name_candidate target name j"
  show "i = j"
  proof (cases "i = 0 \<or> j = 0")
    case True
    then show ?thesis using eq name_candidate_longer [of i name target] name_candidate_longer [of j name target]
      by (auto simp: name_candidate_def split: if_splits)
  next
    case False
    then show ?thesis using eq
      by (cases target) (auto simp: name_candidate_def alternate_file_name_def alternate_folder_name_def
          append_eq_append_conv2 split: option.splits)
  qed
qed simp

text \<open>A server that answers which of the asked hashes are free.\<close>

definition answers_free :: "('k, 'p, 's, 'w) node_env \<Rightarrow> node_uid \<Rightarrow> (string \<Rightarrow> bool) \<Rightarrow> bool" where
  "answers_free E parent free \<longleftrightarrow>
     (\<forall>req w. \<exists>w'. ne_check_hashes E (check_hashes_path parent) req w = Some (Inr (filter free (nna_name_hashes req)), w'))"

lemma available_name_batch:
  fixes h :: "nat \<Rightarrow> string"
  assumes "\<And>i j. h i = h j \<longleftrightarrow> i = j" "m \<le> n" "n < m + b" "free (h n)" "\<forall>i. m \<le> i \<longrightarrow> i < n \<longrightarrow> \<not> free (h i)"
  shows "\<exists>rest. filter free (map h [m..<m + b]) = h n # rest"
    "map_of (rev (map (\<lambda>i. (h i, c i)) [m..<m + b])) (h n) = Some (c n)"
proof -
  have split: "[m..<m + b] = [m..<n] @ n # [Suc n..<m + b]"
    using assms(2,3) by (metis le_add_diff_inverse less_imp_le upt_add_eq_append upt_conv_Cons)
  show "\<exists>rest. filter free (map h [m..<m + b]) = h n # rest"
    using assms(4,5) unfolding split by auto
  have "distinct (map fst (rev (map (\<lambda>i. (h i, c i)) [m..<m + b])))"
    using assms(1) by (simp add: rev_map distinct_map inj_on_def)
  then show "map_of (rev (map (\<lambda>i. (h i, c i)) [m..<m + b])) (h n) = Some (c n)"
    by (rule map_of_is_SomeI) (use assms(2,3) in auto)
qed

lemma available_name_batches_first:
  assumes inj: "\<And>i j. ne_hmac_hex E key (as_bytes (c i)) = ne_hmac_hex E key (as_bytes (c j)) \<longleftrightarrow> i = j"
    and srv: "answers_free E parent free"
    and n: "free (ne_hmac_hex E key (as_bytes (c n)))" "\<forall>i<n. \<not> free (ne_hmac_hex E key (as_bytes (c i)))"
  shows "m \<le> n \<Longrightarrow> \<exists>w'. available_name_batches E parent key c m w = Some (Inr (c n), w')"
proof (induction "n - m" arbitrary: m w rule: less_induct)
  case less
  let ?h = "\<lambda>i. ne_hmac_hex E key (as_bytes (c i))"
  let ?req = "\<lparr>nna_name_hashes = map ?h [m..<m + NAME_AVAILABILITY_BATCH], nna_client_uid = [ne_session_id E]\<rparr>"
  obtain w' where w': "ne_check_hashes E (check_hashes_path parent) ?req w =
      Some (Inr (filter free (nna_name_hashes ?req)), w')"
    using srv unfolding answers_free_def by blast
  show ?case
  proof (cases "n < m + NAME_AVAILABILITY_BATCH")
    case True
    note b1 = available_name_batch(1) [OF inj less.prems True, where free = free]
      and b2 = available_name_batch(2) [OF inj less.prems True, where free = free and c = c]
    obtain rest where "filter free (nna_name_hashes ?req) = ?h n # rest" using b1 n by auto
    then show ?thesis using w' b2 n by (subst available_name_batches.simps) (simp add: op_bind_def)
  next
    case False
    then have "filter free (nna_name_hashes ?req) = []" using n(2) by (auto simp: filter_empty_conv)
    then have "available_name_batches E parent key c m w =
        available_name_batches E parent key c (m + NAME_AVAILABILITY_BATCH) w'"
      using w' by (subst available_name_batches.simps) (simp add: op_bind_def)
    then show ?thesis using less.hyps [of "m + NAME_AVAILABILITY_BATCH" w'] False
      by (simp add: NAME_AVAILABILITY_BATCH_def)
  qed
qed

section \<open>Properties\<close>

text \<open>A lookup after a light build is light too.  Building a file without its key puts the
  node, with nothing claimed, into the entity cache, and the next lookup of that file returns
  it from there, although it asks for the node in full.\<close>

theorem light_build_shadows_full:
  assumes "cache_repository (de_repo (ne_drive E)) I content" "codec_ok (de_js (ne_drive E))" "I (entities_of d)"
    and "build_node E vid details key Light d = Some (Inr n, d1)"
    and "parsed_type (ld_link details) = LtFile" "l_name_hash (ld_link details) = Some h"
    and "fst (set_node (de_repo (ne_drive E)) (de_js (ne_drive E)) (n_uid n) n (resolved_my_files_share_id d1) h (entities_of d)) = Inr ()"
  shows "\<exists>d2 f. get_node E (NodeUid_new vid (l_id (ld_link details))) d1 = Some (Inr (Some n), d2) \<and>
     n_kind n = KFile f \<and> fk_claimed_size f = None \<and> fk_claimed_modification_time f = None \<and> fk_content_sha1 f = None"
proof -
  let ?repo = "de_repo (ne_drive E)" and ?js = "de_js (ne_drive E)"
  have run: "build_node_ctx E vid details key False Light d = Some (Inr n, d1)" using assms(4) by (simp add: build_node_def)
  have uid: "n_uid n = NodeUid_new vid (l_id (ld_link details))" by (rule build_node_uid [OF run])
  have set: "set_node ?repo ?js (n_uid n) n (resolved_my_files_share_id d1) h (entities_of d) = (Inr (), entities_of d1)"
    using build_node_caches [OF run assms(6)] assms(7) by (simp add: prod_eq_iff)
  have "fst (get_json ?repo ?js (node_key (n_uid n)) (entities_of d1)) =
      Inr (Some \<lparr>cni_node = n, cni_membership_share_id = resolved_my_files_share_id d1, cni_name_hash_digest = h\<rparr>)"
    using cache_repository.get_json_set_json [OF assms(1,2,3) set [unfolded set_node_def]] by blast
  then have "\<exists>d2. get_node E (n_uid n) d1 = Some (Inr (Some n), d2)"
    by (auto simp: get_node_def cached_node_def on_entities_def try_get_node_def op_bind_def entities_of_def split: prod.splits)
  then show ?thesis using light_file_claims_nothing [OF run assms(5)] unfolding uid by blast
qed


text \<open>A path is split back into the names it was joined from exactly when no name is empty or
  contains a slash.\<close>

theorem path_round_trip_iff:
  "path_segments (join_node_path names) = names \<longleftrightarrow> list_all (\<lambda>n. n \<noteq> [] \<and> CHR ''/'' \<notin> set n) names"
  unfolding list_all_iff
proof
  assume "path_segments (join_node_path names) = names"
  then have "set names = {n \<in> set (split_on CHR ''/'' (join_node_path names)). n \<noteq> []}"
    unfolding path_segments_def by (metis set_filter)
  then show "\<forall>n\<in>set names. n \<noteq> [] \<and> CHR ''/'' \<notin> set n" using split_on_pieces by blast
next
  assume ok: "\<forall>n\<in>set names. n \<noteq> [] \<and> CHR ''/'' \<notin> set n"
  show "path_segments (join_node_path names) = names"
  proof (cases names)
    case (Cons n ns)
    then have "join_node_path names = concat (map (\<lambda>n. CHR ''/'' # n) names)" by (simp add: join_node_path_def)
    then show ?thesis using ok split_on_names [of names "CHR ''/''"] by (simp add: path_segments_def filter_id_conv)
  qed (simp add: join_node_path_def path_segments_def)
qed


section \<open>Examples\<close>

definition example_attributes :: decrypted_extended_attributes where
  "example_attributes = \<lparr>dx_common = Some \<lparr>cx_size = Some 5, cx_modification_time = Some ''now'', cx_block_sizes = None,
     cx_sha1 = None\<rparr>, dx_location = None\<rparr>"

definition nodes_on :: "(string, 's, 'w) drive_env \<Rightarrow> (string, unit, 's, 'w) node_env" where
  "nodes_on D =
     \<lparr>ne_drive = D,
      ne_link_verified = (\<lambda>k link. op_bind (op_of (de_decrypt_link D k link))
        (\<lambda>(key, name). op_return (key, name, NodeVerification_default))),
      ne_link_name_verified = (\<lambda>k link. op_bind (op_of (de_decrypt_link D k link))
        (\<lambda>(_, name). op_return (name, NodeVerification_default))),
      ne_content_key_verified = (\<lambda>_ _ _ _. op_fail KeysLocked),
      ne_xattr_verified = (\<lambda>_ _ _. op_return (example_attributes, VerificationOk)),
      ne_public_keys = (\<lambda>_ w. ([], w)), ne_verify_context = (\<lambda>_ _ _ _. NoVerifier), ne_base64 = (\<lambda>_. Inl ''base64''),
      ne_hmac_hex = (\<lambda>_ bs. map (\<lambda>b. char_of (unat b)) bs), ne_session_id = ''session'', ne_now = (\<lambda>_. 0),
      ne_get_children = (\<lambda>_. op_fail KeysLocked), ne_get_trash = (\<lambda>_. op_fail KeysLocked),
      ne_get_folder_size = (\<lambda>_. op_fail KeysLocked), ne_post_recent = (\<lambda>_ _. op_return ()),
      ne_check_hashes = (\<lambda>_ req. op_return (filter (\<lambda>h. h \<notin> {''a.b'', ''a (1).b''}) (nna_name_hashes req)))\<rparr>"

definition example_file :: file_dto where
  "example_file = \<lparr>fi_media_type = ''text/plain'', fi_total_size_on_storage = 9, fi_content_key_packet = None,
     fi_content_key_signature = None, fi_active_revision = Some \<lparr>ar_id = ''rev'', ar_creation_time = 0, ar_state = None,
       ar_encrypted_size = 9, ar_signature_email = None, ar_extended_attributes = Some ''xattr'', ar_third_party = False,
       ar_sdk = False\<rparr>\<rparr>"

definition file_details :: link_details_dto where
  "file_details = (tree_details (LinkId ''f''))\<lparr>ld_file := Some example_file,
     ld_link := (tree_link (LinkId ''f''))\<lparr>l_type := 2, l_name_hash := Some ''hash''\<rparr>\<rparr>"

definition light_file :: node where
  "light_file = node_of (VolumeId ''v'') file_details (l_name (ld_link file_details)) (file_kind_of example_file nothing_claimed)
     None Admin None None NodeVerification_default"

text \<open>A serializer for the one entry the light build stores.\<close>

definition light_info :: cached_node_info where
  "light_info = \<lparr>cni_node = light_file, cni_membership_share_id = Some (ShareId ''x''), cni_name_hash_digest = ''hash''\<rparr>"

definition light_js :: "cached_node_info json_codec" where
  "light_js = \<lparr>js_to_string = (\<lambda>v. if v = light_info then Inr ''L'' else Inl ''unsupported''),
     js_from_str = (\<lambda>t. if t = ''L'' then Some light_info else None)\<rparr>"

definition light_env :: "(string, unit, lru_list in_memory_state, unit) node_env" where
  "light_env = nodes_on (drive_on (in_memory_repo list_lru) light_js)"

lemma light_build_runs:
  "\<exists>d1. build_node light_env (VolumeId ''v'') file_details ''r'' Light (drive_state_on example_cache) =
     Some (Inr light_file, d1) \<and> resolved_my_files_share_id d1 = Some (ShareId ''x'')"
proof -
  have "op_gives (build_node light_env (VolumeId ''v'') file_details ''r'' Light)
      (\<lambda>n d1. n = light_file \<and> resolved_my_files_share_id d1 = Some (ShareId ''x'')) (drive_state_on example_cache)"
    by code_simp
  then show ?thesis unfolding op_gives_iff by blast
qed

theorem light_build_shadows_full_witness:
  "\<exists>d1 d2 f. build_node light_env (VolumeId ''v'') file_details ''r'' Light (drive_state_on example_cache) =
       Some (Inr light_file, d1) \<and>
     get_node light_env (NodeUid_new (VolumeId ''v'') (LinkId ''f'')) d1 = Some (Inr (Some light_file), d2) \<and>
     n_kind light_file = KFile f \<and> fk_claimed_size f = None"
proof -
  obtain d1 where run: "build_node light_env (VolumeId ''v'') file_details ''r'' Light (drive_state_on example_cache) =
      Some (Inr light_file, d1)" "resolved_my_files_share_id d1 = Some (ShareId ''x'')" using light_build_runs by blast
  have env: "de_repo (ne_drive light_env) = in_memory_repo list_lru" "de_js (ne_drive light_env) = light_js"
    by (simp_all add: light_env_def nodes_on_def drive_on_def)
  have repo: "cache_repository (de_repo (ne_drive light_env)) (cache_ok lru_list_good lru_list_held) (\<lambda>s. lru_list_held (entries s))"
    unfolding env by (rule lru_cache.mem_repository [OF list_lru.lru_cache_axioms])
  have js: "codec_ok (de_js (ne_drive light_env))"
    unfolding env by (auto simp: codec_ok_def light_js_def utf8_string_def)
  have ok: "cache_ok lru_list_good lru_list_held (entities_of (drive_state_on example_cache))"
    by (simp add: entities_of_def drive_state_on_def example_cache_ok)
  have ty: "parsed_type (ld_link file_details) = LtFile" "l_name_hash (ld_link file_details) = Some ''hash''"
    "l_id (ld_link file_details) = LinkId ''f''"
    by (simp_all add: file_details_def parsed_type_def LinkType_from_raw_def tree_link_def)
  have set: "fst (set_node (de_repo (ne_drive light_env)) (de_js (ne_drive light_env)) (n_uid light_file) light_file
      (resolved_my_files_share_id d1) ''hash'' (entities_of (drive_state_on example_cache))) = Inr ()"
    unfolding env run(2) by (simp add: set_node_def set_json_def light_js_def light_info_def in_memory_repo_def cache_set_def
        Let_def split: prod.splits)
  from light_build_shadows_full [OF repo js ok run(1) ty(1,2) set] run(1) show ?thesis unfolding ty(3) by blast
qed

definition two_entity_repo :: "unit cache_repo" where
  "two_entity_repo = one_entity_repo\<lparr>rep_get := (\<lambda>key s. (Inr (
     if key = node_key (NodeUid_new (VolumeId ''v'') (LinkId ''p'')) then Some ''p''
     else if key = node_key (NodeUid_new (VolumeId ''v'') (LinkId ''r'')) then Some ''r'' else None), s))\<rparr>"

definition two_nodes :: "(string, unit, unit, unit) node_env" where
  "two_nodes = nodes_on (drive_on two_entity_repo \<lparr>js_to_string = (\<lambda>_. Inl ''unsupported''),
     js_from_str = (\<lambda>t. if t = ''p'' then Some tree_parent_info
                        else Some (info (NodeUid_new (VolumeId ''v'') (LinkId ''r''))))\<rparr>)"

lemma two_nodes_stay:
  "lookups_stay two_nodes {NodeUid_new (VolumeId ''v'') (LinkId ''p''), NodeUid_new (VolumeId ''v'') (LinkId ''r'')} (\<lambda>_. True)"
  by (auto simp: lookups_stay_def get_node_def cached_node_def on_entities_def try_get_node_def get_json_def two_nodes_def
      nodes_on_def drive_on_def two_entity_repo_def one_entity_repo_def tree_parent_info_def info_def example_node_def
      node_key_def NodeUid_display_def NodeUid_new_def op_bind_def)


definition named_details :: "link_id \<Rightarrow> link_details_dto" where
  "named_details i = (tree_details i)\<lparr>ld_folder := Some \<lparr>fo_hash_key = ''key'', fo_extended_attributes = None\<rparr>\<rparr>"

definition names_env :: "(string, unit, unit, unit) node_env" where
  "names_env = nodes_on (example_drive\<lparr>de_post_links := (\<lambda>_ ids. op_return (map named_details ids)),
     de_decrypt_message := (\<lambda>_ s. Inr (as_bytes s))\<rparr>)"


end
