(* ===== verification/Node_Ops.thy ===== *)
theory Node_Ops
  imports Node_Tree
begin

text \<open>
  Changing the tree (\<open>proton-drive-rs/src/client.rs\<close>): creating folders, renaming, moving
  and copying nodes, the batched moves with their single retry, and the trash family.  What
  these use of the crypto layer is part of the interface \<open>ops_env\<close>, provided by
  \<open>account_ops\<close>; a modification time is given by its rendering.
\<close>

section \<open>Wire types and the interface\<close>

record folder_creation_request =
  fcq_name :: string
  fcq_name_hash :: string
  fcq_parent_link_id :: link_id
  fcq_passphrase :: string
  fcq_passphrase_signature :: string
  fcq_key :: string
  fcq_node_hash_key :: string
  fcq_signature_email :: string
  fcq_extended_attributes :: "string option"

record rename_link_request =
  rlr_name :: string
  rlr_name_hash :: string
  rlr_name_signature_email :: string
  rlr_media_type :: "string option"
  rlr_original_hash :: string

record move_link_request =
  mlr_parent_link_id :: link_id
  mlr_passphrase :: string
  mlr_passphrase_signature :: "string option"
  mlr_name :: string
  mlr_name_signature_email :: string
  mlr_name_hash :: string
  mlr_original_hash :: string
  mlr_signature_email :: "string option"

record copy_link_request =
  clr_target_volume_id :: volume_id
  clr_target_parent_link_id :: link_id
  clr_passphrase :: string
  clr_passphrase_signature :: "string option"
  clr_signature_email :: "string option"
  clr_name :: string
  clr_name_signature_email :: string
  clr_name_hash :: string

record move_multiple_links_item =
  mmi_link_id :: link_id
  mmi_name :: string
  mmi_passphrase :: string
  mmi_name_hash :: string
  mmi_original_hash :: string
  mmi_passphrase_signature :: "string option"

record move_multiple_links_request =
  mmr_parent_link_id :: link_id
  mmr_links :: "move_multiple_links_item list"
  mmr_name_signature_email :: string
  mmr_signature_email :: "string option"

record link_id_response_pair =
  lrp_link_id :: link_id
  lrp_response :: api_response

datatype node_action = TrashAction | RestoreAction | DeleteAction

record ('k, 'p, 's, 'w) ops_env =
  no_nodes :: "('k, 'p, 's, 'w) node_env"
  no_generate_node_key :: "('k \<times> bytes \<times> string, 'w) op"
  no_generate_hash_key :: "'k \<Rightarrow> (string, 'w) op"
  no_encrypt_and_sign :: "'k \<Rightarrow> 'k \<Rightarrow> bytes \<Rightarrow> bool \<Rightarrow> bool \<Rightarrow> (string, 'w) op"
  no_encrypt :: "'k \<Rightarrow> bytes \<Rightarrow> (string, 'w) op"
  no_sign :: "'k \<Rightarrow> bytes \<Rightarrow> (string, 'w) op"
  no_rewrap :: "'k \<Rightarrow> string \<Rightarrow> 'k \<Rightarrow> (string, 'w) op"
  no_xattr_json :: "string \<Rightarrow> string + bytes"
  no_post_folder :: "string \<Rightarrow> folder_creation_request \<Rightarrow> (link_id, 'w) op"
  no_put_rename :: "string \<Rightarrow> rename_link_request \<Rightarrow> (unit, 'w) op"
  no_put_move :: "string \<Rightarrow> move_link_request \<Rightarrow> (unit, 'w) op"
  no_post_copy :: "string \<Rightarrow> copy_link_request \<Rightarrow> (link_id, 'w) op"
  no_put_moves :: "string \<Rightarrow> move_multiple_links_request \<Rightarrow> (link_id_response_pair list, 'w) op"
  no_put_links :: "string \<Rightarrow> link_id list \<Rightarrow> (link_id_response_pair list, 'w) op"
  no_post_links :: "string \<Rightarrow> link_id list \<Rightarrow> (link_id_response_pair list, 'w) op"
  no_delete :: "string \<Rightarrow> (unit, 'w) op"

definition no_drive :: "('k, 'p, 's, 'w) ops_env \<Rightarrow> ('k, 's, 'w) drive_env" where
  "no_drive E = ne_drive (no_nodes E)"

definition node_not_found :: "node_uid \<Rightarrow> proton_error" where
  "node_not_found uid = InvalidOperation (''node '' @ NodeUid_display uid @ '' not found'')"

text \<open>The single link a lookup of one node returns.\<close>

definition first_link ::
  "('k, 'p, 's, 'w) ops_env \<Rightarrow> node_uid \<Rightarrow> (link_dto, ('k, 's, 'w) drive) op" where
  "first_link E uid =
     op_bind (get_link_details (no_drive E) (uid_volume uid) [uid_link uid]) (\<lambda>links.
       op_ok_or (node_not_found uid) (case links of [] \<Rightarrow> None | d # _ \<Rightarrow> Some (ld_link d)))"

definition link_path :: "string \<Rightarrow> node_uid \<Rightarrow> string \<Rightarrow> string" where
  "link_path pre uid post =
     pre @ ''volumes/'' @ volume_id_str (uid_volume uid) @ ''/links/'' @ link_id_str (uid_link uid) @ post"

definition name_hash_of :: "('k, 'p, 's, 'w) ops_env \<Rightarrow> bytes \<Rightarrow> bytes \<Rightarrow> string" where
  "name_hash_of E hash_key name = ne_hmac_hex (no_nodes E) hash_key name"

section \<open>Folders\<close>

definition folder_attributes ::
  "('k, 'p, 's, 'w) ops_env \<Rightarrow> 'k \<Rightarrow> 'k \<Rightarrow> string option \<Rightarrow> (string option, ('k, 's, 'w) drive) op" where
  "folder_attributes E key signing_key modification_time =
     (case modification_time of
        None \<Rightarrow> op_return None
      | Some time \<Rightarrow>
          op_bind (op_of (map_sum (\<lambda>e. InvalidOperation (''serialize folder xattr: '' @ e)) id (no_xattr_json E time)))
            (\<lambda>json. op_bind (on_world (no_encrypt_and_sign E key signing_key json False True)) (\<lambda>x. op_return (Some x))))"

definition create_folder ::
  "('k, 'p, 's, 'w) ops_env \<Rightarrow> node_uid \<Rightarrow> string \<Rightarrow> string option \<Rightarrow> (node_uid, ('k, 's, 'w) drive) op" where
  "create_folder E parent name modification_time =
     op_then (op_of (validate_node_name name))
     (op_bind (folder_node_key (no_drive E) parent) (\<lambda>parent_key.
      op_bind (parent_hash_key (no_drive E) parent parent_key) (\<lambda>hash_key.
      op_bind (membership_address (no_drive E)) (\<lambda>(_, email, signing_key).
      op_bind (on_world (no_generate_node_key E)) (\<lambda>(key, passphrase, locked).
      op_bind (on_world (no_generate_hash_key E key)) (\<lambda>node_hash_key.
      op_bind (on_world (no_encrypt_and_sign E parent_key signing_key (as_bytes name) True False)) (\<lambda>encrypted_name.
      op_bind (on_world (no_encrypt E parent_key passphrase)) (\<lambda>encrypted_passphrase.
      op_bind (on_world (no_sign E signing_key passphrase)) (\<lambda>signature.
      op_bind (folder_attributes E key signing_key modification_time) (\<lambda>attributes.
      op_bind (on_world (no_post_folder E (''v2/volumes/'' @ volume_id_str (uid_volume parent) @ ''/folders'')
        \<lparr>fcq_name = encrypted_name, fcq_name_hash = name_hash_of E hash_key (as_bytes name),
         fcq_parent_link_id = uid_link parent, fcq_passphrase = encrypted_passphrase,
         fcq_passphrase_signature = signature, fcq_key = locked, fcq_node_hash_key = node_hash_key,
         fcq_signature_email = email, fcq_extended_attributes = attributes\<rparr>)) (\<lambda>link_id.
        op_return (NodeUid_new (uid_volume parent) link_id))))))))))))"

fun create_folders ::
  "('k, 'p, 's, 'w) ops_env \<Rightarrow> node_uid \<Rightarrow> string list \<Rightarrow> (node_uid, ('k, 's, 'w) drive) op" where
  "create_folders E current [] = op_return current"
| "create_folders E current (segment # segments) =
     op_bind (find_existing_folder (no_nodes E) current segment) (\<lambda>found.
     case found of
       Some existing \<Rightarrow> create_folders E existing segments
     | None \<Rightarrow>
         op_bind (op_try (create_folder E current segment None)) (\<lambda>r.
         case r of
           Inr uid \<Rightarrow> create_folders E uid segments
         | Inl e \<Rightarrow>
             op_bind (find_existing_folder (no_nodes E) current segment) (\<lambda>again.
             case again of Some existing \<Rightarrow> create_folders E existing segments | None \<Rightarrow> op_fail e)))"

definition create_folder_path ::
  "('k, 'p, 's, 'w) ops_env \<Rightarrow> node_uid \<Rightarrow> string \<Rightarrow> (node_uid, ('k, 's, 'w) drive) op" where
  "create_folder_path E root_uid path = create_folders E root_uid (path_segments path)"

section \<open>Renaming\<close>

definition cached_original_name_hash ::
  "('k, 'p, 's, 'w) ops_env \<Rightarrow> node_uid \<Rightarrow> link_dto \<Rightarrow> (string option, ('k, 's, 'w) drive) op" where
  "cached_original_name_hash E uid link =
     op_bind (cached_node (no_nodes E) uid) (\<lambda>hit.
       op_return (case hit of
         Some ci \<Rightarrow> if cni_name_hash_digest ci \<noteq> [] then Some (cni_name_hash_digest ci) else l_name_hash link
       | None \<Rightarrow> l_name_hash link))"

definition original_name_hash ::
  "('k, 'p, 's, 'w) ops_env \<Rightarrow> node_uid \<Rightarrow> link_dto \<Rightarrow> 'k \<Rightarrow> bytes \<Rightarrow> (string, ('k, 's, 'w) drive) op" where
  "original_name_hash E uid link parent_key hash_key =
     op_bind (cached_original_name_hash E uid link) (\<lambda>cached.
     case cached of
       Some h \<Rightarrow> op_return h
     | None \<Rightarrow>
         op_bind (op_of (de_decrypt_message (no_drive E) parent_key (l_name link))) (\<lambda>name.
           op_return (name_hash_of E hash_key name)))"

definition rename_node ::
  "('k, 'p, 's, 'w) ops_env \<Rightarrow> node_uid \<Rightarrow> string \<Rightarrow> string option \<Rightarrow> (unit, ('k, 's, 'w) drive) op" where
  "rename_node E uid new_name media_type =
     op_then (op_of (validate_node_name new_name))
     (op_bind (first_link E uid) (\<lambda>link.
      op_bind (op_ok_or (InvalidOperation ''cannot rename the root node'') (l_parent_id link)) (\<lambda>parent_id.
      let parent = NodeUid_new (uid_volume uid) parent_id in
      op_bind (folder_node_key (no_drive E) parent) (\<lambda>parent_key.
      op_bind (parent_hash_key (no_drive E) parent parent_key) (\<lambda>hash_key.
      op_bind (membership_address (no_drive E)) (\<lambda>(_, email, signing_key).
      op_bind (original_name_hash E uid link parent_key hash_key) (\<lambda>original_hash.
      op_bind (on_world (no_encrypt_and_sign E parent_key signing_key (as_bytes new_name) True False)) (\<lambda>encrypted_name.
        on_world (no_put_rename E (link_path ''v2/'' uid ''/rename'')
          \<lparr>rlr_name = encrypted_name, rlr_name_hash = name_hash_of E hash_key (as_bytes new_name),
           rlr_name_signature_email = email, rlr_media_type = media_type, rlr_original_hash = original_hash\<rparr>)))))))))"

section \<open>Moving and copying\<close>

record move_parts =
  mp_passphrase :: string
  mp_encrypted_name :: string
  mp_name_hash :: string
  mp_original_hash :: string
  mp_anonymous_signature :: "string option"
  mp_current_name :: bytes

definition is_anonymous :: "link_dto \<Rightarrow> bool" where
  "is_anonymous link = (case l_signature_email link of None \<Rightarrow> True | Some e \<Rightarrow> e = [])"

definition build_move_parts ::
  "('k, 'p, 's, 'w) ops_env \<Rightarrow> node_uid \<Rightarrow> link_dto \<Rightarrow> string option \<Rightarrow> 'k \<Rightarrow> bytes \<Rightarrow> 'k
     \<Rightarrow> (move_parts, ('k, 's, 'w) drive) op" where
  "build_move_parts E uid link target_name dest_key dest_hash_key signing_key =
     op_bind (op_ok_or (InvalidOperation ''cannot move the root node'') (l_parent_id link)) (\<lambda>parent_id.
     let source = NodeUid_new (uid_volume uid) parent_id in
     op_bind (folder_node_key (no_drive E) source) (\<lambda>source_key.
     op_bind (parent_hash_key (no_drive E) source source_key) (\<lambda>source_hash_key.
     op_bind (op_of (de_decrypt_message (no_drive E) source_key (l_name link))) (\<lambda>current_name.
     op_bind (original_name_hash E uid link source_key source_hash_key) (\<lambda>original_hash.
     op_bind (on_world (no_rewrap E source_key (l_passphrase link) dest_key)) (\<lambda>passphrase.
     op_bind (if is_anonymous link
              then op_bind (op_of (de_decrypt_message (no_drive E) source_key (l_passphrase link))) (\<lambda>plaintext.
                   op_bind (on_world (no_sign E signing_key plaintext)) (\<lambda>s. op_return (Some s)))
              else op_return None) (\<lambda>anonymous_signature.
     let name = (case target_name of Some n \<Rightarrow> as_bytes n | None \<Rightarrow> current_name) in
     op_bind (on_world (no_encrypt_and_sign E dest_key signing_key name True False)) (\<lambda>encrypted_name.
       op_return \<lparr>mp_passphrase = passphrase, mp_encrypted_name = encrypted_name,
         mp_name_hash = name_hash_of E dest_hash_key name, mp_original_hash = original_hash,
         mp_anonymous_signature = anonymous_signature, mp_current_name = current_name\<rparr>))))))))"

text \<open>A request that changes contexts: the mappings are dropped before and after it.\<close>

definition run_context_share_mutation :: "('a, 'w) op \<Rightarrow> ('a, ('k, 's, 'w) drive) op" where
  "run_context_share_mutation request =
     op_then (op_modify (set_drive_cache clear_context_shares))
     (op_bind (op_try (on_world request)) (\<lambda>r.
      op_then (op_modify (set_drive_cache clear_context_shares)) (op_of r)))"

definition move_node ::
  "('k, 'p, 's, 'w) ops_env \<Rightarrow> node_uid \<Rightarrow> node_uid \<Rightarrow> (unit, ('k, 's, 'w) drive) op" where
  "move_node E uid new_parent =
     (if uid_volume uid \<noteq> uid_volume new_parent
      then op_fail (InvalidOperation ''cross-volume move is not supported'')
      else
        op_bind (first_link E uid) (\<lambda>link.
        op_bind (folder_node_key (no_drive E) new_parent) (\<lambda>dest_key.
        op_bind (parent_hash_key (no_drive E) new_parent dest_key) (\<lambda>dest_hash_key.
        op_bind (membership_address (no_drive E)) (\<lambda>(_, email, signing_key).
        op_bind (build_move_parts E uid link None dest_key dest_hash_key signing_key) (\<lambda>parts.
          run_context_share_mutation (no_put_move E (link_path ''v2/'' uid ''/move'')
            \<lparr>mlr_parent_link_id = uid_link new_parent, mlr_passphrase = mp_passphrase parts,
             mlr_passphrase_signature = mp_anonymous_signature parts, mlr_name = mp_encrypted_name parts,
             mlr_name_signature_email = email, mlr_name_hash = mp_name_hash parts,
             mlr_original_hash = mp_original_hash parts,
             mlr_signature_email = map_option (\<lambda>_. email) (mp_anonymous_signature parts)\<rparr>)))))))"

definition copy_node ::
  "('k, 'p, 's, 'w) ops_env \<Rightarrow> node_uid \<Rightarrow> node_uid \<Rightarrow> string option \<Rightarrow> (node_uid, ('k, 's, 'w) drive) op" where
  "copy_node E uid new_parent name =
     op_then (case name of Some n \<Rightarrow> op_of (validate_node_name n) | None \<Rightarrow> op_return ())
     (op_bind (first_link E uid) (\<lambda>link.
      op_bind (folder_node_key (no_drive E) new_parent) (\<lambda>dest_key.
      op_bind (parent_hash_key (no_drive E) new_parent dest_key) (\<lambda>dest_hash_key.
      op_bind (membership_address (no_drive E)) (\<lambda>(_, email, signing_key).
      op_bind (build_move_parts E uid link name dest_key dest_hash_key signing_key) (\<lambda>parts.
      op_bind (on_world (no_post_copy E (link_path [] uid ''/copy'')
        \<lparr>clr_target_volume_id = uid_volume new_parent, clr_target_parent_link_id = uid_link new_parent,
         clr_passphrase = mp_passphrase parts, clr_passphrase_signature = mp_anonymous_signature parts,
         clr_signature_email = map_option (\<lambda>_. email) (mp_anonymous_signature parts),
         clr_name = mp_encrypted_name parts, clr_name_signature_email = email,
         clr_name_hash = mp_name_hash parts\<rparr>)) (\<lambda>link_id.
        op_return (NodeUid_new (uid_volume new_parent) link_id))))))))"

section \<open>Batched moves\<close>

record prepared_move =
  pm_uid :: node_uid
  pm_item :: move_multiple_links_item
  pm_source_parent :: "link_id option"
  pm_current_name :: bytes
  pm_anonymous :: bool
  pm_retried :: bool

type_synonym move_outcome = "node_uid \<times> unit result"

record move_run =
  mr_parent :: node_uid
  mr_email :: string
  mr_queue :: "prepared_move list"
  mr_outcomes :: "move_outcome list"

fun screen_moves ::
  "node_uid \<Rightarrow> node_move_item list \<Rightarrow> link_id set \<Rightarrow> move_outcome list \<Rightarrow> node_move_item list
     \<Rightarrow> move_outcome list \<times> node_move_item list" where
  "screen_moves parent [] seen outcomes targets = (outcomes, targets)"
| "screen_moves parent (item # items) seen outcomes targets =
     (let uid = nmi_uid item in
      if uid_volume uid \<noteq> uid_volume parent then
        screen_moves parent items seen (outcomes @ [(uid, Inl (InvalidOperation ''cross-volume move is not supported''))]) targets
      else
        (case map_option validate_node_name (nmi_target_name item) of
           Some (Inl e) \<Rightarrow> screen_moves parent items seen (outcomes @ [(uid, Inl e)]) targets
         | _ \<Rightarrow>
             if uid_link uid \<in> seen then
               screen_moves parent items seen (outcomes @ [(uid, Inl (InvalidOperation
                 (''node '' @ NodeUid_display uid @ '' is listed more than once in one move'')))]) targets
             else screen_moves parent items (insert (uid_link uid) seen) outcomes (targets @ [item])))"

fun fetch_links ::
  "('k, 'p, 's, 'w) ops_env \<Rightarrow> volume_id \<Rightarrow> link_id list list \<Rightarrow> (link_id \<rightharpoonup> link_dto)
     \<Rightarrow> (link_id \<rightharpoonup> link_dto, ('k, 's, 'w) drive) op" where
  "fetch_links E vid [] links = op_return links"
| "fetch_links E vid (chunk # later) links =
     op_bind (get_link_details (no_drive E) vid chunk) (\<lambda>details.
       fetch_links E vid later (links ++ links_by_id details))"

definition prepared_of :: "node_uid \<Rightarrow> link_dto \<Rightarrow> move_parts \<Rightarrow> prepared_move" where
  "prepared_of uid link parts =
     \<lparr>pm_uid = uid,
      pm_item = \<lparr>mmi_link_id = uid_link uid, mmi_name = mp_encrypted_name parts,
        mmi_passphrase = mp_passphrase parts, mmi_name_hash = mp_name_hash parts,
        mmi_original_hash = mp_original_hash parts, mmi_passphrase_signature = mp_anonymous_signature parts\<rparr>,
      pm_source_parent = l_parent_id link, pm_current_name = mp_current_name parts,
      pm_anonymous = (mp_anonymous_signature parts \<noteq> None), pm_retried = False\<rparr>"

fun prepare_targets ::
  "('k, 'p, 's, 'w) ops_env \<Rightarrow> 'k \<Rightarrow> bytes \<Rightarrow> 'k \<Rightarrow> (link_id \<rightharpoonup> link_dto) \<Rightarrow> node_move_item list \<Rightarrow> move_run
     \<Rightarrow> (move_run, ('k, 's, 'w) drive) op" where
  "prepare_targets E dest_key dest_hash_key signing_key links [] run = op_return run"
| "prepare_targets E dest_key dest_hash_key signing_key links (item # items) run =
     (let uid = nmi_uid item; next = prepare_targets E dest_key dest_hash_key signing_key links items;
          failed = (\<lambda>e. next (run\<lparr>mr_outcomes := mr_outcomes run @ [(uid, Inl e)]\<rparr>)) in
      case links (uid_link uid) of
        None \<Rightarrow> failed (node_not_found uid)
      | Some link \<Rightarrow>
          op_bind (op_try (build_move_parts E uid link (nmi_target_name item) dest_key dest_hash_key signing_key)) (\<lambda>r.
          case r of
            Inl e \<Rightarrow> failed e
          | Inr parts \<Rightarrow>
              next (run\<lparr>mr_queue := mr_queue run @
                [prepared_of uid link parts]\<rparr>)))"

definition prepare_moves ::
  "('k, 'p, 's, 'w) ops_env \<Rightarrow> node_move_item list \<Rightarrow> node_uid \<Rightarrow> (move_run, ('k, 's, 'w) drive) op" where
  "prepare_moves E items parent =
     (case screen_moves parent items {} [] [] of (outcomes, targets) \<Rightarrow>
      let run = \<lparr>mr_parent = parent, mr_email = [], mr_queue = [], mr_outcomes = outcomes\<rparr> in
      if targets = [] then op_return run
      else
        op_bind (folder_node_key (no_drive E) parent) (\<lambda>dest_key.
        op_bind (parent_hash_key (no_drive E) parent dest_key) (\<lambda>dest_hash_key.
        op_bind (membership_address (no_drive E)) (\<lambda>(_, email, signing_key).
        op_bind (fetch_links E (uid_volume parent)
                   (chunks MAX_BATCH_COUNT (map (\<lambda>i. uid_link (nmi_uid i)) targets)) Map.empty) (\<lambda>links.
          prepare_targets E dest_key dest_hash_key signing_key links targets (run\<lparr>mr_email := email\<rparr>))))))"

fun partition_batch :: "bool \<Rightarrow> nat \<Rightarrow> prepared_move list \<Rightarrow> prepared_move list \<times> prepared_move list" where
  "partition_batch anonymous taken [] = ([], [])"
| "partition_batch anonymous taken (p # ps) =
     (if taken < MAX_BATCH_COUNT \<and> pm_anonymous p = anonymous
      then (case partition_batch anonymous (taken + 1) ps of (batch, rest) \<Rightarrow> (p # batch, rest))
      else (case partition_batch anonymous taken ps of (batch, rest) \<Rightarrow> (batch, p # rest)))"

definition take_move_batch :: "prepared_move list \<Rightarrow> prepared_move list \<times> prepared_move list" where
  "take_move_batch queue =
     (case queue of [] \<Rightarrow> ([], []) | p # _ \<Rightarrow> partition_batch (pm_anonymous p) 0 queue)"

definition outcome_of_response :: "api_response \<Rightarrow> unit result" where
  "outcome_of_response r =
     (if ApiResponse_is_success r then Inr ()
      else Inl (Api \<lparr>ae_code = resp_code r, ae_http_status = 200,
             ae_message = (case resp_error_message r of Some m \<Rightarrow> m | None \<Rightarrow> []), ae_details = resp_details r\<rparr>))"

definition aggregate_outcomes :: "link_id_response_pair list \<Rightarrow> (link_id \<times> unit result) list" where
  "aggregate_outcomes responses = map (\<lambda>p. (lrp_link_id p, outcome_of_response (lrp_response p))) responses"

definition remote_original_hash ::
  "('k, 'p, 's, 'w) ops_env \<Rightarrow> prepared_move \<Rightarrow> (string, ('k, 's, 'w) drive) op" where
  "remote_original_hash E p =
     (let uid = pm_uid p;
          out_of_sync = InvalidOperation (''node '' @ NodeUid_display uid @ '' changed while it was being moved'') in
      op_bind (first_link E uid) (\<lambda>link.
      case (l_parent_id link, l_name_hash link) of
        (Some parent_id, Some h) \<Rightarrow>
          if Some parent_id \<noteq> pm_source_parent p \<or> h = [] then op_fail out_of_sync
          else
            op_bind (folder_node_key (no_drive E) (NodeUid_new (uid_volume uid) parent_id)) (\<lambda>parent_key.
            op_bind (op_of (de_decrypt_message (no_drive E) parent_key (l_name link))) (\<lambda>name.
              if name \<noteq> pm_current_name p then op_fail out_of_sync else op_return h))
      | _ \<Rightarrow> op_fail out_of_sync))"

definition wants_retry :: "unit result \<Rightarrow> prepared_move \<Rightarrow> bool" where
  "wants_retry outcome p =
     (case outcome of Inl (Api e) \<Rightarrow> ae_code e = InvalidRequirements \<and> \<not> pm_retried p | _ \<Rightarrow> False)"

fun record_batch ::
  "('k, 'p, 's, 'w) ops_env \<Rightarrow> prepared_move list \<Rightarrow> (link_id \<rightharpoonup> unit result) \<Rightarrow> move_run
     \<Rightarrow> (move_run, ('k, 's, 'w) drive) op" where
  "record_batch E [] per_link run = op_return run"
| "record_batch E (p # ps) per_link run =
     (let uid = pm_uid p; next = record_batch E ps (per_link(uid_link uid := None));
          report = (\<lambda>r. next (run\<lparr>mr_outcomes := mr_outcomes run @ [(uid, r)]\<rparr>)) in
      case per_link (uid_link uid) of
        None \<Rightarrow> report (Inl (InvalidOperation (''move returned no response for node '' @ NodeUid_display uid)))
      | Some outcome \<Rightarrow>
          if wants_retry outcome p then
            op_bind (op_try (remote_original_hash E p)) (\<lambda>r.
            case r of
              Inl e \<Rightarrow> report (Inl e)
            | Inr h \<Rightarrow>
                next (run\<lparr>mr_queue := mr_queue run @
                  [p\<lparr>pm_item := (pm_item p)\<lparr>mmi_original_hash := h\<rparr>, pm_retried := True\<rparr>]\<rparr>))
          else report outcome)"

definition charged_error :: "('k, 'p, 's, 'w) ops_env \<Rightarrow> proton_error \<Rightarrow> proton_error" where
  "charged_error E e = (case e of Api a \<Rightarrow> Api a | _ \<Rightarrow> InvalidOperation (de_display (no_drive E) e))"

definition move_batch_request :: "move_run \<Rightarrow> prepared_move list \<Rightarrow> move_multiple_links_request" where
  "move_batch_request run batch =
     \<lparr>mmr_parent_link_id = uid_link (mr_parent run), mmr_links = map pm_item batch,
      mmr_name_signature_email = mr_email run,
      mmr_signature_email = (case batch of p # _ \<Rightarrow> if pm_anonymous p then Some (mr_email run) else None | [] \<Rightarrow> None)\<rparr>"

definition submit_move_batch ::
  "('k, 'p, 's, 'w) ops_env \<Rightarrow> move_run \<Rightarrow> prepared_move list \<Rightarrow> (move_run, ('k, 's, 'w) drive) op" where
  "submit_move_batch E run batch =
     op_bind (op_try (run_context_share_mutation (no_put_moves E
       (''volumes/'' @ volume_id_str (uid_volume (mr_parent run)) @ ''/links/move-multiple'')
       (move_batch_request run batch)))) (\<lambda>r.
     case r of
       Inl e \<Rightarrow> op_return (run\<lparr>mr_outcomes := mr_outcomes run @ map (\<lambda>p. (pm_uid p, Inl (charged_error E e))) batch\<rparr>)
     | Inr responses \<Rightarrow> record_batch E batch (map_of (rev (aggregate_outcomes responses))) run)"

partial_function (option) submit_moves ::
  "('k, 'p, 's, 'w) ops_env \<Rightarrow> move_run \<Rightarrow> move_outcome list \<Rightarrow> ('k, 's, 'w) drive
     \<Rightarrow> (move_outcome list result \<times> ('k, 's, 'w) drive) option" where
  [code]: "submit_moves E run yielded d =
     (case mr_outcomes run of
        out # outs \<Rightarrow> submit_moves E (run\<lparr>mr_outcomes := outs\<rparr>) (yielded @ [out]) d
      | [] \<Rightarrow>
          (case take_move_batch (mr_queue run) of (batch, rest) \<Rightarrow>
             if batch = [] then Some (Inr yielded, d)
             else op_bind (submit_move_batch E (run\<lparr>mr_queue := rest\<rparr>) batch)
                    (\<lambda>run'. submit_moves E run' yielded) d))"

definition move_nodes_streaming ::
  "('k, 'p, 's, 'w) ops_env \<Rightarrow> node_move_item list \<Rightarrow> node_uid \<Rightarrow> (move_outcome list, ('k, 's, 'w) drive) op" where
  "move_nodes_streaming E items parent = op_bind (prepare_moves E items parent) (\<lambda>run. submit_moves E run [])"

fun collate_outcomes ::
  "(proton_error \<Rightarrow> string) \<Rightarrow> node_uid list \<Rightarrow> (node_uid \<rightharpoonup> unit result) \<Rightarrow> (node_uid \<rightharpoonup> string option)
     \<Rightarrow> move_outcome list" where
  "collate_outcomes disp [] outcomes repeats = []"
| "collate_outcomes disp (uid # uids) outcomes repeats =
     (case outcomes uid of
        Some r \<Rightarrow> (uid, r) # collate_outcomes disp uids (outcomes(uid := None))
                   (repeats(uid \<mapsto> (case r of Inl e \<Rightarrow> Some (disp e) | Inr _ \<Rightarrow> None)))
      | None \<Rightarrow>
          (uid, case repeats uid of
                  Some None \<Rightarrow> Inr ()
                | Some (Some m) \<Rightarrow> Inl (InvalidOperation m)
                | None \<Rightarrow> Inl (InvalidOperation (''move produced no outcome for node '' @ NodeUid_display uid)))
          # collate_outcomes disp uids outcomes repeats)"

definition move_nodes ::
  "('k, 'p, 's, 'w) ops_env \<Rightarrow> node_uid list \<Rightarrow> node_uid \<Rightarrow> (move_outcome list, ('k, 's, 'w) drive) op" where
  "move_nodes E uids parent =
     op_bind (move_nodes_streaming E (map (\<lambda>u. \<lparr>nmi_uid = u, nmi_target_name = None\<rparr>) (rev (remdups (rev uids)))) parent) (\<lambda>outcomes.
       op_return (collate_outcomes (de_display (no_drive E)) uids (map_of (rev outcomes)) Map.empty))"

section \<open>The trash\<close>

fun NodeAction_path :: "node_action \<Rightarrow> volume_id \<Rightarrow> string" where
  "NodeAction_path TrashAction vid = ''v2/volumes/'' @ volume_id_str vid @ ''/trash_multiple''"
| "NodeAction_path RestoreAction vid = ''v2/volumes/'' @ volume_id_str vid @ ''/trash/restore_multiple''"
| "NodeAction_path DeleteAction vid = ''v2/volumes/'' @ volume_id_str vid @ ''/trash/delete_multiple''"

definition action_batches :: "node_uid list \<Rightarrow> (volume_id \<times> link_id list) list" where
  "action_batches uids =
     concat (map (\<lambda>(vid, ids). map (\<lambda>c. (vid, c)) (chunks MAX_BATCH_COUNT ids)) (group_by_volume uids))"

fun node_actions ::
  "('k, 'p, 's, 'w) ops_env \<Rightarrow> node_action \<Rightarrow> (volume_id \<times> link_id list) list \<Rightarrow> (move_outcome list, ('k, 's, 'w) drive) op" where
  "node_actions E action [] = op_return []"
| "node_actions E action ((vid, ids) # batches) =
     op_bind (on_world ((if action = RestoreAction then no_put_links E else no_post_links E) (NodeAction_path action vid) ids))
       (\<lambda>responses.
     op_bind (node_actions E action batches) (\<lambda>rest.
       op_return (map (\<lambda>(i, r). (NodeUid_new vid i, r)) (aggregate_outcomes responses) @ rest)))"

definition node_action_stream ::
  "('k, 'p, 's, 'w) ops_env \<Rightarrow> node_action \<Rightarrow> node_uid list \<Rightarrow> (move_outcome list, ('k, 's, 'w) drive) op" where
  "node_action_stream E action uids = node_actions E action (action_batches uids)"

definition trash_nodes ::
  "('k, 'p, 's, 'w) ops_env \<Rightarrow> node_uid list \<Rightarrow> (move_outcome list, ('k, 's, 'w) drive) op" where
  "trash_nodes E uids = node_action_stream E TrashAction uids"

definition restore_nodes ::
  "('k, 'p, 's, 'w) ops_env \<Rightarrow> node_uid list \<Rightarrow> (move_outcome list, ('k, 's, 'w) drive) op" where
  "restore_nodes E uids = node_action_stream E RestoreAction uids"

definition delete_nodes ::
  "('k, 'p, 's, 'w) ops_env \<Rightarrow> node_uid list \<Rightarrow> (move_outcome list, ('k, 's, 'w) drive) op" where
  "delete_nodes E uids = node_action_stream E DeleteAction uids"

definition empty_trash :: "('k, 'p, 's, 'w) ops_env \<Rightarrow> (unit, ('k, 's, 'w) drive) op" where
  "empty_trash E =
     op_bind (drive_main_volume_id (no_drive E)) (\<lambda>vid.
       on_world (no_delete E (''volumes/'' @ volume_id_str vid @ ''/trash'')))"

section \<open>The provider\<close>

definition account_ops ::
  "('sk, 'pub, 'sig, 'msg, 'w) account_env \<Rightarrow> ('sk, 'pub, 'ek, 'pk, 'sd, 'w) pgp_lib \<Rightarrow> ('sk, 'ek, 'sg, 'w) write_lib
     \<Rightarrow> xattr_decoder \<Rightarrow> ('sk private_key, 'pub, 's, ('sk, 'pub, 'w) account) ops_env
     \<Rightarrow> ('sk private_key, 'pub, 's, ('sk, 'pub, 'w) account) ops_env" where
  "account_ops A L W js endpoints =
     endpoints
       \<lparr>no_nodes := account_nodes A L W js (no_nodes endpoints),
        no_generate_node_key := op_bind (account_gen (generate_node_key (ae_rpgp A) W))
          (\<lambda>g. op_return (gk_key g, gk_passphrase g, gk_locked_armored g)),
        no_generate_hash_key := (\<lambda>k. account_gen (generate_node_hash_key L W k)),
        no_encrypt_and_sign := (\<lambda>k s b txt z. account_gen (encrypt_and_sign L W (pk_key k) (Some s) b txt z)),
        no_encrypt := (\<lambda>k b. account_gen (encrypt L W k b)),
        no_sign := (\<lambda>k b. account_gen (sign_detached W k b)),
        no_rewrap := (\<lambda>k m dest. account_gen (rewrap_message_to L k m dest))\<rparr>"

section \<open>Batches\<close>

lemma partition_batch_spec:
  "partition_batch anonymous taken queue =
     (take (MAX_BATCH_COUNT - taken) (filter (\<lambda>p. pm_anonymous p = anonymous) queue), snd (partition_batch anonymous taken queue))"
proof (induction queue arbitrary: taken)
  case (Cons p ps)
  show ?case
  proof (cases "taken < MAX_BATCH_COUNT \<and> pm_anonymous p = anonymous")
    case True
    then have "MAX_BATCH_COUNT - taken = Suc (MAX_BATCH_COUNT - (taken + 1))" by arith
    then show ?thesis using True Cons.IH [of "taken + 1"] by (auto split: prod.splits)
  next
    case False
    then show ?thesis using Cons.IH [of taken] by (auto split: prod.splits)
  qed
qed simp

lemma partition_batch_mset:
  "partition_batch anonymous taken queue = (batch, rest) \<Longrightarrow> mset queue = mset batch + mset rest"
  by (induction queue arbitrary: taken batch rest) (auto split: if_splits prod.splits)

lemma partition_batch_rest:
  "partition_batch anonymous taken queue = (batch, rest) \<Longrightarrow>
     filter (\<lambda>p. pm_anonymous p \<noteq> anonymous) rest = filter (\<lambda>p. pm_anonymous p \<noteq> anonymous) queue"
  by (induction queue arbitrary: taken batch rest) (auto split: if_splits prod.splits)

lemma take_move_batch_mset: "take_move_batch queue = (batch, rest) \<Longrightarrow> mset queue = mset batch + mset rest"
  unfolding take_move_batch_def by (cases queue) (auto simp del: partition_batch.simps dest: partition_batch_mset)

lemma take_move_batch_Nil: "take_move_batch queue = ([], rest) \<longleftrightarrow> queue = [] \<and> rest = []"
  by (auto simp: take_move_batch_def MAX_BATCH_COUNT_def split: list.splits prod.splits)

section \<open>Every item gets one outcome\<close>

text \<open>The nodes a run still owes an outcome for, and how often its queue can still be sent.\<close>

definition run_uids :: "move_run \<Rightarrow> node_uid multiset" where
  "run_uids run = mset (map fst (mr_outcomes run)) + mset (map pm_uid (mr_queue run))"

definition sends_left :: "prepared_move list \<Rightarrow> nat" where
  "sends_left ps = sum_list (map (\<lambda>p. if pm_retried p then 1 else 2) ps)"

lemma sends_left_simps [simp]:
  "sends_left [] = 0" "sends_left (p # ps) = (if pm_retried p then 1 else 2) + sends_left ps"
  "sends_left (ps @ qs) = sends_left ps + sends_left qs"
  by (simp_all add: sends_left_def)

lemma sends_left_mset: "mset ps = mset qs + mset rs \<Longrightarrow> sends_left ps = sends_left qs + sends_left rs"
proof -
  assume "mset ps = mset qs + mset rs"
  then have "sum_mset (image_mset (\<lambda>p. if pm_retried p then 1 else 2) (mset ps)) =
      (sum_mset (image_mset (\<lambda>p. if pm_retried p then 1 else 2) (mset qs + mset rs)) :: nat)" by simp
  then show ?thesis unfolding sends_left_def by (simp add: sum_mset_sum_list flip: mset_map)
qed

lemma screen_moves_uids:
  "screen_moves parent items seen outcomes targets = (outcomes', targets') \<Longrightarrow>
     mset (map fst outcomes') + mset (map nmi_uid targets') =
       mset (map fst outcomes) + mset (map nmi_uid targets) + mset (map nmi_uid items)"
  by (induction parent items seen outcomes targets rule: screen_moves.induct)
     (auto simp: Let_def split: if_splits option.splits sum.splits)

lemma prepare_targets_uids:
  "prepare_targets E dest_key dest_hash_key signing_key links items run d = Some (Inr run', d') \<Longrightarrow>
     run_uids run' = run_uids run + mset (map nmi_uid items)"
proof (induction items arbitrary: run d)
  case (Cons item items)
  note IH = Cons.IH
  show ?case
  proof (cases "links (uid_link (nmi_uid item))")
    case None
    then show ?thesis using Cons.prems IH by (fastforce simp: run_uids_def Let_def)
  next
    case (Some link)
    then obtain q d1 where "(case q of Inl e \<Rightarrow> prepare_targets E dest_key dest_hash_key signing_key links items
          (run\<lparr>mr_outcomes := mr_outcomes run @ [(nmi_uid item, Inl e)]\<rparr>)
        | Inr parts \<Rightarrow> prepare_targets E dest_key dest_hash_key signing_key links items
            (run\<lparr>mr_queue := mr_queue run @ [prepared_of (nmi_uid item) link parts]\<rparr>)) d1 = Some (Inr run', d')"
      using Cons.prems by (fastforce simp: op_bind_Inr op_try_Some Let_def)
    then show ?thesis using IH by (cases q) (fastforce simp: run_uids_def prepared_of_def)+
  qed
qed simp

lemma prepare_moves_uids:
  assumes "prepare_moves E items parent d = Some (Inr run, d')"
  shows "run_uids run = mset (map nmi_uid items)"
proof -
  obtain outcomes targets where s: "screen_moves parent items {} [] [] = (outcomes, targets)" by fastforce
  have u: "mset (map fst outcomes) + mset (map nmi_uid targets) = mset (map nmi_uid items)"
    using screen_moves_uids [OF s] by simp
  show ?thesis
  proof (cases "targets = []")
    case True
    then show ?thesis using assms s u by (auto simp: prepare_moves_def Let_def run_uids_def)
  next
    case False
    then show ?thesis using assms s u
      by (auto simp: prepare_moves_def Let_def op_bind_Inr run_uids_def dest!: prepare_targets_uids)
  qed
qed

text \<open>What recording a batch leaves: its nodes are owed as before, and each was sent once more.\<close>

definition batch_recorded :: "prepared_move list \<Rightarrow> move_run \<Rightarrow> move_run result \<Rightarrow> bool" where
  "batch_recorded batch run r \<longleftrightarrow>
     (\<exists>run'. r = Inr run' \<and> run_uids run' = run_uids run + mset (map pm_uid batch) \<and>
        sends_left (mr_queue run') + length batch \<le> sends_left (mr_queue run) + sends_left batch)"

lemma record_batch_recorded:
  assumes lookup: "\<And>p. op_returns P (remote_original_hash E p)" and "P d"
  shows "op_wp (record_batch E batch per_link run) (\<lambda>r d'. P d' \<and> batch_recorded batch run r) d"
  using assms(2)
proof (induction batch arbitrary: per_link run d)
  case Nil
  then show ?case by (simp only: record_batch.simps wp) (simp add: batch_recorded_def)
next
  case (Cons p ps)
  let ?links = "per_link(uid_link (pm_uid p) := None)"
  have report: "op_wp (record_batch E ps ?links (run\<lparr>mr_outcomes := mr_outcomes run @ [(pm_uid p, r)]\<rparr>))
      (\<lambda>r d'. P d' \<and> batch_recorded (p # ps) run r) e" if "P e" for r e
    by (rule op_wp_mono [OF Cons.IH [OF that]]) (fastforce simp: batch_recorded_def run_uids_def)
  have again: "op_wp (record_batch E ps ?links (run\<lparr>mr_queue := mr_queue run @
        [p\<lparr>pm_item := (pm_item p)\<lparr>mmi_original_hash := h\<rparr>, pm_retried := True\<rparr>]\<rparr>))
      (\<lambda>r d'. P d' \<and> batch_recorded (p # ps) run r) e" if "P e" "\<not> pm_retried p" for h e
    by (rule op_wp_mono [OF Cons.IH [OF that(1)]]) (use that(2) in \<open>fastforce simp: batch_recorded_def run_uids_def\<close>)
  show ?case
  proof (cases "per_link (uid_link (pm_uid p))")
    case None
    then show ?thesis using report [OF Cons.prems] by (simp add: Let_def)
  next
    case (Some outcome)
    show ?thesis
    proof (cases "wants_retry outcome p")
      case True
      then have fresh: "\<not> pm_retried p"
        by (auto simp: wants_retry_def split: sum.splits proton_error.splits)
      have "op_wp (remote_original_hash E p) (\<lambda>r d1. op_wp (case r of
            Inl e \<Rightarrow> record_batch E ps ?links (run\<lparr>mr_outcomes := mr_outcomes run @ [(pm_uid p, Inl e)]\<rparr>)
          | Inr h \<Rightarrow> record_batch E ps ?links (run\<lparr>mr_queue := mr_queue run @
              [p\<lparr>pm_item := (pm_item p)\<lparr>mmi_original_hash := h\<rparr>, pm_retried := True\<rparr>]\<rparr>))
          (\<lambda>r d'. P d' \<and> batch_recorded (p # ps) run r) d1) d"
        by (rule op_returns_wp [OF lookup Cons.prems]) (auto simp: report again [OF _ fresh] split: sum.splits)
      then show ?thesis using Some True by (simp add: Let_def wp)
    qed (use Some report [OF Cons.prems] in \<open>simp add: Let_def\<close>)
  qed
qed

lemma context_share_mutation_returns:
  assumes "op_returns P (on_world m)" "\<And>d. P d \<Longrightarrow> P (set_drive_cache clear_context_shares d)"
  shows "op_returns P (run_context_share_mutation m)"
  unfolding op_returns_def run_context_share_mutation_def
  by (auto simp: wp assms(2) intro!: op_returns_wp [OF assms(1)])

lemma submit_move_batch_recorded:
  assumes lookup: "\<And>p. op_returns P (remote_original_hash E p)"
    and put: "\<And>path req. op_returns P (on_world (no_put_moves E path req))"
    and clear: "\<And>d. P d \<Longrightarrow> P (set_drive_cache clear_context_shares d)" and "P d"
  shows "op_wp (submit_move_batch E run batch) (\<lambda>r d'. P d' \<and> batch_recorded batch run r) d"
proof -
  have failed: "batch_recorded batch run (Inr (run\<lparr>mr_outcomes := mr_outcomes run @ map (\<lambda>p. (pm_uid p, Inl e)) batch\<rparr>))" for e
  proof -
    have "length batch \<le> sends_left batch" by (induction batch) auto
    moreover have "mset (map fst (map (\<lambda>p. (pm_uid p, Inl e :: unit result)) batch)) = mset (map pm_uid batch)"
      by (induction batch) auto
    ultimately show ?thesis unfolding batch_recorded_def run_uids_def by (simp del: map_map mset_map)
  qed
  show ?thesis unfolding submit_move_batch_def
    by (auto simp: wp failed record_batch_recorded [OF lookup] split: sum.splits
        intro!: op_returns_wp [OF context_share_mutation_returns [OF put clear] \<open>P d\<close>])
qed

lemma submit_moves_one_each:
  assumes lookup: "\<And>p. op_returns P (remote_original_hash E p)"
    and put: "\<And>path req. op_returns P (on_world (no_put_moves E path req))"
    and clear: "\<And>d. P d \<Longrightarrow> P (set_drive_cache clear_context_shares d)"
  shows "P d \<Longrightarrow> \<exists>outs d'. submit_moves E run yielded d = Some (Inr outs, d') \<and> P d' \<and>
     mset (map fst outs) = mset (map fst yielded) + run_uids run"
proof (induction "(sends_left (mr_queue run), length (mr_outcomes run))" arbitrary: run yielded d
    rule: wf_induct_rule [OF wf_lex_prod [OF wf_less_than wf_less_than]])
  case 1
  note IH = "1.hyps"
  show ?case
  proof (cases "mr_outcomes run")
    case (Cons out outs)
    have "run_uids run = add_mset (fst out) (run_uids (run\<lparr>mr_outcomes := outs\<rparr>))" by (simp add: run_uids_def Cons)
    then show ?thesis using IH [of "run\<lparr>mr_outcomes := outs\<rparr>" d "yielded @ [out]"] Cons "1.prems"
      by (subst submit_moves.simps) simp
  next
    case Nil
    obtain batch rest where b: "take_move_batch (mr_queue run) = (batch, rest)" by fastforce
    show ?thesis
    proof (cases "batch = []")
      case True
      then have "mr_queue run = []" using b take_move_batch_Nil by blast
      then show ?thesis using Nil True b "1.prems" by (subst submit_moves.simps) (simp add: run_uids_def)
    next
      case False
      obtain run1 d1 where r1: "submit_move_batch E (run\<lparr>mr_queue := rest\<rparr>) batch d = Some (Inr run1, d1)" "P d1"
        "run_uids run1 = run_uids (run\<lparr>mr_queue := rest\<rparr>) + mset (map pm_uid batch)"
        "sends_left (mr_queue run1) + length batch \<le> sends_left rest + sends_left batch"
        using submit_move_batch_recorded [OF lookup put clear "1.prems", of "run\<lparr>mr_queue := rest\<rparr>" batch]
        by (auto simp: op_wp_iff batch_recorded_def)
      have m: "mset (mr_queue run) = mset batch + mset rest" by (rule take_move_batch_mset [OF b])
      have "sends_left (mr_queue run1) < sends_left (mr_queue run)"
        using r1(4) False sends_left_mset [OF m] by (cases batch) auto
      then obtain outs d' where "submit_moves E run1 yielded d1 = Some (Inr outs, d')" "P d'"
        "mset (map fst outs) = mset (map fst yielded) + run_uids run1"
        using IH [of run1 d1 yielded] r1(2) by auto
      moreover have "run_uids run1 = run_uids run" using r1(3) m by (simp add: run_uids_def)
      ultimately show ?thesis using Nil b False r1(1)
        by (subst submit_moves.simps) (simp add: op_bind_eval(3))
    qed
  qed
qed

section \<open>The properties\<close>

text \<open>C22: A streamed batch move whose preparation succeeds always ends, as long as its requests and
  the lookups of a retry return, and reports exactly one outcome for every item it was given,
  rejected, failed and retried ones included.\<close>

theorem moves_report_every_item:
  assumes "prepare_moves E items parent d = Some (Inr run, d1)" "P d1"
    and "\<And>d. P d \<Longrightarrow> P (set_drive_cache clear_context_shares d)"
    and "\<And>path req. op_returns P (on_world (no_put_moves E path req))"
    and "\<And>p. op_returns P (remote_original_hash E p)"
  shows "\<exists>outs d'. move_nodes_streaming E items parent d = Some (Inr outs, d') \<and>
     mset (map fst outs) = mset (map nmi_uid items)"
proof -
  obtain outs d' where "submit_moves E run [] d1 = Some (Inr outs, d')" "mset (map fst outs) = mset [] + run_uids run"
    using submit_moves_one_each [where P = P, OF assms(5,4,3,2), of run "[]"] by auto
  then show ?thesis using prepare_moves_uids [OF assms(1)]
      op_bind_eval(3) [where m = "prepare_moves E items parent" and f = "\<lambda>run. submit_moves E run []", OF assms(1)]
    by (simp add: move_nodes_streaming_def)
qed

text \<open>A batch of moves is the first 150 queued items that are signed the way the head of the
  queue is, in their order; nothing queued is lost or sent twice, the items signed the other way
  keep their order, and the request carries the caller's e-mail exactly when they are anonymous.\<close>

theorem move_batch_contents:
  assumes "take_move_batch (p # queue) = (batch, rest)"
  shows "batch = take 150 (filter (\<lambda>q. pm_anonymous q = pm_anonymous p) (p # queue)) \<and>
     mset (p # queue) = mset batch + mset rest \<and>
     filter (\<lambda>q. pm_anonymous q \<noteq> pm_anonymous p) rest = filter (\<lambda>q. pm_anonymous q \<noteq> pm_anonymous p) queue \<and>
     mmr_signature_email (move_batch_request run batch) = (if pm_anonymous p then Some (mr_email run) else None)"
proof -
  have part: "partition_batch (pm_anonymous p) 0 (p # queue) = (batch, rest)" using assms by (simp add: take_move_batch_def)
  then have b: "batch = take 150 (filter (\<lambda>q. pm_anonymous q = pm_anonymous p) (p # queue))"
    using partition_batch_spec [of "pm_anonymous p" 0 "p # queue"] by (simp add: MAX_BATCH_COUNT_def)
  then have "batch = p # take 149 (filter (\<lambda>q. pm_anonymous q = pm_anonymous p) queue)" by simp
  then show ?thesis using b take_move_batch_mset [OF assms] partition_batch_rest [OF part]
    by (simp add: move_batch_request_def)
qed

text \<open>The nodes a list of per-volume batches names.\<close>

definition batch_uids :: "(volume_id \<times> link_id list) list \<Rightarrow> node_uid list" where
  "batch_uids batches = concat (map (\<lambda>(vid, ids). map (NodeUid_new vid) ids) batches)"

lemma batch_uids_chunks:
  "0 < n \<Longrightarrow> batch_uids (concat (map (\<lambda>(vid, ids). map (\<lambda>c. (vid, c)) (chunks n ids)) groups)) = batch_uids groups"
proof (induction groups)
  case (Cons g gs)
  have "concat (map (map (NodeUid_new v)) (chunks n ids)) = map (NodeUid_new v) ids" for v ids
    using Cons.prems by (simp flip: map_concat)
  then show ?case using Cons by (cases g) (simp add: batch_uids_def comp_def)
qed (simp add: batch_uids_def)

lemma add_to_group_uids:
  "distinct (map fst groups) \<Longrightarrow>
     filter (\<lambda>u. uid_volume u = v) (batch_uids (add_to_group uid groups)) =
     filter (\<lambda>u. uid_volume u = v) (batch_uids groups) @ (if uid_volume uid = v then [uid] else [])"
proof (induction uid groups rule: add_to_group.induct)
  case (2 uid vid ids groups)
  have none: "filter (\<lambda>u. uid_volume u = w) (batch_uids gs) = []" if "w \<notin> fst ` set gs" for w and gs :: "(volume_id \<times> link_id list) list"
    using that by (force simp: batch_uids_def filter_empty_conv NodeUid_new_def)
  show ?case
  proof (cases "vid = uid_volume uid")
    case True
    then show ?thesis using none [of vid groups] 2
      by (auto simp: batch_uids_def NodeUid_new_def)
  next
    case False
    then show ?thesis using 2 by (simp add: batch_uids_def)
  qed
qed (simp add: batch_uids_def NodeUid_new_def)

lemma add_to_group_volumes:
  "fst ` set (add_to_group uid groups) = insert (uid_volume uid) (fst ` set groups)"
  "distinct (map fst groups) \<Longrightarrow> distinct (map fst (add_to_group uid groups))"
proof -
  show vs: "fst ` set (add_to_group uid groups) = insert (uid_volume uid) (fst ` set groups)" for uid groups
    by (induction uid groups rule: add_to_group.induct) auto
  show "distinct (map fst groups) \<Longrightarrow> distinct (map fst (add_to_group uid groups))"
  proof (induction uid groups rule: add_to_group.induct)
    case (2 uid vid ids groups)
    then show ?case using vs [of uid groups] by auto
  qed simp
qed

lemma group_by_volume_uids:
  "filter (\<lambda>u. uid_volume u = v) (batch_uids (group_by_volume uids)) = filter (\<lambda>u. uid_volume u = v) uids"
proof -
  have "distinct (map fst (fold add_to_group uids [])) \<and>
      filter (\<lambda>u. uid_volume u = v) (batch_uids (fold add_to_group uids [])) = filter (\<lambda>u. uid_volume u = v) uids"
    by (induction uids rule: rev_induct) (auto simp: add_to_group_uids add_to_group_volumes, simp_all add: batch_uids_def)
  then show ?thesis by (simp add: group_by_volume_def)
qed

text \<open>Trashing, restoring and deleting send every node exactly once, volume by volume in the
  caller's order, in requests of at least one and at most 150 links.\<close>

theorem action_batches_exact:
  "filter (\<lambda>u. uid_volume u = v) (batch_uids (action_batches uids)) = filter (\<lambda>u. uid_volume u = v) uids \<and>
   list_all (\<lambda>(_, ids). ids \<noteq> [] \<and> length ids \<le> 150) (action_batches uids)"
  using chunks_bound unfolding action_batches_def
  by (fastforce simp: batch_uids_chunks group_by_volume_uids MAX_BATCH_COUNT_def list_all_iff)

section \<open>Examples\<close>

text \<open>
  A server that shows the root and the folder \<open>p\<close> alone and every link in a batch, and answers
  a move of two nodes by accepting the first and calling the hash of the second outdated.
\<close>

definition moves_drive :: "(string, unit, unit) drive_env" where
  "moves_drive = example_drive
     \<lparr>de_post_links := (\<lambda>_ ids. op_return (if length ids = 1 \<and> hd ids \<notin> {LinkId ''r'', LinkId ''p''} then []
        else map named_details ids)),
      de_decrypt_message := (\<lambda>_ s. Inr (as_bytes s)),
      de_address := (\<lambda>aid. op_return \<lparr>adr_id = aid, adr_email = ''a@p'', adr_order = 1, adr_status = 1,
        adr_primary_key_index = 0, adr_primary_key_id = AddressKeyId ''k''\<rparr>),
      de_address_private_keys := (\<lambda>_. op_return [''k''])\<rparr>"

definition ops_on :: "(string, 's, 'w) drive_env \<Rightarrow> (string, unit, 's, 'w) ops_env" where
  "ops_on D =
     \<lparr>no_nodes = nodes_on D, no_generate_node_key = op_return (''n'', [1], ''locked''),
      no_generate_hash_key = (\<lambda>_. op_return ''hashkey''), no_encrypt_and_sign = (\<lambda>_ _ _ _ _. op_return ''sealed''),
      no_encrypt = (\<lambda>_ _. op_return ''sealed''), no_sign = (\<lambda>_ _. op_return ''signed''),
      no_rewrap = (\<lambda>_ m _. op_return m), no_xattr_json = (\<lambda>t. Inr (as_bytes t)),
      no_post_folder = (\<lambda>_ _. op_return (LinkId ''new'')), no_put_rename = (\<lambda>_ _. op_return ()),
      no_put_move = (\<lambda>_ _. op_return ()), no_post_copy = (\<lambda>_ _. op_return (LinkId ''copy'')),
      no_put_moves = (\<lambda>_ req. op_return (case mmr_links req of [] \<Rightarrow> [] | i # is \<Rightarrow>
        \<lparr>lrp_link_id = mmi_link_id i, lrp_response = \<lparr>resp_code = Success, resp_error_message = None, resp_details = None\<rparr>\<rparr>
        # map (\<lambda>j. \<lparr>lrp_link_id = mmi_link_id j, lrp_response = \<lparr>resp_code = InvalidRequirements,
            resp_error_message = None, resp_details = None\<rparr>\<rparr>) is)),
      no_put_links = (\<lambda>_ _. op_return []), no_post_links = (\<lambda>_ _. op_return []), no_delete = (\<lambda>_. op_return ())\<rparr>"

definition moves_items :: "node_move_item list" where
  "moves_items = map (\<lambda>(v, l). \<lparr>nmi_uid = NodeUid_new (VolumeId v) (LinkId l), nmi_target_name = None\<rparr>)
     [(''v'', ''x''), (''v'', ''y''), (''w'', ''z''), (''v'', ''x'')]"

lemma moves_first_link:
  "first_link (ops_on moves_drive) uid d = Some (if uid_link uid \<in> {LinkId ''r'', LinkId ''p''}
     then Inr (tree_link (uid_link uid)) else Inl (node_not_found uid), d)"
  by (cases d) (auto simp: first_link_def get_link_details_def get_link_details_ctx_def no_drive_def ops_on_def nodes_on_def moves_drive_def
      named_details_def tree_details_def example_drive_def drive_on_def on_world_def op_bind_def)

lemma moves_lookups_fail: "op_returns (\<lambda>_. True) (remote_original_hash (ops_on moves_drive) p)"
proof -
  have "l_name_hash (tree_link i) = None" for i by (simp add: tree_link_def example_link_def)
  then show ?thesis
    by (simp add: op_returns_def op_wp_def remote_original_hash_def Let_def op_bind_def moves_first_link split: option.splits)
qed

theorem moves_report_every_item_witness:
  "\<exists>outs d'. move_nodes_streaming (ops_on moves_drive) moves_items (NodeUid_new (VolumeId ''v'') (LinkId ''p'')) example_drive_state =
     Some (Inr outs, d') \<and> mset (map fst outs) = mset (map nmi_uid moves_items)"
proof -
  have "op_gives (prepare_moves (ops_on moves_drive) moves_items (NodeUid_new (VolumeId ''v'') (LinkId ''p'')))
      (\<lambda>run _. length (mr_queue run) = 2) example_drive_state" by code_simp
  then obtain run d1 where "prepare_moves (ops_on moves_drive) moves_items (NodeUid_new (VolumeId ''v'') (LinkId ''p''))
      example_drive_state = Some (Inr run, d1)" unfolding op_gives_iff by blast
  moreover have "op_returns (\<lambda>_. True) (on_world (no_put_moves (ops_on moves_drive) path req))" for path req
    by (simp add: op_returns_def op_wp_def on_world_def ops_on_def)
  ultimately show ?thesis using moves_lookups_fail by (blast intro: moves_report_every_item [where P = "\<lambda>_. True"])
qed

definition queued_move :: "string \<Rightarrow> bool \<Rightarrow> prepared_move" where
  "queued_move l anonymous =
     \<lparr>pm_uid = NodeUid_new (VolumeId ''v'') (LinkId l), pm_item = \<lparr>mmi_link_id = LinkId l, mmi_name = [], mmi_passphrase = [],
        mmi_name_hash = [], mmi_original_hash = [], mmi_passphrase_signature = None\<rparr>,
      pm_source_parent = None, pm_current_name = [], pm_anonymous = anonymous, pm_retried = False\<rparr>"

theorem move_batch_contents_witness:
  "fst (take_move_batch [queued_move ''x'' True, queued_move ''y'' False, queued_move ''z'' True]) =
     [queued_move ''x'' True, queued_move ''z'' True]"
proof -
  let ?q = "[queued_move ''y'' False, queued_move ''z'' True]"
  obtain batch rest where "take_move_batch (queued_move ''x'' True # ?q) = (batch, rest)" by fastforce
  with move_batch_contents [OF this] show ?thesis by (simp add: queued_move_def)
qed

end
