(* ===== verification/Srp.thy ===== *)
theory Srp
  imports Encrypt "HOL-Library.Power_By_Squaring"
begin

text \<open>
  The SRP-6a handshake (\<open>proton-sdk/src/crypto/srp.rs\<close>): the client's ephemeral and
  proofs for a login, and the verifier of a public link.  Big integers are natural numbers;
  SHA-512, bcrypt, base64, the cleartext signature and the random source are fields of
  \<open>srp_lib\<close>.  \<open>None\<close> is a call that does not return: the endless rejection loop, and the
  exponentiation to a zero modulus, which panics.
\<close>

section \<open>What the handshake uses\<close>

record ('pub, 'm, 'r) srp_lib =
  sl_sha512 :: "bytes \<Rightarrow> bytes"
  sl_bcrypt :: "bytes \<Rightarrow> nat \<Rightarrow> bytes \<Rightarrow> string + string"
  sl_public_key :: "string \<Rightarrow> string + 'pub"
  sl_cleartext :: "string \<Rightarrow> string + 'm"
  sl_verify :: "'m \<Rightarrow> 'pub \<Rightarrow> string + unit"
  sl_text :: "'m \<Rightarrow> string"
  sl_base64 :: "bytes \<Rightarrow> string"
  sl_base64_decode :: "string \<Rightarrow> string + bytes"
  sl_fill :: "nat \<Rightarrow> 'r \<Rightarrow> (string + bytes) \<times> 'r"

definition DEFAULT_BIT_LENGTH :: nat where "DEFAULT_BIT_LENGTH = 2048"

definition MODULUS_PUBKEY :: string where
  "MODULUS_PUBKEY = join_with [CHR 0x0A]
     [''-----BEGIN PGP PUBLIC KEY BLOCK-----'',
      [],
      ''xjMEXAHLgxYJKwYBBAHaRw8BAQdAFurWXXwjTemqjD7CXjXVyKf0of7n9Ctm'',
      ''L8v9enkzggHNEnByb3RvbkBzcnAubW9kdWx1c8J3BBAWCgApBQJcAcuDBgsJ'',
      ''BwgDAgkQNQWFxOlRjyYEFQgKAgMWAgECGQECGwMCHgEAAPGRAP9sauJsW12U'',
      ''MnTQUZpsbJb53d0Wv55mZIIiJL2XulpWPQD/V6NglBd96lZKBmInSXX/kXat'',
      ''Sv+y0io+LR8i2+jV+AbOOARcAcuDEgorBgEEAZdVAQUBAQdAeJHUz1c9+KfE'',
      ''kSIgcBRE3WuXC4oj5a2/U3oASExGDW4DAQgHwmEEGBYIABMFAlwBy4MJEDUF'',
      ''hcTpUY8mAhsMAAD/XQD8DxNI6E78meodQI+wLsrKLeHn32iLvUqJbVDhfWSU'',
      ''WO4BAMcm1u02t4VKw++ttECPt+HUgPUq5pqQWe5Q2cW4TMsE'',
      ''=Y4Mw'',
      ''-----END PGP PUBLIC KEY BLOCK-----'']"

record srp_proofs =
  sp_client_ephemeral :: bytes
  sp_client_proof :: bytes
  sp_expected_server_proof :: bytes

record srp_verifier =
  sf_salt :: string
  sf_verifier :: string

section \<open>Integers on the wire\<close>

fun from_le :: "bytes \<Rightarrow> nat" where
  "from_le [] = 0"
| "from_le (b # bs) = unat b + 256 * from_le bs"

fun le_digits :: "nat \<Rightarrow> bytes" where
  "le_digits n = (if n = 0 then [] else of_nat (n mod 256) # le_digits (n div 256))"

declare le_digits.simps [simp del]

definition to_bytes_le :: "nat \<Rightarrow> bytes" where
  "to_bytes_le n = (if n = 0 then [0] else le_digits n)"

definition to_le_fixed :: "nat \<Rightarrow> nat \<Rightarrow> bytes crypto_result" where
  "to_le_fixed n byte_len =
     (let v = to_bytes_le n in
      if byte_len < length v then Inl (Decrypt ''SRP value exceeds group size'')
      else Inr (v @ replicate (byte_len - length v) 0))"

definition modpow :: "nat \<Rightarrow> nat \<Rightarrow> nat \<Rightarrow> nat" where
  "modpow b e n = b ^ e mod n"

text \<open>Exponents are reduced by squaring when evaluated.\<close>

lemma modpow_code [code]:
  "modpow b e n = efficient_funpow (\<lambda>x y. x * y mod n) (1 mod n) b e"
proof -
  have "((\<lambda>y. b * y mod n) ^^ e) (1 mod n) = b ^ e mod n"
    by (induction e) (simp_all add: mod_mult_right_eq)
  then show ?thesis
    by (subst efficient_funpow_correct) (simp_all add: modpow_def mod_mult_left_eq mod_mult_right_eq mult.assoc)
qed

fun nat_bits :: "nat \<Rightarrow> nat" where
  "nat_bits n = (if n = 0 then 0 else Suc (nat_bits (n div 2)))"

declare nat_bits.simps [simp del]

section \<open>Hashing\<close>

definition expand_hash :: "('pub, 'm, 'r) srp_lib \<Rightarrow> bytes \<Rightarrow> bytes" where
  "expand_hash L data = concat (map (\<lambda>i. sl_sha512 L (data @ [i])) [0, 1, 2, 3])"

definition hash_password_v3 :: "('pub, 'm, 'r) srp_lib \<Rightarrow> bytes \<Rightarrow> bytes \<Rightarrow> bytes \<Rightarrow> bytes crypto_result" where
  "hash_password_v3 L password salt modulus =
     (if length salt + 6 \<noteq> 16 then
        Inl (Unlock (''SRP login salt must be 10 bytes, got '' @ nat_to_string (length salt)))
      else
        sum_bind (map_err (\<lambda>e. Unlock (''bcrypt: '' @ e)) (sl_bcrypt L password 10 (salt @ as_bytes ''proton''))) (\<lambda>s.
          case split_on CHR ''$'' s of
            [_, _, cost, tail] \<Rightarrow> Inr (expand_hash L (as_bytes (''$2y$'' @ cost @ ''$'' @ tail) @ modulus))
          | _ \<Rightarrow> Inl (Unlock ''unexpected bcrypt output'')))"

definition verify_and_decode_modulus :: "('pub, 'm, 'r) srp_lib \<Rightarrow> string \<Rightarrow> bytes crypto_result" where
  "verify_and_decode_modulus L signed_modulus =
     sum_bind (map_err (\<lambda>e. Parse (''modulus pubkey: '' @ e)) (sl_public_key L MODULUS_PUBKEY)) (\<lambda>key.
     sum_bind (map_err (\<lambda>e. Parse (''signed modulus: '' @ e)) (sl_cleartext L signed_modulus)) (\<lambda>message.
     sum_bind (map_err (\<lambda>e. Verification (''modulus signature: '' @ e)) (sl_verify L message key)) (\<lambda>_.
       map_err (\<lambda>e. Parse (''modulus base64: '' @ e)) (sl_base64_decode L (trim (sl_text L message))))))"

section \<open>The verifier\<close>

definition generate_verifier ::
  "('pub, 'm, 'r) srp_lib \<Rightarrow> bytes \<Rightarrow> string \<Rightarrow> nat \<Rightarrow> 'r \<Rightarrow> (srp_verifier crypto_result \<times> 'r) option" where
  "generate_verifier L password signed_modulus bit_length g =
     (case verify_and_decode_modulus L signed_modulus of
        Inl e \<Rightarrow> Some (Inl e, g)
      | Inr modulus \<Rightarrow>
          (case sl_fill L 10 g of
             (Inl e, g1) \<Rightarrow> Some (Inl (Decrypt (''rng: '' @ e)), g1)
           | (Inr salt, g1) \<Rightarrow>
               (case hash_password_v3 L password salt modulus of
                  Inl e \<Rightarrow> Some (Inl e, g1)
                | Inr hashed \<Rightarrow>
                    if from_le modulus = 0 then None
                    else Some (sum_bind (to_le_fixed (modpow 2 (from_le hashed) (from_le modulus)) (bit_length div 8))
                           (\<lambda>v. Inr \<lparr>sf_salt = sl_base64 L salt, sf_verifier = sl_base64 L v\<rparr>), g1))))"

section \<open>The proofs\<close>

definition check_params :: "nat \<Rightarrow> nat \<Rightarrow> nat \<Rightarrow> unit crypto_result" where
  "check_params bit_length n b =
     (if nat_bits n \<noteq> bit_length then Inl (Verification ''SRP modulus has wrong size'')
      else if n mod 8 \<noteq> 3 then Inl (Verification ''SRP modulus is not 3 mod 8'')
      else if b \<le> 1 \<or> n - 1 \<le> b then Inl (Verification ''SRP server ephemeral out of bounds'')
      else if modpow 2 ((n - 1) div 2) n \<noteq> n - 1 then Inl (Verification ''SRP modulus is not prime'')
      else Inr ())"

text \<open>The loop that draws a client secret until it is in range and gives a scrambling parameter.\<close>

partial_function (option) generate_ephemeral ::
  "('pub, 'm, 'r) srp_lib \<Rightarrow> nat \<Rightarrow> nat \<Rightarrow> nat \<Rightarrow> bytes \<Rightarrow> 'r \<Rightarrow> ((nat \<times> bytes \<times> nat) crypto_result \<times> 'r) option" where
  "generate_ephemeral L bit_length n n_minus_1 server_ephemeral g =
     (case sl_fill L (bit_length div 8) g of
        (Inl e, g1) \<Rightarrow> Some (Inl (Decrypt (''rng: '' @ e)), g1)
      | (Inr buf, g1) \<Rightarrow>
          let secret = from_le buf mod n_minus_1 in
          if secret \<le> bit_length * 2 \<or> n_minus_1 \<le> secret
          then generate_ephemeral L bit_length n n_minus_1 server_ephemeral g1
          else
            (case to_le_fixed (modpow 2 secret n) (bit_length div 8) of
               Inl e \<Rightarrow> Some (Inl e, g1)
             | Inr a_bytes \<Rightarrow>
                 let scrambling = from_le (expand_hash L (a_bytes @ server_ephemeral)) in
                 if nat_bits scrambling = 0
                 then generate_ephemeral L bit_length n n_minus_1 server_ephemeral g1
                 else Some (Inr (secret, a_bytes, scrambling), g1)))"

definition finish_proofs ::
  "('pub, 'm, 'r) srp_lib \<Rightarrow> nat \<Rightarrow> nat \<Rightarrow> nat \<Rightarrow> nat \<Rightarrow> nat \<Rightarrow> bytes \<Rightarrow> nat \<Rightarrow> bytes \<Rightarrow> nat \<Rightarrow> srp_proofs crypto_result" where
  "finish_proofs L n n_minus_1 byte_len k x server_ephemeral secret a_bytes scrambling =
     (let b = from_le server_ephemeral;
          gx = modpow 2 x n;
          kgx = (k * gx) mod n;
          base = (b + n - kgx) mod n;
          exponent = (scrambling * x + secret) mod n_minus_1;
          shared = modpow base exponent n in
      sum_bind (to_le_fixed shared byte_len) (\<lambda>shared_bytes.
        let client_proof = expand_hash L (a_bytes @ server_ephemeral @ shared_bytes) in
        Inr \<lparr>sp_client_ephemeral = a_bytes, sp_client_proof = client_proof,
             sp_expected_server_proof = expand_hash L (a_bytes @ client_proof @ shared_bytes)\<rparr>))"

definition srp_multiplier :: "('pub, 'm, 'r) srp_lib \<Rightarrow> nat \<Rightarrow> nat \<Rightarrow> nat crypto_result" where
  "srp_multiplier L n byte_len =
     sum_bind (to_le_fixed 2 byte_len) (\<lambda>g_bytes.
     sum_bind (to_le_fixed n byte_len) (\<lambda>n_bytes.
       Inr (from_le (expand_hash L (g_bytes @ n_bytes)) mod n)))"

text \<open>What precedes the random draw: the modulus, the password hash and the multiplier.\<close>

definition srp_setup ::
  "('pub, 'm, 'r) srp_lib \<Rightarrow> int \<Rightarrow> bytes \<Rightarrow> bytes \<Rightarrow> string \<Rightarrow> bytes \<Rightarrow> nat \<Rightarrow> (nat \<times> nat \<times> nat) crypto_result" where
  "srp_setup L version password salt signed_modulus server_ephemeral bit_length =
     (if version < 3 then Inl (Unlock (''unsupported SRP auth version '' @ int_to_string version))
      else
        sum_bind (verify_and_decode_modulus L signed_modulus) (\<lambda>modulus.
        sum_bind (hash_password_v3 L password salt modulus) (\<lambda>hashed.
        sum_bind (check_params bit_length (from_le modulus) (from_le server_ephemeral)) (\<lambda>_.
        sum_bind (srp_multiplier L (from_le modulus) (bit_length div 8)) (\<lambda>k.
          if k \<le> 1 \<or> from_le modulus - 1 \<le> k then Inl (Verification ''SRP multiplier out of bounds'')
          else Inr (from_le modulus, from_le hashed, k))))))"

definition generate_proofs ::
  "('pub, 'm, 'r) srp_lib \<Rightarrow> int \<Rightarrow> bytes \<Rightarrow> bytes \<Rightarrow> string \<Rightarrow> bytes \<Rightarrow> nat \<Rightarrow> 'r \<Rightarrow> (srp_proofs crypto_result \<times> 'r) option" where
  "generate_proofs L version password salt signed_modulus server_ephemeral bit_length g =
     (case srp_setup L version password salt signed_modulus server_ephemeral bit_length of
        Inl e \<Rightarrow> Some (Inl e, g)
      | Inr (n, x, k) \<Rightarrow>
          (case generate_ephemeral L bit_length n (n - 1) server_ephemeral g of
             None \<Rightarrow> None
           | Some (Inl e, g1) \<Rightarrow> Some (Inl e, g1)
           | Some (Inr (secret, a_bytes, scrambling), g1) \<Rightarrow>
               Some (finish_proofs L n (n - 1) (bit_length div 8) k x server_ephemeral secret a_bytes scrambling, g1)))"

section \<open>Lemmas on the encoding\<close>

lemma from_le_zeros [simp]: "from_le (replicate k 0) = 0" "from_le (v @ replicate k 0) = from_le v"
proof -
  show zero: "from_le (replicate k 0) = 0" by (induction k) simp_all
  show "from_le (v @ replicate k 0) = from_le v" using zero by (induction v) simp_all
qed

lemma from_le_append: "from_le (v @ w) = from_le v + 256 ^ length v * from_le w"
  by (induction v) (simp_all add: algebra_simps)

lemma from_le_digits: "from_le (le_digits n) = n"
proof (induction n rule: le_digits.induct)
  case (1 n)
  show ?case
  proof (cases "n = 0")
    case False
    have "unat (of_nat (n mod 256) :: u8) = n mod 256" by (simp add: unat_of_nat)
    then show ?thesis using 1 False by (subst le_digits.simps) simp
  qed (simp add: le_digits.simps)
qed

lemma le_digits_length: "n < 256 ^ k \<Longrightarrow> length (le_digits n) \<le> k"
proof (induction k arbitrary: n)
  case (Suc k)
  then have "n div 256 < 256 ^ k" by (simp add: div_less_iff_less_mult mult.commute)
  then show ?case using Suc.IH by (subst le_digits.simps) simp
qed (simp add: le_digits.simps)

lemma to_le_fixed_Inr: "to_le_fixed n len = Inr v \<Longrightarrow> length v = len \<and> from_le v = n"
  by (auto simp: to_le_fixed_def to_bytes_le_def Let_def from_le_digits split: if_splits)

lemma to_le_fixed_exists:
  assumes "n < 256 ^ len" "0 < len"
  shows "\<exists>v. to_le_fixed n len = Inr v"
  using le_digits_length [OF assms(1)] assms(2) by (auto simp: to_le_fixed_def to_bytes_le_def Let_def)

lemma nat_bits_less: "n < 2 ^ nat_bits n"
proof (induction n rule: nat_bits.induct)
  case (1 n)
  then show ?case by (subst nat_bits.simps) auto
qed

section \<open>The group\<close>

text \<open>The test of the modulus is what the exponent reduction needs: two has an order dividing
  \<open>n - 1\<close>, prime or not.\<close>

lemma check_params_order:
  assumes "check_params bit_length n b = Inr ()"
  shows "2 ^ (n - 1) mod n = 1" "3 \<le> n" "n < 2 ^ bit_length"
proof -
  have n: "n mod 8 = 3" and half: "2 ^ ((n - 1) div 2) mod n = n - 1" and bits: "nat_bits n = bit_length"
    using assms by (auto simp: check_params_def modpow_def split: if_splits)
  show n3: "3 \<le> n" using n by presburger
  show "n < 2 ^ bit_length" using nat_bits_less [of n] bits by simp
  have "(n - 1) div 2 * 2 = n - 1" using n by presburger
  then have "2 ^ (n - 1) = ((2 :: nat) ^ ((n - 1) div 2)) ^ 2" by (metis power_mult)
  also have "\<dots> mod n = (n - 1) ^ 2 mod n" using half by (metis power_mod)
  also have "\<dots> = 1"
  proof -
    have "(n - 1) ^ 2 = (n - 2) * n + 1"
      using n3 by (cases n rule: nat.exhaust) (auto simp: power2_eq_square algebra_simps nat_diff_split numeral_eq_Suc)
    then have "(n - 1) ^ 2 mod n = 1 mod n" by (simp only: mod_mult_self3)
    then show ?thesis using n3 by simp
  qed
  finally show "2 ^ (n - 1) mod n = 1" .
qed

lemma power_mod_order:
  assumes "a ^ m mod n = (1 :: nat)" "1 < n"
  shows "a ^ (e mod m) mod n = a ^ e mod n"
proof -
  have "a ^ e = (a ^ m) ^ (e div m) * a ^ (e mod m)"
    by (simp flip: power_mult power_add)
  also have "\<dots> mod n = ((a ^ m mod n) ^ (e div m) mod n) * (a ^ (e mod m)) mod n"
    by (simp add: power_mod mod_mult_left_eq)
  finally show ?thesis using assms by simp
qed

section \<open>The other side\<close>

text \<open>
  The server is not part of the sources: this is what SRP-6a asks of it.  It keeps the verifier
  \<open>v\<close>, announces \<open>B\<close> for its secret \<open>b\<close>, and answers a proof it accepts with its own.
\<close>

definition honest_ephemeral ::
  "('pub, 'm, 'r) srp_lib \<Rightarrow> string \<Rightarrow> nat \<Rightarrow> nat \<Rightarrow> nat \<Rightarrow> bytes \<Rightarrow> bool" where
  "honest_ephemeral L signed_modulus bit_length v b B \<longleftrightarrow>
     (case verify_and_decode_modulus L signed_modulus of
        Inl _ \<Rightarrow> False
      | Inr modulus \<Rightarrow>
          (case srp_multiplier L (from_le modulus) (bit_length div 8) of
             Inl _ \<Rightarrow> False
           | Inr k \<Rightarrow> from_le B = (k * v + modpow 2 b (from_le modulus)) mod from_le modulus))"

definition server_answer ::
  "('pub, 'm, 'r) srp_lib \<Rightarrow> nat \<Rightarrow> nat \<Rightarrow> nat \<Rightarrow> nat \<Rightarrow> bytes \<Rightarrow> bytes \<Rightarrow> bytes \<Rightarrow> bytes option" where
  "server_answer L n bit_length v b B client_ephemeral client_proof =
     (let u = from_le (expand_hash L (client_ephemeral @ B));
          shared = modpow ((from_le client_ephemeral * modpow v u n) mod n) b n in
      case to_le_fixed shared (bit_length div 8) of
        Inl _ \<Rightarrow> None
      | Inr s \<Rightarrow>
          if client_proof = expand_hash L (client_ephemeral @ B @ s)
          then Some (expand_hash L (client_ephemeral @ client_proof @ s)) else None)"

lemma client_base:
  fixes n :: nat
  assumes "B = (k * v + r) mod n" "0 < n" "r < n"
  shows "(B + n - (k * v) mod n) mod n = r"
proof -
  have "(k * v) mod n \<le> B + n" using assms(2) by (simp add: less_imp_le trans_le_add2)
  then have "int ((B + n - (k * v) mod n) mod n) = (int B + int n - (int k * int v) mod int n) mod int n"
    by (simp add: zmod_int of_nat_diff)
  also have "\<dots> = (int B - int k * int v + int n) mod int n" by (simp add: mod_simps algebra_simps)
  also have "\<dots> = (int B - int k * int v) mod int n" by simp
  also have "\<dots> = ((int k * int v + int r) mod int n - int k * int v) mod int n"
    using assms(1) by (simp add: zmod_int)
  also have "\<dots> = int r mod int n" by (simp add: mod_simps)
  finally show ?thesis using assms(3) by (simp flip: zmod_int)
qed

lemma shared_secrets_agree:
  fixes n :: nat
  assumes "2 ^ (n - 1) mod n = (1 :: nat)" "1 < n"
  shows "modpow (modpow 2 b n) ((u * x + a) mod (n - 1)) n = modpow ((modpow 2 a n * modpow (modpow 2 x n) u n) mod n) b n"
proof -
  have "((2 :: nat) ^ b) ^ (n - 1) mod n = ((2 ^ (n - 1) mod n) ^ b) mod n"
    by (simp add: power_mod power_mult [symmetric] mult.commute)
  then have order: "((2 :: nat) ^ b) ^ (n - 1) mod n = 1" using assms by simp
  have "modpow (modpow 2 b n) ((u * x + a) mod (n - 1)) n = (2 ^ b) ^ ((u * x + a) mod (n - 1)) mod n"
    by (simp add: modpow_def power_mod)
  also have "\<dots> = (2 ^ b) ^ (u * x + a) mod n" by (rule power_mod_order [OF order assms(2)])
  also have "((2 :: nat) ^ b) ^ (u * x + a) = (2 ^ a * (2 ^ x) ^ u) ^ b"
    by (simp add: power_mult [symmetric] power_add [symmetric] algebra_simps)
  also have "\<dots> mod n = modpow ((modpow 2 a n * modpow (modpow 2 x n) u n) mod n) b n"
    by (simp add: modpow_def power_mod mod_mult_eq)
  finally show ?thesis .
qed

definition ephemeral_ok ::
  "('pub, 'm, 'r) srp_lib \<Rightarrow> nat \<Rightarrow> nat \<Rightarrow> bytes \<Rightarrow> (nat \<times> bytes \<times> nat) crypto_result \<times> 'r \<Rightarrow> bool" where
  "ephemeral_ok L bit_length n B r =
     (case fst r of
        Inl _ \<Rightarrow> True
      | Inr (secret, A, u) \<Rightarrow> to_le_fixed (modpow 2 secret n) (bit_length div 8) = Inr A \<and> u = from_le (expand_hash L (A @ B)))"

lemma generate_ephemeral_ok:
  assumes "generate_ephemeral L bit_length n m B g = Some r"
  shows "ephemeral_ok L bit_length n B r"
proof (rule generate_ephemeral.raw_induct [where P = "\<lambda>L bit_length n m B g r. ephemeral_ok L bit_length n B r", OF _ assms])
  fix f L bit_length n m B g r
  assume IH: "\<And>L bit_length n m B g r. f L bit_length n m B g = Some r \<Longrightarrow> ephemeral_ok L bit_length n B r"
    and run: "(case sl_fill L (bit_length div 8) g of
        (Inl e, g1) \<Rightarrow> Some (Inl (Decrypt (''rng: '' @ e)), g1)
      | (Inr buf, g1) \<Rightarrow>
          let secret = from_le buf mod m in
          if secret \<le> bit_length * 2 \<or> m \<le> secret then f L bit_length n m B g1
          else
            (case to_le_fixed (modpow 2 secret n) (bit_length div 8) of
               Inl e \<Rightarrow> Some (Inl e, g1)
             | Inr a_bytes \<Rightarrow>
                 let scrambling = from_le (expand_hash L (a_bytes @ B)) in
                 if nat_bits scrambling = 0 then f L bit_length n m B g1
                 else Some (Inr (secret, a_bytes, scrambling), g1))) = Some r"
  from run show "ephemeral_ok L bit_length n B r"
    by (auto simp: Let_def split: prod.splits sum.splits if_splits dest: IH) (auto simp: ephemeral_ok_def)
qed

lemma srp_setup_Inr:
  "srp_setup L version password salt signed_N B bit_length = Inr (n, x, k) \<Longrightarrow>
     (\<exists>modulus hashed. 3 \<le> version \<and> verify_and_decode_modulus L signed_N = Inr modulus \<and>
        hash_password_v3 L password salt modulus = Inr hashed \<and> n = from_le modulus \<and> x = from_le hashed \<and>
        check_params bit_length n (from_le B) = Inr () \<and> srp_multiplier L n (bit_length div 8) = Inr k \<and> 1 < k \<and> k < n - 1)"
  by (auto simp: srp_setup_def sum_bind_Inr split: if_splits)

lemma generate_proofs_Inr:
  assumes "generate_proofs L version password salt signed_N B bit_length g = Some (Inr p, g')"
  obtains n x k secret A u where "srp_setup L version password salt signed_N B bit_length = Inr (n, x, k)"
    "generate_ephemeral L bit_length n (n - 1) B g = Some (Inr (secret, A, u), g')"
    "finish_proofs L n (n - 1) (bit_length div 8) k x B secret A u = Inr p"
  using assms by (auto simp: generate_proofs_def split: sum.splits option.splits prod.splits)

lemma generate_verifier_Inr:
  assumes "generate_verifier L password signed_N bit_length g = Some (Inr r, g')"
  obtains modulus salt hashed v where "verify_and_decode_modulus L signed_N = Inr modulus"
    "hash_password_v3 L password salt modulus = Inr hashed"
    "to_le_fixed (modpow 2 (from_le hashed) (from_le modulus)) (bit_length div 8) = Inr v"
    "r = \<lparr>sf_salt = sl_base64 L salt, sf_verifier = sl_base64 L v\<rparr>"
  using assms by (auto simp: generate_verifier_def sum_bind_Inr split: sum.splits prod.splits if_splits)

lemma proofs_agree:
  assumes "generate_verifier L password signed_N bit_length g = Some (Inr r, g1)"
    and "\<And>b. sl_base64_decode L (sl_base64 L b) = Inr b"
    and "sl_base64_decode L (sf_salt r) = Inr salt" "sl_base64_decode L (sf_verifier r) = Inr vbytes"
    and "generate_proofs L version password salt signed_N B bit_length h = Some (Inr p, h1)"
    and "honest_ephemeral L signed_N bit_length (from_le vbytes) b B" "verify_and_decode_modulus L signed_N = Inr modulus"
  shows "server_answer L (from_le modulus) bit_length (from_le vbytes) b B (sp_client_ephemeral p) (sp_client_proof p)
     = Some (sp_expected_server_proof p)"
proof -
  let ?n = "from_le modulus"
  obtain hashed where hashed: "hash_password_v3 L password salt modulus = Inr hashed"
    and v: "from_le vbytes = modpow 2 (from_le hashed) ?n"
    by (rule generate_verifier_Inr [OF assms(1)]) (use assms(2,3,4,7) in \<open>auto dest: to_le_fixed_Inr\<close>)
  obtain n x k secret A u where prep: "srp_setup L version password salt signed_N B bit_length = Inr (n, x, k)"
    and eph: "generate_ephemeral L bit_length n (n - 1) B h = Some (Inr (secret, A, u), h1)"
    and fin: "finish_proofs L n (n - 1) (bit_length div 8) k x B secret A u = Inr p"
    using generate_proofs_Inr [OF assms(5)] .
  have n: "n = ?n" "x = from_le hashed" "srp_multiplier L ?n (bit_length div 8) = Inr k" "check_params bit_length ?n (from_le B) = Inr ()"
    using srp_setup_Inr [OF prep] assms(7) hashed by auto
  have order: "2 ^ (?n - 1) mod ?n = (1 :: nat)" "1 < ?n" using check_params_order [OF n(4)] by simp_all
  have A: "to_le_fixed (modpow 2 secret ?n) (bit_length div 8) = Inr A" "u = from_le (expand_hash L (A @ B))"
    using generate_ephemeral_ok [OF eph] n(1) by (simp_all add: ephemeral_ok_def)
  have B: "from_le B = (k * modpow 2 x ?n + modpow 2 b ?n) mod ?n"
    using assms(6,7) n v by (simp add: honest_ephemeral_def)
  have base: "(from_le B + ?n - (k * modpow 2 x ?n) mod ?n) mod ?n = modpow 2 b ?n"
    by (rule client_base [OF B]) (use order(2) in \<open>simp_all add: modpow_def\<close>)
  have shared: "modpow (modpow 2 b ?n) ((u * x + secret) mod (?n - 1)) ?n =
      modpow ((from_le A * modpow (from_le vbytes) u ?n) mod ?n) b ?n"
    using shared_secrets_agree [OF order] to_le_fixed_Inr [OF A(1)] by (simp add: v n(2))
  from fin show ?thesis
    unfolding n(1) finish_proofs_def Let_def base shared
    by (auto simp: server_answer_def Let_def sum_bind_Inr simp flip: A(2))
qed

section \<open>The properties\<close>

text \<open>C28: Whoever knows the password of a registered verifier is let in, and recognises the server:
  against a server that holds the verifier and follows the protocol, the proof the client sends is
  the one the server computes, and the proof it expects back is the one the server answers with.\<close>

theorem srp_handshake_agrees:
  assumes "generate_verifier L password signed_N bit_length g = Some (Inr r, g1)"
    and "\<And>b. sl_base64_decode L (sl_base64 L b) = Inr b"
    and "sl_base64_decode L (sf_salt r) = Inr salt" "sl_base64_decode L (sf_verifier r) = Inr vbytes"
    and "generate_proofs L version password salt signed_N B bit_length h = Some (Inr p, h1)"
    and "honest_ephemeral L signed_N bit_length (from_le vbytes) b B" "verify_and_decode_modulus L signed_N = Inr modulus"
  shows "server_answer L (from_le modulus) bit_length (from_le vbytes) b B (sp_client_ephemeral p) (sp_client_proof p)
     = Some (sp_expected_server_proof p)"
  by (rule proofs_agree [OF assms])

text \<open>C29: The proofs have the shape the wire format has: the ephemeral is as wide as the group, and
  both proofs are four digests long.\<close>

theorem srp_proofs_shape:
  assumes "generate_proofs L version password salt signed_N B bit_length g = Some (Inr p, g')"
    and "\<And>d. length (sl_sha512 L d) = 64"
  shows "length (sp_client_ephemeral p) = bit_length div 8 \<and> length (sp_client_proof p) = 256 \<and>
     length (sp_expected_server_proof p) = 256"
proof -
  have hash: "length (expand_hash L d) = 256" for d using assms(2) by (simp add: expand_hash_def)
  show ?thesis
  proof (rule generate_proofs_Inr [OF assms(1)])
    fix n x k secret A u
    assume "generate_ephemeral L bit_length n (n - 1) B g = Some (Inr (secret, A, u), g')"
      and fin: "finish_proofs L n (n - 1) (bit_length div 8) k x B secret A u = Inr p"
    then have "length A = bit_length div 8"
      using generate_ephemeral_ok to_le_fixed_Inr by (fastforce simp: ephemeral_ok_def)
    then show ?thesis using fin hash by (auto simp: finish_proofs_def Let_def sum_bind_Inr)
  qed
qed

text \<open>One draw of the client's secret, and whether it is thrown away.\<close>

definition next_draw :: "('pub, 'm, 'r) srp_lib \<Rightarrow> nat \<Rightarrow> 'r \<Rightarrow> 'r" where
  "next_draw L bit_length g = snd (sl_fill L (bit_length div 8) g)"

definition draw_rejected :: "('pub, 'm, 'r) srp_lib \<Rightarrow> nat \<Rightarrow> nat \<Rightarrow> bytes \<Rightarrow> 'r \<Rightarrow> bool" where
  "draw_rejected L bit_length n B g =
     (case fst (sl_fill L (bit_length div 8) g) of
        Inl _ \<Rightarrow> False
      | Inr buf \<Rightarrow>
          let secret = from_le buf mod (n - 1) in
          secret \<le> bit_length * 2 \<or> n - 1 \<le> secret \<or>
          (case to_le_fixed (modpow 2 secret n) (bit_length div 8) of
             Inl _ \<Rightarrow> False
           | Inr A \<Rightarrow> from_le (expand_hash L (A @ B)) = 0))"

lemma nat_bits_0 [simp]: "nat_bits n = 0 \<longleftrightarrow> n = 0"
  by (subst nat_bits.simps) simp

lemma generate_ephemeral_step:
  "draw_rejected L bl n B g \<Longrightarrow> generate_ephemeral L bl n (n - 1) B g = generate_ephemeral L bl n (n - 1) B (next_draw L bl g)"
  "\<not> draw_rejected L bl n B g \<Longrightarrow> generate_ephemeral L bl n (n - 1) B g \<noteq> None"
  by (subst generate_ephemeral.simps, auto simp: draw_rejected_def next_draw_def Let_def split: prod.splits sum.splits)+

lemma rejected_diverges:
  assumes "\<forall>i. draw_rejected L bl n B ((next_draw L bl ^^ i) g)"
  shows "generate_ephemeral L bl n (n - 1) B g = None"
proof (rule ccontr)
  assume "generate_ephemeral L bl n (n - 1) B g \<noteq> None"
  then obtain r where run: "generate_ephemeral L bl n (n - 1) B g = Some r" by blast
  have "\<not> (m = n - 1 \<and> (\<forall>i. draw_rejected L bl n B ((next_draw L bl ^^ i) g)))" if "generate_ephemeral L bl n m B g = Some r" for m g L bl n B r
  proof (rule generate_ephemeral.raw_induct [where P = "\<lambda>L bl n m B g r. \<not> (m = n - 1 \<and> (\<forall>i. draw_rejected L bl n B ((next_draw L bl ^^ i) g)))",
        OF _ that], goal_cases)
    case (1 f L bl n m B g r)
    show ?case
    proof
      assume rej: "m = n - 1 \<and> (\<forall>i. draw_rejected L bl n B ((next_draw L bl ^^ i) g))"
      then have "draw_rejected L bl n B ((next_draw L bl ^^ 0) g)" by blast
      then have "f L bl n m B (next_draw L bl g) = Some r"
        using 1(2) rej by (auto simp: draw_rejected_def next_draw_def Let_def split: prod.splits sum.splits if_splits)
      then have "\<not> (m = n - 1 \<and> (\<forall>i. draw_rejected L bl n B ((next_draw L bl ^^ i) (next_draw L bl g))))" by (rule 1(1))
      moreover have "draw_rejected L bl n B ((next_draw L bl ^^ i) (next_draw L bl g))" for i
        using rej [THEN conjunct2, THEN spec, of "Suc i"] by (simp add: funpow_swap1)
      ultimately show False using rej by blast
    qed
  qed
  from this [OF run] assms show False by blast
qed

text \<open>The search for a client secret ends exactly when the random source ever gives a draw that
  is not thrown away.\<close>

theorem ephemeral_search_returns_iff:
  "generate_ephemeral L bit_length n (n - 1) B g \<noteq> None \<longleftrightarrow> (\<exists>i. \<not> draw_rejected L bit_length n B ((next_draw L bit_length ^^ i) g))"
proof
  assume "\<exists>i. \<not> draw_rejected L bit_length n B ((next_draw L bit_length ^^ i) g)"
  then obtain i where "\<not> draw_rejected L bit_length n B ((next_draw L bit_length ^^ i) g)" ..
  then show "generate_ephemeral L bit_length n (n - 1) B g \<noteq> None"
  proof (induction i arbitrary: g)
    case (Suc i)
    then have "generate_ephemeral L bit_length n (n - 1) B (next_draw L bit_length g) \<noteq> None"
      by (simp add: funpow_swap1)
    then show ?case
      using generate_ephemeral_step [of L bit_length n B g] by (cases "draw_rejected L bit_length n B g") simp_all
  qed (use generate_ephemeral_step(2) in auto)
next
  assume returns: "generate_ephemeral L bit_length n (n - 1) B g \<noteq> None"
  show "\<exists>i. \<not> draw_rejected L bit_length n B ((next_draw L bit_length ^^ i) g)"
  proof (rule ccontr)
    assume "\<not> ?thesis"
    then have "\<forall>i. draw_rejected L bit_length n B ((next_draw L bit_length ^^ i) g)" by simp
    from rejected_diverges [OF this] returns show False by simp
  qed
qed

section \<open>What the modulus test does not show\<close>

text \<open>
  The comment on the last test says that it proves the modulus prime.  It does not: this
  composite modulus passes.  The handshake needs only the order of two, and trusts the
  signature on the modulus for the rest.
\<close>

lemma modulus_test_accepts_composite:
  "check_params 19 476971 2 = Inr ()" "(476971 :: nat) = 11 * 131 * 331"
  by (simp_all add: check_params_def modpow_code efficient_funpow_code nat_bits.simps)

section \<open>Examples\<close>

text \<open>The group modulo 227, with a hash that sums its input, against a server whose secret is 7.\<close>

definition toy_encode :: "bytes \<Rightarrow> string" where
  "toy_encode = concat \<circ> map (\<lambda>b. [char_of (65 + unat b div 16), char_of (65 + unat b mod 16)])"

fun toy_decode :: "string \<Rightarrow> bytes" where
  "toy_decode (c # d # s) = of_nat ((of_char c - 65) * 16 + (of_char d - 65)) # toy_decode s"
| "toy_decode _ = []"

definition toy_srp :: "(unit, string, nat) srp_lib" where
  "toy_srp =
     \<lparr>sl_sha512 = (\<lambda>d. (if last d = 0 then sum_list d else 0) # replicate 63 0), sl_bcrypt = (\<lambda>_ _ _. Inr ''$2b$10$abc''),
      sl_public_key = (\<lambda>_. Inr ()), sl_cleartext = Inr, sl_verify = (\<lambda>_ _. Inr ()), sl_text = (\<lambda>m. m),
      sl_base64 = toy_encode, sl_base64_decode = (\<lambda>s. Inr (toy_decode s)),
      sl_fill = (\<lambda>n g. (Inr (replicate n (of_nat (g + 35))), Suc g))\<rparr>"

definition toy_modulus :: string where "toy_modulus = ''OD''"

lemma toy_base64: "sl_base64_decode toy_srp (sl_base64 toy_srp b) = Inr b"
proof -
  have char: "of_char (char_of (65 + n) :: char) = 65 + n" if "n < 16" for n :: nat using that by simp
  have "toy_decode (toy_encode b) = b"
  proof (induction b)
    case (Cons x b)
    have x: "unat x div 16 < 16" "unat x mod 16 < 16" "unat x div 16 * 16 + unat x mod 16 = unat x"
      using unsigned_less [of x, where ?'a = nat] by (simp_all add: div_less_iff_less_mult)
    have "toy_decode (toy_encode (x # b)) = of_nat (unat x) # toy_decode (toy_encode b)"
      unfolding toy_encode_def by (simp add: char [OF x(1)] char [OF x(2)] x(3) del: of_char_of)
    then show ?case using Cons by simp
  qed (simp add: toy_encode_def)
  then show ?thesis by (simp add: toy_srp_def)
qed

lemma trim_id: "list_all (\<lambda>c. \<not> is_space c) s \<Longrightarrow> trim s = s"
proof -
  assume "list_all (\<lambda>c. \<not> is_space c) s"
  then have "dropWhile is_space s = s" "dropWhile is_space (rev s) = rev s"
    by (auto simp: dropWhile_eq_self_iff hd_rev list_all_iff)
  then show ?thesis by (simp add: trim_def)
qed

lemma toy_trim: "trim (sl_base64 toy_srp b) = sl_base64 toy_srp b"
proof -
  have char: "\<not> is_space (char_of (65 + n))" if "n < 16" for n :: nat
  proof -
    have c: "of_char (char_of (65 + n) :: char) = 65 + n" using that by simp
    have "char_of (65 + n) \<noteq> CHR '' ''"
    proof
      assume "char_of (65 + n) = CHR '' ''"
      then have "65 + n = of_char (CHR '' '')" using c by simp
      then show False by simp
    qed
    then show ?thesis unfolding is_space_def c by simp
  qed
  have "list_all (\<lambda>c. \<not> is_space c) (toy_encode b)"
  proof (induction b)
    case (Cons x b)
    have "unat x div 16 < 16" using unsigned_less [of x, where ?'a = nat] by (simp add: div_less_iff_less_mult)
    then show ?case using Cons char by (simp add: toy_encode_def)
  qed (simp add: toy_encode_def)
  then show ?thesis by (simp add: toy_srp_def trim_id)
qed

lemma toy_expand: "from_le (expand_hash toy_srp d) = unat (sum_list d)" "length (sl_sha512 toy_srp d) = 64"
  by (simp_all add: toy_srp_def expand_hash_def from_le_append)

lemma toy_modulus_decoded: "verify_and_decode_modulus toy_srp toy_modulus = Inr [227]"
  by (simp add: verify_and_decode_modulus_def toy_srp_def toy_modulus_def trim_def is_space_def)

lemma toy_hash: "\<exists>h. hash_password_v3 toy_srp pw salt [227] = Inr h \<and> from_le h = 129" if "length salt = 10"
proof -
  have "sl_bcrypt toy_srp pw 10 s = Inr ''$2b$10$abc''" for s by (simp add: toy_srp_def)
  then show ?thesis using that by (simp add: hash_password_v3_def as_bytes_def toy_expand)
qed

lemma toy_fixed: "n < 256 \<Longrightarrow> to_le_fixed n (Suc 0) = Inr [of_nat n]"
  by (simp add: to_le_fixed_def to_bytes_le_def le_digits.simps)

lemma toy_params: "check_params 8 227 35 = Inr ()"
  by (simp add: check_params_def modpow_code efficient_funpow_code nat_bits.simps)

lemma toy_powers:
  "modpow 2 129 227 = 67" "modpow 2 7 227 = 128" "modpow 2 35 227 = 46" "modpow 128 88 227 = 131"
  by (simp_all add: modpow_code efficient_funpow_code)

lemma toy_verifier:
  "generate_verifier toy_srp pw toy_modulus 8 0 =
     Some (Inr \<lparr>sf_salt = sl_base64 toy_srp (replicate 10 35), sf_verifier = sl_base64 toy_srp [67]\<rparr>, 1)"
proof -
  have "sl_fill toy_srp 10 0 = (Inr (replicate 10 35), 1)" by (simp add: toy_srp_def)
  moreover obtain h where "hash_password_v3 toy_srp pw (replicate 10 35) [227] = Inr h" "from_le h = 129"
    using toy_hash [of "replicate 10 35"] by auto
  ultimately show ?thesis
    by (simp add: generate_verifier_def toy_modulus_decoded toy_powers toy_fixed)
qed

lemma toy_multiplier: "srp_multiplier toy_srp 227 1 = Inr 2"
  by (simp add: srp_multiplier_def toy_fixed toy_expand)

lemma toy_proofs:
  "generate_proofs toy_srp 4 pw (replicate 10 35) toy_modulus [35] 8 0 = Some (Inr
     \<lparr>sp_client_ephemeral = [46], sp_client_proof = expand_hash toy_srp [46, 35, 131],
      sp_expected_server_proof = expand_hash toy_srp ([46] @ expand_hash toy_srp [46, 35, 131] @ [131])\<rparr>, 1)"
proof -
  obtain h where h: "hash_password_v3 toy_srp pw (replicate 10 35) [227] = Inr h" "from_le h = 129"
    using toy_hash [of "replicate 10 35"] by auto
  have "srp_setup toy_srp 4 pw (replicate 10 35) toy_modulus [35] 8 = Inr (227, 129, 2)"
    using h by (simp add: srp_setup_def toy_modulus_decoded toy_params toy_multiplier [unfolded One_nat_def])
  moreover have "generate_ephemeral toy_srp 8 227 226 [35] 0 = Some (Inr (35, [46], 81), 1)"
  proof -
    have "sl_fill toy_srp 1 0 = (Inr [35], 1)" by (simp add: toy_srp_def)
    then show ?thesis
      by (subst generate_ephemeral.simps) (simp add: toy_powers toy_fixed toy_expand)
  qed
  moreover have "finish_proofs toy_srp 227 226 1 2 129 [35] 35 [46] 81 = Inr
     \<lparr>sp_client_ephemeral = [46], sp_client_proof = expand_hash toy_srp [46, 35, 131],
      sp_expected_server_proof = expand_hash toy_srp ([46] @ expand_hash toy_srp [46, 35, 131] @ [131])\<rparr>"
    by (simp add: finish_proofs_def toy_powers toy_fixed Let_def)
  ultimately show ?thesis by (simp add: generate_proofs_def)
qed

theorem srp_handshake_agrees_witness:
  "server_answer toy_srp (from_le [227]) 8 (from_le [67]) 7 [35] [46] (expand_hash toy_srp [46, 35, 131]) =
     Some (expand_hash toy_srp ([46] @ expand_hash toy_srp [46, 35, 131] @ [131]))"
proof -
  have "honest_ephemeral toy_srp toy_modulus 8 (from_le [67]) 7 [35]"
    by (simp add: honest_ephemeral_def toy_modulus_decoded toy_multiplier [unfolded One_nat_def] toy_powers)
  then show ?thesis
    using srp_handshake_agrees [OF toy_verifier toy_base64 _ _ toy_proofs _ toy_modulus_decoded, of "[67]" 7]
    by (simp add: toy_base64)
qed

theorem srp_proofs_shape_witness:
  "length (expand_hash toy_srp [46, 35, 131]) = 256"
  using srp_proofs_shape [OF toy_proofs toy_expand(2)] by simp

end
