(* ===== verification/Sharing.thy ===== *)
theory Sharing
  imports Node_Ops Srp
begin

text \<open>
  Sharing nodes (\<open>proton-drive-rs/src/client.rs\<close>): shares and their members, invitations to
  Proton users and to outsiders, invitations received, public links and bookmarks.
  \<open>share_env\<close> is what this uses beyond the node operations; \<open>account_sharing\<close> builds it
  from the account, the encryption layer and \<open>Srp\<close>.  Lower-casing and lossy decoding of
  text are library functions and fields of it.
\<close>

section \<open>Wire types and the interface\<close>

record 'x anchored_page =
  an_items :: "'x list"
  an_anchor :: "string option"
  an_more :: bool

record shared_by_me_link_dto =
  sbl_share_id :: share_id
  sbl_link_id :: link_id
  sbl_context_share_id :: "share_id option"

record share_member_dto =
  smd_member_id :: share_membership_id
  smd_inviter_email :: string
  smd_email :: string
  smd_permissions :: "int option"
  smd_create_time :: int

record create_share_request =
  csr_root_link_id :: link_id
  csr_address_id :: address_id
  csr_name :: string
  csr_share_key :: string
  csr_share_passphrase :: string
  csr_share_passphrase_signature :: string
  csr_passphrase_key_packet :: string
  csr_name_key_packet :: string

record invite_email_details_dto =
  ied_message :: "string option"
  ied_item_name :: "string option"

record invite_proton_user_invitation_dto =
  ipi_inviter_email :: string
  ipi_invitee_email :: string
  ipi_permissions :: int
  ipi_key_packet :: string
  ipi_key_packet_signature :: string
  ipi_external_invitation_id :: "string option"

record invite_proton_user_request =
  ivr_invitation :: invite_proton_user_invitation_dto
  ivr_email_details :: invite_email_details_dto

record external_invitation_dto =
  exd_inviter_address_id :: address_id
  exd_invitee_email :: string
  exd_permissions :: int
  exd_external_invitation_signature :: string

record invite_external_user_request =
  ier_external_invitation :: external_invitation_dto
  ier_email_details :: invite_email_details_dto

record public_link_settings_dto =
  pls_permissions :: int
  pls_flags :: int
  pls_share_password_salt :: string
  pls_share_passphrase_key_packet :: string
  pls_password :: string
  pls_url_password_salt :: string
  pls_srp_verifier :: string
  pls_srp_modulus_id :: string
  pls_max_accesses :: int

record create_public_link_request =
  cpl_creator_email :: string
  cpl_expiration_time :: "int option"
  cpl_settings :: public_link_settings_dto

record update_public_link_request =
  upl_expiration_time :: "int option"
  upl_settings :: public_link_settings_dto

record share_url_dto =
  su_share_url_id :: string
  su_share_id :: "share_id option"
  su_public_url :: string
  su_password :: "string option"
  su_create_time :: int
  su_expiration_time :: "int option"
  su_permissions :: "int option"
  su_flags :: int
  su_num_accesses :: int

record modulus_response =
  mo_modulus :: string
  mo_modulus_id :: string

record incoming_invitation_dto =
  iid_invitation_id :: string
  iid_inviter_email :: string
  iid_invitee_email :: string
  iid_key_packet :: string
  iid_key_packet_signature :: string
  iid_permissions :: "int option"
  iid_create_time :: int

record invitation_share_dto =
  isd_share_key :: string
  isd_passphrase :: string
  isd_creator_email :: string
  isd_volume_id :: string
  isd_share_target_type :: int

record invitation_link_dto =
  ild_link_id :: string
  ild_link_type :: int
  ild_mime_type :: "string option"
  ild_name :: string

record invitation_details_response =
  idr_invitation :: incoming_invitation_dto
  idr_share :: invitation_share_dto
  idr_link :: invitation_link_dto

record bookmark_token_dto =
  bt_token :: string
  bt_share_key :: string
  bt_share_passphrase :: string
  bt_share_password_salt :: string
  bt_link_type :: int
  bt_mime_type :: "string option"
  bt_name :: string
  bt_node_key :: string
  bt_node_passphrase :: string
  bt_content_key_packet :: "string option"

record bookmark_dto =
  bd_token :: bookmark_token_dto
  bd_create_time :: int
  bd_encrypted_url_password :: "string option"

record bookmark_share_url_dto =
  bs_encrypted_url_password :: string
  bs_address_id :: address_id
  bs_address_key_id :: address_key_id

record 'c new_share =
  nsh_key_armored :: string
  nsh_passphrase :: string
  nsh_passphrase_signature :: string
  nsh_passphrase_key_packet :: string
  nsh_name_key_packet :: string
  nsh_session_key :: 'c

record ('k, 'p, 's, 'c, 'w) share_env =
  sv_ops :: "('k, 'p, 's, 'w) ops_env"
  sv_addresses :: "(address list, 'w) op"
  sv_lowercase :: "string \<Rightarrow> string"
  sv_utf8_lossy :: "bytes \<Rightarrow> string"
  sv_base64 :: "bytes \<Rightarrow> string"
  sv_base64_decode :: "string \<Rightarrow> string + bytes"
  sv_random :: "nat \<Rightarrow> 'w \<Rightarrow> bytes \<times> 'w"
  sv_now_epoch_seconds :: "'w \<Rightarrow> int"
  sv_recover_session_key :: "'k \<Rightarrow> string \<Rightarrow> 'c result"
  sv_share_material :: "'k \<Rightarrow> 'c \<Rightarrow> 'c \<Rightarrow> 'k \<Rightarrow> ('c new_share, 'w) op"
  sv_encrypt_invitation :: "'c \<Rightarrow> 'k \<Rightarrow> 'p \<Rightarrow> (string \<times> string, 'w) op"
  sv_encrypt_external :: "'c \<Rightarrow> 'k \<Rightarrow> string \<Rightarrow> (string, 'w) op"
  sv_accept_invitation :: "string \<Rightarrow> 'k list \<Rightarrow> 'k \<Rightarrow> (string, 'w) op"
  sv_encrypt_with_password :: "'c \<Rightarrow> bytes \<Rightarrow> (bytes, 'w) op"
  sv_decrypt_with_keys :: "string \<Rightarrow> 'k list \<Rightarrow> bytes result"
  sv_decrypt_with_password :: "string \<Rightarrow> bytes \<Rightarrow> bytes result"
  sv_from_armored :: "string \<Rightarrow> bytes \<Rightarrow> 'k result"
  sv_derive_key_passphrase :: "bytes \<Rightarrow> bytes \<Rightarrow> bytes result"
  sv_generate_verifier :: "bytes \<Rightarrow> string \<Rightarrow> nat \<Rightarrow> (srp_verifier, 'w) op"
  sv_get_shared_by_me :: "string \<Rightarrow> (shared_by_me_link_dto anchored_page, 'w) op"
  sv_get_members :: "string \<Rightarrow> (share_member_dto list, 'w) op"
  sv_get_invitations :: "string \<Rightarrow> (share_invitation_dto list, 'w) op"
  sv_get_external_invitations :: "string \<Rightarrow> (external_invitation_response_dto list, 'w) op"
  sv_post_share :: "string \<Rightarrow> create_share_request \<Rightarrow> (share_id, 'w) op"
  sv_post_invitation :: "string \<Rightarrow> invite_proton_user_request \<Rightarrow> (share_invitation_dto, 'w) op"
  sv_post_external_invitation :: "string \<Rightarrow> invite_external_user_request \<Rightarrow> (external_invitation_response_dto, 'w) op"
  sv_put_permissions :: "string \<Rightarrow> int \<Rightarrow> (unit, 'w) op"
  sv_get_modulus :: "string \<Rightarrow> (modulus_response, 'w) op"
  sv_post_public_link :: "string \<Rightarrow> create_public_link_request \<Rightarrow> (share_url_dto, 'w) op"
  sv_put_public_link :: "string \<Rightarrow> update_public_link_request \<Rightarrow> (unit, 'w) op"
  sv_get_public_links :: "string \<Rightarrow> (share_url_dto list, 'w) op"
  sv_get_incoming :: "string \<Rightarrow> (string anchored_page, 'w) op"
  sv_get_invitation :: "string \<Rightarrow> (invitation_details_response, 'w) op"
  sv_post_accept :: "string \<Rightarrow> string \<Rightarrow> (unit, 'w) op"
  sv_post_reject :: "string \<Rightarrow> (unit, 'w) op"
  sv_get_bookmarks :: "string \<Rightarrow> (bookmark_dto list, 'w) op"
  sv_post_bookmark :: "string \<Rightarrow> bookmark_share_url_dto \<Rightarrow> (unit, 'w) op"

definition sv_drive :: "('k, 'p, 's, 'c, 'w) share_env \<Rightarrow> ('k, 's, 'w) drive_env" where
  "sv_drive E = no_drive (sv_ops E)"

text \<open>\<open>AccountClient::public_keys\<close> never fails.\<close>

definition public_keys_of ::
  "('k, 'p, 's, 'c, 'w) share_env \<Rightarrow> string \<Rightarrow> ('p list, ('k, 's, 'w) drive) op" where
  "public_keys_of E email = on_world (\<lambda>w. case ne_public_keys (no_nodes (sv_ops E)) email w of (ks, w') \<Rightarrow> Some (Inr ks, w'))"

definition share_delete :: "('k, 'p, 's, 'c, 'w) share_env \<Rightarrow> string \<Rightarrow> (unit, ('k, 's, 'w) drive) op" where
  "share_delete E path = on_world (no_delete (sv_ops E) path)"

section \<open>Paged listings\<close>

text \<open>Pages follow the anchor until the server says there is no more or gives none.\<close>

partial_function (option) anchor_pages ::
  "(string option \<Rightarrow> ('x anchored_page, 'd) op) \<Rightarrow> string option \<Rightarrow> 'x list \<Rightarrow> 'd \<Rightarrow> ('x list result \<times> 'd) option" where
  [code]: "anchor_pages get anchor acc d =
     op_bind (get anchor)
       (\<lambda>page d1.
          if next_anchor (an_anchor page) (an_more page) = None then Some (Inr (acc @ an_items page), d1)
          else anchor_pages get (next_anchor (an_anchor page) (an_more page)) (acc @ an_items page) d1) d"

definition anchor_path :: "string \<Rightarrow> string option \<Rightarrow> string" where
  "anchor_path path anchor = (case anchor of Some a \<Rightarrow> path @ ''?AnchorID='' @ a | None \<Rightarrow> path)"

definition page_shared_by_me ::
  "('k, 'p, 's, 'c, 'w) share_env \<Rightarrow> volume_id \<Rightarrow> (node_uid list, ('k, 's, 'w) drive) op" where
  "page_shared_by_me E vid =
     op_bind (anchor_pages (\<lambda>a. on_world (sv_get_shared_by_me E (anchor_path (''v2/volumes/'' @ volume_id_str vid @ ''/shares'') a))) None [])
       (\<lambda>links. op_return (map (\<lambda>l. NodeUid_new vid (sbl_link_id l)) links))"

definition enumerate_shared_by_me_node_uids ::
  "('k, 'p, 's, 'c, 'w) share_env \<Rightarrow> (node_uid list, ('k, 's, 'w) drive) op" where
  "enumerate_shared_by_me_node_uids E = op_bind (drive_main_volume_id (sv_drive E)) (page_shared_by_me E)"

definition enumerate_photos_shared_by_me_node_uids ::
  "('k, 'p, 's, 'c, 'w) share_env \<Rightarrow> (node_uid list, ('k, 's, 'w) drive) op" where
  "enumerate_photos_shared_by_me_node_uids E =
     op_bind (ensure_photos (sv_drive E)) (\<lambda>exists.
       if \<not> exists then op_return []
       else op_bind (op_get (\<lambda>d. uid_volume (the (dc_photos_root (drive_cache_of d))))) (page_shared_by_me E))"

definition enumerate_shared_with_me ::
  "('k, 'p, 's, 'c, 'w) share_env \<Rightarrow> (shared_with_me_item list, ('k, 's, 'w) drive) op" where
  "enumerate_shared_with_me E = page_shared_with_me (sv_drive E)"

definition enumerate_shared_with_me_node_uids ::
  "('k, 'p, 's, 'c, 'w) share_env \<Rightarrow> (node_uid list, ('k, 's, 'w) drive) op" where
  "enumerate_shared_with_me_node_uids E =
     op_bind (page_shared_with_me (sv_drive E)) (\<lambda>items. op_return (map swm_uid items))"

section \<open>The share of a node\<close>

definition own_link ::
  "('k, 'p, 's, 'c, 'w) share_env \<Rightarrow> node_uid \<Rightarrow> (link_details_dto option, ('k, 's, 'w) drive) op" where
  "own_link E uid =
     op_bind (get_link_details (sv_drive E) (uid_volume uid) [uid_link uid]) (\<lambda>links.
       op_return (find (\<lambda>detail. l_id (ld_link detail) = uid_link uid) links))"

definition node_share_id ::
  "('k, 'p, 's, 'c, 'w) share_env \<Rightarrow> node_uid \<Rightarrow> (share_id option, ('k, 's, 'w) drive) op" where
  "node_share_id E uid =
     op_bind (own_link E uid) (\<lambda>detail. op_return (map_option ls_share_id (Option.bind detail ld_sharing)))"

definition share_path :: "share_id \<Rightarrow> string \<Rightarrow> string" where
  "share_path sid rest = ''v2/shares/'' @ share_id_str sid @ rest"

definition remove_share_member ::
  "('k, 'p, 's, 'c, 'w) share_env \<Rightarrow> share_id \<Rightarrow> share_membership_id \<Rightarrow> (unit, ('k, 's, 'w) drive) op" where
  "remove_share_member E sid mid = share_delete E (share_path sid (''/members/'' @ share_membership_id_str mid))"

definition leave_shared_node ::
  "('k, 'p, 's, 'c, 'w) share_env \<Rightarrow> node_uid \<Rightarrow> (unit, ('k, 's, 'w) drive) op" where
  "leave_shared_node E uid =
     op_bind (own_link E uid) (\<lambda>detail.
     op_bind (op_ok_or (InvalidOperation ''you can leave only an item that is shared with you'')
                (Option.bind detail ld_membership)) (\<lambda>membership.
       remove_share_member E (sms_share_id membership) (sms_membership_id membership)))"

definition ensure_node_share ::
  "('k, 'p, 's, 'c, 'w) share_env \<Rightarrow> node_uid \<Rightarrow> (share_id \<times> 'c \<times> string \<times> 'k, ('k, 's, 'w) drive) op" where
  "ensure_node_share E uid =
     op_bind (own_link E uid) (\<lambda>found.
     op_bind (op_ok_or (InvalidOperation ''node not found'') found) (\<lambda>detail.
     let link = ld_link detail in
     op_bind (resolve_parent_key (sv_drive E) (uid_volume uid) link) (\<lambda>parent_key.
     op_bind (op_of (de_decrypt_link (sv_drive E) parent_key link)) (\<lambda>(nkey, _).
     op_bind (membership_address_for (sv_drive E) uid) (\<lambda>(address_id, inviter_email, address_key).
     case ld_sharing detail of
       Some sharing \<Rightarrow>
         op_bind (on_world (de_get_share (sv_drive E) (''shares/'' @ share_id_str (ls_share_id sharing)))) (\<lambda>share.
         op_bind (op_of (sv_recover_session_key E nkey (sh_passphrase share))) (\<lambda>share_sk.
           op_return (ls_share_id sharing, share_sk, inviter_email, address_key)))
     | None \<Rightarrow>
         op_bind (op_of (sv_recover_session_key E parent_key (l_passphrase link))) (\<lambda>passphrase_sk.
         op_bind (op_of (sv_recover_session_key E parent_key (l_name link))) (\<lambda>name_sk.
         op_bind (on_world (sv_share_material E nkey passphrase_sk name_sk address_key)) (\<lambda>material.
         op_bind (on_world (sv_post_share E (''volumes/'' @ volume_id_str (uid_volume uid) @ ''/shares'')
             \<lparr>csr_root_link_id = uid_link uid, csr_address_id = address_id, csr_name = ''New Share'',
              csr_share_key = nsh_key_armored material, csr_share_passphrase = nsh_passphrase material,
              csr_share_passphrase_signature = nsh_passphrase_signature material,
              csr_passphrase_key_packet = nsh_passphrase_key_packet material,
              csr_name_key_packet = nsh_name_key_packet material\<rparr>)) (\<lambda>sid.
           op_return (sid, nsh_session_key material, inviter_email, address_key))))))))))"

section \<open>Members and invitations\<close>

definition list_share_members_inner ::
  "('k, 'p, 's, 'c, 'w) share_env \<Rightarrow> share_id \<Rightarrow> (share_member list, ('k, 's, 'w) drive) op" where
  "list_share_members_inner E sid =
     op_bind (on_world (sv_get_members E (share_path sid ''/members''))) (\<lambda>members.
       op_return (map (\<lambda>m. \<lparr>mem_share_id = sid, mem_membership_id = smd_member_id m, mem_email = smd_email m,
         mem_added_by_email = smd_inviter_email m, mem_role = from_permissions (smd_permissions m),
         mem_invitation_time = smd_create_time m\<rparr>) members))"

definition list_share_invitations_inner ::
  "('k, 'p, 's, 'c, 'w) share_env \<Rightarrow> share_id \<Rightarrow> (share_invitation list, ('k, 's, 'w) drive) op" where
  "list_share_invitations_inner E sid =
     op_bind (on_world (sv_get_invitations E (share_path sid ''/invitations''))) (\<lambda>is.
       op_return (map (invitation_from_dto sid) is))"

definition list_external_invitations_inner ::
  "('k, 'p, 's, 'c, 'w) share_env \<Rightarrow> share_id \<Rightarrow> (external_invitation list, ('k, 's, 'w) drive) op" where
  "list_external_invitations_inner E sid =
     op_bind (on_world (sv_get_external_invitations E (share_path sid ''/external-invitations''))) (\<lambda>is.
       op_return (map (external_invitation_from_dto sid) is))"

text \<open>A listing of a node's share is empty when the node is not shared.\<close>

definition of_shared ::
  "('k, 'p, 's, 'c, 'w) share_env \<Rightarrow> node_uid \<Rightarrow> (share_id \<Rightarrow> ('a list, ('k, 's, 'w) drive) op) \<Rightarrow> ('a list, ('k, 's, 'w) drive) op" where
  "of_shared E uid list_inner =
     op_bind (node_share_id E uid) (\<lambda>found. case found of Some sid \<Rightarrow> list_inner sid | None \<Rightarrow> op_return [])"

definition list_share_members where "list_share_members E uid = of_shared E uid (list_share_members_inner E)"
definition list_share_invitations where "list_share_invitations E uid = of_shared E uid (list_share_invitations_inner E)"
definition list_external_invitations where "list_external_invitations E uid = of_shared E uid (list_external_invitations_inner E)"

definition update_member_role ::
  "('k, 'p, 's, 'c, 'w) share_env \<Rightarrow> share_member \<Rightarrow> member_role \<Rightarrow> (unit, ('k, 's, 'w) drive) op" where
  "update_member_role E m role =
     op_bind (op_ok_or (InvalidOperation ''cannot set a member to the inherited role'') (to_permissions role)) (\<lambda>permissions.
       on_world (sv_put_permissions E (share_path (mem_share_id m) (''/members/'' @ share_membership_id_str (mem_membership_id m))) permissions))"

definition remove_member ::
  "('k, 'p, 's, 'c, 'w) share_env \<Rightarrow> share_member \<Rightarrow> (unit, ('k, 's, 'w) drive) op" where
  "remove_member E m = remove_share_member E (mem_share_id m) (mem_membership_id m)"

definition invitation_path :: "share_invitation \<Rightarrow> string" where
  "invitation_path i = share_path (inv_share_id i) (''/invitations/'' @ inv_invitation_id i)"

definition update_invitation_role ::
  "('k, 'p, 's, 'c, 'w) share_env \<Rightarrow> share_invitation \<Rightarrow> member_role \<Rightarrow> (unit, ('k, 's, 'w) drive) op" where
  "update_invitation_role E i role =
     op_bind (op_ok_or (InvalidOperation ''cannot set an invitation to the inherited role'') (to_permissions role)) (\<lambda>permissions.
       on_world (sv_put_permissions E (invitation_path i) permissions))"

definition delete_invitation ::
  "('k, 'p, 's, 'c, 'w) share_env \<Rightarrow> share_invitation \<Rightarrow> (unit, ('k, 's, 'w) drive) op" where
  "delete_invitation E i = share_delete E (invitation_path i)"

definition delete_external_invitation ::
  "('k, 'p, 's, 'c, 'w) share_env \<Rightarrow> external_invitation \<Rightarrow> (unit, ('k, 's, 'w) drive) op" where
  "delete_external_invitation E i = share_delete E (share_path (inv_share_id i) (''/external-invitations/'' @ inv_invitation_id i))"

definition inherited_role :: proton_error where
  "inherited_role = InvalidOperation ''cannot invite a user with the inherited role''"

fun invite_proton_users ::
  "('k, 'p, 's, 'c, 'w) share_env \<Rightarrow> share_id \<Rightarrow> 'c \<Rightarrow> string \<Rightarrow> 'k \<Rightarrow> string option \<Rightarrow> string set
     \<Rightarrow> (string \<times> member_role) list \<Rightarrow> share_invitation list \<Rightarrow> (share_invitation list, ('k, 's, 'w) drive) op" where
  "invite_proton_users E sid sk inviter_email inviter_key message already [] created = op_return created"
| "invite_proton_users E sid sk inviter_email inviter_key message already ((email, role) # invitees) created =
     (if sv_lowercase E email \<in> already
      then invite_proton_users E sid sk inviter_email inviter_key message already invitees created
      else
        op_bind (op_ok_or inherited_role (to_permissions role)) (\<lambda>permissions.
        op_bind (public_keys_of E email) (\<lambda>keys.
        op_bind (op_ok_or (InvalidOperation (''no public key for invitee '' @ email))
                   (case keys of [] \<Rightarrow> None | k # _ \<Rightarrow> Some k)) (\<lambda>key.
        op_bind (on_world (sv_encrypt_invitation E sk inviter_key key)) (\<lambda>(packet, signature).
        op_bind (on_world (sv_post_invitation E (share_path sid ''/invitations'')
            \<lparr>ivr_invitation = \<lparr>ipi_inviter_email = inviter_email, ipi_invitee_email = email, ipi_permissions = permissions,
               ipi_key_packet = packet, ipi_key_packet_signature = signature, ipi_external_invitation_id = None\<rparr>,
             ivr_email_details = \<lparr>ied_message = message, ied_item_name = None\<rparr>\<rparr>)) (\<lambda>dto.
          invite_proton_users E sid sk inviter_email inviter_key message already invitees
            (created @ [invitation_from_dto sid dto])))))))"

definition share_node ::
  "('k, 'p, 's, 'c, 'w) share_env \<Rightarrow> node_uid \<Rightarrow> (string \<times> member_role) list \<Rightarrow> string option
     \<Rightarrow> (share_invitation list, ('k, 's, 'w) drive) op" where
  "share_node E uid invitees message =
     op_bind (ensure_node_share E uid) (\<lambda>(sid, sk, inviter_email, inviter_key).
     op_bind (list_share_invitations_inner E sid) (\<lambda>invites.
     op_bind (list_share_members_inner E sid) (\<lambda>members.
       invite_proton_users E sid sk inviter_email inviter_key message
         ((\<lambda>i. sv_lowercase E (inv_invitee_email i)) ` set invites \<union> (\<lambda>m. sv_lowercase E (mem_email m)) ` set members)
         invitees [])))"

fun invite_outsiders ::
  "('k, 'p, 's, 'c, 'w) share_env \<Rightarrow> share_id \<Rightarrow> 'c \<Rightarrow> address_id \<Rightarrow> 'k \<Rightarrow> string option \<Rightarrow> string set
     \<Rightarrow> (string \<times> member_role) list \<Rightarrow> external_invitation list \<Rightarrow> (external_invitation list, ('k, 's, 'w) drive) op" where
  "invite_outsiders E sid sk aid inviter_key message already [] created = op_return created"
| "invite_outsiders E sid sk aid inviter_key message already ((email, role) # invitees) created =
     (if sv_lowercase E email \<in> already
      then invite_outsiders E sid sk aid inviter_key message already invitees created
      else
        op_bind (op_ok_or inherited_role (to_permissions role)) (\<lambda>permissions.
        op_bind (on_world (sv_encrypt_external E sk inviter_key email)) (\<lambda>signature.
        op_bind (on_world (sv_post_external_invitation E (share_path sid ''/external-invitations'')
            \<lparr>ier_external_invitation = \<lparr>exd_inviter_address_id = aid, exd_invitee_email = email, exd_permissions = permissions,
               exd_external_invitation_signature = signature\<rparr>,
             ier_email_details = \<lparr>ied_message = message, ied_item_name = None\<rparr>\<rparr>)) (\<lambda>dto.
          invite_outsiders E sid sk aid inviter_key message already invitees (created @ [external_invitation_from_dto sid dto])))))"

definition invite_external_users ::
  "('k, 'p, 's, 'c, 'w) share_env \<Rightarrow> node_uid \<Rightarrow> (string \<times> member_role) list \<Rightarrow> string option
     \<Rightarrow> (external_invitation list, ('k, 's, 'w) drive) op" where
  "invite_external_users E uid invitees message =
     op_bind (ensure_node_share E uid) (\<lambda>(sid, sk, _, inviter_key).
     op_bind (membership_address (sv_drive E)) (\<lambda>(aid, _, _).
     op_bind (list_external_invitations_inner E sid) (\<lambda>outside.
     op_bind (list_share_invitations_inner E sid) (\<lambda>invites.
     op_bind (list_share_members_inner E sid) (\<lambda>members.
       invite_outsiders E sid sk aid inviter_key message
         ((\<lambda>i. sv_lowercase E (inv_invitee_email i)) ` set outside \<union> (\<lambda>i. sv_lowercase E (inv_invitee_email i)) ` set invites \<union>
          (\<lambda>m. sv_lowercase E (mem_email m)) ` set members)
         invitees [])))))"

text \<open>Whoever has no public key is an outsider.\<close>

fun split_invitees ::
  "('k, 'p, 's, 'c, 'w) share_env \<Rightarrow> (string \<times> member_role) list \<Rightarrow> (string \<times> member_role) list \<Rightarrow> (string \<times> member_role) list
     \<Rightarrow> ((string \<times> member_role) list \<times> (string \<times> member_role) list, ('k, 's, 'w) drive) op" where
  "split_invitees E [] proton outside = op_return (proton, outside)"
| "split_invitees E ((email, role) # invitees) proton outside =
     op_bind (public_keys_of E email) (\<lambda>keys.
       if keys = [] then split_invitees E invitees proton (outside @ [(email, role)])
       else split_invitees E invitees (proton @ [(email, role)]) outside)"

definition invite_users ::
  "('k, 'p, 's, 'c, 'w) share_env \<Rightarrow> node_uid \<Rightarrow> (string \<times> member_role) list \<Rightarrow> string option
     \<Rightarrow> (nat \<times> nat, ('k, 's, 'w) drive) op" where
  "invite_users E uid invitees message =
     op_bind (split_invitees E invitees [] []) (\<lambda>(proton, outside).
     op_bind (if proton = [] then op_return 0
              else op_bind (share_node E uid proton message) (\<lambda>c. op_return (length c))) (\<lambda>proton_invited.
     op_bind (if outside = [] then op_return 0
              else op_bind (invite_external_users E uid outside message) (\<lambda>c. op_return (length c))) (\<lambda>external_invited.
       op_return (proton_invited, external_invited))))"

section \<open>Invitations received\<close>

definition own_address_keys ::
  "('k, 'p, 's, 'c, 'w) share_env \<Rightarrow> string \<Rightarrow> ('k list \<times> 'k, ('k, 's, 'w) drive) op" where
  "own_address_keys E email =
     op_bind (on_world (sv_addresses E)) (\<lambda>addresses.
     op_bind (op_ok_or (InvalidOperation (''no own address for '' @ email))
                (find (\<lambda>a. sv_lowercase E (adr_email a) = sv_lowercase E email) addresses)) (\<lambda>address.
     op_bind (on_world (de_address_private_keys (sv_drive E) (adr_id address))) (\<lambda>keys.
     op_bind (op_ok_or (InvalidOperation ''address has no primary key'')
                (if adr_primary_key_index address < length keys then Some (keys ! adr_primary_key_index address) else None)) (\<lambda>key.
       op_return (keys, key)))))"

definition get_incoming_invitation ::
  "('k, 'p, 's, 'c, 'w) share_env \<Rightarrow> string \<Rightarrow> (invitation_details_response, ('k, 's, 'w) drive) op" where
  "get_incoming_invitation E iid = on_world (sv_get_invitation E (''v2/shares/invitations/'' @ iid))"

text \<open>The name of a shared item, from its share's passphrase; every failure leaves it unknown.\<close>

definition shared_item_name ::
  "('k, 'p, 's, 'c, 'w) share_env \<Rightarrow> bytes option \<Rightarrow> string \<Rightarrow> string \<Rightarrow> string option" where
  "shared_item_name E passphrase share_key name =
     Option.bind passphrase (\<lambda>p.
     case sv_from_armored E share_key p of
       Inl _ \<Rightarrow> None
     | Inr key \<Rightarrow> (case de_decrypt_message (sv_drive E) key name of Inl _ \<Rightarrow> None | Inr b \<Rightarrow> from_utf8 b))"

definition decrypt_invitation_name ::
  "('k, 'p, 's, 'c, 'w) share_env \<Rightarrow> invitation_details_response \<Rightarrow> (string option, ('k, 's, 'w) drive) op" where
  "decrypt_invitation_name E detail =
     op_bind (op_try (own_address_keys E (iid_invitee_email (idr_invitation detail)))) (\<lambda>r.
     case r of
       Inl _ \<Rightarrow> op_return None
     | Inr (keys, _) \<Rightarrow>
         op_return (shared_item_name E
           (find_map_ok (\<lambda>k. de_decrypt_message (sv_drive E) k (isd_passphrase (idr_share detail))) keys)
           (isd_share_key (idr_share detail)) (ild_name (idr_link detail))))"

definition incoming_invitation_detail ::
  "('k, 'p, 's, 'c, 'w) share_env \<Rightarrow> string \<Rightarrow> (incoming_invitation, ('k, 's, 'w) drive) op" where
  "incoming_invitation_detail E iid =
     op_bind (get_incoming_invitation E iid) (\<lambda>detail.
     op_bind (decrypt_invitation_name E detail) (\<lambda>name.
       let i = idr_invitation detail in op_return
       \<lparr>inc_invitation_id = iid_invitation_id i, inc_inviter_email = iid_inviter_email i,
        inc_invitee_email = iid_invitee_email i, inc_role = from_permissions (iid_permissions i),
        inc_invitation_time = iid_create_time i,
        inc_node_uid = NodeUid_new (VolumeId (isd_volume_id (idr_share detail))) (LinkId (ild_link_id (idr_link detail))),
        inc_node_name = name, inc_is_folder = (ild_link_type (idr_link detail) = 1)\<rparr>))"

text \<open>An item that fails to load is left out.\<close>

fun load_each :: "('x \<Rightarrow> ('a, 'd) op) \<Rightarrow> 'x list \<Rightarrow> 'a list \<Rightarrow> ('a list, 'd) op" where
  "load_each load [] acc = op_return acc"
| "load_each load (x # xs) acc =
     op_bind (op_try (load x)) (\<lambda>r. load_each load xs (case r of Inr y \<Rightarrow> acc @ [y] | Inl _ \<Rightarrow> acc))"

definition list_incoming_invitations ::
  "('k, 'p, 's, 'c, 'w) share_env \<Rightarrow> (incoming_invitation list, ('k, 's, 'w) drive) op" where
  "list_incoming_invitations E =
     op_bind (anchor_pages (\<lambda>a. on_world (sv_get_incoming E (anchor_path ''v2/shares/invitations'' a))) None [])
       (\<lambda>ids. load_each (incoming_invitation_detail E) ids [])"

definition accept_incoming_invitation ::
  "('k, 'p, 's, 'c, 'w) share_env \<Rightarrow> string \<Rightarrow> (unit, ('k, 's, 'w) drive) op" where
  "accept_incoming_invitation E iid =
     op_bind (get_incoming_invitation E iid) (\<lambda>detail.
     op_bind (own_address_keys E (iid_invitee_email (idr_invitation detail))) (\<lambda>(keys, signing_key).
     op_bind (on_world (sv_accept_invitation E (iid_key_packet (idr_invitation detail)) keys signing_key)) (\<lambda>signature.
       on_world (sv_post_accept E (''v2/shares/invitations/'' @ iid @ ''/accept'') signature))))"

definition reject_invitation ::
  "('k, 'p, 's, 'c, 'w) share_env \<Rightarrow> string \<Rightarrow> (unit, ('k, 's, 'w) drive) op" where
  "reject_invitation E iid = on_world (sv_post_reject E (''v2/shares/invitations/'' @ iid @ ''/reject''))"

section \<open>Public links\<close>

definition nonempty_password :: "string option \<Rightarrow> string option" where
  "nonempty_password custom = (case custom of Some p \<Rightarrow> if p = [] then None else Some p | None \<Rightarrow> None)"

definition fetch_srp_modulus :: "('k, 'p, 's, 'c, 'w) share_env \<Rightarrow> (modulus_response, ('k, 's, 'w) drive) op" where
  "fetch_srp_modulus E = on_world (sv_get_modulus E ''auth/v4/modulus'')"

definition draw_random :: "('k, 'p, 's, 'c, 'w) share_env \<Rightarrow> nat \<Rightarrow> (bytes, ('k, 's, 'w) drive) op" where
  "draw_random E n = on_world (\<lambda>w. case sv_random E n w of (b, w') \<Rightarrow> Some (Inr b, w'))"

definition seal_public_link_settings ::
  "('k, 'p, 's, 'c, 'w) share_env \<Rightarrow> int \<Rightarrow> string \<Rightarrow> string option \<Rightarrow> 'c \<Rightarrow> 'k \<Rightarrow> (public_link_settings_dto, ('k, 's, 'w) drive) op" where
  "seal_public_link_settings E permissions generated custom_password share_sk address_key =
     (let custom = nonempty_password custom_password;
          full = as_bytes (generated @ (case custom of Some p \<Rightarrow> p | None \<Rightarrow> [])) in
      op_bind (fetch_srp_modulus E) (\<lambda>modulus.
      op_bind (draw_random E 16) (\<lambda>key_salt.
      op_bind (op_of (sv_derive_key_passphrase E full key_salt)) (\<lambda>salted.
      op_bind (on_world (sv_encrypt_with_password E share_sk salted)) (\<lambda>packet.
      op_bind (on_world (no_encrypt (sv_ops E) address_key full)) (\<lambda>armored.
      op_bind (on_world (sv_generate_verifier E full (mo_modulus modulus) DEFAULT_BIT_LENGTH)) (\<lambda>verifier.
        op_return
          \<lparr>pls_permissions = permissions, pls_flags = (if custom \<noteq> None then 3 else 2),
           pls_share_password_salt = sv_base64 E key_salt, pls_share_passphrase_key_packet = sv_base64 E packet,
           pls_password = armored, pls_url_password_salt = sf_salt verifier, pls_srp_verifier = sf_verifier verifier,
           pls_srp_modulus_id = mo_modulus_id modulus, pls_max_accesses = 0\<rparr>)))))))"

definition share_urls_path :: "share_id \<Rightarrow> string" where
  "share_urls_path sid = ''shares/'' @ share_id_str sid @ ''/urls''"

definition create_public_link ::
  "('k, 'p, 's, 'c, 'w) share_env \<Rightarrow> node_uid \<Rightarrow> member_role \<Rightarrow> string option \<Rightarrow> int option \<Rightarrow> (public_link, ('k, 's, 'w) drive) op" where
  "create_public_link E uid role custom_password expiration_time =
     op_bind (op_of (public_link_permissions role)) (\<lambda>permissions.
     op_bind (ensure_node_share E uid) (\<lambda>(sid, share_sk, creator_email, address_key).
     op_bind (draw_random E PUBLIC_LINK_PASSWORD_LEN) (\<lambda>raw.
     let generated = generate_public_link_password raw in
     op_bind (seal_public_link_settings E permissions generated custom_password share_sk address_key) (\<lambda>settings.
     op_bind (on_world (sv_post_public_link E (share_urls_path sid)
         \<lparr>cpl_creator_email = creator_email, cpl_expiration_time = expiration_time, cpl_settings = settings\<rparr>)) (\<lambda>dto.
     op_bind (op_get (\<lambda>d. sv_now_epoch_seconds E (dv_world d))) (\<lambda>now.
       op_return
         \<lparr>pl_share_id = sid, pl_public_link_id = su_share_url_id dto, pl_url = Some (su_public_url dto @ ''#'' @ generated),
          pl_role = role, pl_creation_time = now, pl_expiration_time = expiration_time,
          pl_has_custom_password = (pls_flags settings = 3), pl_custom_password = nonempty_password custom_password\<rparr>))))))"

definition recover_public_link_secret ::
  "('k, 'p, 's, 'c, 'w) share_env \<Rightarrow> share_url_dto \<Rightarrow> (string option \<times> string option, ('k, 's, 'w) drive) op" where
  "recover_public_link_secret E dto =
     (case su_password dto of
        None \<Rightarrow> op_return (None, None)
      | Some enc \<Rightarrow>
          op_bind (op_try (op_bind (membership_address (sv_drive E)) (\<lambda>(_, email, _). own_address_keys E email))) (\<lambda>r.
          case r of
            Inl _ \<Rightarrow> op_return (None, None)
          | Inr (keys, _) \<Rightarrow>
              (case sv_decrypt_with_keys E enc keys of
                 Inl _ \<Rightarrow> op_return (None, None)
               | Inr bytes \<Rightarrow>
                   (case split_link_password (sv_utf8_lossy E bytes) of (generated, custom) \<Rightarrow>
                      op_return (if su_public_url dto = [] then None else Some (su_public_url dto @ ''#'' @ generated), custom)))))"

definition get_public_link ::
  "('k, 'p, 's, 'c, 'w) share_env \<Rightarrow> node_uid \<Rightarrow> (public_link option, ('k, 's, 'w) drive) op" where
  "get_public_link E uid =
     op_bind (node_share_id E uid) (\<lambda>found.
     case found of
       None \<Rightarrow> op_return None
     | Some sid \<Rightarrow>
         op_bind (on_world (sv_get_public_links E (share_urls_path sid))) (\<lambda>urls.
         case urls of
           [] \<Rightarrow> op_return None
         | dto # _ \<Rightarrow>
             op_bind (recover_public_link_secret E dto) (\<lambda>(url, custom). op_return (Some
               \<lparr>pl_share_id = sid, pl_public_link_id = su_share_url_id dto, pl_url = url,
                pl_role = from_permissions (su_permissions dto), pl_creation_time = su_create_time dto,
                pl_expiration_time = su_expiration_time dto, pl_has_custom_password = (su_flags dto = 3),
                pl_custom_password = custom\<rparr>))))"

text \<open>The generated password in the fragment of a link's URL, unless the link is a legacy one.\<close>

definition link_fragment :: "public_link \<Rightarrow> string option" where
  "link_fragment link =
     Option.bind (pl_url link) (\<lambda>url.
     Option.bind (split_once (CHR ''#'') url) (\<lambda>(_, fragment).
       if chars_count fragment = PUBLIC_LINK_PASSWORD_LEN then Some fragment else None))"

definition public_link_path :: "public_link \<Rightarrow> string" where
  "public_link_path link = share_urls_path (pl_share_id link) @ ''/'' @ pl_public_link_id link"

definition update_public_link ::
  "('k, 'p, 's, 'c, 'w) share_env \<Rightarrow> node_uid \<Rightarrow> member_role \<Rightarrow> string option \<Rightarrow> int option \<Rightarrow> (public_link, ('k, 's, 'w) drive) op" where
  "update_public_link E uid role custom_password expiration_time =
     op_bind (op_of (public_link_permissions role)) (\<lambda>permissions.
     op_bind (get_public_link E uid) (\<lambda>found.
     op_bind (op_ok_or (InvalidOperation ''the node has no public link'') found) (\<lambda>link.
     op_bind (op_ok_or (InvalidOperation ''a legacy public link cannot be updated; remove it and create a new one'')
                (link_fragment link)) (\<lambda>generated.
     op_bind (ensure_node_share E uid) (\<lambda>(_, share_sk, _, address_key).
     op_bind (seal_public_link_settings E permissions generated custom_password share_sk address_key) (\<lambda>settings.
     op_then (on_world (sv_put_public_link E (public_link_path link) \<lparr>upl_expiration_time = expiration_time, upl_settings = settings\<rparr>))
       (op_return (link\<lparr>pl_role := role, pl_expiration_time := expiration_time,
          pl_has_custom_password := (pls_flags settings = 3), pl_custom_password := nonempty_password custom_password\<rparr>))))))))"

definition remove_public_link ::
  "('k, 'p, 's, 'c, 'w) share_env \<Rightarrow> public_link \<Rightarrow> (unit, ('k, 's, 'w) drive) op" where
  "remove_public_link E link = share_delete E (public_link_path link)"

section \<open>Bookmarks\<close>

definition decrypt_bookmark_name ::
  "('k, 'p, 's, 'c, 'w) share_env \<Rightarrow> string \<Rightarrow> bookmark_token_dto \<Rightarrow> string option" where
  "decrypt_bookmark_name E password token =
     (case sv_base64_decode E (bt_share_password_salt token) of
        Inl _ \<Rightarrow> None
      | Inr salt \<Rightarrow>
          (case sv_derive_key_passphrase E (as_bytes password) salt of
             Inl _ \<Rightarrow> None
           | Inr key_password \<Rightarrow>
               Option.bind (shared_item_name E
                   (case sv_decrypt_with_password E (bt_share_passphrase token) key_password of Inl _ \<Rightarrow> None | Inr p \<Rightarrow> Some p)
                   (bt_share_key token) (bt_name token))
                 (\<lambda>name. case validate_node_name name of Inl _ \<Rightarrow> None | Inr _ \<Rightarrow> Some name)))"

definition bookmark_of ::
  "('k, 'p, 's, 'c, 'w) share_env \<Rightarrow> 'k list \<Rightarrow> bookmark_dto \<Rightarrow> bookmark option" where
  "bookmark_of E keys dto =
     Option.bind (bd_encrypted_url_password dto) (\<lambda>enc.
     case sv_decrypt_with_keys E enc keys of
       Inl _ \<Rightarrow> None
     | Inr bytes \<Rightarrow>
         let password = sv_utf8_lossy E bytes in
         (case split_link_password password of (url_password, custom) \<Rightarrow> Some
            \<lparr>bm_token = bt_token (bd_token dto),
             bm_url = ''https://drive.proton.me/urls/'' @ bt_token (bd_token dto) @ ''#'' @ url_password,
             bm_custom_password = custom, bm_node_name = decrypt_bookmark_name E password (bd_token dto),
             bm_is_folder = (bt_link_type (bd_token dto) = 1), bm_creation_time = bd_create_time dto\<rparr>))"

definition list_bookmarks :: "('k, 'p, 's, 'c, 'w) share_env \<Rightarrow> (bookmark list, ('k, 's, 'w) drive) op" where
  "list_bookmarks E =
     op_bind (on_world (sv_get_bookmarks E ''v2/shared-bookmarks'')) (\<lambda>dtos.
     op_bind (membership_address (sv_drive E)) (\<lambda>(_, email, _).
     op_bind (own_address_keys E email) (\<lambda>(keys, _).
       op_return (List.map_filter (bookmark_of E keys) dtos))))"

definition bookmark_path :: "string \<Rightarrow> string" where
  "bookmark_path token = ''v2/urls/'' @ token @ ''/bookmark''"

definition create_bookmark ::
  "('k, 'p, 's, 'c, 'w) share_env \<Rightarrow> string \<Rightarrow> string option \<Rightarrow> (unit, ('k, 's, 'w) drive) op" where
  "create_bookmark E url custom_password =
     op_bind (op_of (parse_public_link_url url)) (\<lambda>(token, url_password).
     op_bind (membership_address (sv_drive E)) (\<lambda>(address_id, email, _).
     op_bind (own_address_keys E email) (\<lambda>(_, address_key).
     op_bind (address_primary_key_id (sv_drive E) address_id) (\<lambda>address_key_id.
     op_bind (on_world (no_encrypt_and_sign (sv_ops E) address_key address_key
         (as_bytes (url_password @ (case custom_password of Some p \<Rightarrow> p | None \<Rightarrow> []))) False False)) (\<lambda>sealed.
       on_world (sv_post_bookmark E (bookmark_path token)
         \<lparr>bs_encrypted_url_password = sealed, bs_address_id = address_id, bs_address_key_id = address_key_id\<rparr>))))))"

definition delete_bookmark :: "('k, 'p, 's, 'c, 'w) share_env \<Rightarrow> string \<Rightarrow> (unit, ('k, 's, 'w) drive) op" where
  "delete_bookmark E token = share_delete E (bookmark_path token)"

section \<open>The provider\<close>

definition account_sharing ::
  "('sk, 'pub, 'sig, 'msg, 'w) account_env \<Rightarrow> ('sk, 'pub, 'ek, 'pk, 'sd, 'w) pgp_lib \<Rightarrow> ('sk, 'ek, 'sg, 'w) write_lib
     \<Rightarrow> xattr_decoder \<Rightarrow> ('mk, 'm, 'w) srp_lib \<Rightarrow> ('sk private_key, 'pub, 's, content_key, ('sk, 'pub, 'w) account) share_env
     \<Rightarrow> ('sk private_key, 'pub, 's, content_key, ('sk, 'pub, 'w) account) share_env" where
  "account_sharing A L W js S endpoints =
     endpoints
       \<lparr>sv_ops := account_ops A L W js (sv_ops endpoints), sv_addresses := addresses A,
        sv_base64 := wl_base64_encode W, sv_base64_decode := wl_base64_decode W,
        sv_recover_session_key := (\<lambda>k m. from_crypto (recover_message_session_key L k m)),
        sv_share_material := (\<lambda>nkey pk nk akey. op_bind (account_gen (build_standard_share_material (ae_rpgp A, L, W) nkey pk nk akey))
          (\<lambda>m. op_return \<lparr>nsh_key_armored = sm_share_key_armored m, nsh_passphrase = sm_share_passphrase m,
             nsh_passphrase_signature = sm_share_passphrase_signature m, nsh_passphrase_key_packet = sm_passphrase_key_packet m,
             nsh_name_key_packet = sm_name_key_packet m, nsh_session_key = sm_share_session_key m\<rparr>)),
        sv_encrypt_invitation := (\<lambda>sk k p. account_gen (encrypt_invitation L W sk k p)),
        sv_encrypt_external := (\<lambda>sk k email. account_gen (encrypt_external_invitation W sk k email)),
        sv_accept_invitation := (\<lambda>packet keys k. account_gen (accept_invitation L W packet keys k)),
        sv_encrypt_with_password := (\<lambda>sk pw. account_gen (encrypt_with_password L sk pw)),
        sv_decrypt_with_keys := (\<lambda>m keys. from_crypto (decrypt_armored_with_keys (ae_rpgp A) m keys)),
        sv_decrypt_with_password := (\<lambda>m pw. from_crypto (decrypt_armored_with_password (ae_rpgp A) m pw)),
        sv_from_armored := (\<lambda>m pw. from_crypto (PrivateKey_from_armored (ae_rpgp A) m pw)),
        sv_derive_key_passphrase := (\<lambda>pw salt. from_crypto (derive_key_passphrase (ae_bcrypt A) pw salt)),
        sv_generate_verifier := (\<lambda>pw modulus n acc. map_option (\<lambda>(r, w). (from_crypto r, acc\<lparr>ac_world := w\<rparr>))
          (generate_verifier S pw modulus n (ac_world acc)))\<rparr>"

section \<open>Listings\<close>

text \<open>A server that answers with these pages, each but the last with the anchor of the next.\<close>

fun serves_pages :: "(string option \<Rightarrow> ('x anchored_page, 'd) op) \<Rightarrow> string option \<Rightarrow> 'x anchored_page list \<Rightarrow> ('d \<Rightarrow> bool) \<Rightarrow> bool" where
  "serves_pages get anchor [] P = False"
| "serves_pages get anchor (p # ps) P =
     ((\<forall>d. P d \<longrightarrow> (\<exists>d'. get anchor d = Some (Inr p, d') \<and> P d')) \<and>
      (if ps = [] then next_anchor (an_anchor p) (an_more p) = None
       else next_anchor (an_anchor p) (an_more p) \<noteq> None \<and> serves_pages get (next_anchor (an_anchor p) (an_more p)) ps P))"

lemma anchor_pages_complete:
  assumes "serves_pages get anchor pages P" "P d"
  shows "\<exists>d'. anchor_pages get anchor acc d = Some (Inr (acc @ concat (map an_items pages)), d') \<and> P d'"
  using assms
proof (induction pages arbitrary: anchor acc d)
  case (Cons p ps)
  then obtain d1 where d1: "get anchor d = Some (Inr p, d1)" "P d1" by auto
  show ?case
  proof (cases "ps = []")
    case True
    then have "anchor_pages get anchor acc d = Some (Inr (acc @ an_items p), d1)"
      using Cons.prems(1) d1 by (subst anchor_pages.simps) (simp add: op_bind_def)
    then show ?thesis using True d1 by simp
  next
    case False
    then have next_page: "next_anchor (an_anchor p) (an_more p) \<noteq> None" "serves_pages get (next_anchor (an_anchor p) (an_more p)) ps P"
      using Cons.prems(1) by simp_all
    have "anchor_pages get anchor acc d = anchor_pages get (next_anchor (an_anchor p) (an_more p)) (acc @ an_items p) d1"
      using next_page(1) d1(1) by (subst anchor_pages.simps) (auto simp: op_bind_def)
    then show ?thesis using Cons.IH [OF next_page(2) d1(2), of "acc @ an_items p"] by simp
  qed
qed simp

lemma load_each_exact:
  assumes "\<And>x d. P d \<Longrightarrow> \<exists>d'. load x d = Some (f x, d') \<and> P d'" "P d"
  shows "\<exists>d'. load_each load xs acc d =
     Some (Inr (acc @ List.map_filter (\<lambda>x. case f x of Inr y \<Rightarrow> Some y | Inl _ \<Rightarrow> None) xs), d') \<and> P d'"
  using assms(2)
proof (induction xs arbitrary: acc d)
  case (Cons x xs)
  obtain d1 where d1: "load x d = Some (f x, d1)" "P d1" using assms(1) [OF Cons.prems] by blast
  have "load_each load (x # xs) acc d = load_each load xs (case f x of Inr y \<Rightarrow> acc @ [y] | Inl _ \<Rightarrow> acc) d1"
    by (simp add: op_bind_def op_try_def d1(1))
  then show ?case
    using Cons.IH [OF d1(2), of "case f x of Inr y \<Rightarrow> acc @ [y] | Inl _ \<Rightarrow> acc"] by (cases "f x") (simp_all add: map_filter_simps)
qed (simp add: map_filter_simps)

section \<open>Invitations\<close>

text \<open>A server that takes every invitation and remembers the requests.\<close>

definition takes_invitations :: "('k, 'p, 's, 'c, 'w) share_env \<Rightarrow> ('w \<Rightarrow> invite_proton_user_request list) \<Rightarrow> bool" where
  "takes_invitations E sent \<longleftrightarrow>
     (\<forall>email w. fst (ne_public_keys (no_nodes (sv_ops E)) email w) \<noteq> [] \<and> sent (snd (ne_public_keys (no_nodes (sv_ops E)) email w)) = sent w) \<and>
     (\<forall>sk k p w. \<exists>r w'. sv_encrypt_invitation E sk k p w = Some (Inr r, w') \<and> sent w' = sent w) \<and>
     (\<forall>path req w. \<exists>dto w'. sv_post_invitation E path req w = Some (Inr dto, w') \<and> sent w' = sent w @ [req])"

definition asks :: "invite_proton_user_request \<Rightarrow> string \<times> int" where
  "asks req = (ipi_invitee_email (ivr_invitation req), ipi_permissions (ivr_invitation req))"

definition newcomers :: "('k, 'p, 's, 'c, 'w) share_env \<Rightarrow> string set \<Rightarrow> (string \<times> member_role) list \<Rightarrow> (string \<times> int) list" where
  "newcomers E already invitees =
     map (\<lambda>(email, role). (email, the (to_permissions role))) (filter (\<lambda>(email, _). sv_lowercase E email \<notin> already) invitees)"

lemma invite_proton_users_exact:
  assumes "takes_invitations E sent" "list_all (\<lambda>(_, role). role \<noteq> Inherited) invitees"
  shows "\<exists>new d'. invite_proton_users E sid sk inviter_email inviter_key message already invitees created d = Some (Inr (created @ new), d') \<and>
     (\<exists>reqs. sent (dv_world d') = sent (dv_world d) @ reqs \<and> map asks reqs = newcomers E already invitees \<and> length new = length reqs)"
  using assms(2)
proof (induction invitees arbitrary: created d)
  case (Cons i invitees)
  obtain email role where i: "i = (email, role)" by fastforce
  have IH: "\<exists>new d'. invite_proton_users E sid sk inviter_email inviter_key message already invitees created d = Some (Inr (created @ new), d') \<and>
     (\<exists>reqs. sent (dv_world d') = sent (dv_world d) @ reqs \<and> map asks reqs = newcomers E already invitees \<and> length new = length reqs)" for created d
    using Cons by simp
  show ?case
  proof (cases "sv_lowercase E email \<in> already")
    case True
    then show ?thesis using IH [of created d] by (simp add: i newcomers_def)
  next
    case False
    obtain permissions where permissions: "to_permissions role = Some permissions" using Cons.prems i by (cases role) auto
    obtain key keys w1 where keys: "ne_public_keys (no_nodes (sv_ops E)) email (dv_world d) = (key # keys, w1)" "sent w1 = sent (dv_world d)"
      using assms(1) unfolding takes_invitations_def by (metis fst_conv snd_conv list.exhaust prod.exhaust)
    obtain packet signature w2 where sealed: "sv_encrypt_invitation E sk inviter_key key w1 = Some (Inr (packet, signature), w2)" "sent w2 = sent w1"
      using assms(1) unfolding takes_invitations_def by (metis prod.exhaust)
    let ?req = "\<lparr>ivr_invitation = \<lparr>ipi_inviter_email = inviter_email, ipi_invitee_email = email, ipi_permissions = permissions,
               ipi_key_packet = packet, ipi_key_packet_signature = signature, ipi_external_invitation_id = None\<rparr>,
             ivr_email_details = \<lparr>ied_message = message, ied_item_name = None\<rparr>\<rparr>"
    obtain dto w3 where posted: "sv_post_invitation E (share_path sid ''/invitations'') ?req w2 = Some (Inr dto, w3)" "sent w3 = sent w2 @ [?req]"
      using assms(1) unfolding takes_invitations_def by blast
    have step: "invite_proton_users E sid sk inviter_email inviter_key message already (i # invitees) created d =
        invite_proton_users E sid sk inviter_email inviter_key message already invitees (created @ [invitation_from_dto sid dto]) (d\<lparr>dv_world := w3\<rparr>)"
      by (simp add: i False permissions op_bind_def public_keys_of_def on_world_def keys(1) sealed(1) posted(1))
    obtain new d' reqs where rest:
      "invite_proton_users E sid sk inviter_email inviter_key message already invitees (created @ [invitation_from_dto sid dto]) (d\<lparr>dv_world := w3\<rparr>)
         = Some (Inr ((created @ [invitation_from_dto sid dto]) @ new), d')"
      "sent (dv_world d') = sent w3 @ reqs" "map asks reqs = newcomers E already invitees" "length new = length reqs"
      using IH [of "created @ [invitation_from_dto sid dto]" "d\<lparr>dv_world := w3\<rparr>"] by auto
    have "invite_proton_users E sid sk inviter_email inviter_key message already (i # invitees) created d =
        Some (Inr (created @ (invitation_from_dto sid dto # new)), d')"
      unfolding step rest(1) by simp
    moreover have "sent (dv_world d') = sent (dv_world d) @ (?req # reqs)" using rest(2) posted(2) sealed(2) keys(2) by simp
    moreover have "map asks (?req # reqs) = newcomers E already (i # invitees)"
      using rest(3) permissions False by (simp add: i newcomers_def asks_def)
    ultimately show ?thesis using rest(4) by (metis length_Cons)
  qed
qed (simp add: newcomers_def)

section \<open>Link passwords\<close>

lemma char_offset_append:
  assumes "c = [] \<or> \<not> is_continuation (hd c)"
  shows "char_offset (chars_count p) (p @ c) = (if c = [] then None else Some (length p))"
proof (induction p)
  case Nil
  then show ?case using assms by (cases c) (simp_all add: chars_count_def)
next
  case (Cons x p)
  then show ?case by (cases "is_continuation x") (simp_all add: chars_count_def)
qed

lemma char_offset_bounds:
  "char_offset n s = Some i \<Longrightarrow> i < length s \<and> chars_count (take i s) = n"
proof (induction s arbitrary: n i)
  case (Cons x s)
  then show ?case
    by (cases "is_continuation x"; cases n) (auto simp: chars_count_def dest!: Cons.IH)
qed simp

lemma char_offset_None: "char_offset n s = None \<longleftrightarrow> chars_count s \<le> n"
proof (induction s arbitrary: n)
  case (Cons x s)
  then show ?case by (cases "is_continuation x"; cases n) (simp_all add: chars_count_def)
qed (simp add: chars_count_def)

lemma split_link_password_exact:
  assumes "utf8_string c"
  shows "split_link_password (p @ c) = (p, nonempty_password (Some c)) \<longleftrightarrow>
     chars_count p = PUBLIC_LINK_PASSWORD_LEN \<or> c = [] \<and> chars_count p < PUBLIC_LINK_PASSWORD_LEN"
proof -
  let ?n = PUBLIC_LINK_PASSWORD_LEN
  have hd: "c = [] \<or> \<not> is_continuation (hd c)" using utf8_string_hd [OF assms] by blast
  have pos: "0 < ?n" by (simp add: PUBLIC_LINK_PASSWORD_LEN_def)
  show ?thesis
  proof (cases "char_offset ?n (p @ c)")
    case None
    then have le: "chars_count (p @ c) \<le> ?n" by (simp add: char_offset_None)
    show ?thesis
    proof (cases "c = []")
      case True
      then show ?thesis using None le by (auto simp: split_link_password_def nonempty_password_def)
    next
      case False
      have "chars_count p < chars_count (p @ c)" using False hd by (cases c) (simp_all add: chars_count_def)
      then show ?thesis using None le False by (auto simp: split_link_password_def nonempty_password_def)
    qed
  next
    case (Some i)
    note i = char_offset_bounds [OF Some]
    have split: "split_link_password (p @ c) = (take i (p @ c), Some (drop i (p @ c)))"
      using Some i unfolding split_link_password_def by (simp del: append_eq_conv_conj drop_append take_append length_append)
    have at: "take i (p @ c) = p \<and> drop i (p @ c) = c \<longleftrightarrow> i = length p"
    proof
      assume "take i (p @ c) = p \<and> drop i (p @ c) = c"
      then have "length (take i (p @ c)) = length p" by presburger
      moreover have "length (take i (p @ c)) = i" using i by (simp only: length_take) simp
      ultimately show "i = length p" by simp
    qed simp
    have exact: "i = length p \<longleftrightarrow> chars_count p = ?n"
    proof
      assume "chars_count p = ?n"
      then show "i = length p" using char_offset_append [OF hd, of p] Some by (simp split: if_splits)
    qed (use i in simp)
    have no_short: "\<not> (c = [] \<and> chars_count p < ?n)" using Some char_offset_None [of ?n "p @ c"] by auto
    show ?thesis
    proof (cases "c = []")
      case True
      then have "i \<noteq> length p" using i by simp
      then show ?thesis using True exact no_short split by (simp add: nonempty_password_def)
    next
      case False
      then have "nonempty_password (Some c) = Some c" by (simp add: nonempty_password_def)
      then show ?thesis unfolding split using at exact False by auto
    qed
  qed
qed

lemma charset_below_128: "c \<in> set PUBLIC_LINK_PASSWORD_CHARSET \<Longrightarrow> (of_char c :: nat) < 128"
  by (auto simp: PUBLIC_LINK_PASSWORD_CHARSET_def)

lemma utf8_string_ascii_append: "\<forall>c\<in>set g. (of_char c :: nat) < 128 \<Longrightarrow> utf8_string s \<Longrightarrow> utf8_string (g @ s)"
  by (induction g) (simp_all add: utf8_string_def)

section \<open>The properties\<close>



text \<open>A listing of the invitations received has, in the server's order and over all its pages,
  every invitation that loads; one that does not is left out and hides no other.\<close>

theorem incoming_invitations_complete:
  assumes "serves_pages (\<lambda>a. on_world (sv_get_incoming E (anchor_path ''v2/shares/invitations'' a))) None pages P" "P d"
    and "\<And>iid d. P d \<Longrightarrow> \<exists>d'. incoming_invitation_detail E iid d = Some (detail iid, d') \<and> P d'"
  shows "\<exists>d'. list_incoming_invitations E d = Some (Inr (List.map_filter (\<lambda>iid. case detail iid of Inr i \<Rightarrow> Some i | Inl _ \<Rightarrow> None)
     (concat (map an_items pages))), d') \<and> P d'"
proof -
  let ?ids = "concat (map an_items pages)"
  obtain d1 where d1: "anchor_pages (\<lambda>a. on_world (sv_get_incoming E (anchor_path ''v2/shares/invitations'' a))) None [] d = Some (Inr ?ids, d1)" "P d1"
    using anchor_pages_complete [OF assms(1,2), of "[]"] by auto
  obtain d' where "load_each (incoming_invitation_detail E) ?ids [] d1 =
      Some (Inr ([] @ List.map_filter (\<lambda>iid. case detail iid of Inr i \<Rightarrow> Some i | Inl _ \<Rightarrow> None) ?ids), d')" "P d'"
    using load_each_exact [where P = P and f = detail and load = "incoming_invitation_detail E", OF assms(3) d1(2)] by blast
  then show ?thesis using d1(1) by (simp add: list_incoming_invitations_def op_bind_def)
qed

text \<open>A saved link is listed with its own URL and custom password exactly when the password in
  its URL has the generated length, or is shorter and stands alone.\<close>

theorem bookmark_restores_link_iff:
  assumes "bd_encrypted_url_password dto = Some enc" "sv_decrypt_with_keys E enc keys = Inr (as_bytes (pw @ custom))"
    and "\<And>s. utf8_string s \<Longrightarrow> sv_utf8_lossy E (as_bytes s) = s" "utf8_string custom" "utf8_string (pw @ custom)"
  shows "(\<exists>b. bookmark_of E keys dto = Some b \<and> bm_custom_password b = nonempty_password (Some custom) \<and>
       bm_url b = ''https://drive.proton.me/urls/'' @ bt_token (bd_token dto) @ ''#'' @ pw) \<longleftrightarrow>
     chars_count pw = PUBLIC_LINK_PASSWORD_LEN \<or> custom = [] \<and> chars_count pw < PUBLIC_LINK_PASSWORD_LEN"
proof -
  obtain g c where split: "split_link_password (pw @ custom) = (g, c)" by fastforce
  have "sv_utf8_lossy E (as_bytes (pw @ custom)) = pw @ custom" using assms(3,5) by blast
  then have "(\<exists>b. bookmark_of E keys dto = Some b \<and> bm_custom_password b = nonempty_password (Some custom) \<and>
       bm_url b = ''https://drive.proton.me/urls/'' @ bt_token (bd_token dto) @ ''#'' @ pw) \<longleftrightarrow>
      (g, c) = (pw, nonempty_password (Some custom))"
    using assms(1,2) split by (auto simp: bookmark_of_def Let_def)
  then show ?thesis using split_link_password_exact [OF assms(4), of pw] split by simp
qed

section \<open>An example account\<close>

text \<open>The world holds the invitations taken and the public link stored.  The shared node is the
  root of a volume, with one member; the second of three invitations received cannot be read.\<close>

type_synonym sharing_world = "invite_proton_user_request list \<times> share_url_dto"

definition sharing_drive :: "(string, unit, sharing_world) drive_env" where
  "sharing_drive = (drive_on one_entity_repo \<lparr>js_to_string = (\<lambda>_. Inr ''p''), js_from_str = (\<lambda>_. Some tree_parent_info)\<rparr>)
     \<lparr>de_post_links := (\<lambda>_ _. op_return [(tree_details (LinkId ''r''))\<lparr>ld_sharing := Some \<lparr>ls_share_id = ShareId ''x'', ls_share_url_id = None\<rparr>\<rparr>]),
      de_get_share := (\<lambda>_. op_return example_share), de_decrypt_message := (\<lambda>_ s. Inr (as_bytes s)),
      de_address := (\<lambda>aid. op_return \<lparr>adr_id = aid, adr_email = ''a@p'', adr_order = 1, adr_status = 1,
        adr_primary_key_index = 0, adr_primary_key_id = AddressKeyId ''k''\<rparr>),
      de_address_private_keys := (\<lambda>_. op_return [''k''])\<rparr>"

definition sharing_ops :: "(string, unit, unit, sharing_world) ops_env" where
  "sharing_ops = (ops_on sharing_drive)
     \<lparr>no_nodes := (nodes_on sharing_drive)\<lparr>ne_public_keys := (\<lambda>_ w. ([()], w))\<rparr>,
      no_encrypt := (\<lambda>_ b. op_return (map (\<lambda>c. char_of (unat c)) b))\<rparr>"

definition incoming_example :: "string \<Rightarrow> incoming_invitation" where
  "incoming_example iid = \<lparr>inc_invitation_id = iid, inc_inviter_email = ''b@p'', inc_invitee_email = ''a@p'', inc_role = Viewer,
     inc_invitation_time = 0, inc_node_uid = NodeUid_new (VolumeId ''w'') (LinkId ''l''), inc_node_name = Some ''plans'', inc_is_folder = True\<rparr>"

definition incoming_details :: "string \<Rightarrow> invitation_details_response" where
  "incoming_details iid =
     \<lparr>idr_invitation = \<lparr>iid_invitation_id = iid, iid_inviter_email = ''b@p'', iid_invitee_email = ''a@p'', iid_key_packet = ''p'',
        iid_key_packet_signature = ''q'', iid_permissions = Some 4, iid_create_time = 0\<rparr>,
      idr_share = \<lparr>isd_share_key = ''key'', isd_passphrase = ''pass'', isd_creator_email = ''b@p'', isd_volume_id = ''w'', isd_share_target_type = 1\<rparr>,
      idr_link = \<lparr>ild_link_id = ''l'', ild_link_type = 1, ild_mime_type = None, ild_name = ''plans''\<rparr>\<rparr>"

definition incoming_pages :: "string anchored_page list" where
  "incoming_pages = [\<lparr>an_items = [''i'', ''j''], an_anchor = Some ''n'', an_more = True\<rparr>, \<lparr>an_items = [''k''], an_anchor = None, an_more = False\<rparr>]"

definition example_link_dto :: share_url_dto where
  "example_link_dto = \<lparr>su_share_url_id = ''u'', su_share_id = None, su_public_url = ''https://drive.proton.me/urls/T'', su_password = None,
     su_create_time = 0, su_expiration_time = None, su_permissions = Some 4, su_flags = 2, su_num_accesses = 0\<rparr>"

definition sharing_example :: "(string, unit, unit, unit, sharing_world) share_env" where
  "sharing_example =
     \<lparr>sv_ops = sharing_ops,
      sv_addresses = op_return [\<lparr>adr_id = AddressId ''a'', adr_email = ''a@p'', adr_order = 1, adr_status = 1,
        adr_primary_key_index = 0, adr_primary_key_id = AddressKeyId ''k''\<rparr>],
      sv_lowercase = (\<lambda>s. if s = ''Bob@p'' then ''bob@p'' else s), sv_utf8_lossy = map (\<lambda>c. char_of (unat c)),
      sv_base64 = (\<lambda>_. ''b64''), sv_base64_decode = (\<lambda>_. Inr [1]), sv_random = (\<lambda>n w. (replicate n 0, w)), sv_now_epoch_seconds = (\<lambda>_. 0),
      sv_recover_session_key = (\<lambda>_ _. Inr ()), sv_share_material = (\<lambda>_ _ _ _. op_fail KeysLocked),
      sv_encrypt_invitation = (\<lambda>_ _ _. op_return (''packet'', ''signature'')), sv_encrypt_external = (\<lambda>_ _ _. op_return ''signature''),
      sv_accept_invitation = (\<lambda>_ _ _. op_return ''signature''), sv_encrypt_with_password = (\<lambda>_ _. op_return [2]),
      sv_decrypt_with_keys = (\<lambda>m _. Inr (as_bytes m)), sv_decrypt_with_password = (\<lambda>_ _. Inl KeysLocked),
      sv_from_armored = (\<lambda>_ _. Inr ''sk''), sv_derive_key_passphrase = (\<lambda>_ _. Inr [3]),
      sv_generate_verifier = (\<lambda>_ _ _. op_return \<lparr>sf_salt = ''s'', sf_verifier = ''v''\<rparr>),
      sv_get_shared_by_me = (\<lambda>_. op_fail KeysLocked),
      sv_get_members = (\<lambda>_. op_return [\<lparr>smd_member_id = ShareMembershipId ''m'', smd_inviter_email = ''a@p'', smd_email = ''bob@p'',
        smd_permissions = Some 4, smd_create_time = 0\<rparr>]),
      sv_get_invitations = (\<lambda>_. op_return []), sv_get_external_invitations = (\<lambda>_. op_return []), sv_post_share = (\<lambda>_ _. op_fail KeysLocked),
      sv_post_invitation = (\<lambda>_ req (sent, dto). Some (Inr \<lparr>sid_invitation_id = ''i'', sid_inviter_email = ''a@p'',
        sid_invitee_email = ipi_invitee_email (ivr_invitation req), sid_permissions = Some (ipi_permissions (ivr_invitation req)),
        sid_create_time = 0\<rparr>, sent @ [req], dto)),
      sv_post_external_invitation = (\<lambda>_ _. op_fail KeysLocked), sv_put_permissions = (\<lambda>_ _. op_return ()),
      sv_get_modulus = (\<lambda>_. op_return \<lparr>mo_modulus = ''m'', mo_modulus_id = ''id''\<rparr>),
      sv_post_public_link = (\<lambda>_ req (sent, _). Some (Inr example_link_dto, sent, example_link_dto\<lparr>su_password := Some (pls_password (cpl_settings req))\<rparr>)),
      sv_put_public_link = (\<lambda>_ _. op_return ()), sv_get_public_links = (\<lambda>_. op_return []),
      sv_get_incoming = (\<lambda>path. op_return (if path = ''v2/shares/invitations'' then incoming_pages ! 0 else incoming_pages ! 1)),
      sv_get_invitation = (\<lambda>path. if path = ''v2/shares/invitations/j'' then op_fail KeysLocked else op_return (incoming_details [last path])),
      sv_post_accept = (\<lambda>_ _. op_return ()), sv_post_reject = (\<lambda>_. op_return ()), sv_get_bookmarks = (\<lambda>_. op_return []),
      sv_post_bookmark = (\<lambda>_ _. op_return ())\<rparr>"

definition sharing_state :: "(string, unit, sharing_world) drive" where
  "sharing_state =
     \<lparr>dv_world = ([], example_link_dto), dv_caches = \<lparr>cc_drive = DriveCache_default\<lparr>
        dc_main_volume_id := Some (VolumeId ''v''),
        dc_my_files_share := Some \<lparr>sk_share_id = ShareId ''x'', sk_address_id = AddressId ''a'', sk_key = ''s''\<rparr>,
        dc_my_files_root := Some (NodeUid_new (VolumeId ''v'') (LinkId ''r''))\<rparr>, cc_entities = ()\<rparr>\<rparr>"

definition sharing_uid :: node_uid where
  "sharing_uid = NodeUid_new (VolumeId ''v'') (LinkId ''r'')"

lemma sharing_env:
  "sv_drive sharing_example = sharing_drive" "sv_ops sharing_example = sharing_ops"
  by (simp_all add: sv_drive_def no_drive_def sharing_example_def sharing_ops_def nodes_on_def)

lemma sharing_membership:
  "membership_address sharing_drive sharing_state = Some (Inr (AddressId ''a'', ''a@p'', ''k''), sharing_state)"
  by (simp add: membership_address_def ensure_my_files_def resolve_membership_address_def sharing_drive_def sharing_state_def op_then_def
      op_bind_def drive_cache_of_def on_world_def Let_def)

lemma sharing_share:
  "ensure_node_share sharing_example sharing_uid sharing_state = Some (Inr (ShareId ''x'', (), ''a@p'', ''k''), sharing_state)"
proof -
  let ?detail = "(tree_details (LinkId ''r''))\<lparr>ld_sharing := Some \<lparr>ls_share_id = ShareId ''x'', ls_share_url_id = None\<rparr>\<rparr>"
  have found: "own_link sharing_example sharing_uid sharing_state = Some (Inr (Some ?detail), sharing_state)"
    by (simp add: own_link_def sharing_env get_link_details_def get_link_details_ctx_def on_world_def op_bind_def sharing_drive_def
        sharing_uid_def NodeUid_new_def tree_details_def tree_link_def example_link_def)
  have key: "resolve_parent_key sharing_drive (VolumeId ''v'') (tree_link (LinkId ''r'')) sharing_state = Some (Inr ''s'', sharing_state)"
    by (simp add: resolve_parent_key_def resolve_parent_key_ctx_def resolve_parent_key_walk_def op_map_err_def climb.simps op_bind_def
        root_link_share_key_def root_share_key_def tree_link_def example_link_def map_err_def NodeUid_new_def sharing_state_def
        drive_cache_of_def DriveCache_default_def ensure_my_files_def op_then_def Let_def)
  have link: "de_decrypt_link sharing_drive ''s'' (tree_link (LinkId ''r'')) = Inr (''r'', ''p:name'')"
    by (simp add: sharing_drive_def drive_on_def tree_link_def example_link_def)
  have no_context: "context_share_id sharing_drive sharing_uid sharing_state = Some (Inl KeysLocked, sharing_state)"
    by (simp add: context_share_id_def op_bind_def sharing_state_def drive_cache_of_def DriveCache_default_def on_world_def sharing_drive_def drive_on_def)
  have address: "membership_address_for sharing_drive sharing_uid sharing_state = Some (Inr (AddressId ''a'', ''a@p'', ''k''), sharing_state)"
    by (simp add: membership_address_for_def op_bind_def op_try_def no_context sharing_membership)
  have share: "on_world (de_get_share sharing_drive path) sharing_state = Some (Inr example_share, sharing_state)" for path
    by (simp add: on_world_def sharing_drive_def)
  have detail: "ld_link ?detail = tree_link (LinkId ''r'')" "ld_sharing ?detail = Some \<lparr>ls_share_id = ShareId ''x'', ls_share_url_id = None\<rparr>"
    by (simp_all add: tree_details_def)
  have uid: "uid_volume sharing_uid = VolumeId ''v''" by (simp add: sharing_uid_def NodeUid_new_def)
  have recover: "sv_recover_session_key sharing_example = (\<lambda>_ _. Inr ())" by (simp add: sharing_example_def)
  show ?thesis
    unfolding ensure_node_share_def
    by (simp add: op_bind_def found sharing_env detail uid key link address share recover Let_def)
qed

lemma sharing_own_keys: "own_address_keys sharing_example ''a@p'' d = Some (Inr ([''k''], ''k''), d)"
  by (simp add: own_address_keys_def op_bind_def on_world_def sharing_env(1)) (simp add: sharing_example_def sharing_drive_def)



theorem incoming_invitations_complete_witness:
  "\<exists>d'. list_incoming_invitations sharing_example sharing_state = Some (Inr [incoming_example ''i'', incoming_example ''k''], d')"
proof -
  let ?detail = "\<lambda>iid. if iid = ''j'' then Inl KeysLocked else Inr (incoming_example [last (''v2/shares/invitations/'' @ iid)])"
  have pages: "serves_pages (\<lambda>a. on_world (sv_get_incoming sharing_example (anchor_path ''v2/shares/invitations'' a))) None incoming_pages (\<lambda>_. True)"
    by (simp add: incoming_pages_def next_anchor_def on_world_def anchor_path_def sharing_example_def)
  have get: "get_incoming_invitation sharing_example iid d =
      Some (if iid = ''j'' then Inl KeysLocked else Inr (incoming_details [last (''v2/shares/invitations/'' @ iid)]), d)" for iid d
    by (cases d; cases "dv_world d") (simp add: get_incoming_invitation_def on_world_def sharing_example_def)
  have decrypt: "de_decrypt_message sharing_drive = (\<lambda>_ s. Inr (as_bytes s))" "sv_from_armored sharing_example = (\<lambda>_ _. Inr ''sk'')"
    by (simp_all add: sharing_drive_def sharing_example_def)
  have name: "decrypt_invitation_name sharing_example (incoming_details i) d = Some (Inr (Some ''plans''), d)" for i d
    by (simp add: decrypt_invitation_name_def op_bind_def op_try_def incoming_details_def sharing_own_keys shared_item_name_def decrypt
        sharing_env(1) from_utf8_as_bytes utf8_string_def)
  have detail: "\<exists>d'. incoming_invitation_detail sharing_example iid d = Some (?detail iid, d') \<and> True" for iid d
    by (simp add: incoming_invitation_detail_def op_bind_def get name)
       (simp add: incoming_details_def incoming_example_def Let_def VIEWER_PERMISSIONS_def)
  show ?thesis
    using incoming_invitations_complete [OF pages _ detail, of sharing_state]
    by (simp add: incoming_pages_def map_filter_simps)
qed

theorem bookmark_restores_link_iff_witness:
  "\<exists>b. bookmark_of sharing_example [''k''] \<lparr>bd_token = \<lparr>bt_token = ''T'', bt_share_key = '''', bt_share_passphrase = '''', bt_share_password_salt = '''',
      bt_link_type = 1, bt_mime_type = None, bt_name = '''', bt_node_key = '''', bt_node_passphrase = '''', bt_content_key_packet = None\<rparr>,
      bd_create_time = 0, bd_encrypted_url_password = Some ''abcdefghijklpw''\<rparr> = Some b \<and> bm_custom_password b = Some ''pw''"
proof -
  let ?dto = "\<lparr>bd_token = \<lparr>bt_token = ''T'', bt_share_key = '''', bt_share_passphrase = '''', bt_share_password_salt = '''',
      bt_link_type = 1, bt_mime_type = None, bt_name = '''', bt_node_key = '''', bt_node_passphrase = '''', bt_content_key_packet = None\<rparr>,
      bd_create_time = 0, bd_encrypted_url_password = Some ''abcdefghijklpw''\<rparr>"
  have lossy: "sv_utf8_lossy sharing_example (as_bytes s) = s" for s by (simp add: sharing_example_def as_bytes_def o_def)
  have opens: "sv_decrypt_with_keys sharing_example m keys = Inr (as_bytes m)" for m keys by (simp add: sharing_example_def)
  have "(\<exists>b. bookmark_of sharing_example [''k''] ?dto = Some b \<and> bm_custom_password b = nonempty_password (Some ''pw'') \<and>
       bm_url b = ''https://drive.proton.me/urls/'' @ bt_token (bd_token ?dto) @ ''#'' @ ''abcdefghijkl'') \<longleftrightarrow>
     chars_count ''abcdefghijkl'' = PUBLIC_LINK_PASSWORD_LEN \<or> ''pw'' = [] \<and> chars_count ''abcdefghijkl'' < PUBLIC_LINK_PASSWORD_LEN"
    by (rule bookmark_restores_link_iff) (simp_all add: lossy opens utf8_string_def)
  moreover have "chars_count ''abcdefghijkl'' = PUBLIC_LINK_PASSWORD_LEN"
    by (simp add: chars_count_def PUBLIC_LINK_PASSWORD_LEN_def is_continuation_def)
  moreover have "nonempty_password (Some ''pw'') = Some ''pw''" by (simp add: nonempty_password_def)
  ultimately show ?thesis by metis
qed

end
