(* ===== verification/Revision.thy ===== *)
theory Revision
  imports Transport
begin

text \<open>
  The seekable reader of \<open>proton-drive-rs/src/revision.rs\<close>: the versioned block
  table with its recovery from expired URLs, the planning of a byte range over
  blocks in \<open>u64\<close> arithmetic, and the read that splices the blocks together.  The
  storage fetch and the block decryption are arguments.  In-flight permits bound
  memory and decide nothing about the result; the fetches a read issues
  concurrently are consumed in block order and are run in that order.
\<close>

section \<open>Revisions\<close>

record revision =
  rv_file_uid :: node_uid
  rv_revision_id :: string
  rv_state :: revision_state
  rv_creation_time :: int
  rv_size_on_storage :: int
  rv_claimed_size :: "int option"
  rv_claimed_modification_time :: "string option"
  rv_claimed_sha1 :: "string option"
  rv_signature_email :: "string option"
  rv_has_thumbnails :: bool

definition Revision_is_active :: "revision \<Rightarrow> bool" where
  "Revision_is_active r = (rv_state r = RevActive)"

definition is_expired_block_url :: "proton_error \<Rightarrow> bool" where
  "is_expired_block_url e =
     (case e of Api a \<Rightarrow> ae_http_status a \<in> {401, 403, 404} | _ \<Rightarrow> False)"

section \<open>The block table\<close>

record 's block_table =
  bt_blocks :: "block_dto list"
  bt_generation :: u64
  bt_world :: 's

text \<open>The immutable half of \<open>BlockTargets\<close>, with the calls its transport makes.\<close>

record 's block_targets =
  tg_session :: "'s block_session"
  tg_get :: "api_http_client \<Rightarrow> string \<Rightarrow> 's \<Rightarrow> revision_dto result \<times> 's"
  tg_storage :: "api_http_client \<Rightarrow> string \<Rightarrow> string \<Rightarrow> 's \<Rightarrow> bytes result \<times> 's"
  tg_uid :: node_uid
  tg_revision_id :: string
  tg_expected_blocks :: nat

definition BlockTargets_new :: "block_dto list \<Rightarrow> 's \<Rightarrow> 's block_table" where
  "BlockTargets_new blocks w = \<lparr>bt_blocks = blocks, bt_generation = 0, bt_world = w\<rparr>"

definition location :: "'s block_targets \<Rightarrow> nat \<Rightarrow> 's block_table \<Rightarrow> (string \<times> string \<times> u64) result" where
  "location tg index t =
     (if index < length (bt_blocks t)
      then (let b = bt_blocks t ! index in Inr (blk_bare_url b, blk_token b, bt_generation t))
      else Inl (InvalidOperation (''block '' @ nat_to_string index @ '' is missing from revision '' @
                  tg_revision_id tg)))"

definition refresh_blocks ::
  "'s block_targets \<Rightarrow> u64 \<Rightarrow> 's block_table \<Rightarrow> (unit result \<times> 's block_table) option" where
  "refresh_blocks tg seen_generation t =
     (if bt_generation t \<noteq> seen_generation then Some (Inr (), t)
      else
        (case list_blocks (tg_session tg) (tg_get tg) (uid_volume (tg_uid tg)) (uid_link (tg_uid tg))
                (tg_revision_id tg) (bt_world t) of
           None \<Rightarrow> None
         | Some (Inl e, w) \<Rightarrow> Some (Inl e, t\<lparr>bt_world := w\<rparr>)
         | Some (Inr (_, blocks), w) \<Rightarrow>
             if length blocks \<noteq> tg_expected_blocks tg then
               Some (Inl (InvalidOperation (''revision '' @ tg_revision_id tg @
                 '' changed block count while open ('' @ nat_to_string (tg_expected_blocks tg) @
                 '' -> '' @ nat_to_string (length blocks) @ '')'')), t\<lparr>bt_world := w\<rparr>)
             else Some (Inr (), t\<lparr>bt_blocks := blocks, bt_generation := bt_generation t + 1,
                                 bt_world := w\<rparr>)))"

definition storage_fetch ::
  "'s block_targets \<Rightarrow> string \<Rightarrow> string \<Rightarrow> 's block_table \<Rightarrow> bytes result \<times> 's block_table" where
  "storage_fetch tg url token t =
     (let http = fst (bs_http (tg_session tg) (bt_world t));
          (r, w) = tg_storage tg http url token (bt_world t)
      in (r, t\<lparr>bt_world := w\<rparr>))"

definition ciphertext ::
  "'s block_targets \<Rightarrow> nat \<Rightarrow> 's block_table \<Rightarrow> (bytes result \<times> 's block_table) option" where
  "ciphertext tg index t =
     (case location tg index t of
        Inl e \<Rightarrow> Some (Inl e, t)
      | Inr (url, token, generation) \<Rightarrow>
          (case storage_fetch tg url token t of
             (Inr bs, t1) \<Rightarrow> Some (Inr bs, t1)
           | (Inl e, t1) \<Rightarrow>
               if is_expired_block_url e then
                 (case refresh_blocks tg generation t1 of
                    None \<Rightarrow> None
                  | Some (Inl e', t2) \<Rightarrow> Some (Inl e', t2)
                  | Some (Inr _, t2) \<Rightarrow>
                      (case location tg index t2 of
                         Inl e' \<Rightarrow> Some (Inl e', t2)
                       | Inr (url', token', _) \<Rightarrow> Some (storage_fetch tg url' token' t2)))
               else Some (Inl e, t1)))"

section \<open>Reading a range\<close>

fun plan_blocks_from :: "nat \<Rightarrow> u64 \<Rightarrow> u64 list \<Rightarrow> u64 \<Rightarrow> u64 \<Rightarrow> (nat \<times> u64) list" where
  "plan_blocks_from index block_start [] offset stop = []"
| "plan_blocks_from index block_start (block_size # sizes) offset stop =
     (if stop \<le> block_start then []
      else (let block_end = block_start + block_size;
                rest = plan_blocks_from (Suc index) block_end sizes offset stop
            in if offset < block_end then (index, block_start) # rest else rest))"

definition plan_blocks :: "u64 list \<Rightarrow> u64 \<Rightarrow> u64 \<Rightarrow> (nat \<times> u64) list" where
  "plan_blocks block_sizes offset stop = plan_blocks_from 0 0 block_sizes offset stop"

definition splice_block :: "bytes \<Rightarrow> bytes \<Rightarrow> u64 \<Rightarrow> u64 \<Rightarrow> u64 \<Rightarrow> bytes" where
  "splice_block out plaintext block_start offset stop =
     (let from = unat (u64_saturating_sub offset block_start);
          upto = min (unat (stop - block_start)) (length plaintext)
      in if from < upto then out @ drop from (take upto plaintext) else out)"

fun read_wanted ::
  "(nat \<Rightarrow> 's \<Rightarrow> (bytes result \<times> 's) option) \<Rightarrow> (nat \<times> u64) list \<Rightarrow> u64 \<Rightarrow> u64 \<Rightarrow> bytes \<Rightarrow> 's
     \<Rightarrow> (bytes result \<times> 's) option" where
  "read_wanted block [] offset stop out st = Some (Inr out, st)"
| "read_wanted block ((index, block_start) # ws) offset stop out st =
     (case block index st of
        None \<Rightarrow> None
      | Some (Inl e, st1) \<Rightarrow> Some (Inl e, st1)
      | Some (Inr plaintext, st1) \<Rightarrow>
          read_wanted block ws offset stop (splice_block out plaintext block_start offset stop) st1)"

definition u64_saturating_add :: "u64 \<Rightarrow> u64 \<Rightarrow> u64" where
  "u64_saturating_add a b = (if unat a + unat b < 2 ^ 64 then a + b else - 1)"

definition read_at_with ::
  "(nat \<Rightarrow> 's \<Rightarrow> (bytes result \<times> 's) option) \<Rightarrow> u64 list \<Rightarrow> u64 \<Rightarrow> u64 \<Rightarrow> 's
     \<Rightarrow> (bytes result \<times> 's) option" where
  "read_at_with block block_sizes offset len st =
     (let file_size = sum_list block_sizes
      in if len = 0 \<or> file_size \<le> offset then Some (Inr [], st)
         else (let stop = min (u64_saturating_add offset len) file_size
               in read_wanted block (plan_blocks block_sizes offset stop) offset stop [] st))"

definition block_plaintext ::
  "'s block_targets \<Rightarrow> (bytes \<Rightarrow> bytes result) \<Rightarrow> nat \<Rightarrow> 's block_table
     \<Rightarrow> (bytes result \<times> 's block_table) option" where
  "block_plaintext tg decrypt_block index t =
     (case ciphertext tg index t of
        None \<Rightarrow> None
      | Some (Inl e, t1) \<Rightarrow> Some (Inl e, t1)
      | Some (Inr c, t1) \<Rightarrow> Some (decrypt_block c, t1))"

definition read_at ::
  "'s block_targets \<Rightarrow> (bytes \<Rightarrow> bytes result) \<Rightarrow> u64 list \<Rightarrow> u64 \<Rightarrow> u64 \<Rightarrow> 's block_table
     \<Rightarrow> (bytes result \<times> 's block_table) option" where
  "read_at tg decrypt_block block_sizes offset len t =
     read_at_with (block_plaintext tg decrypt_block) block_sizes offset len t"

section \<open>Lemmas\<close>

interpretation table: generational bt_generation "refresh_blocks tg" for tg
  by unfold_locales
     (auto simp: refresh_blocks_def split: if_splits option.splits sum.splits prod.splits)

text \<open>The plan and the splice over natural numbers.\<close>

fun slices :: "nat \<Rightarrow> bytes list \<Rightarrow> nat \<Rightarrow> nat \<Rightarrow> bytes" where
  "slices k [] lo hi = []"
| "slices k (p # ps) lo hi =
     (if hi \<le> k then []
      else drop (lo - k) (take (hi - k) p) @ slices (k + length p) ps lo hi)"

lemma slices_eq: "slices k ps lo hi = drop (lo - k) (take (hi - k) (concat ps))"
proof (induction k ps lo hi rule: slices.induct)
  case (2 k p ps lo hi)
  show ?case
  proof (cases "hi - k \<le> length p")
    case True
    with 2 show ?thesis by auto
  next
    case False
    with 2 show ?thesis by (auto simp: min_def diff_diff_add)
  qed
qed simp

lemma u64_sat_sub_nat:
  "a < 2 ^ 64 \<Longrightarrow> b < 2 ^ 64 \<Longrightarrow> unat (u64_saturating_sub (of_nat a) (of_nat b)) = a - b"
  by (auto simp: u64_saturating_sub_def u64_of_nat_le unat_u64_diff)

lemma splice_block_nat:
  assumes "k < hi" "hi < 2 ^ 64" "lo < 2 ^ 64"
  shows "splice_block out p (of_nat k) (of_nat lo) (of_nat hi) = out @ drop (lo - k) (take (hi - k) p)"
proof -
  have "unat ((of_nat hi :: u64) - of_nat k) = hi - k"
    using assms by (simp add: unat_u64_diff)
  moreover have "unat (u64_saturating_sub (of_nat lo) (of_nat k)) = lo - k"
    using assms by (intro u64_sat_sub_nat) auto
  ultimately show ?thesis by (auto simp: splice_block_def Let_def min_def)
qed

text \<open>Fetching block \<open>i\<close> yields the plaintext \<open>ps ! i\<close>, from any state that satisfies \<open>ok\<close>.\<close>

definition serves_blocks ::
  "('s \<Rightarrow> bool) \<Rightarrow> (nat \<Rightarrow> 's \<Rightarrow> (bytes result \<times> 's) option) \<Rightarrow> bytes list \<Rightarrow> bool" where
  "serves_blocks ok block ps =
     (\<forall>i<length ps. \<forall>st. ok st \<longrightarrow> (\<exists>st'. block i st = Some (Inr (ps ! i), st') \<and> ok st'))"

lemma read_wanted_plan:
  assumes "\<And>j st. j < length ps \<Longrightarrow> ok st \<Longrightarrow>
      \<exists>st'. block (i + j) st = Some (Inr (ps ! j), st') \<and> ok st'"
    and "ok st" and "k + length (concat ps) < 2 ^ 64" "hi < 2 ^ 64" "lo < 2 ^ 64"
  shows "\<exists>st'. read_wanted block
       (plan_blocks_from i (of_nat k) (map (\<lambda>p. of_nat (length p)) ps) (of_nat lo) (of_nat hi))
       (of_nat lo) (of_nat hi) out st = Some (Inr (out @ slices k ps lo hi), st') \<and> ok st'"
  using assms
proof (induction ps arbitrary: i k out st)
  case Nil
  then show ?case by simp
next
  case (Cons p ps)
  let ?rest = "plan_blocks_from (Suc i) (of_nat (k + length p)) (map (\<lambda>p. of_nat (length p)) ps)
    (of_nat lo) (of_nat hi)"
  have IH: "\<exists>st'. read_wanted block ?rest (of_nat lo) (of_nat hi) out' st1 =
      Some (Inr (out' @ slices (k + length p) ps lo hi), st') \<and> ok st'" if "ok st1" for out' st1
  proof (rule Cons.IH)
    show "\<exists>st'. block (Suc i + j) st = Some (Inr (ps ! j), st') \<and> ok st'"
      if "j < length ps" "ok st" for j st
      using Cons.prems(1) [of "Suc j" st] that by simp
  qed (use Cons.prems that in auto)
  have k: "k < 2 ^ 64" "k + length p < 2 ^ 64" using Cons.prems(3) by auto
  have le: "(of_nat hi :: u64) \<le> of_nat k \<longleftrightarrow> hi \<le> k" using k Cons.prems(4) by (simp add: u64_of_nat_le)
  have less: "(of_nat lo :: u64) < of_nat (k + length p) \<longleftrightarrow> lo < k + length p"
    using k Cons.prems(5) by (simp add: u64_of_nat_less del: of_nat_add)
  show ?case
  proof (cases "hi \<le> k")
    case True
    then show ?thesis using le Cons.prems(2) by simp
  next
    case False
    show ?thesis
    proof (cases "lo < k + length p")
      case True
      obtain st1 where "block i st = Some (Inr p, st1)" "ok st1"
        using Cons.prems(1) [of 0 st] Cons.prems(2) by auto
      with IH [of st1 "splice_block out p (of_nat k) (of_nat lo) (of_nat hi)"] show ?thesis
        using False True le less Cons.prems(4,5) by (simp add: Let_def splice_block_nat)
    next
      case over: False
      then have "drop (lo - k) (take (hi - k) p) = []" by simp
      with IH [of st out] Cons.prems(2) False over le less show ?thesis by (simp add: Let_def)
    qed
  qed
qed

lemma sum_list_of_nat_u64: "sum_list (map (\<lambda>p. of_nat (length p)) ps) = (of_nat (length (concat ps)) :: u64)"
  by (induction ps) simp_all

lemma read_at_with_exact:
  assumes serve: "serves_blocks ok block ps" and i: "ok st" and fits: "length (concat ps) < 2 ^ 64"
  shows "\<exists>st'. read_at_with block (map (\<lambda>p. of_nat (length p)) ps) offset len st =
     Some (Inr (take (unat len) (drop (unat offset) (concat ps))), st') \<and> ok st'"
proof -
  let ?n = "length (concat ps)"
  define lo where "lo = unat offset"
  define hi where "hi = min (lo + unat len) ?n"
  have o: "offset = of_nat lo" by (simp add: lo_def)
  have lo: "lo < 2 ^ 64" using unsigned_less [of offset] by (simp add: lo_def)
  have size: "sum_list (map (\<lambda>p. of_nat (length p)) ps) = (of_nat ?n :: u64)"
    by (rule sum_list_of_nat_u64)
  have le: "(of_nat ?n :: u64) \<le> offset \<longleftrightarrow> ?n \<le> lo" using lo fits by (simp add: o u64_of_nat_le)
  have hi: "min (u64_saturating_add offset len) (of_nat ?n) = (of_nat hi :: u64)"
  proof (cases "lo + unat len < 2 ^ 64")
    case True
    then have "u64_saturating_add offset len = of_nat (lo + unat len)"
      by (simp add: u64_saturating_add_def lo_def)
    then show ?thesis using True fits by (simp add: hi_def u64_of_nat_min del: of_nat_add)
  next
    case False
    then have "u64_saturating_add offset len = - 1" by (simp add: u64_saturating_add_def lo_def)
    moreover have "hi = ?n" using False fits by (simp add: hi_def)
    ultimately show ?thesis by (simp add: min.absorb2 [OF word_order.extremum])
  qed
  have blocks: "\<exists>st'. block (0 + j) st = Some (Inr (ps ! j), st') \<and> ok st'"
    if "j < length ps" "ok st" for j st
    using serve that by (simp add: serves_blocks_def)
  show ?thesis
  proof (cases "len = 0 \<or> ?n \<le> lo")
    case True
    then show ?thesis using size le i by (auto simp: read_at_with_def lo_def)
  next
    case False
    have "\<exists>st'. read_wanted block (plan_blocks_from 0 (of_nat 0) (map (\<lambda>p. of_nat (length p)) ps)
        (of_nat lo) (of_nat hi)) (of_nat lo) (of_nat hi) [] st =
        Some (Inr ([] @ slices 0 ps lo hi), st') \<and> ok st'"
      by (rule read_wanted_plan [OF blocks]) (use fits lo i in \<open>auto simp: hi_def\<close>)
    then have "\<exists>st'. read_at_with block (map (\<lambda>p. of_nat (length p)) ps) offset len st =
        Some (Inr (slices 0 ps lo hi), st') \<and> ok st'"
      using False size le hi by (simp add: read_at_with_def plan_blocks_def Let_def flip: o)
    moreover have "slices 0 ps lo hi = take (unat len) (drop lo (concat ps))"
      using False by (simp add: slices_eq hi_def take_drop min_def add.commute)
    ultimately show ?thesis by (simp add: lo_def)
  qed
qed

section \<open>Properties\<close>

text \<open>C6: when the recorded block sizes are the true ones and the file is smaller than \<open>2^64\<close>
  bytes, a ranged read returns, with exactly the bytes \<open>[offset, offset + len)\<close> of the
  concatenated plaintext, clamped at the end of the file, for every offset and length at the
  width of the source.\<close>

theorem read_at_exact:
  assumes "serves_blocks ok (block_plaintext tg decrypt_block) ps" and "ok t"
    and "length (concat ps) < 2 ^ 64"
  shows "\<exists>t'. read_at tg decrypt_block (map (\<lambda>p. of_nat (length p)) ps) offset len t =
     Some (Inr (take (unat len) (drop (unat offset) (concat ps))), t') \<and> ok t'"
  unfolding read_at_def by (rule read_at_with_exact [OF assms])

text \<open>a file written in the standard layout whose attributes record only its total size
  is read back exactly: the ranked sizes and the range plan agree with the uploader's
  chunking.\<close>

theorem read_standard_layout:
  assumes "length content < 2 ^ 63" and "cx_size common = Some (int (length content))"
    and "cx_block_sizes common = None"
    and "rank_block_sizes (Some common) rid (length (chunks DEFAULT_BLOCK_SIZE content)) = Inr sizes"
    and "serves_blocks ok (block_plaintext tg decrypt_block) (chunks DEFAULT_BLOCK_SIZE content)"
    and "ok t"
  shows "\<exists>t'. read_at tg decrypt_block sizes offset len t =
     Some (Inr (take (unat len) (drop (unat offset) content)), t')"
proof -
  have pos: "0 < DEFAULT_BLOCK_SIZE" by (simp add: DEFAULT_BLOCK_SIZE_def)
  have "sizes = map (\<lambda>c. of_nat (length c)) (chunks DEFAULT_BLOCK_SIZE content)"
    using assms(1-4) sizes_from_total_standard [OF assms(1)]
    by (simp add: rank_block_sizes_def sizes_without_vector_def)
  moreover have "length (concat (chunks DEFAULT_BLOCK_SIZE content)) < 2 ^ 64"
    using assms(1) pos by simp
  ultimately show ?thesis
    using read_at_with_exact [OF assms(5,6), of offset len] pos by (auto simp: read_at_def)
qed

text \<open>a block whose storage URL has expired costs one re-listing and one more fetch at the
  fresh location, and the table then carries the next generation.\<close>

theorem ciphertext_recovers:
  assumes "location tg index t = Inr (url, token, g)"
    and "storage_fetch tg url token t = (Inl e, t1)" and "is_expired_block_url e"
    and "list_blocks (tg_session tg) (tg_get tg) (uid_volume (tg_uid tg)) (uid_link (tg_uid tg))
           (tg_revision_id tg) (bt_world t1) = Some (Inr (meta, blocks), w)"
    and "length blocks = tg_expected_blocks tg" and "index < length blocks"
  shows "ciphertext tg index t =
     Some (storage_fetch tg (blk_bare_url (blocks ! index)) (blk_token (blocks ! index))
       \<lparr>bt_blocks = blocks, bt_generation = bt_generation t + 1, bt_world = w\<rparr>)"
proof -
  have g: "g = bt_generation t"
    using assms(1) by (auto simp: location_def Let_def split: if_splits)
  have t1: "bt_generation t1 = bt_generation t"
    using assms(2) by (auto simp: storage_fetch_def split: prod.splits)
  have "refresh_blocks tg g t1 =
      Some (Inr (), \<lparr>bt_blocks = blocks, bt_generation = bt_generation t + 1, bt_world = w\<rparr>)"
    using assms(4,5) g t1 by (simp add: refresh_blocks_def)
  then show ?thesis using assms(1,2,3,6) by (simp add: ciphertext_def location_def Let_def)
qed

text \<open>any number of block fetches that saw the same generation of the table fail cost one
  re-listing: the first replaces the table, the others return at once.\<close>

theorem refresh_burst_lists_once:
  assumes "bt_generation t = seen" and "refresh_blocks tg seen t = Some (Inr (), t')"
  shows "burst (refresh_blocks tg) (replicate (Suc k) seen) t =
     Some (replicate (Suc k) (Inr ()), t')"
  using assms by (rule table.burst_once)

subsection \<open>Witnesses\<close>

definition example_blocks :: "block_dto list" where
  "example_blocks =
     [\<lparr>blk_index = 1, blk_bare_url = ''a'', blk_token = ''t''\<rparr>,
      \<lparr>blk_index = 2, blk_bare_url = ''b'', blk_token = ''t''\<rparr>]"

text \<open>Two blocks; storage forgets a token after the first listing when the world is \<open>0\<close>.\<close>

definition example_targets :: "nat block_targets" where
  "example_targets =
     \<lparr>tg_session = StaticSession example_client,
      tg_get = (\<lambda>http path w. (Inr (example_revision\<lparr>rev_blocks := example_blocks\<rparr>), Suc w)),
      tg_storage = (\<lambda>http url token w.
         if w = 0 then (Inl (Api \<lparr>ae_code = Unknown, ae_http_status = 403, ae_message = [],
                                   ae_details = None\<rparr>), w)
         else if url = ''a'' then (Inr [1, 2, 3], w) else (Inr [4, 5], w)),
      tg_uid = NodeUid_new (VolumeId ''v'') (LinkId ''l''),
      tg_revision_id = ''r'', tg_expected_blocks = 2\<rparr>"

lemmas targets_eval =
  example_targets_def example_blocks_def StaticSession_def storage_fetch_def location_def
  BlockTargets_new_def

lemma example_targets_serve:
  "serves_blocks (\<lambda>t. bt_blocks t = example_blocks \<and> bt_world t = 1)
     (block_plaintext example_targets Inr) [[1, 2, 3], [4, 5]]"
  by (simp add: serves_blocks_def block_plaintext_def ciphertext_def targets_eval
      less_Suc_eq numeral_2_eq_2)

theorem read_at_exact_witness:
  "\<exists>t'. read_at example_targets Inr [3, 2] 1 3 (BlockTargets_new example_blocks 1) =
     Some (Inr [2, 3, 4], t')"
proof -
  have "\<exists>t'. read_at example_targets Inr (map (\<lambda>p. of_nat (length p)) [[1, 2, 3], [4, 5::u8]]) 1 3
      (BlockTargets_new example_blocks 1) =
      Some (Inr (take (unat (3::u64)) (drop (unat (1::u64)) (concat [[1, 2, 3], [4, 5]]))), t') \<and>
      bt_blocks t' = example_blocks \<and> bt_world t' = 1"
    by (rule read_at_exact [OF example_targets_serve]) (simp_all add: BlockTargets_new_def)
  then show ?thesis by auto
qed

lemma example_standard_serve:
  "serves_blocks (\<lambda>t. bt_blocks t = example_blocks \<and> bt_world t = 1)
     (block_plaintext example_targets Inr) (chunks DEFAULT_BLOCK_SIZE [1, 2, 3])"
  by (simp add: serves_blocks_def block_plaintext_def ciphertext_def targets_eval chunks.simps
      DEFAULT_BLOCK_SIZE_def)

theorem read_standard_layout_witness:
  "\<exists>t'. read_at example_targets Inr [3] 1 9 (BlockTargets_new example_blocks 1) =
     Some (Inr [2, 3], t')"
proof -
  let ?common = "\<lparr>cx_size = Some 3, cx_modification_time = None, cx_block_sizes = None, cx_sha1 = None\<rparr>"
  have c: "chunks DEFAULT_BLOCK_SIZE [1, 2, 3::u8] = [[1, 2, 3]]"
    by (simp add: chunks.simps DEFAULT_BLOCK_SIZE_def)
  have r: "rank_block_sizes (Some ?common) ''r'' (length (chunks DEFAULT_BLOCK_SIZE [1, 2, 3::u8])) = Inr [3]"
    using sizes_from_total_standard [of "[1, 2, 3::u8]"]
    by (simp add: rank_block_sizes_def sizes_without_vector_def c)
  have "\<exists>t'. read_at example_targets Inr [3] 1 9 (BlockTargets_new example_blocks 1) =
     Some (Inr (take (unat (9::u64)) (drop (unat (1::u64)) [1, 2, 3])), t')"
    by (rule read_standard_layout [OF _ _ _ r example_standard_serve])
       (simp_all add: BlockTargets_new_def)
  then show ?thesis by auto
qed

lemma example_relist:
  "list_blocks (tg_session example_targets) (tg_get example_targets) (uid_volume (tg_uid example_targets))
     (uid_link (tg_uid example_targets)) (tg_revision_id example_targets) 0 =
   Some (Inr (example_revision, example_blocks), 1)"
  by (simp add: list_blocks_def transport_get_def with_renewal_def targets_eval fetch_pages.simps
      PAGE_SIZE_def contiguous_def example_revision_def)

theorem ciphertext_recovers_witness:
  "\<exists>t'. ciphertext example_targets 1 (BlockTargets_new example_blocks 0) = Some (Inr [4, 5], t') \<and>
     bt_generation t' = 1"
proof -
  let ?e = "Api \<lparr>ae_code = Unknown, ae_http_status = 403, ae_message = [], ae_details = None\<rparr>"
  let ?t = "BlockTargets_new example_blocks 0"
  have l: "location example_targets 1 ?t = Inr (''b'', ''t'', 0)" by (simp add: targets_eval)
  have f: "storage_fetch example_targets ''b'' ''t'' ?t = (Inl ?e, ?t)" by (simp add: targets_eval)
  have x: "is_expired_block_url ?e" by (simp add: is_expired_block_url_def)
  have w: "list_blocks (tg_session example_targets) (tg_get example_targets)
      (uid_volume (tg_uid example_targets)) (uid_link (tg_uid example_targets))
      (tg_revision_id example_targets) (bt_world ?t) = Some (Inr (example_revision, example_blocks), 1)"
    using example_relist by (simp add: BlockTargets_new_def)
  have n: "length example_blocks = tg_expected_blocks example_targets" "1 < length example_blocks"
    by (simp_all add: example_targets_def example_blocks_def)
  show ?thesis using ciphertext_recovers [OF l f x w n] by (simp add: targets_eval)
qed

theorem refresh_burst_lists_once_witness:
  "\<exists>t'. burst (refresh_blocks example_targets) [0, 0, 0] (BlockTargets_new example_blocks 0) =
     Some ([Inr (), Inr (), Inr ()], t') \<and> bt_world t' = 1"
proof -
  let ?t = "BlockTargets_new example_blocks 0"
  have "refresh_blocks example_targets 0 ?t =
      Some (Inr (), ?t\<lparr>bt_blocks := example_blocks, bt_generation := 1, bt_world := 1\<rparr>)"
    using example_relist by (simp add: refresh_blocks_def BlockTargets_new_def)
      (simp add: example_targets_def example_blocks_def)
  from refresh_burst_lists_once [OF _ this, of 2] show ?thesis
    by (simp add: numeral_2_eq_2 BlockTargets_new_def)
qed

end
