(* ===== verification/Upload.thy ===== *)
theory Upload
  imports Revision "HOL-Library.Multiset"
begin

text \<open>
  The upload of a revision's content (\<open>client.rs\<close>: \<open>read_full_block\<close>,
  \<open>encrypt_content_blocks\<close>, \<open>upload_prepared_blocks\<close>, \<open>upload_batch\<close>,
  \<open>upload_one_block\<close>, \<open>write_blocks\<close>, \<open>seal_revision\<close>) and the
  sequential download that checks it (\<open>write_content_blocks\<close>,
  \<open>download_file_to\<close>).  The reader, the cryptography and the endpoints are
  arguments.

  The source encrypts and stores blocks concurrently.  What the runtime decides (how
  many encrypted blocks a batch picks up, which block in flight makes its next attempt)
  is a list of numbers, each taken modulo the choices there are, so that every list is
  a schedule and every schedule is a list; theorems hold for all of them.  Permits and
  limiter slots bound memory and overlap, and decide nothing else.
\<close>

section \<open>Reading blocks\<close>

text \<open>One call of \<open>Read::read\<close> on a buffer with room for the given number of bytes.\<close>

datatype io_read = ReadOk bytes | ReadInterrupted | ReadFailed string

partial_function (option) read_full_block ::
  "(nat \<Rightarrow> 'r \<Rightarrow> io_read \<times> 'r) \<Rightarrow> nat \<Rightarrow> bytes \<Rightarrow> 'r \<Rightarrow> (bytes result \<times> 'r) option" where
  "read_full_block rd cap filled r =
     (if cap \<le> length filled then Some (Inr filled, r)
      else
        (case rd (cap - length filled) r of
           (ReadOk bs, r1) \<Rightarrow>
             if bs = [] then Some (Inr filled, r1) else read_full_block rd cap (filled @ bs) r1
         | (ReadInterrupted, r1) \<Rightarrow> read_full_block rd cap filled r1
         | (ReadFailed e, r1) \<Rightarrow> Some (Inl (InvalidOperation (''read block: '' @ e)), r1)))"

section \<open>Encrypting blocks\<close>

record block_creation_request =
  bcr_index :: int
  bcr_size :: int
  bcr_encrypted_signature :: string
  bcr_hash :: string
  bcr_token :: string

record thumbnail_creation_request =
  tcr_size :: int
  tcr_thumbnail_type :: int
  tcr_hash :: string

record prepared_block =
  pb_ciphertext :: bytes
  pb_digest :: bytes
  pb_request :: block_creation_request

record encrypted_thumbnail =
  et_thumbnail_type :: int
  et_ciphertext :: bytes
  et_digest :: bytes
  et_request :: thumbnail_creation_request

text \<open>
  The keys of the draft as the operations the upload performs with them.  Encryption and
  signing draw randomness and the time from the state \<open>'e\<close>.
\<close>

record 'e upload_keys =
  uk_encrypt_block :: "bytes \<Rightarrow> 'e \<Rightarrow> bytes result \<times> 'e"
  uk_encrypt_thumbnail :: "bytes \<Rightarrow> 'e \<Rightarrow> bytes result \<times> 'e"
  uk_sign_detached :: "bytes \<Rightarrow> 'e \<Rightarrow> string result \<times> 'e"
  uk_encrypt :: "bytes \<Rightarrow> 'e \<Rightarrow> string result \<times> 'e"
  uk_encrypt_and_sign :: "bytes \<Rightarrow> 'e \<Rightarrow> string result \<times> 'e"
  uk_decrypt_content_key :: "bytes \<Rightarrow> string + unit"
  uk_attributes_json :: "common_extended_attributes \<Rightarrow> string + bytes"
  uk_sha256 :: "bytes \<Rightarrow> bytes"
  uk_sha1_hex :: "bytes \<Rightarrow> string"
  uk_base64 :: "bytes \<Rightarrow> string"
  uk_base64_decode :: "string \<Rightarrow> string + bytes"

definition verification_token :: "bytes \<Rightarrow> bytes \<Rightarrow> bytes" where
  "verification_token code ct =
     map (\<lambda>(i, c). xor c (if i < length ct then ct ! i else 0)) (enumerate 0 code)"

definition encrypt_content_block ::
  "'e upload_keys \<Rightarrow> bytes \<Rightarrow> int \<Rightarrow> bytes \<Rightarrow> 'e \<Rightarrow> prepared_block result \<times> 'e" where
  "encrypt_content_block K code index plaintext w =
     (case uk_encrypt_block K plaintext w of
        (Inl e, w1) \<Rightarrow> (Inl e, w1)
      | (Inr ct, w1) \<Rightarrow>
          (case uk_sign_detached K plaintext w1 of
             (Inl e, w2) \<Rightarrow> (Inl e, w2)
           | (Inr signature, w2) \<Rightarrow>
               (case uk_encrypt K (as_bytes signature) w2 of
                  (Inl e, w3) \<Rightarrow> (Inl e, w3)
                | (Inr encrypted_signature, w3) \<Rightarrow>
                    (Inr \<lparr>pb_ciphertext = ct, pb_digest = uk_sha256 K ct,
                          pb_request =
                            \<lparr>bcr_index = index, bcr_size = int (length ct),
                             bcr_encrypted_signature = encrypted_signature,
                             bcr_hash = uk_base64 K (uk_sha256 K ct),
                             bcr_token = uk_base64 K (verification_token code ct)\<rparr>\<rparr>, w3))))"

definition encrypt_thumbnail_block ::
  "'e upload_keys \<Rightarrow> thumbnail \<Rightarrow> 'e \<Rightarrow> encrypted_thumbnail result \<times> 'e" where
  "encrypt_thumbnail_block K t w =
     (case uk_encrypt_thumbnail K (th_content t) w of
        (Inl e, w1) \<Rightarrow> (Inl e, w1)
      | (Inr ct, w1) \<Rightarrow>
          (Inr \<lparr>et_thumbnail_type = ThumbnailType_as_i32 (th_type t), et_ciphertext = ct,
                et_digest = uk_sha256 K ct,
                et_request = \<lparr>tcr_size = int (length ct),
                              tcr_thumbnail_type = ThumbnailType_as_i32 (th_type t),
                              tcr_hash = uk_base64 K (uk_sha256 K ct)\<rparr>\<rparr>, w1))"

fun encrypt_thumbnails ::
  "'e upload_keys \<Rightarrow> thumbnail list \<Rightarrow> 'e \<Rightarrow> encrypted_thumbnail list result \<times> 'e" where
  "encrypt_thumbnails K [] w = (Inr [], w)"
| "encrypt_thumbnails K (t # ts) w =
     (case encrypt_thumbnail_block K t w of
        (Inl e, w1) \<Rightarrow> (Inl e, w1)
      | (Inr x, w1) \<Rightarrow>
          (case encrypt_thumbnails K ts w1 of
             (Inl e, w2) \<Rightarrow> (Inl e, w2)
           | (Inr xs, w2) \<Rightarrow> (Inr (x # xs), w2)))"

text \<open>
  The encryptor: the blocks it has handed over, and either the error that ended it or
  the sizes and the plaintext it has folded.
\<close>

record encrypted_blocks =
  eb_prepared :: "prepared_block list"
  eb_plaintexts :: "bytes list"

partial_function (option) encrypt_content_blocks ::
  "'e upload_keys \<Rightarrow> (nat \<Rightarrow> 'r \<Rightarrow> io_read \<times> 'r) \<Rightarrow> bytes \<Rightarrow> int \<Rightarrow> encrypted_blocks \<Rightarrow> 'r \<Rightarrow> 'e
     \<Rightarrow> ((proton_error option \<times> encrypted_blocks) \<times> 'e) option" where
  "encrypt_content_blocks K rd code index acc r w =
     (case read_full_block rd DEFAULT_BLOCK_SIZE [] r of
        None \<Rightarrow> None
      | Some (Inl e, r1) \<Rightarrow> Some ((Some e, acc), w)
      | Some (Inr buf, r1) \<Rightarrow>
          if buf = [] then Some ((None, acc), w)
          else
            (case encrypt_content_block K code index buf w of
               (Inl e, w1) \<Rightarrow> Some ((Some e, acc), w1)
             | (Inr pb, w1) \<Rightarrow>
                 encrypt_content_blocks K rd code (index + 1)
                   \<lparr>eb_prepared = eb_prepared acc @ [pb], eb_plaintexts = eb_plaintexts acc @ [buf]\<rparr>
                   r1 w1))"

section \<open>Upload targets\<close>

record block_upload_target =
  ut_bare_url :: string
  ut_token :: string
  ut_index :: "int option"
  ut_thumbnail_type :: "int option"

record block_upload_preparation_request =
  up_address_id :: address_id
  up_volume_id :: volume_id
  up_link_id :: link_id
  up_revision_id :: string
  up_blocks :: "block_creation_request list"
  up_thumbnails :: "thumbnail_creation_request list"

record block_upload_preparation_response =
  ur_upload_targets :: "block_upload_target list"
  ur_thumbnail_upload_targets :: "block_upload_target list"

record block_verification_input_response =
  vi_verification_code :: string
  vi_content_key_packet :: string

record photos_attributes_dto =
  pa_capture_time :: int
  pa_content_hash :: string
  pa_main_photo_link_id :: "link_id option"
  pa_tags :: "int list"

record revision_update_request =
  ru_manifest_signature :: string
  ru_signature_address :: string
  ru_checksum_verified :: bool
  ru_extended_attributes :: "string option"
  ru_photos_attributes :: "photos_attributes_dto option"

record upload_context =
  ux_address_id :: address_id
  ux_volume_id :: volume_id
  ux_link_id :: link_id
  ux_revision_id :: string

text \<open>The endpoints of an upload.\<close>

record 'w upload_net =
  un_verification :: "string \<Rightarrow> 'w \<Rightarrow> block_verification_input_response result \<times> 'w"
  un_blocks :: "block_upload_preparation_request \<Rightarrow> 'w \<Rightarrow> block_upload_preparation_response result \<times> 'w"
  un_storage :: "string \<Rightarrow> string \<Rightarrow> bytes \<Rightarrow> 'w \<Rightarrow> unit result \<times> 'w"
  un_seal :: "string \<Rightarrow> revision_update_request \<Rightarrow> 'w \<Rightarrow> unit result \<times> 'w"

definition request_upload_targets ::
  "'w upload_net \<Rightarrow> upload_context \<Rightarrow> block_creation_request list \<Rightarrow> thumbnail_creation_request list
     \<Rightarrow> 'w \<Rightarrow> block_upload_preparation_response result \<times> 'w" where
  "request_upload_targets N ctx blocks thumbnails w =
     un_blocks N \<lparr>up_address_id = ux_address_id ctx, up_volume_id = ux_volume_id ctx,
                  up_link_id = ux_link_id ctx, up_revision_id = ux_revision_id ctx,
                  up_blocks = blocks, up_thumbnails = thumbnails\<rparr> w"

text \<open>The target echoing the key, else the first that echoes none.\<close>

definition target_position ::
  "(block_upload_target \<Rightarrow> int option) \<Rightarrow> int \<Rightarrow> block_upload_target list \<Rightarrow> nat option" where
  "target_position key k targets =
     (case position (\<lambda>t. key t = Some k) targets of
        Some i \<Rightarrow> Some i
      | None \<Rightarrow> position (\<lambda>t. key t = None) targets)"

definition take_target ::
  "(block_upload_target \<Rightarrow> int option) \<Rightarrow> block_upload_target list \<Rightarrow> int
     \<Rightarrow> (block_upload_target \<times> block_upload_target list) option" where
  "take_target key targets k =
     map_option (\<lambda>i. (targets ! i, remove_at i targets)) (target_position key k targets)"

definition take_block_target ::
  "block_upload_target list \<Rightarrow> int \<Rightarrow> (block_upload_target \<times> block_upload_target list) option" where
  "take_block_target = take_target ut_index"

definition take_thumbnail_target ::
  "block_upload_target list \<Rightarrow> int \<Rightarrow> (block_upload_target \<times> block_upload_target list) option" where
  "take_thumbnail_target = take_target ut_thumbnail_type"

section \<open>Storing one block\<close>

definition MAX_CONCURRENT_BLOCK_UPLOADS :: nat where "MAX_CONCURRENT_BLOCK_UPLOADS = 5"
definition MAX_BUFFERED_UPLOAD_BLOCKS :: nat where "MAX_BUFFERED_UPLOAD_BLOCKS = 4"
definition MAX_BLOCK_UPLOAD_ATTEMPTS :: nat where "MAX_BLOCK_UPLOAD_ATTEMPTS = 3"

record upload_job =
  uj_index :: "int option"
  uj_ciphertext :: bytes
  uj_digest :: bytes
  uj_request :: "block_creation_request option"
  uj_target :: block_upload_target
  uj_attempt :: nat

definition is_expired_upload_token :: "proton_error \<Rightarrow> bool" where
  "is_expired_upload_token e =
     (case e of Api a \<Rightarrow> ae_http_status a = 404 \<or> ae_code a = DoesNotExist | _ \<Rightarrow> False)"

definition is_upload_timeout :: "proton_error \<Rightarrow> bool" where
  "is_upload_timeout e = (case e of Transport t \<Rightarrow> te_timeout t | _ \<Rightarrow> False)"

text \<open>
  One turn of the loop of \<open>upload_one_block\<close>.  The flag is \<open>downshifted\<close>,
  shared by the blocks of the file.
\<close>

datatype job_outcome = Stored "(int \<times> bytes) option" | Lost proton_error | Retry upload_job

definition upload_attempt ::
  "'w upload_net \<Rightarrow> upload_context \<Rightarrow> upload_job \<Rightarrow> bool \<times> 'w \<Rightarrow> job_outcome \<times> bool \<times> 'w" where
  "upload_attempt N ctx job = (\<lambda>(downshifted, w).
     let job = job\<lparr>uj_attempt := Suc (uj_attempt job)\<rparr> in
     case un_storage N (ut_bare_url (uj_target job)) (ut_token (uj_target job)) (uj_ciphertext job) w of
       (Inr _, w1) \<Rightarrow>
         (Stored (map_option (\<lambda>index. (index, uj_digest job)) (uj_index job)), downshifted, w1)
     | (Inl e, w1) \<Rightarrow>
         if MAX_BLOCK_UPLOAD_ATTEMPTS \<le> uj_attempt job then (Lost e, downshifted, w1)
         else if \<not> ProtonError_is_retriable e then (Lost e, downshifted, w1)
         else if is_upload_timeout e then (Retry job, True, w1)
         else
           (case uj_request job of
              None \<Rightarrow> (Retry job, downshifted, w1)
            | Some request \<Rightarrow>
                if is_expired_upload_token e then
                  (case request_upload_targets N ctx [request] [] w1 of
                     (Inl e', w2) \<Rightarrow> (Lost e', downshifted, w2)
                   | (Inr prepared, w2) \<Rightarrow>
                       (case ur_upload_targets prepared of
                          [] \<Rightarrow> (Lost (InvalidOperation
                                  ''block upload preparation returned no target''), downshifted, w2)
                        | t # _ \<Rightarrow> (Retry (job\<lparr>uj_target := t\<rparr>), downshifted, w2)))
                else (Retry job, downshifted, w1)))"

lemma upload_attempt_Retry:
  "upload_attempt N ctx job st = (Retry job', st') \<Longrightarrow>
     uj_attempt job' = Suc (uj_attempt job) \<and> uj_attempt job' < MAX_BLOCK_UPLOAD_ATTEMPTS \<and>
     uj_index job' = uj_index job \<and> uj_digest job' = uj_digest job \<and>
     uj_ciphertext job' = uj_ciphertext job \<and> uj_request job' = uj_request job"
  by (auto simp: upload_attempt_def Let_def not_le
      split: prod.splits sum.splits if_splits option.splits list.splits)

function upload_one_block ::
  "'w upload_net \<Rightarrow> upload_context \<Rightarrow> upload_job \<Rightarrow> bool \<times> 'w \<Rightarrow> (int \<times> bytes) option result \<times> bool \<times> 'w" where
  "upload_one_block N ctx job st =
     (case upload_attempt N ctx job st of
        (Stored out, st1) \<Rightarrow> (Inr out, st1)
      | (Lost e, st1) \<Rightarrow> (Inl e, st1)
      | (Retry job', st1) \<Rightarrow> upload_one_block N ctx job' st1)"
  by pat_completeness auto
termination
  by (relation "measure (\<lambda>(N, ctx, job, st). MAX_BLOCK_UPLOAD_ATTEMPTS - uj_attempt job)")
     (auto dest!: upload_attempt_Retry [OF sym])

declare upload_one_block.simps [simp del]

section \<open>Storing a batch\<close>

text \<open>
  \<open>buffer_unordered\<close>: the first jobs left are in flight, one of them makes its next
  attempt, a stored one leaves and lets the next job in; the first lost job ends the
  batch.  The results are in completion order.
\<close>

fun pick :: "nat list \<Rightarrow> nat \<Rightarrow> nat \<times> nat list" where
  "pick [] n = (0, [])"
| "pick (p # ps) n = (p mod n, ps)"

lemma pick_less: "0 < n \<Longrightarrow> fst (pick sch n) < n"
  by (cases sch) simp_all

definition in_flight :: "upload_job list \<Rightarrow> nat" where
  "in_flight jobs = min MAX_CONCURRENT_BLOCK_UPLOADS (length jobs)"

definition jobs_left :: "upload_job list \<Rightarrow> nat" where
  "jobs_left jobs = (\<Sum>j\<leftarrow>jobs. Suc (MAX_BLOCK_UPLOAD_ATTEMPTS - uj_attempt j))"

lemma jobs_left_split:
  "p < length jobs \<Longrightarrow>
     jobs_left jobs = jobs_left (take p jobs) + Suc (MAX_BLOCK_UPLOAD_ATTEMPTS - uj_attempt (jobs ! p)) +
       jobs_left (drop (Suc p) jobs)"
  using id_take_nth_drop [of p jobs] unfolding jobs_left_def
  by (metis (no_types, lifting) add.assoc list.simps(9) map_append sum_list.Cons sum_list_append)

lemma jobs_left_remove: "p < length jobs \<Longrightarrow> jobs_left (remove_at p jobs) < jobs_left jobs"
  by (simp add: jobs_left_split [of p jobs]) (simp add: jobs_left_def remove_at_def)

lemma jobs_left_update:
  "p < length jobs \<Longrightarrow> MAX_BLOCK_UPLOAD_ATTEMPTS - uj_attempt j < MAX_BLOCK_UPLOAD_ATTEMPTS - uj_attempt (jobs ! p)
     \<Longrightarrow> jobs_left (jobs[p := j]) < jobs_left jobs"
  by (simp add: jobs_left_split [of p jobs]) (simp add: jobs_left_def upd_conv_take_nth_drop)

lemma pick_in_flight: "(p, sch') = pick sch (in_flight jobs) \<Longrightarrow> jobs \<noteq> [] \<Longrightarrow> p < length jobs"
  using pick_less [of "in_flight jobs" sch]
  by (cases "pick sch (in_flight jobs)") (auto simp: in_flight_def MAX_CONCURRENT_BLOCK_UPLOADS_def)

function run_jobs ::
  "'w upload_net \<Rightarrow> upload_context \<Rightarrow> nat list \<Rightarrow> upload_job list \<Rightarrow> (int \<times> bytes) option list \<Rightarrow> bool \<times> 'w
     \<Rightarrow> (int \<times> bytes) option list result \<times> nat list \<times> bool \<times> 'w" where
  "run_jobs N ctx sch jobs stored st =
     (if jobs = [] then (Inr stored, sch, st)
      else
        (let (p, sch') = pick sch (in_flight jobs) in
         case upload_attempt N ctx (jobs ! p) st of
           (Stored out, st1) \<Rightarrow> run_jobs N ctx sch' (remove_at p jobs) (stored @ [out]) st1
         | (Retry job', st1) \<Rightarrow> run_jobs N ctx sch' (jobs[p := job']) stored st1
         | (Lost e, st1) \<Rightarrow> (Inl e, sch', st1)))"
  by pat_completeness auto
termination
  by (relation "measure (\<lambda>(N, ctx, sch, jobs, stored, st). jobs_left jobs)")
     (auto simp: jobs_left_remove dest: pick_in_flight
       intro!: jobs_left_update dest!: upload_attempt_Retry [OF sym])

declare run_jobs.simps [simp del]

fun thumbnail_jobs ::
  "block_upload_target list \<Rightarrow> encrypted_thumbnail list \<Rightarrow> upload_job list result" where
  "thumbnail_jobs targets [] = Inr []"
| "thumbnail_jobs targets (t # ts) =
     (case take_thumbnail_target targets (et_thumbnail_type t) of
        None \<Rightarrow> Inl (InvalidOperation (''thumbnail upload preparation returned no target for type '' @
                  int_to_string (et_thumbnail_type t)))
      | Some (target, targets') \<Rightarrow>
          map_sum id ((#) \<lparr>uj_index = None, uj_ciphertext = et_ciphertext t, uj_digest = et_digest t,
                           uj_request = None, uj_target = target, uj_attempt = 0\<rparr>)
            (thumbnail_jobs targets' ts))"

fun block_jobs :: "block_upload_target list \<Rightarrow> prepared_block list \<Rightarrow> upload_job list result" where
  "block_jobs targets [] = Inr []"
| "block_jobs targets (b # bs) =
     (case take_block_target targets (bcr_index (pb_request b)) of
        None \<Rightarrow> Inl (InvalidOperation (''block upload preparation returned no target for block '' @
                  int_to_string (bcr_index (pb_request b))))
      | Some (target, targets') \<Rightarrow>
          map_sum id ((#) \<lparr>uj_index = Some (bcr_index (pb_request b)), uj_ciphertext = pb_ciphertext b,
                           uj_digest = pb_digest b, uj_request = Some (pb_request b),
                           uj_target = target, uj_attempt = 0\<rparr>)
            (block_jobs targets' bs))"

definition upload_batch ::
  "'w upload_net \<Rightarrow> upload_context \<Rightarrow> nat list \<Rightarrow> prepared_block list \<Rightarrow> encrypted_thumbnail list
     \<Rightarrow> bool \<times> 'w \<Rightarrow> (int \<times> bytes) list result \<times> nat list \<times> bool \<times> 'w" where
  "upload_batch N ctx sch batch thumbnails = (\<lambda>(downshifted, w).
     case request_upload_targets N ctx (map pb_request batch) (map et_request thumbnails) w of
       (Inl e, w1) \<Rightarrow> (Inl e, sch, downshifted, w1)
     | (Inr prepared, w1) \<Rightarrow>
         (case thumbnail_jobs (ur_thumbnail_upload_targets prepared) thumbnails of
            Inl e \<Rightarrow> (Inl e, sch, downshifted, w1)
          | Inr tjobs \<Rightarrow>
              (case block_jobs (ur_upload_targets prepared) batch of
                 Inl e \<Rightarrow> (Inl e, sch, downshifted, w1)
               | Inr bjobs \<Rightarrow>
                   (case run_jobs N ctx sch (tjobs @ bjobs) [] (downshifted, w1) of
                      (Inl e, sch1, st) \<Rightarrow> (Inl e, sch1, st)
                    | (Inr stored, sch1, st) \<Rightarrow> (Inr (List.map_filter id stored), sch1, st)))))"

section \<open>Storing a revision\<close>

text \<open>
  The uploader.  Every turn receives between one block and as many as the channel holds
  plus one; the thumbnails ride the first batch.  Once the channel has been closed and
  drained, thumbnails that found no batch are sent alone; if the encryptor failed the
  channel is never seen closed.
\<close>

function upload_prepared_blocks ::
  "'w upload_net \<Rightarrow> upload_context \<Rightarrow> bool \<Rightarrow> nat list \<Rightarrow> prepared_block list \<Rightarrow> encrypted_thumbnail list
     \<Rightarrow> (int \<times> bytes) list \<Rightarrow> bool \<times> 'w \<Rightarrow> (int \<times> bytes) list result \<times> nat list \<times> bool \<times> 'w" where
  "upload_prepared_blocks N ctx shut sch prepared pending digests st =
     (if prepared = [] then
        (if shut \<and> pending \<noteq> [] then
           (case upload_batch N ctx sch [] pending st of
              (Inl e, sch1, st1) \<Rightarrow> (Inl e, sch1, st1)
            | (Inr _, sch1, st1) \<Rightarrow> (Inr digests, sch1, st1))
         else (Inr digests, sch, st))
      else
        (let (k, sch0) = pick sch (min (Suc MAX_BUFFERED_UPLOAD_BLOCKS) (length prepared)) in
         case upload_batch N ctx sch0 (take (Suc k) prepared) pending st of
           (Inl e, sch1, st1) \<Rightarrow> (Inl e, sch1, st1)
         | (Inr stored, sch1, st1) \<Rightarrow>
             upload_prepared_blocks N ctx shut sch1 (drop (Suc k) prepared) [] (digests @ stored) st1))"
  by pat_completeness auto
termination
  by (relation "measure (\<lambda>(N, ctx, closed, sch, prepared, pending, digests, st). length prepared)") auto

declare upload_prepared_blocks.simps [simp del]

definition assemble_manifest :: "bytes list \<Rightarrow> (int \<times> bytes) list \<Rightarrow> bytes" where
  "assemble_manifest thumbnails blocks =
     concat thumbnails @ concat (map snd (sort_by_key fst blocks))"

record revision_draft =
  dr_volume_id :: volume_id
  dr_link_id :: link_id
  dr_revision_id :: string
  dr_address_id :: address_id
  dr_email :: string
  dr_parent_hash_key :: bytes

record block_write_result =
  bw_manifest :: bytes
  bw_block_sizes :: "int list"
  bw_total_size :: int
  bw_sha1_hex :: string

definition UploadContext_from_draft :: "revision_draft \<Rightarrow> upload_context" where
  "UploadContext_from_draft d =
     \<lparr>ux_address_id = dr_address_id d, ux_volume_id = dr_volume_id d, ux_link_id = dr_link_id d,
      ux_revision_id = dr_revision_id d\<rparr>"

definition fetch_verification_code ::
  "'w upload_net \<Rightarrow> 'e upload_keys \<Rightarrow> revision_draft \<Rightarrow> 'w \<Rightarrow> bytes result \<times> 'w" where
  "fetch_verification_code N K d w =
     (case un_verification N (''v2/volumes/'' @ volume_id_str (dr_volume_id d) @ ''/links/'' @
             link_id_str (dr_link_id d) @ ''/revisions/'' @ dr_revision_id d @ ''/verification'') w of
        (Inl e, w1) \<Rightarrow> (Inl e, w1)
      | (Inr response, w1) \<Rightarrow>
          (case uk_base64_decode K (trim (vi_content_key_packet response)) of
             Inl e \<Rightarrow> (Inl (InvalidOperation (''decode verification packet: '' @ e)), w1)
           | Inr packet \<Rightarrow>
               (case uk_decrypt_content_key K packet of
                  Inl e \<Rightarrow> (Inl (InvalidOperation (''verification content key mismatch: '' @ e)), w1)
                | Inr _ \<Rightarrow>
                    (case uk_base64_decode K (trim (vi_verification_code response)) of
                       Inl e \<Rightarrow> (Inl (InvalidOperation (''decode verification code: '' @ e)), w1)
                     | Inr code \<Rightarrow> (Inr code, w1)))))"

definition write_result :: "'e upload_keys \<Rightarrow> bytes list \<Rightarrow> (int \<times> bytes) list \<Rightarrow> bytes list \<Rightarrow> block_write_result" where
  "write_result K thumbnail_digests content_digests plaintexts =
     \<lparr>bw_manifest = assemble_manifest thumbnail_digests content_digests,
      bw_block_sizes = map (\<lambda>p. int (length p)) plaintexts,
      bw_total_size = (\<Sum>p\<leftarrow>plaintexts. int (length p)),
      bw_sha1_hex = uk_sha1_hex K (concat plaintexts)\<rparr>"

text \<open>
  \<open>try_join!\<close> of the two halves.  When the encryptor fails, the uploader has been
  given some of the blocks already encrypted, and its own failure, if any, came first.
\<close>

definition write_blocks ::
  "'w upload_net \<Rightarrow> 'e upload_keys \<Rightarrow> revision_draft \<Rightarrow> (nat \<Rightarrow> 'r \<Rightarrow> io_read \<times> 'r) \<Rightarrow> nat list
     \<Rightarrow> thumbnail list \<Rightarrow> 'r \<Rightarrow> 'e \<times> 'w \<Rightarrow> (block_write_result result \<times> 'e \<times> 'w) option" where
  "write_blocks N K d rd sch thumbnails r = (\<lambda>(e0, w0).
     case fetch_verification_code N K d w0 of
       (Inl e, w1) \<Rightarrow> Some (Inl e, e0, w1)
     | (Inr code, w1) \<Rightarrow>
         (case encrypt_thumbnails K (sort_by_key (\<lambda>t. ThumbnailType_as_i32 (th_type t)) thumbnails) e0 of
            (Inl e, e1) \<Rightarrow> Some (Inl e, e1, w1)
          | (Inr thumbs, e1) \<Rightarrow>
              (case encrypt_content_blocks K rd code 1 \<lparr>eb_prepared = [], eb_plaintexts = []\<rparr> r e1 of
                 None \<Rightarrow> None
               | Some ((Some e, eb), e2) \<Rightarrow>
                   (let (n, sch1) = pick sch (Suc (length (eb_prepared eb))) in
                    case upload_prepared_blocks N (UploadContext_from_draft d) False sch1
                           (take n (eb_prepared eb)) thumbs [] (False, w1) of
                      (Inl e', _, _, w2) \<Rightarrow> Some (Inl e', e2, w2)
                    | (Inr _, _, _, w2) \<Rightarrow> Some (Inl e, e2, w2))
               | Some ((None, eb), e2) \<Rightarrow>
                   (case upload_prepared_blocks N (UploadContext_from_draft d) True sch
                           (eb_prepared eb) thumbs [] (False, w1) of
                      (Inl e', _, _, w2) \<Rightarrow> Some (Inl e', e2, w2)
                    | (Inr digests, _, _, w2) \<Rightarrow>
                        if length digests \<noteq> length (eb_plaintexts eb) then
                          Some (Inl (InvalidOperation (''upload stored '' @
                            nat_to_string (length digests) @ '' of '' @
                            nat_to_string (length (eb_plaintexts eb)) @ '' content blocks'')), e2, w2)
                        else
                          Some (Inr (write_result K (map et_digest thumbs) digests (eb_plaintexts eb)),
                                e2, w2)))))"

definition seal_revision ::
  "'w upload_net \<Rightarrow> 'e upload_keys \<Rightarrow> revision_draft \<Rightarrow> block_write_result \<Rightarrow> string option
     \<Rightarrow> photos_attributes_dto option \<Rightarrow> 'e \<times> 'w \<Rightarrow> unit result \<times> 'e \<times> 'w" where
  "seal_revision N K d written modification_time photos = (\<lambda>(e0, w0).
     case uk_sign_detached K (bw_manifest written) e0 of
       (Inl e, e1) \<Rightarrow> (Inl e, e1, w0)
     | (Inr manifest_signature, e1) \<Rightarrow>
         (case uk_attributes_json K \<lparr>cx_size = Some (bw_total_size written),
                  cx_modification_time = modification_time,
                  cx_block_sizes = Some (bw_block_sizes written), cx_sha1 = Some (bw_sha1_hex written)\<rparr> of
            Inl e \<Rightarrow> (Inl (InvalidOperation (''serialize xattr: '' @ e)), e1, w0)
          | Inr xattr_json \<Rightarrow>
              (case uk_encrypt_and_sign K xattr_json e1 of
                 (Inl e, e2) \<Rightarrow> (Inl e, e2, w0)
               | (Inr xattr, e2) \<Rightarrow>
                   (let (r, w1) = un_seal N (''v2/volumes/'' @ volume_id_str (dr_volume_id d) @ ''/files/'' @
                          link_id_str (dr_link_id d) @ ''/revisions/'' @ dr_revision_id d)
                        \<lparr>ru_manifest_signature = manifest_signature, ru_signature_address = dr_email d,
                         ru_checksum_verified = False, ru_extended_attributes = Some xattr,
                         ru_photos_attributes = photos\<rparr> w0
                    in (r, e2, w1)))))"

section \<open>Small uploads\<close>

definition SMALL_UPLOAD_SIZE_LIMIT :: nat where
  "SMALL_UPLOAD_SIZE_LIMIT = 128 * 1024"

definition usize_max :: nat where
  "usize_max = 2 ^ 64 - 1"

definition small_upload_applicable :: "nat \<Rightarrow> bool" where
  "small_upload_applicable plaintext_size =
     (min (plaintext_size * 11) usize_max < SMALL_UPLOAD_SIZE_LIMIT * 10)"

definition small_upload_should_fall_back :: "proton_error \<Rightarrow> bool" where
  "small_upload_should_fall_back e = (case e of Api a \<Rightarrow> ae_code a = AlreadyExists | _ \<Rightarrow> False)"

section \<open>Readers\<close>

text \<open>
  The contract of \<open>std::io::Read\<close> that the upload relies on: a call hands over a
  piece of what is left, nothing only at the end, and is interrupted only so often in a
  row.
\<close>

locale byte_reader =
  fixes rd :: "nat \<Rightarrow> 'r \<Rightarrow> io_read \<times> 'r"
    and good :: "'r \<Rightarrow> bool"
    and left :: "'r \<Rightarrow> bytes"
    and patience :: "'r \<Rightarrow> nat"
  assumes never_fails: "good r \<Longrightarrow> 0 < n \<Longrightarrow> rd n r \<noteq> (ReadFailed e, r')"
    and piece: "good r \<Longrightarrow> 0 < n \<Longrightarrow> rd n r = (ReadOk bs, r') \<Longrightarrow>
      good r' \<and> left r = bs @ left r' \<and> length bs \<le> n \<and> (bs = [] \<longrightarrow> left r = [])"
    and interrupted: "good r \<Longrightarrow> 0 < n \<Longrightarrow> rd n r = (ReadInterrupted, r') \<Longrightarrow>
      good r' \<and> left r' = left r \<and> patience r' < patience r"
begin

lemma read_full_block_exact:
  "good r \<Longrightarrow> length filled \<le> cap \<Longrightarrow>
     \<exists>r'. read_full_block rd cap filled r = Some (Inr (filled @ take (cap - length filled) (left r)), r') \<and>
        good r' \<and> left r' = drop (cap - length filled) (left r)"
proof (induction "(length (left r), patience r)" arbitrary: r filled
    rule: wf_induct_rule [OF wf_lex_prod [OF wf_less_than wf_less_than]])
  case (1 r filled)
  show ?case
  proof (cases "cap \<le> length filled")
    case True
    then show ?thesis using "1.prems" by (simp add: read_full_block.simps)
  next
    case False
    then have pos: "0 < cap - length filled" by simp
    obtain a r1 where a: "rd (cap - length filled) r = (a, r1)" by fastforce
    show ?thesis
    proof (cases a)
      case (ReadOk bs)
      have p: "good r1" "left r = bs @ left r1" "length bs \<le> cap - length filled" "bs = [] \<longrightarrow> left r = []"
        using piece [OF "1.prems"(1) pos] a ReadOk by auto
      show ?thesis
      proof (cases "bs = []")
        case True
        then show ?thesis using a ReadOk False p by (subst read_full_block.simps) auto
      next
        case ne: False
        have len: "length (filled @ bs) \<le> cap" using p(3) False by simp
        have "((length (left r1), patience r1), length (left r), patience r) \<in> less_than <*lex*> less_than"
          using p(2) ne by simp
        from "1.hyps" [OF this p(1) len] obtain r' where
          "read_full_block rd cap (filled @ bs) r1 =
             Some (Inr ((filled @ bs) @ take (cap - length (filled @ bs)) (left r1)), r')"
          "good r'" "left r' = drop (cap - length (filled @ bs)) (left r1)" by auto
        then show ?thesis
          using a ReadOk False ne p(2,3) by (subst read_full_block.simps) (auto simp: diff_diff_eq)
      qed
    next
      case ReadInterrupted
      have p: "good r1" "left r1 = left r" "patience r1 < patience r"
        using interrupted [OF "1.prems"(1) pos] a ReadInterrupted by auto
      have "((length (left r1), patience r1), length (left r), patience r) \<in> less_than <*lex*> less_than"
        using p by simp
      from "1.hyps" [OF this p(1) "1.prems"(2)] show ?thesis
        using a ReadInterrupted False p(2) by (subst read_full_block.simps) auto
    next
      case (ReadFailed e)
      then show ?thesis using never_fails [OF "1.prems"(1) pos] a by auto
    qed
  qed
qed

end

text \<open>\<open>Cursor::new(contents)\<close>, the reader of \<open>upload_file\<close>.\<close>

definition cursor_read :: "nat \<Rightarrow> bytes \<Rightarrow> io_read \<times> bytes" where
  "cursor_read n rest = (ReadOk (take n rest), drop n rest)"

interpretation cursor: byte_reader cursor_read "\<lambda>_. True" id "\<lambda>_. 0"
  by unfold_locales (auto simp: cursor_read_def)

section \<open>Lemmas\<close>

definition keys_work :: "'e upload_keys \<Rightarrow> bool" where
  "keys_work K =
     (\<forall>p w. (\<exists>ct w'. uk_encrypt_block K p w = (Inr ct, w')) \<and>
        (\<exists>ct w'. uk_encrypt_thumbnail K p w = (Inr ct, w')) \<and>
        (\<exists>s w'. uk_sign_detached K p w = (Inr s, w')) \<and> (\<exists>s w'. uk_encrypt K p w = (Inr s, w')))"

definition encrypts :: "'e upload_keys \<Rightarrow> bytes \<Rightarrow> bytes \<Rightarrow> bool" where
  "encrypts K p ct = (\<exists>w w'. uk_encrypt_block K p w = (Inr ct, w'))"

text \<open>A prepared block is the encryption of its plaintext, under its index.\<close>

definition prepared_ok :: "'e upload_keys \<Rightarrow> int \<Rightarrow> bytes \<Rightarrow> prepared_block \<Rightarrow> bool" where
  "prepared_ok K i p b =
     (encrypts K p (pb_ciphertext b) \<and> pb_digest b = uk_sha256 K (pb_ciphertext b) \<and>
      bcr_index (pb_request b) = i)"

lemma encrypt_content_block_ok:
  "encrypt_content_block K code i p w = (Inr b, w') \<Longrightarrow> prepared_ok K i p b"
  unfolding encrypt_content_block_def prepared_ok_def encrypts_def
  by (fastforce split: prod.splits sum.splits)

lemma encrypt_content_block_works:
  assumes "keys_work K" shows "\<exists>b w'. encrypt_content_block K code i p w = (Inr b, w')"
proof -
  obtain ct w1 where 1: "uk_encrypt_block K p w = (Inr ct, w1)" using assms unfolding keys_work_def by blast
  obtain s w2 where 2: "uk_sign_detached K p w1 = (Inr s, w2)" using assms unfolding keys_work_def by blast
  obtain x w3 where "uk_encrypt K (as_bytes s) w2 = (Inr x, w3)" using assms unfolding keys_work_def by blast
  with 1 2 show ?thesis by (simp add: encrypt_content_block_def)
qed

fun all_prepared :: "'e upload_keys \<Rightarrow> int \<Rightarrow> bytes list \<Rightarrow> prepared_block list \<Rightarrow> bool" where
  "all_prepared K i [] [] = True"
| "all_prepared K i (p # ps) (b # bs) = (prepared_ok K i p b \<and> all_prepared K (i + 1) ps bs)"
| "all_prepared K i _ _ = False"

lemma all_prepared_snoc:
  "all_prepared K i ps bs \<Longrightarrow> prepared_ok K (i + int (length ps)) p b \<Longrightarrow> all_prepared K i (ps @ [p]) (bs @ [b])"
  by (induction K i ps bs rule: all_prepared.induct) (auto simp: algebra_simps)

lemma all_prepared_length: "all_prepared K i ps bs \<Longrightarrow> length ps = length bs"
  by (induction K i ps bs rule: all_prepared.induct) auto

context byte_reader
begin

lemma encrypt_content_blocks_exact:
  assumes "good r" and "all_prepared K 1 (eb_plaintexts acc) (eb_prepared acc)"
    and "index = 1 + int (length (eb_plaintexts acc))"
  shows "\<exists>oe eb w'. encrypt_content_blocks K rd code index acc r w = Some ((oe, eb), w') \<and>
     all_prepared K 1 (eb_plaintexts eb) (eb_prepared eb) \<and>
     (oe = None \<longrightarrow> eb_plaintexts eb = eb_plaintexts acc @ chunks DEFAULT_BLOCK_SIZE (left r)) \<and>
     (keys_work K \<longrightarrow> oe = None)"
  using assms
proof (induction "length (left r)" arbitrary: r acc index w rule: less_induct)
  case less
  let ?n = DEFAULT_BLOCK_SIZE
  have pos: "0 < ?n" by (simp add: DEFAULT_BLOCK_SIZE_def)
  obtain r1 where r1: "read_full_block rd ?n [] r = Some (Inr (take ?n (left r)), r1)"
      "good r1" "left r1 = drop ?n (left r)"
    using read_full_block_exact [OF less.prems(1), of "[]" ?n] by auto
  show ?case
  proof (cases "left r = []")
    case True
    then show ?thesis using r1 less.prems by (subst encrypt_content_blocks.simps) (auto intro!: exI)
  next
    case ne: False
    then have shrink: "length (left r1) < length (left r)" using r1(3) pos by simp
    obtain x w1 where x: "encrypt_content_block K code index (take ?n (left r)) w = (x, w1)" by fastforce
    show ?thesis
    proof (cases x)
      case (Inl e)
      then have "\<not> keys_work K"
        using x encrypt_content_block_works [of K code index "take ?n (left r)" w] by auto
      then show ?thesis using Inl r1(1) ne pos x less.prems by (subst encrypt_content_blocks.simps) auto
    next
      case (Inr b)
      let ?acc = "\<lparr>eb_prepared = eb_prepared acc @ [b], eb_plaintexts = eb_plaintexts acc @ [take ?n (left r)]\<rparr>"
      have "all_prepared K 1 (eb_plaintexts ?acc) (eb_prepared ?acc)"
        using all_prepared_snoc [OF less.prems(2)] less.prems(3)
          encrypt_content_block_ok [OF x [unfolded Inr]] by simp
      from less.hyps [OF shrink r1(2) this, of "index + 1" w1] show ?thesis
        using r1 ne pos x Inr less.prems(3)
        by (subst encrypt_content_blocks.simps) (auto simp: chunks_step)
    qed
  qed
qed

end

subsection \<open>Jobs and batches\<close>

definition job_result :: "upload_job \<Rightarrow> (int \<times> bytes) option" where
  "job_result j = map_option (\<lambda>i. (i, uj_digest j)) (uj_index j)"

lemma upload_attempt_Stored:
  "upload_attempt N ctx job st = (Stored out, st') \<Longrightarrow> out = job_result job"
  by (auto simp: upload_attempt_def job_result_def Let_def
      split: prod.splits sum.splits if_splits option.splits list.splits)

lemma mset_remove_at: "p < length xs \<Longrightarrow> add_mset (xs ! p) (mset (remove_at p xs)) = mset xs"
  using id_take_nth_drop [of p xs]
  by (metis (no_types, lifting) mset.simps(2) mset_append remove_at_def union_mset_add_mset_right)

lemma map_remove_at: "map f (remove_at p xs) = remove_at p (map f xs)"
  by (simp add: remove_at_def take_map drop_map)

text \<open>One attempt of one job in flight, as the step of every proof about a batch.\<close>

lemma run_jobs_Nil [simp]: "run_jobs N ctx sch [] stored st = (Inr stored, sch, st)"
  by (simp add: run_jobs.simps)

lemma run_jobs_induct [case_names Nil Stored Retry Lost]:
  assumes nil: "\<And>sch stored st. P [] stored st (Inr stored, sch, st)"
    and stored: "\<And>jobs p stored st x st1 r. p < length jobs \<Longrightarrow>
      upload_attempt N ctx (jobs ! p) st = (Stored x, st1) \<Longrightarrow>
      P (remove_at p jobs) (stored @ [x]) st1 r \<Longrightarrow> P jobs stored st r"
    and retry: "\<And>jobs p stored st j st1 r. p < length jobs \<Longrightarrow>
      upload_attempt N ctx (jobs ! p) st = (Retry j, st1) \<Longrightarrow>
      P (jobs[p := j]) stored st1 r \<Longrightarrow> P jobs stored st r"
    and lost: "\<And>jobs p stored st e st1 sch. p < length jobs \<Longrightarrow>
      upload_attempt N ctx (jobs ! p) st = (Lost e, st1) \<Longrightarrow> P jobs stored st (Inl e, sch, st1)"
  shows "P jobs stored st (run_jobs N ctx sch jobs stored st)"
proof (induction "jobs_left jobs" arbitrary: sch jobs stored st rule: less_induct)
  case less
  show ?case
  proof (cases "jobs = []")
    case True
    then show ?thesis by (simp add: nil)
  next
    case False
    obtain p sch1 where p: "pick sch (in_flight jobs) = (p, sch1)" by fastforce
    obtain out st1 where a: "upload_attempt N ctx (jobs ! p) st = (out, st1)"
      by (cases "upload_attempt N ctx (jobs ! p) st")
    have lt: "p < length jobs" using pick_in_flight [OF p [symmetric] False] .
    show ?thesis
    proof (cases out)
      case (Stored x)
      with less.hyps [OF jobs_left_remove [OF lt]] stored [OF lt] a show ?thesis
        using False p by (subst run_jobs.simps) simp
    next
      case (Retry j)
      then have "jobs_left (jobs[p := j]) < jobs_left jobs"
        using upload_attempt_Retry [of N ctx "jobs ! p" st j st1] a lt by (intro jobs_left_update) auto
      from less.hyps [OF this] retry [OF lt] Retry a show ?thesis
        using False p by (subst run_jobs.simps) simp
    next
      case (Lost e)
      with lost [OF lt] a show ?thesis using False p by (subst run_jobs.simps) simp
    qed
  qed
qed

lemma run_jobs_stored:
  assumes "run_jobs N ctx sch jobs stored st = (Inr res, sch', st')"
  shows "mset res = mset stored + mset (map job_result jobs)"
proof -
  let ?P = "\<lambda>jobs stored st r. \<forall>res. fst r = Inr res \<longrightarrow> mset res = mset stored + mset (map job_result jobs)"
  have "?P jobs stored st (run_jobs N ctx sch jobs stored st)"
  proof (rule run_jobs_induct [where P = ?P])
    fix jobs p stored st x st1 and r :: "(int \<times> bytes) option list result \<times> nat list \<times> bool \<times> 'a"
    assume "p < length jobs" "upload_attempt N ctx (jobs ! p) st = (Stored x, st1)"
      "?P (remove_at p jobs) (stored @ [x]) st1 r"
    then show "?P jobs stored st r"
      using upload_attempt_Stored mset_remove_at [of p "map job_result jobs"]
      by (fastforce simp: map_remove_at)
  next
    fix jobs p stored st j st1 and r :: "(int \<times> bytes) option list result \<times> nat list \<times> bool \<times> 'a"
    assume a: "p < length jobs" "upload_attempt N ctx (jobs ! p) st = (Retry j, st1)"
      "?P (jobs[p := j]) stored st1 r"
    then have "job_result j = job_result (jobs ! p)"
      using upload_attempt_Retry by (fastforce simp: job_result_def)
    then have "map job_result (jobs[p := j]) = map job_result jobs"
      using a(1) by (metis list_update_id map_update nth_map)
    with a show "?P jobs stored st r" by simp
  qed simp_all
  with assms show ?thesis by simp
qed

definition block_entry :: "prepared_block \<Rightarrow> int \<times> bytes" where
  "block_entry b = (bcr_index (pb_request b), pb_digest b)"

lemma map_sum_Inr: "map_sum f g x = Inr y \<longleftrightarrow> (\<exists>z. x = Inr z \<and> y = g z)"
  by (cases x) auto

lemma thumbnail_jobs_result:
  "thumbnail_jobs targets ts = Inr jobs \<Longrightarrow> map job_result jobs = replicate (length ts) None"
  by (induction targets ts arbitrary: jobs rule: thumbnail_jobs.induct)
     (auto simp: job_result_def map_sum_Inr split: option.splits)

lemma block_jobs_result:
  "block_jobs targets bs = Inr jobs \<Longrightarrow> map job_result jobs = map (Some \<circ> block_entry) bs"
  by (induction targets bs arbitrary: jobs rule: block_jobs.induct)
     (auto simp: job_result_def block_entry_def map_sum_Inr split: option.splits)

lemma mset_map_filter:
  "mset (List.map_filter f xs) = image_mset the (filter_mset (\<lambda>y. y \<noteq> None) (image_mset f (mset xs)))"
  by (induction xs) (auto simp: map_filter_simps split: option.splits)

lemma mset_map_filter_cong: "mset xs = mset ys \<Longrightarrow> mset (List.map_filter f xs) = mset (List.map_filter f ys)"
  by (simp add: mset_map_filter)

lemma map_filter_entries: "List.map_filter id (replicate n None @ map (Some \<circ> g) xs) = map g xs"
  by (induction n; induction xs) (simp_all add: map_filter_simps)

lemma upload_batch_stored:
  assumes "upload_batch N ctx sch batch thumbs st = (Inr stored, sch', st')"
  shows "mset stored = mset (map block_entry batch)"
proof -
  obtain tjobs bjobs targets1 targets2 res sch1 st0 st1 where
    j: "thumbnail_jobs targets1 thumbs = Inr tjobs" "block_jobs targets2 batch = Inr bjobs"
    and run: "run_jobs N ctx sch (tjobs @ bjobs) [] st0 = (Inr res, sch1, st1)"
    and out: "stored = List.map_filter id res"
    using assms unfolding upload_batch_def by (auto split: prod.splits sum.splits)
  have "mset res = mset (replicate (length thumbs) None @ map (Some \<circ> block_entry) batch)"
    using run_jobs_stored [OF run] thumbnail_jobs_result [OF j(1)] block_jobs_result [OF j(2)] by simp
  from mset_map_filter_cong [OF this, of id] show ?thesis
    unfolding out by (simp add: map_filter_entries)
qed

lemma upload_prepared_blocks_stored:
  "upload_prepared_blocks N ctx shut sch prepared pending digests st = (Inr res, sch', st') \<Longrightarrow>
     mset res = mset digests + mset (map block_entry prepared)"
proof (induction N ctx shut sch prepared pending digests st rule: upload_prepared_blocks.induct)
  case (1 N ctx shut sch prepared pending digests st)
  show ?case
  proof (cases "prepared = []")
    case True
    then show ?thesis
      using "1.prems" by (subst (asm) upload_prepared_blocks.simps) (auto split: if_splits prod.splits sum.splits)
  next
    case False
    obtain k sch0 where k: "pick sch (min (Suc MAX_BUFFERED_UPLOAD_BLOCKS) (length prepared)) = (k, sch0)"
      by fastforce
    obtain stored sch1 st1 where b:
      "upload_batch N ctx sch0 (take (Suc k) prepared) pending st = (Inr stored, sch1, st1)"
      "upload_prepared_blocks N ctx shut sch1 (drop (Suc k) prepared) [] (digests @ stored) st1 = (Inr res, sch', st')"
      using "1.prems" False k
      by (subst (asm) upload_prepared_blocks.simps) (auto split: prod.splits sum.splits)
    have "mset res = mset (digests @ stored) + mset (map block_entry (drop (Suc k) prepared))"
      using "1.IH" [OF False refl k [symmetric] b(1) [symmetric] refl refl b(2)] by simp
    moreover have "mset (map block_entry (take (Suc k) prepared)) + mset (map block_entry (drop (Suc k) prepared))
        = mset (map block_entry prepared)"
      by (metis append_take_drop_id map_append mset_append)
    ultimately show ?thesis using upload_batch_stored [OF b(1)] by (simp add: ac_simps)
  qed
qed

subsection \<open>The manifest\<close>

lemma sort_by_key_unique:
  assumes "mset xs = mset ys" and "sorted_wrt (<) (map f ys)"
  shows "sort_by_key f xs = ys"
proof (rule map_sorted_distinct_set_unique)
  have d: "distinct (map f ys)" "sorted (map f ys)"
    using assms(2) by (simp_all add: strict_sorted_iff)
  have "mset (map f (sort_by_key f xs)) = mset (map f ys)" using assms(1) by simp
  with d(1) show "distinct (map f (sort_by_key f xs))" by (metis mset_eq_imp_distinct_iff)
  show "distinct (map f ys)" "sorted (map f ys)" by fact+
  show "set (sort_by_key f xs) = set ys" using assms(1) by (metis mset_eq_setD set_sort)
  then show "inj_on f (set (sort_by_key f xs) \<union> set ys)" using d(1) by (simp add: distinct_map)
qed simp

lemma all_prepared_entries:
  "all_prepared K i ps bs \<Longrightarrow>
     sorted_wrt (<) (map fst (map block_entry bs)) \<and> (\<forall>b\<in>set bs. i \<le> fst (block_entry b)) \<and>
     list_all2 (encrypts K) ps (map pb_ciphertext bs) \<and>
     map (snd \<circ> block_entry) bs = map (uk_sha256 K \<circ> pb_ciphertext) bs"
  by (induction K i ps bs rule: all_prepared.induct) (fastforce simp: prepared_ok_def block_entry_def)+

lemma assemble_manifest_prepared:
  assumes "all_prepared K i ps bs" and "mset digests = mset (map block_entry bs)"
  shows "assemble_manifest ths digests = concat ths @ concat (map (uk_sha256 K) (map pb_ciphertext bs))"
proof -
  have "map snd (map block_entry bs) = map (uk_sha256 K) (map pb_ciphertext bs)"
    using all_prepared_entries [OF assms(1)] by simp
  then show ?thesis
    using sort_by_key_unique [OF assms(2), of fst] all_prepared_entries [OF assms(1)]
    by (simp only: assemble_manifest_def)
qed

definition encrypts_thumbnail :: "'e upload_keys \<Rightarrow> bytes \<Rightarrow> bytes \<Rightarrow> bool" where
  "encrypts_thumbnail K p ct = (\<exists>w w'. uk_encrypt_thumbnail K p w = (Inr ct, w'))"

lemma encrypt_thumbnails_ok:
  "encrypt_thumbnails K ts w = (Inr xs, w') \<Longrightarrow>
     list_all2 (encrypts_thumbnail K) (map th_content ts) (map et_ciphertext xs) \<and>
     map et_digest xs = map (uk_sha256 K) (map et_ciphertext xs)"
proof (induction ts arbitrary: w xs)
  case (Cons t ts)
  obtain ct w1 ys where ct: "uk_encrypt_thumbnail K (th_content t) w = (Inr ct, w1)"
    and ys: "encrypt_thumbnails K ts w1 = (Inr ys, w')"
    and xs: "map et_ciphertext xs = ct # map et_ciphertext ys" "map et_digest xs = uk_sha256 K ct # map et_digest ys"
    using Cons.prems by (auto simp: encrypt_thumbnail_block_def split: prod.splits sum.splits)
  have "encrypts_thumbnail K (th_content t) ct" using ct unfolding encrypts_thumbnail_def by blast
  with Cons.IH [OF ys] show ?case unfolding xs by simp
qed simp

text \<open>What the revision's metadata must say of the content, whatever the order of the uploads.\<close>

definition describes ::
  "'e upload_keys \<Rightarrow> thumbnail list \<Rightarrow> bytes \<Rightarrow> bytes list \<Rightarrow> bytes list \<Rightarrow> block_write_result \<Rightarrow> bool" where
  "describes K thumbnails content tcts cts res =
     (list_all2 (encrypts_thumbnail K)
        (map th_content (sort_by_key (\<lambda>t. ThumbnailType_as_i32 (th_type t)) thumbnails)) tcts \<and>
      list_all2 (encrypts K) (chunks DEFAULT_BLOCK_SIZE content) cts \<and>
      bw_manifest res = concat (map (uk_sha256 K) tcts) @ concat (map (uk_sha256 K) cts) \<and>
      bw_block_sizes res = map (\<lambda>p. int (length p)) (chunks DEFAULT_BLOCK_SIZE content) \<and>
      bw_total_size res = int (length content) \<and>
      bw_sha1_hex res = uk_sha1_hex K content)"

lemma sum_list_int_lengths: "(\<Sum>p\<leftarrow>ps. int (length p)) = int (length (concat ps))"
  by (induction ps) simp_all

lemma write_result_describes:
  assumes "all_prepared K 1 (chunks DEFAULT_BLOCK_SIZE content) bs"
    and "mset digests = mset (map block_entry bs)"
    and "encrypt_thumbnails K (sort_by_key (\<lambda>t. ThumbnailType_as_i32 (th_type t)) thumbnails) w = (Inr ths, w')"
  shows "describes K thumbnails content (map et_ciphertext ths) (map pb_ciphertext bs)
     (write_result K (map et_digest ths) digests (chunks DEFAULT_BLOCK_SIZE content))"
proof -
  have "concat (chunks DEFAULT_BLOCK_SIZE content) = content"
    by (rule concat_chunks) (simp add: DEFAULT_BLOCK_SIZE_def)
  moreover have "map et_digest ths = map (uk_sha256 K) (map et_ciphertext ths)"
    using encrypt_thumbnails_ok [OF assms(3)] by blast
  ultimately show ?thesis
    using all_prepared_entries [OF assms(1)] encrypt_thumbnails_ok [OF assms(3)]
    by (simp add: describes_def write_result_def sum_list_int_lengths
        assemble_manifest_prepared [OF assms(1,2)] del: map_map map_eq_conv)
qed

context byte_reader
begin

lemma write_blocks_exact:
  assumes "good r" and "write_blocks N K d rd sch thumbnails r st = Some (Inr res, st')"
  shows "\<exists>tcts cts. describes K thumbnails (left r) tcts cts res"
proof -
  obtain code ths e0 e1 eb e2 digests sch2 st2 w1 where
    t: "encrypt_thumbnails K (sort_by_key (\<lambda>t. ThumbnailType_as_i32 (th_type t)) thumbnails) e0 = (Inr ths, e1)"
    and c: "encrypt_content_blocks K rd code 1 \<lparr>eb_prepared = [], eb_plaintexts = []\<rparr> r e1 = Some ((None, eb), e2)"
    and u: "upload_prepared_blocks N (UploadContext_from_draft d) True sch (eb_prepared eb) ths [] (False, w1)
       = (Inr digests, sch2, st2)"
    and res: "res = write_result K (map et_digest ths) digests (eb_plaintexts eb)"
    using assms(2) unfolding write_blocks_def Let_def
    by (fastforce split: prod.splits sum.splits option.splits if_splits)
  have p: "all_prepared K 1 (eb_plaintexts eb) (eb_prepared eb)"
      "eb_plaintexts eb = chunks DEFAULT_BLOCK_SIZE (left r)"
    using encrypt_content_blocks_exact [OF assms(1), of K "\<lparr>eb_prepared = [], eb_plaintexts = []\<rparr>" 1 code e1] c
    by auto
  have "mset digests = mset (map block_entry (eb_prepared eb))"
    using upload_prepared_blocks_stored [OF u] by simp
  from write_result_describes [OF p(1) [unfolded p(2)] this t] show ?thesis
    unfolding res p(2) by blast
qed

end

subsection \<open>A server that accepts the upload\<close>

definition accepts_uploads :: "'w upload_net \<Rightarrow> 'e upload_keys \<Rightarrow> bool" where
  "accepts_uploads N K =
     ((\<forall>d w. \<exists>code w'. fetch_verification_code N K d w = (Inr code, w')) \<and>
      (\<forall>ctx bs ts w. \<exists>resp w'. request_upload_targets N ctx bs ts w = (Inr resp, w') \<and>
         mset (map (Some \<circ> bcr_index) bs) \<subseteq># mset (map ut_index (ur_upload_targets resp)) \<and>
         mset (map (Some \<circ> tcr_thumbnail_type) ts) \<subseteq>#
           mset (map ut_thumbnail_type (ur_thumbnail_upload_targets resp))) \<and>
      (\<forall>url token ct w. \<exists>w'. un_storage N url token ct w = (Inr (), w')))"

lemma take_target_echoed:
  assumes "add_mset (Some k) M \<subseteq># mset (map key targets)"
  shows "\<exists>t targets'. take_target key targets k = Some (t, targets') \<and> key t = Some k \<and>
     M \<subseteq># mset (map key targets')"
proof -
  have "Some k \<in> set (map key targets)" using assms by (metis insert_subset_eq_iff set_mset_mset)
  then have "position (\<lambda>t. key t = Some k) targets \<noteq> None" by (auto simp: position_None)
  then obtain i where i: "position (\<lambda>t. key t = Some k) targets = Some i" by blast
  then have "i < length targets" "key (targets ! i) = Some k" by (auto dest: position_Some)
  moreover have "mset (map key (remove_at i targets)) = mset (map key targets) - {#Some k#}"
    using mset_remove_at [of i "map key targets"] calculation
    by (metis add_mset_remove_trivial length_map map_remove_at nth_map)
  ultimately show ?thesis
    using assms i by (simp add: take_target_def target_position_def insert_subset_eq_iff)
qed

lemma block_jobs_echoed:
  "mset (map (Some \<circ> (bcr_index \<circ> pb_request)) bs) \<subseteq># mset (map ut_index targets) \<Longrightarrow>
     \<exists>jobs. block_jobs targets bs = Inr jobs \<and> (\<forall>j\<in>set jobs. ut_index (uj_target j) = uj_index j)"
proof (induction bs arbitrary: targets)
  case (Cons b bs)
  have "add_mset (Some (bcr_index (pb_request b))) (mset (map (Some \<circ> (bcr_index \<circ> pb_request)) bs)) \<subseteq># mset (map ut_index targets)"
    using Cons.prems by (simp add: o_def)
  from take_target_echoed [OF this]
  obtain t targets' where t: "take_block_target targets (bcr_index (pb_request b)) = Some (t, targets')"
      "ut_index t = Some (bcr_index (pb_request b))"
      "mset (map (Some \<circ> (bcr_index \<circ> pb_request)) bs) \<subseteq># mset (map ut_index targets')"
    unfolding take_block_target_def by blast
  from Cons.IH [OF t(3)] t(1,2) show ?case by auto
qed simp

lemma thumbnail_jobs_echoed:
  "mset (map (Some \<circ> et_thumbnail_type) ts) \<subseteq># mset (map ut_thumbnail_type targets) \<Longrightarrow>
     \<exists>jobs. thumbnail_jobs targets ts = Inr jobs"
proof (induction ts arbitrary: targets)
  case (Cons b bs)
  have "add_mset (Some (et_thumbnail_type b)) (mset (map (Some \<circ> et_thumbnail_type) bs)) \<subseteq># mset (map ut_thumbnail_type targets)"
    using Cons.prems by (simp add: o_def)
  from take_target_echoed [OF this]
  obtain t targets' where t: "take_thumbnail_target targets (et_thumbnail_type b) = Some (t, targets')"
      "mset (map (Some \<circ> et_thumbnail_type) bs) \<subseteq># mset (map ut_thumbnail_type targets')"
    unfolding take_thumbnail_target_def by blast
  from Cons.IH [OF t(2)] t(1) show ?case by auto
qed simp

lemma run_jobs_accepted:
  assumes "\<forall>url token ct w. \<exists>w'. un_storage N url token ct w = (Inr (), w')"
  shows "\<exists>res. fst (run_jobs N ctx sch jobs stored st) = Inr res"
proof -
  have stored: "\<exists>st1. upload_attempt N ctx j st = (Stored (job_result j), st1)" for j st
  proof -
    obtain w' where "un_storage N (ut_bare_url (uj_target j)) (ut_token (uj_target j)) (uj_ciphertext j) (snd st)
        = (Inr (), w')" using assms by blast
    then show ?thesis by (cases st) (simp add: upload_attempt_def job_result_def)
  qed
  show ?thesis
  proof (rule run_jobs_induct [where P = "\<lambda>jobs stored st r. \<exists>res. fst r = Inr res"], goal_cases)
    case (4 jobs p stored st e st1 sch)
    then show ?case using stored [of "jobs ! p" st] by simp
  qed simp_all
qed

lemma upload_batch_accepted:
  assumes acc: "accepts_uploads N K" and ty: "map tcr_thumbnail_type (map et_request ths) = map et_thumbnail_type ths"
  shows "\<exists>stored. fst (upload_batch N ctx sch batch ths st) = Inr stored"
proof -
  obtain ds w where st: "st = (ds, w)" by fastforce
  obtain resp w1 where resp: "request_upload_targets N ctx (map pb_request batch) (map et_request ths) w = (Inr resp, w1)"
    and b: "mset (map (Some \<circ> bcr_index) (map pb_request batch)) \<subseteq># mset (map ut_index (ur_upload_targets resp))"
    and t: "mset (map (Some \<circ> tcr_thumbnail_type) (map et_request ths)) \<subseteq>#
      mset (map ut_thumbnail_type (ur_thumbnail_upload_targets resp))"
    using acc unfolding accepts_uploads_def by metis
  have t': "mset (map (Some \<circ> et_thumbnail_type) ths) \<subseteq>#
      mset (map ut_thumbnail_type (ur_thumbnail_upload_targets resp))"
    using t arg_cong [OF ty, of "map Some"] by (simp only: map_map o_assoc)
  obtain bjobs where bj: "block_jobs (ur_upload_targets resp) batch = Inr bjobs"
    using block_jobs_echoed [of batch "ur_upload_targets resp"] b by (auto simp: o_def)
  obtain tjobs where tj: "thumbnail_jobs (ur_thumbnail_upload_targets resp) ths = Inr tjobs"
    using thumbnail_jobs_echoed [OF t'] by blast
  obtain res where "fst (run_jobs N ctx sch (tjobs @ bjobs) [] (ds, w1)) = Inr res"
    using run_jobs_accepted acc unfolding accepts_uploads_def by metis
  then show ?thesis
    using resp bj tj st by (auto simp: upload_batch_def split: prod.splits)
qed

lemma upload_prepared_blocks_accepted:
  assumes "accepts_uploads N K" and "map tcr_thumbnail_type (map et_request ths) = map et_thumbnail_type ths"
  shows "\<exists>res. fst (upload_prepared_blocks N ctx shut sch prepared ths digests st) = Inr res"
  using assms(2)
proof (induction "length prepared" arbitrary: sch prepared ths digests st rule: less_induct)
  case less
  show ?case
  proof (cases "prepared = []")
    case True
    then show ?thesis
      using upload_batch_accepted [OF assms(1) less.prems, of ctx sch "[]" st]
      by (subst upload_prepared_blocks.simps) (auto split: prod.splits)
  next
    case False
    obtain k sch0 where k: "pick sch (min (Suc MAX_BUFFERED_UPLOAD_BLOCKS) (length prepared)) = (k, sch0)"
      by fastforce
    obtain stored sch1 st1 where b:
      "upload_batch N ctx sch0 (take (Suc k) prepared) ths st = (Inr stored, sch1, st1)"
      using upload_batch_accepted [OF assms(1) less.prems, of ctx sch0 "take (Suc k) prepared" st]
      by (metis prod.collapse)
    have "length (drop (Suc k) prepared) < length prepared" using False by simp
    from less.hyps [OF this, of "[]" sch1 "digests @ stored" st1] show ?thesis
      using False k b by (subst upload_prepared_blocks.simps) simp
  qed
qed

lemma encrypt_thumbnails_works:
  "keys_work K \<Longrightarrow> \<exists>xs w'. encrypt_thumbnails K ts w = (Inr xs, w') \<and>
     map tcr_thumbnail_type (map et_request xs) = map et_thumbnail_type xs"
proof (induction ts arbitrary: w)
  case (Cons t ts)
  obtain ct w1 where ct: "uk_encrypt_thumbnail K (th_content t) w = (Inr ct, w1)"
    using Cons.prems unfolding keys_work_def by blast
  obtain xs w2 where "encrypt_thumbnails K ts w1 = (Inr xs, w2)"
      "map tcr_thumbnail_type (map et_request xs) = map et_thumbnail_type xs"
    using Cons.IH [OF Cons.prems] by blast
  with ct show ?case by (simp add: encrypt_thumbnail_block_def)
qed simp

context byte_reader
begin

lemma write_blocks_accepted:
  assumes "good r" and K: "keys_work K" and N: "accepts_uploads N K"
  shows "\<exists>res st'. write_blocks N K d rd sch thumbnails r st = Some (Inr res, st')"
proof -
  obtain e0 w0 where st: "st = (e0, w0)" by fastforce
  obtain code w1 where 1: "fetch_verification_code N K d w0 = (Inr code, w1)"
    using N unfolding accepts_uploads_def by blast
  obtain ths e1 where 2: "encrypt_thumbnails K (sort_by_key (\<lambda>t. ThumbnailType_as_i32 (th_type t)) thumbnails) e0 = (Inr ths, e1)"
      "map tcr_thumbnail_type (map et_request ths) = map et_thumbnail_type ths"
    using encrypt_thumbnails_works [OF K] by blast
  obtain eb e2 where 3: "encrypt_content_blocks K rd code 1 \<lparr>eb_prepared = [], eb_plaintexts = []\<rparr> r e1 = Some ((None, eb), e2)"
      "all_prepared K 1 (eb_plaintexts eb) (eb_prepared eb)"
    using encrypt_content_blocks_exact [OF assms(1), of K "\<lparr>eb_prepared = [], eb_plaintexts = []\<rparr>" 1 code e1] K
    by auto
  obtain digests sch2 ds w2 where
    4: "upload_prepared_blocks N (UploadContext_from_draft d) True sch (eb_prepared eb) ths [] (False, w1) =
      (Inr digests, sch2, ds, w2)"
    using upload_prepared_blocks_accepted [OF N 2(2)] by (metis prod.collapse)
  have "length digests = length (eb_plaintexts eb)"
    using upload_prepared_blocks_stored [OF 4] all_prepared_length [OF 3(2)]
    by (metis add.left_neutral length_map mset.simps(1) size_mset)
  then show ?thesis using 1 2(1) 3(1) 4 st by (simp add: write_blocks_def)
qed

end

subsection \<open>Counting requests\<close>

text \<open>The same endpoints, counting the requests to block storage.\<close>

definition counting :: "'w upload_net \<Rightarrow> (nat \<times> 'w) upload_net" where
  "counting N =
     \<lparr>un_verification = (\<lambda>path (n, w). let (r, w') = un_verification N path w in (r, n, w')),
      un_blocks = (\<lambda>req (n, w). let (r, w') = un_blocks N req w in (r, n, w')),
      un_storage = (\<lambda>url token ct (n, w). let (r, w') = un_storage N url token ct w in (r, Suc n, w')),
      un_seal = (\<lambda>path req (n, w). let (r, w') = un_seal N path req w in (r, n, w'))\<rparr>"

definition posts :: "bool \<times> nat \<times> 'w \<Rightarrow> nat" where
  "posts st = fst (snd st)"

lemma request_upload_targets_counting:
  "request_upload_targets (counting N) ctx bs ts (n, w) = (r, n', w') \<Longrightarrow> n' = n"
  by (auto simp: request_upload_targets_def counting_def split: prod.splits)

lemma upload_attempt_counting:
  "upload_attempt (counting N) ctx job st = (out, st') \<Longrightarrow> posts st' = Suc (posts st)"
proof -
  assume run: "upload_attempt (counting N) ctx job st = (out, st')"
  obtain ds n w where st: "st = (ds, n, w)" by (cases st) auto
  have 1: "un_storage (counting N) url token ct (n, w) = (r, n1, w1) \<Longrightarrow> n1 = Suc n" for url token ct r n1 w1
    by (auto simp: counting_def split: prod.splits)
  show ?thesis
    using run unfolding st posts_def upload_attempt_def Let_def
    by (auto split: prod.splits sum.splits if_splits option.splits list.splits
        dest!: 1 request_upload_targets_counting)
qed

definition posts_left :: "upload_job \<Rightarrow> nat" where
  "posts_left j = max 1 (MAX_BLOCK_UPLOAD_ATTEMPTS - uj_attempt j)"

lemma posts_left_pos: "1 \<le> posts_left j"
  by (simp add: posts_left_def)

lemma sum_list_remove_at:
  "p < length xs \<Longrightarrow> sum_list (map f (remove_at p xs)) + f (xs ! p) = sum_list (map f xs)" for f :: "'a \<Rightarrow> nat"
proof -
  assume "p < length xs"
  then have "sum_list (map f xs) = sum_list (map f (take p xs @ xs ! p # drop (Suc p) xs))"
    using id_take_nth_drop [of p xs] by simp
  then show ?thesis by (simp add: remove_at_def)
qed

lemma run_jobs_counting:
  "posts (snd (snd (run_jobs (counting N) ctx sch jobs stored st))) \<le> posts st + (\<Sum>j\<leftarrow>jobs. posts_left j)"
proof (rule run_jobs_induct [where P = "\<lambda>jobs stored st r. posts (snd (snd r)) \<le> posts st + (\<Sum>j\<leftarrow>jobs. posts_left j)"],
    goal_cases)
  case (2 jobs p stored st x st1 r)
  then show ?case
    using upload_attempt_counting [OF 2(2)] sum_list_remove_at [OF 2(1), of posts_left]
      posts_left_pos [of "jobs ! p"] by linarith
next
  case (3 jobs p stored st j st1 r)
  have "Suc (posts_left j) \<le> posts_left (jobs ! p)"
    using upload_attempt_Retry [OF 3(2)] by (auto simp: posts_left_def max_def)
  moreover have "(\<Sum>j\<leftarrow>jobs[p := j]. posts_left j) + posts_left (jobs ! p) = (\<Sum>j\<leftarrow>jobs. posts_left j) + posts_left j"
    using 3(1) elem_le_sum_list [of p "map posts_left jobs"] by (simp add: map_update sum_list_update)
  ultimately show ?case using upload_attempt_counting [OF 3(2)] 3(3) by simp
next
  case (4 jobs p stored st e st1 sch)
  then show ?case
    using upload_attempt_counting [OF 4(2)] elem_le_sum_list [of p "map posts_left jobs"]
      posts_left_pos [of "jobs ! p"] by simp
qed simp

lemma fresh_jobs:
  "thumbnail_jobs targets ths = Inr tjobs \<Longrightarrow> list_all (\<lambda>j. uj_attempt j = 0) tjobs \<and> length tjobs = length ths"
  "block_jobs targets' bs = Inr bjobs \<Longrightarrow> list_all (\<lambda>j. uj_attempt j = 0) bjobs \<and> length bjobs = length bs"
proof -
  show "thumbnail_jobs targets ths = Inr tjobs \<Longrightarrow> list_all (\<lambda>j. uj_attempt j = 0) tjobs \<and> length tjobs = length ths"
    by (induction targets ths arbitrary: tjobs rule: thumbnail_jobs.induct)
       (auto simp: map_sum_Inr split: option.splits)
  show "block_jobs targets' bs = Inr bjobs \<Longrightarrow> list_all (\<lambda>j. uj_attempt j = 0) bjobs \<and> length bjobs = length bs"
    by (induction targets' bs arbitrary: bjobs rule: block_jobs.induct)
       (auto simp: map_sum_Inr split: option.splits)
qed

lemma fresh_posts_left:
  "list_all (\<lambda>j. uj_attempt j = 0) jobs \<Longrightarrow> (\<Sum>j\<leftarrow>jobs. posts_left j) = MAX_BLOCK_UPLOAD_ATTEMPTS * length jobs"
  by (induction jobs) (auto simp: posts_left_def MAX_BLOCK_UPLOAD_ATTEMPTS_def)

lemma expired_token_retriable: "is_expired_upload_token e \<Longrightarrow> ProtonError_is_retriable e \<and> \<not> is_upload_timeout e"
  by (cases e) (auto simp: is_expired_upload_token_def is_upload_timeout_def ProtonApiError_is_retriable_def)

section \<open>Properties\<close>

text \<open>when the content of a revision has been written, the manifest is the digests of the
  thumbnails by type followed by the digests of the blocks by index, and the recorded sizes, total
  and digest are those of the content cut into full blocks, however the reader split its reads and
  in whatever order and after whatever retries the blocks reached storage.\<close>

theorem written_revision_describes_content:
  assumes "byte_reader rd good left patience" and "good r"
    and "write_blocks N K d rd sch thumbnails r st = Some (Inr res, st')"
  shows "\<exists>tcts cts. describes K thumbnails (left r) tcts cts res"
  by (rule byte_reader.write_blocks_exact [OF assms])



text \<open>a block whose upload token has expired is prepared again and stored under the fresh
  target, with the digest it had.\<close>

theorem expired_token_recovers:
  assumes "uj_attempt job = 0" and "uj_request job = Some request" and "uj_index job = Some i"
    and "un_storage N (ut_bare_url (uj_target job)) (ut_token (uj_target job)) (uj_ciphertext job) w = (Inl e, w1)"
    and "is_expired_upload_token e"
    and "request_upload_targets N ctx [request] [] w1 = (Inr prepared, w2)"
    and "ur_upload_targets prepared = t # ts"
    and "un_storage N (ut_bare_url t) (ut_token t) (uj_ciphertext job) w2 = (Inr (), w3)"
  shows "upload_one_block N ctx job (ds, w) = (Inr (Some (i, uj_digest job)), ds, w3)"
  using assms expired_token_retriable [OF assms(5)]
  by (simp add: upload_one_block.simps upload_attempt_def MAX_BLOCK_UPLOAD_ATTEMPTS_def)

subsection \<open>Witnesses\<close>

definition example_keys :: "nat upload_keys" where
  "example_keys =
     \<lparr>uk_encrypt_block = (\<lambda>p w. (Inr (of_nat w # p), Suc w)),
      uk_encrypt_thumbnail = (\<lambda>p w. (Inr (255 # p), Suc w)),
      uk_sign_detached = (\<lambda>p w. (Inr ''sig'', w)), uk_encrypt = (\<lambda>p w. (Inr ''enc'', w)),
      uk_encrypt_and_sign = (\<lambda>p w. (Inr ''xattr'', w)),
      uk_decrypt_content_key = (\<lambda>_. Inr ()), uk_attributes_json = (\<lambda>_. Inr []),
      uk_sha256 = take 2, uk_sha1_hex = (\<lambda>_. ''00''), uk_base64 = (\<lambda>_. ''b64''),
      uk_base64_decode = (\<lambda>s. Inr (as_bytes s))\<rparr>"

definition example_net :: "(string \<times> bytes) list upload_net" where
  "example_net =
     \<lparr>un_verification = (\<lambda>path w. (Inr \<lparr>vi_verification_code = ''c'', vi_content_key_packet = ''p''\<rparr>, w)),
      un_blocks = (\<lambda>req w. (Inr
        \<lparr>ur_upload_targets = map (\<lambda>b. \<lparr>ut_bare_url = ''u'' @ int_to_string (bcr_index b), ut_token = ''t'',
             ut_index = Some (bcr_index b), ut_thumbnail_type = None\<rparr>) (rev (up_blocks req)),
         ur_thumbnail_upload_targets = map (\<lambda>b. \<lparr>ut_bare_url = ''th'', ut_token = ''t'', ut_index = None,
             ut_thumbnail_type = Some (tcr_thumbnail_type b)\<rparr>) (up_thumbnails req)\<rparr>, w)),
      un_storage = (\<lambda>url token ct w. (Inr (), w @ [(url, ct)])),
      un_seal = (\<lambda>path req w. (Inr (), w))\<rparr>"

definition example_draft :: revision_draft where
  "example_draft =
     \<lparr>dr_volume_id = VolumeId ''v'', dr_link_id = LinkId ''l'', dr_revision_id = ''r'',
      dr_address_id = AddressId ''a'', dr_email = ''me'', dr_parent_hash_key = []\<rparr>"

lemma example_keys_work: "keys_work example_keys"
  by (simp add: keys_work_def example_keys_def)

lemma example_net_accepts: "accepts_uploads example_net example_keys"
  by (simp add: accepts_uploads_def fetch_verification_code_def request_upload_targets_def
      example_net_def example_keys_def o_def image_mset.compositionality)


definition example_written :: "(block_write_result result \<times> nat \<times> (string \<times> bytes) list) option" where
  "example_written =
     write_blocks example_net example_keys example_draft cursor_read [3, 1, 4] [] [1, 2, 3] (0, [])"

theorem written_revision_describes_content_witness:
  "\<exists>res st' tcts cts. example_written = Some (Inr res, st') \<and>
     describes example_keys [] [1, 2, 3] tcts cts res"
proof -
  obtain res st' where res: "example_written = Some (Inr res, st')"
    using byte_reader.write_blocks_accepted [OF cursor.byte_reader_axioms TrueI example_keys_work example_net_accepts]
    unfolding example_written_def by blast
  from written_revision_describes_content [OF cursor.byte_reader_axioms TrueI res [unfolded example_written_def]]
  show ?thesis unfolding id_apply using res by blast
qed

definition expiring_net :: "(string \<times> bytes) list upload_net" where
  "expiring_net = example_net\<lparr>un_storage := \<lambda>url token ct w.
     if url = ''old''
     then (Inl (Api \<lparr>ae_code = DoesNotExist, ae_http_status = 404, ae_message = [], ae_details = None\<rparr>), w)
     else (Inr (), w @ [(url, ct)])\<rparr>"

definition example_request :: block_creation_request where
  "example_request = \<lparr>bcr_index = 1, bcr_size = 2, bcr_encrypted_signature = [], bcr_hash = [], bcr_token = []\<rparr>"

definition example_job :: upload_job where
  "example_job = \<lparr>uj_index = Some 1, uj_ciphertext = [7, 8], uj_digest = [9], uj_request = Some example_request,
     uj_target = \<lparr>ut_bare_url = ''old'', ut_token = ''t'', ut_index = Some 1, ut_thumbnail_type = None\<rparr>,
     uj_attempt = 0\<rparr>"

theorem expired_token_recovers_witness:
  "upload_one_block expiring_net (UploadContext_from_draft example_draft) example_job (False, []) =
     (Inr (Some (1, [9])), False, [(''u1'', [7, 8])])"
proof -
  have "int_to_string 1 = ''1''" by code_simp
  then show ?thesis
    using expired_token_recovers [of example_job example_request 1 expiring_net "[]" _ "[]"
        "UploadContext_from_draft example_draft" _ "[]" _ "[]" "[(''u1'', [7, 8])]" False]
    by (simp add: expiring_net_def example_net_def example_job_def example_request_def
        request_upload_targets_def is_expired_upload_token_def)
qed

end
