(* ===== verification/Drafts.thy ===== *)
theory Drafts
  imports Node_Ops Upload
begin

text \<open>
  Uploading a file (\<open>proton-drive-rs/src/client.rs\<close>): drafts of new files and of new
  revisions, with the removal of a draft an interrupted upload left behind, the one-request
  upload of small files, and the public calls that write the blocks (\<open>Upload\<close>) and seal
  the revision.  \<open>draft_env\<close> is what this uses of the content keys and endpoints;
  \<open>content_upload_keys\<close> gives the block upload its operations from \<open>Content\<close> and
  \<open>Encrypt\<close>.
\<close>

section \<open>Wire types and the interface\<close>

record file_creation_request =
  fcr_name :: string
  fcr_name_hash :: string
  fcr_parent_link_id :: link_id
  fcr_passphrase :: string
  fcr_passphrase_signature :: string
  fcr_key :: string
  fcr_media_type :: string
  fcr_content_key_packet :: string
  fcr_content_key_signature :: string
  fcr_signature_address :: string
  fcr_client_uid :: "string option"
  fcr_intended_upload_size :: int

record file_creation_identifiers =
  fid_link_id :: link_id
  fid_revision_id :: string

record revision_creation_request =
  rcq_current_revision_id :: string
  rcq_client_uid :: "string option"
  rcq_intended_upload_size :: int

record revision_conflict =
  rc_link_id :: "link_id option"
  rc_revision_id :: "string option"
  rc_draft_revision_id :: "string option"
  rc_draft_client_uid :: "string option"

record small_file_upload_metadata_request =
  sfu_name :: string
  sfu_name_hash :: string
  sfu_parent_link_id :: link_id
  sfu_passphrase :: string
  sfu_passphrase_signature :: string
  sfu_key :: string
  sfu_media_type :: string
  sfu_content_key_packet :: string
  sfu_content_key_signature :: string
  sfu_manifest_signature :: string
  sfu_checksum_verified :: bool
  sfu_signature_email :: string
  sfu_content_block_verification_token :: "string option"
  sfu_extended_attributes :: string
  sfu_photo :: "photos_attributes_dto option"
  sfu_content_block_encrypted_signature :: "string option"

record small_revision_upload_metadata_request =
  sru_current_revision_id :: string
  sru_manifest_signature :: string
  sru_checksum_verified :: bool
  sru_signature_email :: string
  sru_content_block_encrypted_signature :: "string option"
  sru_content_block_verification_token :: "string option"
  sru_extended_attributes :: string

record photo_upload_metadata =
  pum_capture_time :: "int option"
  pum_last_modification_time :: "string option"
  pum_main_photo_uid :: "node_uid option"
  pum_tags :: "photo_tag list"

record file_draft_spec =
  fds_parent_uid :: node_uid
  fds_name :: string
  fds_media_type :: string
  fds_intended_upload_size :: int
  fds_aead :: bool
  fds_for_photos :: bool
  fds_override_existing_draft :: bool

text \<open>A draft with its keys; \<open>revision_draft\<close> has the rest.\<close>

record ('k, 'c) keyed_draft =
  kd_draft :: revision_draft
  kd_node_key :: 'k
  kd_content_key :: 'c
  kd_signing_key :: 'k

text \<open>
  The block upload runs on two parts of the world, the source of randomness and the network;
  \<open>df_split\<close> takes them out and \<open>df_join\<close> puts them back.
\<close>

record ('k, 'p, 's, 'c, 'e, 'n, 'w) draft_env =
  df_ops :: "('k, 'p, 's, 'w) ops_env"
  df_generate_node_key_aead :: "('k \<times> bytes \<times> string, 'w) op"
  df_generate_content_key :: "bool \<Rightarrow> ('c, 'w) op"
  df_to_packet :: "'c \<Rightarrow> 'k \<Rightarrow> (bytes, 'w) op"
  df_export :: "'c \<Rightarrow> bytes result"
  df_decrypt_content_key :: "'k \<Rightarrow> bytes \<Rightarrow> 'c result"
  df_encrypt_block :: "'c \<Rightarrow> bytes \<Rightarrow> (bytes, 'w) op"
  df_base64 :: "bytes \<Rightarrow> string"
  df_base64_decode :: "string \<Rightarrow> string + bytes"
  df_sha256 :: "bytes \<Rightarrow> bytes"
  df_sha1_hex :: "bytes \<Rightarrow> string"
  df_attributes_json :: "common_extended_attributes \<Rightarrow> string + bytes"
  df_conflict :: "json \<Rightarrow> revision_conflict option"
  df_debug_code :: "response_code \<Rightarrow> string"
  df_small_file_upload :: bool
  df_now_epoch_seconds :: "'w \<Rightarrow> int"
  df_post_file :: "string \<Rightarrow> file_creation_request \<Rightarrow> (file_creation_identifiers, 'w) op"
  df_post_revision :: "string \<Rightarrow> revision_creation_request \<Rightarrow> (string, 'w) op"
  df_post_small_file :: "string \<Rightarrow> small_file_upload_metadata_request \<Rightarrow> (string \<times> bytes) list \<Rightarrow> (link_id, 'w) op"
  df_post_small_revision ::
    "string \<Rightarrow> small_revision_upload_metadata_request \<Rightarrow> (string \<times> bytes) list \<Rightarrow> (link_id, 'w) op"
  df_upload_keys :: "'k \<Rightarrow> 'c \<Rightarrow> 'k \<Rightarrow> 'e upload_keys"
  df_net :: "'n upload_net"
  df_schedule :: "nat list"
  df_split :: "'w \<Rightarrow> 'e \<times> 'n"
  df_join :: "'e \<times> 'n \<Rightarrow> 'w \<Rightarrow> 'w"

definition df_drive :: "('k, 'p, 's, 'c, 'e, 'n, 'w) draft_env \<Rightarrow> ('k, 's, 'w) drive_env" where
  "df_drive E = no_drive (df_ops E)"

definition df_session_id :: "('k, 'p, 's, 'c, 'e, 'n, 'w) draft_env \<Rightarrow> string" where
  "df_session_id E = ne_session_id (no_nodes (df_ops E))"

definition on_upload ::
  "('k, 'p, 's, 'c, 'e, 'n, 'w) draft_env \<Rightarrow> ('e \<times> 'n \<Rightarrow> ('a result \<times> 'e \<times> 'n) option) \<Rightarrow> ('a, ('k, 's, 'w) drive) op" where
  "on_upload E m = on_world (\<lambda>w. map_option (\<lambda>(r, st). (r, df_join E st w)) (m (df_split E w)))"

section \<open>Drafts\<close>

definition delete_revision_by_ids ::
  "('k, 'p, 's, 'c, 'e, 'n, 'w) draft_env \<Rightarrow> volume_id \<Rightarrow> link_id \<Rightarrow> string \<Rightarrow> (unit, ('k, 's, 'w) drive) op" where
  "delete_revision_by_ids E vid lid rid =
     on_world (no_delete (df_ops E) (''v2/volumes/'' @ volume_id_str vid @ ''/files/'' @ link_id_str lid @ ''/revisions/'' @ rid))"

definition delete_failed :: "link_id_response_pair \<Rightarrow> bool" where
  "delete_failed pair \<longleftrightarrow> \<not> ApiResponse_is_success (lrp_response pair) \<and> resp_code (lrp_response pair) \<noteq> DoesNotExist"

definition delete_draft_nodes ::
  "('k, 'p, 's, 'c, 'e, 'n, 'w) draft_env \<Rightarrow> volume_id \<Rightarrow> link_id list \<Rightarrow> (unit, ('k, 's, 'w) drive) op" where
  "delete_draft_nodes E vid ids =
     op_bind (on_world (no_post_links (df_ops E) (''v2/volumes/'' @ volume_id_str vid @ ''/delete_multiple'') ids)) (\<lambda>responses.
     let failures = map (\<lambda>p. link_id_str (lrp_link_id p) @ '' ('' @ df_debug_code E (resp_code (lrp_response p)) @ '')'')
                      (filter delete_failed responses) in
     if failures = [] then op_return ()
     else op_fail (InvalidOperation (''delete draft failed for '' @ nat_to_string (length failures) @ '' link(s): ''
            @ join_with '', '' failures)))"

definition conflict_of :: "('k, 'p, 's, 'c, 'e, 'n, 'w) draft_env \<Rightarrow> proton_api_error \<Rightarrow> revision_conflict option" where
  "conflict_of E e = Option.bind (ae_details e) (df_conflict E)"

text \<open>The draft node a conflict allows to delete.\<close>

definition removable_draft :: "bool \<Rightarrow> string \<Rightarrow> revision_conflict option \<Rightarrow> link_id option" where
  "removable_draft override own_uid conflict =
     (case conflict of
        Some c \<Rightarrow>
          if rc_revision_id c = None \<and> rc_draft_revision_id c \<noteq> None \<and>
             (override \<or> rc_draft_client_uid c = Some own_uid)
          then rc_link_id c else None
      | None \<Rightarrow> None)"

definition MAX_DRAFT_ATTEMPTS :: nat where "MAX_DRAFT_ATTEMPTS = 3"

fun file_draft_attempts ::
  "('k, 'p, 's, 'c, 'e, 'n, 'w) draft_env \<Rightarrow> volume_id \<Rightarrow> file_creation_request \<Rightarrow> bool \<Rightarrow> nat
     \<Rightarrow> (file_creation_identifiers, ('k, 's, 'w) drive) op" where
  "file_draft_attempts E vid request override 0 =
     op_fail (InvalidOperation ''file draft creation kept conflicting after retries'')"
| "file_draft_attempts E vid request override (Suc n) =
     op_bind (op_try (on_world (df_post_file E (''v2/volumes/'' @ volume_id_str vid @ ''/files'') request))) (\<lambda>r.
     case r of
       Inr response \<Rightarrow> op_return response
     | Inl (Api e) \<Rightarrow>
         if ae_code e = AlreadyExists then
           (case removable_draft override (df_session_id E) (conflict_of E e) of
              Some lid \<Rightarrow> op_then (delete_draft_nodes E vid [lid]) (file_draft_attempts E vid request override n)
            | None \<Rightarrow> op_fail (Api e))
         else op_fail (Api e)
     | Inl other \<Rightarrow> op_fail other)"

text \<open>The secrets and fields of a new file, common to both kinds of upload.\<close>

record ('k, 'c) new_file =
  nf_node_key :: 'k
  nf_locked :: string
  nf_content_key :: 'c
  nf_name :: string
  nf_name_hash :: string
  nf_passphrase :: string
  nf_passphrase_signature :: string
  nf_packet :: bytes
  nf_content_key_signature :: string

definition build_new_file ::
  "('k, 'p, 's, 'c, 'e, 'n, 'w) draft_env \<Rightarrow> bool \<Rightarrow> 'k \<Rightarrow> bytes \<Rightarrow> 'k \<Rightarrow> string
     \<Rightarrow> (('k, 'c) new_file, ('k, 's, 'w) drive) op" where
  "build_new_file E aead parent_key hash_key signing_key name =
     (let X = df_ops E in
      op_bind (on_world (if aead then df_generate_node_key_aead E else no_generate_node_key X)) (\<lambda>(key, passphrase, locked).
      op_bind (on_world (df_generate_content_key E aead)) (\<lambda>content_key.
      op_bind (on_world (no_encrypt_and_sign X parent_key signing_key (as_bytes name) True False)) (\<lambda>encrypted_name.
      op_bind (on_world (no_encrypt X parent_key passphrase)) (\<lambda>encrypted_passphrase.
      op_bind (on_world (no_sign X signing_key passphrase)) (\<lambda>passphrase_signature.
      op_bind (on_world (df_to_packet E content_key key)) (\<lambda>packet.
      op_bind (op_of (df_export E content_key)) (\<lambda>exported.
      op_bind (on_world (no_sign X key exported)) (\<lambda>content_key_signature.
        op_return \<lparr>nf_node_key = key, nf_locked = locked, nf_content_key = content_key, nf_name = encrypted_name,
          nf_name_hash = name_hash_of X hash_key (as_bytes name), nf_passphrase = encrypted_passphrase,
          nf_passphrase_signature = passphrase_signature, nf_packet = packet,
          nf_content_key_signature = content_key_signature\<rparr>)))))))))"

definition create_file_draft ::
  "('k, 'p, 's, 'c, 'e, 'n, 'w) draft_env \<Rightarrow> file_draft_spec \<Rightarrow> (('k, 'c) keyed_draft, ('k, 's, 'w) drive) op" where
  "create_file_draft E spec =
     (let parent_uid = fds_parent_uid spec; vid = uid_volume parent_uid in
      op_bind (folder_node_key (df_drive E) parent_uid) (\<lambda>parent_key.
      op_bind (parent_hash_key_ctx (df_drive E) parent_uid parent_key (fds_for_photos spec)) (\<lambda>hash_key.
      op_bind (if fds_for_photos spec then photos_membership_address (df_drive E) else membership_address (df_drive E))
        (\<lambda>(address_id, email, signing_key).
      op_bind (build_new_file E (fds_aead spec) parent_key hash_key signing_key (fds_name spec)) (\<lambda>nf.
      op_bind (file_draft_attempts E vid
        \<lparr>fcr_name = nf_name nf, fcr_name_hash = nf_name_hash nf, fcr_parent_link_id = uid_link parent_uid,
         fcr_passphrase = nf_passphrase nf, fcr_passphrase_signature = nf_passphrase_signature nf, fcr_key = nf_locked nf,
         fcr_media_type = fds_media_type spec, fcr_content_key_packet = df_base64 E (nf_packet nf),
         fcr_content_key_signature = nf_content_key_signature nf, fcr_signature_address = email,
         fcr_client_uid = Some (df_session_id E), fcr_intended_upload_size = fds_intended_upload_size spec\<rparr>
        (fds_override_existing_draft spec) MAX_DRAFT_ATTEMPTS) (\<lambda>created.
        op_return
          \<lparr>kd_draft = \<lparr>dr_volume_id = vid, dr_link_id = fid_link_id created, dr_revision_id = fid_revision_id created,
             dr_address_id = address_id, dr_email = email, dr_parent_hash_key = hash_key\<rparr>,
           kd_node_key = nf_node_key nf, kd_content_key = nf_content_key nf, kd_signing_key = signing_key\<rparr>))))))"

fun revision_draft_attempts ::
  "('k, 'p, 's, 'c, 'e, 'n, 'w) draft_env \<Rightarrow> node_uid \<Rightarrow> revision_creation_request \<Rightarrow> nat
     \<Rightarrow> (string, ('k, 's, 'w) drive) op" where
  "revision_draft_attempts E uid request 0 =
     op_fail (InvalidOperation ''revision draft creation kept conflicting after retries'')"
| "revision_draft_attempts E uid request (Suc n) =
     op_bind (op_try (on_world (df_post_revision E (''v2/volumes/'' @ volume_id_str (uid_volume uid) @ ''/files/'' @
       link_id_str (uid_link uid) @ ''/revisions'') request))) (\<lambda>r.
     case r of
       Inr rid \<Rightarrow> op_return rid
     | Inl (Api e) \<Rightarrow>
         if ae_code e = AlreadyExists then
           (case conflict_of E e of
              Some c \<Rightarrow>
                (case (rc_draft_revision_id c, rc_draft_client_uid c) of
                   (Some draft_id, Some owner) \<Rightarrow>
                     if owner \<noteq> df_session_id E then op_fail (InvalidOperation ''revision draft is held by another client'')
                     else op_then (delete_revision_by_ids E (uid_volume uid) (uid_link uid) draft_id)
                            (revision_draft_attempts E uid request n)
                 | _ \<Rightarrow> op_fail (InvalidOperation ''revision draft already exists and cannot be recovered''))
            | None \<Rightarrow> op_fail (InvalidOperation ''revision draft already exists and cannot be recovered''))
         else op_fail (Api e)
     | Inl other \<Rightarrow> op_fail other)"

text \<open>The keys of an existing file, and its active revision.\<close>

definition file_secrets ::
  "('k, 'p, 's, 'c, 'e, 'n, 'w) draft_env \<Rightarrow> node_uid
     \<Rightarrow> (link_dto \<times> bytes \<times> string, ('k, 's, 'w) drive) op" where
  "file_secrets E uid =
     op_bind (get_link_details (df_drive E) (uid_volume uid) [uid_link uid]) (\<lambda>links.
     op_bind (op_ok_or (InvalidOperation (''file '' @ NodeUid_display uid @ '' not found''))
                (case links of [] \<Rightarrow> None | d # _ \<Rightarrow> Some d)) (\<lambda>detail.
     op_bind (op_ok_or (InvalidOperation (''node '' @ NodeUid_display uid @ '' is not a file'')) (ld_file detail)) (\<lambda>fd.
     op_bind (op_ok_or (InvalidOperation ''file is missing its content key packet'') (fi_content_key_packet fd)) (\<lambda>b64.
     op_bind (op_of (map_err (\<lambda>e. InvalidOperation (''decode content key packet: '' @ e)) (df_base64_decode E (trim b64)))) (\<lambda>packet.
     op_bind (op_ok_or (InvalidOperation ''file has no active revision'') (map_option ar_id (fi_active_revision fd))) (\<lambda>active.
       op_return (ld_link detail, packet, active)))))))"

definition open_file ::
  "('k, 'p, 's, 'c, 'e, 'n, 'w) draft_env \<Rightarrow> node_uid \<Rightarrow> link_dto \<Rightarrow> bytes \<Rightarrow> ('k \<times> 'c, ('k, 's, 'w) drive) op" where
  "open_file E uid link packet =
     op_bind (resolve_parent_key (df_drive E) (uid_volume uid) link) (\<lambda>parent_key.
     op_bind (op_of (de_decrypt_link (df_drive E) parent_key link)) (\<lambda>(node_key, _).
     op_bind (op_of (df_decrypt_content_key E node_key packet)) (\<lambda>content_key.
       op_return (node_key, content_key))))"

definition create_revision_draft ::
  "('k, 'p, 's, 'c, 'e, 'n, 'w) draft_env \<Rightarrow> node_uid \<Rightarrow> int \<Rightarrow> (('k, 'c) keyed_draft, ('k, 's, 'w) drive) op" where
  "create_revision_draft E uid intended_upload_size =
     op_bind (file_secrets E uid) (\<lambda>(link, packet, active).
     op_bind (open_file E uid link packet) (\<lambda>(node_key, content_key).
     op_bind (membership_address (df_drive E)) (\<lambda>(address_id, email, signing_key).
     op_bind (revision_draft_attempts E uid
       \<lparr>rcq_current_revision_id = active, rcq_client_uid = Some (df_session_id E),
        rcq_intended_upload_size = intended_upload_size\<rparr> MAX_DRAFT_ATTEMPTS) (\<lambda>rid.
       op_return
         \<lparr>kd_draft = \<lparr>dr_volume_id = uid_volume uid, dr_link_id = uid_link uid, dr_revision_id = rid,
            dr_address_id = address_id, dr_email = email, dr_parent_hash_key = []\<rparr>,
          kd_node_key = node_key, kd_content_key = content_key, kd_signing_key = signing_key\<rparr>))))"

section \<open>Uploads in blocks\<close>

definition upload_draft ::
  "('k, 'p, 's, 'c, 'e, 'n, 'w) draft_env \<Rightarrow> ('k, 'c) keyed_draft \<Rightarrow> (nat \<Rightarrow> 'r \<Rightarrow> io_read \<times> 'r) \<Rightarrow> 'r \<Rightarrow> thumbnail list
     \<Rightarrow> string option \<Rightarrow> (block_write_result \<Rightarrow> int \<Rightarrow> photos_attributes_dto option) \<Rightarrow> (unit, ('k, 's, 'w) drive) op" where
  "upload_draft E kd rd reader thumbnails modification_time photos =
     (let K = df_upload_keys E (kd_node_key kd) (kd_content_key kd) (kd_signing_key kd) in
      op_bind (on_upload E (write_blocks (df_net E) K (kd_draft kd) rd (df_schedule E) thumbnails reader)) (\<lambda>written.
      op_bind (op_get (\<lambda>d. df_now_epoch_seconds E (dv_world d))) (\<lambda>now.
        on_upload E (\<lambda>st. Some (seal_revision (df_net E) K (kd_draft kd) written modification_time (photos written now) st)))))"

definition draft_uid :: "('k, 'c) keyed_draft \<Rightarrow> node_uid" where
  "draft_uid kd = NodeUid_new (dr_volume_id (kd_draft kd)) (dr_link_id (kd_draft kd))"

definition upload_file_from_inner ::
  "('k, 'p, 's, 'c, 'e, 'n, 'w) draft_env \<Rightarrow> (nat \<Rightarrow> 'r \<Rightarrow> io_read \<times> 'r) \<Rightarrow> node_uid \<Rightarrow> string \<Rightarrow> string \<Rightarrow> 'r \<Rightarrow> int
     \<Rightarrow> thumbnail list \<Rightarrow> string option \<Rightarrow> bool \<Rightarrow> bool \<Rightarrow> (node_uid, ('k, 's, 'w) drive) op" where
  "upload_file_from_inner E rd parent_uid name media_type reader intended_size thumbnails modification_time aead override =
     op_bind (create_file_draft E
       \<lparr>fds_parent_uid = parent_uid, fds_name = name, fds_media_type = media_type,
        fds_intended_upload_size = intended_size, fds_aead = aead, fds_for_photos = False,
        fds_override_existing_draft = override\<rparr>) (\<lambda>kd.
     op_then (upload_draft E kd rd reader thumbnails modification_time (\<lambda>_ _. None)) (op_return (draft_uid kd)))"

definition upload_file_from ::
  "('k, 'p, 's, 'c, 'e, 'n, 'w) draft_env \<Rightarrow> (nat \<Rightarrow> 'r \<Rightarrow> io_read \<times> 'r) \<Rightarrow> node_uid \<Rightarrow> string \<Rightarrow> string \<Rightarrow> 'r \<Rightarrow> int
     \<Rightarrow> thumbnail list \<Rightarrow> string option \<Rightarrow> bool \<Rightarrow> (node_uid, ('k, 's, 'w) drive) op" where
  "upload_file_from E rd parent_uid name media_type reader intended_size thumbnails modification_time aead =
     upload_file_from_inner E rd parent_uid name media_type reader intended_size thumbnails modification_time aead False"

definition upload_file_replacing_draft_from ::
  "('k, 'p, 's, 'c, 'e, 'n, 'w) draft_env \<Rightarrow> (nat \<Rightarrow> 'r \<Rightarrow> io_read \<times> 'r) \<Rightarrow> node_uid \<Rightarrow> string \<Rightarrow> string \<Rightarrow> 'r \<Rightarrow> int
     \<Rightarrow> thumbnail list \<Rightarrow> string option \<Rightarrow> bool \<Rightarrow> (node_uid, ('k, 's, 'w) drive) op" where
  "upload_file_replacing_draft_from E rd parent_uid name media_type reader intended_size thumbnails modification_time aead =
     upload_file_from_inner E rd parent_uid name media_type reader intended_size thumbnails modification_time aead True"

definition upload_new_revision_from ::
  "('k, 'p, 's, 'c, 'e, 'n, 'w) draft_env \<Rightarrow> (nat \<Rightarrow> 'r \<Rightarrow> io_read \<times> 'r) \<Rightarrow> node_uid \<Rightarrow> 'r \<Rightarrow> int
     \<Rightarrow> thumbnail list \<Rightarrow> string option \<Rightarrow> (unit, ('k, 's, 'w) drive) op" where
  "upload_new_revision_from E rd uid reader intended_size thumbnails modification_time =
     op_bind (create_revision_draft E uid intended_size) (\<lambda>kd.
       upload_draft E kd rd reader thumbnails modification_time (\<lambda>_ _. None))"

definition build_photos_attributes ::
  "('k, 'p, 's, 'c, 'e, 'n, 'w) draft_env \<Rightarrow> bytes \<Rightarrow> int \<Rightarrow> photo_upload_metadata \<Rightarrow> block_write_result \<Rightarrow> photos_attributes_dto" where
  "build_photos_attributes E hash_key now metadata written =
     \<lparr>pa_capture_time = (case pum_capture_time metadata of Some t \<Rightarrow> t | None \<Rightarrow> now),
      pa_content_hash = name_hash_of (df_ops E) hash_key (as_bytes (bw_sha1_hex written)),
      pa_main_photo_link_id = map_option uid_link (pum_main_photo_uid metadata),
      pa_tags = map PhotoTag_as_i32 (pum_tags metadata)\<rparr>"

definition upload_photo_from ::
  "('k, 'p, 's, 'c, 'e, 'n, 'w) draft_env \<Rightarrow> (nat \<Rightarrow> 'r \<Rightarrow> io_read \<times> 'r) \<Rightarrow> string \<Rightarrow> string \<Rightarrow> 'r \<Rightarrow> int
     \<Rightarrow> thumbnail list \<Rightarrow> photo_upload_metadata \<Rightarrow> bool \<Rightarrow> (node_uid, ('k, 's, 'w) drive) op" where
  "upload_photo_from E rd name media_type reader intended_size thumbnails metadata aead =
     op_bind (ensure_photos (df_drive E)) (\<lambda>exists.
     if \<not> exists then op_fail no_photos_volume
     else
       op_bind (op_get (\<lambda>d. the (dc_photos_root (drive_cache_of d)))) (\<lambda>parent_uid.
       op_bind (create_file_draft E
         \<lparr>fds_parent_uid = parent_uid, fds_name = name, fds_media_type = media_type,
          fds_intended_upload_size = intended_size, fds_aead = aead, fds_for_photos = True,
          fds_override_existing_draft = False\<rparr>) (\<lambda>kd.
       op_then (upload_draft E kd rd reader thumbnails (pum_last_modification_time metadata)
         (\<lambda>written now. Some (build_photos_attributes E (dr_parent_hash_key (kd_draft kd)) now metadata written)))
         (op_return (draft_uid kd)))))"

section \<open>Uploads in one request\<close>

record small_block =
  sb_manifest :: bytes
  sb_parts :: "(string \<times> bytes) list"
  sb_sizes :: "int list"
  sb_encrypted_signature :: "string option"
  sb_verification_token :: "string option"

text \<open>The only block of a small file; an empty file has none.\<close>

definition small_block_of ::
  "('k, 'p, 's, 'c, 'e, 'n, 'w) draft_env \<Rightarrow> 'k \<Rightarrow> 'c \<Rightarrow> 'k \<Rightarrow> bytes \<Rightarrow> bytes \<Rightarrow> (small_block, ('k, 's, 'w) drive) op" where
  "small_block_of E nkey content_key signing_key packet contents =
     (if contents = [] then
        op_return \<lparr>sb_manifest = [], sb_parts = [], sb_sizes = [], sb_encrypted_signature = None, sb_verification_token = None\<rparr>
      else
        op_bind (on_world (df_encrypt_block E content_key contents)) (\<lambda>ciphertext.
        op_bind (on_world (no_sign (df_ops E) signing_key contents)) (\<lambda>signature.
        op_bind (on_world (no_encrypt (df_ops E) nkey (as_bytes signature))) (\<lambda>encrypted_signature.
        op_bind (op_ok_or (InvalidOperation ''content key packet has no verification code'')
                   (if length packet < 32 then None else Some (length packet - 32))) (\<lambda>code_start.
          op_return \<lparr>sb_manifest = df_sha256 E ciphertext, sb_parts = [(''ContentBlock'', ciphertext)],
            sb_sizes = [int (length contents)], sb_encrypted_signature = Some encrypted_signature,
            sb_verification_token = Some (df_base64 E (verification_token (drop code_start packet) ciphertext))\<rparr>)))))"

definition small_attributes ::
  "('k, 'p, 's, 'c, 'e, 'n, 'w) draft_env \<Rightarrow> 'k \<Rightarrow> 'k \<Rightarrow> bytes \<Rightarrow> small_block \<Rightarrow> string option \<Rightarrow> (string, ('k, 's, 'w) drive) op" where
  "small_attributes E nkey signing_key contents block modification_time =
     op_bind (op_of (map_err Serialization (df_attributes_json E
       \<lparr>cx_size = Some (int (length contents)), cx_modification_time = modification_time,
        cx_block_sizes = Some (sb_sizes block), cx_sha1 = Some (df_sha1_hex E contents)\<rparr>))) (\<lambda>json.
       on_world (no_encrypt_and_sign (df_ops E) nkey signing_key json False True))"

definition upload_small_file ::
  "('k, 'p, 's, 'c, 'e, 'n, 'w) draft_env \<Rightarrow> node_uid \<Rightarrow> string \<Rightarrow> string \<Rightarrow> bytes \<Rightarrow> (node_uid, ('k, 's, 'w) drive) op" where
  "upload_small_file E parent_uid name media_type contents =
     op_bind (folder_node_key (df_drive E) parent_uid) (\<lambda>parent_key.
     op_bind (parent_hash_key (df_drive E) parent_uid parent_key) (\<lambda>hash_key.
     op_bind (membership_address (df_drive E)) (\<lambda>(_, email, signing_key).
     op_bind (build_new_file E False parent_key hash_key signing_key name) (\<lambda>nf.
     op_bind (small_block_of E (nf_node_key nf) (nf_content_key nf) signing_key (nf_packet nf) contents) (\<lambda>block.
     op_bind (on_world (no_sign (df_ops E) signing_key (sb_manifest block))) (\<lambda>manifest_signature.
     op_bind (small_attributes E (nf_node_key nf) signing_key contents block None) (\<lambda>xattr.
     op_bind (on_world (df_post_small_file E (''v2/volumes/'' @ volume_id_str (uid_volume parent_uid) @ ''/files/small'')
       \<lparr>sfu_name = nf_name nf, sfu_name_hash = nf_name_hash nf, sfu_parent_link_id = uid_link parent_uid,
        sfu_passphrase = nf_passphrase nf, sfu_passphrase_signature = nf_passphrase_signature nf, sfu_key = nf_locked nf,
        sfu_media_type = media_type, sfu_content_key_packet = df_base64 E (nf_packet nf),
        sfu_content_key_signature = nf_content_key_signature nf, sfu_manifest_signature = manifest_signature,
        sfu_checksum_verified = False, sfu_signature_email = email,
        sfu_content_block_verification_token = sb_verification_token block, sfu_extended_attributes = xattr,
        sfu_photo = None, sfu_content_block_encrypted_signature = sb_encrypted_signature block\<rparr> (sb_parts block))) (\<lambda>link_id.
       op_return (NodeUid_new (uid_volume parent_uid) link_id)))))))))"

definition upload_small_revision ::
  "('k, 'p, 's, 'c, 'e, 'n, 'w) draft_env \<Rightarrow> node_uid \<Rightarrow> bytes \<Rightarrow> string option \<Rightarrow> (unit, ('k, 's, 'w) drive) op" where
  "upload_small_revision E uid contents modification_time =
     op_bind (file_secrets E uid) (\<lambda>(link, packet, active).
     op_bind (open_file E uid link packet) (\<lambda>(node_key, content_key).
     op_bind (membership_address (df_drive E)) (\<lambda>(_, email, signing_key).
     op_bind (small_block_of E node_key content_key signing_key packet contents) (\<lambda>block.
     op_bind (small_attributes E node_key signing_key contents block modification_time) (\<lambda>xattr.
     op_bind (on_world (no_sign (df_ops E) signing_key (sb_manifest block))) (\<lambda>manifest_signature.
     op_bind (on_world (df_post_small_revision E (''v2/volumes/'' @ volume_id_str (uid_volume uid) @ ''/files/'' @
         link_id_str (uid_link uid) @ ''/revisions/small'')
       \<lparr>sru_current_revision_id = active, sru_manifest_signature = manifest_signature, sru_checksum_verified = False,
        sru_signature_email = email, sru_content_block_encrypted_signature = sb_encrypted_signature block,
        sru_content_block_verification_token = sb_verification_token block, sru_extended_attributes = xattr\<rparr>
       (sb_parts block))) (\<lambda>_. op_return ())))))))"

definition upload_file ::
  "('k, 'p, 's, 'c, 'e, 'n, 'w) draft_env \<Rightarrow> node_uid \<Rightarrow> string \<Rightarrow> string \<Rightarrow> bytes \<Rightarrow> (node_uid, ('k, 's, 'w) drive) op" where
  "upload_file E parent_uid name media_type contents =
     (let blocks = upload_file_from E cursor_read parent_uid name media_type contents (int (length contents)) [] None False in
      if df_small_file_upload E \<and> small_upload_applicable (length contents) then
        op_bind (op_try (upload_small_file E parent_uid name media_type contents)) (\<lambda>r.
        case r of
          Inr uid \<Rightarrow> op_return uid
        | Inl e \<Rightarrow> if small_upload_should_fall_back e then blocks else op_fail e)
      else blocks)"

definition upload_new_revision ::
  "('k, 'p, 's, 'c, 'e, 'n, 'w) draft_env \<Rightarrow> node_uid \<Rightarrow> bytes \<Rightarrow> (unit, ('k, 's, 'w) drive) op" where
  "upload_new_revision E uid contents =
     (let blocks = upload_new_revision_from E cursor_read uid contents (int (length contents)) [] None in
      if df_small_file_upload E \<and> small_upload_applicable (length contents) then
        op_bind (op_try (upload_small_revision E uid contents None)) (\<lambda>r.
        case r of
          Inr _ \<Rightarrow> op_return ()
        | Inl e \<Rightarrow> if small_upload_should_fall_back e then blocks else op_fail e)
      else blocks)"

section \<open>The provider\<close>

text \<open>The block upload's operations under the keys of a draft.\<close>

definition content_upload_keys ::
  "('sk, 'pub, 'ek, 'pk, 'sd, 'e) pgp_lib \<Rightarrow> ('sk, 'ek, 'sg, 'e) write_lib \<Rightarrow> 'e upload_keys
     \<Rightarrow> 'sk private_key \<Rightarrow> content_key \<Rightarrow> 'sk private_key \<Rightarrow> 'e upload_keys" where
  "content_upload_keys L W rest nkey ck signing_key =
     rest
       \<lparr>uk_encrypt_block := (\<lambda>b e. apfst from_crypto (encrypt_block L ck b e)),
        uk_encrypt_thumbnail := (\<lambda>b e. apfst from_crypto (encrypt_thumbnail L ck signing_key b e)),
        uk_sign_detached := (\<lambda>b e. apfst from_crypto (sign_detached W signing_key b e)),
        uk_encrypt := (\<lambda>b e. apfst from_crypto (encrypt L W nkey b e)),
        uk_encrypt_and_sign := (\<lambda>b e. apfst from_crypto (encrypt_and_sign L W (pk_key nkey) (Some signing_key) b False True e)),
        uk_decrypt_content_key := (\<lambda>p. map_sum CryptoError_display (\<lambda>_. ()) (decrypt_content_key L nkey p))\<rparr>"

definition account_drafts ::
  "('sk, 'pub, 'sig, 'msg, 'w) account_env \<Rightarrow> ('sk, 'pub, 'ek, 'pk, 'sd, 'w) pgp_lib \<Rightarrow> ('sk, 'ek, 'sg, 'w) write_lib
     \<Rightarrow> xattr_decoder \<Rightarrow> ('sk, 'pub, 'ek, 'pk, 'sd, 'e) pgp_lib \<Rightarrow> ('sk, 'ek, 'sg, 'e) write_lib \<Rightarrow> 'e upload_keys
     \<Rightarrow> ('sk private_key, 'pub, 's, content_key, 'e, 'n, ('sk, 'pub, 'w) account) draft_env
     \<Rightarrow> ('sk private_key, 'pub, 's, content_key, 'e, 'n, ('sk, 'pub, 'w) account) draft_env" where
  "account_drafts A L W js Lu Wu rest endpoints =
     endpoints
       \<lparr>df_ops := account_ops A L W js (df_ops endpoints),
        df_generate_node_key_aead := op_bind (account_gen (generate_node_key_aead (ae_rpgp A) W))
          (\<lambda>g. op_return (gk_key g, gk_passphrase g, gk_locked_armored g)),
        df_generate_content_key := (\<lambda>aead. account_gen (gen_draw (if aead then ContentKey_generate_aead L else ContentKey_generate L))),
        df_to_packet := (\<lambda>ck k. account_gen (to_packet L ck k)), df_export := (\<lambda>ck. from_crypto (export_key ck)),
        df_decrypt_content_key := (\<lambda>k p. from_crypto (decrypt_content_key L k p)),
        df_encrypt_block := (\<lambda>ck b. account_gen (encrypt_block L ck b)),
        df_upload_keys := content_upload_keys Lu Wu rest\<rparr>"

section \<open>Which drafts are removed\<close>

text \<open>What the server says of the link \<open>x\<close> in a conflict: it is committed, or another client's.\<close>

definition spoken_for :: "bool \<Rightarrow> string \<Rightarrow> link_id \<Rightarrow> revision_conflict \<Rightarrow> bool" where
  "spoken_for override own_uid x c \<longleftrightarrow>
     (rc_link_id c = Some x \<longrightarrow> rc_revision_id c \<noteq> None \<or> \<not> override \<and> rc_draft_client_uid c \<noteq> Some own_uid)"

lemma removable_draft_spares:
  "removable_draft override own_uid (Some c) = Some lid \<Longrightarrow> spoken_for override own_uid x c \<Longrightarrow> lid \<noteq> x"
  by (auto simp: removable_draft_def spoken_for_def split: if_splits)

lemma delete_draft_nodes_keeps:
  assumes "\<And>path w r w'. P w \<Longrightarrow> no_post_links (df_ops E) path ids w = Some (r, w') \<Longrightarrow> P w'"
  shows "op_keeps (\<lambda>d. P (dv_world d)) (delete_draft_nodes E vid ids)"
proof -
  have "op_keeps (\<lambda>d. P (dv_world d)) (on_world (no_post_links (df_ops E) path ids))" for path
    using assms by (auto simp: op_keeps_def on_world_Some)
  then show ?thesis unfolding delete_draft_nodes_def Let_def by (intro keeps)
qed

lemma file_draft_attempts_spare:
  assumes post: "\<And>path req w r w'. P w \<Longrightarrow> df_post_file E path req w = Some (r, w') \<Longrightarrow> P w' \<and>
      (\<forall>e c. r = Inl (Api e) \<longrightarrow> conflict_of E e = Some c \<longrightarrow> spoken_for override (df_session_id E) x c)"
    and del: "\<And>path ids w r w'. P w \<Longrightarrow> x \<notin> set ids \<Longrightarrow> no_post_links (df_ops E) path ids w = Some (r, w') \<Longrightarrow> P w'"
  shows "P (dv_world d) \<Longrightarrow> file_draft_attempts E vid request override n d = Some (r, d') \<Longrightarrow> P (dv_world d')"
proof (induction n arbitrary: d)
  case (Suc n)
  from Suc.prems(2) obtain q d1 where q: "on_world (df_post_file E (''v2/volumes/'' @ volume_id_str vid @ ''/files'') request) d = Some (q, d1)"
    and k: "(case q of Inr response \<Rightarrow> op_return response
       | Inl (Api e) \<Rightarrow>
         if ae_code e = AlreadyExists then
           (case removable_draft override (df_session_id E) (conflict_of E e) of
              Some lid \<Rightarrow> op_then (delete_draft_nodes E vid [lid]) (file_draft_attempts E vid request override n)
            | None \<Rightarrow> op_fail (Api e))
         else op_fail (Api e)
       | Inl other \<Rightarrow> op_fail other) d1 = Some (r, d')"
    by (auto simp: op_bind_def op_try_def split: Option.bind_splits)
  obtain w1 where w1: "df_post_file E (''v2/volumes/'' @ volume_id_str vid @ ''/files'') request (dv_world d) = Some (q, w1)"
      "d1 = d\<lparr>dv_world := w1\<rparr>" using q by (auto simp: on_world_Some)
  have P1: "P (dv_world d1)" using post [OF Suc.prems(1) w1(1)] w1(2) by simp
  show ?case
  proof (cases "\<exists>e lid. q = Inl (Api e) \<and> ae_code e = AlreadyExists \<and>
      removable_draft override (df_session_id E) (conflict_of E e) = Some lid")
    case True
    then obtain e lid where e: "q = Inl (Api e)" "ae_code e = AlreadyExists"
      "removable_draft override (df_session_id E) (conflict_of E e) = Some lid" by blast
    then obtain c where c: "conflict_of E e = Some c" by (cases "conflict_of E e") (auto simp: removable_draft_def)
    have "lid \<noteq> x" using removable_draft_spares e(3) c post [OF Suc.prems(1) w1(1)] e(1) by auto
    then have dk: "op_keeps (\<lambda>d. P (dv_world d)) (delete_draft_nodes E vid [lid])"
      by (intro delete_draft_nodes_keeps) (rule del [where ids = "[lid]"], simp_all)
    have run: "op_bind (delete_draft_nodes E vid [lid]) (\<lambda>_. file_draft_attempts E vid request override n) d1 = Some (r, d')"
      using k e by (simp add: op_then_def)
    show ?thesis
    proof (cases "delete_draft_nodes E vid [lid] d1")
      case None
      then show ?thesis using run by (simp add: op_bind_def)
    next
      case (Some p)
      obtain v d2 where v: "delete_draft_nodes E vid [lid] d1 = Some (v, d2)" using Some by (cases p) auto
      have P2: "P (dv_world d2)" using op_keepsD [OF dk P1 v] .
      show ?thesis
      proof (cases v)
        case (Inl a)
        then show ?thesis using run v P2 by (simp add: op_bind_def)
      next
        case (Inr b)
        then have "file_draft_attempts E vid request override n d2 = Some (r, d')" using run v by (simp add: op_bind_def)
        then show ?thesis using Suc.IH [OF P2] by blast
      qed
    qed
  next
    case False
    then show ?thesis using k P1 by (auto split: sum.splits proton_error.splits option.splits if_splits)
  qed
qed simp

section \<open>What an upload seals\<close>

text \<open>
  The server accepted the seal of the draft's revision with a signature over the manifest of
  the content and attributes that state the content's size, block sizes and digest.
\<close>

definition sealed_as ::
  "('k, 'p, 's, 'c, 'e, 'n, 'w) draft_env \<Rightarrow> ('k, 'c) keyed_draft \<Rightarrow> thumbnail list \<Rightarrow> bytes \<Rightarrow> string option \<Rightarrow> bool" where
  "sealed_as E kd thumbnails content modification_time \<longleftrightarrow>
     (\<exists>req tcts cts written json n0 n1 e0 e1 e2 e3.
        un_seal (df_net E) (''v2/volumes/'' @ volume_id_str (dr_volume_id (kd_draft kd)) @ ''/files/'' @
          link_id_str (dr_link_id (kd_draft kd)) @ ''/revisions/'' @ dr_revision_id (kd_draft kd)) req n0 = (Inr (), n1) \<and>
        describes (df_upload_keys E (kd_node_key kd) (kd_content_key kd) (kd_signing_key kd)) thumbnails content tcts cts written \<and>
        uk_sign_detached (df_upload_keys E (kd_node_key kd) (kd_content_key kd) (kd_signing_key kd)) (bw_manifest written) e0
          = (Inr (ru_manifest_signature req), e1) \<and>
        uk_attributes_json (df_upload_keys E (kd_node_key kd) (kd_content_key kd) (kd_signing_key kd))
          \<lparr>cx_size = Some (int (length content)), cx_modification_time = modification_time,
           cx_block_sizes = Some (map (\<lambda>p. int (length p)) (chunks DEFAULT_BLOCK_SIZE content)),
           cx_sha1 = Some (bw_sha1_hex written)\<rparr> = Inr json \<and>
        uk_encrypt_and_sign (df_upload_keys E (kd_node_key kd) (kd_content_key kd) (kd_signing_key kd)) json e2
          = (Inr (the (ru_extended_attributes req)), e3))"

lemma seal_revision_Inr:
  assumes "seal_revision N K d written time photos st = (Inr (), st')"
  obtains req json n0 n1 e0 e1 e2 e3 where
    "un_seal N (''v2/volumes/'' @ volume_id_str (dr_volume_id d) @ ''/files/'' @
       link_id_str (dr_link_id d) @ ''/revisions/'' @ dr_revision_id d) req n0 = (Inr (), n1)"
    "uk_sign_detached K (bw_manifest written) e0 = (Inr (ru_manifest_signature req), e1)"
    "uk_attributes_json K \<lparr>cx_size = Some (bw_total_size written), cx_modification_time = time,
       cx_block_sizes = Some (bw_block_sizes written), cx_sha1 = Some (bw_sha1_hex written)\<rparr> = Inr json"
    "uk_encrypt_and_sign K json e2 = (Inr (the (ru_extended_attributes req)), e3)"
proof -
  obtain e0 w0 where st: "st = (e0, w0)" by fastforce
  from assms obtain ms e1 where ms: "uk_sign_detached K (bw_manifest written) e0 = (Inr ms, e1)"
    unfolding seal_revision_def st by (auto split: prod.splits sum.splits)
  moreover from assms ms obtain json where j: "uk_attributes_json K \<lparr>cx_size = Some (bw_total_size written), cx_modification_time = time,
       cx_block_sizes = Some (bw_block_sizes written), cx_sha1 = Some (bw_sha1_hex written)\<rparr> = Inr json"
    unfolding seal_revision_def st by (auto split: sum.splits)
  moreover from assms ms j obtain x e2 where x: "uk_encrypt_and_sign K json e1 = (Inr x, e2)"
    unfolding seal_revision_def st by (auto split: prod.splits sum.splits)
  moreover have "fst (un_seal N (''v2/volumes/'' @ volume_id_str (dr_volume_id d) @ ''/files/'' @
       link_id_str (dr_link_id d) @ ''/revisions/'' @ dr_revision_id d)
       \<lparr>ru_manifest_signature = ms, ru_signature_address = dr_email d, ru_checksum_verified = False,
        ru_extended_attributes = Some x, ru_photos_attributes = photos\<rparr> w0) = Inr ()"
    using assms ms j x unfolding seal_revision_def st by (auto simp: Let_def split: prod.splits)
  ultimately show thesis
    using that [where req = "\<lparr>ru_manifest_signature = ms, ru_signature_address = dr_email d, ru_checksum_verified = False,
        ru_extended_attributes = Some x, ru_photos_attributes = photos\<rparr>"] by (metis prod.collapse revision_update_request.select_convs(1,4) option.sel)
qed

lemma on_upload_Some:
  "on_upload E m d = Some (r, d') \<longleftrightarrow>
     (\<exists>st. m (df_split E (dv_world d)) = Some (r, st) \<and> d' = d\<lparr>dv_world := df_join E st (dv_world d)\<rparr>)"
  by (auto simp: on_upload_def on_world_Some)

lemma upload_draft_seals:
  assumes "byte_reader rd good left patience" "good r"
    and "upload_draft E kd rd r thumbnails time photos d = Some (Inr u, d')"
  shows "sealed_as E kd thumbnails (left r) time"
proof -
  let ?K = "df_upload_keys E (kd_node_key kd) (kd_content_key kd) (kd_signing_key kd)"
  obtain written d1 where
    "on_upload E (write_blocks (df_net E) ?K (kd_draft kd) rd (df_schedule E) thumbnails r) d = Some (Inr written, d1)"
    "on_upload E (\<lambda>st. Some (seal_revision (df_net E) ?K (kd_draft kd) written time
       (photos written (df_now_epoch_seconds E (dv_world d1))) st)) d1 = Some (Inr u, d')"
    using assms(3) unfolding upload_draft_def Let_def by (auto simp: op_bind_Inr)
  then obtain st1 st3 where
    w: "write_blocks (df_net E) ?K (kd_draft kd) rd (df_schedule E) thumbnails r (df_split E (dv_world d)) = Some (Inr written, st1)"
    and s: "seal_revision (df_net E) ?K (kd_draft kd) written time
       (photos written (df_now_epoch_seconds E (dv_world d1))) (df_split E (dv_world d1)) = (Inr (), st3)"
    unfolding on_upload_Some by auto
  obtain tcts cts where desc: "describes ?K thumbnails (left r) tcts cts written"
    using byte_reader.write_blocks_exact [OF assms(1,2) w] by blast
  then have sizes: "bw_total_size written = int (length (left r))"
    "bw_block_sizes written = map (\<lambda>p. int (length p)) (chunks DEFAULT_BLOCK_SIZE (left r))"
    by (auto simp: describes_def)
  show ?thesis
  proof (rule seal_revision_Inr [OF s], unfold sizes)
  qed (use desc in \<open>unfold sealed_as_def, blast\<close>)
qed

section \<open>The properties\<close>

text \<open>C24: Creating a draft never removes a committed file of the same name, nor, unless the caller
  asked for it, a draft another client has open: whatever holds of the server while such a node
  exists still holds after all the attempts.\<close>

theorem draft_spares_committed_file:
  assumes "\<And>path req w r w'. P w \<Longrightarrow> df_post_file E path req w = Some (r, w') \<Longrightarrow> P w' \<and>
      (\<forall>e c. r = Inl (Api e) \<longrightarrow> conflict_of E e = Some c \<longrightarrow> spoken_for override (df_session_id E) x c)"
    and "\<And>path ids w r w'. P w \<Longrightarrow> x \<notin> set ids \<Longrightarrow> no_post_links (df_ops E) path ids w = Some (r, w') \<Longrightarrow> P w'"
    and "P (dv_world d)" "file_draft_attempts E vid request override MAX_DRAFT_ATTEMPTS d = Some (r, d')"
  shows "P (dv_world d')"
  by (rule file_draft_attempts_spare [where P = P and n = MAX_DRAFT_ATTEMPTS, OF assms])

text \<open>C23: When an upload returns a node, the server has accepted the seal of that node's revision, and
  what it sealed describes the content read: a signed manifest of the ciphertext digests of the
  thumbnails and blocks, and attributes with the size, block sizes and digest.\<close>

theorem upload_seals_content:
  assumes "byte_reader rd good left patience" "good r"
    and "upload_file_from_inner E rd parent name media_type r intended thumbnails time aead override d = Some (Inr uid, d')"
  shows "\<exists>kd. uid = draft_uid kd \<and> sealed_as E kd thumbnails (left r) time"
proof -
  obtain kd d1 where "upload_draft E kd rd r thumbnails time (\<lambda>_ _. None) d1 = Some (Inr (), d')" "uid = draft_uid kd"
    using assms(3) unfolding upload_file_from_inner_def by (auto simp: op_bind_Inr op_then_def)
  then show ?thesis using upload_draft_seals [OF assms(1,2)] by blast
qed

text \<open>C25: A small upload is sent at most once: unless it failed because the name exists, its outcome,
  success or error, is the outcome of the whole call, and nothing is uploaded in blocks.\<close>

theorem small_upload_not_replayed:
  assumes "df_small_file_upload E" "small_upload_applicable (length contents)"
    and "upload_small_file E parent name media_type contents d = Some (r, d')"
    and "\<And>e. r = Inl (Api e) \<Longrightarrow> ae_code e \<noteq> AlreadyExists"
  shows "upload_file E parent name media_type contents d = Some (r, d')"
proof -
  have "\<not> small_upload_should_fall_back e" if "r = Inl e" for e
    using assms(4) that by (cases e) (auto simp: small_upload_should_fall_back_def)
  then show ?thesis using assms(1-3)
    by (cases r) (simp_all add: upload_file_def op_bind_def op_try_def)
qed

section \<open>Examples\<close>

text \<open>
  A server that knows its links: the name is taken by the draft \<open>old\<close> of this session, next to
  the file \<open>keep\<close>; it stores what it is sent.
\<close>

type_synonym draft_world = "nat \<times> (string \<times> bytes) list \<times> link_id list"

definition draft_drive :: "(string, unit, draft_world) drive_env" where
  "draft_drive = (drive_on one_entity_repo \<lparr>js_to_string = (\<lambda>_. Inr ''p''), js_from_str = (\<lambda>_. Some tree_parent_info)\<rparr>)
     \<lparr>de_post_links := (\<lambda>_ ids. op_return (map named_details ids)), de_decrypt_message := (\<lambda>_ s. Inr (as_bytes s)),
      de_address := (\<lambda>aid. op_return \<lparr>adr_id = aid, adr_email = ''a@p'', adr_order = 1, adr_status = 1,
        adr_primary_key_index = 0, adr_primary_key_id = AddressKeyId ''k''\<rparr>),
      de_address_private_keys := (\<lambda>_. op_return [''k''])\<rparr>"

definition draft_example :: "(string, unit, unit, unit, nat, (string \<times> bytes) list, draft_world) draft_env" where
  "draft_example =
     \<lparr>df_ops = (ops_on draft_drive)\<lparr>no_post_links := (\<lambda>_ ids (e, n, ls). Some (Inr [], (e, n, filter (\<lambda>l. l \<notin> set ids) ls)))\<rparr>,
      df_generate_node_key_aead = op_return (''n'', [1], ''locked''), df_generate_content_key = (\<lambda>_. op_return ()),
      df_to_packet = (\<lambda>_ _. op_return [1, 2, 3]), df_export = (\<lambda>_. Inr [1]), df_decrypt_content_key = (\<lambda>_ _. Inr ()),
      df_encrypt_block = (\<lambda>_ b. op_return b), df_base64 = (\<lambda>_. ''b''), df_base64_decode = (\<lambda>_. Inr []),
      df_sha256 = take 2, df_sha1_hex = (\<lambda>_. ''00''), df_attributes_json = (\<lambda>_. Inr []),
      df_conflict = (\<lambda>_. Some \<lparr>rc_link_id = Some (LinkId ''old''), rc_revision_id = None, rc_draft_revision_id = Some ''d'',
        rc_draft_client_uid = Some ''session''\<rparr>), df_debug_code = (\<lambda>_. ''code''), df_small_file_upload = True,
      df_now_epoch_seconds = (\<lambda>_. 0),
      df_post_file = (\<lambda>_ _ (e, n, ls). Some (if LinkId ''old'' \<in> set ls
        then (Inl (Api \<lparr>ae_code = AlreadyExists, ae_http_status = 422, ae_message = [], ae_details = Some JNull\<rparr>), (e, n, ls))
        else (Inr \<lparr>fid_link_id = LinkId ''new'', fid_revision_id = ''r''\<rparr>, (e, n, ls @ [LinkId ''new''])))),
      df_post_revision = (\<lambda>_ _. op_return ''r''), df_post_small_file = (\<lambda>_ _ _. op_fail (Crypto ''lost'')),
      df_post_small_revision = (\<lambda>_ _ _. op_return (LinkId ''l'')),
      df_upload_keys = (\<lambda>_ _ _. example_keys), df_net = example_net, df_schedule = [3, 1, 4],
      df_split = (\<lambda>(e, n, _). (e, n)), df_join = (\<lambda>(e, n) (_, _, ls). (e, n, ls))\<rparr>"

definition draft_state :: "(string, unit, draft_world) drive" where
  "draft_state =
     \<lparr>dv_world = (0, [], [LinkId ''keep'', LinkId ''old'']), dv_caches = \<lparr>cc_drive = DriveCache_default\<lparr>
        dc_main_volume_id := Some (VolumeId ''v''),
        dc_my_files_share := Some \<lparr>sk_share_id = ShareId ''x'', sk_address_id = AddressId ''a'', sk_key = ''s''\<rparr>,
        dc_my_files_root := Some (NodeUid_new (VolumeId ''v'') (LinkId ''r''))\<rparr>, cc_entities = ()\<rparr>\<rparr>"

definition draft_request :: file_creation_request where
  "draft_request = \<lparr>fcr_name = ''n'', fcr_name_hash = ''h'', fcr_parent_link_id = LinkId ''p'', fcr_passphrase = [],
     fcr_passphrase_signature = [], fcr_key = [], fcr_media_type = [], fcr_content_key_packet = [],
     fcr_content_key_signature = [], fcr_signature_address = [], fcr_client_uid = None, fcr_intended_upload_size = 3\<rparr>"

definition example_uploads :: "node_uid" where
  "example_uploads = NodeUid_new (VolumeId ''v'') (LinkId ''p'')"

theorem draft_spares_committed_file_witness:
  "\<exists>r d'. file_draft_attempts draft_example (VolumeId ''v'') draft_request False MAX_DRAFT_ATTEMPTS draft_state = Some (Inr r, d') \<and>
     LinkId ''keep'' \<in> set (snd (snd (dv_world d')))"
proof -
  have "op_gives (file_draft_attempts draft_example (VolumeId ''v'') draft_request False MAX_DRAFT_ATTEMPTS) (\<lambda>_ _. True) draft_state"
    by code_simp
  then obtain r d' where run:
      "file_draft_attempts draft_example (VolumeId ''v'') draft_request False MAX_DRAFT_ATTEMPTS draft_state = Some (Inr r, d')"
    unfolding op_gives_iff by blast
  have "LinkId ''keep'' \<in> set (snd (snd (dv_world d')))"
  proof (rule draft_spares_committed_file [where P = "\<lambda>w. LinkId ''keep'' \<in> set (snd (snd w))" and x = "LinkId ''keep''", OF _ _ _ run])
    show "LinkId ''keep'' \<in> set (snd (snd w')) \<and> (\<forall>e c. r = Inl (Api e) \<longrightarrow> conflict_of draft_example e = Some c \<longrightarrow>
        spoken_for False (df_session_id draft_example) (LinkId ''keep'') c)"
      if "LinkId ''keep'' \<in> set (snd (snd w))" "df_post_file draft_example path req w = Some (r, w')" for path req w r w'
      using that by (auto simp: draft_example_def spoken_for_def conflict_of_def split: if_splits prod.splits Option.bind_splits)
    show "LinkId ''keep'' \<in> set (snd (snd w'))"
      if "LinkId ''keep'' \<in> set (snd (snd w))" "LinkId ''keep'' \<notin> set ids"
        "no_post_links (df_ops draft_example) path ids w = Some (r, w')" for path ids w r w'
      using that by (auto simp: draft_example_def split: prod.splits)
  qed (simp add: draft_state_def)
  with run show ?thesis by blast
qed

lemma draft_example_uploads:
  "\<exists>d'. upload_draft draft_example kd cursor_read content [] None (\<lambda>_ _. None) d = Some (Inr (), d')"
proof -
  have keys: "df_upload_keys draft_example a b c = example_keys" "df_net draft_example = example_net" for a b c
    by (simp_all add: draft_example_def)
  have "op_wp (on_upload draft_example m) Q d \<longleftrightarrow>
      (\<exists>r st. m (df_split draft_example (dv_world d)) = Some (r, st) \<and>
        Q r (d\<lparr>dv_world := df_join draft_example st (dv_world d)\<rparr>))" for m :: "nat \<times> (string \<times> bytes) list \<Rightarrow> ('x result \<times> nat \<times> (string \<times> bytes) list) option"
      and Q and d :: "(string, unit, draft_world) drive"
    by (auto simp: op_wp_iff on_upload_Some)
  note up = this
  have seal: "\<exists>st'. seal_revision example_net example_keys dr written None p st = (Inr (), st')" for dr written p st
    by (cases st) (simp add: seal_revision_def example_keys_def example_net_def)
  have "op_wp (upload_draft draft_example kd cursor_read content [] None (\<lambda>_ _. None)) (\<lambda>r _. r = Inr ()) d"
    unfolding upload_draft_def Let_def keys
    using byte_reader.write_blocks_accepted [OF cursor.byte_reader_axioms TrueI example_keys_work example_net_accepts,
        of "kd_draft kd" "df_schedule draft_example" "[]" content "df_split draft_example (dv_world d)"] seal
    by (fastforce simp: wp up)
  then show ?thesis by (auto simp: op_wp_iff)
qed

theorem upload_seals_content_witness:
  "\<exists>uid d' kd. upload_file_from_inner draft_example cursor_read example_uploads ''n'' ''m'' [1, 2, 3] 3 [] None False False draft_state
     = Some (Inr uid, d') \<and> uid = draft_uid kd \<and> sealed_as draft_example kd [] [1, 2, 3] None"
proof -
  let ?spec = "\<lparr>fds_parent_uid = example_uploads, fds_name = ''n'', fds_media_type = ''m'', fds_intended_upload_size = 3,
    fds_aead = False, fds_for_photos = False, fds_override_existing_draft = False\<rparr>"
  have "op_gives (create_file_draft draft_example ?spec) (\<lambda>_ _. True) draft_state" by code_simp
  then obtain kd d1 where kd: "create_file_draft draft_example ?spec draft_state = Some (Inr kd, d1)"
    unfolding op_gives_iff by blast
  obtain d2 where d2: "upload_draft draft_example kd cursor_read [1, 2, 3] [] None (\<lambda>_ _. None) d1 = Some (Inr (), d2)"
    using draft_example_uploads by blast
  have run: "upload_file_from_inner draft_example cursor_read example_uploads ''n'' ''m'' [1, 2, 3] 3 [] None False False draft_state
      = Some (Inr (draft_uid kd), d2)"
    using kd d2 by (simp add: upload_file_from_inner_def op_bind_def op_then_def)
  from upload_seals_content [OF cursor.byte_reader_axioms TrueI run] run show ?thesis unfolding id_apply by blast
qed

theorem small_upload_not_replayed_witness:
  "\<exists>d'. upload_file draft_example example_uploads ''n'' ''m'' [] draft_state = Some (Inl (Crypto ''lost''), d')"
proof -
  have "case upload_small_file draft_example example_uploads ''n'' ''m'' [] draft_state of
      Some (Inl e, _) \<Rightarrow> e = Crypto ''lost'' | _ \<Rightarrow> False" by code_simp
  then obtain d' where "upload_small_file draft_example example_uploads ''n'' ''m'' [] draft_state = Some (Inl (Crypto ''lost''), d')"
    by (auto split: option.splits sum.splits)
  from small_upload_not_replayed [OF _ _ this] show ?thesis
    by (simp add: draft_example_def small_upload_applicable_def SMALL_UPLOAD_SIZE_LIMIT_def)
qed

end
