(* ===== verification/Download.thy ===== *)
theory Download
  imports Drafts Revision
begin

text \<open>
  Reading files back (\<open>proton-drive-rs/src/client.rs\<close>): whole downloads with their
  manifest, readers and ranges over \<open>Revision\<close>, the revision history, and thumbnails.
  \<open>download_env\<close> is what this uses beyond uploads; a writer is a function on its own
  state, and the overlapped block fetches run in the order their results are taken.
\<close>

section \<open>Wire types and the interface\<close>

record revision_list_item_dto =
  rli_id :: string
  rli_state :: "int option"
  rli_creation_time :: int
  rli_size :: int
  rli_signature_email :: "string option"
  rli_extended_attributes :: "string option"
  rli_thumbnails :: "thumbnail_dto list"

record thumbnail_block =
  tk_thumbnail_id :: string
  tk_bare_url :: string
  tk_token :: string

record thumbnail_block_error =
  te_thumbnail_id :: string
  te_error :: string

record thumbnail_block_list_response =
  tl_blocks :: "thumbnail_block list"
  tl_errors :: "thumbnail_block_error list"

text \<open>\<open>dn_key_order\<close> is the order in which a hash map lists its keys.\<close>

record ('k, 'p, 's, 'c, 'e, 'n, 'w) download_env =
  dn_drafts :: "('k, 'p, 's, 'c, 'e, 'n, 'w) draft_env"
  dn_http :: api_http_client
  dn_get :: "api_http_client \<Rightarrow> string \<Rightarrow> 'w \<Rightarrow> revision_dto result \<times> 'w"
  dn_storage :: "api_http_client \<Rightarrow> string \<Rightarrow> string \<Rightarrow> 'w \<Rightarrow> bytes result \<times> 'w"
  dn_decrypt_block :: "'c \<Rightarrow> bytes \<Rightarrow> bytes result"
  dn_decrypt_thumbnail :: "'c \<Rightarrow> bytes \<Rightarrow> bytes result"
  dn_verify_private :: "string \<Rightarrow> bytes \<Rightarrow> 'k \<Rightarrow> verification_status"
  dn_verify_public :: "string \<Rightarrow> bytes \<Rightarrow> 'p list \<Rightarrow> verification_status"
  dn_get_revisions :: "string \<Rightarrow> (revision_list_item_dto list, 'w) op"
  dn_get_revision :: "string \<Rightarrow> (revision_list_item_dto, 'w) op"
  dn_post_restore :: "string \<Rightarrow> (unit, 'w) op"
  dn_post_thumbnails :: "string \<Rightarrow> string list \<Rightarrow> (thumbnail_block_list_response, 'w) op"
  dn_key_order :: "string list \<Rightarrow> string list"

definition dn_drive :: "('k, 'p, 's, 'c, 'e, 'n, 'w) download_env \<Rightarrow> ('k, 's, 'w) drive_env" where
  "dn_drive E = df_drive (dn_drafts E)"

definition dn_nodes :: "('k, 'p, 's, 'c, 'e, 'n, 'w) download_env \<Rightarrow> ('k, 'p, 's, 'w) node_env" where
  "dn_nodes E = no_nodes (df_ops (dn_drafts E))"

section \<open>Opening a file\<close>

definition readable_file :: "link_details_dto \<Rightarrow> file_dto option" where
  "readable_file detail = (case ld_file detail of Some f \<Rightarrow> Some f | None \<Rightarrow> map_option ph_file (ld_photo detail))"

text \<open>The keys of a file and the revision to read: the given one, else the active one.\<close>

definition file_access ::
  "('k, 'p, 's, 'c, 'e, 'n, 'w) download_env \<Rightarrow> node_uid \<Rightarrow> string option \<Rightarrow> bool
     \<Rightarrow> ('k \<times> 'c \<times> string, ('k, 's, 'w) drive) op" where
  "file_access E uid revision_id for_photos =
     op_bind (get_link_details_ctx (dn_drive E) (uid_volume uid) [uid_link uid] for_photos) (\<lambda>links.
     op_bind (op_ok_or (InvalidOperation (''file '' @ NodeUid_display uid @ '' not found''))
                (case links of [] \<Rightarrow> None | d # _ \<Rightarrow> Some d)) (\<lambda>detail.
     op_bind (op_ok_or (InvalidOperation (''node '' @ NodeUid_display uid @ '' is not a file'')) (readable_file detail)) (\<lambda>fd.
     op_bind (op_ok_or (InvalidOperation ''file is missing its content key packet'') (fi_content_key_packet fd)) (\<lambda>b64.
     op_bind (op_of (map_err (\<lambda>e. InvalidOperation (''decode content key packet: '' @ e))
                (df_base64_decode (dn_drafts E) (trim b64)))) (\<lambda>packet.
     op_bind (op_ok_or (InvalidOperation ''file has no active revision'')
                (case revision_id of Some i \<Rightarrow> Some i | None \<Rightarrow> map_option ar_id (fi_active_revision fd))) (\<lambda>rid.
     op_bind (resolve_parent_key_ctx (dn_drive E) (uid_volume uid) (ld_link detail) for_photos) (\<lambda>parent_key.
     op_bind (op_of (de_decrypt_link (dn_drive E) parent_key (ld_link detail))) (\<lambda>(nkey, _).
     op_bind (op_of (df_decrypt_content_key (dn_drafts E) nkey packet)) (\<lambda>content_key.
       op_return (nkey, content_key, rid))))))))))"

definition fetch_revision_blocks ::
  "('k, 'p, 's, 'c, 'e, 'n, 'w) download_env \<Rightarrow> volume_id \<Rightarrow> link_id \<Rightarrow> string
     \<Rightarrow> (revision_dto \<times> block_dto list, ('k, 's, 'w) drive) op" where
  "fetch_revision_blocks E vid lid rid = on_world (list_blocks (StaticSession (dn_http E)) (dn_get E) vid lid rid)"

definition block_targets_of ::
  "('k, 'p, 's, 'c, 'e, 'n, 'w) download_env \<Rightarrow> node_uid \<Rightarrow> string \<Rightarrow> block_dto list \<Rightarrow> 'w block_targets" where
  "block_targets_of E uid rid blocks =
     \<lparr>tg_session = StaticSession (dn_http E), tg_get = dn_get E, tg_storage = dn_storage E, tg_uid = uid,
      tg_revision_id = rid, tg_expected_blocks = length blocks\<rparr>"

text \<open>Runs a use of the block table on the client's world.\<close>

definition on_table ::
  "block_dto list \<Rightarrow> ('w block_table \<Rightarrow> ('a result \<times> 'w block_table) option) \<Rightarrow> ('a, ('k, 's, 'w) drive) op" where
  "on_table blocks m = on_world (\<lambda>w. map_option (\<lambda>(r, t). (r, bt_world t)) (m (BlockTargets_new blocks w)))"

section \<open>Whole downloads\<close>

text \<open>Calls of the client beside an output.\<close>

definition beside :: "('a, 'd) op \<Rightarrow> ('a, 'o \<times> 'd) op" where
  "beside m = (\<lambda>(o1, d). map_option (\<lambda>(r, d'). (r, (o1, d'))) (m d))"

fun thumbnail_digests :: "(string \<Rightarrow> string + bytes) \<Rightarrow> thumbnail_dto list \<Rightarrow> bytes result" where
  "thumbnail_digests decode [] = Inr []"
| "thumbnail_digests decode (t # ts) =
     (case tb_hash_digest t of
        None \<Rightarrow> thumbnail_digests decode ts
      | Some b64 \<Rightarrow>
          (case decode (trim b64) of
             Inl e \<Rightarrow> Inl (InvalidOperation (''decode thumbnail digest: '' @ e))
           | Inr digest \<Rightarrow>
               (case thumbnail_digests decode ts of Inl e \<Rightarrow> Inl e | Inr rest \<Rightarrow> Inr (digest @ rest))))"

text \<open>A writer answers with an error text when it fails.\<close>

fun write_content_blocks ::
  "'w block_targets \<Rightarrow> (bytes \<Rightarrow> bytes result) \<Rightarrow> (bytes \<Rightarrow> bytes) \<Rightarrow> (bytes \<Rightarrow> 'o \<Rightarrow> string option \<times> 'o)
     \<Rightarrow> nat list \<Rightarrow> bytes \<Rightarrow> 'o \<times> 'w block_table \<Rightarrow> (bytes result \<times> 'o \<times> 'w block_table) option" where
  "write_content_blocks tg dec sha wr [] manifest (o1, t) = Some (Inr manifest, o1, t)"
| "write_content_blocks tg dec sha wr (i # is) manifest (o1, t) =
     (case ciphertext tg i t of
        None \<Rightarrow> None
      | Some (Inl e, t1) \<Rightarrow> Some (Inl e, o1, t1)
      | Some (Inr ct, t1) \<Rightarrow>
          (case dec ct of
             Inl e \<Rightarrow> Some (Inl e, o1, t1)
           | Inr plaintext \<Rightarrow>
               (case wr plaintext o1 of
                  (Some e, o2) \<Rightarrow> Some (Inl (InvalidOperation (''write block: '' @ e)), o2, t1)
                | (None, o2) \<Rightarrow> write_content_blocks tg dec sha wr is (manifest @ sha ct) (o2, t1))))"

definition verify_manifest ::
  "('k, 'p, 's, 'c, 'e, 'n, 'w) download_env \<Rightarrow> revision_dto \<Rightarrow> 'k \<Rightarrow> bytes \<Rightarrow> (verification_status, 'w) op" where
  "verify_manifest E revision nkey manifest =
     (case rev_manifest_signature revision of
        None \<Rightarrow> op_return NotSigned
      | Some signature \<Rightarrow>
          let email = (case rev_signature_email revision of Some s \<Rightarrow> s | None \<Rightarrow> []) in
          if email = [] then op_return (dn_verify_private E signature manifest nkey)
          else (\<lambda>w. case ne_public_keys (dn_nodes E) email w of
                  (keys, w') \<Rightarrow> Some (Inr (dn_verify_public E signature manifest keys), w')))"

definition write_blocks_out ::
  "('k, 'p, 's, 'c, 'e, 'n, 'w) download_env \<Rightarrow> (bytes \<Rightarrow> 'o \<Rightarrow> string option \<times> 'o) \<Rightarrow> node_uid \<Rightarrow> string \<Rightarrow> 'c
     \<Rightarrow> block_dto list \<Rightarrow> bytes \<Rightarrow> (bytes, 'o \<times> ('k, 's, 'w) drive) op" where
  "write_blocks_out E wr uid rid content_key blocks manifest = (\<lambda>(o1, d).
     map_option (\<lambda>(r, o2, t). (r, (o2, d\<lparr>dv_world := bt_world t\<rparr>)))
       (write_content_blocks (block_targets_of E uid rid blocks) (dn_decrypt_block E content_key) (df_sha256 (dn_drafts E)) wr
          [0..<length blocks] manifest (o1, BlockTargets_new blocks (dv_world d))))"

text \<open>The verdict on the manifest is logged and does not change the result.\<close>

definition download_file_to ::
  "('k, 'p, 's, 'c, 'e, 'n, 'w) download_env \<Rightarrow> (bytes \<Rightarrow> 'o \<Rightarrow> string option \<times> 'o) \<Rightarrow> node_uid
     \<Rightarrow> (unit, 'o \<times> ('k, 's, 'w) drive) op" where
  "download_file_to E wr uid =
     op_bind (beside (file_access E uid None False)) (\<lambda>(nkey, content_key, rid).
     op_bind (beside (fetch_revision_blocks E (uid_volume uid) (uid_link uid) rid)) (\<lambda>(revision, blocks).
     op_bind (op_of (thumbnail_digests (df_base64_decode (dn_drafts E))
                (sort_by_key tb_thumbnail_type (rev_thumbnails revision)))) (\<lambda>digests.
     op_bind (write_blocks_out E wr uid rid content_key blocks digests) (\<lambda>manifest.
     op_then (beside (on_world (verify_manifest E revision nkey manifest))) (op_return ())))))"

definition vec_write :: "bytes \<Rightarrow> bytes \<Rightarrow> string option \<times> bytes" where
  "vec_write b buf = (None, buf @ b)"

definition collected :: "(unit, bytes \<times> 'd) op \<Rightarrow> (bytes, 'd) op" where
  "collected m = (\<lambda>d. map_option (\<lambda>(r, buf, d'). (case r of Inl e \<Rightarrow> Inl e | Inr _ \<Rightarrow> Inr buf, d')) (m ([], d)))"

definition download_file ::
  "('k, 'p, 's, 'c, 'e, 'n, 'w) download_env \<Rightarrow> node_uid \<Rightarrow> (bytes, ('k, 's, 'w) drive) op" where
  "download_file E uid = collected (download_file_to E vec_write uid)"

section \<open>Readers and ranges\<close>

definition resolve_block_sizes ::
  "('k, 'p, 's, 'c, 'e, 'n, 'w) download_env \<Rightarrow> 'k \<Rightarrow> revision_dto \<Rightarrow> nat \<Rightarrow> (u64 list, ('k, 's, 'w) drive) op" where
  "resolve_block_sizes E nkey revision block_count =
     op_bind (case rev_extended_attributes revision of
                None \<Rightarrow> op_return None
              | Some xattr \<Rightarrow>
                  op_bind (op_try (on_world (ne_xattr_verified (dn_nodes E) nkey (rev_signature_email revision) xattr))) (\<lambda>r.
                    op_return (case r of Inr (attrs, _) \<Rightarrow> dx_common attrs | Inl _ \<Rightarrow> None)))
       (\<lambda>common. op_of (rank_block_sizes common (rev_id revision) block_count))"

record 'c revision_reader =
  rr_uid :: node_uid
  rr_revision_id :: string
  rr_content_key :: 'c
  rr_blocks :: "block_dto list"
  rr_block_sizes :: "u64 list"

definition open_revision_inner ::
  "('k, 'p, 's, 'c, 'e, 'n, 'w) download_env \<Rightarrow> node_uid \<Rightarrow> string option \<Rightarrow> ('c revision_reader, ('k, 's, 'w) drive) op" where
  "open_revision_inner E uid revision_id =
     op_bind (file_access E uid revision_id False) (\<lambda>(nkey, content_key, rid).
     op_bind (fetch_revision_blocks E (uid_volume uid) (uid_link uid) rid) (\<lambda>(revision, blocks).
     op_bind (resolve_block_sizes E nkey revision (length blocks)) (\<lambda>sizes.
       op_return \<lparr>rr_uid = uid, rr_revision_id = rid, rr_content_key = content_key, rr_blocks = blocks,
                  rr_block_sizes = sizes\<rparr>)))"

definition open_revision ::
  "('k, 'p, 's, 'c, 'e, 'n, 'w) download_env \<Rightarrow> node_uid \<Rightarrow> ('c revision_reader, ('k, 's, 'w) drive) op" where
  "open_revision E uid = open_revision_inner E uid None"

definition open_revision_at ::
  "('k, 'p, 's, 'c, 'e, 'n, 'w) download_env \<Rightarrow> node_uid \<Rightarrow> string \<Rightarrow> ('c revision_reader, ('k, 's, 'w) drive) op" where
  "open_revision_at E uid rid = open_revision_inner E uid (Some rid)"

text \<open>A read of an open reader, on its block table.\<close>

definition reader_read ::
  "('k, 'p, 's, 'c, 'e, 'n, 'w) download_env \<Rightarrow> 'c revision_reader \<Rightarrow> u64 \<Rightarrow> u64 \<Rightarrow> 'w block_table
     \<Rightarrow> (bytes result \<times> 'w block_table) option" where
  "reader_read E r = read_at (block_targets_of E (rr_uid r) (rr_revision_id r) (rr_blocks r))
     (dn_decrypt_block E (rr_content_key r)) (rr_block_sizes r)"

definition download_range ::
  "('k, 'p, 's, 'c, 'e, 'n, 'w) download_env \<Rightarrow> node_uid \<Rightarrow> u64 \<Rightarrow> u64 \<Rightarrow> (bytes, ('k, 's, 'w) drive) op" where
  "download_range E uid offset len =
     op_bind (open_revision E uid) (\<lambda>r. on_table (rr_blocks r) (reader_read E r offset len))"

partial_function (option) read_chunks ::
  "(u64 \<Rightarrow> u64 \<Rightarrow> 't \<Rightarrow> (bytes result \<times> 't) option) \<Rightarrow> (bytes \<Rightarrow> 'o \<Rightarrow> string option \<times> 'o) \<Rightarrow> u64 \<Rightarrow> u64
     \<Rightarrow> 'o \<times> 't \<Rightarrow> (unit result \<times> 'o \<times> 't) option" where
  [code]: "read_chunks rd wr total_size offset st =
     (if offset < total_size then
        (case rd offset (of_nat DEFAULT_BLOCK_SIZE) (snd st) of
           None \<Rightarrow> None
         | Some (Inl e, t1) \<Rightarrow> Some (Inl e, fst st, t1)
         | Some (Inr chunk, t1) \<Rightarrow>
             if chunk = [] then Some (Inr (), fst st, t1)
             else
               (case wr chunk (fst st) of
                  (Some e, o2) \<Rightarrow> Some (Inl (InvalidOperation (''write revision: '' @ e)), o2, t1)
                | (None, o2) \<Rightarrow> read_chunks rd wr total_size (offset + of_nat (length chunk)) (o2, t1)))
      else Some (Inr (), st))"

definition download_revision_to ::
  "('k, 'p, 's, 'c, 'e, 'n, 'w) download_env \<Rightarrow> (bytes \<Rightarrow> 'o \<Rightarrow> string option \<times> 'o) \<Rightarrow> node_uid \<Rightarrow> string
     \<Rightarrow> (unit, 'o \<times> ('k, 's, 'w) drive) op" where
  "download_revision_to E wr uid rid =
     op_bind (beside (open_revision_at E uid rid)) (\<lambda>r (o1, d).
       map_option (\<lambda>(q, o2, t). (q, (o2, d\<lparr>dv_world := bt_world t\<rparr>)))
         (read_chunks (reader_read E r) wr (sum_list (rr_block_sizes r)) 0 (o1, BlockTargets_new (rr_blocks r) (dv_world d))))"

definition download_revision ::
  "('k, 'p, 's, 'c, 'e, 'n, 'w) download_env \<Rightarrow> node_uid \<Rightarrow> string \<Rightarrow> (bytes, ('k, 's, 'w) drive) op" where
  "download_revision E uid rid = collected (download_revision_to E vec_write uid rid)"

section \<open>Revision history\<close>

definition file_node_key ::
  "('k, 'p, 's, 'c, 'e, 'n, 'w) download_env \<Rightarrow> node_uid \<Rightarrow> ('k, ('k, 's, 'w) drive) op" where
  "file_node_key E uid =
     op_bind (get_link_details (dn_drive E) (uid_volume uid) [uid_link uid]) (\<lambda>links.
     op_bind (op_ok_or (InvalidOperation (''file '' @ NodeUid_display uid @ '' not found''))
                (case links of [] \<Rightarrow> None | d # _ \<Rightarrow> Some (ld_link d))) (\<lambda>link.
     op_bind (resolve_parent_key (dn_drive E) (uid_volume uid) link) (\<lambda>parent_key.
     op_bind (op_of (de_decrypt_link (dn_drive E) parent_key link)) (\<lambda>(nkey, _). op_return nkey))))"

definition build_revision ::
  "('k, 'p, 's, 'c, 'e, 'n, 'w) download_env \<Rightarrow> node_uid \<Rightarrow> 'k \<Rightarrow> revision_list_item_dto \<Rightarrow> (revision, ('k, 's, 'w) drive) op" where
  "build_revision E uid nkey item =
     op_bind (case rli_extended_attributes item of
                None \<Rightarrow> op_return None
              | Some xattr \<Rightarrow>
                  op_bind (op_try (on_world (ne_xattr_verified (dn_nodes E) nkey (rli_signature_email item) xattr))) (\<lambda>r.
                    op_return (case r of Inr (attrs, _) \<Rightarrow> dx_common attrs | Inl _ \<Rightarrow> None)))
       (\<lambda>common. op_return
         \<lparr>rv_file_uid = uid, rv_revision_id = rli_id item, rv_state = RevisionState_from_raw (rli_state item),
          rv_creation_time = rli_creation_time item, rv_size_on_storage = rli_size item,
          rv_claimed_size = Option.bind common cx_size,
          rv_claimed_modification_time = Option.bind common cx_modification_time,
          rv_claimed_sha1 = Option.bind common cx_sha1,
          rv_signature_email = (case rli_signature_email item of Some e \<Rightarrow> if e = [] then None else Some e | None \<Rightarrow> None),
          rv_has_thumbnails = (rli_thumbnails item \<noteq> [])\<rparr>)"

definition revisions_path :: "node_uid \<Rightarrow> string" where
  "revisions_path uid = ''v2/volumes/'' @ volume_id_str (uid_volume uid) @ ''/files/'' @ link_id_str (uid_link uid) @ ''/revisions''"

definition enumerate_revisions ::
  "('k, 'p, 's, 'c, 'e, 'n, 'w) download_env \<Rightarrow> node_uid \<Rightarrow> (revision list, ('k, 's, 'w) drive) op" where
  "enumerate_revisions E uid =
     op_bind (file_node_key E uid) (\<lambda>nkey.
     op_bind (on_world (dn_get_revisions E (revisions_path uid))) (\<lambda>items.
       op_map (build_revision E uid nkey) (filter (\<lambda>i. is_listable_revision_state (rli_state i)) items)))"

definition get_revision ::
  "('k, 'p, 's, 'c, 'e, 'n, 'w) download_env \<Rightarrow> node_uid \<Rightarrow> string \<Rightarrow> (revision option, ('k, 's, 'w) drive) op" where
  "get_revision E uid rid =
     op_bind (file_node_key E uid) (\<lambda>nkey.
     op_bind (op_try (on_world (dn_get_revision E (revisions_path uid @ ''/'' @ rid @ ''?NoBlockUrls=true'')))) (\<lambda>r.
     case r of
       Inr item \<Rightarrow> op_bind (build_revision E uid nkey item) (\<lambda>rev. op_return (Some rev))
     | Inl e \<Rightarrow> if is_not_found e then op_return None else op_fail e))"

definition restore_accepted :: "unit result \<Rightarrow> bool" where
  "restore_accepted r = (case r of Inr _ \<Rightarrow> True | Inl (Api e) \<Rightarrow> ae_http_status e = 202 | Inl _ \<Rightarrow> False)"

definition restore_revision ::
  "('k, 'p, 's, 'c, 'e, 'n, 'w) download_env \<Rightarrow> node_uid \<Rightarrow> string \<Rightarrow> (unit, ('k, 's, 'w) drive) op" where
  "restore_revision E uid rid =
     op_bind (op_try (on_world (dn_post_restore E (revisions_path uid @ ''/'' @ rid @ ''/restore'')))) (\<lambda>r.
     if restore_accepted r then on_entities (remove_node (de_repo (dn_drive E)) uid) else op_of r)"

definition delete_revision ::
  "('k, 'p, 's, 'c, 'e, 'n, 'w) download_env \<Rightarrow> node_uid \<Rightarrow> string \<Rightarrow> (unit, ('k, 's, 'w) drive) op" where
  "delete_revision E uid rid = delete_revision_by_ids (dn_drafts E) (uid_volume uid) (uid_link uid) rid"

section \<open>Thumbnails\<close>

definition MAX_THUMBNAIL_IDS_PER_REQUEST :: nat where "MAX_THUMBNAIL_IDS_PER_REQUEST = 30"

definition file_thumbnail_target ::
  "('k, 'p, 's, 'c, 'e, 'n, 'w) download_env \<Rightarrow> node_uid \<Rightarrow> thumbnail_type \<Rightarrow> bool
     \<Rightarrow> ('c \<times> string option, ('k, 's, 'w) drive) op" where
  "file_thumbnail_target E uid wanted for_photos =
     op_bind (file_access E uid None for_photos) (\<lambda>(_, content_key, rid).
     op_bind (fetch_revision_blocks E (uid_volume uid) (uid_link uid) rid) (\<lambda>(revision, _).
       op_return (content_key, Option.bind
         (find (\<lambda>t. tb_thumbnail_type t = ThumbnailType_as_i32 wanted) (rev_thumbnails revision)) tb_id)))"

definition thumbnails_path :: "volume_id \<Rightarrow> string" where
  "thumbnails_path vid = ''volumes/'' @ volume_id_str vid @ ''/thumbnails''"

definition fetch_thumbnail ::
  "('k, 'p, 's, 'c, 'e, 'n, 'w) download_env \<Rightarrow> 'c \<Rightarrow> thumbnail_block \<Rightarrow> (bytes, ('k, 's, 'w) drive) op" where
  "fetch_thumbnail E content_key block =
     op_bind (on_world (op_call (dn_storage E (dn_http E) (tk_bare_url block) (tk_token block)))) (\<lambda>ct.
       op_of (dn_decrypt_thumbnail E content_key ct))"

definition download_thumbnail_ctx ::
  "('k, 'p, 's, 'c, 'e, 'n, 'w) download_env \<Rightarrow> node_uid \<Rightarrow> thumbnail_type \<Rightarrow> bool \<Rightarrow> (bytes option, ('k, 's, 'w) drive) op" where
  "download_thumbnail_ctx E uid wanted for_photos =
     op_bind (file_thumbnail_target E uid wanted for_photos) (\<lambda>(content_key, thumbnail_id).
     case thumbnail_id of
       None \<Rightarrow> op_return None
     | Some tid \<Rightarrow>
         op_bind (on_world (dn_post_thumbnails E (thumbnails_path (uid_volume uid)) [tid])) (\<lambda>response.
         case find (\<lambda>b. tk_thumbnail_id b = tid) (tl_blocks response) of
           None \<Rightarrow> op_fail (InvalidOperation (''resolve thumbnail block: '' @
             (case find (\<lambda>e. te_thumbnail_id e = tid) (tl_errors response) of
                Some e \<Rightarrow> te_error e | None \<Rightarrow> ''thumbnail block not returned'')))
         | Some block \<Rightarrow> op_bind (fetch_thumbnail E content_key block) (\<lambda>bytes. op_return (Some bytes))))"

definition download_thumbnail ::
  "('k, 'p, 's, 'c, 'e, 'n, 'w) download_env \<Rightarrow> node_uid \<Rightarrow> thumbnail_type \<Rightarrow> (bytes option, ('k, 's, 'w) drive) op" where
  "download_thumbnail E uid wanted = download_thumbnail_ctx E uid wanted False"

text \<open>
  A batch under way: the files whose thumbnail is still owed, by thumbnail id, and the results.
\<close>

record 'c thumbnail_batch =
  tn_targets :: "string \<rightharpoonup> node_uid \<times> 'c"
  tn_ids :: "string list"
  tn_results :: "file_thumbnail list"

definition report_thumbnail :: "node_uid \<Rightarrow> bytes result \<Rightarrow> 'c thumbnail_batch \<Rightarrow> 'c thumbnail_batch" where
  "report_thumbnail uid r b = b\<lparr>tn_results := tn_results b @ [\<lparr>ft_file_uid = uid, ft_result = r\<rparr>]\<rparr>"

text \<open>Takes a file out of the map and reports its outcome, if it is still owed.\<close>

definition settle_thumbnail :: "string \<Rightarrow> bytes result \<Rightarrow> 'c thumbnail_batch \<Rightarrow> 'c thumbnail_batch" where
  "settle_thumbnail tid r b =
     (case tn_targets b tid of
        None \<Rightarrow> b
      | Some (uid, _) \<Rightarrow> report_thumbnail uid r (b\<lparr>tn_targets := (tn_targets b)(tid := None)\<rparr>))"

fun collect_thumbnail_targets ::
  "('k, 'p, 's, 'c, 'e, 'n, 'w) download_env \<Rightarrow> thumbnail_type \<Rightarrow> bool \<Rightarrow> node_uid list \<Rightarrow> 'c thumbnail_batch
     \<Rightarrow> ('c thumbnail_batch, ('k, 's, 'w) drive) op" where
  "collect_thumbnail_targets E wanted for_photos [] b = op_return b"
| "collect_thumbnail_targets E wanted for_photos (uid # uids) b =
     op_bind (op_try (file_thumbnail_target E uid wanted for_photos)) (\<lambda>r.
       collect_thumbnail_targets E wanted for_photos uids
         (case r of
            Inr (content_key, Some tid) \<Rightarrow>
              b\<lparr>tn_targets := (tn_targets b)(tid \<mapsto> (uid, content_key)), tn_ids := List.insert tid (tn_ids b)\<rparr>
          | Inr (_, None) \<Rightarrow> report_thumbnail uid (Inl (InvalidOperation
              (''node '' @ NodeUid_display uid @ '' has no thumbnail of the requested type''))) b
          | Inl e \<Rightarrow> report_thumbnail uid (Inl e) b))"

fun fetch_thumbnail_blocks ::
  "('k, 'p, 's, 'c, 'e, 'n, 'w) download_env \<Rightarrow> thumbnail_block list \<Rightarrow> 'c thumbnail_batch
     \<Rightarrow> ('c thumbnail_batch, ('k, 's, 'w) drive) op" where
  "fetch_thumbnail_blocks E [] b = op_return b"
| "fetch_thumbnail_blocks E (block # blocks) b =
     (case tn_targets b (tk_thumbnail_id block) of
        None \<Rightarrow> fetch_thumbnail_blocks E blocks b
      | Some (uid, content_key) \<Rightarrow>
          op_bind (op_try (fetch_thumbnail E content_key block)) (\<lambda>r.
            fetch_thumbnail_blocks E blocks (settle_thumbnail (tk_thumbnail_id block) r b)))"

text \<open>The thumbnails named in neither half of the response; those of a block are settled by then.\<close>

definition settle_chunk :: "thumbnail_block_list_response \<Rightarrow> string list \<Rightarrow> 'c thumbnail_batch \<Rightarrow> 'c thumbnail_batch" where
  "settle_chunk response chunk b =
     fold (\<lambda>tid. settle_thumbnail tid (Inl (InvalidOperation ''thumbnail not found'')))
       (filter (\<lambda>tid. tid \<notin> tk_thumbnail_id ` set (tl_blocks response)) chunk)
       (fold (\<lambda>e. settle_thumbnail (te_thumbnail_id e) (Inl (InvalidOperation (te_error e)))) (tl_errors response) b)"

fun thumbnail_chunks ::
  "('k, 'p, 's, 'c, 'e, 'n, 'w) download_env \<Rightarrow> volume_id \<Rightarrow> string list list \<Rightarrow> 'c thumbnail_batch
     \<Rightarrow> ('c thumbnail_batch, ('k, 's, 'w) drive) op" where
  "thumbnail_chunks E vid [] b = op_return b"
| "thumbnail_chunks E vid (chunk # rest) b =
     op_bind (op_try (on_world (dn_post_thumbnails E (thumbnails_path vid) chunk))) (\<lambda>r.
     case r of
       Inl e \<Rightarrow> thumbnail_chunks E vid rest (fold (\<lambda>tid. settle_thumbnail tid
         (Inl (InvalidOperation (''resolve thumbnail blocks: '' @ de_display (dn_drive E) e)))) chunk b)
     | Inr response \<Rightarrow>
         op_bind (fetch_thumbnail_blocks E (tl_blocks response) b) (\<lambda>b1.
           thumbnail_chunks E vid rest (settle_chunk response chunk b1)))"

fun thumbnail_volumes ::
  "('k, 'p, 's, 'c, 'e, 'n, 'w) download_env \<Rightarrow> thumbnail_type \<Rightarrow> bool \<Rightarrow> (volume_id \<times> link_id list) list \<Rightarrow> file_thumbnail list
     \<Rightarrow> (file_thumbnail list, ('k, 's, 'w) drive) op" where
  "thumbnail_volumes E wanted for_photos [] results = op_return results"
| "thumbnail_volumes E wanted for_photos ((vid, ids) # groups) results =
     op_bind (collect_thumbnail_targets E wanted for_photos (map (NodeUid_new vid) ids)
       \<lparr>tn_targets = Map.empty, tn_ids = [], tn_results = results\<rparr>) (\<lambda>b.
     op_bind (thumbnail_chunks E vid (chunks MAX_THUMBNAIL_IDS_PER_REQUEST (dn_key_order E (tn_ids b))) b) (\<lambda>b1.
       thumbnail_volumes E wanted for_photos groups (tn_results b1)))"

definition enumerate_thumbnails_ctx ::
  "('k, 'p, 's, 'c, 'e, 'n, 'w) download_env \<Rightarrow> node_uid list \<Rightarrow> thumbnail_type \<Rightarrow> bool
     \<Rightarrow> (file_thumbnail list, ('k, 's, 'w) drive) op" where
  "enumerate_thumbnails_ctx E uids wanted for_photos = thumbnail_volumes E wanted for_photos (group_by_volume uids) []"

definition enumerate_thumbnails ::
  "('k, 'p, 's, 'c, 'e, 'n, 'w) download_env \<Rightarrow> node_uid list \<Rightarrow> thumbnail_type \<Rightarrow> (file_thumbnail list, ('k, 's, 'w) drive) op" where
  "enumerate_thumbnails E uids wanted = enumerate_thumbnails_ctx E uids wanted False"

section \<open>Downloads return what was uploaded\<close>

lemma write_content_blocks_exact:
  assumes "\<And>j t. j < length cts \<Longrightarrow> ok t \<Longrightarrow> \<exists>t'. ciphertext tg (i + j) t = Some (Inr (cts ! j), t') \<and> ok t'"
    and "list_all2 (\<lambda>ct p. dec ct = Inr p) cts ps" and "ok t"
  shows "\<exists>t'. write_content_blocks tg dec sha vec_write [i..<i + length cts] manifest (buf, t) =
     Some (Inr (manifest @ concat (map sha cts)), buf @ concat ps, t') \<and> ok t'"
  using assms(2,1,3)
proof (induction cts ps arbitrary: i manifest buf t rule: list_all2_induct)
  case (Cons ct cts p ps)
  obtain t1 where t1: "ciphertext tg i t = Some (Inr ct, t1)" "ok t1"
    using Cons.prems(1) [of 0 t] Cons.prems(2) by auto
  have "\<exists>t'. write_content_blocks tg dec sha vec_write [Suc i..<Suc i + length cts] (manifest @ sha ct) (buf @ p, t1) =
      Some (Inr ((manifest @ sha ct) @ concat (map sha cts)), (buf @ p) @ concat ps, t') \<and> ok t'"
  proof (rule Cons.IH)
    show "\<exists>t'. ciphertext tg (Suc i + j) t = Some (Inr (cts ! j), t') \<and> ok t'" if "j < length cts" "ok t" for j t
      using Cons.prems(1) [of "Suc j" t] that by simp
  qed (rule t1(2))
  moreover have "[i..<i + length (ct # cts)] = i # [Suc i..<Suc i + length cts]"
    using upt_conv_Cons [of i "i + length (ct # cts)"] by (simp del: upt_Suc)
  moreover have "vec_write p buf = (None, buf @ p)" by (simp add: vec_write_def)
  ultimately show ?case using t1(1) Cons.hyps by (simp del: upt_Suc)
qed simp

lemma uploaded_blocks_decrypt:
  assumes "packets_work L" "list_all2 (encrypts (content_upload_keys L W rest nkey ck signer)) ps cts"
  shows "list_all2 (\<lambda>ct p. from_crypto (decrypt_block L ck ct) = Inr p) cts ps"
proof -
  have "from_crypto (decrypt_block L ck ct) = Inr p" if enc: "encrypts (content_upload_keys L W rest nkey ck signer) p ct" for p ct
  proof -
    obtain g g' where "apfst from_crypto (encrypt_block L ck p g) = (Inr ct, g')"
      using enc by (auto simp: encrypts_def content_upload_keys_def)
    then have "encrypt_block L ck p g = (Inr ct, g')"
      by (cases "encrypt_block L ck p g"; cases "fst (encrypt_block L ck p g)") auto
    from block_round_trip [OF assms(1) this, of "[]"] show ?thesis by (simp add: gen_of_def)
  qed
  then show ?thesis using assms(2) by (auto simp: list_all2_conv_all_nth)
qed

lemma read_chunks_exact:
  assumes rd: "\<And>offset len t. ok t \<Longrightarrow> \<exists>t'. rd offset len t = Some (Inr (take (unat len) (drop (unat offset) content)), t') \<and> ok t'"
    and fits: "length content < 2 ^ 64"
  shows "ok t \<Longrightarrow> n \<le> length content \<Longrightarrow>
     \<exists>t'. read_chunks rd vec_write (of_nat (length content)) (of_nat n) (take n content, t) = Some (Inr (), content, t') \<and> ok t'"
proof (induction "length content - n" arbitrary: n t rule: less_induct)
  case less
  have un: "unat (of_nat n :: u64) = n" using less.prems(2) fits by (intro unat_of_nat_u64) simp
  have lt: "(of_nat n :: u64) < of_nat (length content) \<longleftrightarrow> n < length content"
    using less.prems(2) fits by (simp add: u64_of_nat_less)
  show ?case
  proof (cases "n < length content")
    case False
    then show ?thesis using less.prems lt by (subst read_chunks.simps) auto
  next
    case True
    let ?chunk = "take DEFAULT_BLOCK_SIZE (drop n content)"
    have ub: "unat (of_nat DEFAULT_BLOCK_SIZE :: u64) = DEFAULT_BLOCK_SIZE"
      by (rule unat_of_nat_u64) (simp add: DEFAULT_BLOCK_SIZE_def)
    obtain t1 where t1: "rd (of_nat n) (of_nat DEFAULT_BLOCK_SIZE) t = Some (Inr ?chunk, t1)" "ok t1"
      using rd [OF less.prems(1), of "of_nat n" "of_nat DEFAULT_BLOCK_SIZE"] un ub by auto
    have ne: "?chunk \<noteq> []" using True by (simp add: DEFAULT_BLOCK_SIZE_def)
    let ?n = "n + length ?chunk"
    have n': "?n \<le> length content" "length content - ?n < length content - n" using True ne by (auto simp: DEFAULT_BLOCK_SIZE_def)
    have "take n content @ ?chunk = take ?n content" by (simp add: take_add min_def)
    then show ?thesis using less.hyps [OF n'(2) t1(2) n'(1)] t1(1) True lt ne
      by (subst read_chunks.simps) (simp add: vec_write_def)
  qed
qed

section \<open>One outcome per thumbnail\<close>

text \<open>The files of a batch: those reported and those still owed.\<close>

definition batch_files :: "'c thumbnail_batch \<Rightarrow> node_uid multiset" where
  "batch_files b = mset (map ft_file_uid (tn_results b)) + mset_set (fst ` ran (tn_targets b))"

text \<open>Thumbnail ids are told apart by the file they belong to, and every owed one is listed.\<close>

definition batch_ok :: "(string \<Rightarrow> node_uid) \<Rightarrow> 'c thumbnail_batch \<Rightarrow> bool" where
  "batch_ok owner b \<longleftrightarrow> (\<forall>tid u c. tn_targets b tid = Some (u, c) \<longrightarrow> u = owner tid \<and> tid \<in> set (tn_ids b)) \<and>
     inj_on owner (dom (tn_targets b))"

lemma batch_ok_files:
  assumes "batch_ok owner b"
  shows "fst ` ran (tn_targets b) = owner ` dom (tn_targets b)"
proof (intro set_eqI iffI)
  fix u assume "u \<in> fst ` ran (tn_targets b)"
  then obtain tid c where "tn_targets b tid = Some (u, c)" by (auto simp: ran_def)
  then show "u \<in> owner ` dom (tn_targets b)" using assms by (force simp: batch_ok_def)
next
  fix u assume "u \<in> owner ` dom (tn_targets b)"
  then obtain tid p where p: "tn_targets b tid = Some p" "u = owner tid" by auto
  then have "fst p = u" using assms by (cases p) (auto simp: batch_ok_def)
  then show "u \<in> fst ` ran (tn_targets b)" using p(1) by (force simp: ran_def)
qed

lemma batch_ok_finite: "batch_ok owner b \<Longrightarrow> finite (dom (tn_targets b))"
  by (rule finite_subset [of _ "set (tn_ids b)"]) (auto simp: batch_ok_def)

lemma settle_thumbnail_ok:
  assumes "batch_ok owner b"
  shows "batch_ok owner (settle_thumbnail tid r b)" "batch_files (settle_thumbnail tid r b) = batch_files b"
    "dom (tn_targets (settle_thumbnail tid r b)) = dom (tn_targets b) - {tid}" "tn_ids (settle_thumbnail tid r b) = tn_ids b"
proof -
  let ?b = "settle_thumbnail tid r b"
  show d: "dom (tn_targets ?b) = dom (tn_targets b) - {tid}"
    by (auto simp: settle_thumbnail_def report_thumbnail_def split: option.splits)
  show "tn_ids ?b = tn_ids b" by (auto simp: settle_thumbnail_def report_thumbnail_def split: option.splits)
  show ok: "batch_ok owner ?b"
    using assms by (auto simp: settle_thumbnail_def report_thumbnail_def batch_ok_def inj_on_def split: option.splits)
  show "batch_files ?b = batch_files b"
  proof (cases "tn_targets b tid")
    case None
    then show ?thesis by (simp add: settle_thumbnail_def)
  next
    case (Some p)
    obtain u c where uc: "p = (u, c)" by fastforce
    have u: "u = owner tid" and inj: "inj_on owner (dom (tn_targets b))" using assms Some uc by (auto simp: batch_ok_def)
    have "owner ` dom (tn_targets b) = insert u (owner ` (dom (tn_targets b) - {tid}))" using Some u by auto
    moreover have "u \<notin> owner ` (dom (tn_targets b) - {tid})" using inj Some u by (auto simp: inj_on_def)
    ultimately have "mset_set (owner ` dom (tn_targets b)) = add_mset u (mset_set (owner ` (dom (tn_targets b) - {tid})))"
      using batch_ok_finite [OF assms] by simp
    moreover have "tn_results ?b = tn_results b @ [\<lparr>ft_file_uid = u, ft_result = r\<rparr>]"
      using Some uc by (simp add: settle_thumbnail_def report_thumbnail_def)
    ultimately show ?thesis
      unfolding batch_files_def batch_ok_files [OF ok] batch_ok_files [OF assms] d by simp
  qed
qed

lemma fold_settle_ok:
  assumes "batch_ok owner b"
  shows "batch_ok owner (fold (\<lambda>x. settle_thumbnail (f x) (g x)) xs b)"
    "batch_files (fold (\<lambda>x. settle_thumbnail (f x) (g x)) xs b) = batch_files b"
    "dom (tn_targets (fold (\<lambda>x. settle_thumbnail (f x) (g x)) xs b)) = dom (tn_targets b) - f ` set xs"
    "tn_ids (fold (\<lambda>x. settle_thumbnail (f x) (g x)) xs b) = tn_ids b"
  using assms by (induction xs arbitrary: b) (auto simp: settle_thumbnail_ok)

text \<open>What a stage of a batch leaves: the files as before, and some of the owed ones settled.\<close>

definition batch_step :: "(string \<Rightarrow> node_uid) \<Rightarrow> 'c thumbnail_batch \<Rightarrow> string set \<Rightarrow> 'c thumbnail_batch result \<Rightarrow> bool" where
  "batch_step owner b settled r \<longleftrightarrow>
     (\<exists>b'. r = Inr b' \<and> batch_ok owner b' \<and> batch_files b' = batch_files b \<and> tn_ids b' = tn_ids b \<and>
        dom (tn_targets b') \<subseteq> dom (tn_targets b) - settled)"

lemma batch_step_after:
  assumes "batch_step owner b1 sb r" "batch_files b1 = batch_files b" "tn_ids b1 = tn_ids b"
    and "dom (tn_targets b1) \<subseteq> dom (tn_targets b) - sa"
  shows "batch_step owner b (sa \<union> sb) r"
proof -
  obtain b' where b': "r = Inr b'" "batch_ok owner b'" "batch_files b' = batch_files b1" "tn_ids b' = tn_ids b1"
    "dom (tn_targets b') \<subseteq> dom (tn_targets b1) - sb" using assms(1) unfolding batch_step_def by blast
  have "dom (tn_targets b') \<subseteq> dom (tn_targets b) - (sa \<union> sb)" using b'(5) assms(4) by blast
  then show ?thesis unfolding batch_step_def using b' assms(2,3) by auto
qed

lemma fetch_thumbnail_blocks_step:
  assumes fetch: "\<And>url token. op_returns P (on_world (op_call (dn_storage E (dn_http E) url token)))"
  shows "P d \<Longrightarrow> batch_ok owner b \<Longrightarrow>
     op_wp (fetch_thumbnail_blocks E blocks b) (\<lambda>r d'. P d' \<and> batch_step owner b (tk_thumbnail_id ` set blocks) r) d"
proof (induction blocks arbitrary: b d)
  case Nil
  then show ?case by (simp only: fetch_thumbnail_blocks.simps wp) (simp add: batch_step_def)
next
  case (Cons block blocks)
  show ?case
  proof (cases "tn_targets b (tk_thumbnail_id block)")
    case None
    then have "fetch_thumbnail_blocks E (block # blocks) b = fetch_thumbnail_blocks E blocks b" by simp
    moreover have "tk_thumbnail_id block \<notin> dom (tn_targets b)" using None by auto
    ultimately show ?thesis
      using op_wp_mono [OF Cons.IH [OF Cons.prems], where R = "\<lambda>r d'. P d' \<and> batch_step owner b (tk_thumbnail_id ` set (block # blocks)) r"]
      by (fastforce simp: batch_step_def)
  next
    case (Some p)
    obtain u c where uc: "p = (u, c)" by fastforce
    let ?settled = "\<lambda>r. settle_thumbnail (tk_thumbnail_id block) r b"
    have next_ok: "op_wp (fetch_thumbnail_blocks E blocks (?settled r))
        (\<lambda>r d'. P d' \<and> batch_step owner b (tk_thumbnail_id ` set (block # blocks)) r) d1" if "P d1" for r d1
    proof (rule op_wp_mono [OF Cons.IH [OF that settle_thumbnail_ok(1) [OF Cons.prems(2)]]])
      fix q d'
      assume "P d' \<and> batch_step owner (?settled r) (tk_thumbnail_id ` set blocks) q"
      then show "P d' \<and> batch_step owner b (tk_thumbnail_id ` set (block # blocks)) q"
        using settle_thumbnail_ok [OF Cons.prems(2), of "tk_thumbnail_id block" r]
          batch_step_after [where b = b and sa = "{tk_thumbnail_id block}"] by auto
    qed
    have "op_wp (fetch_thumbnail E c block) (\<lambda>r d1. op_wp (fetch_thumbnail_blocks E blocks (?settled r))
        (\<lambda>r d'. P d' \<and> batch_step owner b (tk_thumbnail_id ` set (block # blocks)) r) d1) d"
      unfolding fetch_thumbnail_def
      by (simp only: wp) (rule op_returns_wp [OF fetch Cons.prems(1)], use next_ok in \<open>auto simp: wp split: sum.splits\<close>)
    then show ?thesis using Some uc by (simp only: fetch_thumbnail_blocks.simps option.case prod.case wp sum.case)
  qed
qed

lemma settle_chunk_ok:
  assumes "batch_ok owner b" "dom (tn_targets b) \<inter> tk_thumbnail_id ` set (tl_blocks response) = {}"
  shows "batch_ok owner (settle_chunk response chunk b) \<and> batch_files (settle_chunk response chunk b) = batch_files b \<and>
     tn_ids (settle_chunk response chunk b) = tn_ids b \<and>
     dom (tn_targets (settle_chunk response chunk b)) \<subseteq> dom (tn_targets b) - set chunk"
proof -
  note errs = fold_settle_ok [OF assms(1), of te_thumbnail_id "\<lambda>e. Inl (InvalidOperation (te_error e))" "tl_errors response"]
  note rest = fold_settle_ok [OF errs(1), of "\<lambda>x. x" "\<lambda>_. Inl (InvalidOperation ''thumbnail not found'')"
      "filter (\<lambda>tid. tid \<notin> tk_thumbnail_id ` set (tl_blocks response)) chunk"]
  show ?thesis unfolding settle_chunk_def using rest errs assms(2) by auto
qed

lemma thumbnail_chunks_step:
  assumes fetch: "\<And>url token. op_returns P (on_world (op_call (dn_storage E (dn_http E) url token)))"
    and post: "\<And>path ids. op_returns P (on_world (dn_post_thumbnails E path ids))"
  shows "P d \<Longrightarrow> batch_ok owner b \<Longrightarrow>
     op_wp (thumbnail_chunks E vid cs b) (\<lambda>r d'. P d' \<and> batch_step owner b (set (concat cs)) r) d"
proof (induction cs arbitrary: b d)
  case Nil
  then show ?case by (simp only: thumbnail_chunks.simps wp) (simp add: batch_step_def)
next
  case (Cons c cs)
  have rest: "op_wp (thumbnail_chunks E vid cs b1) (\<lambda>r d'. P d' \<and> batch_step owner b (set (concat (c # cs))) r) d1"
    if "P d1" "batch_ok owner b1" "batch_files b1 = batch_files b" "tn_ids b1 = tn_ids b"
      "dom (tn_targets b1) \<subseteq> dom (tn_targets b) - set c" for b1 d1
    by (rule op_wp_mono [OF Cons.IH [OF that(1,2)]]) (use that batch_step_after [where b = b and sa = "set c"] in auto)
  have failed: "op_wp (thumbnail_chunks E vid cs (fold (\<lambda>tid. settle_thumbnail tid r) c b))
      (\<lambda>r d'. P d' \<and> batch_step owner b (set (concat (c # cs))) r) d1" if "P d1" for r d1
    using fold_settle_ok [OF Cons.prems(2), of "\<lambda>x. x" "\<lambda>_. r" c] that by (intro rest) auto
  have answered: "op_wp (fetch_thumbnail_blocks E (tl_blocks response) b) (\<lambda>q d2. case q of
        Inl e \<Rightarrow> P d2 \<and> batch_step owner b (set (concat (c # cs))) (Inl e)
      | Inr b1 \<Rightarrow> op_wp (thumbnail_chunks E vid cs (settle_chunk response c b1))
          (\<lambda>r d'. P d' \<and> batch_step owner b (set (concat (c # cs))) r) d2) d1" if "P d1" for response d1
  proof (rule op_wp_mono [OF fetch_thumbnail_blocks_step [OF fetch that Cons.prems(2), where blocks = "tl_blocks response"]])
    fix q d2
    assume q: "P d2 \<and> batch_step owner b (tk_thumbnail_id ` set (tl_blocks response)) q"
    then obtain b1 where b1: "q = Inr b1" "batch_ok owner b1" "batch_files b1 = batch_files b" "tn_ids b1 = tn_ids b"
      "dom (tn_targets b1) \<subseteq> dom (tn_targets b) - tk_thumbnail_id ` set (tl_blocks response)" by (auto simp: batch_step_def)
    have "dom (tn_targets b1) \<inter> tk_thumbnail_id ` set (tl_blocks response) = {}" using b1(5) by blast
    then have "batch_ok owner (settle_chunk response c b1) \<and> batch_files (settle_chunk response c b1) = batch_files b1 \<and>
        tn_ids (settle_chunk response c b1) = tn_ids b1 \<and>
        dom (tn_targets (settle_chunk response c b1)) \<subseteq> dom (tn_targets b1) - set c"
      using settle_chunk_ok b1(2) by blast
    moreover from this have "dom (tn_targets (settle_chunk response c b1)) \<subseteq> dom (tn_targets b) - set c" using b1(5) by blast
    ultimately show "case q of Inl e \<Rightarrow> P d2 \<and> batch_step owner b (set (concat (c # cs))) (Inl e)
      | Inr b1 \<Rightarrow> op_wp (thumbnail_chunks E vid cs (settle_chunk response c b1))
          (\<lambda>r d'. P d' \<and> batch_step owner b (set (concat (c # cs))) r) d2"
      using q b1 rest [of d2 "settle_chunk response c b1"] by auto
  qed
  show ?case unfolding thumbnail_chunks.simps op_wp_bind op_wp_try
  proof (rule op_returns_wp [OF post Cons.prems(1)], goal_cases)
    case (1 r d1)
    then show ?case by (cases r) (simp_all only: sum.case op_wp_bind failed answered)
  qed
qed

lemma report_thumbnail_ok:
  assumes "batch_ok owner b"
  shows "batch_ok owner (report_thumbnail u r b)" "batch_files (report_thumbnail u r b) = add_mset u (batch_files b)"
    "tn_targets (report_thumbnail u r b) = tn_targets b"
  using assms by (auto simp: report_thumbnail_def batch_ok_def batch_files_def)

lemma owe_thumbnail_ok:
  assumes ok: "batch_ok owner b" and u: "owner tid = u" and new: "u \<notin> owner ` dom (tn_targets b)"
  shows "batch_ok owner (b\<lparr>tn_targets := (tn_targets b)(tid \<mapsto> (u, c)), tn_ids := List.insert tid (tn_ids b)\<rparr>)"
    "batch_files (b\<lparr>tn_targets := (tn_targets b)(tid \<mapsto> (u, c)), tn_ids := List.insert tid (tn_ids b)\<rparr>) = add_mset u (batch_files b)"
proof -
  let ?b = "b\<lparr>tn_targets := (tn_targets b)(tid \<mapsto> (u, c)), tn_ids := List.insert tid (tn_ids b)\<rparr>"
  have "inj_on owner (insert tid (dom (tn_targets b)))"
    using ok u new by (auto simp: batch_ok_def)
  then show ok': "batch_ok owner ?b" using ok u by (auto simp: batch_ok_def)
  have "mset_set (owner ` insert tid (dom (tn_targets b))) = add_mset u (mset_set (owner ` dom (tn_targets b)))"
    using batch_ok_finite [OF ok] u new by simp
  then show "batch_files ?b = add_mset u (batch_files b)"
    unfolding batch_files_def batch_ok_files [OF ok'] batch_ok_files [OF ok] by simp
qed

text \<open>A thumbnail id belongs to one file, in the states that satisfy \<open>P\<close>.\<close>

definition thumbnail_owner ::
  "('k, 'p, 's, 'c, 'e, 'n, 'w) download_env \<Rightarrow> thumbnail_type \<Rightarrow> bool \<Rightarrow> (('k, 's, 'w) drive \<Rightarrow> bool)
     \<Rightarrow> (string \<Rightarrow> node_uid) \<Rightarrow> bool" where
  "thumbnail_owner E wanted for_photos P owner \<longleftrightarrow>
     (\<forall>uid d c tid d'. P d \<longrightarrow> file_thumbnail_target E uid wanted for_photos d = Some (Inr (c, Some tid), d') \<longrightarrow> owner tid = uid)"

lemma collect_thumbnail_targets_step:
  assumes target: "\<And>uid. op_returns P (file_thumbnail_target E uid wanted for_photos)"
    and owner: "thumbnail_owner E wanted for_photos P owner"
  shows "P d \<Longrightarrow> batch_ok owner b \<Longrightarrow> distinct uids \<Longrightarrow> set uids \<inter> owner ` dom (tn_targets b) = {} \<Longrightarrow>
     op_wp (collect_thumbnail_targets E wanted for_photos uids b)
       (\<lambda>r d'. P d' \<and> (\<exists>b'. r = Inr b' \<and> batch_ok owner b' \<and> batch_files b' = batch_files b + mset uids)) d"
proof (induction uids arbitrary: b d)
  case Nil
  then show ?case by (simp only: collect_thumbnail_targets.simps wp) simp
next
  case (Cons u us)
  have rest: "op_wp (collect_thumbnail_targets E wanted for_photos us b1)
      (\<lambda>r d'. P d' \<and> (\<exists>b'. r = Inr b' \<and> batch_ok owner b' \<and> batch_files b' = batch_files b + mset (u # us))) d1"
    if "P d1" "batch_ok owner b1" "batch_files b1 = add_mset u (batch_files b)"
      "owner ` dom (tn_targets b1) \<subseteq> insert u (owner ` dom (tn_targets b))" for b1 d1
  proof -
    have "set us \<inter> owner ` dom (tn_targets b1) = {}" using that(4) Cons.prems(3,4) unfolding distinct.simps list.set by blast
    moreover have "distinct us" using Cons.prems(3) by simp
    ultimately show ?thesis
      by (intro op_wp_mono [OF Cons.IH [OF that(1,2)]]) (use that(3) in auto)
  qed
  show ?case unfolding collect_thumbnail_targets.simps op_wp_bind op_wp_try
  proof (rule op_returns_wp [OF target Cons.prems(1)], goal_cases)
    case (1 r d1)
    have "batch_ok owner (case r of
            Inr (content_key, Some tid) \<Rightarrow>
              b\<lparr>tn_targets := (tn_targets b)(tid \<mapsto> (u, content_key)), tn_ids := List.insert tid (tn_ids b)\<rparr>
          | Inr (_, None) \<Rightarrow> report_thumbnail u (Inl (InvalidOperation
              (''node '' @ NodeUid_display u @ '' has no thumbnail of the requested type''))) b
          | Inl e \<Rightarrow> report_thumbnail u (Inl e) b) \<and>
        batch_files (case r of
            Inr (content_key, Some tid) \<Rightarrow>
              b\<lparr>tn_targets := (tn_targets b)(tid \<mapsto> (u, content_key)), tn_ids := List.insert tid (tn_ids b)\<rparr>
          | Inr (_, None) \<Rightarrow> report_thumbnail u (Inl (InvalidOperation
              (''node '' @ NodeUid_display u @ '' has no thumbnail of the requested type''))) b
          | Inl e \<Rightarrow> report_thumbnail u (Inl e) b) = add_mset u (batch_files b) \<and>
        owner ` dom (tn_targets (case r of
            Inr (content_key, Some tid) \<Rightarrow>
              b\<lparr>tn_targets := (tn_targets b)(tid \<mapsto> (u, content_key)), tn_ids := List.insert tid (tn_ids b)\<rparr>
          | Inr (_, None) \<Rightarrow> report_thumbnail u (Inl (InvalidOperation
              (''node '' @ NodeUid_display u @ '' has no thumbnail of the requested type''))) b
          | Inl e \<Rightarrow> report_thumbnail u (Inl e) b)) \<subseteq> insert u (owner ` dom (tn_targets b))"
    proof (cases "\<exists>c tid. r = Inr (c, Some tid)")
      case True
      then obtain c tid where r: "r = Inr (c, Some tid)" by blast
      have o: "owner tid = u" using owner Cons.prems(1) 1(1) r unfolding thumbnail_owner_def by blast
      have "u \<notin> owner ` dom (tn_targets b)" using Cons.prems(4) by auto
      from owe_thumbnail_ok [OF Cons.prems(2) o this, of c] o show ?thesis unfolding r by auto
    next
      case False
      then show ?thesis using report_thumbnail_ok [OF Cons.prems(2)] by (auto split: sum.splits option.splits)
    qed
    then show ?case using rest [OF 1(2)] by (simp only: sum.case)
  qed
qed

lemma thumbnail_volumes_total:
  fixes E :: "('k, 'p, 's, 'c, 'e, 'n, 'w) download_env"
  assumes target: "\<And>uid. op_returns P (file_thumbnail_target E uid wanted for_photos)"
    and owner: "thumbnail_owner E wanted for_photos P owner"
    and fetch: "\<And>url token. op_returns P (on_world (op_call (dn_storage E (dn_http E) url token)))"
    and post: "\<And>path ids. op_returns P (on_world (dn_post_thumbnails E path ids))"
    and order: "\<And>ids. set (dn_key_order E ids) = set ids"
  shows "P d \<Longrightarrow> distinct (batch_uids groups) \<Longrightarrow>
     op_wp (thumbnail_volumes E wanted for_photos groups results)
       (\<lambda>r d'. \<exists>outs. r = Inr outs \<and> mset (map ft_file_uid outs) = mset (map ft_file_uid results) + mset (batch_uids groups)) d"
proof (induction groups arbitrary: results d)
  case Nil
  then show ?case by (simp only: thumbnail_volumes.simps wp) (simp add: batch_uids_def)
next
  case (Cons g gs)
  obtain vid ids where g: "g = (vid, ids)" by fastforce
  let ?b0 = "\<lparr>tn_targets = Map.empty, tn_ids = [], tn_results = results\<rparr> :: 'c thumbnail_batch"
  have ok0: "batch_ok owner ?b0" "batch_files ?b0 = mset (map ft_file_uid results)"
    by (simp_all add: batch_ok_def batch_files_def)
  have none: "set (map (NodeUid_new vid) ids) \<inter> owner ` dom (tn_targets ?b0) = {}" by simp
  have uids: "batch_uids (g # gs) = map (NodeUid_new vid) ids @ batch_uids gs" by (simp add: batch_uids_def g)
  have dist: "distinct (map (NodeUid_new vid) ids)" "distinct (batch_uids gs)" using Cons.prems(2) unfolding uids by auto
  have fin: "op_wp (thumbnail_volumes E wanted for_photos gs (tn_results b2))
      (\<lambda>r d'. \<exists>outs. r = Inr outs \<and> mset (map ft_file_uid outs) = mset (map ft_file_uid results) + mset (batch_uids (g # gs))) d2"
    if b1: "batch_ok owner b1" "batch_files b1 = batch_files ?b0 + mset (map (NodeUid_new vid) ids)"
      and b2: "P d2" "batch_step owner b1 (set (concat (chunks MAX_THUMBNAIL_IDS_PER_REQUEST (dn_key_order E (tn_ids b1))))) (Inr b2)"
    for b1 b2 d2
  proof -
    have "0 < MAX_THUMBNAIL_IDS_PER_REQUEST" by (simp add: MAX_THUMBNAIL_IDS_PER_REQUEST_def)
    then have "dom (tn_targets b2) \<subseteq> dom (tn_targets b1) - set (tn_ids b1)"
      using b2(2) order by (simp add: batch_step_def)
    moreover have "dom (tn_targets b1) \<subseteq> set (tn_ids b1)" using b1(1) by (auto simp: batch_ok_def)
    ultimately have "dom (tn_targets b2) = {}" by blast
    then have "mset (map ft_file_uid (tn_results b2)) = mset (map ft_file_uid results) + mset (map (NodeUid_new vid) ids)"
      using b2(2) b1(2) ok0(2) by (auto simp: batch_step_def batch_files_def)
    then show ?thesis
      by (intro op_wp_mono [OF Cons.IH [OF b2(1) dist(2)]]) (auto simp: uids)
  qed
  show ?case unfolding g thumbnail_volumes.simps op_wp_bind
  proof (rule op_wp_mono [OF collect_thumbnail_targets_step [OF target owner Cons.prems(1) ok0(1) dist(1) none]], goal_cases)
    case (1 r d1)
    then obtain b1 where b1: "r = Inr b1" "batch_ok owner b1" "batch_files b1 = batch_files ?b0 + mset (map (NodeUid_new vid) ids)" "P d1"
      by (elim conjE exE) (rule that)
    show ?case unfolding b1(1) sum.case op_wp_bind
    proof (rule op_wp_mono [OF thumbnail_chunks_step [OF fetch post b1(4,2)]], goal_cases)
      case (1 q d2)
      then obtain b2 where b2: "q = Inr b2"
        "batch_step owner b1 (set (concat (chunks MAX_THUMBNAIL_IDS_PER_REQUEST (dn_key_order E (tn_ids b1))))) (Inr b2)" "P d2"
        unfolding batch_step_def by blast
      show ?case unfolding b2(1) sum.case by (rule fin [OF b1(2,3) b2(3,2), unfolded g])
    qed
  qed
qed

text \<open>Grouping by volume rearranges the nodes.\<close>

lemma group_by_volume_mset: "mset (batch_uids (group_by_volume uids)) = mset uids"
proof (rule multiset_eqI)
  fix u
  have "count (mset (filter (\<lambda>x. uid_volume x = uid_volume u) xs)) u = count (mset xs) u" for xs :: "node_uid list"
    by (induction xs) auto
  from this [of "batch_uids (group_by_volume uids)"] this [of uids]
  show "count (mset (batch_uids (group_by_volume uids))) u = count (mset uids) u"
    by (simp only: group_by_volume_uids)
qed

section \<open>The properties\<close>

text \<open>C26: A file downloads to exactly the content that was uploaded, and the manifest the download
  re-derives is the one the upload signed: the blocks the storage serves are the ciphertexts that
  the written revision describes, under the content key that the file's packet opens to.\<close>

theorem download_returns_uploaded_content:
  assumes "describes (content_upload_keys L W rest nkey ck signer) thumbnails content tcts cts written" "packets_work L"
    and "file_access E uid None False d = Some (Inr (nk, ck, rid), d1)"
    and "fetch_revision_blocks E (uid_volume uid) (uid_link uid) rid d1 = Some (Inr (revision, blocks), d2)"
    and "dn_decrypt_block E = (\<lambda>ck b. from_crypto (decrypt_block L ck b))" "df_sha256 (dn_drafts E) = uk_sha256 rest"
    and "thumbnail_digests (df_base64_decode (dn_drafts E)) (sort_by_key tb_thumbnail_type (rev_thumbnails revision))
      = Inr (concat (map (uk_sha256 rest) tcts))"
    and "length blocks = length cts" "serves_blocks ok (ciphertext (block_targets_of E uid rid blocks)) cts"
    and "ok (BlockTargets_new blocks (dv_world d2))"
  shows "(\<exists>d'. download_file E uid d = Some (Inr content, d')) \<and>
     (\<exists>t. write_content_blocks (block_targets_of E uid rid blocks) (dn_decrypt_block E ck) (df_sha256 (dn_drafts E)) vec_write
        [0..<length blocks] (concat (map (uk_sha256 rest) tcts)) ([], BlockTargets_new blocks (dv_world d2))
        = Some (Inr (bw_manifest written), content, t))"
proof -
  let ?K = "content_upload_keys L W rest nkey ck signer"
  have K: "uk_sha256 ?K = uk_sha256 rest" by (simp add: content_upload_keys_def)
  have pos: "0 < DEFAULT_BLOCK_SIZE" by (simp add: DEFAULT_BLOCK_SIZE_def)
  have dec: "list_all2 (\<lambda>ct p. dn_decrypt_block E ck ct = Inr p) cts (chunks DEFAULT_BLOCK_SIZE content)"
    using assms(1) unfolding assms(5) describes_def by (blast intro: uploaded_blocks_decrypt [OF assms(2)])
  have man: "bw_manifest written = concat (map (uk_sha256 rest) tcts) @ concat (map (uk_sha256 rest) cts)"
    using assms(1) by (simp add: describes_def K)
  have "\<exists>t. write_content_blocks (block_targets_of E uid rid blocks) (dn_decrypt_block E ck) (df_sha256 (dn_drafts E)) vec_write
      [0..<0 + length cts] (concat (map (uk_sha256 rest) tcts)) ([], BlockTargets_new blocks (dv_world d2)) =
      Some (Inr (concat (map (uk_sha256 rest) tcts) @ concat (map (df_sha256 (dn_drafts E)) cts)),
        [] @ concat (chunks DEFAULT_BLOCK_SIZE content), t) \<and> ok t"
    using assms(9) by (intro write_content_blocks_exact [where ok = ok, OF _ dec assms(10)]) (simp add: serves_blocks_def)
  then obtain t where t: "write_content_blocks (block_targets_of E uid rid blocks) (dn_decrypt_block E ck) (df_sha256 (dn_drafts E)) vec_write
      [0..<length blocks] (concat (map (uk_sha256 rest) tcts)) ([], BlockTargets_new blocks (dv_world d2))
      = Some (Inr (bw_manifest written), content, t)"
    using pos assms(6,8) man by auto
  have w: "write_blocks_out E vec_write uid rid ck blocks (concat (map (uk_sha256 rest) tcts)) ([], d2) =
      Some (Inr (bw_manifest written), (content, d2\<lparr>dv_world := bt_world t\<rparr>))"
    using t by (simp add: write_blocks_out_def)
  have "\<exists>v w'. verify_manifest E revision nk m w = Some (Inr v, w')" for m w
    by (auto simp: verify_manifest_def Let_def split: option.splits prod.splits)
  then obtain v d3 where v: "on_world (verify_manifest E revision nk (bw_manifest written)) (d2\<lparr>dv_world := bt_world t\<rparr>) = Some (Inr v, d3)"
    by (fastforce simp: on_world_Some)
  have "download_file_to E vec_write uid ([], d) = Some (Inr (), (content, d3))"
    unfolding download_file_to_def using assms(3,4,7) w v by (simp add: op_bind_def beside_def op_then_def)
  then show ?thesis using t by (auto simp: download_file_def collected_def)
qed

text \<open>Downloading a revision through its reader ends and writes the whole content once and in
  order, however the blocks are cut.\<close>

theorem download_revision_complete:
  assumes "open_revision_at E uid rid d = Some (Inr r, d1)" "rr_block_sizes r = map (\<lambda>p. of_nat (length p)) ps"
    and "serves_blocks ok (block_plaintext (block_targets_of E (rr_uid r) (rr_revision_id r) (rr_blocks r))
      (dn_decrypt_block E (rr_content_key r))) ps"
    and "ok (BlockTargets_new (rr_blocks r) (dv_world d1))" "length (concat ps) < 2 ^ 64"
  shows "\<exists>d'. download_revision E uid rid d = Some (Inr (concat ps), d')"
proof -
  have rd: "\<exists>t'. reader_read E r offset len t = Some (Inr (take (unat len) (drop (unat offset) (concat ps))), t') \<and> ok t'"
    if "ok t" for offset len t
    unfolding reader_read_def read_at_def assms(2) by (rule read_at_with_exact [OF assms(3) that assms(5)])
  have all: "sum_list (rr_block_sizes r) = of_nat (length (concat ps))" unfolding assms(2) by (rule sum_list_of_nat_u64)
  obtain t' where "read_chunks (reader_read E r) vec_write (sum_list (rr_block_sizes r)) 0 ([], BlockTargets_new (rr_blocks r) (dv_world d1))
      = Some (Inr (), concat ps, t')"
    using read_chunks_exact [where ok = ok and n = 0 and rd = "reader_read E r" and content = "concat ps", OF rd assms(5,4)]
    unfolding all by auto
  then show ?thesis using assms(1)
    by (auto simp: download_revision_def collected_def download_revision_to_def op_bind_def beside_def)
qed


section \<open>Examples\<close>

text \<open>A server with one file, its revision of one block of five bytes, and its thumbnail.\<close>

definition stored_block :: bytes where
  "stored_block = projr (fst (encrypt_block example_lib example_ck [5, 6, 7, 8, 9] 0))"

definition stored_blocks :: "block_dto list" where
  "stored_blocks = [\<lparr>blk_index = 1, blk_bare_url = ''u'', blk_token = ''k''\<rparr>]"

definition stored_revision :: revision_dto where
  "stored_revision = \<lparr>rev_id = ''rev'', rev_manifest_signature = None, rev_signature_email = None,
     rev_extended_attributes = Some ''x'', rev_thumbnails = [\<lparr>tb_id = Some ''t'', tb_thumbnail_type = 1, tb_hash_digest = None\<rparr>],
     rev_blocks = stored_blocks\<rparr>"

definition stored_file :: link_details_dto where
  "stored_file = (tree_details (LinkId ''r''))\<lparr>ld_file := Some (example_file\<lparr>fi_content_key_packet := Some ''p''\<rparr>)\<rparr>"

definition stored_uid :: node_uid where
  "stored_uid = NodeUid_new (VolumeId ''v'') (LinkId ''r'')"

definition download_drive :: "(string, unit, unit) drive_env" where
  "download_drive = example_drive\<lparr>de_post_links := (\<lambda>path ids. op_return
     (if path = links_path (VolumeId ''v'') False \<and> ids = [LinkId ''r''] then [stored_file] else []))\<rparr>"

definition download_nodes :: "(string, unit, unit, unit) node_env" where
  "download_nodes = (nodes_on download_drive)\<lparr>ne_xattr_verified := (\<lambda>_ _ _. op_return (\<lparr>dx_common = Some
     \<lparr>cx_size = Some 5, cx_modification_time = None, cx_block_sizes = Some [5], cx_sha1 = None\<rparr>, dx_location = None\<rparr>,
     VerificationOk))\<rparr>"

definition download_drafts :: "(string, unit, unit, content_key, nat, unit, unit) draft_env" where
  "download_drafts =
     \<lparr>df_ops = (ops_on download_drive)\<lparr>no_nodes := download_nodes\<rparr>,
      df_generate_node_key_aead = op_fail KeysLocked, df_generate_content_key = (\<lambda>_. op_return example_ck),
      df_to_packet = (\<lambda>_ _. op_return [1]), df_export = (\<lambda>_. Inr [1]), df_decrypt_content_key = (\<lambda>_ _. Inr example_ck),
      df_encrypt_block = (\<lambda>_ b. op_return b), df_base64 = (\<lambda>_. ''b''), df_base64_decode = (\<lambda>_. Inr [1]),
      df_sha256 = take 2, df_sha1_hex = (\<lambda>_. ''00''), df_attributes_json = (\<lambda>_. Inr []), df_conflict = (\<lambda>_. None),
      df_debug_code = (\<lambda>_. ''code''), df_small_file_upload = False, df_now_epoch_seconds = (\<lambda>_. 0),
      df_post_file = (\<lambda>_ _. op_fail KeysLocked), df_post_revision = (\<lambda>_ _. op_fail KeysLocked),
      df_post_small_file = (\<lambda>_ _ _. op_fail KeysLocked), df_post_small_revision = (\<lambda>_ _ _. op_fail KeysLocked),
      df_upload_keys = (\<lambda>a b c. content_upload_keys example_lib example_write_lib example_keys (ex_priv a) b (ex_priv c)),
      df_net = \<lparr>un_verification = (\<lambda>_ w. (Inl KeysLocked, w)), un_blocks = (\<lambda>_ w. (Inl KeysLocked, w)),
        un_storage = (\<lambda>_ _ _ w. (Inl KeysLocked, w)), un_seal = (\<lambda>_ _ w. (Inl KeysLocked, w))\<rparr>,
      df_schedule = [], df_split = (\<lambda>_. (0, ())), df_join = (\<lambda>_ w. w)\<rparr>"

definition download_example :: "(string, unit, unit, content_key, nat, unit, unit) download_env" where
  "download_example =
     \<lparr>dn_drafts = download_drafts, dn_http = example_client, dn_get = (\<lambda>_ _ w. (Inr stored_revision, w)),
      dn_storage = (\<lambda>_ _ _ w. (Inr stored_block, w)), dn_decrypt_block = (\<lambda>ck b. from_crypto (decrypt_block example_lib ck b)),
      dn_decrypt_thumbnail = (\<lambda>_ b. Inr b), dn_verify_private = (\<lambda>_ _ _. VerificationOk), dn_verify_public = (\<lambda>_ _ _. VerificationOk),
      dn_get_revisions = (\<lambda>_. op_return []), dn_get_revision = (\<lambda>_. op_fail KeysLocked), dn_post_restore = (\<lambda>_. op_return ()),
      dn_post_thumbnails = (\<lambda>_ ids. op_return \<lparr>tl_blocks = map (\<lambda>i. \<lparr>tk_thumbnail_id = i, tk_bare_url = ''u'', tk_token = ''k''\<rparr>) ids,
        tl_errors = []\<rparr>),
      dn_key_order = rev\<rparr>"

definition stored_written :: block_write_result where
  "stored_written = \<lparr>bw_manifest = take 2 stored_block, bw_block_sizes = [5], bw_total_size = 5, bw_sha1_hex = ''00''\<rparr>"

lemma stored_block_encrypts:
  "encrypt_block example_lib example_ck [5, 6, 7, 8, 9] 0 = (Inr stored_block, 0)"
  "from_crypto (decrypt_block example_lib example_ck stored_block) = Inr [5, 6, 7, 8, 9]"
  by code_simp+

lemma stored_blocks_served:
  "serves_blocks (\<lambda>t. bt_blocks t = stored_blocks) (ciphertext (block_targets_of download_example stored_uid ''rev'' stored_blocks)) [stored_block]"
  "serves_blocks (\<lambda>t. bt_blocks t = stored_blocks)
     (block_plaintext (block_targets_of download_example stored_uid ''rev'' stored_blocks) (dn_decrypt_block download_example example_ck))
     [[5, 6, 7, 8, 9]]"
  by (simp_all add: serves_blocks_def block_plaintext_def ciphertext_def location_def storage_fetch_def block_targets_of_def
      StaticSession_def download_example_def stored_blocks_def stored_block_encrypts)

lemma stored_block_described:
  "describes (content_upload_keys example_lib example_write_lib example_keys (ex_priv ''1'') example_ck (ex_priv ''1''))
     [] [5, 6, 7, 8, 9] [] [stored_block] stored_written"
proof -
  have "chunks DEFAULT_BLOCK_SIZE [5, 6, 7, 8, 9 :: 8 word] = [[5, 6, 7, 8, 9]]"
    by (subst chunks_step) (simp_all add: DEFAULT_BLOCK_SIZE_def)
  then show ?thesis
    using stored_block_encrypts(1)
    by (auto simp: describes_def stored_written_def content_upload_keys_def encrypts_def example_keys_def intro!: exI [of _ 0])
qed

definition stored_meta :: revision_dto where
  "stored_meta = stored_revision\<lparr>rev_blocks := []\<rparr>"

lemma stored_listing:
  "fetch_revision_blocks download_example vid lid rid d = Some (Inr (stored_meta, stored_blocks), d)"
proof -
  have "list_blocks (StaticSession (dn_http download_example)) (dn_get download_example) vid lid rid w = Some (Inr (stored_meta, stored_blocks), w)" for w
    by (simp add: list_blocks_def transport_get_def with_renewal_def StaticSession_def download_example_def
        fetch_pages.simps PAGE_SIZE_def contiguous_def stored_meta_def stored_revision_def stored_blocks_def)
  then show ?thesis by (simp add: fetch_revision_blocks_def on_world_def)
qed

lemma stored_links:
  "dn_drive download_example = download_drive"
  "get_link_details_ctx download_drive vid ids False example_drive_state =
     Some (Inr (if vid = VolumeId ''v'' \<and> ids = [LinkId ''r''] then [stored_file] else []), example_drive_state)"
proof -
  have path: "links_path vid False = links_path (VolumeId ''v'') False \<longleftrightarrow> vid = VolumeId ''v''"
    by (cases vid) (simp add: links_path_def)
  show "dn_drive download_example = download_drive"
    by (simp add: dn_drive_def df_drive_def no_drive_def download_example_def download_drafts_def ops_on_def download_nodes_def nodes_on_def)
  show "get_link_details_ctx download_drive vid ids False example_drive_state =
     Some (Inr (if vid = VolumeId ''v'' \<and> ids = [LinkId ''r''] then [stored_file] else []), example_drive_state)"
    by (simp add: get_link_details_ctx_def on_world_def download_drive_def path op_bind_def example_drive_state_def drive_state_on_def)
qed

lemma stored_access:
  "file_access download_example stored_uid rid False example_drive_state =
     Some (Inr (link_id_str (LinkId ''r''), example_ck, case rid of Some i \<Rightarrow> i | None \<Rightarrow> ''rev''), example_drive_state)"
proof -
  have key: "resolve_parent_key_ctx download_drive (VolumeId ''v'') (tree_link (LinkId ''r'')) False example_drive_state = Some (Inr ''s'', example_drive_state)"
    by (simp add: resolve_parent_key_ctx_def resolve_parent_key_walk_def op_map_err_def climb.simps op_bind_def root_link_share_key_def root_share_key_def
        tree_link_def example_link_def map_err_def NodeUid_new_def example_drive_state_def drive_state_on_def drive_cache_of_def DriveCache_default_def ensure_my_files_def op_then_def Let_def)
  have sealed: "de_decrypt_link download_drive ''s'' (tree_link (LinkId ''r'')) = Inr (''r'', ''p:name'')"
    by (simp add: download_drive_def example_drive_def drive_on_def tree_link_def example_link_def)
  have stored: "ld_link stored_file = tree_link (LinkId ''r'')"
    "readable_file stored_file = Some (example_file\<lparr>fi_content_key_packet := Some ''p''\<rparr>)"
    by (simp_all add: stored_file_def tree_details_def readable_file_def)
  have crypto: "df_base64_decode (dn_drafts download_example) = (\<lambda>_. Inr [1])" "df_decrypt_content_key (dn_drafts download_example) = (\<lambda>_ _. Inr example_ck)"
    by (simp_all add: download_example_def download_drafts_def)
  have uid: "uid_volume stored_uid = VolumeId ''v''" "uid_link stored_uid = LinkId ''r''"
    by (simp_all add: stored_uid_def NodeUid_new_def)
  show ?thesis
    unfolding file_access_def
    by (cases rid) (simp_all add: op_bind_def stored_links key stored sealed crypto uid example_file_def map_err_def)
qed

theorem download_returns_uploaded_content_witness:
  "\<exists>d'. download_file download_example stored_uid example_drive_state = Some (Inr [5, 6, 7, 8, 9], d')"
proof -
  note run = stored_access [of None, simplified] stored_listing
  show ?thesis
    using download_returns_uploaded_content [OF stored_block_described example_lib_works run, where ok = "\<lambda>t. bt_blocks t = stored_blocks"]
      stored_blocks_served(1)
    by (simp add: download_example_def download_drafts_def example_keys_def stored_meta_def stored_revision_def stored_blocks_def BlockTargets_new_def)
qed

theorem download_revision_complete_witness:
  "\<exists>d'. download_revision download_example stored_uid ''rev'' example_drive_state = Some (Inr (concat [[5, 6, 7, 8, 9]]), d')"
proof (rule download_revision_complete)
  let ?r = "\<lparr>rr_uid = stored_uid, rr_revision_id = ''rev'', rr_content_key = example_ck, rr_blocks = stored_blocks, rr_block_sizes = [5]\<rparr>"
  show "open_revision_at download_example stored_uid ''rev'' example_drive_state = Some (Inr ?r, example_drive_state)"
  proof -
    have "resolve_block_sizes download_example k stored_meta (length stored_blocks) example_drive_state = Some (Inr [5], example_drive_state)" for k
      by (simp add: resolve_block_sizes_def stored_meta_def stored_revision_def op_bind_def op_try_def on_world_def dn_nodes_def
          download_example_def download_drafts_def download_nodes_def rank_block_sizes_def stored_blocks_def example_drive_state_def drive_state_on_def)
    then show ?thesis by (simp add: open_revision_at_def open_revision_inner_def op_bind_def stored_access stored_listing)
  qed
  show "rr_block_sizes ?r = map (\<lambda>p. of_nat (length p)) [[5, 6, 7, 8, 9]]" by simp
  show "serves_blocks (\<lambda>t. bt_blocks t = stored_blocks) (block_plaintext
      (block_targets_of download_example (rr_uid ?r) (rr_revision_id ?r) (rr_blocks ?r)) (dn_decrypt_block download_example (rr_content_key ?r)))
      [[5, 6, 7, 8, 9]]"
    using stored_blocks_served(2) by simp
qed (simp_all add: BlockTargets_new_def)

lemma stored_target:
  "file_thumbnail_target download_example uid TThumbnail False example_drive_state =
     (if uid = stored_uid then Some (Inr (example_ck, Some ''t''), example_drive_state)
      else Some (Inl (InvalidOperation (''file '' @ NodeUid_display uid @ '' not found'')), example_drive_state))"
proof (cases "uid = stored_uid")
  case True
  have "file_thumbnail_target download_example stored_uid TThumbnail False example_drive_state =
      Some (Inr (example_ck, Some ''t''), example_drive_state)"
    using stored_access [of None] by (simp add: file_thumbnail_target_def op_bind_def stored_listing stored_meta_def stored_revision_def)
  then show ?thesis using True by simp
next
  case False
  then have "uid_volume uid = VolumeId ''v'' \<and> [uid_link uid] = [LinkId ''r''] \<longleftrightarrow> False"
    by (cases uid) (auto simp: stored_uid_def NodeUid_new_def)
  then have "get_link_details_ctx download_drive (uid_volume uid) [uid_link uid] False example_drive_state = Some (Inr [], example_drive_state)"
    unfolding stored_links by (simp only: if_False)
  then show ?thesis using False
    by (simp add: file_thumbnail_target_def file_access_def op_bind_def stored_links(1))
qed


end
