(* ===== verification/Photos.thy ===== *)
theory Photos
  imports Sharing Download
begin

text \<open>
  Photos and albums (the photos half of \<open>proton-drive-rs/src/client.rs\<close>): the timeline,
  duplicates, albums, transfers into the timeline or an album, tags, and downloads with the
  photos routing.  \<open>photos_env\<close> is what this uses beyond the node operations.
\<close>

section \<open>Wire types and the interface\<close>

record timeline_photo_dto =
  tpd_id :: link_id
  tpd_capture_time :: int
  tpd_name_hash :: "string option"
  tpd_content_hash :: "string option"

record found_photo_duplicate_dto =
  fpd_name_hash :: string
  fpd_content_hash :: string
  fpd_link_state :: "int option"
  fpd_client_uid :: "string option"
  fpd_link_id :: "link_id option"

record album_creation_link =
  acl_name :: string
  acl_name_hash :: string
  acl_key :: string
  acl_passphrase :: string
  acl_passphrase_signature :: string
  acl_signature_email :: string
  acl_node_hash_key :: string
  acl_extended_attributes :: "string option"

record album_creation_request =
  acr_locked :: bool
  acr_link :: album_creation_link

record album_update_link =
  aul_name :: string
  aul_name_hash :: string
  aul_original_hash :: string
  aul_name_signature_email :: string

record album_update_request =
  aur_cover_link_id :: "link_id option"
  aur_link :: "album_update_link option"

record album_item_dto =
  aid_id :: link_id
  aid_capture_time :: int

record shared_album_dto =
  sad_volume_id :: volume_id
  sad_link_id :: link_id

record add_photo_to_album_entry =
  ape_link_id :: link_id
  ape_name_hash :: string
  ape_name :: string
  ape_name_signature_email :: string
  ape_passphrase :: string
  ape_content_hash :: string

record transfer_photo_link_item =
  tli_link_id :: link_id
  tli_name_hash :: string
  tli_original_name_hash :: string
  tli_name :: string
  tli_passphrase :: string
  tli_content_hash :: string
  tli_passphrase_signature :: "string option"

record transfer_photos_request =
  tpr_parent_link_id :: link_id
  tpr_links :: "transfer_photo_link_item list"
  tpr_name_signature_email :: string
  tpr_signature_email :: "string option"

record photo_link_outcome_body =
  pob_code :: int
  pob_error :: "string option"
  pob_missing :: "link_id list option"

record photo_link_outcome =
  plo_link_id :: link_id
  plo_response :: photo_link_outcome_body

record copy_photo_related_item =
  cri_link_id :: link_id
  cri_name_hash :: string
  cri_name :: string
  cri_passphrase :: string
  cri_content_hash :: string

record copy_photo_content =
  cpc_content_hash :: string
  cpc_related_photos :: "copy_photo_related_item list"

record copy_photo_request =
  cpr_target_volume_id :: volume_id
  cpr_target_parent_link_id :: link_id
  cpr_name_hash :: string
  cpr_name :: string
  cpr_name_signature_email :: string
  cpr_passphrase :: string
  cpr_passphrase_signature :: "string option"
  cpr_signature_email :: "string option"
  cpr_photos :: copy_photo_content

record photos_timeline_item =
  pti_uid :: node_uid
  pti_capture_time :: int

record album_item =
  ali_uid :: node_uid
  ali_capture_time :: int

record photo_tags_update =
  ptu_node_uid :: node_uid
  ptu_tags_to_add :: "photo_tag list"
  ptu_tags_to_remove :: "photo_tag list"

record ('k, 'p, 's, 'w) photos_env =
  pe_ops :: "('k, 'p, 's, 'w) ops_env"
  pe_sha1 :: "bytes \<Rightarrow> string"
  pe_get_timeline :: "string \<Rightarrow> (timeline_photo_dto list, 'w) op"
  pe_post_duplicates :: "string \<Rightarrow> string list \<Rightarrow> (found_photo_duplicate_dto list, 'w) op"
  pe_post_album :: "string \<Rightarrow> album_creation_request \<Rightarrow> (link_id, 'w) op"
  pe_put_album :: "string \<Rightarrow> album_update_request \<Rightarrow> (unit, 'w) op"
  pe_post_remove :: "string \<Rightarrow> link_id list \<Rightarrow> (unit, 'w) op"
  pe_put_transfer :: "string \<Rightarrow> transfer_photos_request \<Rightarrow> (photo_link_outcome list, 'w) op"
  pe_post_add :: "string \<Rightarrow> add_photo_to_album_entry list \<Rightarrow> (photo_link_outcome list, 'w) op"
  pe_post_copy :: "string \<Rightarrow> copy_photo_request \<Rightarrow> (link_id, 'w) op"
  pe_get_albums :: "string \<Rightarrow> (link_id anchored_page, 'w) op"
  pe_get_album_items :: "string \<Rightarrow> (album_item_dto anchored_page, 'w) op"
  pe_get_shared_albums :: "string \<Rightarrow> (shared_album_dto anchored_page, 'w) op"
  pe_post_favorite :: "string \<Rightarrow> (unit, 'w) op"
  pe_post_tags :: "string \<Rightarrow> int list \<Rightarrow> (unit, 'w) op"
  pe_delete_tags :: "string \<Rightarrow> int list \<Rightarrow> (unit, 'w) op"

definition pe_drive :: "('k, 'p, 's, 'w) photos_env \<Rightarrow> ('k, 's, 'w) drive_env" where
  "pe_drive E = no_drive (pe_ops E)"

definition hash_text :: "('k, 'p, 's, 'w) photos_env \<Rightarrow> bytes \<Rightarrow> string \<Rightarrow> string" where
  "hash_text E hash_key text = name_hash_of (pe_ops E) hash_key (as_bytes text)"

definition to_ascii_lowercase :: "string \<Rightarrow> string" where
  "to_ascii_lowercase = map (\<lambda>c. if 65 \<le> (of_char c :: nat) \<and> (of_char c :: nat) \<le> 90 then char_of (of_char c + 32 :: nat) else c)"

definition eq_ignore_ascii_case :: "string \<Rightarrow> string \<Rightarrow> bool" where
  "eq_ignore_ascii_case a b \<longleftrightarrow> to_ascii_lowercase a = to_ascii_lowercase b"

definition photos_root_of :: "('k, 's, 'w) drive \<Rightarrow> node_uid" where
  "photos_root_of d = the (dc_photos_root (drive_cache_of d))"

text \<open>The photos root with its keys, for a call that cannot do without it.\<close>

definition photos_root_keys ::
  "('k, 'p, 's, 'w) photos_env \<Rightarrow> proton_error \<Rightarrow> (node_uid \<times> 'k \<times> bytes, ('k, 's, 'w) drive) op" where
  "photos_root_keys E no_volume =
     op_bind (ensure_photos (pe_drive E)) (\<lambda>exists.
       if \<not> exists then op_fail no_volume
       else
         op_bind (op_get photos_root_of) (\<lambda>root_uid.
         op_bind (folder_node_key (pe_drive E) root_uid) (\<lambda>root_key.
         op_bind (parent_hash_key_ctx (pe_drive E) root_uid root_key True) (\<lambda>hash_key.
           op_return (root_uid, root_key, hash_key)))))"

section \<open>The timeline and duplicates\<close>

definition TIMELINE_PAGE_SIZE :: nat where "TIMELINE_PAGE_SIZE = 500"

definition timeline_path :: "volume_id \<Rightarrow> link_id option \<Rightarrow> string" where
  "timeline_path vid anchor = ''volumes/'' @ volume_id_str vid @ ''/photos'' @
     (case anchor of Some a \<Rightarrow> ''?PreviousPageLastLinkID='' @ link_id_str a | None \<Rightarrow> [])"

partial_function (option) timeline_pages ::
  "('k, 'p, 's, 'w) photos_env \<Rightarrow> volume_id \<Rightarrow> link_id option \<Rightarrow> photos_timeline_item list \<Rightarrow> ('k, 's, 'w) drive
     \<Rightarrow> (photos_timeline_item list result \<times> ('k, 's, 'w) drive) option" where
  [code]: "timeline_pages E vid anchor items d =
     op_bind (on_world (pe_get_timeline E (timeline_path vid anchor)))
       (\<lambda>photos d1.
          if length photos \<noteq> TIMELINE_PAGE_SIZE
          then Some (Inr (items @ map (\<lambda>p. \<lparr>pti_uid = NodeUid_new vid (tpd_id p), pti_capture_time = tpd_capture_time p\<rparr>) photos), d1)
          else timeline_pages E vid (Some (tpd_id (last photos)))
                 (items @ map (\<lambda>p. \<lparr>pti_uid = NodeUid_new vid (tpd_id p), pti_capture_time = tpd_capture_time p\<rparr>) photos) d1) d"

definition enumerate_photos_timeline ::
  "('k, 'p, 's, 'w) photos_env \<Rightarrow> (photos_timeline_item list, ('k, 's, 'w) drive) op" where
  "enumerate_photos_timeline E =
     op_bind (ensure_photos (pe_drive E)) (\<lambda>exists.
       if \<not> exists then op_return []
       else op_bind (op_get (\<lambda>d. uid_volume (photos_root_of d))) (\<lambda>vid. timeline_pages E vid None []))"

definition ACTIVE_LINK_STATE :: int where "ACTIVE_LINK_STATE = 1"

definition DUPLICATE_BATCH :: nat where "DUPLICATE_BATCH = 150"

definition duplicates_path :: "node_uid \<Rightarrow> string" where
  "duplicates_path root_uid = ''volumes/'' @ volume_id_str (uid_volume root_uid) @ ''/photos/duplicates''"

definition is_candidate :: "found_photo_duplicate_dto \<Rightarrow> bool" where
  "is_candidate f \<longleftrightarrow> fpd_link_id f \<noteq> None \<and> fpd_link_state f = Some ACTIVE_LINK_STATE \<and> fpd_name_hash f \<noteq> [] \<and> fpd_content_hash f \<noteq> []"

definition find_photo_duplicates ::
  "('k, 'p, 's, 'w) photos_env \<Rightarrow> string \<Rightarrow> bytes \<Rightarrow> (node_uid list, ('k, 's, 'w) drive) op" where
  "find_photo_duplicates E name contents =
     op_bind (photos_root_keys E no_photos_volume) (\<lambda>(root_uid, _, hash_key).
     let name_hash = hash_text E hash_key name in
     op_bind (on_world (pe_post_duplicates E (duplicates_path root_uid) [name_hash])) (\<lambda>found.
     let candidates = filter is_candidate found in
       if candidates = [] then op_return []
       else
         let content_hash = hash_text E hash_key (pe_sha1 E contents) in
         op_return (map (\<lambda>f. NodeUid_new (uid_volume root_uid) (the (fpd_link_id f)))
           (filter (\<lambda>f. eq_ignore_ascii_case (fpd_name_hash f) name_hash \<and>
                        eq_ignore_ascii_case (fpd_content_hash f) content_hash) candidates))))"

text \<open>The name hashes asked for, each once and in order, with the positions of the inputs that have it.\<close>

fun index_hashes ::
  "nat \<Rightarrow> string list \<Rightarrow> (string \<rightharpoonup> nat list) \<times> string list \<Rightarrow> (string \<rightharpoonup> nat list) \<times> string list" where
  "index_hashes i [] st = st"
| "index_hashes i (h # hs) (positions, names) =
     index_hashes (Suc i) hs
       (case positions h of
          None \<Rightarrow> (positions(h \<mapsto> [i]), names @ [h])
        | Some is \<Rightarrow> (positions(h \<mapsto> is @ [i]), names))"

definition match_duplicate ::
  "volume_id \<Rightarrow> (string \<rightharpoonup> nat list) \<Rightarrow> string list \<Rightarrow> found_photo_duplicate_dto \<Rightarrow> node_uid list list \<Rightarrow> node_uid list list" where
  "match_duplicate vid positions content_hashes f out =
     (if \<not> is_candidate f then out
      else
        (case positions (to_ascii_lowercase (fpd_name_hash f)) of
           None \<Rightarrow> out
         | Some is \<Rightarrow>
             fold (\<lambda>i out. if eq_ignore_ascii_case (fpd_content_hash f) (content_hashes ! i)
                           then out[i := (out ! i) @ [NodeUid_new vid (the (fpd_link_id f))]] else out) is out))"

fun duplicate_batches ::
  "('k, 'p, 's, 'w) photos_env \<Rightarrow> node_uid \<Rightarrow> (found_photo_duplicate_dto \<Rightarrow> 'o \<Rightarrow> 'o) \<Rightarrow> string list list \<Rightarrow> 'o
     \<Rightarrow> ('o, ('k, 's, 'w) drive) op" where
  "duplicate_batches E root_uid enter [] out = op_return out"
| "duplicate_batches E root_uid enter (chunk # rest) out =
     op_bind (on_world (pe_post_duplicates E (duplicates_path root_uid) chunk)) (\<lambda>found.
       duplicate_batches E root_uid enter rest (fold enter found out))"

definition find_photo_duplicates_many ::
  "('k, 'p, 's, 'w) photos_env \<Rightarrow> (string \<times> string) list \<Rightarrow> (node_uid list list, ('k, 's, 'w) drive) op" where
  "find_photo_duplicates_many E items =
     (if items = [] then op_return []
      else
        op_bind (photos_root_keys E no_photos_volume) (\<lambda>(root_uid, _, hash_key).
        case index_hashes 0 (map (\<lambda>(name, _). hash_text E hash_key name) items) (Map.empty, []) of
          (positions, names) \<Rightarrow>
            let content_hashes = map (\<lambda>(_, sha1). hash_text E hash_key (to_ascii_lowercase sha1)) items in
            duplicate_batches E root_uid (match_duplicate (uid_volume root_uid) positions content_hashes)
              (chunks DUPLICATE_BATCH names) (replicate (length items) [])))"

definition match_collision :: "(string \<rightharpoonup> nat list) \<Rightarrow> found_photo_duplicate_dto \<Rightarrow> bool list \<Rightarrow> bool list" where
  "match_collision positions f out =
     (if fpd_link_id f = None \<or> fpd_link_state f \<noteq> Some ACTIVE_LINK_STATE then out
      else
        (case positions (to_ascii_lowercase (fpd_name_hash f)) of
           None \<Rightarrow> out
         | Some is \<Rightarrow> fold (\<lambda>i out. out[i := True]) is out))"

definition photo_name_collisions ::
  "('k, 'p, 's, 'w) photos_env \<Rightarrow> string list \<Rightarrow> (bool list, ('k, 's, 'w) drive) op" where
  "photo_name_collisions E names =
     (if names = [] then op_return []
      else
        op_bind (photos_root_keys E no_photos_volume) (\<lambda>(root_uid, _, hash_key).
        case index_hashes 0 (map (hash_text E hash_key) names) (Map.empty, []) of
          (positions, asked) \<Rightarrow>
            duplicate_batches E root_uid (match_collision positions) (chunks DUPLICATE_BATCH asked) (replicate (length names) False)))"

section \<open>Albums\<close>

definition album_path :: "node_uid \<Rightarrow> string \<Rightarrow> string" where
  "album_path uid post =
     ''photos/volumes/'' @ volume_id_str (uid_volume uid) @ ''/albums/'' @ link_id_str (uid_link uid) @ post"

definition albums_path :: "volume_id \<Rightarrow> string" where
  "albums_path vid = ''photos/volumes/'' @ volume_id_str vid @ ''/albums''"

definition create_album :: "('k, 'p, 's, 'w) photos_env \<Rightarrow> string \<Rightarrow> (node_uid, ('k, 's, 'w) drive) op" where
  "create_album E name =
     op_then (op_of (validate_node_name name))
     (op_bind (photos_root_keys E no_photos_volume) (\<lambda>(root_uid, root_key, root_hash_key).
      op_bind (photos_membership_address (pe_drive E)) (\<lambda>(_, email, signing_key).
      op_bind (on_world (no_generate_node_key (pe_ops E))) (\<lambda>(key, passphrase, locked).
      op_bind (on_world (no_generate_hash_key (pe_ops E) key)) (\<lambda>node_hash_key.
      op_bind (on_world (no_encrypt_and_sign (pe_ops E) root_key signing_key (as_bytes name) True False)) (\<lambda>encrypted_name.
      op_bind (on_world (no_encrypt (pe_ops E) root_key passphrase)) (\<lambda>encrypted_passphrase.
      op_bind (on_world (no_sign (pe_ops E) signing_key passphrase)) (\<lambda>signature.
      op_bind (on_world (pe_post_album E (albums_path (uid_volume root_uid))
          \<lparr>acr_locked = False, acr_link =
             \<lparr>acl_name = encrypted_name, acl_name_hash = hash_text E root_hash_key name, acl_key = locked,
              acl_passphrase = encrypted_passphrase, acl_passphrase_signature = signature, acl_signature_email = email,
              acl_node_hash_key = node_hash_key, acl_extended_attributes = None\<rparr>\<rparr>)) (\<lambda>link_id.
        op_return (NodeUid_new (uid_volume root_uid) link_id))))))))))"

definition album_not_found :: "node_uid \<Rightarrow> proton_error" where
  "album_not_found uid = InvalidOperation (''album '' @ NodeUid_display uid @ '' not found'')"

definition rename_album ::
  "('k, 'p, 's, 'w) photos_env \<Rightarrow> node_uid \<Rightarrow> string \<Rightarrow> (unit, ('k, 's, 'w) drive) op" where
  "rename_album E album_uid name =
     op_then (op_of (validate_node_name name))
     (op_bind (get_link_details_ctx (pe_drive E) (uid_volume album_uid) [uid_link album_uid] True) (\<lambda>links.
      op_bind (op_ok_or (album_not_found album_uid) (case links of [] \<Rightarrow> None | d # _ \<Rightarrow> Some (ld_link d))) (\<lambda>link.
      op_bind (op_ok_or (InvalidOperation ''an album has a parent'') (l_parent_id link)) (\<lambda>parent_id.
      let parent = NodeUid_new (uid_volume album_uid) parent_id in
      op_bind (folder_node_key (pe_drive E) parent) (\<lambda>parent_key.
      op_bind (parent_hash_key_ctx (pe_drive E) parent parent_key True) (\<lambda>hash_key.
      op_bind (photos_membership_address (pe_drive E)) (\<lambda>(_, email, signing_key).
      op_bind (original_name_hash (pe_ops E) album_uid link parent_key hash_key) (\<lambda>original_hash.
      op_bind (on_world (no_encrypt_and_sign (pe_ops E) parent_key signing_key (as_bytes name) True False)) (\<lambda>encrypted_name.
        on_world (pe_put_album E (album_path album_uid [])
          \<lparr>aur_cover_link_id = None, aur_link = Some
             \<lparr>aul_name = encrypted_name, aul_name_hash = hash_text E hash_key name, aul_original_hash = original_hash,
              aul_name_signature_email = email\<rparr>\<rparr>))))))))))"

definition set_album_cover ::
  "('k, 'p, 's, 'w) photos_env \<Rightarrow> node_uid \<Rightarrow> node_uid \<Rightarrow> (unit, ('k, 's, 'w) drive) op" where
  "set_album_cover E album_uid cover_uid =
     (if uid_volume cover_uid \<noteq> uid_volume album_uid
      then op_fail (InvalidOperation ''the cover photo must be on the same volume as the album'')
      else on_world (pe_put_album E (album_path album_uid []) \<lparr>aur_cover_link_id = Some (uid_link cover_uid), aur_link = None\<rparr>))"

definition delete_album ::
  "('k, 'p, 's, 'w) photos_env \<Rightarrow> node_uid \<Rightarrow> bool \<Rightarrow> (unit, ('k, 's, 'w) drive) op" where
  "delete_album E album_uid delete_photos =
     on_world (no_delete (pe_ops E) (album_path album_uid (''?DeleteAlbumPhotos='' @ (if delete_photos then ''1'' else ''0''))))"

text \<open>The node uids a detail field of an error lists.\<close>

definition listed_links :: "string \<Rightarrow> proton_api_error \<Rightarrow> volume_id \<Rightarrow> node_uid list" where
  "listed_links key e vid =
     (case Option.bind (Option.bind (ae_details e) (\<lambda>j. json_get j key)) json_as_array of
        None \<Rightarrow> []
      | Some links \<Rightarrow> map (\<lambda>s. NodeUid_new vid (LinkId s)) (List.map_filter json_as_str links))"

definition photos_only_in_album :: "proton_api_error \<Rightarrow> volume_id \<Rightarrow> node_uid list" where
  "photos_only_in_album = listed_links ''ChildLinkIDs''"

definition missing_related_links :: "proton_api_error \<Rightarrow> volume_id \<Rightarrow> node_uid list" where
  "missing_related_links = listed_links ''Missing''"

definition REMOVE_BATCH :: nat where "REMOVE_BATCH = 10"

definition other_volume :: proton_error where
  "other_volume = InvalidOperation ''the photo must be on the same volume as the album''"

fun remove_batches ::
  "('k, 'p, 's, 'w) photos_env \<Rightarrow> node_uid \<Rightarrow> node_uid list \<Rightarrow> nat list list \<Rightarrow> unit result option list
     \<Rightarrow> (unit result option list, ('k, 's, 'w) drive) op" where
  "remove_batches E album_uid uids [] results = op_return results"
| "remove_batches E album_uid uids (batch # rest) results =
     op_bind (op_try (on_world (pe_post_remove E (album_path album_uid ''/remove-multiple'') (map (\<lambda>i. uid_link (uids ! i)) batch)))) (\<lambda>r.
       remove_batches E album_uid uids rest
         (fold (\<lambda>i rs. rs[i := Some (case r of Inr _ \<Rightarrow> Inr () | Inl e \<Rightarrow> Inl (InvalidOperation (de_display (pe_drive E) e)))])
            batch results))"

definition remove_photos_from_album ::
  "('k, 'p, 's, 'w) photos_env \<Rightarrow> node_uid \<Rightarrow> node_uid list \<Rightarrow> (move_outcome list, ('k, 's, 'w) drive) op" where
  "remove_photos_from_album E album_uid uids =
     (let results = map (\<lambda>u. if uid_volume u \<noteq> uid_volume album_uid then Some (Inl other_volume) else None) uids;
          sendable = filter (\<lambda>i. results ! i = None) [0..<length uids] in
      op_bind (remove_batches E album_uid uids (chunks REMOVE_BATCH sendable) results) (\<lambda>done_results.
        op_return (zip uids (map the done_results))))"

section \<open>Transfers\<close>

datatype photo_transfer_kind = TransferTimeline | TransferAlbum

record 'k photo_transfer_target =
  ptt_uid :: node_uid
  ptt_kind :: photo_transfer_kind
  ptt_key :: 'k
  ptt_hash_key :: bytes
  ptt_email :: string
  ptt_signing_key :: 'k

record photo_parts =
  php_uid :: node_uid
  php_parent_uid :: "node_uid option"
  php_original_name_hash :: "string option"
  php_name_hash :: string
  php_name :: string
  php_name_signature_email :: string
  php_passphrase :: string
  php_content_hash :: string

text \<open>A photo re-encrypted for a target with its related photos, which have none themselves.\<close>

record photo_payload =
  ptp_photo :: photo_parts
  ptp_related :: "photo_parts list"

definition photo_not_found :: "node_uid \<Rightarrow> proton_error" where
  "photo_not_found uid = InvalidOperation (''photo '' @ NodeUid_display uid @ '' not found'')"

definition photo_target_payload ::
  "('k, 'p, 's, 'w) photos_env \<Rightarrow> node_uid \<Rightarrow> 'k photo_transfer_target \<Rightarrow> (photo_parts, ('k, 's, 'w) drive) op" where
  "photo_target_payload E uid tg =
     op_bind (get_photos_node (no_nodes (pe_ops E)) uid) (\<lambda>found.
     op_bind (op_ok_or (photo_not_found uid) found) (\<lambda>nd.
     op_bind (op_ok_or (InvalidOperation (NodeUid_display uid @ '' is not a photo file''))
                (case n_kind nd of KFile fk \<Rightarrow> Some fk | KFolder \<Rightarrow> None)) (\<lambda>fk.
     op_bind (op_ok_or (InvalidOperation (''photo '' @ NodeUid_display uid
                @ '' has no content digest; it cannot be re-encrypted for another node'')) (fk_content_sha1 fk)) (\<lambda>sha1.
     op_bind (get_link_details_ctx (pe_drive E) (uid_volume uid) [uid_link uid] True) (\<lambda>links.
     op_bind (op_ok_or (photo_not_found uid) (case links of [] \<Rightarrow> None | d # _ \<Rightarrow> Some (ld_link d))) (\<lambda>link.
     op_bind (resolve_parent_key_ctx (pe_drive E) (uid_volume uid) link True) (\<lambda>parent_key.
     op_bind (on_world (no_rewrap (pe_ops E) parent_key (l_passphrase link) (ptt_key tg))) (\<lambda>passphrase.
     op_bind (on_world (no_encrypt_and_sign (pe_ops E) (ptt_key tg) (ptt_signing_key tg) (as_bytes (n_name nd)) True False)) (\<lambda>name.
       op_return
         \<lparr>php_uid = uid, php_parent_uid = map_option (NodeUid_new (uid_volume uid)) (l_parent_id link),
          php_original_name_hash = l_name_hash link, php_name_hash = hash_text E (ptt_hash_key tg) (n_name nd),
          php_name = name, php_name_signature_email = ptt_email tg, php_passphrase = passphrase,
          php_content_hash = hash_text E (ptt_hash_key tg) (to_ascii_lowercase sha1)\<rparr>)))))))))"

text \<open>The related photos to send along; one that cannot be built is left out.\<close>

definition merge_related :: "node_uid list \<Rightarrow> node_uid list \<Rightarrow> node_uid list" where
  "merge_related declared extra = fold (\<lambda>u rs. if u \<in> set rs then rs else rs @ [u]) extra declared"

definition transfer_photo_payload ::
  "('k, 'p, 's, 'w) photos_env \<Rightarrow> node_uid \<Rightarrow> node_uid list \<Rightarrow> 'k photo_transfer_target
     \<Rightarrow> (photo_payload, ('k, 's, 'w) drive) op" where
  "transfer_photo_payload E uid extra_related tg =
     op_bind (photo_target_payload E uid tg) (\<lambda>parts.
     if php_parent_uid parts = Some (ptt_uid tg)
     then op_fail (InvalidOperation (''photo '' @ NodeUid_display uid @ '' is already in the timeline''))
     else
       op_bind (get_photos_node (no_nodes (pe_ops E)) uid) (\<lambda>found.
       op_bind (op_ok_or (photo_not_found uid) found) (\<lambda>nd.
       op_bind (load_each (\<lambda>u. photo_target_payload E u tg)
           (merge_related (case n_photo nd of Some p \<Rightarrow> pp_related_photo_uids p | None \<Rightarrow> []) extra_related) []) (\<lambda>related.
         op_return \<lparr>ptp_photo = parts, ptp_related = related\<rparr>))))"

text \<open>A transfer under way: the photos still to send, with the related photos the server asked
  for, the photos that had their second attempt, and the outcomes.\<close>

record transfer =
  tr_queue :: "(node_uid \<times> node_uid list) list"
  tr_retried :: "node_uid set"
  tr_outcomes :: "move_outcome list"

definition tr_report :: "node_uid \<Rightarrow> unit result \<Rightarrow> transfer \<Rightarrow> transfer" where
  "tr_report uid r tr = tr\<lparr>tr_outcomes := tr_outcomes tr @ [(uid, r)]\<rparr>"

definition record_transfer_outcome ::
  "node_uid \<Rightarrow> (node_uid list \<times> proton_error) option \<Rightarrow> transfer \<Rightarrow> transfer" where
  "record_transfer_outcome uid failure tr =
     (case failure of
        None \<Rightarrow> tr_report uid (Inr ()) tr
      | Some (missing, e) \<Rightarrow>
          if missing \<noteq> [] \<and> uid \<notin> tr_retried tr
          then tr\<lparr>tr_queue := tr_queue tr @ [(uid, missing)], tr_retried := insert uid (tr_retried tr)\<rparr>
          else tr_report uid (Inl e) tr)"

definition missing_related_photos_error :: "node_uid list \<Rightarrow> proton_error" where
  "missing_related_photos_error missing =
     InvalidOperation (''server wants related photos sent with it: '' @ join_with '', '' (map NodeUid_display missing))"

definition SUCCESS_CODE :: int where "SUCCESS_CODE = 1000"

fun transfer_failures ::
  "volume_id \<Rightarrow> photo_link_outcome list \<Rightarrow> (string \<rightharpoonup> node_uid list \<times> proton_error) \<Rightarrow> string \<rightharpoonup> node_uid list \<times> proton_error" where
  "transfer_failures vid [] failures = failures"
| "transfer_failures vid (out # outs) failures =
     (let body = plo_response out in
      if pob_code body = SUCCESS_CODE \<and> pob_error body = None then transfer_failures vid outs failures
      else
        let missing = map (NodeUid_new vid) (case pob_missing body of Some ids \<Rightarrow> ids | None \<Rightarrow> []);
            e = (if missing = [] then InvalidOperation (case pob_error body of
                     Some m \<Rightarrow> m | None \<Rightarrow> ''transfer failed with code '' @ int_to_string (pob_code body))
                 else missing_related_photos_error missing) in
        transfer_failures vid outs (failures(link_id_str (plo_link_id out) \<mapsto> (missing, e))))"

fun record_sent ::
  "(string \<rightharpoonup> node_uid list \<times> proton_error) \<Rightarrow> photo_payload list \<Rightarrow> transfer \<Rightarrow> transfer" where
  "record_sent failures [] tr = tr"
| "record_sent failures (p # ps) tr =
     (let uid = php_uid (ptp_photo p); key = link_id_str (uid_link uid) in
      record_sent (failures(key := None)) ps (record_transfer_outcome uid (failures key) tr))"

definition record_transfer_outcomes ::
  "'k photo_transfer_target \<Rightarrow> photo_link_outcome list \<Rightarrow> photo_payload list \<Rightarrow> transfer \<Rightarrow> transfer" where
  "record_transfer_outcomes tg responses sent tr =
     record_sent (transfer_failures (uid_volume (ptt_uid tg)) responses Map.empty) sent tr"

definition album_entry :: "photo_parts \<Rightarrow> add_photo_to_album_entry" where
  "album_entry p =
     \<lparr>ape_link_id = uid_link (php_uid p), ape_name_hash = php_name_hash p, ape_name = php_name p,
      ape_name_signature_email = php_name_signature_email p, ape_passphrase = php_passphrase p,
      ape_content_hash = php_content_hash p\<rparr>"

definition transfer_link_item :: "photo_parts \<Rightarrow> transfer_photo_link_item option" where
  "transfer_link_item p =
     map_option (\<lambda>original. \<lparr>tli_link_id = uid_link (php_uid p), tli_name_hash = php_name_hash p,
       tli_original_name_hash = original, tli_name = php_name p, tli_passphrase = php_passphrase p,
       tli_content_hash = php_content_hash p, tli_passphrase_signature = None\<rparr>) (php_original_name_hash p)"

text \<open>The links of the payloads that can be moved, those payloads, and the outcome of the others.\<close>

fun transfer_links ::
  "photo_payload list \<Rightarrow> transfer_photo_link_item list \<Rightarrow> photo_payload list \<Rightarrow> transfer
     \<Rightarrow> transfer_photo_link_item list \<times> photo_payload list \<times> transfer" where
  "transfer_links [] links sent tr = (links, sent, tr)"
| "transfer_links (p # ps) links sent tr =
     (case those (map transfer_link_item (ptp_photo p # ptp_related p)) of
        Some items \<Rightarrow> transfer_links ps (links @ items) (sent @ [p]) tr
      | None \<Rightarrow> transfer_links ps links sent (tr_report (php_uid (ptp_photo p))
          (Inl (InvalidOperation (''photo '' @ NodeUid_display (php_uid (ptp_photo p)) @
             '' has no name hash on its current parent; it cannot be moved''))) tr))"

definition transfer_photo_batch ::
  "('k, 'p, 's, 'w) photos_env \<Rightarrow> 'k photo_transfer_target \<Rightarrow> photo_payload list \<Rightarrow> transfer \<Rightarrow> (transfer, ('k, 's, 'w) drive) op" where
  "transfer_photo_batch E tg payloads tr =
     (case ptt_kind tg of
        TransferTimeline \<Rightarrow>
          (case transfer_links payloads [] [] tr of
             (links, sent, tr1) \<Rightarrow>
               if links = [] then op_return tr1
               else
                 op_bind (on_world (pe_put_transfer E
                     (''photos/volumes/'' @ volume_id_str (uid_volume (ptt_uid tg)) @ ''/links/transfer-multiple'')
                     \<lparr>tpr_parent_link_id = uid_link (ptt_uid tg), tpr_links = links, tpr_name_signature_email = ptt_email tg,
                      tpr_signature_email = None\<rparr>)) (\<lambda>responses.
                   op_return (record_transfer_outcomes tg responses sent tr1)))
      | TransferAlbum \<Rightarrow>
          op_bind (on_world (pe_post_add E (album_path (ptt_uid tg) ''/add-multiple'')
              (map album_entry (concat (map (\<lambda>p. ptp_photo p # ptp_related p) payloads))))) (\<lambda>responses.
            op_return (record_transfer_outcomes tg responses payloads tr)))"

definition copy_request :: "'k photo_transfer_target \<Rightarrow> photo_payload \<Rightarrow> copy_photo_request" where
  "copy_request tg payload =
     (let p = ptp_photo payload in
      \<lparr>cpr_target_volume_id = uid_volume (ptt_uid tg), cpr_target_parent_link_id = uid_link (ptt_uid tg),
       cpr_name_hash = php_name_hash p, cpr_name = php_name p, cpr_name_signature_email = php_name_signature_email p,
       cpr_passphrase = php_passphrase p, cpr_passphrase_signature = None, cpr_signature_email = None,
       cpr_photos = \<lparr>cpc_content_hash = php_content_hash p, cpc_related_photos =
         map (\<lambda>r. \<lparr>cri_link_id = uid_link (php_uid r), cri_name_hash = php_name_hash r, cri_name = php_name r,
           cri_passphrase = php_passphrase r, cri_content_hash = php_content_hash r\<rparr>) (ptp_related payload)\<rparr>\<rparr>)"

definition copy_failure :: "volume_id \<Rightarrow> link_id result \<Rightarrow> (node_uid list \<times> proton_error) option" where
  "copy_failure vid r =
     (case r of
        Inr _ \<Rightarrow> None
      | Inl (Api e) \<Rightarrow>
          let missing = missing_related_links e vid in
          Some (missing, if missing = [] then Api e else missing_related_photos_error missing)
      | Inl e \<Rightarrow> Some ([], e))"

definition copy_photo_to_target ::
  "('k, 'p, 's, 'w) photos_env \<Rightarrow> 'k photo_transfer_target \<Rightarrow> photo_payload \<Rightarrow> transfer \<Rightarrow> (transfer, ('k, 's, 'w) drive) op" where
  "copy_photo_to_target E tg payload tr =
     (let uid = php_uid (ptp_photo payload) in
      op_bind (op_try (on_world (pe_post_copy E (link_path [] uid ''/copy'') (copy_request tg payload)))) (\<lambda>r.
        op_return (record_transfer_outcome uid (copy_failure (uid_volume uid) r) tr)))"

definition LOAD_BATCH :: nat where "LOAD_BATCH = 20"

definition MAX_LINKS_PER_TRANSFER :: nat where "MAX_LINKS_PER_TRANSFER = 10"

text \<open>Takes up to \<open>n\<close> photos off the queue: those on the target's volume, those elsewhere.\<close>

fun load_payloads ::
  "('k, 'p, 's, 'w) photos_env \<Rightarrow> 'k photo_transfer_target \<Rightarrow> nat \<Rightarrow> photo_payload list \<Rightarrow> photo_payload list
     \<Rightarrow> transfer \<Rightarrow> (photo_payload list \<times> photo_payload list \<times> transfer, ('k, 's, 'w) drive) op" where
  "load_payloads E tg 0 same cross tr = op_return (same, cross, tr)"
| "load_payloads E tg (Suc n) same cross tr =
     (case tr_queue tr of
        [] \<Rightarrow> op_return (same, cross, tr)
      | (uid, extra) # queue \<Rightarrow>
          op_bind (op_try (transfer_photo_payload E uid extra tg)) (\<lambda>r.
          case r of
            Inr p \<Rightarrow>
              if uid_volume (php_uid (ptp_photo p)) = uid_volume (ptt_uid tg)
              then load_payloads E tg n (same @ [p]) cross (tr\<lparr>tr_queue := queue\<rparr>)
              else load_payloads E tg n same (cross @ [p]) (tr\<lparr>tr_queue := queue\<rparr>)
          | Inl e \<Rightarrow> load_payloads E tg n same cross (tr_report uid (Inl e) (tr\<lparr>tr_queue := queue\<rparr>))))"

definition link_count :: "photo_payload \<Rightarrow> nat" where
  "link_count p = 1 + length (ptp_related p)"

text \<open>A photo and its related photos go in one request.\<close>

fun transfer_batches ::
  "('k, 'p, 's, 'w) photos_env \<Rightarrow> 'k photo_transfer_target \<Rightarrow> photo_payload list \<Rightarrow> photo_payload list \<Rightarrow> nat
     \<Rightarrow> transfer \<Rightarrow> (transfer, ('k, 's, 'w) drive) op" where
  "transfer_batches E tg [] batch links tr = (if batch = [] then op_return tr else transfer_photo_batch E tg batch tr)"
| "transfer_batches E tg (p # ps) batch links tr =
     (if batch \<noteq> [] \<and> links + link_count p > MAX_LINKS_PER_TRANSFER
      then op_bind (transfer_photo_batch E tg batch tr) (\<lambda>tr1. transfer_batches E tg ps [p] (link_count p) tr1)
      else transfer_batches E tg ps (batch @ [p]) (links + link_count p) tr)"

fun copy_each ::
  "('k, 'p, 's, 'w) photos_env \<Rightarrow> 'k photo_transfer_target \<Rightarrow> photo_payload list \<Rightarrow> transfer \<Rightarrow> (transfer, ('k, 's, 'w) drive) op" where
  "copy_each E tg [] tr = op_return tr"
| "copy_each E tg (p # ps) tr = op_bind (copy_photo_to_target E tg p tr) (copy_each E tg ps)"

definition transfer_round ::
  "('k, 'p, 's, 'w) photos_env \<Rightarrow> 'k photo_transfer_target \<Rightarrow> transfer \<Rightarrow> (transfer, ('k, 's, 'w) drive) op" where
  "transfer_round E tg tr =
     op_bind (load_payloads E tg LOAD_BATCH [] [] tr) (\<lambda>(same, cross, tr1).
     op_bind (transfer_batches E tg same [] 0 tr1) (copy_each E tg cross))"

partial_function (option) transfer_rounds ::
  "('k, 'p, 's, 'w) photos_env \<Rightarrow> 'k photo_transfer_target \<Rightarrow> transfer \<Rightarrow> ('k, 's, 'w) drive
     \<Rightarrow> (move_outcome list result \<times> ('k, 's, 'w) drive) option" where
  [code]: "transfer_rounds E tg tr d =
     (if tr_queue tr = [] then Some (Inr (tr_outcomes tr), d)
      else op_bind (transfer_round E tg tr) (\<lambda>tr1. transfer_rounds E tg tr1) d)"

definition transfer_photos ::
  "('k, 'p, 's, 'w) photos_env \<Rightarrow> 'k photo_transfer_target \<Rightarrow> node_uid list \<Rightarrow> (move_outcome list, ('k, 's, 'w) drive) op" where
  "transfer_photos E tg uids = transfer_rounds E tg \<lparr>tr_queue = map (\<lambda>u. (u, [])) uids, tr_retried = {}, tr_outcomes = []\<rparr>"

definition album_target ::
  "('k, 'p, 's, 'w) photos_env \<Rightarrow> node_uid \<Rightarrow> ('k photo_transfer_target, ('k, 's, 'w) drive) op" where
  "album_target E album_uid =
     op_bind (folder_node_key (pe_drive E) album_uid) (\<lambda>key.
     op_bind (parent_hash_key_ctx (pe_drive E) album_uid key True) (\<lambda>hash_key.
     op_bind (photos_membership_address (pe_drive E)) (\<lambda>(_, email, signing_key).
       op_return \<lparr>ptt_uid = album_uid, ptt_kind = TransferAlbum, ptt_key = key, ptt_hash_key = hash_key, ptt_email = email,
         ptt_signing_key = signing_key\<rparr>)))"

text \<open>The first position of a photo in the request orders its outcomes.\<close>

definition request_position :: "node_uid list \<Rightarrow> node_uid \<Rightarrow> nat" where
  "request_position uids u = (case map_of (zip uids [0..<length uids]) u of Some i \<Rightarrow> i | None \<Rightarrow> 2 ^ 64 - 1)"

definition add_photos_to_album ::
  "('k, 'p, 's, 'w) photos_env \<Rightarrow> node_uid \<Rightarrow> node_uid list \<Rightarrow> (move_outcome list, ('k, 's, 'w) drive) op" where
  "add_photos_to_album E album_uid uids =
     (if uids = [] then op_return []
      else
        op_bind (album_target E album_uid) (\<lambda>tg.
        op_bind (transfer_photos E tg uids) (\<lambda>outcomes.
          op_return (sort_by_key (\<lambda>(u, _). request_position uids u) outcomes))))"

definition save_photos_to_timeline ::
  "('k, 'p, 's, 'w) photos_env \<Rightarrow> node_uid list \<Rightarrow> (move_outcome list, ('k, 's, 'w) drive) op" where
  "save_photos_to_timeline E uids =
     (if uids = [] then op_return []
      else
        op_bind (photos_root_keys E (InvalidOperation ''this account has no photos volume to save photos to''))
          (\<lambda>(root_uid, key, hash_key).
        op_bind (photos_membership_address (pe_drive E)) (\<lambda>(_, email, signing_key).
          transfer_photos E \<lparr>ptt_uid = root_uid, ptt_kind = TransferTimeline, ptt_key = key, ptt_hash_key = hash_key,
            ptt_email = email, ptt_signing_key = signing_key\<rparr> uids)))"

definition delete_album_saving_photos ::
  "('k, 'p, 's, 'w) photos_env \<Rightarrow> node_uid \<Rightarrow> (unit, ('k, 's, 'w) drive) op" where
  "delete_album_saving_photos E album_uid =
     op_bind (op_try (delete_album E album_uid False)) (\<lambda>r.
     case r of
       Inl (Api e) \<Rightarrow>
         if ae_code e = AlbumContainsPhotosNotInTimeline then
           let photos = photos_only_in_album e (uid_volume album_uid) in
           if photos = [] then op_fail (Api e)
           else
             op_bind (save_photos_to_timeline E photos) (\<lambda>outcomes.
             case find (\<lambda>(_, r). isl r) outcomes of
               Some (_, failed) \<Rightarrow> op_of failed
             | None \<Rightarrow> delete_album E album_uid False)
         else op_fail (Api e)
     | done_result \<Rightarrow> op_of done_result)"

section \<open>Listings\<close>

definition link_anchor_path :: "string \<Rightarrow> string \<Rightarrow> string option \<Rightarrow> string" where
  "link_anchor_path path sep anchor = (case anchor of Some a \<Rightarrow> path @ sep @ ''AnchorID='' @ a | None \<Rightarrow> path)"

definition enumerate_album_node_uids :: "('k, 'p, 's, 'w) photos_env \<Rightarrow> (node_uid list, ('k, 's, 'w) drive) op" where
  "enumerate_album_node_uids E =
     op_bind (ensure_photos (pe_drive E)) (\<lambda>exists.
       if \<not> exists then op_return []
       else
         op_bind (op_get (\<lambda>d. uid_volume (photos_root_of d))) (\<lambda>vid.
         op_bind (anchor_pages (\<lambda>a. on_world (pe_get_albums E (link_anchor_path (albums_path vid) ''?'' a))) None []) (\<lambda>ids.
           op_return (map (NodeUid_new vid) ids))))"

definition enumerate_album :: "('k, 'p, 's, 'w) photos_env \<Rightarrow> node_uid \<Rightarrow> (album_item list, ('k, 's, 'w) drive) op" where
  "enumerate_album E album_uid =
     op_bind (anchor_pages (\<lambda>a. on_world (pe_get_album_items E
         (link_anchor_path (album_path album_uid ''/children?Sort=Captured&Desc=1'') ''&'' a))) None []) (\<lambda>photos.
       op_return (map (\<lambda>p. \<lparr>ali_uid = NodeUid_new (uid_volume album_uid) (aid_id p), ali_capture_time = aid_capture_time p\<rparr>) photos))"

definition enumerate_shared_with_me_album_uids ::
  "('k, 'p, 's, 'w) photos_env \<Rightarrow> (node_uid list, ('k, 's, 'w) drive) op" where
  "enumerate_shared_with_me_album_uids E =
     op_bind (anchor_pages (\<lambda>a. on_world (pe_get_shared_albums E (link_anchor_path ''photos/albums/shared-with-me'' ''?'' a))) None [])
       (\<lambda>albums. op_return (map (\<lambda>a. NodeUid_new (sad_volume_id a) (sad_link_id a)) albums))"

definition photos_items :: "shared_with_me_response \<Rightarrow> node_uid list" where
  "photos_items page =
     map (\<lambda>l. NodeUid_new (swl_volume_id l) (swl_link_id l))
       (filter (\<lambda>l. case ShareTargetType_from_raw (swl_share_target_type l) of Some t \<Rightarrow> is_photos_item t | None \<Rightarrow> False) (swr_links page))"

definition enumerate_photos_shared_with_me_node_uids ::
  "('k, 'p, 's, 'w) photos_env \<Rightarrow> (node_uid list, ('k, 's, 'w) drive) op" where
  "enumerate_photos_shared_with_me_node_uids E =
     anchor_pages (\<lambda>a. op_bind (on_world (de_get_shared_with_me (pe_drive E) (anchor_path ''v2/sharedwithme'' a))) (\<lambda>page.
       op_return \<lparr>an_items = photos_items page, an_anchor = swr_anchor_id page, an_more = swr_more page\<rparr>)) None []"

section \<open>Tags\<close>

definition photo_path :: "node_uid \<Rightarrow> string \<Rightarrow> string" where
  "photo_path uid post = link_path ''photos/'' uid post"

definition apply_tag_update ::
  "('k, 'p, 's, 'w) photos_env \<Rightarrow> photo_tags_update \<Rightarrow> volume_id option \<Rightarrow> (unit, ('k, 's, 'w) drive) op" where
  "apply_tag_update E update own_photos_volume =
     (let uid = ptu_node_uid update; plain = filter (\<lambda>t. t \<noteq> Favorite) (ptu_tags_to_add update) in
      op_then
        (if Favorite \<in> set (ptu_tags_to_add update) then
           if own_photos_volume = Some (uid_volume uid) then on_world (pe_post_favorite E (photo_path uid ''/favorite''))
           else op_fail (InvalidOperation
             ''favoriting a photo that is not on this account's photos volume is not supported yet'')
         else op_return ())
      (op_then
        (if plain = [] then op_return () else on_world (pe_post_tags E (photo_path uid ''/tags'') (map PhotoTag_as_i32 plain)))
        (if ptu_tags_to_remove update = [] then op_return ()
         else on_world (pe_delete_tags E (photo_path uid ''/tags'') (map PhotoTag_as_i32 (ptu_tags_to_remove update))))))"

fun apply_tag_updates ::
  "('k, 'p, 's, 'w) photos_env \<Rightarrow> volume_id option \<Rightarrow> photo_tags_update list \<Rightarrow> (move_outcome list, ('k, 's, 'w) drive) op" where
  "apply_tag_updates E own [] = op_return []"
| "apply_tag_updates E own (u # us) =
     op_bind (op_try (apply_tag_update E u own)) (\<lambda>r.
     op_bind (apply_tag_updates E own us) (\<lambda>rest. op_return ((ptu_node_uid u, r) # rest)))"

definition own_photos_volume_id :: "('k, 'p, 's, 'w) photos_env \<Rightarrow> (volume_id option, ('k, 's, 'w) drive) op" where
  "own_photos_volume_id E =
     op_bind (ensure_photos (pe_drive E)) (\<lambda>exists.
       if exists then op_get (\<lambda>d. map_option uid_volume (dc_photos_root (drive_cache_of d))) else op_return None)"

definition update_photos ::
  "('k, 'p, 's, 'w) photos_env \<Rightarrow> photo_tags_update list \<Rightarrow> (move_outcome list, ('k, 's, 'w) drive) op" where
  "update_photos E updates =
     (if updates = [] then op_return []
      else op_bind (own_photos_volume_id E) (\<lambda>own. apply_tag_updates E own updates))"

text \<open>The items of the stream: the outcomes, or the error that ends it.\<close>

definition update_photos_streaming ::
  "('k, 'p, 's, 'w) photos_env \<Rightarrow> photo_tags_update list \<Rightarrow> (move_outcome result list, ('k, 's, 'w) drive) op" where
  "update_photos_streaming E updates =
     (if updates = [] then op_return []
      else
        op_bind (op_try (own_photos_volume_id E)) (\<lambda>r.
        case r of
          Inl e \<Rightarrow> op_return [Inl e]
        | Inr own \<Rightarrow> op_bind (apply_tag_updates E own updates) (\<lambda>outs. op_return (map Inr outs))))"

section \<open>Downloads\<close>

definition photo_access ::
  "('k, 'p, 's, 'c, 'e, 'n, 'w) download_env \<Rightarrow> node_uid \<Rightarrow> ('k \<times> 'c \<times> string, ('k, 's, 'w) drive) op" where
  "photo_access E uid =
     op_bind (get_link_details_ctx (dn_drive E) (uid_volume uid) [uid_link uid] True) (\<lambda>links.
     op_bind (op_ok_or (photo_not_found uid) (case links of [] \<Rightarrow> None | d # _ \<Rightarrow> Some d)) (\<lambda>detail.
     op_bind (op_ok_or (InvalidOperation (''node '' @ NodeUid_display uid @ '' is not a file'')) (readable_file detail)) (\<lambda>fd.
     op_bind (op_ok_or (InvalidOperation ''photo is missing its content key packet'') (fi_content_key_packet fd)) (\<lambda>b64.
     op_bind (op_of (map_err (\<lambda>e. InvalidOperation (''decode content key packet: '' @ e))
                (df_base64_decode (dn_drafts E) (trim b64)))) (\<lambda>packet.
     op_bind (op_ok_or (InvalidOperation ''photo has no active revision'') (map_option ar_id (fi_active_revision fd))) (\<lambda>rid.
     op_bind (resolve_parent_key_ctx (dn_drive E) (uid_volume uid) (ld_link detail) True) (\<lambda>parent_key.
     op_bind (op_of (de_decrypt_link (dn_drive E) parent_key (ld_link detail))) (\<lambda>(nkey, _).
     op_bind (op_of (df_decrypt_content_key (dn_drafts E) nkey packet)) (\<lambda>content_key.
       op_return (nkey, content_key, rid))))))))))"

definition download_photo_to ::
  "('k, 'p, 's, 'c, 'e, 'n, 'w) download_env \<Rightarrow> (bytes \<Rightarrow> 'o \<Rightarrow> string option \<times> 'o) \<Rightarrow> node_uid
     \<Rightarrow> (unit, 'o \<times> ('k, 's, 'w) drive) op" where
  "download_photo_to E wr uid =
     op_bind (beside (photo_access E uid)) (\<lambda>(nkey, content_key, rid).
     op_bind (beside (fetch_revision_blocks E (uid_volume uid) (uid_link uid) rid)) (\<lambda>(revision, blocks).
     op_bind (op_of (thumbnail_digests (df_base64_decode (dn_drafts E))
                (sort_by_key tb_thumbnail_type (rev_thumbnails revision)))) (\<lambda>digests.
     op_bind (write_blocks_out E wr uid rid content_key blocks digests) (\<lambda>manifest.
     op_then (beside (on_world (verify_manifest E revision nkey manifest))) (op_return ())))))"

section \<open>Every photo has its outcome\<close>

text \<open>All photos \<open>T\<close> of a transfer are reported, queued or pending, and \<open>n\<close> bounds what is left to
  do: a photo in hand counts one, and so does a second attempt not yet taken.\<close>

abbreviation payload_uid :: "photo_payload \<Rightarrow> node_uid" where
  "payload_uid p \<equiv> php_uid (ptp_photo p)"

definition owed :: "node_uid multiset \<Rightarrow> nat \<Rightarrow> transfer \<Rightarrow> photo_payload list \<Rightarrow> bool" where
  "owed T n tr ps \<longleftrightarrow>
     mset (map fst (tr_outcomes tr)) + mset (map fst (tr_queue tr)) + mset (map payload_uid ps) = T \<and>
     length (tr_queue tr) + length ps + card (set_mset T - tr_retried tr) \<le> n"

lemma owed_mset: "mset ps = mset qs \<Longrightarrow> owed T n tr ps \<Longrightarrow> owed T n tr qs"
  using mset_eq_length [of ps qs] by (simp add: owed_def)

lemma owed_record:
  assumes "owed T (Suc n) tr (p # ps)"
  shows "owed T n (record_transfer_outcome (payload_uid p) f tr) ps"
proof -
  have T: "mset (map fst (tr_outcomes tr)) + mset (map fst (tr_queue tr)) + mset (map payload_uid (p # ps)) = T"
    and bound: "length (tr_queue tr) + length (p # ps) + card (set_mset T - tr_retried tr) \<le> Suc n"
    using assms by (simp_all add: owed_def)
  have mem: "payload_uid p \<in># T" using T by auto
  show ?thesis
  proof (cases "\<exists>missing e. f = Some (missing, e) \<and> missing \<noteq> [] \<and> payload_uid p \<notin> tr_retried tr")
    case True
    then obtain missing e where f: "f = Some (missing, e)" "missing \<noteq> []" "payload_uid p \<notin> tr_retried tr" by blast
    have "set_mset T - insert (payload_uid p) (tr_retried tr) \<subset> set_mset T - tr_retried tr" using mem f(3) by auto
    then have "card (set_mset T - insert (payload_uid p) (tr_retried tr)) < card (set_mset T - tr_retried tr)"
      by (intro psubset_card_mono) auto
    then show ?thesis using T bound f by (simp add: owed_def record_transfer_outcome_def)
  next
    case False
    then obtain r where "record_transfer_outcome (payload_uid p) f tr = tr_report (payload_uid p) r tr"
      by (cases f) (auto simp: record_transfer_outcome_def)
    then show ?thesis using T bound by (simp add: owed_def tr_report_def)
  qed
qed

lemma owed_report:
  assumes "owed T (Suc n) tr (p # ps)"
  shows "owed T n (tr_report (payload_uid p) r tr) ps"
  using assms by (simp add: owed_def tr_report_def)

lemma owed_sent: "owed T (n + length ps) tr (ps @ qs) \<Longrightarrow> owed T n (record_sent f ps tr) qs"
  by (induction ps arbitrary: f tr) (auto simp: Let_def intro: owed_record)

lemma owed_links:
  assumes "transfer_links ps links sent tr = (links', sent', tr')" "owed T (n + length sent + length ps) tr (sent @ ps @ qs)"
  shows "owed T (n + length sent') tr' (sent' @ qs)"
  using assms
proof (induction ps arbitrary: links sent tr)
  case (Cons p ps)
  show ?case
  proof (cases "those (map transfer_link_item (ptp_photo p # ptp_related p))")
    case None
    have "owed T (Suc (n + length sent + length ps)) tr (p # sent @ ps @ qs)"
      using Cons.prems(2) by (auto elim: owed_mset [rotated])
    from owed_report [OF this] show ?thesis using Cons.IH [OF _ ] Cons.prems(1) None by simp
  next
    case (Some items)
    then show ?thesis using Cons.IH [of "links @ items" "sent @ [p]" tr] Cons.prems by simp
  qed
qed simp

lemma transfer_links_sent:
  "transfer_links ps links sent tr = (links', sent', tr') \<Longrightarrow> sent = [] \<or> links \<noteq> [] \<Longrightarrow> sent' = [] \<or> links' \<noteq> []"
  by (induction ps arbitrary: links sent tr) (fastforce split: option.splits)+

text \<open>A step that leaves a predicate of the client's state alone and, unless it fails, what is owed.\<close>

definition settles :: "('d \<Rightarrow> bool) \<Rightarrow> node_uid multiset \<Rightarrow> nat \<Rightarrow> photo_payload list \<Rightarrow> (transfer, 'd) op \<Rightarrow> 'd \<Rightarrow> bool" where
  "settles P T n qs m d \<longleftrightarrow> op_wp m (\<lambda>r d'. P d' \<and> (\<forall>tr. r = Inr tr \<longrightarrow> owed T n tr qs)) d"

lemma settles_return: "P d \<Longrightarrow> owed T n tr qs \<Longrightarrow> settles P T n qs (op_return tr) d"
  by (simp add: settles_def wp)

lemma settles_bind:
  assumes "settles P T n qs m d" "\<And>tr d'. owed T n tr qs \<Longrightarrow> P d' \<Longrightarrow> settles P T n' qs' (f tr) d'"
  shows "settles P T n' qs' (op_bind m f) d"
proof -
  have "op_wp (f tr) (\<lambda>r d'. P d' \<and> (\<forall>tr. r = Inr tr \<longrightarrow> owed T n' tr qs')) d'" if "owed T n tr qs" "P d'" for tr d'
    using assms(2) [OF that] by (simp add: settles_def)
  then show ?thesis using assms(1)
    unfolding settles_def wp by (auto elim!: op_wp_mono split: sum.split)
qed

text \<open>Building a payload and the three requests return, and keep a predicate of the state.\<close>

definition transfers_return ::
  "('k, 'p, 's, 'w) photos_env \<Rightarrow> 'k photo_transfer_target \<Rightarrow> (('k, 's, 'w) drive \<Rightarrow> bool) \<Rightarrow> bool" where
  "transfers_return E tg P \<longleftrightarrow>
     (\<forall>u extra. op_returns P (transfer_photo_payload E u extra tg)) \<and>
     (\<forall>path req. op_returns P (on_world (pe_put_transfer E path req))) \<and>
     (\<forall>path req. op_returns P (on_world (pe_post_add E path req))) \<and>
     (\<forall>path req. op_returns P (on_world (pe_post_copy E path req)))"

lemma transfers_returnD:
  assumes "transfers_return E tg P"
  shows "op_returns P (transfer_photo_payload E u extra tg)" "op_returns P (on_world (pe_put_transfer E path moves))"
    "op_returns P (on_world (pe_post_add E path adds))" "op_returns P (on_world (pe_post_copy E path copy))"
  using assms by (simp_all add: transfers_return_def)

lemma batch_settles:
  assumes "transfers_return E tg P" "owed T (n + length ps) tr (ps @ qs)" "P d"
  shows "settles P T n qs (transfer_photo_batch E tg ps tr) d"
proof (cases "ptt_kind tg")
  case TransferTimeline
  obtain links sent tr1 where links: "transfer_links ps [] [] tr = (links, sent, tr1)" by (metis prod_cases3)
  have left_over: "owed T (n + length sent) tr1 (sent @ qs)" using owed_links [OF links] assms(2) by simp
  have "links = [] \<Longrightarrow> sent = []" using transfer_links_sent [OF links] by simp
  then show ?thesis
    using TransferTimeline links left_over assms(3) owed_sent [OF left_over]
    by (auto simp: transfer_photo_batch_def settles_def wp record_transfer_outcomes_def
        intro!: op_returns_wp [OF transfers_returnD(2) [OF assms(1)]] split: sum.split)
next
  case TransferAlbum
  then show ?thesis
    using assms owed_sent [OF assms(2)]
    by (auto simp: transfer_photo_batch_def settles_def wp record_transfer_outcomes_def
        intro!: op_returns_wp [OF transfers_returnD(3) [OF assms(1)]] split: sum.split)
qed

lemma batches_settle:
  assumes "transfers_return E tg P" "owed T (n + length batch + length ps) tr (batch @ ps @ qs)" "P d"
  shows "settles P T n qs (transfer_batches E tg ps batch links tr) d"
  using assms(2,3)
proof (induction ps arbitrary: batch links tr d)
  case Nil
  then show ?case using batch_settles [OF assms(1), of T n batch tr qs d] settles_return by auto
next
  case (Cons p ps)
  have "settles P T (n + Suc (length ps)) (p # ps @ qs) (transfer_photo_batch E tg batch tr) d"
    using Cons.prems by (intro batch_settles [OF assms(1)]) (simp_all add: ac_simps)
  moreover have "settles P T n qs (transfer_batches E tg ps [p] l tr1) d1"
    if "owed T (n + Suc (length ps)) tr1 (p # ps @ qs)" "P d1" for tr1 d1 l
    using that by (intro Cons.IH) (simp_all add: ac_simps)
  ultimately have "settles P T n qs (op_bind (transfer_photo_batch E tg batch tr) (\<lambda>tr1. transfer_batches E tg ps [p] (link_count p) tr1)) d"
    by (rule settles_bind)
  moreover have "settles P T n qs (transfer_batches E tg ps (batch @ [p]) (links + link_count p) tr) d"
    using Cons.prems by (intro Cons.IH) simp_all
  ultimately show ?case by simp
qed

lemma copies_settle:
  assumes "transfers_return E tg P" "owed T (n + length ps) tr ps" "P d"
  shows "settles P T n [] (copy_each E tg ps tr) d"
  using assms(2,3)
proof (induction ps arbitrary: tr d)
  case (Cons p ps)
  have "settles P T (n + length ps) ps (copy_photo_to_target E tg p tr) d"
    using Cons.prems owed_record [of T "n + length ps" tr p ps]
    by (auto simp: copy_photo_to_target_def settles_def wp Let_def intro!: op_returns_wp [OF transfers_returnD(4) [OF assms(1)]])
  then show ?case using Cons.IH by (auto intro: settles_bind)
qed (simp add: settles_return)

lemma transfer_photo_payload_uid:
  "transfer_photo_payload E u extra tg d = Some (Inr p, d') \<Longrightarrow> payload_uid p = u"
  by (auto simp: transfer_photo_payload_def photo_target_payload_def op_bind_Inr split: if_splits)

lemma load_settles:
  assumes "transfers_return E tg P" "owed T n tr (same @ cross)" "P d"
  shows "op_wp (load_payloads E tg k same cross tr) (\<lambda>r d'. P d' \<and> (\<forall>same' cross' tr'. r = Inr (same', cross', tr') \<longrightarrow>
     (\<exists>j n'. n = n' + j \<and> owed T n' tr' (same' @ cross') \<and>
        length same + length cross + (if k = 0 \<or> tr_queue tr = [] then 0 else 1) \<le> j + length same' + length cross'))) d"
  using assms(2,3)
proof (induction k arbitrary: n same cross tr d)
  case 0
  moreover from this have "\<exists>j n'. n = n' + j \<and> owed T n' tr (same @ cross)" by (intro exI [of _ "0 :: nat"] exI [of _ n]) simp
  ultimately show ?case by (simp add: op_wp_def)
next
  case (Suc k)
  show ?case
  proof (cases "tr_queue tr")
    case Nil
    moreover have "\<exists>j n'. n = n' + j \<and> owed T n' tr (same @ cross)"
      using Suc.prems(1) by (intro exI [of _ "0 :: nat"] exI [of _ n]) simp
    ultimately show ?thesis using Suc.prems(2) by (simp add: op_wp_def)
  next
    case (Cons q queue)
    obtain u extra where q: "q = (u, extra)" by fastforce
    let ?Q = "\<lambda>r d'. P d' \<and> (\<forall>same' cross' tr'. r = Inr (same', cross', tr') \<longrightarrow>
     (\<exists>j n'. n = n' + j \<and> owed T n' tr' (same' @ cross') \<and> Suc (length same + length cross) \<le> j + length same' + length cross'))"
    have took: "owed T n (tr\<lparr>tr_queue := queue\<rparr>) (p # same @ cross)" if "payload_uid p = u" for p
      using Suc.prems(1) Cons q that by (simp add: owed_def)
    have taken: "op_wp (load_payloads E tg k (same @ [p]) cross (tr\<lparr>tr_queue := queue\<rparr>)) ?Q d1"
      "op_wp (load_payloads E tg k same (cross @ [p]) (tr\<lparr>tr_queue := queue\<rparr>)) ?Q d1"
      if "payload_uid p = u" "P d1" for p d1
      using Suc.IH [OF owed_mset [OF _ took [OF that(1)], of "(same @ [p]) @ cross"] that(2)]
        Suc.IH [OF owed_mset [OF _ took [OF that(1)], of "same @ cross @ [p]"] that(2)]
      by (fastforce elim!: op_wp_mono)+
    have reported: "op_wp (load_payloads E tg k same cross (tr_report u r (tr\<lparr>tr_queue := queue\<rparr>))) ?Q d1" if "P d1" for r d1
    proof -
      obtain m where n: "n = Suc m" using Suc.prems(1) Cons by (cases n) (auto simp: owed_def)
      have "owed T m (tr_report u r (tr\<lparr>tr_queue := queue\<rparr>)) (same @ cross)"
        using Suc.prems(1) Cons q n by (simp add: owed_def tr_report_def)
      note run = Suc.IH [OF this that]
      show ?thesis
      proof (rule op_wp_mono [OF run], intro conjI allI impI)
        fix r' d' same' cross' tr'
        assume *: "P d' \<and> (\<forall>same' cross' tr'. r' = Inr (same', cross', tr') \<longrightarrow>
          (\<exists>j n'. m = n' + j \<and> owed T n' tr' (same' @ cross') \<and>
            length same + length cross + (if k = 0 \<or> tr_queue (tr_report u r (tr\<lparr>tr_queue := queue\<rparr>)) = [] then 0 else 1)
              \<le> j + length same' + length cross'))" and res: "r' = Inr (same', cross', tr')"
        then obtain j n' where "m = n' + j" "owed T n' tr' (same' @ cross')" "length same + length cross \<le> j + length same' + length cross'"
          by (auto split: if_splits)
        then show "\<exists>j n'. n = n' + j \<and> owed T n' tr' (same' @ cross') \<and> Suc (length same + length cross) \<le> j + length same' + length cross'"
          using n by (intro exI [of _ "Suc j"] exI [of _ n']) simp
      qed simp
    qed
    let ?next = "\<lambda>r. case r of
          Inr p \<Rightarrow>
            if uid_volume (payload_uid p) = uid_volume (ptt_uid tg)
            then load_payloads E tg k (same @ [p]) cross (tr\<lparr>tr_queue := queue\<rparr>)
            else load_payloads E tg k same (cross @ [p]) (tr\<lparr>tr_queue := queue\<rparr>)
        | Inl e \<Rightarrow> load_payloads E tg k same cross (tr_report u (Inl e) (tr\<lparr>tr_queue := queue\<rparr>))"
    have "op_wp (?next r) ?Q d1" if "transfer_photo_payload E u extra tg d = Some (r, d1)" "P d1" for r d1
    proof (cases r)
      case (Inr p)
      then have "payload_uid p = u" using transfer_photo_payload_uid that(1) by blast
      then show ?thesis using Inr taken [of p d1] that(2) by simp
    qed (use reported [OF that(2)] in simp)
    then have "op_wp (op_bind (op_try (transfer_photo_payload E u extra tg)) ?next) ?Q d"
      unfolding wp sum.case by (rule op_returns_wp [OF transfers_returnD(1) [OF assms(1)] Suc.prems(2)])
    then show ?thesis using Cons q by simp
  qed
qed

lemma transfer_round_settles:
  assumes "transfers_return E tg P" "owed T n tr []" "P d" "tr_queue tr \<noteq> []"
  shows "op_wp (transfer_round E tg tr) (\<lambda>r d'. P d' \<and> (\<forall>tr'. r = Inr tr' \<longrightarrow> (\<exists>m<n. owed T m tr' []))) d"
proof -
  have step: "op_wp (op_bind (transfer_batches E tg same [] 0 tr1) (copy_each E tg cross))
      (\<lambda>r d'. P d' \<and> (\<forall>tr'. r = Inr tr' \<longrightarrow> (\<exists>m<n. owed T m tr' []))) d1"
    if "n = n' + j" "owed T n' tr1 (same @ cross)" "0 < j + length same + length cross" "P d1" for same cross tr1 n' j d1
  proof -
    have "length same + length cross \<le> n'" using that(2) by (simp add: owed_def)
    then obtain m where m: "n' = m + length cross + length same"
      using le_Suc_ex by (metis add.commute add.assoc)
    have "settles P T m [] (op_bind (transfer_batches E tg same [] 0 tr1) (copy_each E tg cross)) d1"
    proof (rule settles_bind)
      show "settles P T (m + length cross) cross (transfer_batches E tg same [] 0 tr1) d1"
        using that(2,4) m by (intro batches_settle [OF assms(1)]) simp_all
    qed (auto intro: copies_settle [OF assms(1)])
    moreover have "m < n" using that(1,3) m by linarith
    ultimately show ?thesis unfolding settles_def by (auto elim!: op_wp_mono)
  qed
  have "0 < LOAD_BATCH" by (simp add: LOAD_BATCH_def)
  then have "op_wp (load_payloads E tg LOAD_BATCH [] [] tr) (\<lambda>r d'. P d' \<and> (\<forall>same' cross' tr'. r = Inr (same', cross', tr') \<longrightarrow>
     (\<exists>j n'. n = n' + j \<and> owed T n' tr' (same' @ cross') \<and> 0 < j + length same' + length cross'))) d"
    using load_settles [OF assms(1), of T n tr "[]" "[]" d LOAD_BATCH] assms(2-4) by (fastforce elim!: op_wp_mono)
  then show ?thesis
    unfolding transfer_round_def wp
  proof (rule op_wp_mono, goal_cases)
    case (1 r d1)
    show ?case
    proof (cases r)
      case (Inr taken)
      obtain same cross tr1 where taken: "taken = (same, cross, tr1)" using prod_cases3 by blast
      then show ?thesis using 1(2) Inr step by auto
    qed (use 1(2) in simp)
  qed
qed

lemma transfer_rounds_settle:
  assumes "transfers_return E tg P" "owed T n tr []" "P d"
  shows "\<exists>r d'. transfer_rounds E tg tr d = Some (r, d') \<and> P d' \<and> (\<forall>outs. r = Inr outs \<longrightarrow> mset (map fst outs) = T)"
  using assms(2,3)
proof (induction n arbitrary: tr d rule: less_induct)
  case (less n)
  show ?case
  proof (cases "tr_queue tr = []")
    case True
    then show ?thesis using less.prems by (subst transfer_rounds.simps) (simp add: owed_def)
  next
    case False
    then obtain r d1 where round: "transfer_round E tg tr d = Some (r, d1)" "P d1"
      "\<And>tr'. r = Inr tr' \<Longrightarrow> \<exists>m<n. owed T m tr' []"
      using transfer_round_settles [OF assms(1) less.prems] unfolding op_wp_iff by blast
    show ?thesis
    proof (cases r)
      case (Inl e)
      then have "transfer_rounds E tg tr d = Some (Inl e, d1)"
        using False round(1) by (subst transfer_rounds.simps) (simp add: op_bind_def)
      then show ?thesis using round(2) by blast
    next
      case (Inr tr')
      then have "transfer_rounds E tg tr d = transfer_rounds E tg tr' d1"
        using False round(1) by (subst transfer_rounds.simps) (simp add: op_bind_def)
      then show ?thesis using round(2,3) Inr less.IH by metis
    qed
  qed
qed

lemma owed_start: "owed (mset uids) (length uids + card (set uids)) \<lparr>tr_queue = map (\<lambda>u. (u, [])) uids, tr_retried = {}, tr_outcomes = []\<rparr> []"
  by (simp add: owed_def comp_def)

lemmas transfer_settles = transfer_rounds_settle [OF _ owed_start, folded transfer_photos_def]


lemma request_position_nth: "distinct uids \<Longrightarrow> i < length uids \<Longrightarrow> request_position uids (uids ! i) = i"
  by (simp add: request_position_def map_of_zip_nth)

lemma map_fst_sort: "map fst (sort_by_key (\<lambda>(u, _). g u) xs) = sort_by_key g (map fst xs)"
proof (induction xs)
  case (Cons x xs)
  have "map fst (insort_key (\<lambda>(u, _). g u) x ys) = insort_key g (fst x) (map fst ys)" for ys
    by (induction ys) (auto simp: case_prod_beta)
  then show ?case using Cons by simp
qed simp

text \<open>Photos added to an album, each once, are reported in the order they were given.\<close>

theorem added_photos_in_input_order:
  assumes "album_target E album_uid d = Some (Inr tg, d1)" "transfers_return E tg P" "P d1" "distinct uids"
  shows "\<exists>r d'. add_photos_to_album E album_uid uids d = Some (r, d') \<and>
     (case r of Inr outs \<Rightarrow> map fst outs = uids | Inl _ \<Rightarrow> True)"
proof (cases "uids = []")
  case False
  obtain r d' where run: "transfer_photos E tg uids d1 = Some (r, d')" "\<And>outs. r = Inr outs \<Longrightarrow> mset (map fst outs) = mset uids"
    using transfer_settles [OF assms(2,3), of uids] by blast
  have "map fst (sort_by_key (\<lambda>(u, _). request_position uids u) outs) = uids" if "r = Inr outs" for outs
  proof -
    have "map (request_position uids) uids = [0..<length uids]"
      using assms(4) by (auto intro: nth_equalityI simp: request_position_nth)
    then have "sort_by_key (request_position uids) (map fst outs) = uids"
      using run(2) [OF that] by (intro sort_by_key_unique) simp_all
    then show ?thesis by (simp add: map_fst_sort)
  qed
  then show ?thesis
    using False assms(1) run(1) by (cases r) (simp_all add: add_photos_to_album_def op_bind_def)
qed (simp add: add_photos_to_album_def)

text \<open>C35: An album whose photos are to be saved first is deleted only with every photo it alone holds
  saved to the timeline.\<close>

theorem album_deletion_saves_photos:
  assumes "delete_album_saving_photos E album_uid d = Some (Inr (), d')" "P d" "\<And>tg. transfers_return E tg P"
    and "op_keeps P (delete_album E album_uid False)" "\<And>e. op_keeps P (photos_root_keys E e)" "op_keeps P (photos_membership_address (pe_drive E))"
  shows "delete_album E album_uid False d = Some (Inr (), d') \<or>
     (\<exists>e d1 outs d2. delete_album E album_uid False d = Some (Inl (Api e), d1) \<and> ae_code e = AlbumContainsPhotosNotInTimeline \<and>
        save_photos_to_timeline E (photos_only_in_album e (uid_volume album_uid)) d1 = Some (Inr outs, d2) \<and>
        (\<forall>u\<in>set (photos_only_in_album e (uid_volume album_uid)). (u, Inr ()) \<in> set outs) \<and>
        delete_album E album_uid False d2 = Some (Inr (), d'))"
proof -
  obtain r d1 where first_try: "delete_album E album_uid False d = Some (r, d1)"
    using assms(1) by (auto simp: delete_album_saving_photos_def op_bind_Inr op_try_Some)
  show ?thesis
  proof (cases "\<exists>e. r = Inl (Api e) \<and> ae_code e = AlbumContainsPhotosNotInTimeline")
    case False
    then have "delete_album_saving_photos E album_uid d = Some (r, d1)"
      using first_try by (auto simp: delete_album_saving_photos_def op_bind_def op_try_def split: sum.split proton_error.split)
    then show ?thesis using assms(1) first_try by simp
  next
    case True
    then obtain e where e: "r = Inl (Api e)" "ae_code e = AlbumContainsPhotosNotInTimeline" by blast
    let ?photos = "photos_only_in_album e (uid_volume album_uid)"
    obtain outs d2 where saved: "save_photos_to_timeline E ?photos d1 = Some (Inr outs, d2)"
      and last_try: "(case find (\<lambda>(_, r). isl r) outs of Some (_, failed) \<Rightarrow> op_of failed | None \<Rightarrow> delete_album E album_uid False) d2 = Some (Inr (), d')"
      using assms(1) first_try e
      by (auto simp: delete_album_saving_photos_def op_bind_Inr op_try_Some Let_def split: if_splits)
    have none: "find (\<lambda>(_, r). isl r) outs = None"
      using last_try by (auto simp: find_Some_iff split: option.splits)
    have all_saved: "r = Inr ()" if "(u, r) \<in> set outs" for u r
      using none that by (cases r) (force simp: find_None_iff)+
    have deleted: "delete_album E album_uid False d2 = Some (Inr (), d')" using last_try none by simp
    have "set ?photos \<subseteq> fst ` set outs"
    proof (cases "?photos = []")
      case False
      then obtain keys d3 address d4 tg where "photos_root_keys E (InvalidOperation ''this account has no photos volume to save photos to'') d1 = Some (Inr keys, d3)"
        "photos_membership_address (pe_drive E) d3 = Some (Inr address, d4)" "transfer_photos E tg ?photos d4 = Some (Inr outs, d2)"
        using saved by (auto simp: save_photos_to_timeline_def op_bind_Inr)
      moreover from this have "P d4" using assms(2,4-6) first_try unfolding op_keeps_def by blast
      ultimately have "mset (map fst outs) = mset ?photos" using transfer_settles [OF assms(3), of d4 tg ?photos] by auto
      then have "set (map fst outs) = set ?photos" by (rule mset_eq_setD)
      then show ?thesis by simp
    qed simp
    then have "\<forall>u\<in>set ?photos. (u, Inr ()) \<in> set outs" using all_saved by fastforce
    then show ?thesis using first_try e saved deleted by blast
  qed
qed

text \<open>A photo given twice in one batch and refused is reported as refused once and as done once.\<close>

lemma repeated_photo_reported_done:
  assumes "plo_link_id out = uid_link uid" "php_uid (ptp_photo p) = uid" "pob_missing (plo_response out) = None"
    and "pob_error (plo_response out) = Some m"
  shows "tr_outcomes (record_transfer_outcomes tg [out] [p, p] tr) =
     tr_outcomes tr @ [(uid, Inl (InvalidOperation m)), (uid, Inr ())]"
  using assms by (simp add: record_transfer_outcomes_def Let_def record_transfer_outcome_def tr_report_def)

section \<open>Duplicates\<close>

text \<open>The positions of every hash among those indexed, and the hashes, each once.\<close>

definition indexes :: "string list \<Rightarrow> (string \<rightharpoonup> nat list) \<times> string list \<Rightarrow> bool" where
  "indexes hs st \<longleftrightarrow>
     (\<forall>h. fst st h = (if h \<in> set hs then Some (filter (\<lambda>i. hs ! i = h) [0..<length hs]) else None)) \<and>
     distinct (snd st) \<and> set (snd st) = set hs"

lemma index_hashes_indexes: "indexes pre st \<Longrightarrow> indexes (pre @ hs) (index_hashes (length pre) hs st)"
proof (induction hs arbitrary: pre st)
  case (Cons h hs)
  obtain positions names where st: "st = (positions, names)" by fastforce
  let ?st = "case positions h of None \<Rightarrow> (positions(h \<mapsto> [length pre]), names @ [h])
      | Some is \<Rightarrow> (positions(h \<mapsto> is @ [length pre]), names)"
  have old: "filter (\<lambda>i. (pre @ [h]) ! i = k) [0..<length pre] = filter (\<lambda>i. pre ! i = k) [0..<length pre]" for k
    by (rule filter_cong) (simp_all add: nth_append)
  have "filter (\<lambda>i. pre ! i = h) [0..<length pre] = []" if "h \<notin> set pre" using that by (auto simp: filter_empty_conv)
  then have "indexes (pre @ [h]) ?st"
    using Cons.prems st old by (auto simp: indexes_def split: if_splits)
  from Cons.IH [OF this] show ?case by (simp add: st)
qed simp

text \<open>What an input is matched with: the active photos with its name and its content.\<close>

definition matches :: "string \<Rightarrow> string \<Rightarrow> found_photo_duplicate_dto \<Rightarrow> bool" where
  "matches name_hash content_hash f \<longleftrightarrow>
     is_candidate f \<and> to_ascii_lowercase (fpd_name_hash f) = name_hash \<and> eq_ignore_ascii_case (fpd_content_hash f) content_hash"

definition found_uid :: "volume_id \<Rightarrow> found_photo_duplicate_dto \<Rightarrow> node_uid" where
  "found_uid vid f = NodeUid_new vid (the (fpd_link_id f))"

lemma append_at_each:
  assumes "distinct is" "\<forall>i\<in>set is. i < length out"
  shows "fold (\<lambda>i out. if c i then out[i := (out ! i) @ [u]] else out) is out =
     map (\<lambda>j. out ! j @ (if j \<in> set is \<and> c j then [u] else [])) [0..<length out]"
  using assms
proof (induction "is" arbitrary: out)
  case (Cons i "is")
  let ?out = "if c i then out[i := (out ! i) @ [u]] else out"
  have "fold (\<lambda>i out. if c i then out[i := (out ! i) @ [u]] else out) is ?out =
      map (\<lambda>j. ?out ! j @ (if j \<in> set is \<and> c j then [u] else [])) [0..<length ?out]"
    using Cons by auto
  also have "\<dots> = map (\<lambda>j. out ! j @ (if j \<in> set (i # is) \<and> c j then [u] else [])) [0..<length out]"
    using Cons.prems by (auto simp: nth_list_update)
  finally show ?case by simp
qed (simp add: map_nth)

lemma match_duplicate_exact:
  assumes "indexes hs (positions, names)" "length out = length hs"
  shows "match_duplicate vid positions contents f out =
     map (\<lambda>j. out ! j @ (if matches (hs ! j) (contents ! j) f then [found_uid vid f] else [])) [0..<length hs]"
proof (cases "is_candidate f \<and> to_ascii_lowercase (fpd_name_hash f) \<in> set hs")
  case True
  let ?h = "to_ascii_lowercase (fpd_name_hash f)"
  let ?is = "filter (\<lambda>i. hs ! i = ?h) [0..<length hs]"
  have "positions ?h = Some ?is" using True assms(1) by (simp add: indexes_def)
  then have "match_duplicate vid positions contents f out =
      map (\<lambda>j. out ! j @ (if j \<in> set ?is \<and> eq_ignore_ascii_case (fpd_content_hash f) (contents ! j) then [found_uid vid f] else []))
        [0..<length out]"
    using True append_at_each [of ?is out "\<lambda>i. eq_ignore_ascii_case (fpd_content_hash f) (contents ! i)" "found_uid vid f"] assms(2)
    unfolding match_duplicate_def found_uid_def by simp
  also have "\<dots> = map (\<lambda>j. out ! j @ (if matches (hs ! j) (contents ! j) f then [found_uid vid f] else [])) [0..<length hs]"
    using True assms(2) by (intro map_cong) (auto simp: matches_def)
  finally show ?thesis .
next
  case False
  then have "match_duplicate vid positions contents f out = out"
    using assms(1) by (auto simp: match_duplicate_def indexes_def)
  moreover have "\<not> matches (hs ! j) (contents ! j) f" if "j < length hs" for j
    using False that by (auto simp: matches_def)
  ultimately show ?thesis using assms(2) by (auto intro: nth_equalityI)
qed

lemma match_found_exact:
  assumes "indexes hs (positions, names)" "length out = length hs"
  shows "fold (match_duplicate vid positions contents) found out =
     map (\<lambda>j. out ! j @ map (found_uid vid) (filter (matches (hs ! j) (contents ! j)) found)) [0..<length hs]"
  using assms(2)
proof (induction found arbitrary: out)
  case Nil
  then show ?case by (auto intro: nth_equalityI)
next
  case (Cons f found)
  show ?case using Cons.IH [of "match_duplicate vid positions contents f out"] Cons.prems
    by (auto simp: match_duplicate_exact [OF assms(1)])
qed

text \<open>A server that answers with the entries of its database whose name is asked for.\<close>

definition serves_duplicates ::
  "('k, 'p, 's, 'w) photos_env \<Rightarrow> node_uid \<Rightarrow> found_photo_duplicate_dto list \<Rightarrow> (('k, 's, 'w) drive \<Rightarrow> bool) \<Rightarrow> bool" where
  "serves_duplicates E root_uid db P \<longleftrightarrow>
     (\<forall>hs d. P d \<longrightarrow> (\<exists>d'. on_world (pe_post_duplicates E (duplicates_path root_uid) hs) d =
        Some (Inr (filter (\<lambda>f. to_ascii_lowercase (fpd_name_hash f) \<in> set hs) db), d') \<and> P d'))"

lemma duplicate_batches_exact:
  assumes "serves_duplicates E root_uid db P" "indexes hs (positions, names)" "length out = length hs" "P d"
  shows "\<exists>d'. duplicate_batches E root_uid (match_duplicate vid positions contents) cs out d =
     Some (Inr (map (\<lambda>j. out ! j @ map (found_uid vid) (concat (map (\<lambda>c. filter (\<lambda>f. to_ascii_lowercase (fpd_name_hash f) \<in> set c \<and>
       matches (hs ! j) (contents ! j) f) db) cs))) [0..<length hs]), d') \<and> P d'"
  using assms(3,4)
proof (induction cs arbitrary: out d)
  case Nil
  then show ?case by (auto intro: nth_equalityI)
next
  case (Cons c cs)
  let ?found = "filter (\<lambda>f. to_ascii_lowercase (fpd_name_hash f) \<in> set c) db"
  obtain d1 where d1: "on_world (pe_post_duplicates E (duplicates_path root_uid) c) d = Some (Inr ?found, d1)" "P d1"
    using assms(1) Cons.prems(2) unfolding serves_duplicates_def by blast
  let ?out = "fold (match_duplicate vid positions contents) ?found out"
  have out: "?out = map (\<lambda>j. out ! j @ map (found_uid vid) (filter (matches (hs ! j) (contents ! j)) ?found)) [0..<length hs]"
    by (rule match_found_exact [OF assms(2) Cons.prems(1)])
  then have len: "length ?out = length hs" by simp
  have step: "duplicate_batches E root_uid (match_duplicate vid positions contents) (c # cs) out d =
      duplicate_batches E root_uid (match_duplicate vid positions contents) cs ?out d1"
    by (simp add: op_bind_def d1(1))
  have at: "?out ! j = out ! j @ map (found_uid vid) (filter (\<lambda>f. to_ascii_lowercase (fpd_name_hash f) \<in> set c \<and> matches (hs ! j) (contents ! j) f) db)"
    if "j < length hs" for j
    unfolding out using that by (simp add: conj_commute)
  let ?more = "\<lambda>cs j. concat (map (\<lambda>c. filter (\<lambda>f. to_ascii_lowercase (fpd_name_hash f) \<in> set c \<and> matches (hs ! j) (contents ! j) f) db) cs)"
  have "map (\<lambda>j. ?out ! j @ map (found_uid vid) (?more cs j)) [0..<length hs] =
      map (\<lambda>j. out ! j @ map (found_uid vid) (?more (c # cs) j)) [0..<length hs]"
  proof (rule map_cong)
    fix j assume "j \<in> set [0..<length hs]"
    then have "j < length hs" by simp
    from at [OF this] show "?out ! j @ map (found_uid vid) (?more cs j) = out ! j @ map (found_uid vid) (?more (c # cs) j)" by simp
  qed simp
  then show ?case unfolding step using Cons.IH [OF len d1(2)] by presburger
qed

lemma one_chunk_matches:
  assumes "distinct (concat cs)" "hs ! j \<in> set (concat cs)"
  shows "concat (map (\<lambda>c. filter (\<lambda>f. to_ascii_lowercase (fpd_name_hash f) \<in> set c \<and> matches (hs ! j) content f) db) cs) =
     filter (matches (hs ! j) content) db"
  using assms
proof (induction cs)
  case (Cons c cs)
  have none: "filter (\<lambda>f. to_ascii_lowercase (fpd_name_hash f) \<in> set c' \<and> matches (hs ! j) content f) db = []" if "hs ! j \<notin> set c'" for c'
    using that by (auto simp: filter_empty_conv matches_def)
  show ?case
  proof (cases "hs ! j \<in> set c")
    case True
    then have "\<forall>c'\<in>set cs. hs ! j \<notin> set c'" using Cons.prems(1) by auto
    then have "concat (map (\<lambda>c. filter (\<lambda>f. to_ascii_lowercase (fpd_name_hash f) \<in> set c \<and> matches (hs ! j) content f) db) cs) = []"
      using none by simp
    moreover have "filter (\<lambda>f. to_ascii_lowercase (fpd_name_hash f) \<in> set c \<and> matches (hs ! j) content f) db = filter (matches (hs ! j) content) db"
      using True by (intro filter_cong) (auto simp: matches_def)
    ultimately show ?thesis by simp
  next
    case False
    then show ?thesis using none Cons by simp
  qed
qed simp

text \<open>C36: Asking for the duplicates of many photos in batches gives for every photo what asking for it
  alone gives, also when photos share their names.\<close>

theorem find_duplicates_agree:
  assumes "serves_duplicates E root_uid db P" "P d"
    and "\<And>d. P d \<Longrightarrow> \<exists>d'. photos_root_keys E no_photos_volume d = Some (Inr (root_uid, root_key, hash_key), d') \<and> P d'"
    and "\<And>t. to_ascii_lowercase (hash_text E hash_key t) = hash_text E hash_key t"
    and "\<And>b. to_ascii_lowercase (pe_sha1 E b) = pe_sha1 E b"
  shows "\<exists>outs d'. find_photo_duplicates_many E (map (\<lambda>(name, contents). (name, pe_sha1 E contents)) photos) d = Some (Inr outs, d') \<and>
     length outs = length photos \<and>
     (\<forall>i<length photos. \<exists>d'. find_photo_duplicates E (fst (photos ! i)) (snd (photos ! i)) d = Some (Inr (outs ! i), d'))"
proof -
  let ?vid = "uid_volume root_uid"
  let ?ref = "\<lambda>name contents. map (found_uid ?vid) (filter (matches (hash_text E hash_key name) (hash_text E hash_key (pe_sha1 E contents))) db)"
  obtain d1 where d1: "photos_root_keys E no_photos_volume d = Some (Inr (root_uid, root_key, hash_key), d1)" "P d1"
    using assms(2,3) by blast
  have single: "\<exists>d'. find_photo_duplicates E name contents d = Some (Inr (?ref name contents), d')" for name contents
  proof -
    let ?h = "hash_text E hash_key name"
    let ?found = "filter (\<lambda>f. to_ascii_lowercase (fpd_name_hash f) \<in> set [?h]) db"
    obtain d2 where d2: "on_world (pe_post_duplicates E (duplicates_path root_uid) [?h]) d1 = Some (Inr ?found, d2)"
      using assms(1) d1(2) unfolding serves_duplicates_def by blast
    have same: "filter (\<lambda>f. eq_ignore_ascii_case (fpd_name_hash f) ?h \<and> eq_ignore_ascii_case (fpd_content_hash f) (hash_text E hash_key (pe_sha1 E contents)))
        (filter is_candidate ?found) = filter (matches ?h (hash_text E hash_key (pe_sha1 E contents))) db"
      by (auto simp: matches_def eq_ignore_ascii_case_def assms(4) intro!: filter_cong)
    have run: "find_photo_duplicates E name contents d = (if filter is_candidate ?found = [] then Some (Inr [], d2)
        else Some (Inr (map (found_uid ?vid) (filter (\<lambda>f. eq_ignore_ascii_case (fpd_name_hash f) ?h \<and>
          eq_ignore_ascii_case (fpd_content_hash f) (hash_text E hash_key (pe_sha1 E contents))) (filter is_candidate ?found))), d2))"
      using d1(1) d2 by (simp add: find_photo_duplicates_def op_bind_def Let_def found_uid_def [abs_def] del: filter_filter)
    show ?thesis
    proof (cases "filter is_candidate ?found = []")
      case True
      then have "filter (matches ?h (hash_text E hash_key (pe_sha1 E contents))) db = []" unfolding same [symmetric] by simp
      then show ?thesis using run True by simp
    next
      case False
      then show ?thesis using run by (simp only: same if_False) blast
    qed
  qed
  have many: "\<exists>d'. find_photo_duplicates_many E (map (\<lambda>(name, contents). (name, pe_sha1 E contents)) photos) d =
      Some (Inr (map (\<lambda>(name, contents). ?ref name contents) photos), d')"
  proof (cases "photos = []")
    case False
    let ?hs = "map (\<lambda>x. hash_text E hash_key (fst x)) photos"
    let ?cs = "map (\<lambda>x. hash_text E hash_key (pe_sha1 E (snd x))) photos"
    obtain positions names where ix: "index_hashes 0 ?hs (Map.empty, []) = (positions, names)" by fastforce
    have "indexes ([] @ ?hs) (index_hashes (length ([] :: string list)) ?hs (Map.empty, []))"
      by (rule index_hashes_indexes) (simp add: indexes_def)
    then have indexed: "indexes ?hs (positions, names)" by (simp add: ix)
    have chunked: "concat (chunks DUPLICATE_BATCH names) = names" by (simp add: DUPLICATE_BATCH_def concat_chunks)
    let ?run = "duplicate_batches E root_uid (match_duplicate ?vid positions ?cs) (chunks DUPLICATE_BATCH names) (replicate (length photos) []) d1"
    obtain d2 where "?run = Some (Inr (map (\<lambda>j. replicate (length photos) [] ! j @ map (found_uid ?vid)
        (concat (map (\<lambda>c. filter (\<lambda>f. to_ascii_lowercase (fpd_name_hash f) \<in> set c \<and> matches (?hs ! j) (?cs ! j) f) db)
          (chunks DUPLICATE_BATCH names)))) [0..<length ?hs]), d2)"
      using duplicate_batches_exact [where vid = ?vid and contents = ?cs and cs = "chunks DUPLICATE_BATCH names"
          and out = "replicate (length photos) []", OF assms(1) indexed _ d1(2)]
      by (simp only: length_replicate length_map) blast
    moreover have "concat (map (\<lambda>c. filter (\<lambda>f. to_ascii_lowercase (fpd_name_hash f) \<in> set c \<and> matches (?hs ! j) (?cs ! j) f) db)
          (chunks DUPLICATE_BATCH names)) = filter (matches (?hs ! j) (?cs ! j)) db" if "j < length photos" for j
      using indexed that nth_mem [of j ?hs] by (intro one_chunk_matches) (auto simp: chunked indexes_def)
    ultimately have "?run = Some (Inr (map (\<lambda>(name, contents). ?ref name contents) photos), d2)"
      by (auto intro!: nth_equalityI simp: case_prod_beta)
    moreover have "find_photo_duplicates_many E (map (\<lambda>(name, contents). (name, pe_sha1 E contents)) photos) d = ?run"
      using False d1(1) ix by (simp add: find_photo_duplicates_many_def op_bind_def comp_def case_prod_beta assms(5) Let_def)
    ultimately show ?thesis by (metis (no_types))
  qed (simp add: find_photo_duplicates_many_def)
  then show ?thesis using single by (force simp: case_prod_beta)
qed

section \<open>An example library\<close>

text \<open>Album \<open>a\<close> holds a photo that is not in the timeline.  The server refuses to delete an album once,
  and to add the photo to another album without a related photo it names.\<close>

definition photo_details :: link_details_dto where
  "photo_details = (tree_details (LinkId ''q''))
     \<lparr>ld_link := (tree_link (LinkId ''q''))\<lparr>l_type := 2, l_name_hash := Some ''hash'', l_parent_id := Some (LinkId ''a''), l_passphrase := ''a''\<rparr>,
      ld_photo := Some \<lparr>ph_file = example_file, ph_capture_time = 0, ph_content_hash = None, ph_main_photo_link_id = None,
        ph_related_photo_link_ids = [], ph_tags = [], ph_album_inclusions = []\<rparr>\<rparr>"

definition sealed_folder :: "link_id \<Rightarrow> link_details_dto" where
  "sealed_folder i = (named_details i)\<lparr>ld_link := (tree_link i)\<lparr>l_parent_id := Some (LinkId ''a''), l_passphrase := ''sealed''\<rparr>\<rparr>"

definition photos_drive :: "(string, unit, bool) drive_env" where
  "photos_drive = (drive_on one_entity_repo \<lparr>js_to_string = (\<lambda>_. Inr ''p''), js_from_str = (\<lambda>_. Some tree_parent_info)\<rparr>)
     \<lparr>de_post_links := (\<lambda>path ids. op_return (if path \<noteq> links_path (VolumeId ''v'') True then [] else if ids = [LinkId ''q''] then [photo_details]
        else if ids = [LinkId ''r''] \<or> ids = [LinkId ''a''] \<or> ids = [LinkId ''b''] then map sealed_folder ids else [])),
      de_decrypt_message := (\<lambda>_ s. Inr (as_bytes s)),
      de_address := (\<lambda>aid. op_return \<lparr>adr_id = aid, adr_email = ''a@p'', adr_order = 1, adr_status = 1,
        adr_primary_key_index = 0, adr_primary_key_id = AddressKeyId ''k''\<rparr>),
      de_address_private_keys := (\<lambda>_. op_return [''k''])\<rparr>"

definition photos_nodes :: "(string, unit, unit, bool) node_env" where
  "photos_nodes = (nodes_on photos_drive)
     \<lparr>ne_xattr_verified := (\<lambda>_ _ _. op_return (\<lparr>dx_common = Some \<lparr>cx_size = Some 5, cx_modification_time = None,
        cx_block_sizes = None, cx_sha1 = Some ''da''\<rparr>, dx_location = None\<rparr>, VerificationOk)),
      ne_hmac_hex := (\<lambda>_ b. to_ascii_lowercase (map (\<lambda>c. char_of (unat c)) b))\<rparr>"

definition photos_ops :: "(string, unit, unit, bool) ops_env" where
  "photos_ops = (ops_on photos_drive)\<lparr>no_nodes := photos_nodes, no_delete := (\<lambda>_ refused.
     if refused then Some (Inr (), True)
     else Some (Inl (Api \<lparr>ae_code = AlbumContainsPhotosNotInTimeline, ae_http_status = 422, ae_message = [],
       ae_details = Some (JObject [(''ChildLinkIDs'', JArray [JString ''q''])])\<rparr>), True))\<rparr>"

definition duplicate_db :: "found_photo_duplicate_dto list" where
  "duplicate_db = map (\<lambda>(name, content, link). \<lparr>fpd_name_hash = name, fpd_content_hash = content, fpd_link_state = Some 1,
     fpd_client_uid = None, fpd_link_id = Some (LinkId link)\<rparr>) [(''X.JPG'', ''aa'', ''1''), (''x.jpg'', ''bb'', ''2''), (''y.jpg'', ''aa'', ''3'')]"

definition photos_example :: "(string, unit, unit, bool) photos_env" where
  "photos_example =
     \<lparr>pe_ops = photos_ops, pe_sha1 = (\<lambda>b. to_ascii_lowercase (map (\<lambda>c. char_of (unat c)) b)),
      pe_get_timeline = (\<lambda>_. op_return []),
      pe_post_duplicates = (\<lambda>_ hs. op_return (filter (\<lambda>f. to_ascii_lowercase (fpd_name_hash f) \<in> set hs) duplicate_db)),
      pe_post_album = (\<lambda>_ _. op_return (LinkId ''new'')), pe_put_album = (\<lambda>_ _. op_return ()), pe_post_remove = (\<lambda>_ _. op_return ()),
      pe_put_transfer = (\<lambda>_ _. op_return []),
      pe_post_add = (\<lambda>_ _. op_return [\<lparr>plo_link_id = LinkId ''q'', plo_response =
        \<lparr>pob_code = 2000, pob_error = Some ''incomplete'', pob_missing = Some [LinkId ''z'']\<rparr>\<rparr>]),
      pe_post_copy = (\<lambda>_ _. op_return (LinkId ''copy'')),
      pe_get_albums = (\<lambda>_. op_return \<lparr>an_items = [], an_anchor = None, an_more = False\<rparr>),
      pe_get_album_items = (\<lambda>_. op_return \<lparr>an_items = [], an_anchor = None, an_more = False\<rparr>),
      pe_get_shared_albums = (\<lambda>_. op_return \<lparr>an_items = [], an_anchor = None, an_more = False\<rparr>),
      pe_post_favorite = (\<lambda>_. op_return ()), pe_post_tags = (\<lambda>_ _. op_return ()), pe_delete_tags = (\<lambda>_ _. op_return ())\<rparr>"

definition photos_uid :: "string \<Rightarrow> node_uid" where
  "photos_uid l = NodeUid_new (VolumeId ''v'') (LinkId l)"

definition photos_state :: "bool \<Rightarrow> (string, unit, bool) drive" where
  "photos_state w =
     \<lparr>dv_world = w, dv_caches = \<lparr>cc_drive = DriveCache_default\<lparr>
        dc_main_volume_id := Some (VolumeId ''v''),
        dc_my_files_share := Some \<lparr>sk_share_id = ShareId ''x'', sk_address_id = AddressId ''a'', sk_key = ''s''\<rparr>,
        dc_my_files_root := Some (photos_uid ''m''), dc_photos_volume_exists := Some True,
        dc_photos_share := Some \<lparr>sk_share_id = ShareId ''y'', sk_address_id = AddressId ''a'', sk_key = ''s''\<rparr>,
        dc_photos_root := Some (photos_uid ''r''),
        dc_folder_keys := [photos_uid ''r'' \<mapsto> ''r'', photos_uid ''a'' \<mapsto> ''a'', photos_uid ''b'' \<mapsto> ''b'']\<rparr>, cc_entities = ()\<rparr>\<rparr>"

lemma photos_env_fields:
  "pe_ops photos_example = photos_ops" "pe_drive photos_example = photos_drive" "no_nodes photos_ops = photos_nodes"
  "ne_drive photos_nodes = photos_drive" "no_drive photos_ops = photos_drive"
  by (simp_all add: pe_drive_def no_drive_def photos_example_def photos_ops_def photos_nodes_def nodes_on_def)

lemma photos_links:
  "get_link_details_ctx photos_drive vid ids True d = Some (Inr (if vid \<noteq> VolumeId ''v'' then [] else if ids = [LinkId ''q''] then [photo_details]
     else if ids = [LinkId ''r''] \<or> ids = [LinkId ''a''] \<or> ids = [LinkId ''b''] then map sealed_folder ids else []), d)"
proof -
  have "links_path vid True = links_path (VolumeId ''v'') True \<longleftrightarrow> vid = VolumeId ''v''" by (cases vid) (simp add: links_path_def)
  then show ?thesis by (cases d) (simp add: get_link_details_ctx_def on_world_def photos_drive_def)
qed

lemma photos_exist: "ensure_photos photos_drive (photos_state w) = Some (Inr True, photos_state w)"
  by (simp add: ensure_photos_def op_bind_def photos_state_def drive_cache_of_def)

lemma photos_member:
  "photos_membership_address photos_drive (photos_state w) = Some (Inr (AddressId ''a'', ''a@p'', ''k''), photos_state w)"
proof -
  have share: "dc_photos_share (drive_cache_of (photos_state w)) = Some \<lparr>sk_share_id = ShareId ''y'', sk_address_id = AddressId ''a'', sk_key = ''s''\<rparr>"
    by (simp add: photos_state_def drive_cache_of_def)
  have "resolve_membership_address photos_drive (AddressId ''a'') (photos_state w) = Some (Inr (AddressId ''a'', ''a@p'', ''k''), photos_state w)"
    by (simp add: resolve_membership_address_def op_bind_def on_world_def photos_drive_def)
  then show ?thesis by (simp add: photos_membership_address_def op_bind_def photos_exist share)
qed

lemma photos_keys:
  "photos_root_keys photos_example e (photos_state w) = Some (Inr (photos_uid ''r'', ''r'', as_bytes ''key''), photos_state w)"
  "album_target photos_example (photos_uid ''b'') (photos_state w) = Some (Inr \<lparr>ptt_uid = photos_uid ''b'', ptt_kind = TransferAlbum,
     ptt_key = ''b'', ptt_hash_key = as_bytes ''key'', ptt_email = ''a@p'', ptt_signing_key = ''k''\<rparr>, photos_state w)"
proof -
  have root: "photos_root_of (photos_state w) = photos_uid ''r''"
    by (simp add: photos_root_of_def photos_state_def drive_cache_of_def)
  have key: "folder_node_key photos_drive (photos_uid l) (photos_state w) = Some (Inr l, photos_state w)" if "l = ''r'' \<or> l = ''b''" for l
    using that by (auto simp: folder_node_key_def op_bind_def photos_state_def drive_cache_of_def folder_key_def photos_uid_def)
  have hash_key: "parent_hash_key_ctx photos_drive (photos_uid l) k True (photos_state w) = Some (Inr (as_bytes ''key''), photos_state w)"
    if "l = ''r'' \<or> l = ''b''" for l k
    using that by (auto simp: parent_hash_key_ctx_def op_bind_def photos_links photos_uid_def NodeUid_new_def sealed_folder_def named_details_def folder_properties_def)
      (simp_all add: photos_drive_def)
  show "photos_root_keys photos_example e (photos_state w) = Some (Inr (photos_uid ''r'', ''r'', as_bytes ''key''), photos_state w)"
    by (simp add: photos_root_keys_def op_bind_def photos_env_fields photos_exist root key hash_key)
  show "album_target photos_example (photos_uid ''b'') (photos_state w) = Some (Inr \<lparr>ptt_uid = photos_uid ''b'', ptt_kind = TransferAlbum,
     ptt_key = ''b'', ptt_hash_key = as_bytes ''key'', ptt_email = ''a@p'', ptt_signing_key = ''k''\<rparr>, photos_state w)"
    by (simp add: album_target_def op_bind_def photos_env_fields key hash_key photos_member)
qed

definition photo_node :: node where
  "photo_node = node_of (VolumeId ''v'') photo_details ''p:name'' (file_kind_of example_file
     (nothing_claimed\<lparr>cm_size := Some 5, cm_sha1 := Some ''da'', cm_status := Some VerificationOk\<rparr>)) None Admin
     (photo_of (VolumeId ''v'') photo_details None) None (NodeVerification_default\<lparr>nv_extended_attributes := Some VerificationOk\<rparr>)"

lemma photo_parts:
  "ld_link photo_details = (tree_link (LinkId ''q''))\<lparr>l_type := 2, l_name_hash := Some ''hash'', l_parent_id := Some (LinkId ''a''), l_passphrase := ''a''\<rparr>"
  "file_properties photo_details = Some example_file" "ld_membership photo_details = None" "ld_sharing photo_details = None"
  by (simp_all add: photo_details_def file_properties_def tree_details_def)

lemma photo_parent_key:
  "resolve_parent_key_ctx photos_drive (VolumeId ''v'') (ld_link photo_details) True (photos_state w) = Some (Inr ''a'', photos_state w)"
  by (simp add: resolve_parent_key_ctx_def op_bind_def photo_parts(1) photos_state_def drive_cache_of_def folder_key_def photos_uid_def)

lemma photo_opened:
  "open_link photos_nodes (ld_link photo_details) ''a'' Full (photos_state w) = Some (Inr (''p:name'', Some ''q'', NodeVerification_default), photos_state w)"
  by (simp add: open_link_def op_bind_def wants_node_key_def photos_nodes_def nodes_on_def on_world_def photos_drive_def drive_on_def photo_parts(1))
    (simp add: tree_link_def example_link_def photos_state_def)

lemma photo_kind:
  "build_kind photos_nodes (VolumeId ''v'') photo_details (Some ''q'') NodeVerification_default (photos_state w) =
     Some (Inr (n_kind photo_node, None, n_photo photo_node, n_verification photo_node), photos_state w)"
proof -
  have ty: "parsed_type (ld_link photo_details) = LtFile" by (simp add: photo_parts(1) parsed_type_def LinkType_from_raw_def)
  have ck: "content_key_status photos_nodes link example_file k d = Some (Inr None, d)" for link k and d :: "(string, unit, bool) drive"
    by (simp add: content_key_status_def example_file_def split: option.split)
  have cm: "claimed_metadata_of photos_nodes example_file (Some ''q'') (photos_state w) =
      Some (Inr (nothing_claimed\<lparr>cm_size := Some 5, cm_sha1 := Some ''da'', cm_status := Some VerificationOk\<rparr>), photos_state w)"
    by (simp add: claimed_metadata_of_def example_file_def op_bind_def op_try_def on_world_def photos_nodes_def nothing_claimed_def photos_state_def)
  show ?thesis
    by (simp add: build_kind_def ty photo_parts(2) op_bind_def ck cm Let_def photo_node_def node_of_def nothing_claimed_def)
qed

lemma own_volume: "is_own_volume photos_drive (VolumeId ''v'') (photos_state w) = Some (Inr True, photos_state w)"
  by (simp add: is_own_volume_def op_bind_def op_try_def drive_main_volume_id_def op_then_def ensure_my_files_def photos_state_def drive_cache_of_def Let_def)

lemma photo_cached: "cache_built_node photos_nodes (ld_link photo_details) n True (photos_state w) = Some (Inr (), photos_state w)"
  by (simp add: cache_built_node_def photo_parts(1) op_bind_def op_then_def op_try_def on_entities_def set_node_def set_json_def
      photos_nodes_def nodes_on_def photos_drive_def drive_on_def one_entity_repo_def photos_state_def)

lemma photo_node_read: "get_photos_node photos_nodes (photos_uid ''q'') (photos_state w) = Some (Inr (Some photo_node), photos_state w)"
proof -
  have uid: "uid_volume (photos_uid ''q'') = VolumeId ''v''" "uid_link (photos_uid ''q'') = LinkId ''q''"
    by (simp_all add: photos_uid_def NodeUid_new_def)
  have node: "node_of (VolumeId ''v'') photo_details ''p:name'' (n_kind photo_node) None Admin (n_photo photo_node) None (n_verification photo_node) = photo_node"
    by (simp add: photo_node_def node_of_def Let_def)
  show ?thesis
    by (simp add: get_photos_node_def op_bind_def op_then_def photos_env_fields(4) uid photos_links photo_parent_key build_node_ctx_def photo_opened
        photo_kind own_volume photo_cached membership_of_def photo_parts(3) node Let_def)
qed

lemma no_other_photo:
  assumes "u \<noteq> photos_uid ''q''"
  shows "\<exists>r. get_photos_node photos_nodes u (photos_state w) = Some (r, photos_state w) \<and> r \<in> {Inr None, Inl KeysLocked}"
proof (cases "uid_volume u = VolumeId ''v'' \<and> uid_link u \<in> {LinkId ''r'', LinkId ''a'', LinkId ''b''}")
  case True
  have link: "ld_link (sealed_folder i) = (tree_link i)\<lparr>l_parent_id := Some (LinkId ''a''), l_passphrase := ''sealed''\<rparr>" for i
    by (simp add: sealed_folder_def named_details_def tree_details_def)
  have key: "resolve_parent_key_ctx photos_drive (VolumeId ''v'') (ld_link (sealed_folder i)) True (photos_state w) = Some (Inr ''a'', photos_state w)" for i
    by (simp add: resolve_parent_key_ctx_def op_bind_def link photos_state_def drive_cache_of_def folder_key_def photos_uid_def)
  have "open_link photos_nodes (ld_link (sealed_folder i)) ''a'' Full (photos_state w) = Some (Inl KeysLocked, photos_state w)" for i
    by (simp add: open_link_def op_bind_def wants_node_key_def photos_nodes_def nodes_on_def on_world_def photos_drive_def drive_on_def link)
  then show ?thesis
    using True by (auto simp: get_photos_node_def op_bind_def photos_env_fields(4) photos_links key build_node_ctx_def)
next
  case False
  have "u = NodeUid_new (uid_volume u) (uid_link u)" by (cases u) (simp add: NodeUid_new_def)
  then have "\<not> (uid_volume u = VolumeId ''v'' \<and> uid_link u = LinkId ''q'')" using assms by (metis photos_uid_def)
  then show ?thesis using False by (auto simp: get_photos_node_def op_bind_def photos_env_fields(4) photos_links)
qed


lemma payload_run:
  "\<exists>r. photo_target_payload photos_example u tg (photos_state w) = Some (r, photos_state w) \<and>
     (u = photos_uid ''q'' \<longrightarrow> (\<exists>p. r = Inr p \<and> php_parent_uid p = Some (photos_uid ''a'') \<and> php_original_name_hash p = Some ''hash''))"
proof (cases "u = photos_uid ''q''")
  case True
  have kind: "n_kind photo_node = KFile fk \<Longrightarrow> fk_content_sha1 fk = Some ''da''" for fk
    by (auto simp: photo_node_def node_of_def file_kind_of_def Let_def)
  obtain fk where fk: "n_kind photo_node = KFile fk" by (simp add: photo_node_def node_of_def file_kind_of_def Let_def)
  have uid: "uid_volume u = VolumeId ''v''" "uid_link u = LinkId ''q''" by (simp_all add: True photos_uid_def)
  have rewrap: "on_world (no_rewrap photos_ops k m dest) (photos_state w) = Some (Inr m, photos_state w)"
    "on_world (no_encrypt_and_sign photos_ops k1 k2 b x y) (photos_state w) = Some (Inr ''sealed'', photos_state w)" for k m dest k1 k2 b x y
    by (simp_all add: on_world_def photos_ops_def ops_on_def photos_state_def)
  show ?thesis
    using True photo_node_read [of w]
    by (simp add: photo_target_payload_def op_bind_def photos_env_fields fk kind [OF fk] uid photos_links photo_parent_key rewrap)
       (simp add: photo_parts(1) photos_uid_def)
next
  case False
  then obtain r where "get_photos_node photos_nodes u (photos_state w) = Some (r, photos_state w)" "r \<in> {Inr None, Inl KeysLocked}"
    using no_other_photo by blast
  then show ?thesis using False by (auto simp: photo_target_payload_def op_bind_def photos_env_fields)
qed

lemma transfer_payload_run:
  "\<exists>r. transfer_photo_payload photos_example u extra tg (photos_state w) = Some (r, photos_state w)"
proof -
  obtain r where r: "photo_target_payload photos_example u tg (photos_state w) = Some (r, photos_state w)"
    "u = photos_uid ''q'' \<Longrightarrow> \<exists>p. r = Inr p" using payload_run by blast
  show ?thesis
  proof (cases r)
    case (Inl e)
    then show ?thesis using r(1) by (simp add: transfer_photo_payload_def op_bind_def)
  next
    case (Inr p)
    obtain f where f: "get_photos_node photos_nodes u (photos_state w) = Some (f, photos_state w)"
      using photo_node_read no_other_photo by (cases "u = photos_uid ''q''") blast+
    obtain g where "\<And>u. photo_target_payload photos_example u tg (photos_state w) = Some (g u, photos_state w)"
      using payload_run [of _ tg w] by metis
    then have "\<exists>d'. load_each (\<lambda>u. photo_target_payload photos_example u tg) us [] (photos_state w) = Some (Inr ([] @
        List.map_filter (\<lambda>x. case g x of Inr y \<Rightarrow> Some y | Inl _ \<Rightarrow> None) us), d') \<and> d' = photos_state w" for us
      by (intro load_each_exact [where P = "\<lambda>d. d = photos_state w"]) auto
    then have related: "\<exists>rs. load_each (\<lambda>u. photo_target_payload photos_example u tg) us [] (photos_state w) = Some (Inr rs, photos_state w)" for us
      by blast
    show ?thesis
    proof (cases "php_parent_uid p = Some (ptt_uid tg)")
      case True
      then show ?thesis using r(1) Inr by (simp add: transfer_photo_payload_def op_bind_def)
    next
      case False
      then have rest: "transfer_photo_payload photos_example u extra tg (photos_state w) =
          op_bind (op_of f) (\<lambda>found. op_bind (op_ok_or (photo_not_found u) found) (\<lambda>nd.
          op_bind (load_each (\<lambda>u. photo_target_payload photos_example u tg)
            (merge_related (case n_photo nd of Some p \<Rightarrow> pp_related_photo_uids p | None \<Rightarrow> []) extra) []) (\<lambda>related.
              op_return \<lparr>ptp_photo = p, ptp_related = related\<rparr>))) (photos_state w)"
        using r(1) Inr f by (simp add: transfer_photo_payload_def op_bind_def photos_env_fields)
      show ?thesis
      proof (cases f)
        case (Inr found)
        show ?thesis
        proof (cases found)
          case (Some nd)
          obtain rs where "load_each (\<lambda>u. photo_target_payload photos_example u tg)
            (merge_related (case n_photo nd of Some p \<Rightarrow> pp_related_photo_uids p | None \<Rightarrow> []) extra) [] (photos_state w) = Some (Inr rs, photos_state w)"
            using related by blast
          then show ?thesis unfolding rest Inr Some by (simp add: op_bind_def)
        qed (simp add: rest Inr)
      qed (simp add: rest)
    qed
  qed
qed

lemma photos_world: "(photos_state w)\<lparr>dv_world := w'\<rparr> = photos_state w'" "dv_world (photos_state w) = w"
  by (simp_all add: photos_state_def)

lemma photos_transfers_return: "transfers_return photos_example tg (\<lambda>d. \<exists>w. d = photos_state w)"
proof -
  let ?P = "\<lambda>d. \<exists>w. d = photos_state w"
  have "op_returns ?P (on_world (pe_put_transfer photos_example path moves))" "op_returns ?P (on_world (pe_post_add photos_example path adds))"
    "op_returns ?P (on_world (pe_post_copy photos_example path copy))" for path moves adds copy
    by (auto simp: op_returns_def op_wp_iff on_world_def photos_world photos_example_def)
  moreover have "op_returns ?P (transfer_photo_payload photos_example u extra tg)" for u extra
    using transfer_payload_run unfolding op_returns_def op_wp_iff by blast
  ultimately show ?thesis unfolding transfers_return_def by blast
qed


theorem added_photos_in_input_order_witness:
  "\<exists>r d'. add_photos_to_album photos_example (photos_uid ''b'') [photos_uid ''q'', photos_uid ''z''] (photos_state True) = Some (r, d') \<and>
     (case r of Inr outs \<Rightarrow> map fst outs = [photos_uid ''q'', photos_uid ''z''] | Inl _ \<Rightarrow> True)"
  by (rule added_photos_in_input_order [OF photos_keys(2) photos_transfers_return]) (auto simp: photos_uid_def)


theorem album_deletion_saves_photos_witness:
  "\<exists>d'. delete_album_saving_photos photos_example (photos_uid ''a'') (photos_state False) = Some (Inr (), d') \<and>
     (\<exists>outs d2. save_photos_to_timeline photos_example [photos_uid ''q''] (photos_state True) = Some (Inr outs, d2) \<and>
        (photos_uid ''q'', Inr ()) \<in> set outs \<and> delete_album photos_example (photos_uid ''a'') False d2 = Some (Inr (), d'))"
proof -
  let ?P = "\<lambda>d. \<exists>w. d = photos_state w"
  let ?e = "\<lparr>ae_code = AlbumContainsPhotosNotInTimeline, ae_http_status = 422, ae_message = [],
       ae_details = Some (JObject [(''ChildLinkIDs'', JArray [JString ''q''])])\<rparr>"
  have listed: "photos_only_in_album ?e (VolumeId ''v'') = [photos_uid ''q'']"
    by (simp add: photos_only_in_album_def listed_links_def map_filter_simps photos_uid_def)
  have delete: "delete_album photos_example (photos_uid ''a'') False (photos_state w) =
      Some (if w then Inr () else Inl (Api ?e), photos_state True)" for w
    by (cases w) (simp_all add: delete_album_def on_world_def photos_env_fields(1) photos_world photos_ops_def)
  let ?tg = "\<lparr>ptt_uid = photos_uid ''r'', ptt_kind = TransferTimeline, ptt_key = ''r'', ptt_hash_key = as_bytes ''key'',
     ptt_email = ''a@p'', ptt_signing_key = ''k''\<rparr>"
  obtain p where p: "photo_target_payload photos_example (photos_uid ''q'') ?tg (photos_state True) = Some (Inr p, photos_state True)"
    "php_parent_uid p = Some (photos_uid ''a'')" "php_original_name_hash p = Some ''hash''"
    using payload_run [of "photos_uid ''q''" ?tg True] by auto
  have puid: "php_uid p = photos_uid ''q''" using p(1) by (auto simp: photo_target_payload_def op_bind_Inr)
  have apart: "photos_uid ''a'' \<noteq> photos_uid ''r''" by (simp add: photos_uid_def)
  have related: "n_photo photo_node = Some pr \<Longrightarrow> pp_related_photo_uids pr = []" for pr
    by (auto simp: photo_node_def node_of_def photo_of_def photo_details_def Let_def)
  have payload: "transfer_photo_payload photos_example (photos_uid ''q'') [] ?tg (photos_state True) =
      Some (Inr \<lparr>ptp_photo = p, ptp_related = []\<rparr>, photos_state True)"
    using p apart photo_node_read [of True] related
    by (auto simp: transfer_photo_payload_def op_bind_def photos_env_fields merge_related_def split: option.splits)
  have moved: "transfer_photos photos_example ?tg [photos_uid ''q''] (photos_state True) = Some (Inr [(photos_uid ''q'', Inr ())], photos_state True)"
  proof -
    have put: "on_world (pe_put_transfer photos_example path req) (photos_state True) = Some (Inr [], photos_state True)" for path req
      by (simp add: on_world_def photos_world photos_example_def)
    let ?tr = "\<lparr>tr_queue = [(photos_uid ''q'', [])], tr_retried = {}, tr_outcomes = []\<rparr>"
    have same_volume: "uid_volume (photos_uid l) = VolumeId ''v''" for l by (simp add: photos_uid_def)
    have empty: "load_payloads photos_example ?tg n [x] [] (?tr\<lparr>tr_queue := []\<rparr>) = op_return ([x], [], ?tr\<lparr>tr_queue := []\<rparr>)" for n x
      by (cases n) simp_all
    have "load_payloads photos_example ?tg (Suc n) [] [] ?tr (photos_state True) =
        Some (Inr ([\<lparr>ptp_photo = p, ptp_related = []\<rparr>], [], ?tr\<lparr>tr_queue := []\<rparr>), photos_state True)" for n
      using empty [of n] by (simp add: op_bind_def op_try_def payload puid same_volume)
    from this [of 19] have loaded: "load_payloads photos_example ?tg LOAD_BATCH [] [] ?tr (photos_state True) =
        Some (Inr ([\<lparr>ptp_photo = p, ptp_related = []\<rparr>], [], ?tr\<lparr>tr_queue := []\<rparr>), photos_state True)"
      by (simp only: LOAD_BATCH_def) simp
    have round: "transfer_round photos_example ?tg \<lparr>tr_queue = [(photos_uid ''q'', [])], tr_retried = {}, tr_outcomes = []\<rparr> (photos_state True) =
        Some (Inr \<lparr>tr_queue = [], tr_retried = {}, tr_outcomes = [(photos_uid ''q'', Inr ())]\<rparr>, photos_state True)"
      unfolding transfer_round_def
      by (simp add: op_bind_def loaded puid transfer_photo_batch_def transfer_link_item_def p(3) put
          record_transfer_outcomes_def record_transfer_outcome_def tr_report_def link_count_def Let_def)
    show ?thesis
      unfolding transfer_photos_def
      by (subst transfer_rounds.simps) (simp add: op_bind_def round transfer_rounds.simps)
  qed
  have saved: "save_photos_to_timeline photos_example [photos_uid ''q''] (photos_state True) = Some (Inr [(photos_uid ''q'', Inr ())], photos_state True)"
    by (simp add: save_photos_to_timeline_def op_bind_def photos_keys(1) photos_env_fields photos_member moved)
  have vol: "uid_volume (photos_uid ''a'') = VolumeId ''v''" by (simp add: photos_uid_def)
  have run: "delete_album_saving_photos photos_example (photos_uid ''a'') (photos_state False) = Some (Inr (), photos_state True)"
    by (simp add: delete_album_saving_photos_def op_bind_def op_try_def delete listed vol saved)
  have "op_keeps ?P (delete_album photos_example (photos_uid ''a'') False)" "op_keeps ?P (photos_root_keys photos_example e)"
    "op_keeps ?P (photos_membership_address (pe_drive photos_example))" for e
    by (auto simp: op_keeps_def delete photos_keys(1) photos_env_fields photos_member)
  from album_deletion_saves_photos [OF run _ photos_transfers_return this(1,2,3)] run
  show ?thesis by (auto simp: delete vol listed)
qed

theorem find_duplicates_agree_witness:
  "\<exists>outs d'. find_photo_duplicates_many photos_example [(''X.jpg'', ''aa''), (''y.jpg'', ''bb'')] (photos_state True) = Some (Inr outs, d') \<and>
     length outs = 2 \<and> (\<exists>d'. find_photo_duplicates photos_example ''X.jpg'' [97, 97] (photos_state True) = Some (Inr (outs ! 0), d'))"
proof -
  let ?P = "\<lambda>d. d = photos_state True"
  let ?photos = "[(''X.jpg'', [97, 97]), (''y.jpg'', [98, 98])] :: (string \<times> bytes) list"
  have lower: "to_ascii_lowercase (to_ascii_lowercase s) = to_ascii_lowercase s" for s
    by (auto simp: to_ascii_lowercase_def)
  have hash: "hash_text photos_example k t = to_ascii_lowercase (map (\<lambda>c. char_of (unat c)) (as_bytes t))" for k t
    by (simp add: hash_text_def name_hash_of_def photos_env_fields) (simp add: photos_nodes_def)
  have sha1: "pe_sha1 photos_example b = to_ascii_lowercase (map (\<lambda>c. char_of (unat c)) b)" for b by (simp add: photos_example_def)
  have db: "serves_duplicates photos_example (photos_uid ''r'') duplicate_db ?P"
    by (simp add: serves_duplicates_def on_world_def photos_world photos_example_def)
  have "\<exists>outs d'. find_photo_duplicates_many photos_example (map (\<lambda>(name, contents). (name, pe_sha1 photos_example contents)) ?photos)
        (photos_state True) = Some (Inr outs, d') \<and> length outs = length ?photos \<and>
     (\<forall>i<length ?photos. \<exists>d'. find_photo_duplicates photos_example (fst (?photos ! i)) (snd (?photos ! i)) (photos_state True) = Some (Inr (outs ! i), d'))"
    by (rule find_duplicates_agree [OF db]) (auto simp: photos_keys(1) hash sha1 lower)
  then obtain outs d' where "find_photo_duplicates_many photos_example (map (\<lambda>(name, contents). (name, pe_sha1 photos_example contents)) ?photos)
        (photos_state True) = Some (Inr outs, d')" "length outs = 2"
     "\<exists>d'. find_photo_duplicates photos_example (fst (?photos ! 0)) (snd (?photos ! 0)) (photos_state True) = Some (Inr (outs ! 0), d')"
    by (metis length_0_conv length_Cons list.discI list.size(3) numeral_2_eq_2 zero_less_Suc One_nat_def)
  moreover have "pe_sha1 photos_example [97, 97] = ''aa''" "pe_sha1 photos_example [98, 98] = ''bb''"
    unfolding sha1 by code_simp+
  ultimately show ?thesis by auto
qed

end
