(* ===== verification/Device_Ops.thy ===== *)
theory Device_Ops
  imports Node_Ops
begin

text \<open>
  Devices (\<open>proton-drive-rs/src/client.rs\<close>): listing them with their names, registering,
  renaming and deleting.  A device is a share of its own with a root folder; its name is the
  name of that folder, encrypted to the share key.  \<open>device_env\<close> extends \<open>ops_env\<close>
  by the session keys of messages, the two device endpoints and the clock.
\<close>

section \<open>Wire types and the interface\<close>

record device_creation_device_dto =
  dcd_device_type :: int
  dcd_sync_state :: int

record device_creation_share_dto =
  dcs_address_id :: address_id
  dcs_address_key_id :: address_key_id
  dcs_key :: string
  dcs_passphrase :: string
  dcs_passphrase_signature :: string

record device_creation_link_dto =
  dcl_name :: string
  dcl_key :: string
  dcl_passphrase :: string
  dcl_passphrase_signature :: string
  dcl_node_hash_key :: string

record device_creation_request =
  dcq_device :: device_creation_device_dto
  dcq_share :: device_creation_share_dto
  dcq_link :: device_creation_link_dto

record device_creation_result_dto =
  dcr_id :: device_uid
  dcr_share_id :: share_id
  dcr_root_link_id :: link_id

record device_update_share_dto =
  dus_name :: string

record device_update_request =
  duq_share :: device_update_share_dto

record ('k, 'p, 's, 'c, 'w) device_env =
  dx_ops :: "('k, 'p, 's, 'w) ops_env"
  dx_recover_session_key :: "'k \<Rightarrow> string \<Rightarrow> 'c result"
  dx_encrypt_and_sign_text_to :: "'c \<Rightarrow> 'k \<Rightarrow> 'k \<Rightarrow> bytes \<Rightarrow> (string, 'w) op"
  dx_now :: "'w \<Rightarrow> int"
  dx_post_device :: "string \<Rightarrow> device_creation_request \<Rightarrow> (device_creation_result_dto, 'w) op"
  dx_put_device :: "string \<Rightarrow> device_update_request \<Rightarrow> (unit, 'w) op"

definition dx_drive :: "('k, 'p, 's, 'c, 'w) device_env \<Rightarrow> ('k, 's, 'w) drive_env" where
  "dx_drive E = no_drive (dx_ops E)"

section \<open>Listing\<close>

text \<open>A name that does not resolve is the device's name as an error.\<close>

fun name_devices ::
  "('k, 's, 'w) drive_env \<Rightarrow> device_metadata list \<Rightarrow> (device list, ('k, 's, 'w) drive) op" where
  "name_devices E [] = op_return []"
| "name_devices E (m # ms) =
     op_bind (op_try (device_root_folder_name E m)) (\<lambda>name.
     op_bind (name_devices E ms) (\<lambda>devices. op_return (into_device m name # devices)))"

definition enumerate_devices ::
  "('k, 'p, 's, 'c, 'w) device_env \<Rightarrow> (device list, ('k, 's, 'w) drive) op" where
  "enumerate_devices E = op_bind (device_metadata_op (dx_drive E)) (name_devices (dx_drive E))"

section \<open>Registering\<close>

definition device_creation_request_of ::
  "address_id \<Rightarrow> address_key_id \<Rightarrow> device_type \<Rightarrow> volume_creation_material \<Rightarrow> device_creation_request" where
  "device_creation_request_of aid key_id ty material =
     \<lparr>dcq_device = \<lparr>dcd_device_type = DeviceType_as_i32 ty, dcd_sync_state = 0\<rparr>,
      dcq_share = \<lparr>dcs_address_id = aid, dcs_address_key_id = key_id, dcs_key = vm_share_key_armored material,
        dcs_passphrase = vm_share_passphrase material,
        dcs_passphrase_signature = vm_share_passphrase_signature material\<rparr>,
      dcq_link = \<lparr>dcl_name = vm_folder_name material, dcl_key = vm_folder_key_armored material,
        dcl_passphrase = vm_folder_passphrase material,
        dcl_passphrase_signature = vm_folder_passphrase_signature material,
        dcl_node_hash_key = vm_folder_hash_key material\<rparr>\<rparr>"

definition create_device ::
  "('k, 'p, 's, 'c, 'w) device_env \<Rightarrow> string \<Rightarrow> device_type \<Rightarrow> (device, ('k, 's, 'w) drive) op" where
  "create_device E name ty =
     op_bind (get_my_files_folder (no_nodes (dx_ops E))) (\<lambda>root.
     op_bind (membership_address_for (dx_drive E) (n_uid root)) (\<lambda>(aid, _, address_key).
     op_bind (address_primary_key_id (dx_drive E) aid) (\<lambda>key_id.
     op_bind (on_world (de_volume_material (dx_drive E) address_key name)) (\<lambda>material.
     op_bind (on_world (dx_post_device E ''devices'' (device_creation_request_of aid key_id ty material))) (\<lambda>created.
     op_bind (op_get (\<lambda>d. dx_now E (dv_world d))) (\<lambda>now.
       op_return \<lparr>dev_uid = dcr_id created, dev_device_type = ty, dev_name = Inr name,
         dev_root_folder_uid = NodeUid_new (uid_volume (n_uid root)) (dcr_root_link_id created),
         dev_creation_time = now, dev_last_sync_time = None, dev_share_id = dcr_share_id created\<rparr>))))))"

section \<open>Renaming and deleting\<close>

definition device_path :: "device_uid \<Rightarrow> string" where
  "device_path uid = ''devices/'' @ device_uid_str uid"

definition clear_deprecated_name ::
  "('k, 'p, 's, 'c, 'w) device_env \<Rightarrow> device_metadata \<Rightarrow> (unit, ('k, 's, 'w) drive) op" where
  "clear_deprecated_name E m =
     (if dm_has_deprecated_name m
      then op_then (op_try (on_world (dx_put_device E (device_path (dm_uid m)) \<lparr>duq_share = \<lparr>dus_name = []\<rparr>\<rparr>)))
             (op_return ())
      else op_return ())"

definition device_root_name ::
  "('k, 'p, 's, 'c, 'w) device_env \<Rightarrow> node_uid \<Rightarrow> (string, ('k, 's, 'w) drive) op" where
  "device_root_name E uid =
     op_bind (get_link_details (dx_drive E) (uid_volume uid) [uid_link uid]) (\<lambda>links.
       op_ok_or (InvalidOperation (''device root folder '' @ NodeUid_display uid @ '' not found''))
         (map_option (\<lambda>d. l_name (ld_link d)) (List.find (\<lambda>d. l_id (ld_link d) = uid_link uid) links)))"

definition rename_device ::
  "('k, 'p, 's, 'c, 'w) device_env \<Rightarrow> device_uid \<Rightarrow> string \<Rightarrow> (device, ('k, 's, 'w) drive) op" where
  "rename_device E uid name =
     op_bind (device_metadata_by_uid (dx_drive E) uid) (\<lambda>m.
     op_then (clear_deprecated_name E m)
     (op_bind (share_key_by_id (dx_drive E) (dm_share_id m)) (\<lambda>(share_key, membership_aid).
      op_bind (resolve_membership_address (dx_drive E) membership_aid) (\<lambda>(_, email, signing_key).
      op_bind (device_root_name E (dm_root_folder_uid m)) (\<lambda>current_name.
      op_bind (op_of (dx_recover_session_key E share_key current_name)) (\<lambda>name_session_key.
      op_bind (on_world (dx_encrypt_and_sign_text_to E name_session_key share_key signing_key (as_bytes name))) (\<lambda>encrypted_name.
      op_then (on_world (no_put_rename (dx_ops E) (link_path ''v2/'' (dm_root_folder_uid m) ''/rename'')
        \<lparr>rlr_name = encrypted_name, rlr_name_hash = [], rlr_name_signature_email = email,
         rlr_media_type = None, rlr_original_hash = []\<rparr>))
        (op_return (into_device m (Inr name))))))))))"

definition delete_device ::
  "('k, 'p, 's, 'c, 'w) device_env \<Rightarrow> device_uid \<Rightarrow> (unit, ('k, 's, 'w) drive) op" where
  "delete_device E uid = on_world (no_delete (dx_ops E) (device_path uid))"

section \<open>The provider\<close>

definition account_devices ::
  "('sk, 'pub, 'sig, 'msg, 'w) account_env \<Rightarrow> ('sk, 'pub, 'ek, 'pk, 'sd, 'w) pgp_lib \<Rightarrow> ('sk, 'ek, 'sg, 'w) write_lib
     \<Rightarrow> xattr_decoder \<Rightarrow> ('sk private_key, 'pub, 's, content_key, ('sk, 'pub, 'w) account) device_env
     \<Rightarrow> ('sk private_key, 'pub, 's, content_key, ('sk, 'pub, 'w) account) device_env" where
  "account_devices A L W js endpoints =
     endpoints
       \<lparr>dx_ops := account_ops A L W js (dx_ops endpoints),
        dx_recover_session_key := (\<lambda>k m. from_crypto (recover_message_session_key L k m)),
        dx_encrypt_and_sign_text_to := (\<lambda>sk r signer b. account_gen (encrypt_and_sign_text_to L sk r signer b))\<rparr>"

section \<open>Properties\<close>

text \<open>What a listing leaves of each device is its metadata and one outcome of its name.\<close>

lemma name_devices_reports:
  "name_devices E ms d = Some (r, d') \<Longrightarrow>
     \<exists>names. r = Inr (map2 into_device ms names) \<and> length names = length ms"
proof (induction ms arbitrary: d r d')
  case (Cons m ms)
  obtain name d1 where name: "op_try (device_root_folder_name E m) d = Some (Inr name, d1)"
    using Cons.prems by (cases "device_root_folder_name E m d") (auto simp: op_try_def op_bind_def)
  obtain q d2 where rest: "name_devices E ms d1 = Some (q, d2)"
    using Cons.prems name by (cases "name_devices E ms d1") (auto simp: op_bind_eval op_bind_def)
  obtain names where q: "q = Inr (map2 into_device ms names)" and len: "length names = length ms"
    using Cons.IH [OF rest] by blast
  have "r = Inr (into_device m name # map2 into_device ms names)"
    using Cons.prems name rest q by (simp add: op_bind_eval)
  then show ?case using len by (intro exI [of _ "name # names"]) simp
qed simp

text \<open>Listing the devices reports each registered device exactly once, in the order of the
  server, whatever becomes of their names: a name that does not decrypt is an error in its own
  device, never a failure of the listing.\<close>

theorem devices_listed_complete:
  assumes "de_get_devices (dx_drive E) ''devices'' (dv_world d) = Some (Inr items, w)"
    and "device_metadata_of items = Inr ms"
    and "enumerate_devices E d = Some (r, d')"
  shows "\<exists>devices. r = Inr devices \<and> map dev_uid devices = map (\<lambda>item. ddd_id (dli_device item)) items \<and>
     map dev_share_id devices = map (\<lambda>item. dsd_id (dli_share item)) items"
proof -
  have meta: "device_metadata_op (dx_drive E) d = Some (Inr ms, d\<lparr>dv_world := w\<rparr>)"
    using assms(1,2) by (simp add: device_metadata_op_def on_world_def op_bind_def)
  have "name_devices (dx_drive E) ms (d\<lparr>dv_world := w\<rparr>) = Some (r, d')"
    using assms(3) meta by (simp add: enumerate_devices_def op_bind_eval)
  then obtain names where r: "r = Inr (map2 into_device ms names)" and len: "length names = length ms"
    using name_devices_reports by blast
  have fields: "map dm_uid ms = map (\<lambda>item. ddd_id (dli_device item)) items \<and>
     map dm_share_id ms = map (\<lambda>item. dsd_id (dli_share item)) items"
    using assms(2) by (induction items arbitrary: ms) (auto simp: sum_bind_Inr)
  have "map dev_uid (map2 into_device ms names) = map dm_uid ms \<and>
     map dev_share_id (map2 into_device ms names) = map dm_share_id ms"
    using len [symmetric] by (induction ms names rule: list_induct2) (auto simp: into_device_def)
  then show ?thesis using r fields by simp
qed


section \<open>Examples\<close>

text \<open>Two devices, of which the names do not resolve because no share is served.\<close>

definition listed_device :: "string \<Rightarrow> int \<Rightarrow> device_list_item_dto" where
  "listed_device n ty =
     \<lparr>dli_device = \<lparr>ddd_id = DeviceUid n, ddd_volume_id = VolumeId ''v'', ddd_device_type = ty,
        ddd_creation_time = 0, ddd_last_sync_time = None\<rparr>,
      dli_share = \<lparr>dsd_id = ShareId n, dsd_root_link_id = LinkId n, dsd_name = Some []\<rparr>\<rparr>"

definition devices_drive :: "(string, unit, unit) drive_env" where
  "devices_drive = example_drive\<lparr>de_get_devices := (\<lambda>_. op_return [listed_device ''a'' 1, listed_device ''b'' 3])\<rparr>"

definition devices_example :: "(string, unit, unit, unit, unit) device_env" where
  "devices_example =
     \<lparr>dx_ops = ops_on devices_drive, dx_recover_session_key = (\<lambda>_ _. Inl KeysLocked),
      dx_encrypt_and_sign_text_to = (\<lambda>_ _ _ _. op_fail KeysLocked), dx_now = (\<lambda>_. 0),
      dx_post_device = (\<lambda>_ _. op_fail KeysLocked), dx_put_device = (\<lambda>_ _. op_fail KeysLocked)\<rparr>"

theorem devices_listed_complete_witness:
  "\<exists>devices d'. enumerate_devices devices_example example_drive_state = Some (Inr devices, d') \<and>
     map dev_uid devices = [DeviceUid ''a'', DeviceUid ''b''] \<and> map dev_share_id devices = [ShareId ''a'', ShareId ''b'']"
proof -
  have drive: "dx_drive devices_example = devices_drive"
    by (simp add: dx_drive_def no_drive_def devices_example_def ops_on_def nodes_on_def)
  have served: "de_get_devices devices_drive ''devices'' (dv_world example_drive_state) =
      Some (Inr [listed_device ''a'' 1, listed_device ''b'' 3], dv_world example_drive_state)"
    by (simp add: devices_drive_def)
  have meta: "\<exists>ms. device_metadata_of [listed_device ''a'' 1, listed_device ''b'' 3] = Inr ms"
    by (simp add: listed_device_def DeviceType_from_raw_def)
  have "op_gives (enumerate_devices devices_example) (\<lambda>devices _. length devices = 2) example_drive_state"
    by code_simp
  then obtain devices d' where run: "enumerate_devices devices_example example_drive_state = Some (Inr devices, d')"
    unfolding op_gives_iff by blast
  from meta obtain ms where "device_metadata_of [listed_device ''a'' 1, listed_device ''b'' 3] = Inr ms" by blast
  from devices_listed_complete [OF _ this run] served drive run show ?thesis
    by (auto simp: listed_device_def)
qed


end
