(* ===== verification/Login.thy ===== *)
theory Login
  imports Srp Http Effects
begin

text \<open>
  Sessions (\<open>proton-sdk/src/session.rs\<close>): resuming one from stored tokens, the SRP login over
  \<open>Srp\<close>, the second factor and the scopes.  The calls are those of \<open>Http\<close>;
  \<open>session_env\<close> adds the JSON of the wire types and the builder of the connection pool.  The
  random source of the handshake is the world the requests run in.
\<close>

section \<open>Data\<close>

datatype user_id = UserId (user_id_str: string)

datatype password_mode = Single | Dual

definition PasswordMode_from_wire :: "int \<Rightarrow> password_mode" where
  "PasswordMode_from_wire v = (if v = 1 then Single else Dual)"

record resume_parameters =
  rp_session_id :: session_id
  rp_username :: string
  rp_user_id :: user_id
  rp_access_token :: string
  rp_refresh_token :: string
  rp_scopes :: "string list"
  rp_is_waiting :: bool
  rp_password_mode :: password_mode

record second_factor_methods =
  sm_totp :: bool
  sm_fido2 :: bool

definition SecondFactorMethods_default :: second_factor_methods where
  "SecondFactorMethods_default = \<lparr>sm_totp = False, sm_fido2 = False\<rparr>"

definition SecondFactorMethods_from_wire :: "int \<Rightarrow> second_factor_methods" where
  "SecondFactorMethods_from_wire enabled = \<lparr>sm_totp = ((and) enabled 1 \<noteq> 0), sm_fido2 = ((and) enabled 2 \<noteq> 0)\<rparr>"

record 'w proton_api_session =
  ss_http :: api_http_client
  ss_state :: "'w client_state"
  ss_session_id :: session_id
  ss_username :: string
  ss_user_id :: user_id
  ss_scopes :: "string list"
  ss_password_mode :: password_mode
  ss_waiting :: bool
  ss_methods :: second_factor_methods

record session_initiation_response =
  si_version :: int
  si_modulus :: string
  si_server_ephemeral :: string
  si_salt :: string
  si_srp_session :: string

record authentication_request =
  aq_username :: string
  aq_client_ephemeral :: string
  aq_client_proof :: string
  aq_srp_session :: string

record authentication_response =
  ap_session_id :: session_id
  ap_user_id :: user_id
  ap_server_proof :: string
  ap_access_token :: string
  ap_refresh_token :: string
  ap_scopes :: "string list"
  ap_password_mode :: int
  ap_second_factor :: "int option"

record ('pub, 'm, 'w) session_env =
  se_srp :: "('pub, 'm, 'w) srp_lib"
  se_net :: "'w net"
  se_codec :: codec
  se_build :: "client_configuration \<Rightarrow> proton_error option"
  se_info_request :: "string \<Rightarrow> bytes"
  se_info_response :: "bytes \<Rightarrow> string + session_initiation_response"
  se_auth_request :: "authentication_request \<Rightarrow> bytes"
  se_auth_response :: "bytes \<Rightarrow> string + authentication_response"
  se_code_request :: "string \<Rightarrow> bytes"
  se_scopes_response :: "bytes \<Rightarrow> string + string list"
  se_empty_response :: "bytes \<Rightarrow> string + unit"

section \<open>Resuming and logging in\<close>

text \<open>A new client holds the tokens; it has no callback registered.\<close>

definition open_client ::
  "('pub, 'm, 'w) session_env \<Rightarrow> client_configuration \<Rightarrow> session_id \<Rightarrow> tokens \<Rightarrow> 'w \<Rightarrow> (api_http_client \<times> 'w client_state) result" where
  "open_client E cfg sid tokens w =
     (case se_build E cfg of
        Some e \<Rightarrow> Inl e
      | None \<Rightarrow> Inr (ApiHttpClient_new cfg sid, \<lparr>cs_tokens = tokens, cs_callback = False, cs_notified = [], cs_world = w\<rparr>))"

definition resume ::
  "('pub, 'm, 'w) session_env \<Rightarrow> client_configuration \<Rightarrow> resume_parameters \<Rightarrow> 'w \<Rightarrow> 'w proton_api_session result" where
  "resume E cfg params w =
     (case open_client E cfg (rp_session_id params)
        \<lparr>access_token = rp_access_token params, refresh_token = rp_refresh_token params\<rparr> w of
        Inl e \<Rightarrow> Inl e
      | Inr (http, st) \<Rightarrow> Inr
          \<lparr>ss_http = http, ss_state = st, ss_session_id = rp_session_id params, ss_username = rp_username params,
           ss_user_id = rp_user_id params, ss_scopes = rp_scopes params, ss_password_mode = rp_password_mode params,
           ss_waiting = rp_is_waiting params, ss_methods = SecondFactorMethods_default\<rparr>)"

definition srp_mismatch :: proton_error where
  "srp_mismatch = InvalidOperation (''SRP server proof mismatch '' @ [CHR 0xE2, CHR 0x80, CHR 0x94] @ '' server failed authentication'')"

definition decode_or ::
  "('pub, 'm, 'w) session_env \<Rightarrow> string \<Rightarrow> string \<Rightarrow> bytes result" where
  "decode_or E what s = map_err (\<lambda>e. InvalidOperation (what @ e)) (sl_base64_decode (se_srp E) (trim s))"

text \<open>The session of an accepted answer.\<close>

definition session_of ::
  "('pub, 'm, 'w) session_env \<Rightarrow> client_configuration \<Rightarrow> string \<Rightarrow> authentication_response \<Rightarrow> 'w \<Rightarrow> 'w proton_api_session result" where
  "session_of E cfg username auth w =
     (case open_client E cfg (ap_session_id auth)
        \<lparr>access_token = ap_access_token auth, refresh_token = ap_refresh_token auth\<rparr> w of
        Inl e \<Rightarrow> Inl e
      | Inr (http, st) \<Rightarrow>
          let enabled = (case ap_second_factor auth of Some n \<Rightarrow> n | None \<Rightarrow> 0) in Inr
          \<lparr>ss_http = http, ss_state = st, ss_session_id = ap_session_id auth, ss_username = username,
           ss_user_id = ap_user_id auth, ss_scopes = ap_scopes auth,
           ss_password_mode = PasswordMode_from_wire (ap_password_mode auth), ss_waiting = (enabled \<noteq> 0),
           ss_methods = SecondFactorMethods_from_wire enabled\<rparr>)"

text \<open>The login in a group of any size; the code fixes it to \<open>DEFAULT_BIT_LENGTH\<close>.\<close>

definition begin_in_group ::
  "('pub, 'm, 'w) session_env \<Rightarrow> nat \<Rightarrow> client_configuration \<Rightarrow> string \<Rightarrow> bytes \<Rightarrow> human_verification_credential option
     \<Rightarrow> ('w proton_api_session, 'w) op" where
  "begin_in_group E bit_length cfg username password hv =
     op_bind (op_call (post_unauthenticated_verified (se_net E) (se_codec E) cfg ''auth/v4/info'' (se_info_request E username) hv (se_info_response E))) (\<lambda>init.
     op_bind (op_of (decode_or E ''decode SRP salt: '' (si_salt init))) (\<lambda>salt.
     op_bind (op_of (decode_or E ''decode server ephemeral: '' (si_server_ephemeral init))) (\<lambda>server_ephemeral.
     op_bind (\<lambda>w. map_option (\<lambda>(r, w'). (from_crypto r, w'))
         (generate_proofs (se_srp E) (si_version init) password salt (si_modulus init) server_ephemeral bit_length w)) (\<lambda>proofs.
     op_bind (op_call (post_unauthenticated_verified (se_net E) (se_codec E) cfg ''auth/v4'' (se_auth_request E
         \<lparr>aq_username = username, aq_client_ephemeral = sl_base64 (se_srp E) (sp_client_ephemeral proofs),
          aq_client_proof = sl_base64 (se_srp E) (sp_client_proof proofs), aq_srp_session = si_srp_session init\<rparr>) hv (se_auth_response E))) (\<lambda>auth.
     op_bind (op_of (decode_or E ''decode server proof: '' (ap_server_proof auth))) (\<lambda>server_proof.
       if server_proof \<noteq> sp_expected_server_proof proofs then op_fail srp_mismatch
       else op_bind (op_get (\<lambda>w. w)) (\<lambda>w. op_of (session_of E cfg username auth w))))))))"

definition begin_verified ::
  "('pub, 'm, 'w) session_env \<Rightarrow> client_configuration \<Rightarrow> string \<Rightarrow> bytes \<Rightarrow> human_verification_credential option
     \<Rightarrow> ('w proton_api_session, 'w) op" where
  "begin_verified E = begin_in_group E DEFAULT_BIT_LENGTH"

definition begin_session ::
  "('pub, 'm, 'w) session_env \<Rightarrow> client_configuration \<Rightarrow> string \<Rightarrow> bytes \<Rightarrow> ('w proton_api_session, 'w) op" where
  "begin_session E cfg username password = begin_verified E cfg username password None"

section \<open>Using a session\<close>

definition apply_second_factor_code ::
  "('pub, 'm, 'w) session_env \<Rightarrow> string \<Rightarrow> 'w proton_api_session \<Rightarrow> unit result \<times> 'w proton_api_session" where
  "apply_second_factor_code E code s =
     (case http_post (se_net E) (se_codec E) (ss_http s) ''auth/v4/2fa'' (se_code_request E code) (se_scopes_response E) (ss_state s) of
        (Inl e, st) \<Rightarrow> (Inl e, s\<lparr>ss_state := st\<rparr>)
      | (Inr scopes, st) \<Rightarrow> (Inr (), s\<lparr>ss_state := st, ss_waiting := False, ss_scopes := scopes\<rparr>))"

definition refresh_scopes ::
  "('pub, 'm, 'w) session_env \<Rightarrow> 'w proton_api_session \<Rightarrow> unit result \<times> 'w proton_api_session" where
  "refresh_scopes E s =
     (case http_get (se_net E) (se_codec E) (ss_http s) ''auth/v4/scopes'' (se_scopes_response E) (ss_state s) of
        (Inl e, st) \<Rightarrow> (Inl e, s\<lparr>ss_state := st\<rparr>)
      | (Inr scopes, st) \<Rightarrow> (Inr (), s\<lparr>ss_state := st, ss_scopes := scopes\<rparr>))"

definition end_session ::
  "('pub, 'm, 'w) session_env \<Rightarrow> 'w proton_api_session \<Rightarrow> unit result \<times> 'w proton_api_session" where
  "end_session E s =
     (case http_delete (se_net E) (se_codec E) (ss_http s) ''auth/v4'' (se_empty_response E) (ss_state s) of
        (r, st) \<Rightarrow> (r, s\<lparr>ss_state := st\<rparr>))"

definition session_tokens :: "'w proton_api_session \<Rightarrow> tokens" where
  "session_tokens s = current_tokens (ss_state s)"

text \<open>The two requests of a login, and a session's calls in any order.\<close>

definition info_call ::
  "('pub, 'm, 'w) session_env \<Rightarrow> client_configuration \<Rightarrow> string \<Rightarrow> human_verification_credential option
     \<Rightarrow> 'w \<Rightarrow> session_initiation_response result \<times> 'w" where
  "info_call E cfg username hv =
     post_unauthenticated_verified (se_net E) (se_codec E) cfg ''auth/v4/info'' (se_info_request E username) hv (se_info_response E)"

definition auth_call ::
  "('pub, 'm, 'w) session_env \<Rightarrow> client_configuration \<Rightarrow> string \<Rightarrow> session_initiation_response \<Rightarrow> srp_proofs
     \<Rightarrow> human_verification_credential option \<Rightarrow> 'w \<Rightarrow> authentication_response result \<times> 'w" where
  "auth_call E cfg username init proofs hv =
     post_unauthenticated_verified (se_net E) (se_codec E) cfg ''auth/v4'' (se_auth_request E
       \<lparr>aq_username = username, aq_client_ephemeral = sl_base64 (se_srp E) (sp_client_ephemeral proofs),
        aq_client_proof = sl_base64 (se_srp E) (sp_client_proof proofs), aq_srp_session = si_srp_session init\<rparr>) hv (se_auth_response E)"

datatype session_call = ApplyCode string | RefreshScopes | EndSession

fun session_step :: "('pub, 'm, 'w) session_env \<Rightarrow> session_call \<Rightarrow> 'w proton_api_session \<Rightarrow> unit result \<times> 'w proton_api_session" where
  "session_step E (ApplyCode code) s = apply_second_factor_code E code s"
| "session_step E RefreshScopes s = refresh_scopes E s"
| "session_step E EndSession s = end_session E s"

fun session_run ::
  "('pub, 'm, 'w) session_env \<Rightarrow> session_call list \<Rightarrow> 'w proton_api_session \<Rightarrow> (session_call \<times> unit result) list \<times> 'w proton_api_session" where
  "session_run E [] s = ([], s)"
| "session_run E (c # cs) s =
     (case session_step E c s of (r, s1) \<Rightarrow> case session_run E cs s1 of (rs, s2) \<Rightarrow> ((c, r) # rs, s2))"

definition code_accepted :: "session_call \<times> unit result \<Rightarrow> bool" where
  "code_accepted cr = (case cr of (ApplyCode _, Inr _) \<Rightarrow> True | _ \<Rightarrow> False)"

section \<open>Lemmas\<close>

lemma session_step_waiting:
  "session_step E c s = (r, s') \<Longrightarrow>
     ss_waiting s' = (ss_waiting s \<and> \<not> code_accepted (c, r)) \<and> ss_user_id s' = ss_user_id s \<and>
     ss_session_id s' = ss_session_id s \<and> ss_username s' = ss_username s \<and> ss_http s' = ss_http s"
  by (cases c) (auto simp: apply_second_factor_code_def refresh_scopes_def end_session_def code_accepted_def
      split: prod.splits sum.splits)

lemma begin_in_group_Inr:
  assumes "begin_in_group E bit_length cfg username password hv w = Some (Inr s, w')"
  obtains init w1 salt B p w2 auth where "info_call E cfg username hv w = (Inr init, w1)"
    "decode_or E ''decode SRP salt: '' (si_salt init) = Inr salt"
    "decode_or E ''decode server ephemeral: '' (si_server_ephemeral init) = Inr B"
    "generate_proofs (se_srp E) (si_version init) password salt (si_modulus init) B bit_length w1 = Some (Inr p, w2)"
    "auth_call E cfg username init p hv w2 = (Inr auth, w')"
    "decode_or E ''decode server proof: '' (ap_server_proof auth) = Inr (sp_expected_server_proof p)"
    "session_of E cfg username auth w' = Inr s"
  using assms unfolding begin_in_group_def info_call_def [symmetric] auth_call_def [symmetric]
  by (auto simp: op_bind_Inr split: if_splits)

section \<open>The properties\<close>

text \<open>C30: A login returns a session only from a server that proved it holds the verifier: the proof
  in its answer is the one the handshake of this very run expects, and the session holds the
  tokens of that answer and waits for a second factor exactly when the answer names one.\<close>

theorem login_authenticates_server:
  assumes "begin_in_group E bit_length cfg username password hv w = Some (Inr s, w')"
  shows "\<exists>init w1 salt B p w2 auth. info_call E cfg username hv w = (Inr init, w1) \<and>
     generate_proofs (se_srp E) (si_version init) password salt (si_modulus init) B bit_length w1 = Some (Inr p, w2) \<and>
     auth_call E cfg username init p hv w2 = (Inr auth, w') \<and>
     sl_base64_decode (se_srp E) (trim (ap_server_proof auth)) = Inr (sp_expected_server_proof p) \<and>
     session_tokens s = \<lparr>access_token = ap_access_token auth, refresh_token = ap_refresh_token auth\<rparr> \<and>
     ss_session_id s = ap_session_id auth \<and> cl_session_id (ss_http s) = ap_session_id auth \<and>
     (ss_waiting s \<longleftrightarrow> ap_second_factor auth \<noteq> None \<and> ap_second_factor auth \<noteq> Some 0)"
proof -
  obtain init w1 salt B p w2 auth where run: "info_call E cfg username hv w = (Inr init, w1)"
    "generate_proofs (se_srp E) (si_version init) password salt (si_modulus init) B bit_length w1 = Some (Inr p, w2)"
    "auth_call E cfg username init p hv w2 = (Inr auth, w')"
    and proof_ok: "decode_or E ''decode server proof: '' (ap_server_proof auth) = Inr (sp_expected_server_proof p)"
    and s: "session_of E cfg username auth w' = Inr s"
    using begin_in_group_Inr [OF assms] by metis
  have "session_tokens s = \<lparr>access_token = ap_access_token auth, refresh_token = ap_refresh_token auth\<rparr>"
    "ss_session_id s = ap_session_id auth" "cl_session_id (ss_http s) = ap_session_id auth"
    "ss_waiting s \<longleftrightarrow> ap_second_factor auth \<noteq> None \<and> ap_second_factor auth \<noteq> Some 0"
    using s by (auto simp: session_of_def open_client_def session_tokens_def current_tokens_def ApiHttpClient_new_def Let_def split: option.splits)
  then show ?thesis using run proof_ok unfolding decode_or_def by (intro exI conjI) auto
qed

text \<open>C31: A user who knows the password of the account's verifier gets a session from a server that
  follows the protocol, as soon as the handshake draws its secret.\<close>

theorem honest_login_succeeds:
  assumes "generate_verifier (se_srp E) password signed_N bit_length g = Some (Inr r, ga)"
    and "\<And>b. sl_base64_decode (se_srp E) (sl_base64 (se_srp E) b) = Inr b"
    and "\<And>b. trim (sl_base64 (se_srp E) b) = sl_base64 (se_srp E) b"
    and "sl_base64_decode (se_srp E) (sf_salt r) = Inr salt" "sl_base64_decode (se_srp E) (sf_verifier r) = Inr v"
    and "info_call E cfg username hv w = (Inr \<lparr>si_version = version, si_modulus = signed_N,
      si_server_ephemeral = sl_base64 (se_srp E) B, si_salt = sl_base64 (se_srp E) salt, si_srp_session = sid\<rparr>, wa)"
    and "honest_ephemeral (se_srp E) signed_N bit_length (from_le v) b B"
      "verify_and_decode_modulus (se_srp E) signed_N = Inr modulus"
    and "generate_proofs (se_srp E) version password salt signed_N B bit_length wa = Some (Inr p, wb)"
    and "\<And>m2. server_answer (se_srp E) (from_le modulus) bit_length (from_le v) b B (sp_client_ephemeral p) (sp_client_proof p) = Some m2 \<Longrightarrow>
      auth_call E cfg username \<lparr>si_version = version, si_modulus = signed_N, si_server_ephemeral = sl_base64 (se_srp E) B,
        si_salt = sl_base64 (se_srp E) salt, si_srp_session = sid\<rparr> p hv wb = (Inr (answer m2), wc) \<and>
      ap_server_proof (answer m2) = sl_base64 (se_srp E) m2"
    and "se_build E cfg = None"
  shows "\<exists>s m2. begin_in_group E bit_length cfg username password hv w = Some (Inr s, wc) \<and>
     session_tokens s = \<lparr>access_token = ap_access_token (answer m2), refresh_token = ap_refresh_token (answer m2)\<rparr>"
proof -
  have agree: "server_answer (se_srp E) (from_le modulus) bit_length (from_le v) b B (sp_client_ephemeral p) (sp_client_proof p)
      = Some (sp_expected_server_proof p)"
    by (rule proofs_agree [OF assms(1,2,4,5,9,7,8)])
  let ?m2 = "sp_expected_server_proof p"
  have answer: "auth_call E cfg username \<lparr>si_version = version, si_modulus = signed_N, si_server_ephemeral = sl_base64 (se_srp E) B,
        si_salt = sl_base64 (se_srp E) salt, si_srp_session = sid\<rparr> p hv wb = (Inr (answer ?m2), wc)"
    "ap_server_proof (answer ?m2) = sl_base64 (se_srp E) ?m2"
    using assms(10) [OF agree] by simp_all
  obtain s where s: "session_of E cfg username (answer ?m2) wc = Inr s"
    "session_tokens s = \<lparr>access_token = ap_access_token (answer ?m2), refresh_token = ap_refresh_token (answer ?m2)\<rparr>"
    using assms(11) by (auto simp: session_of_def open_client_def session_tokens_def current_tokens_def Let_def)
  have "begin_in_group E bit_length cfg username password hv w = Some (Inr s, wc)"
    unfolding begin_in_group_def info_call_def [symmetric] auth_call_def [symmetric]
    using assms(2,3,6,9) answer s(1) by (simp add: op_bind_def decode_or_def)
  then show ?thesis using s(2) by blast
qed

text \<open>Whatever is called on a session and in whatever order, it stops waiting for the second
  factor exactly when a code has been accepted, and it stays the same user's session.\<close>

theorem second_factor_gate:
  "ss_waiting (snd (session_run E cs s)) = (ss_waiting s \<and> \<not> list_ex code_accepted (fst (session_run E cs s))) \<and>
   ss_user_id (snd (session_run E cs s)) = ss_user_id s \<and> ss_session_id (snd (session_run E cs s)) = ss_session_id s \<and>
   ss_http (snd (session_run E cs s)) = ss_http s"
proof (induction cs arbitrary: s)
  case (Cons c cs)
  obtain r s1 where step: "session_step E c s = (r, s1)" by fastforce
  have "session_run E (c # cs) s = ((c, r) # fst (session_run E cs s1), snd (session_run E cs s1))"
    by (simp add: step split: prod.splits)
  then show ?case using Cons.IH [of s1] session_step_waiting [OF step] by auto
qed simp

section \<open>Examples\<close>

text \<open>A server that keeps the verifier of \<open>Srp\<close>'s example and answers every login.\<close>

definition toy_auth :: authentication_response where
  "toy_auth = \<lparr>ap_session_id = SessionId ''s'', ap_user_id = UserId ''u'',
     ap_server_proof = sl_base64 toy_srp (expand_hash toy_srp ([46] @ expand_hash toy_srp [46, 35, 131] @ [131])),
     ap_access_token = ''a'', ap_refresh_token = ''r'', ap_scopes = [], ap_password_mode = 1, ap_second_factor = Some 1\<rparr>"

definition toy_info :: session_initiation_response where
  "toy_info = \<lparr>si_version = 4, si_modulus = toy_modulus, si_server_ephemeral = sl_base64 toy_srp [35],
     si_salt = sl_base64 toy_srp (replicate 10 35), si_srp_session = ''x''\<rparr>"

definition toy_session_env :: "(unit, string, nat) session_env" where
  "toy_session_env =
     \<lparr>se_srp = toy_srp, se_net = \<lparr>net_send = (\<lambda>rq w. (Answered 200 None (BodyOk []), w)), net_jitter = (\<lambda>c w. (0, w))\<rparr>,
      se_codec = \<lparr>dec_envelope = (\<lambda>_. None), dec_refresh = (\<lambda>_. Inl []), enc_refresh = (\<lambda>_ _. []), canonical_reason = (\<lambda>_. None)\<rparr>,
      se_build = (\<lambda>_. None), se_info_request = (\<lambda>_. []), se_info_response = (\<lambda>_. Inr toy_info), se_auth_request = (\<lambda>_. []),
      se_auth_response = (\<lambda>_. Inr toy_auth), se_code_request = (\<lambda>_. []), se_scopes_response = (\<lambda>_. Inr [''full'']),
      se_empty_response = (\<lambda>_. Inr ())\<rparr>"

lemma toy_calls:
  "info_call toy_session_env (ProtonClientConfiguration_new app) u hv w = (Inr toy_info, w)"
  "auth_call toy_session_env (ProtonClientConfiguration_new app) u init p hv w = (Inr toy_auth, w)"
  by (simp_all add: info_call_def auth_call_def post_unauthenticated_verified_def toy_session_env_def send_retrying.simps
      retrying_decision_def is_retryable_status_def run_finish_def parse_buffered_def status_is_success_def Let_def)

lemma toy_env: "se_srp toy_session_env = toy_srp" "se_build toy_session_env cfg = None"
  by (simp_all add: toy_session_env_def)

lemma toy_login:
  "\<exists>s. begin_in_group toy_session_env 8 (ProtonClientConfiguration_new ''app'') ''u'' [1] None 0 = Some (Inr s, 1) \<and>
     session_tokens s = \<lparr>access_token = ''a'', refresh_token = ''r''\<rparr>"
  unfolding begin_in_group_def info_call_def [symmetric] auth_call_def [symmetric]
  by (simp add: op_bind_def decode_or_def toy_env toy_calls toy_info_def toy_base64 toy_trim toy_proofs toy_auth_def
      session_of_def open_client_def session_tokens_def current_tokens_def)

definition toy_expected :: srp_proofs where
  "toy_expected = \<lparr>sp_client_ephemeral = [46], sp_client_proof = expand_hash toy_srp [46, 35, 131],
     sp_expected_server_proof = expand_hash toy_srp ([46] @ expand_hash toy_srp [46, 35, 131] @ [131])\<rparr>"

lemma toy_answered:
  "server_answer toy_srp 227 8 67 7 [35] [46] (expand_hash toy_srp [46, 35, 131]) = Some m2 \<Longrightarrow>
     ap_server_proof toy_auth = sl_base64 toy_srp m2"
proof -
  have "modpow ((46 * modpow 67 81 227) mod 227) 7 227 = 131" by (simp add: modpow_code efficient_funpow_code)
  moreover assume "server_answer toy_srp 227 8 67 7 [35] [46] (expand_hash toy_srp [46, 35, 131]) = Some m2"
  ultimately show ?thesis
    by (simp add: server_answer_def Let_def toy_auth_def toy_expand toy_fixed split: if_splits)
qed

theorem honest_login_succeeds_witness:
  "\<exists>s. begin_in_group toy_session_env 8 (ProtonClientConfiguration_new ''app'') ''u'' [1] None 0 = Some (Inr s, 1) \<and>
     session_tokens s = \<lparr>access_token = ''a'', refresh_token = ''r''\<rparr>"
proof -
  have honest: "honest_ephemeral (se_srp toy_session_env) toy_modulus 8 (from_le [67]) 7 [35]"
    unfolding toy_env by (simp add: honest_ephemeral_def toy_modulus_decoded toy_multiplier [unfolded One_nat_def] toy_powers)
  have "\<exists>s (m2 :: bytes). begin_in_group toy_session_env 8 (ProtonClientConfiguration_new ''app'') ''u'' [1] None 0 = Some (Inr s, 1) \<and>
     session_tokens s = \<lparr>access_token = ap_access_token toy_auth, refresh_token = ap_refresh_token toy_auth\<rparr>"
    by (rule honest_login_succeeds [where answer = "\<lambda>_. toy_auth" and g = 0 and salt = "replicate 10 35" and v = "[67]" and
          version = 4 and sid = "''x''" and wa = 0 and wb = 1 and B = "[35]" and modulus = "[227]" and
          E = toy_session_env and p = toy_expected, OF _ _ _ _ _ _ honest])
      (auto simp: toy_env toy_verifier toy_base64 toy_trim toy_modulus_decoded toy_calls toy_info_def toy_proofs toy_expected_def toy_answered)
  then show ?thesis by (simp add: toy_auth_def)
qed

theorem login_authenticates_server_witness:
  "\<exists>s. begin_in_group toy_session_env 8 (ProtonClientConfiguration_new ''app'') ''u'' [1] None 0 = Some (Inr s, 1) \<and> ss_waiting s"
proof -
  obtain s where s: "begin_in_group toy_session_env 8 (ProtonClientConfiguration_new ''app'') ''u'' [1] None 0 = Some (Inr s, 1)"
    using toy_login by blast
  show ?thesis using login_authenticates_server [OF s] s by (auto simp: toy_calls toy_auth_def)
qed

end
