(* ===== verification/Public_Link.thy ===== *)
theory Public_Link
  imports Sharing Download Login
begin

text \<open>
  Reading someone else's public link without an account (\<open>proton-drive-rs/src/public_link.rs\<close>):
  the handshake that turns the link's password into an anonymous session and the share key, the
  session that is renewed by replaying it, the walk from a node to the shared root, listings,
  downloads and thumbnails.  \<open>visitor_env\<close> is what this uses of the layers below;
  \<open>visitor_on\<close> provides it.  One call runs at a time, so a load that the code shares
  between callers is the load.
\<close>

section \<open>Wire types and the interface\<close>

record public_link_info_response =
  pir_version :: int
  pir_modulus :: string
  pir_server_ephemeral :: string
  pir_url_password_salt :: string
  pir_srp_session :: string
  pir_flags :: "32 word"
  pir_vendor_type :: int

record public_link_auth_request =
  par_client_proof :: string
  par_client_ephemeral :: string
  par_srp_session :: string

record public_link_share_dto =
  psd_volume_id :: volume_id
  psd_link_id :: link_id
  psd_share_password_salt :: string
  psd_share_key :: string
  psd_share_passphrase :: string
  psd_public_permissions :: "int option"

record public_link_auth_response =
  pas_server_proof :: string
  pas_uid :: string
  pas_access_token :: "string option"
  pas_share :: public_link_share_dto

record public_link_info =
  pli_is_custom_password_protected :: bool
  pli_is_legacy :: bool
  pli_vendor_type :: int

text \<open>\<open>pv_victim\<close> is the entry a full key cache drops for a new one.\<close>

record ('k, 'c, 'pub, 'm, 'w) visitor_env =
  pv_srp :: "('pub, 'm, 'w) srp_lib"
  pv_net :: "'w net"
  pv_codec :: codec
  pv_build :: "client_configuration \<Rightarrow> proton_error option"
  pv_info_response :: "bytes \<Rightarrow> string + public_link_info_response"
  pv_auth_request :: "public_link_auth_request \<Rightarrow> bytes"
  pv_auth_response :: "bytes \<Rightarrow> string + public_link_auth_response"
  pv_derive_key_passphrase :: "bytes \<Rightarrow> bytes \<Rightarrow> bytes result"
  pv_decrypt_with_password :: "string \<Rightarrow> bytes \<Rightarrow> bytes result"
  pv_from_armored :: "string \<Rightarrow> bytes \<Rightarrow> 'k result"
  pv_decrypt_link :: "'k \<Rightarrow> link_dto \<Rightarrow> ('k \<times> string) result"
  pv_decrypt_content_key :: "'k \<Rightarrow> bytes \<Rightarrow> 'c result"
  pv_xattr :: "'k \<Rightarrow> string \<Rightarrow> decrypted_extended_attributes result"
  pv_decrypt_block :: "'c \<Rightarrow> bytes \<Rightarrow> bytes result"
  pv_decrypt_thumbnail :: "'c \<Rightarrow> bytes \<Rightarrow> bytes result"
  pv_display :: "proton_error \<Rightarrow> string"
  pv_victim :: "node_uid \<Rightarrow> 'w \<Rightarrow> node_uid option"
  pv_key_order :: "string list \<Rightarrow> string list"
  pv_get_children :: "api_http_client \<Rightarrow> tokens \<Rightarrow> string \<Rightarrow> 'w \<Rightarrow> folder_children_response result \<times> 'w"
  pv_post_links :: "api_http_client \<Rightarrow> tokens \<Rightarrow> string \<Rightarrow> link_id list \<Rightarrow> 'w \<Rightarrow> link_details_dto list result \<times> 'w"
  pv_get_revision :: "api_http_client \<Rightarrow> tokens \<Rightarrow> string \<Rightarrow> 'w \<Rightarrow> revision_dto result \<times> 'w"
  pv_post_thumbnails :: "api_http_client \<Rightarrow> tokens \<Rightarrow> string \<Rightarrow> string list \<Rightarrow> 'w
     \<Rightarrow> thumbnail_block_list_response result \<times> 'w"
  pv_storage :: "api_http_client \<Rightarrow> tokens \<Rightarrow> string \<Rightarrow> string \<Rightarrow> 'w \<Rightarrow> bytes result \<times> 'w"

section \<open>The handshake\<close>

record link_credentials =
  lc_config :: client_configuration
  lc_token :: string
  lc_password :: string

record 'k auth_outcome =
  ao_http :: api_http_client
  ao_tokens :: tokens
  ao_share_key :: 'k
  ao_root_uid :: node_uid
  ao_public_role :: member_role

definition decode_base64 ::
  "('k, 'c, 'pub, 'm, 'w) visitor_env \<Rightarrow> string \<Rightarrow> string \<Rightarrow> bytes result" where
  "decode_base64 V b64 what =
     map_err (\<lambda>e. InvalidOperation (what @ '' is not valid base64: '' @ e)) (sl_base64_decode (pv_srp V) b64)"

definition link_url_path :: "link_credentials \<Rightarrow> string \<Rightarrow> string" where
  "link_url_path cr what = ''drive/urls/'' @ lc_token cr @ what"

definition link_info ::
  "('k, 'c, 'pub, 'm, 'w) visitor_env \<Rightarrow> link_credentials \<Rightarrow> 'w \<Rightarrow> public_link_info_response result \<times> 'w" where
  "link_info V cr =
     get_unauthenticated (pv_net V) (pv_codec V) (lc_config cr) (link_url_path cr ''/info'') (pv_info_response V)"

definition link_authenticate ::
  "('k, 'c, 'pub, 'm, 'w) visitor_env \<Rightarrow> link_credentials \<Rightarrow> public_link_info_response \<Rightarrow> srp_proofs \<Rightarrow> 'w
     \<Rightarrow> public_link_auth_response result \<times> 'w" where
  "link_authenticate V cr answer proofs =
     post_unauthenticated (pv_net V) (pv_codec V) (lc_config cr) (link_url_path cr ''/auth'') (pv_auth_request V
       \<lparr>par_client_proof = sl_base64 (pv_srp V) (sp_client_proof proofs),
        par_client_ephemeral = sl_base64 (pv_srp V) (sp_client_ephemeral proofs),
        par_srp_session = pir_srp_session answer\<rparr>) (pv_auth_response V)"

definition unlock_share_key ::
  "('k, 'c, 'pub, 'm, 'w) visitor_env \<Rightarrow> link_credentials \<Rightarrow> public_link_auth_response \<Rightarrow> 'k result" where
  "unlock_share_key V cr response =
     sum_bind (decode_base64 V (psd_share_password_salt (pas_share response)) ''SharePasswordSalt'') (\<lambda>salt.
     sum_bind (pv_derive_key_passphrase V (as_bytes (lc_password cr)) salt) (\<lambda>key_password.
     sum_bind (pv_decrypt_with_password V (psd_share_passphrase (pas_share response)) key_password) (\<lambda>passphrase.
       pv_from_armored V (psd_share_key (pas_share response)) passphrase)))"

text \<open>The client of a session: its own route, and no token refresh.\<close>

definition visitor_http ::
  "('k, 'c, 'pub, 'm, 'w) visitor_env \<Rightarrow> client_configuration \<Rightarrow> string \<Rightarrow> api_http_client result" where
  "visitor_http V cfg sid =
     (case pv_build V cfg of
        Some e \<Rightarrow> Inl e
      | None \<Rightarrow> Inr (without_token_refresh (with_base_route (ApiHttpClient_new cfg (SessionId sid)) ''drive/unauth/'')))"

definition legacy_link :: proton_error where
  "legacy_link = InvalidOperation ''this public link uses a legacy format that is no longer supported''"

definition outcome_of_auth ::
  "('k, 'c, 'pub, 'm, 'w) visitor_env \<Rightarrow> link_credentials \<Rightarrow> srp_proofs \<Rightarrow> public_link_auth_response \<Rightarrow> 'k auth_outcome result" where
  "outcome_of_auth V cr proofs response =
     (if pas_server_proof response \<noteq> sl_base64 (pv_srp V) (sp_expected_server_proof proofs)
      then Inl (InvalidOperation ''public link server proof did not match; refusing the session'')
      else
        sum_bind (unlock_share_key V cr response) (\<lambda>share_key.
        sum_bind (case pas_access_token response of
                    Some t \<Rightarrow> Inr t
                  | None \<Rightarrow> Inl (InvalidOperation ''public link auth returned no access token'')) (\<lambda>access.
        sum_bind (visitor_http V (lc_config cr) (pas_uid response)) (\<lambda>http.
          Inr \<lparr>ao_http = http, ao_tokens = \<lparr>access_token = access, refresh_token = []\<rparr>, ao_share_key = share_key,
               ao_root_uid = NodeUid_new (psd_volume_id (pas_share response)) (psd_link_id (pas_share response)),
               ao_public_role = from_permissions (psd_public_permissions (pas_share response))\<rparr>))))"

text \<open>The handshake in a group of any size; the code fixes it to \<open>DEFAULT_BIT_LENGTH\<close>.\<close>

definition auth_in_group ::
  "('k, 'c, 'pub, 'm, 'w) visitor_env \<Rightarrow> nat \<Rightarrow> link_credentials \<Rightarrow> ('k auth_outcome, 'w) op" where
  "auth_in_group V bit_length cr =
     op_bind (op_call (link_info V cr)) (\<lambda>answer.
     if is_legacy (pir_flags answer) then op_fail legacy_link
     else
       op_bind (op_of (decode_base64 V (pir_url_password_salt answer) ''UrlPasswordSalt'')) (\<lambda>salt.
       op_bind (op_of (decode_base64 V (pir_server_ephemeral answer) ''ServerEphemeral'')) (\<lambda>server_ephemeral.
       op_bind (\<lambda>w. map_option (\<lambda>(r, w'). (from_crypto r, w'))
         (generate_proofs (pv_srp V) (pir_version answer) (as_bytes (lc_password cr)) salt (pir_modulus answer) server_ephemeral
            bit_length w)) (\<lambda>proofs.
       op_bind (op_call (link_authenticate V cr answer proofs)) (\<lambda>response.
         op_of (outcome_of_auth V cr proofs response))))))"

definition link_auth ::
  "('k, 'c, 'pub, 'm, 'w) visitor_env \<Rightarrow> link_credentials \<Rightarrow> ('k auth_outcome, 'w) op" where
  "link_auth V = auth_in_group V DEFAULT_BIT_LENGTH"

section \<open>The client\<close>

text \<open>What a client holds of its link, and what changes while it is used.\<close>

record 'k public_link_client =
  lk_credentials :: link_credentials
  lk_share_key :: 'k
  lk_root_uid :: node_uid
  lk_public_role :: member_role

record ('k, 'w) visitor =
  vs_session :: "'w link_session"
  vs_node_keys :: "node_uid \<rightharpoonup> 'k"

definition ao_client :: "'k auth_outcome \<Rightarrow> api_http_client \<times> tokens" where
  "ao_client a = (ao_http a, ao_tokens a)"

definition visitor_session ::
  "('k, 'c, 'pub, 'm, 'w) visitor_env \<Rightarrow> 'k public_link_client \<Rightarrow> 'w link_session block_session" where
  "visitor_session V P = PublicLinkSession (op_bind (link_auth V (lk_credentials P)) (\<lambda>a. op_return (ao_client a)))"

definition public_link_info_of ::
  "('k, 'c, 'pub, 'm, 'w) visitor_env \<Rightarrow> client_configuration \<Rightarrow> string \<Rightarrow> (public_link_info, 'w) op" where
  "public_link_info_of V cfg url =
     op_bind (op_of (parse_public_link_url url)) (\<lambda>(token, password).
     op_bind (op_call (link_info V \<lparr>lc_config = cfg, lc_token = token, lc_password = password\<rparr>)) (\<lambda>raw.
       op_return \<lparr>pli_is_custom_password_protected = is_custom_password_protected (pir_flags raw), pli_is_legacy = is_legacy (pir_flags raw),
         pli_vendor_type = pir_vendor_type raw\<rparr>))"

definition link_credentials_of :: "client_configuration \<Rightarrow> string \<Rightarrow> string option \<Rightarrow> link_credentials result" where
  "link_credentials_of cfg url custom_password =
     sum_bind (parse_public_link_url url) (\<lambda>(token, url_password).
       Inr \<lparr>lc_config = cfg, lc_token = token,
            lc_password = (case custom_password of
               Some custom \<Rightarrow> if custom \<noteq> [] then url_password @ custom else url_password
             | None \<Rightarrow> url_password)\<rparr>)"

definition open_public_link ::
  "('k, 'c, 'pub, 'm, 'w) visitor_env \<Rightarrow> client_configuration \<Rightarrow> string \<Rightarrow> string option
     \<Rightarrow> ('k public_link_client \<times> ('k, 'w) visitor, 'w) op" where
  "open_public_link V cfg url custom_password =
     op_bind (op_of (link_credentials_of cfg url custom_password)) (\<lambda>cr.
     op_bind (PublicLinkSession_open ao_client (link_auth V cr)) (\<lambda>(session, auth).
       op_return
         (\<lparr>lk_credentials = cr, lk_share_key = ao_share_key auth, lk_root_uid = ao_root_uid auth,
           lk_public_role = ao_public_role auth\<rparr>,
          \<lparr>vs_session = session, vs_node_keys = Map.empty\<rparr>)))"

definition on_session :: "('a, 'w link_session) op \<Rightarrow> ('a, ('k, 'w) visitor) op" where
  "on_session m = (\<lambda>v. map_option (\<lambda>(r, s). (r, v\<lparr>vs_session := s\<rparr>)) (m (vs_session v)))"

text \<open>A request carries the tokens of the live session.\<close>

definition with_tokens :: "(tokens \<Rightarrow> 'w \<Rightarrow> 'a result \<times> 'w) \<Rightarrow> 'w link_session \<Rightarrow> 'a result \<times> 'w link_session" where
  "with_tokens f st = (case f (live_tokens st) (ls_world st) of (r, w) \<Rightarrow> (r, st\<lparr>ls_world := w\<rparr>))"

definition refresh_session ::
  "('k, 'c, 'pub, 'm, 'w) visitor_env \<Rightarrow> 'k public_link_client \<Rightarrow> (unit, ('k, 'w) visitor) op" where
  "refresh_session V P =
     on_session (\<lambda>s. bs_renew (visitor_session V P) (snd (bs_http (visitor_session V P) s)) s)"

definition reauth ::
  "('k, 'c, 'pub, 'm, 'w) visitor_env \<Rightarrow> 'k public_link_client \<Rightarrow> ('k public_link_client, ('k, 'w) visitor) op" where
  "reauth V P = op_then (refresh_session V P) (op_return P)"

section \<open>Keys\<close>

definition fetch_link_details ::
  "('k, 'c, 'pub, 'm, 'w) visitor_env \<Rightarrow> 'k public_link_client \<Rightarrow> volume_id \<Rightarrow> link_id list
     \<Rightarrow> (link_details_dto list, ('k, 'w) visitor) op" where
  "fetch_link_details V P vid ids =
     on_session (transport_post_query (visitor_session V P) (\<lambda>http path body. with_tokens (\<lambda>t. pv_post_links V http t path body))
       (''v2/volumes/'' @ volume_id_str vid @ ''/links'') ids)"

definition link_details ::
  "('k, 'c, 'pub, 'm, 'w) visitor_env \<Rightarrow> 'k public_link_client \<Rightarrow> node_uid \<Rightarrow> (link_details_dto, ('k, 'w) visitor) op" where
  "link_details V P uid =
     op_bind (fetch_link_details V P (uid_volume uid) [uid_link uid]) (\<lambda>links.
       op_ok_or (InvalidOperation (''node '' @ NodeUid_display uid @ '' was not found''))
         (case links of [] \<Rightarrow> None | d # _ \<Rightarrow> Some d))"

definition cached_node_key :: "node_uid \<Rightarrow> ('k, 'w) visitor \<Rightarrow> 'k option" where
  "cached_node_key uid v = vs_node_keys v uid"

definition cache_node_key ::
  "('k, 'c, 'pub, 'm, 'w) visitor_env \<Rightarrow> node_uid \<Rightarrow> 'k \<Rightarrow> ('k, 'w) visitor \<Rightarrow> ('k, 'w) visitor" where
  "cache_node_key V uid key v =
     v\<lparr>vs_node_keys := (case pv_victim V uid (ls_world (vs_session v)) of
         None \<Rightarrow> vs_node_keys v
       | Some old \<Rightarrow> (vs_node_keys v)(old := None))(uid \<mapsto> key)\<rparr>"

definition no_parent :: proton_error where
  "no_parent = InvalidOperation ''node has no parent and is not the shared root''"

text \<open>Up to the nearest key that is known, with the links passed on the way, the topmost first.\<close>

partial_function (option) climb_to_known ::
  "('k, 'c, 'pub, 'm, 'w) visitor_env \<Rightarrow> 'k public_link_client \<Rightarrow> node_uid \<Rightarrow> link_details_dto list \<Rightarrow> ('k, 'w) visitor
     \<Rightarrow> (('k \<times> link_details_dto list) result \<times> ('k, 'w) visitor) option" where
  [code]: "climb_to_known V P cursor chain v =
     (case cached_node_key cursor v of
        Some key \<Rightarrow> Some (Inr (key, chain), v)
      | None \<Rightarrow>
          op_bind (link_details V P cursor) (\<lambda>details v1.
            if l_id (ld_link details) = uid_link (lk_root_uid P)
            then (case pv_decrypt_link V (lk_share_key P) (ld_link details) of
                    Inl e \<Rightarrow> Some (Inl e, v1)
                  | Inr (key, _) \<Rightarrow> Some (Inr (key, chain), cache_node_key V cursor key v1))
            else (case l_parent_id (ld_link details) of
                    None \<Rightarrow> Some (Inl no_parent, v1)
                  | Some parent_id \<Rightarrow> climb_to_known V P (NodeUid_new (uid_volume cursor) parent_id) (details # chain) v1)) v)"

text \<open>Down again: each node's key opens the next.\<close>

fun unlock_down ::
  "('k, 'c, 'pub, 'm, 'w) visitor_env \<Rightarrow> volume_id \<Rightarrow> 'k \<Rightarrow> link_details_dto list \<Rightarrow> ('k, ('k, 'w) visitor) op" where
  "unlock_down V vid key [] = op_return key"
| "unlock_down V vid key (details # chain) =
     op_bind (op_of (pv_decrypt_link V key (ld_link details))) (\<lambda>(next_key, _).
     op_then (op_modify (cache_node_key V (NodeUid_new vid (l_id (ld_link details))) next_key))
       (unlock_down V vid next_key chain))"

definition load_node_key ::
  "('k, 'c, 'pub, 'm, 'w) visitor_env \<Rightarrow> 'k public_link_client \<Rightarrow> node_uid \<Rightarrow> ('k, ('k, 'w) visitor) op" where
  "load_node_key V P uid =
     op_bind (climb_to_known V P uid []) (\<lambda>(key, chain). unlock_down V (uid_volume uid) key chain)"

definition visitor_node_key ::
  "('k, 'c, 'pub, 'm, 'w) visitor_env \<Rightarrow> 'k public_link_client \<Rightarrow> node_uid \<Rightarrow> ('k, ('k, 'w) visitor) op" where
  "visitor_node_key V P uid =
     op_bind (op_get (cached_node_key uid)) (\<lambda>hit.
     case hit of
       Some key \<Rightarrow> op_return key
     | None \<Rightarrow> op_map_err (rebuild_error (pv_display V)) (load_node_key V P uid))"

definition visitor_parent_key ::
  "('k, 'c, 'pub, 'm, 'w) visitor_env \<Rightarrow> 'k public_link_client \<Rightarrow> volume_id \<Rightarrow> link_details_dto \<Rightarrow> ('k, ('k, 'w) visitor) op" where
  "visitor_parent_key V P vid details =
     (if l_id (ld_link details) = uid_link (lk_root_uid P) then op_return (lk_share_key P)
      else op_bind (op_ok_or no_parent (l_parent_id (ld_link details))) (\<lambda>parent_id.
             visitor_node_key V P (NodeUid_new vid parent_id)))"

section \<open>Nodes\<close>

definition visitor_claims ::
  "('k, 'c, 'pub, 'm, 'w) visitor_env \<Rightarrow> 'k \<Rightarrow> string option \<Rightarrow> common_extended_attributes option" where
  "visitor_claims V nkey armored =
     Option.bind armored (\<lambda>xattr. case pv_xattr V nkey xattr of Inr attrs \<Rightarrow> dx_common attrs | Inl _ \<Rightarrow> None)"

definition visitor_file_kind ::
  "('k, 'c, 'pub, 'm, 'w) visitor_env \<Rightarrow> 'k \<Rightarrow> file_dto option \<Rightarrow> file_kind" where
  "visitor_file_kind V nkey file =
     (let active = Option.bind file fi_active_revision;
          common = visitor_claims V nkey (Option.bind active ar_extended_attributes) in
      \<lparr>fk_media_type = (case file of Some f \<Rightarrow> fi_media_type f | None \<Rightarrow> []),
       fk_total_size_on_storage = (case file of Some f \<Rightarrow> fi_total_size_on_storage f | None \<Rightarrow> 0),
       fk_active_revision_state = map_option (\<lambda>r. RevisionState_from_raw (ar_state r)) active,
       fk_active_revision_id = map_option ar_id active, fk_claimed_size = Option.bind common cx_size,
       fk_claimed_modification_time = Option.bind common cx_modification_time,
       fk_content_sha1 = Option.bind common cx_sha1\<rparr>)"

definition visitor_node ::
  "('k, 'c, 'pub, 'm, 'w) visitor_env \<Rightarrow> volume_id \<Rightarrow> link_details_dto \<Rightarrow> 'k \<Rightarrow> node result" where
  "visitor_node V vid details parent_key =
     (let link = ld_link details in
      sum_bind (pv_decrypt_link V parent_key link) (\<lambda>(nkey, name). Inr
        \<lparr>n_uid = NodeUid_new vid (l_id link), n_parent_uid = map_option (NodeUid_new vid) (l_parent_id link),
         n_kind = (if parsed_type link = LtFolder then KFolder else KFile (visitor_file_kind V nkey (file_properties details))),
         n_name = name, n_creation_time = l_creation_time link, n_modification_time = l_modification_time link,
         n_trashed = is_trashed link, n_is_shared = True, n_is_shared_publicly = True,
         n_signature_email = l_name_signature_email link, n_membership = None, n_direct_role = None, n_share_id = None,
         n_photo = None, n_album = None, n_verification = NodeVerification_default\<rparr>))"

text \<open>A link whose key or name does not open is left out.\<close>

fun visitor_nodes ::
  "('k, 'c, 'pub, 'm, 'w) visitor_env \<Rightarrow> 'k public_link_client \<Rightarrow> volume_id \<Rightarrow> link_details_dto list
     \<Rightarrow> (node list, ('k, 'w) visitor) op" where
  "visitor_nodes V P vid [] = op_return []"
| "visitor_nodes V P vid (details # rest) =
     op_bind (op_try (op_bind (visitor_parent_key V P vid details) (\<lambda>key. op_of (visitor_node V vid details key)))) (\<lambda>r.
     op_bind (visitor_nodes V P vid rest) (\<lambda>nodes. op_return (case r of Inr n \<Rightarrow> n # nodes | Inl _ \<Rightarrow> nodes)))"

fun visitor_batches ::
  "('k, 'c, 'pub, 'm, 'w) visitor_env \<Rightarrow> 'k public_link_client \<Rightarrow> (volume_id \<times> link_id list) list
     \<Rightarrow> (node list, ('k, 'w) visitor) op" where
  "visitor_batches V P [] = op_return []"
| "visitor_batches V P ((vid, ids) # batches) =
     op_bind (fetch_link_details V P vid ids) (\<lambda>links.
     op_bind (visitor_nodes V P vid links) (\<lambda>nodes.
     op_bind (visitor_batches V P batches) (\<lambda>rest. op_return (nodes @ rest))))"

text \<open>Uids by volume, in the order the volumes are first seen.\<close>

definition enter_uid ::
  "node_uid \<Rightarrow> volume_id list \<times> (volume_id \<rightharpoonup> link_id list) \<Rightarrow> volume_id list \<times> (volume_id \<rightharpoonup> link_id list)" where
  "enter_uid uid = (\<lambda>(order, groups).
     case groups (uid_volume uid) of
       Some ids \<Rightarrow> (order, groups(uid_volume uid \<mapsto> ids @ [uid_link uid]))
     | None \<Rightarrow> (order @ [uid_volume uid], groups(uid_volume uid \<mapsto> [uid_link uid])))"

definition group_uids :: "node_uid list \<Rightarrow> (volume_id \<times> link_id list) list" where
  "group_uids uids =
     (case fold enter_uid uids ([], Map.empty) of
        (order, groups) \<Rightarrow> map (\<lambda>vid. (vid, case groups vid of Some ids \<Rightarrow> ids | None \<Rightarrow> [])) order)"

definition visitor_enumerate_nodes ::
  "('k, 'c, 'pub, 'm, 'w) visitor_env \<Rightarrow> 'k public_link_client \<Rightarrow> node_uid list \<Rightarrow> (node list, ('k, 'w) visitor) op" where
  "visitor_enumerate_nodes V P uids =
     visitor_batches V P (concat (map (\<lambda>(vid, ids). map (Pair vid) (chunks MAX_BATCH_COUNT ids)) (group_uids uids)))"

definition visitor_get_node ::
  "('k, 'c, 'pub, 'm, 'w) visitor_env \<Rightarrow> 'k public_link_client \<Rightarrow> node_uid \<Rightarrow> (node option, ('k, 'w) visitor) op" where
  "visitor_get_node V P uid =
     op_bind (visitor_enumerate_nodes V P [uid]) (\<lambda>nodes. op_return (if nodes = [] then None else Some (last nodes)))"

definition get_root_node ::
  "('k, 'c, 'pub, 'm, 'w) visitor_env \<Rightarrow> 'k public_link_client \<Rightarrow> (node, ('k, 'w) visitor) op" where
  "get_root_node V P =
     op_bind (visitor_get_node V P (lk_root_uid P)) (op_ok_or (InvalidOperation ''the shared node no longer exists''))"

section \<open>Listings\<close>

partial_function (option) visitor_children_pages ::
  "('k, 'c, 'pub, 'm, 'w) visitor_env \<Rightarrow> 'k public_link_client \<Rightarrow> node_uid \<Rightarrow> link_id option \<Rightarrow> node_uid list \<Rightarrow> ('k, 'w) visitor
     \<Rightarrow> (node_uid list result \<times> ('k, 'w) visitor) option" where
  [code]: "visitor_children_pages V P folder anchor uids v =
     op_bind (on_session (transport_get (visitor_session V P) (\<lambda>http path. with_tokens (\<lambda>t. pv_get_children V http t path))
         (children_path folder anchor)))
       (\<lambda>page v1.
          if fcr_link_ids page = [] then Some (Inr uids, v1)
          else if \<not> fcr_more_results_exist page \<or> fcr_anchor_id page = None
          then Some (Inr (uids @ map (NodeUid_new (uid_volume folder)) (fcr_link_ids page)), v1)
          else visitor_children_pages V P folder (fcr_anchor_id page)
                 (uids @ map (NodeUid_new (uid_volume folder)) (fcr_link_ids page)) v1) v"

definition visitor_children ::
  "('k, 'c, 'pub, 'm, 'w) visitor_env \<Rightarrow> 'k public_link_client \<Rightarrow> node_uid \<Rightarrow> (node_uid list, ('k, 'w) visitor) op" where
  "visitor_children V P folder = visitor_children_pages V P folder None []"

definition list_folder ::
  "('k, 'c, 'pub, 'm, 'w) visitor_env \<Rightarrow> 'k public_link_client \<Rightarrow> node_uid \<Rightarrow> (node list, ('k, 'w) visitor) op" where
  "list_folder V P folder = op_bind (visitor_children V P folder) (visitor_enumerate_nodes V P)"

text \<open>
  One level of the walk: its folders are listed in order, the folders found are the next level,
  and the count so far is reported after each listing.
\<close>

fun walk_level ::
  "('k, 'c, 'pub, 'm, 'w) visitor_env \<Rightarrow> 'k public_link_client \<Rightarrow> (nat \<Rightarrow> 'q \<Rightarrow> 'q) \<Rightarrow> node_uid list \<Rightarrow> node list
     \<Rightarrow> node_uid list \<Rightarrow> (node list \<times> node_uid list, 'q \<times> ('k, 'w) visitor) op" where
  "walk_level V P progress [] found deeper = op_return (found, deeper)"
| "walk_level V P progress (folder # folders) found deeper =
     op_bind (beside (list_folder V P folder)) (\<lambda>children.
     let found1 = found @ children in
     op_then (op_modify (apfst (progress (length found1))))
       (walk_level V P progress folders found1 (deeper @ map n_uid (filter is_folder children))))"

partial_function (option) walk_subtree ::
  "('k, 'c, 'pub, 'm, 'w) visitor_env \<Rightarrow> 'k public_link_client \<Rightarrow> (nat \<Rightarrow> 'q \<Rightarrow> 'q) \<Rightarrow> node_uid list \<Rightarrow> node list
     \<Rightarrow> 'q \<times> ('k, 'w) visitor \<Rightarrow> (node list result \<times> 'q \<times> ('k, 'w) visitor) option" where
  [code]: "walk_subtree V P progress level found st =
     (if level = [] then Some (Inr found, st)
      else op_bind (walk_level V P progress level found [])
             (\<lambda>(found1, deeper). walk_subtree V P progress deeper found1) st)"

definition enumerate_subtree_reporting ::
  "('k, 'c, 'pub, 'm, 'w) visitor_env \<Rightarrow> 'k public_link_client \<Rightarrow> (nat \<Rightarrow> 'q \<Rightarrow> 'q) \<Rightarrow> node_uid
     \<Rightarrow> (node list, 'q \<times> ('k, 'w) visitor) op" where
  "enumerate_subtree_reporting V P progress folder = walk_subtree V P progress [folder] []"

definition enumerate_subtree ::
  "('k, 'c, 'pub, 'm, 'w) visitor_env \<Rightarrow> 'k public_link_client \<Rightarrow> node_uid \<Rightarrow> (node list, ('k, 'w) visitor) op" where
  "enumerate_subtree V P folder = (\<lambda>v.
     map_option (\<lambda>(r, _, v'). (r, v')) (enumerate_subtree_reporting V P (\<lambda>_ q. q) folder ((), v)))"

section \<open>Files\<close>

definition visitor_content_key ::
  "('k, 'c, 'pub, 'm, 'w) visitor_env \<Rightarrow> link_details_dto \<Rightarrow> 'k \<Rightarrow> 'c result" where
  "visitor_content_key V details nkey =
     (case Option.bind (file_properties details) fi_content_key_packet of
        None \<Rightarrow> Inl (InvalidOperation ''the file has no content key packet'')
      | Some packet \<Rightarrow> sum_bind (decode_base64 V packet ''ContentKeyPacket'') (pv_decrypt_content_key V nkey))"

text \<open>The keys of a file and the revision to read: the given one, else the active one.\<close>

definition visitor_file_access ::
  "('k, 'c, 'pub, 'm, 'w) visitor_env \<Rightarrow> 'k public_link_client \<Rightarrow> node_uid \<Rightarrow> string option
     \<Rightarrow> (link_details_dto \<times> 'k \<times> 'c \<times> string, ('k, 'w) visitor) op" where
  "visitor_file_access V P uid revision_id =
     op_bind (link_details V P uid) (\<lambda>details.
     op_bind (op_ok_or (InvalidOperation ''the shared file has no active revision'')
                (case revision_id of
                   Some i \<Rightarrow> Some i
                 | None \<Rightarrow> map_option ar_id (Option.bind (file_properties details) fi_active_revision))) (\<lambda>rid.
     op_bind (visitor_parent_key V P (uid_volume uid) details) (\<lambda>parent_key.
     op_bind (op_of (pv_decrypt_link V parent_key (ld_link details))) (\<lambda>(nkey, _).
     op_bind (op_of (visitor_content_key V details nkey)) (\<lambda>content_key.
       op_return (details, nkey, content_key, rid))))))"

definition visitor_get_revision ::
  "('k, 'c, 'pub, 'm, 'w) visitor_env \<Rightarrow> api_http_client \<Rightarrow> string \<Rightarrow> 'w link_session \<Rightarrow> revision_dto result \<times> 'w link_session" where
  "visitor_get_revision V http path = with_tokens (\<lambda>t. pv_get_revision V http t path)"

definition visitor_blocks ::
  "('k, 'c, 'pub, 'm, 'w) visitor_env \<Rightarrow> 'k public_link_client \<Rightarrow> node_uid \<Rightarrow> string
     \<Rightarrow> (revision_dto \<times> block_dto list, ('k, 'w) visitor) op" where
  "visitor_blocks V P uid rid =
     on_session (list_blocks (visitor_session V P) (visitor_get_revision V) (uid_volume uid) (uid_link uid) rid)"

definition visitor_targets ::
  "('k, 'c, 'pub, 'm, 'w) visitor_env \<Rightarrow> 'k public_link_client \<Rightarrow> node_uid \<Rightarrow> string \<Rightarrow> block_dto list
     \<Rightarrow> 'w link_session block_targets" where
  "visitor_targets V P uid rid blocks =
     \<lparr>tg_session = visitor_session V P, tg_get = visitor_get_revision V,
      tg_storage = (\<lambda>http url token. with_tokens (\<lambda>t. pv_storage V http t url token)), tg_uid = uid,
      tg_revision_id = rid, tg_expected_blocks = length blocks\<rparr>"

text \<open>The blocks are written in order; no manifest is formed.\<close>

definition visitor_write_blocks ::
  "('k, 'c, 'pub, 'm, 'w) visitor_env \<Rightarrow> 'k public_link_client \<Rightarrow> (bytes \<Rightarrow> 'q \<Rightarrow> string option \<times> 'q) \<Rightarrow> node_uid \<Rightarrow> string
     \<Rightarrow> 'c \<Rightarrow> block_dto list \<Rightarrow> (unit, 'q \<times> ('k, 'w) visitor) op" where
  "visitor_write_blocks V P wr uid rid content_key blocks = (\<lambda>(q, v).
     map_option (\<lambda>(r, q1, t). (map_sum id (\<lambda>_. ()) r, (q1, v\<lparr>vs_session := bt_world t\<rparr>)))
       (write_content_blocks (visitor_targets V P uid rid blocks) (pv_decrypt_block V content_key) (\<lambda>_. []) wr
          [0..<length blocks] [] (q, BlockTargets_new blocks (vs_session v))))"

definition visitor_download_file_to ::
  "('k, 'c, 'pub, 'm, 'w) visitor_env \<Rightarrow> 'k public_link_client \<Rightarrow> (bytes \<Rightarrow> 'q \<Rightarrow> string option \<times> 'q) \<Rightarrow> node_uid
     \<Rightarrow> (unit, 'q \<times> ('k, 'w) visitor) op" where
  "visitor_download_file_to V P wr uid =
     op_bind (beside (visitor_file_access V P uid None)) (\<lambda>(_, _, content_key, rid).
     op_bind (beside (visitor_blocks V P uid rid)) (\<lambda>(_, blocks).
       visitor_write_blocks V P wr uid rid content_key blocks))"

definition visitor_download_file ::
  "('k, 'c, 'pub, 'm, 'w) visitor_env \<Rightarrow> 'k public_link_client \<Rightarrow> node_uid \<Rightarrow> (bytes, ('k, 'w) visitor) op" where
  "visitor_download_file V P uid = collected (visitor_download_file_to V P vec_write uid)"

text \<open>The attributes of the revision, else those the link gave for it when it is the active one.\<close>

definition reader_attributes :: "link_details_dto \<Rightarrow> revision_dto \<Rightarrow> string \<Rightarrow> string option" where
  "reader_attributes details revision rid =
     (case rev_extended_attributes revision of
        Some x \<Rightarrow> Some x
      | None \<Rightarrow> Option.bind (Option.bind (file_properties details) fi_active_revision)
                  (\<lambda>active. if ar_id active = rid then ar_extended_attributes active else None))"

definition visitor_open_inner ::
  "('k, 'c, 'pub, 'm, 'w) visitor_env \<Rightarrow> 'k public_link_client \<Rightarrow> node_uid \<Rightarrow> string option
     \<Rightarrow> ('c revision_reader, ('k, 'w) visitor) op" where
  "visitor_open_inner V P uid revision_id =
     op_bind (visitor_file_access V P uid revision_id) (\<lambda>(details, nkey, content_key, rid).
     op_bind (visitor_blocks V P uid rid) (\<lambda>(revision, blocks).
     op_bind (op_of (rank_block_sizes (visitor_claims V nkey (reader_attributes details revision rid)) rid (length blocks))) (\<lambda>sizes.
       op_return \<lparr>rr_uid = uid, rr_revision_id = rid, rr_content_key = content_key, rr_blocks = blocks,
                  rr_block_sizes = sizes\<rparr>)))"

definition visitor_open_revision ::
  "('k, 'c, 'pub, 'm, 'w) visitor_env \<Rightarrow> 'k public_link_client \<Rightarrow> node_uid \<Rightarrow> ('c revision_reader, ('k, 'w) visitor) op" where
  "visitor_open_revision V P uid = visitor_open_inner V P uid None"

definition visitor_open_revision_at ::
  "('k, 'c, 'pub, 'm, 'w) visitor_env \<Rightarrow> 'k public_link_client \<Rightarrow> node_uid \<Rightarrow> string
     \<Rightarrow> ('c revision_reader, ('k, 'w) visitor) op" where
  "visitor_open_revision_at V P uid rid = visitor_open_inner V P uid (Some rid)"

definition visitor_read ::
  "('k, 'c, 'pub, 'm, 'w) visitor_env \<Rightarrow> 'k public_link_client \<Rightarrow> 'c revision_reader \<Rightarrow> u64 \<Rightarrow> u64
     \<Rightarrow> 'w link_session block_table \<Rightarrow> (bytes result \<times> 'w link_session block_table) option" where
  "visitor_read V P r = read_at (visitor_targets V P (rr_uid r) (rr_revision_id r) (rr_blocks r))
     (pv_decrypt_block V (rr_content_key r)) (rr_block_sizes r)"

definition visitor_download_range ::
  "('k, 'c, 'pub, 'm, 'w) visitor_env \<Rightarrow> 'k public_link_client \<Rightarrow> node_uid \<Rightarrow> u64 \<Rightarrow> u64 \<Rightarrow> (bytes, ('k, 'w) visitor) op" where
  "visitor_download_range V P uid offset len =
     op_bind (visitor_open_revision V P uid) (\<lambda>r.
       on_session (\<lambda>s. map_option (\<lambda>(q, t). (q, bt_world t)) (visitor_read V P r offset len (BlockTargets_new (rr_blocks r) s))))"

section \<open>Thumbnails\<close>

definition visitor_thumbnail_target ::
  "('k, 'c, 'pub, 'm, 'w) visitor_env \<Rightarrow> 'k public_link_client \<Rightarrow> node_uid \<Rightarrow> thumbnail_type
     \<Rightarrow> ('c \<times> string option, ('k, 'w) visitor) op" where
  "visitor_thumbnail_target V P uid wanted =
     op_bind (visitor_file_access V P uid None) (\<lambda>(_, _, content_key, rid).
     op_bind (visitor_blocks V P uid rid) (\<lambda>(revision, _).
       op_return (content_key, Option.bind
         (find (\<lambda>t. tb_thumbnail_type t = ThumbnailType_as_i32 wanted) (rev_thumbnails revision)) tb_id)))"

definition visitor_thumbnail_blocks ::
  "('k, 'c, 'pub, 'm, 'w) visitor_env \<Rightarrow> 'k public_link_client \<Rightarrow> volume_id \<Rightarrow> string list
     \<Rightarrow> (thumbnail_block_list_response, ('k, 'w) visitor) op" where
  "visitor_thumbnail_blocks V P vid ids =
     on_session (transport_post_query (visitor_session V P)
       (\<lambda>http path body. with_tokens (\<lambda>t. pv_post_thumbnails V http t path body)) (thumbnails_path vid) ids)"

definition visitor_fetch_thumbnail ::
  "('k, 'c, 'pub, 'm, 'w) visitor_env \<Rightarrow> 'k public_link_client \<Rightarrow> 'c \<Rightarrow> thumbnail_block \<Rightarrow> (bytes, ('k, 'w) visitor) op" where
  "visitor_fetch_thumbnail V P content_key block =
     op_bind (on_session (op_call (\<lambda>s. with_tokens (\<lambda>t. pv_storage V (fst (bs_http (visitor_session V P) s)) t
                (tk_bare_url block) (tk_token block)) s))) (\<lambda>ct.
       op_of (pv_decrypt_thumbnail V content_key ct))"

definition visitor_download_thumbnail ::
  "('k, 'c, 'pub, 'm, 'w) visitor_env \<Rightarrow> 'k public_link_client \<Rightarrow> node_uid \<Rightarrow> thumbnail_type
     \<Rightarrow> (bytes option, ('k, 'w) visitor) op" where
  "visitor_download_thumbnail V P uid wanted =
     op_bind (visitor_thumbnail_target V P uid wanted) (\<lambda>(content_key, thumbnail_id).
     case thumbnail_id of
       None \<Rightarrow> op_return None
     | Some tid \<Rightarrow>
         op_bind (visitor_thumbnail_blocks V P (uid_volume uid) [tid]) (\<lambda>response.
         case find (\<lambda>b. tk_thumbnail_id b = tid) (tl_blocks response) of
           None \<Rightarrow> op_fail (InvalidOperation (''resolve thumbnail block: '' @
             (case find (\<lambda>e. te_thumbnail_id e = tid) (tl_errors response) of
                Some e \<Rightarrow> te_error e | None \<Rightarrow> ''thumbnail block not returned'')))
         | Some block \<Rightarrow> op_bind (visitor_fetch_thumbnail V P content_key block) (\<lambda>bytes. op_return (Some bytes))))"

fun visitor_collect_targets ::
  "('k, 'c, 'pub, 'm, 'w) visitor_env \<Rightarrow> 'k public_link_client \<Rightarrow> thumbnail_type \<Rightarrow> node_uid list \<Rightarrow> 'c thumbnail_batch
     \<Rightarrow> ('c thumbnail_batch, ('k, 'w) visitor) op" where
  "visitor_collect_targets V P wanted [] b = op_return b"
| "visitor_collect_targets V P wanted (uid # uids) b =
     op_bind (op_try (visitor_thumbnail_target V P uid wanted)) (\<lambda>r.
       visitor_collect_targets V P wanted uids
         (case r of
            Inr (content_key, Some tid) \<Rightarrow>
              b\<lparr>tn_targets := (tn_targets b)(tid \<mapsto> (uid, content_key)), tn_ids := List.insert tid (tn_ids b)\<rparr>
          | Inr (_, None) \<Rightarrow> report_thumbnail uid (Inl (InvalidOperation
              (''node '' @ NodeUid_display uid @ '' has no thumbnail of the requested type''))) b
          | Inl e \<Rightarrow> report_thumbnail uid (Inl e) b))"

fun visitor_fetch_blocks ::
  "('k, 'c, 'pub, 'm, 'w) visitor_env \<Rightarrow> 'k public_link_client \<Rightarrow> thumbnail_block list \<Rightarrow> 'c thumbnail_batch
     \<Rightarrow> ('c thumbnail_batch, ('k, 'w) visitor) op" where
  "visitor_fetch_blocks V P [] b = op_return b"
| "visitor_fetch_blocks V P (block # blocks) b =
     (case tn_targets b (tk_thumbnail_id block) of
        None \<Rightarrow> visitor_fetch_blocks V P blocks b
      | Some (uid, content_key) \<Rightarrow>
          op_bind (op_try (visitor_fetch_thumbnail V P content_key block)) (\<lambda>r.
            visitor_fetch_blocks V P blocks (settle_thumbnail (tk_thumbnail_id block) r b)))"

definition drain_thumbnail_chunk ::
  "('k, 'c, 'pub, 'm, 'w) visitor_env \<Rightarrow> 'k public_link_client \<Rightarrow> volume_id \<Rightarrow> string list \<Rightarrow> 'c thumbnail_batch
     \<Rightarrow> ('c thumbnail_batch, ('k, 'w) visitor) op" where
  "drain_thumbnail_chunk V P vid chunk b =
     op_bind (op_try (visitor_thumbnail_blocks V P vid chunk)) (\<lambda>r.
     case r of
       Inl e \<Rightarrow> op_return (fold (\<lambda>tid. settle_thumbnail tid
         (Inl (InvalidOperation (''resolve thumbnail blocks: '' @ pv_display V e)))) chunk b)
     | Inr response \<Rightarrow>
         op_bind (visitor_fetch_blocks V P (tl_blocks response) b) (\<lambda>b1.
           op_return (fold (\<lambda>tid. settle_thumbnail tid (Inl (InvalidOperation ''thumbnail not found''))) chunk
             (fold (\<lambda>e. settle_thumbnail (te_thumbnail_id e) (Inl (InvalidOperation (te_error e)))) (tl_errors response) b1))))"

fun drain_chunks ::
  "('k, 'c, 'pub, 'm, 'w) visitor_env \<Rightarrow> 'k public_link_client \<Rightarrow> volume_id \<Rightarrow> string list list \<Rightarrow> 'c thumbnail_batch
     \<Rightarrow> ('c thumbnail_batch, ('k, 'w) visitor) op" where
  "drain_chunks V P vid [] b = op_return b"
| "drain_chunks V P vid (chunk # rest) b = op_bind (drain_thumbnail_chunk V P vid chunk b) (drain_chunks V P vid rest)"

fun visitor_thumbnail_volumes ::
  "('k, 'c, 'pub, 'm, 'w) visitor_env \<Rightarrow> 'k public_link_client \<Rightarrow> thumbnail_type \<Rightarrow> (volume_id \<times> link_id list) list
     \<Rightarrow> file_thumbnail list \<Rightarrow> (file_thumbnail list, ('k, 'w) visitor) op" where
  "visitor_thumbnail_volumes V P wanted [] results = op_return results"
| "visitor_thumbnail_volumes V P wanted ((vid, ids) # groups) results =
     op_bind (visitor_collect_targets V P wanted (map (NodeUid_new vid) ids)
       \<lparr>tn_targets = Map.empty, tn_ids = [], tn_results = results\<rparr>) (\<lambda>b.
     op_bind (drain_chunks V P vid (chunks MAX_THUMBNAIL_IDS_PER_REQUEST (pv_key_order V (tn_ids b))) b) (\<lambda>b1.
       visitor_thumbnail_volumes V P wanted groups (tn_results b1)))"

definition visitor_thumbnails ::
  "('k, 'c, 'pub, 'm, 'w) visitor_env \<Rightarrow> 'k public_link_client \<Rightarrow> node_uid list \<Rightarrow> thumbnail_type
     \<Rightarrow> (file_thumbnail list, ('k, 'w) visitor) op" where
  "visitor_thumbnails V P uids wanted = visitor_thumbnail_volumes V P wanted (group_uids uids) []"

section \<open>The provider\<close>

definition visitor_on ::
  "('sk, 'pub, 'sig, 'msg) rpgp \<Rightarrow> ('sk, 'pub, 'ek, 'pk, 'sd, 'w) pgp_lib \<Rightarrow> xattr_decoder
     \<Rightarrow> (bytes \<Rightarrow> nat \<Rightarrow> bytes \<Rightarrow> string + string) \<Rightarrow> ('sk private_key, content_key, 'mk, 'm, 'w) visitor_env
     \<Rightarrow> ('sk private_key, content_key, 'mk, 'm, 'w) visitor_env" where
  "visitor_on R L js bcrypt endpoints =
     endpoints
       \<lparr>pv_derive_key_passphrase := (\<lambda>pw salt. from_crypto (derive_key_passphrase bcrypt pw salt)),
        pv_decrypt_with_password := (\<lambda>m pw. from_crypto (decrypt_armored_with_password R m pw)),
        pv_from_armored := (\<lambda>m pw. from_crypto (PrivateKey_from_armored R m pw)),
        pv_decrypt_link := (\<lambda>k link. map_sum id (\<lambda>dl. (dl_node_key dl, dl_name dl)) (decrypt_link R k link)),
        pv_decrypt_content_key := (\<lambda>k b. from_crypto (decrypt_content_key L k b)),
        pv_xattr := decrypt_extended_attributes_unverified R js,
        pv_decrypt_block := (\<lambda>ck b. from_crypto (decrypt_block L ck b)),
        pv_decrypt_thumbnail := (\<lambda>ck b. from_crypto (decrypt_thumbnail L ck b))\<rparr>"

section \<open>Opening one's own link\<close>

text \<open>
  What a server that follows the protocol makes of the settings the owner published: the first
  answer of the handshake, and the second once it accepts the proof with \<open>m2\<close>.  The
  passphrase of the share is the message whose key packet the owner published.
\<close>

definition served_info ::
  "('pub, 'm, 'w) srp_lib \<Rightarrow> public_link_settings_dto \<Rightarrow> string \<Rightarrow> int \<Rightarrow> bytes \<Rightarrow> string \<Rightarrow> public_link_info_response" where
  "served_info S settings modulus version B sid =
     \<lparr>pir_version = version, pir_modulus = modulus, pir_server_ephemeral = sl_base64 S B,
      pir_url_password_salt = pls_url_password_salt settings, pir_srp_session = sid, pir_flags = word_of_int (pls_flags settings),
      pir_vendor_type = 0\<rparr>"

definition served_auth ::
  "('pub, 'm, 'w) srp_lib \<Rightarrow> public_link_settings_dto \<Rightarrow> (string \<Rightarrow> string) \<Rightarrow> node_uid \<Rightarrow> string \<Rightarrow> string \<Rightarrow> string \<Rightarrow> bytes
     \<Rightarrow> public_link_auth_response" where
  "served_auth S settings passphrase_message shared share_key sid token m2 =
     \<lparr>pas_server_proof = sl_base64 S m2, pas_uid = sid, pas_access_token = Some token,
      pas_share = \<lparr>psd_volume_id = uid_volume shared, psd_link_id = uid_link shared,
        psd_share_password_salt = pls_share_password_salt settings, psd_share_key = share_key,
        psd_share_passphrase = passphrase_message (pls_share_passphrase_key_packet settings),
        psd_public_permissions = Some (pls_permissions settings)\<rparr>\<rparr>"

lemma seal_public_link_settings_Inr:
  assumes "seal_public_link_settings E permissions generated custom sk akey d = Some (Inr settings, d')"
  obtains modulus key_salt salted packet verifier w1 w1' w2 w2' w3 w3' path where
    "sv_get_modulus E path w1 = Some (Inr modulus, w1')"
    "sv_derive_key_passphrase E (as_bytes (generated @ (case nonempty_password custom of Some p \<Rightarrow> p | None \<Rightarrow> []))) key_salt = Inr salted"
    "sv_encrypt_with_password E sk salted w2 = Some (Inr packet, w2')"
    "sv_generate_verifier E (as_bytes (generated @ (case nonempty_password custom of Some p \<Rightarrow> p | None \<Rightarrow> []))) (mo_modulus modulus)
       DEFAULT_BIT_LENGTH w3 = Some (Inr verifier, w3')"
    "pls_permissions settings = permissions" "pls_flags settings = (if nonempty_password custom \<noteq> None then 3 else 2)"
    "pls_share_password_salt settings = sv_base64 E key_salt" "pls_share_passphrase_key_packet settings = sv_base64 E packet"
    "pls_url_password_salt settings = sf_salt verifier" "pls_srp_verifier settings = sf_verifier verifier"
    "pls_srp_modulus_id settings = mo_modulus_id modulus"
  using assms
  by (auto simp: seal_public_link_settings_def Let_def op_bind_Inr fetch_srp_modulus_def on_world_Some draw_random_def)

lemma create_public_link_Inr:
  assumes "ensure_node_share E uid d = Some (Inr (sid, sk, email, akey), d0)"
    and "create_public_link E uid role custom expiration d = Some (Inr link, d1)"
  obtains permissions raw settings d2 d3 r w w' w0 w1 where "public_link_permissions role = Inr permissions"
    "sv_random E PUBLIC_LINK_PASSWORD_LEN w0 = (raw, w1)"
    "seal_public_link_settings E permissions (generate_public_link_password raw) custom sk akey d2 = Some (Inr settings, d3)"
    "sv_post_public_link E (share_urls_path sid) \<lparr>cpl_creator_email = email, cpl_expiration_time = expiration, cpl_settings = settings\<rparr> w
       = Some (Inr r, w')" "dv_world d1 = w'"
    "pl_url link = Some (su_public_url r @ ''#'' @ generate_public_link_password raw)" "pl_custom_password link = nonempty_password custom"
  using assms
  by (auto simp: create_public_link_def op_bind_Inr draw_random_def on_world_Some Let_def split: prod.splits)

lemma auth_of_sealed:
  assumes sealed: "seal_public_link_settings E permissions generated custom sk akey d = Some (Inr settings, d')"
    and cr: "as_bytes (lc_password cr) = as_bytes (generated @ (case nonempty_password custom of Some p \<Rightarrow> p | None \<Rightarrow> []))"
    and verifier: "\<And>pw m w r w'. sv_generate_verifier E pw m DEFAULT_BIT_LENGTH w = Some (Inr r, w') \<Longrightarrow>
        \<exists>g g'. generate_verifier (pv_srp V) pw m bits g = Some (Inr r, g')"
    and modulus: "\<And>path w m w'. sv_get_modulus E path w = Some (Inr m, w') \<Longrightarrow> modulus_of (mo_modulus_id m) = mo_modulus m"
    and derive: "pv_derive_key_passphrase V = sv_derive_key_passphrase E"
    and base64: "\<And>b. sl_base64_decode (pv_srp V) (sl_base64 (pv_srp V) b) = Inr b" "\<And>b. sl_base64_decode (pv_srp V) (sv_base64 E b) = Inr b"
    and share: "\<And>pw w packet w'. sv_encrypt_with_password E sk pw w = Some (Inr packet, w') \<Longrightarrow>
        pv_decrypt_with_password V (passphrase_message (sv_base64 E packet)) pw = Inr passphrase"
      "pv_from_armored V locked passphrase = Inr share_key"
    and build: "pv_build V (lc_config cr) = None"
    and stored: "sl_base64_decode (pv_srp V) (pls_url_password_salt settings) = Inr salt"
      "sl_base64_decode (pv_srp V) (pls_srp_verifier settings) = Inr v"
    and N: "modulus_of (pls_srp_modulus_id settings) = signed_N" "verify_and_decode_modulus (pv_srp V) signed_N = Inr N"
    and info: "link_info V cr w = (Inr (served_info (pv_srp V) settings signed_N version B sid), wa)"
    and honest: "honest_ephemeral (pv_srp V) signed_N bits (from_le v) b B"
    and proofs: "generate_proofs (pv_srp V) version (as_bytes (lc_password cr)) salt signed_N B bits wa = Some (Inr p, wb)"
    and auth: "\<And>m2. server_answer (pv_srp V) (from_le N) bits (from_le v) b B (sp_client_ephemeral p) (sp_client_proof p) = Some m2 \<Longrightarrow>
        link_authenticate V cr (served_info (pv_srp V) settings signed_N version B sid) p wb =
          (Inr (served_auth (pv_srp V) settings passphrase_message shared locked uid token m2), wc)"
  shows "\<exists>a. auth_in_group V bits cr w = Some (Inr a, wc) \<and> ao_share_key a = share_key \<and> ao_root_uid a = shared \<and>
     ao_public_role a = from_permissions (Some permissions) \<and> ao_tokens a = \<lparr>access_token = token, refresh_token = []\<rparr>"
proof -
  let ?pw = "as_bytes (generated @ (case nonempty_password custom of Some p \<Rightarrow> p | None \<Rightarrow> []))"
  obtain md key_salt salted packet vf w1 w1' w2 w2' w3 w3' path where
    md: "sv_get_modulus E path w1 = Some (Inr md, w1')"
    and salted: "sv_derive_key_passphrase E ?pw key_salt = Inr salted"
    and packet: "sv_encrypt_with_password E sk salted w2 = Some (Inr packet, w2')"
    and vf: "sv_generate_verifier E ?pw (mo_modulus md) DEFAULT_BIT_LENGTH w3 = Some (Inr vf, w3')"
    and settings: "pls_permissions settings = permissions" "pls_flags settings = (if nonempty_password custom \<noteq> None then 3 else 2)"
      "pls_share_password_salt settings = sv_base64 E key_salt" "pls_share_passphrase_key_packet settings = sv_base64 E packet"
      "pls_url_password_salt settings = sf_salt vf" "pls_srp_verifier settings = sf_verifier vf"
      "pls_srp_modulus_id settings = mo_modulus_id md"
    by (rule seal_public_link_settings_Inr [OF sealed])
  have "signed_N = mo_modulus md" using modulus [OF md] N(1) settings(7) by simp
  with verifier [OF vf] obtain g g' where gen: "generate_verifier (pv_srp V) ?pw signed_N bits g = Some (Inr vf, g')" by blast
  have agree: "server_answer (pv_srp V) (from_le N) bits (from_le v) b B (sp_client_ephemeral p) (sp_client_proof p)
      = Some (sp_expected_server_proof p)"
    by (rule proofs_agree [OF gen base64(1) stored [unfolded settings] proofs [unfolded cr] honest N(2)])
  let ?m2 = "sp_expected_server_proof p"
  have key: "unlock_share_key V cr (served_auth (pv_srp V) settings passphrase_message shared locked uid token ?m2) = Inr share_key"
    by (simp add: unlock_share_key_def served_auth_def settings decode_base64_def base64 derive cr salted share(1) [OF packet] share(2))
  obtain http where http: "visitor_http V (lc_config cr) uid = Inr http" using build by (simp add: visitor_http_def)
  have "outcome_of_auth V cr p (served_auth (pv_srp V) settings passphrase_message shared locked uid token ?m2) =
      Inr \<lparr>ao_http = http, ao_tokens = \<lparr>access_token = token, refresh_token = []\<rparr>, ao_share_key = share_key,
        ao_root_uid = shared, ao_public_role = from_permissions (Some permissions)\<rparr>"
    unfolding outcome_of_auth_def key by (simp add: served_auth_def http settings)
  then show ?thesis
    using info proofs auth [OF agree] stored(1) base64(1)
    by (simp add: auth_in_group_def op_bind_def served_info_def is_legacy_def settings(2) decode_base64_def)
qed

text \<open>What opening one's own link asks of the two clients holds for the clients built on the account
  client and on the same library.\<close>

lemma account_sharing_verifies:
  "sv_generate_verifier (account_sharing A L W js S D) pw m n w = Some (Inr r, w') \<Longrightarrow>
     \<exists>g g'. generate_verifier S pw m n g = Some (Inr r, g')"
  by (auto simp: account_sharing_def from_crypto_Inr)

lemma visitor_derives_as_owner:
  "pv_derive_key_passphrase (visitor_on R L' js' (ae_bcrypt A) D') = sv_derive_key_passphrase (account_sharing A L W js S D)"
  by (simp add: visitor_on_def account_sharing_def)

section \<open>The walk over the shared tree\<close>

text \<open>The nodes of one level below a folder, in the order of their folders; of several folders, the
  same from the top.\<close>

fun tree_level :: "(node_uid \<Rightarrow> node list) \<Rightarrow> node_uid \<Rightarrow> nat \<Rightarrow> node list" where
  "tree_level kids folder 0 = kids folder"
| "tree_level kids folder (Suc k) = concat (map (\<lambda>n. kids (n_uid n)) (filter is_folder (tree_level kids folder k)))"

fun forest_level :: "(node_uid \<Rightarrow> node list) \<Rightarrow> node_uid list \<Rightarrow> nat \<Rightarrow> node list" where
  "forest_level kids folders 0 = concat (map kids folders)"
| "forest_level kids folders (Suc k) = forest_level kids (map n_uid (filter is_folder (concat (map kids folders)))) k"

lemma forest_level_step:
  "forest_level kids folders (Suc k) = concat (map (\<lambda>n. kids (n_uid n)) (filter is_folder (forest_level kids folders k)))"
proof (induction k arbitrary: folders)
  case 0
  then show ?case by (simp add: comp_def)
next
  case (Suc k)
  let ?F = "map n_uid (filter is_folder (concat (map kids folders)))"
  have "forest_level kids folders (Suc (Suc k)) = forest_level kids ?F (Suc k)" by (rule forest_level.simps(2))
  also have "\<dots> = concat (map (\<lambda>n. kids (n_uid n)) (filter is_folder (forest_level kids ?F k)))" by (rule Suc)
  finally show ?case by simp
qed

lemma forest_level_tree: "forest_level kids [folder] = tree_level kids folder"
proof
  fix k
  show "forest_level kids [folder] k = tree_level kids folder k"
    by (induction k) (simp_all add: forest_level_step del: forest_level.simps(2))
qed

lemma forest_level_Nil: "forest_level kids [] k = []"
  by (induction k) simp_all

text \<open>
  Listing a folder of \<open>A\<close> gives its children, from any state that satisfies \<open>ok\<close>; its
  folders are in \<open>A\<close> again, nearer to the leaves.
\<close>

definition lists_folders ::
  "('k, 'c, 'pub, 'm, 'w) visitor_env \<Rightarrow> 'k public_link_client \<Rightarrow> (('k, 'w) visitor \<Rightarrow> bool) \<Rightarrow> node_uid set
     \<Rightarrow> (node_uid \<Rightarrow> node list) \<Rightarrow> bool" where
  "lists_folders V P ok A kids \<longleftrightarrow>
     (\<forall>folder\<in>A. \<forall>v. ok v \<longrightarrow> (\<exists>v'. list_folder V P folder v = Some (Inr (kids folder), v') \<and> ok v'))"

definition finite_below :: "(node_uid \<Rightarrow> nat) \<Rightarrow> node_uid set \<Rightarrow> (node_uid \<Rightarrow> node list) \<Rightarrow> bool" where
  "finite_below height A kids \<longleftrightarrow>
     (\<forall>folder\<in>A. \<forall>n\<in>set (kids folder). is_folder n \<longrightarrow> n_uid n \<in> A \<and> height (n_uid n) < height folder)"

lemma walk_level_lists:
  assumes "lists_folders V P ok A kids"
  shows "ok v \<Longrightarrow> set folders \<subseteq> A \<Longrightarrow> \<exists>q' v'. walk_level V P progress folders found deeper (q, v) =
     Some (Inr (found @ concat (map kids folders), deeper @ map n_uid (filter is_folder (concat (map kids folders)))), (q', v')) \<and> ok v'"
proof (induction folders arbitrary: found deeper q v)
  case (Cons folder folders)
  obtain v1 where v1: "list_folder V P folder v = Some (Inr (kids folder), v1)" "ok v1"
    using assms Cons.prems(1) bspec [of A _ folder] Cons.prems(2) unfolding lists_folders_def by (metis list.set_intros(1) subsetD)
  have "set folders \<subseteq> A" using Cons.prems(2) by simp
  from Cons.IH [OF v1(2) this, of "found @ kids folder" "deeper @ map n_uid (filter is_folder (kids folder))"
      "progress (length (found @ kids folder)) q"]
  show ?case using v1(1) by (auto simp: op_bind_def beside_def Let_def)
qed simp

lemma walk_subtree_lists:
  assumes "lists_folders V P ok A kids" "finite_below height A kids"
  shows "ok v \<Longrightarrow> (\<forall>f\<in>set level. f \<in> A \<and> height f < h) \<Longrightarrow>
     \<exists>q' v'. walk_subtree V P progress level found (q, v) =
       Some (Inr (found @ concat (map (forest_level kids level) [0..<h])), (q', v')) \<and> ok v'"
proof (induction h arbitrary: level found q v)
  case 0
  then have "level = []" by (cases level) auto
  then show ?case using 0 by (subst walk_subtree.simps) simp
next
  case (Suc h)
  show ?case
  proof (cases "level = []")
    case True
    then have "concat (map (forest_level kids level) [0..<Suc h]) = []" by (simp add: forest_level_Nil)
    then show ?thesis using True Suc.prems(1) by (subst walk_subtree.simps) auto
  next
    case False
    let ?next = "map n_uid (filter is_folder (concat (map kids level)))"
    obtain q1 v1 where lv: "walk_level V P progress level found [] (q, v) =
        Some (Inr (found @ concat (map kids level), ?next), (q1, v1))" "ok v1"
      using walk_level_lists [OF assms(1) Suc.prems(1), of level progress found "[]" q] Suc.prems(2) by auto
    have "\<forall>f\<in>set ?next. f \<in> A \<and> height f < h"
    proof
      fix f assume "f \<in> set ?next"
      then obtain g n where "g \<in> set level" "n \<in> set (kids g)" "is_folder n" "f = n_uid n" by auto
      then show "f \<in> A \<and> height f < h" using assms(2) Suc.prems(2) unfolding finite_below_def by fastforce
    qed
    from Suc.IH [OF lv(2) this, of "found @ concat (map kids level)" q1]
    obtain q2 v2 where "walk_subtree V P progress ?next (found @ concat (map kids level)) (q1, v1) =
        Some (Inr ((found @ concat (map kids level)) @ concat (map (forest_level kids ?next) [0..<h])), (q2, v2))" "ok v2" by blast
    moreover have "map (forest_level kids level) [0..<Suc h] = concat (map kids level) # map (forest_level kids ?next) [0..<h]"
      by (subst upt_conv_Cons) (simp_all only: map_Suc_upt [symmetric] list.map map_map comp_def forest_level.simps zero_less_Suc)
    ultimately show ?thesis using False lv(1) by (subst walk_subtree.simps) (simp add: op_bind_def)
  qed
qed

text \<open>Grouping with an order and a map groups as the Drive client does.\<close>

lemma group_uids_enter:
  "fold enter_uid uids (order, groups) = (order', groups') \<Longrightarrow> distinct order \<Longrightarrow> dom groups = set order \<Longrightarrow>
     map (\<lambda>vid. (vid, case groups' vid of Some ids \<Rightarrow> ids | None \<Rightarrow> [])) order' =
       fold add_to_group uids (map (\<lambda>vid. (vid, case groups vid of Some ids \<Rightarrow> ids | None \<Rightarrow> [])) order)"
proof (induction uids arbitrary: order groups)
  case (Cons u us)
  let ?g = "\<lambda>groups order. map (\<lambda>vid. (vid, case groups vid of Some ids \<Rightarrow> ids | None \<Rightarrow> [])) order"
  have same: "?g (groups(uid_volume u \<mapsto> x)) xs = ?g groups xs" if "uid_volume u \<notin> set xs" for x xs
    using that by (intro map_cong) auto
  have add: "add_to_group u (?g groups order) = (case enter_uid u (order, groups) of (o1, g1) \<Rightarrow> ?g g1 o1)"
    using Cons.prems(2,3)
  proof (cases "groups (uid_volume u)")
    case None
    then have "uid_volume u \<notin> set order" using Cons.prems(3) by auto
    then have "add_to_group u (?g groups order) = ?g groups order @ [(uid_volume u, [uid_link u])]"
      by (induction order) auto
    then show ?thesis using None same [OF \<open>uid_volume u \<notin> set order\<close>] by (simp add: enter_uid_def)
  next
    case (Some ids)
    then have "uid_volume u \<in> set order" using Cons.prems(3) by auto
    then have "add_to_group u (?g groups order) = ?g (groups(uid_volume u \<mapsto> ids @ [uid_link u])) order"
      using Cons.prems(2) Some same
    proof (induction order)
      case (Cons x xs)
      then show ?case by (cases "x = uid_volume u") auto
    qed simp
    then show ?thesis using Some by (simp add: enter_uid_def)
  qed
  obtain o1 g1 where step: "enter_uid u (order, groups) = (o1, g1)" by fastforce
  have "distinct o1 \<and> dom g1 = set o1"
  proof (cases "groups (uid_volume u)")
    case None
    then have "uid_volume u \<notin> set order" using Cons.prems(3) by auto
    moreover have "o1 = order @ [uid_volume u]" "g1 = groups(uid_volume u \<mapsto> [uid_link u])"
      using step None by (simp_all add: enter_uid_def)
    ultimately show ?thesis using Cons.prems(2,3) by simp
  next
    case (Some ids)
    then have "uid_volume u \<in> dom groups" by auto
    moreover have "o1 = order" "g1 = groups(uid_volume u \<mapsto> ids @ [uid_link u])"
      using step Some by (simp_all add: enter_uid_def)
    ultimately show ?thesis using Cons.prems(2,3) by (simp add: insert_absorb)
  qed
  then show ?case using Cons.IH [of o1 g1] Cons.prems(1) step add by simp
qed simp

lemma group_uids_by_volume: "group_uids uids = group_by_volume uids"
proof -
  obtain order groups where "fold enter_uid uids ([], Map.empty) = (order, groups)" by fastforce
  from group_uids_enter [OF this] show ?thesis
    by (simp add: group_uids_def group_by_volume_def \<open>fold enter_uid uids ([], Map.empty) = (order, groups)\<close>)
qed

section \<open>Keys of the shared tree\<close>

text \<open>
  \<open>T\<close> gives every node of \<open>A\<close> its own key, and \<open>tree\<close> its link.  The server knows
  the links; each link opens with the key of its parent in \<open>A\<close>, which is nearer to the shared
  root, and the shared root with the share key.
\<close>

definition shares_tree ::
  "('k, 'c, 'pub, 'm, 'w) visitor_env \<Rightarrow> 'k public_link_client \<Rightarrow> link_id set \<Rightarrow> (link_id \<Rightarrow> link_details_dto)
     \<Rightarrow> (link_id \<Rightarrow> 'k) \<Rightarrow> (link_id \<Rightarrow> nat) \<Rightarrow> bool" where
  "shares_tree V P A tree T depth \<longleftrightarrow>
     (\<forall>http t path i w. i \<in> A \<longrightarrow> fst (pv_post_links V http t path [i] w) = Inr [tree i]) \<and>
     (\<forall>i\<in>A. l_id (ld_link (tree i)) = i \<and>
        (if i = uid_link (lk_root_uid P) then \<exists>n. pv_decrypt_link V (lk_share_key P) (ld_link (tree i)) = Inr (T i, n)
         else (\<exists>p\<in>A. l_parent_id (ld_link (tree i)) = Some p \<and> depth p < depth i \<and>
                 (\<exists>n. pv_decrypt_link V (T p) (ld_link (tree i)) = Inr (T i, n)))))"

lemma shares_treeD:
  assumes "shares_tree V P A tree T depth" "i \<in> A"
  shows "l_id (ld_link (tree i)) = i"
    and "i = uid_link (lk_root_uid P) \<Longrightarrow> \<exists>n. pv_decrypt_link V (lk_share_key P) (ld_link (tree i)) = Inr (T i, n)"
    and "i \<noteq> uid_link (lk_root_uid P) \<Longrightarrow> \<exists>p\<in>A. l_parent_id (ld_link (tree i)) = Some p \<and> depth p < depth i \<and>
       (\<exists>n. pv_decrypt_link V (T p) (ld_link (tree i)) = Inr (T i, n))"
  using assms unfolding shares_tree_def by (metis (no_types, lifting))+

definition own_keys :: "(link_id \<Rightarrow> 'k) \<Rightarrow> ('k, 'w) visitor \<Rightarrow> bool" where
  "own_keys T v \<longleftrightarrow> (\<forall>u k. vs_node_keys v u = Some k \<longrightarrow> k = T (uid_link u))"

lemma own_keys_cache: "own_keys T v \<Longrightarrow> k = T (uid_link u) \<Longrightarrow> own_keys T (cache_node_key V u k v)"
  by (auto simp: own_keys_def cache_node_key_def split: option.splits if_splits)

lemma own_keys_session: "own_keys T (v\<lparr>vs_session := s\<rparr>) = own_keys T v"
  by (simp add: own_keys_def)

lemma link_details_served:
  assumes "shares_tree V P A tree T depth" "uid_link uid \<in> A" "own_keys T v"
  shows "\<exists>v'. link_details V P uid v = Some (Inr (tree (uid_link uid)), v') \<and> own_keys T v'"
proof -
  obtain s where "fetch_link_details V P (uid_volume uid) [uid_link uid] v = Some (Inr [tree (uid_link uid)], v\<lparr>vs_session := s\<rparr>)"
  proof -
    let ?http = "live_http (vs_session v)" and ?path = "''v2/volumes/'' @ volume_id_str (uid_volume uid) @ ''/links''"
    obtain w where "pv_post_links V ?http (live_tokens (vs_session v)) ?path [uid_link uid] (ls_world (vs_session v)) = (Inr [tree (uid_link uid)], w)"
      using assms(1,2) unfolding shares_tree_def by (metis prod.collapse)
    then show ?thesis
      by (intro that [of "(vs_session v)\<lparr>ls_world := w\<rparr>"])
         (simp add: fetch_link_details_def on_session_def transport_post_query_def with_renewal_def visitor_session_def
           PublicLinkSession_def with_tokens_def)
  qed
  then show ?thesis using assms(3) by (simp add: link_details_def op_bind_def own_keys_session)
qed

text \<open>The links left on the way down, each opened by the key before it.\<close>

fun chain_from :: "('k, 'c, 'pub, 'm, 'w) visitor_env \<Rightarrow> (link_id \<Rightarrow> 'k) \<Rightarrow> link_id \<Rightarrow> link_details_dto list \<Rightarrow> link_id \<Rightarrow> bool" where
  "chain_from V T i [] j = (i = j)"
| "chain_from V T i (d # ds) j =
     ((\<exists>n. pv_decrypt_link V (T i) (ld_link d) = Inr (T (l_id (ld_link d)), n)) \<and> chain_from V T (l_id (ld_link d)) ds j)"

lemma unlock_down_chain:
  "chain_from V T i chain j \<Longrightarrow> own_keys T v \<Longrightarrow>
     \<exists>v'. unlock_down V vid (T i) chain v = Some (Inr (T j), v') \<and> own_keys T v'"
proof (induction chain arbitrary: i v)
  case (Cons d ds)
  then obtain n where n: "pv_decrypt_link V (T i) (ld_link d) = Inr (T (l_id (ld_link d)), n)"
    "chain_from V T (l_id (ld_link d)) ds j" by auto
  have "own_keys T (cache_node_key V (NodeUid_new vid (l_id (ld_link d))) (T (l_id (ld_link d))) v)"
    by (rule own_keys_cache [OF Cons.prems(2)]) (simp add: NodeUid_new_def)
  from Cons.IH [OF n(2) this] show ?case using n(1) by (simp add: op_bind_def op_then_def)
qed simp

lemma climb_reaches:
  assumes tree: "shares_tree V P A tree T depth"
  shows "uid_link cursor \<in> A \<Longrightarrow> own_keys T v \<Longrightarrow> chain_from V T (uid_link cursor) chain j \<Longrightarrow>
     \<exists>i chain' v'. climb_to_known V P cursor chain v = Some (Inr (T i, chain'), v') \<and> chain_from V T i chain' j \<and> own_keys T v'"
proof (induction "depth (uid_link cursor)" arbitrary: cursor v chain rule: less_induct)
  case less
  let ?i = "uid_link cursor"
  show ?case
  proof (cases "cached_node_key cursor v")
    case (Some key)
    then have "key = T ?i" using less.prems(2) by (simp add: own_keys_def cached_node_key_def)
    then show ?thesis using Some less.prems(2,3) by (subst climb_to_known.simps) auto
  next
    case None
    obtain v1 where v1: "link_details V P cursor v = Some (Inr (tree ?i), v1)" "own_keys T v1"
      using link_details_served [OF tree less.prems(1,2)] by blast
    have id: "l_id (ld_link (tree ?i)) = ?i" by (rule shares_treeD(1) [OF tree less.prems(1)])
    show ?thesis
    proof (cases "?i = uid_link (lk_root_uid P)")
      case True
      then obtain n where "pv_decrypt_link V (lk_share_key P) (ld_link (tree ?i)) = Inr (T ?i, n)"
        using shares_treeD(2) [OF tree less.prems(1)] by blast
      then show ?thesis using None v1 id True less.prems(3) own_keys_cache [OF v1(2), of "T ?i" cursor V]
        by (subst climb_to_known.simps) (auto simp: op_bind_def)
    next
      case False
      then obtain p n where p: "p \<in> A" "l_parent_id (ld_link (tree ?i)) = Some p" "depth p < depth ?i"
        "pv_decrypt_link V (T p) (ld_link (tree ?i)) = Inr (T ?i, n)"
        using shares_treeD(3) [OF tree less.prems(1) False] by blast
      let ?up = "NodeUid_new (uid_volume cursor) p"
      have up: "uid_link ?up = p" by (simp add: NodeUid_new_def)
      have "chain_from V T (uid_link ?up) (tree ?i # chain) j" using p(4) less.prems(3) id up by simp
      from less.hyps [OF _ _ v1(2) this] obtain i chain' v' where
        "climb_to_known V P ?up (tree ?i # chain) v1 = Some (Inr (T i, chain'), v')" "chain_from V T i chain' j" "own_keys T v'"
        using p(1,3) up by auto
      then show ?thesis using None v1(1) id False p(2)
        by (subst climb_to_known.simps) (auto simp: op_bind_def)
    qed
  qed
qed

section \<open>Sessions and missing nodes\<close>

text \<open>A request that meets an expired session is issued once more, on the session of a replayed
  handshake.\<close>

lemma expired_session_replayed:
  assumes "call (live_http st) st = (Inl e, st1)" "is_session_expired e" "live_generation st1 = live_generation st"
    and "link_auth V (lk_credentials P) (ls_world st1) = Some (Inr a, w)"
  shows "with_renewal (visitor_session V P) call st = Some (call (ao_http a)
     (st1\<lparr>live_http := ao_http a, live_tokens := ao_tokens a, live_generation := live_generation st1 + 1, ls_world := w\<rparr>))"
  using assms
  by (simp add: with_renewal_def visitor_session_def PublicLinkSession_def PublicLinkSession_renew_def op_bind_def ao_client_def)

text \<open>A node that exists but whose parent's key cannot be had, be it for a failed request, is
  reported as absent, and the shared node itself as gone.\<close>

lemma unreadable_node_absent:
  assumes "fetch_link_details V P (uid_volume uid) [uid_link uid] v = Some (Inr [details], v1)"
    and "visitor_parent_key V P (uid_volume uid) details v1 = Some (Inl e, v2)"
  shows "visitor_get_node V P uid v = Some (Inr None, v2)"
  using assms
  by (simp add: visitor_get_node_def visitor_enumerate_nodes_def group_uids_def enter_uid_def MAX_BATCH_COUNT_def chunks.simps
      op_bind_def op_try_def)

lemma unopened_root_gone:
  assumes "fetch_link_details V P (uid_volume (lk_root_uid P)) [uid_link (lk_root_uid P)] v = Some (Inr [details], v1)"
    and "l_id (ld_link details) = uid_link (lk_root_uid P)" "pv_decrypt_link V (lk_share_key P) (ld_link details) = Inl e"
  shows "get_root_node V P v = Some (Inl (InvalidOperation ''the shared node no longer exists''), v1)"
  using assms
  by (simp add: get_root_node_def visitor_get_node_def visitor_enumerate_nodes_def group_uids_def enter_uid_def MAX_BATCH_COUNT_def
      chunks.simps op_bind_def op_try_def visitor_parent_key_def visitor_node_def Let_def)

text \<open>A visitor downloads exactly the content the owner uploaded.\<close>

lemma visitor_downloads_uploaded_content:
  assumes "describes (content_upload_keys L W rest nkey ck signer) thumbnails content tcts cts written" "packets_work L"
    and "visitor_file_access V P uid None v = Some (Inr (details, nk, ck, rid), v1)"
    and "visitor_blocks V P uid rid v1 = Some (Inr (revision, blocks), v2)"
    and "pv_decrypt_block V = (\<lambda>ck b. from_crypto (decrypt_block L ck b))"
    and "length blocks = length cts" "serves_blocks ok (ciphertext (visitor_targets V P uid rid blocks)) cts"
    and "ok (BlockTargets_new blocks (vs_session v2))"
  shows "\<exists>v'. visitor_download_file V P uid v = Some (Inr content, v')"
proof -
  obtain ps where ps: "list_all2 (encrypts (content_upload_keys L W rest nkey ck signer)) ps cts" "concat ps = content"
    using assms(1) by (intro that [of "chunks DEFAULT_BLOCK_SIZE content"]) (simp_all add: describes_def DEFAULT_BLOCK_SIZE_def)
  have dec: "list_all2 (\<lambda>ct p. pv_decrypt_block V ck ct = Inr p) cts ps"
    using uploaded_blocks_decrypt [OF assms(2) ps(1)] unfolding assms(5) .
  have serve: "\<exists>t'. ciphertext (visitor_targets V P uid rid blocks) (0 + j) t = Some (Inr (cts ! j), t') \<and> ok t'"
    if "j < length cts" "ok t" for j t using assms(7) that by (auto simp: serves_blocks_def)
  obtain t where "write_content_blocks (visitor_targets V P uid rid blocks) (pv_decrypt_block V ck) (\<lambda>_. []) vec_write
      [0..<0 + length cts] [] ([], BlockTargets_new blocks (vs_session v2)) =
      Some (Inr ([] @ concat (map (\<lambda>_. []) cts)), [] @ concat ps, t)"
    using write_content_blocks_exact [OF serve dec assms(8), of "\<lambda>_. []" "[]" "[]"] by blast
  then show ?thesis using assms(3,4,6) ps(2)
    by (simp add: visitor_download_file_def collected_def visitor_download_file_to_def op_bind_def beside_def visitor_write_blocks_def)
qed

section \<open>The properties\<close>

text \<open>C38: Whoever opens the URL of a public link with its custom password gets in and holds the owner's
  share key: against a server that keeps what creating the link published and follows the
  protocol, the handshake ends with the share key, the shared node, the role the owner granted and
  an anonymous session, for any link the owner's client creates.\<close>

theorem visitor_opens_owners_link:
  assumes "ensure_node_share E uid d = Some (Inr (sid, sk, email, akey), d0)"
    and "create_public_link E uid role custom expiration d = Some (Inr link, d1)"
    and "\<And>path req w r w'. sv_post_public_link E path req w = Some (Inr r, w') \<Longrightarrow>
        published w' = cpl_settings req \<and> su_public_url r = origin @ ''/urls/'' @ token"
    and "CHR ''#'' \<notin> set origin" "token \<noteq> []" "CHR ''/'' \<notin> set token" "CHR ''#'' \<notin> set token"
    and "\<And>w. length (fst (sv_random E PUBLIC_LINK_PASSWORD_LEN w)) = PUBLIC_LINK_PASSWORD_LEN"
    and "\<And>pw m w r w'. sv_generate_verifier E pw m DEFAULT_BIT_LENGTH w = Some (Inr r, w') \<Longrightarrow>
        \<exists>g g'. generate_verifier (pv_srp V) pw m bits g = Some (Inr r, g')"
    and "\<And>path w m w'. sv_get_modulus E path w = Some (Inr m, w') \<Longrightarrow> modulus_of (mo_modulus_id m) = mo_modulus m"
    and "pv_derive_key_passphrase V = sv_derive_key_passphrase E" "pv_build V cfg = None"
    and "\<And>b. sl_base64_decode (pv_srp V) (sl_base64 (pv_srp V) b) = Inr b" "\<And>b. sl_base64_decode (pv_srp V) (sv_base64 E b) = Inr b"
    and "\<And>pw w packet w'. sv_encrypt_with_password E sk pw w = Some (Inr packet, w') \<Longrightarrow>
        pv_decrypt_with_password V (passphrase_message (sv_base64 E packet)) pw = Inr passphrase"
    and "pv_from_armored V locked passphrase = Inr share_key"
    and "sl_base64_decode (pv_srp V) (pls_url_password_salt (published (dv_world d1))) = Inr salt"
    and "sl_base64_decode (pv_srp V) (pls_srp_verifier (published (dv_world d1))) = Inr v"
    and "modulus_of (pls_srp_modulus_id (published (dv_world d1))) = signed_N" "verify_and_decode_modulus (pv_srp V) signed_N = Inr N"
    and "link_credentials_of cfg (the (pl_url link)) (pl_custom_password link) = Inr cr"
    and "link_info V cr w = (Inr (served_info (pv_srp V) (published (dv_world d1)) signed_N version B srp_session), wa)"
    and "honest_ephemeral (pv_srp V) signed_N bits (from_le v) b B"
    and "generate_proofs (pv_srp V) version (as_bytes (lc_password cr)) salt signed_N B bits wa = Some (Inr p, wb)"
    and "\<And>m2. server_answer (pv_srp V) (from_le N) bits (from_le v) b B (sp_client_ephemeral p) (sp_client_proof p) = Some m2 \<Longrightarrow>
        link_authenticate V cr (served_info (pv_srp V) (published (dv_world d1)) signed_N version B srp_session) p wb =
          (Inr (served_auth (pv_srp V) (published (dv_world d1)) passphrase_message shared locked session_uid access m2), wc)"
  shows "\<exists>a. auth_in_group V bits cr w = Some (Inr a, wc) \<and> ao_share_key a = share_key \<and> ao_root_uid a = shared \<and>
     ao_public_role a = role \<and> ao_tokens a = \<lparr>access_token = access, refresh_token = []\<rparr>"
proof -
  obtain permissions raw settings d2 d3 r w0 w0' w1 w2 where perm: "public_link_permissions role = Inr permissions"
    and raw: "sv_random E PUBLIC_LINK_PASSWORD_LEN w1 = (raw, w2)"
    and sealed: "seal_public_link_settings E permissions (generate_public_link_password raw) custom sk akey d2 = Some (Inr settings, d3)"
    and post: "sv_post_public_link E (share_urls_path sid) \<lparr>cpl_creator_email = email, cpl_expiration_time = expiration,
        cpl_settings = settings\<rparr> w0 = Some (Inr r, w0')" "dv_world d1 = w0'"
    and url: "pl_url link = Some (su_public_url r @ ''#'' @ generate_public_link_password raw)"
    and custom: "pl_custom_password link = nonempty_password custom"
    by (rule create_public_link_Inr [OF assms(1,2)])
  let ?g = "generate_public_link_password raw"
  have settings: "settings = published (dv_world d1)" and public: "su_public_url r = origin @ ''/urls/'' @ token"
    using assms(3) [OF post(1)] post(2) by simp_all
  have "length raw = PUBLIC_LINK_PASSWORD_LEN" using assms(8) [of w1] raw by simp
  then have "?g \<noteq> []" by (auto simp: generate_public_link_password_def PUBLIC_LINK_PASSWORD_LEN_def)
  then have "parse_public_link_url (the (pl_url link)) = Inr (token, ?g)"
    using public_link_url_round_trip [OF assms(4-7)] by (simp add: url public)
  then have password: "lc_password cr = ?g @ (case nonempty_password custom of Some p \<Rightarrow> p | None \<Rightarrow> [])" and cfg: "lc_config cr = cfg"
    using assms(21) by (auto simp: link_credentials_of_def custom nonempty_password_def split: option.splits if_splits)
  have "to_permissions role = Some permissions"
    using perm by (auto simp: public_link_permissions_def split: option.splits if_splits)
  then have role: "from_permissions (Some permissions) = role" using from_to_permissions [of role] by metis
  have "\<exists>a. auth_in_group V bits cr w = Some (Inr a, wc) \<and> ao_share_key a = share_key \<and> ao_root_uid a = shared \<and>
      ao_public_role a = from_permissions (Some permissions) \<and> ao_tokens a = \<lparr>access_token = access, refresh_token = []\<rparr>"
    by (rule auth_of_sealed [where passphrase_message = passphrase_message and modulus_of = modulus_of,
          OF sealed [unfolded settings] arg_cong [OF password]])
       (fact assms | simp add: cfg assms(12))+
  then show ?thesis unfolding role .
qed

text \<open>C39: Listing a shared folder with everything below it ends, on every tree of finite height, and
  gives each level of the tree in turn, each in the order its folders were listed.\<close>

theorem subtree_lists_every_level:
  assumes "lists_folders V P ok A kids" "finite_below height A kids" "ok v" "folder \<in> A"
  shows "\<exists>v'. enumerate_subtree V P folder v =
     Some (Inr (concat (map (tree_level kids folder) [0..<Suc (height folder)])), v') \<and> ok v'"
proof -
  have "\<forall>f\<in>set [folder]. f \<in> A \<and> height f < Suc (height folder)" using assms(4) by simp
  from walk_subtree_lists [OF assms(1-3) this, where progress = "\<lambda>_ q. q" and found = "[]" and q = "()"]
  show ?thesis
    by (auto simp: enumerate_subtree_def enumerate_subtree_reporting_def forest_level_tree simp del: upt_Suc)
qed

text \<open>C40: A visitor reaches the key of every node of the shared tree, whatever is cached of it: the walk
  up to a known key or to the shared root ends, and the walk down gives the node's own key, caching
  only keys under their own nodes.\<close>

theorem visitor_reaches_keys:
  assumes "shares_tree V P A tree T depth" "uid_link uid \<in> A" "own_keys T v"
  shows "\<exists>v'. visitor_node_key V P uid v = Some (Inr (T (uid_link uid)), v') \<and> own_keys T v'"
proof (cases "cached_node_key uid v")
  case (Some key)
  then show ?thesis using assms(3) by (simp add: visitor_node_key_def own_keys_def cached_node_key_def)
next
  case None
  have "chain_from V T (uid_link uid) [] (uid_link uid)" by simp
  from climb_reaches [OF assms this] obtain i chain v1 where up: "climb_to_known V P uid [] v = Some (Inr (T i, chain), v1)"
    "chain_from V T i chain (uid_link uid)" "own_keys T v1" by blast
  from unlock_down_chain [OF up(2,3), of "uid_volume uid"] up(1) show ?thesis
    using None by (auto simp: visitor_node_key_def load_node_key_def op_bind_def op_map_err_def map_err_def)
qed

section \<open>Examples\<close>

text \<open>An owner whose link a server keeps, and a visitor of it, over the toy group of \<open>Srp\<close>.\<close>

definition owner_settings :: public_link_settings_dto where
  "owner_settings =
     \<lparr>pls_permissions = VIEWER_PERMISSIONS, pls_flags = 3, pls_share_password_salt = sl_base64 toy_srp (replicate 16 0),
      pls_share_passphrase_key_packet = sl_base64 toy_srp [2], pls_password = map (\<lambda>c. char_of (unat c))
        (as_bytes (generate_public_link_password (replicate PUBLIC_LINK_PASSWORD_LEN 0) @ ''pw'')),
      pls_url_password_salt = sl_base64 toy_srp (replicate 10 35), pls_srp_verifier = sl_base64 toy_srp [67],
      pls_srp_modulus_id = ''id'', pls_max_accesses = 0\<rparr>"

definition owner_example :: "(string, unit, unit, unit, sharing_world) share_env" where
  "owner_example = sharing_example
     \<lparr>sv_base64 := sl_base64 toy_srp, sv_get_modulus := (\<lambda>_. op_return \<lparr>mo_modulus = toy_modulus, mo_modulus_id = ''id''\<rparr>),
      sv_generate_verifier := (\<lambda>pw m n. op_of (if m = toy_modulus
        then Inr \<lparr>sf_salt = sl_base64 toy_srp (replicate 10 35), sf_verifier = sl_base64 toy_srp [67]\<rparr> else Inl KeysLocked)),
      sv_post_public_link := (\<lambda>_ req. op_of (if cpl_settings req = owner_settings then Inr example_link_dto else Inl KeysLocked))\<rparr>"

definition visitor_info :: public_link_info_response where
  "visitor_info = served_info toy_srp owner_settings toy_modulus 4 [35] ''x''"

definition shared_node :: node_uid where "shared_node = NodeUid_new (VolumeId ''v'') (LinkId ''r'')"

definition visitor_answer :: "bytes \<Rightarrow> public_link_auth_response" where
  "visitor_answer = served_auth toy_srp owner_settings id shared_node ''key'' ''uid'' ''access''"

definition visitor_example :: "(string, unit, unit, string, nat) visitor_env" where
  "visitor_example =
     \<lparr>pv_srp = toy_srp, pv_net = se_net toy_session_env, pv_codec = se_codec toy_session_env, pv_build = (\<lambda>_. None),
      pv_info_response = (\<lambda>_. Inr visitor_info), pv_auth_request = (\<lambda>_. []),
      pv_auth_response = (\<lambda>_. Inr (visitor_answer (sp_expected_server_proof toy_expected))),
      pv_derive_key_passphrase = (\<lambda>_ _. Inr [3]), pv_decrypt_with_password = (\<lambda>_ _. Inr [4]), pv_from_armored = (\<lambda>_ _. Inr ''s''),
      pv_decrypt_link = (\<lambda>k link. if l_passphrase link = k then Inr (l_key link, l_name link) else Inl KeysLocked),
      pv_decrypt_content_key = (\<lambda>_ _. Inr ()), pv_xattr = (\<lambda>_ _. Inl KeysLocked), pv_decrypt_block = (\<lambda>_. Inr),
      pv_decrypt_thumbnail = (\<lambda>_. Inr), pv_display = (\<lambda>_. []), pv_victim = (\<lambda>_ _. None), pv_key_order = id,
      pv_get_children = (\<lambda>_ _ _ w. (Inl KeysLocked, w)), pv_post_links = (\<lambda>_ _ _ ids w. (Inr (map tree_details ids), w)),
      pv_get_revision = (\<lambda>_ _ _ w. (Inl KeysLocked, w)), pv_post_thumbnails = (\<lambda>_ _ _ _ w. (Inl KeysLocked, w)),
      pv_storage = (\<lambda>_ _ _ _ w. (Inl KeysLocked, w))\<rparr>"

definition visitor_config :: client_configuration where "visitor_config = ProtonClientConfiguration_new ''app''"

lemma visitor_calls:
  "lc_config cr = visitor_config \<Longrightarrow> link_info visitor_example cr w = (Inr visitor_info, w)"
  "lc_config cr = visitor_config \<Longrightarrow> link_authenticate visitor_example cr answer proofs w =
     (Inr (visitor_answer (sp_expected_server_proof toy_expected)), w)"
  by (simp_all add: link_info_def link_authenticate_def visitor_config_def get_unauthenticated_def post_unauthenticated_def
      post_unauthenticated_verified_def visitor_example_def toy_session_env_def send_retrying.simps
      retrying_decision_def is_retryable_status_def run_finish_def parse_buffered_def status_is_success_def Let_def)

lemma owner_share:
  "ensure_node_share owner_example sharing_uid sharing_state =
     ensure_node_share sharing_example sharing_uid sharing_state"
  by (simp add: ensure_node_share_def sv_drive_def owner_example_def own_link_def own_address_keys_def cong: if_cong option.case_cong)

lemma owner_link:
  "create_public_link owner_example sharing_uid Viewer (Some ''pw'') None sharing_state = Some (Inr
     \<lparr>pl_share_id = ShareId ''x'', pl_public_link_id = ''u'', pl_url = Some (''https://drive.proton.me/urls/T#'' @
        generate_public_link_password (replicate PUBLIC_LINK_PASSWORD_LEN 0)), pl_role = Viewer, pl_creation_time = 0,
      pl_expiration_time = None, pl_has_custom_password = True, pl_custom_password = Some ''pw''\<rparr>, sharing_state)"
proof -
  have share: "ensure_node_share owner_example sharing_uid sharing_state = Some (Inr (ShareId ''x'', (), ''a@p'', ''k''), sharing_state)"
    unfolding owner_share by (rule sharing_share)
  have ops: "sv_ops owner_example = sharing_ops" by (simp add: owner_example_def sharing_env(2))
  have seal: "seal_public_link_settings owner_example VIEWER_PERMISSIONS
      (generate_public_link_password (replicate PUBLIC_LINK_PASSWORD_LEN 0)) (Some ''pw'') () ''k'' sharing_state =
      Some (Inr owner_settings, sharing_state)"
    by (simp add: seal_public_link_settings_def fetch_srp_modulus_def draw_random_def on_world_def op_bind_def Let_def ops nonempty_password_def)
       (simp add: owner_example_def sharing_example_def sharing_ops_def owner_settings_def)
  have drawn: "draw_random owner_example PUBLIC_LINK_PASSWORD_LEN sharing_state = Some (Inr (replicate PUBLIC_LINK_PASSWORD_LEN 0), sharing_state)"
    by (simp add: draw_random_def on_world_def owner_example_def sharing_example_def)
  have post: "on_world (sv_post_public_link owner_example path \<lparr>cpl_creator_email = e, cpl_expiration_time = x, cpl_settings = owner_settings\<rparr>)
      sharing_state = Some (Inr example_link_dto, sharing_state)" for path e x
    by (simp add: on_world_def owner_example_def)
  have now: "sv_now_epoch_seconds owner_example w = 0" for w by (simp add: owner_example_def sharing_example_def)
  show ?thesis
    by (simp add: create_public_link_def public_link_permissions_def share op_bind_def drawn seal post now Let_def)
       (simp add: owner_settings_def example_link_dto_def nonempty_password_def)
qed

lemma visitor_env_fields:
  "pv_srp visitor_example = toy_srp" "pv_build visitor_example cfg = None"
  "pv_derive_key_passphrase visitor_example = sv_derive_key_passphrase owner_example"
  "pv_decrypt_with_password visitor_example m pw = Inr [4]" "pv_from_armored visitor_example k ph = Inr ''s''"
  by (simp_all add: visitor_example_def owner_example_def sharing_example_def fun_eq_iff)

lemma visitor_answered:
  assumes "server_answer toy_srp 227 8 67 7 [35] [46] (expand_hash toy_srp [46, 35, 131]) = Some m2"
  shows "visitor_answer (sp_expected_server_proof toy_expected) = visitor_answer m2"
proof -
  have "sl_base64 toy_srp (sp_expected_server_proof toy_expected) = sl_base64 toy_srp m2"
    using toy_answered [OF assms] by (simp add: toy_auth_def toy_expected_def)
  then show ?thesis by (simp add: visitor_answer_def served_auth_def)
qed

theorem visitor_opens_owners_link_witness:
  "\<exists>a. auth_in_group visitor_example 8 \<lparr>lc_config = visitor_config, lc_token = ''T'',
       lc_password = generate_public_link_password (replicate PUBLIC_LINK_PASSWORD_LEN 0) @ ''pw''\<rparr> 0 = Some (Inr a, 1) \<and>
     ao_share_key a = ''s'' \<and> ao_root_uid a = shared_node \<and> ao_public_role a = Viewer \<and>
     ao_tokens a = \<lparr>access_token = ''access'', refresh_token = []\<rparr>"
proof (rule visitor_opens_owners_link [OF owner_share [unfolded sharing_share] owner_link, where published = "\<lambda>_. owner_settings" and
      origin = "''https://drive.proton.me''" and token = "''T''" and passphrase_message = id and modulus_of = "\<lambda>_. toy_modulus" and
      V = visitor_example and cfg = visitor_config and salt = "replicate 10 35" and v = "[67]" and N = "[227]" and version = 4 and
      B = "[35]" and srp_session = "''x''" and wa = 0 and wb = 1 and b = 7 and p = toy_expected and passphrase = "[4]" and locked = "''key''"
      and session_uid = "''uid''" and signed_N = toy_modulus], goal_cases)
  case (1 path req w r w')
  then show ?case by (auto simp: owner_example_def example_link_dto_def split: if_splits)
next
  case (6 w)
  then show ?case by (simp add: owner_example_def sharing_example_def)
next
  case (7 pw m w r w')
  then have "m = toy_modulus \<and> r = \<lparr>sf_salt = sl_base64 toy_srp (replicate 10 35), sf_verifier = sl_base64 toy_srp [67]\<rparr>"
    by (simp add: owner_example_def split: if_splits)
  then show ?case using toy_verifier [of pw] by (auto simp: visitor_env_fields)
next
  case (8 path w m w')
  then show ?case by (auto simp: owner_example_def)
next
  case 19
  have "parse_public_link_url (''https://drive.proton.me'' @ ''/urls/'' @ ''T'' @ ''#'' @ generate_public_link_password (replicate PUBLIC_LINK_PASSWORD_LEN 0))
      = Inr (''T'', generate_public_link_password (replicate PUBLIC_LINK_PASSWORD_LEN 0))"
    by (rule public_link_url_round_trip) (simp_all add: generate_public_link_password_def PUBLIC_LINK_PASSWORD_LEN_def)
  then show ?case by (simp add: link_credentials_of_def)
next
  case 20
  then show ?case by (simp add: visitor_calls visitor_info_def visitor_env_fields)
next
  case 21
  then show ?case
    unfolding visitor_env_fields by (simp add: honest_ephemeral_def toy_modulus_decoded toy_multiplier [unfolded One_nat_def] toy_powers)
next
  case 22
  then show ?case by (simp add: visitor_env_fields toy_proofs toy_expected_def)
next
  case (23 m2)
  then have "server_answer toy_srp 227 8 67 7 [35] [46] (expand_hash toy_srp [46, 35, 131]) = Some m2"
    by (simp add: visitor_env_fields toy_expected_def)
  from visitor_answered [OF this] show ?case
    by (simp add: visitor_calls visitor_answer_def visitor_env_fields)
qed (simp_all add: visitor_env_fields toy_base64 toy_modulus_decoded owner_settings_def, simp_all add: owner_example_def toy_base64)

text \<open>A visitor of the toy link, whose shared folder holds one folder that is empty.\<close>

definition visitor_client :: "string public_link_client" where
  "visitor_client = \<lparr>lk_credentials = \<lparr>lc_config = visitor_config, lc_token = ''T'', lc_password = ''pw''\<rparr>,
     lk_share_key = ''s'', lk_root_uid = shared_node, lk_public_role = Viewer\<rparr>"

definition visitor_state :: "(node_uid \<rightharpoonup> string) \<Rightarrow> (string, nat) visitor" where
  "visitor_state keys = \<lparr>vs_session = \<lparr>live_http = ApiHttpClient_new visitor_config (SessionId ''uid''),
     live_tokens = \<lparr>access_token = ''access'', refresh_token = []\<rparr>, live_generation = 0, ls_world = 0\<rparr>, vs_node_keys = keys\<rparr>"

definition visitor_folder :: node_uid where "visitor_folder = NodeUid_new (VolumeId ''v'') (LinkId ''p'')"

lemma visitor_tree_shared: "shares_tree visitor_example visitor_client UNIV tree_details link_id_str (\<lambda>i. if i = LinkId ''r'' then 0 else 1)"
  by (auto simp: shares_tree_def visitor_example_def visitor_client_def shared_node_def NodeUid_new_def tree_details_def tree_link_def
      example_link_def)

theorem visitor_reaches_keys_witness:
  "\<exists>v'. visitor_node_key visitor_example visitor_client visitor_folder (visitor_state Map.empty) = Some (Inr ''p'', v') \<and>
     own_keys link_id_str v'"
  using visitor_reaches_keys [OF visitor_tree_shared, of visitor_folder "visitor_state Map.empty"]
  by (simp add: visitor_folder_def NodeUid_new_def own_keys_def visitor_state_def)

definition listing_example :: "(string, unit, unit, string, nat) visitor_env" where
  "listing_example = visitor_example
     \<lparr>pv_get_children := (\<lambda>_ _ path w. (Inr \<lparr>fcr_link_ids = (if path = children_path shared_node None then [LinkId ''p''] else []),
        fcr_anchor_id = None, fcr_more_results_exist = False\<rparr>, w))\<rparr>"

definition listing_node :: node where
  "listing_node = projr (visitor_node listing_example (VolumeId ''v'') (tree_details (LinkId ''p'')) ''r'')"

definition listing_state :: "(string, nat) visitor" where
  "listing_state = visitor_state [shared_node \<mapsto> ''r'']"

definition listing_kids :: "node_uid \<Rightarrow> node list" where
  "listing_kids folder = (if folder = shared_node then [listing_node] else [])"

lemma listing_children:
  "visitor_children listing_example visitor_client folder v =
     Some (Inr (if children_path folder None = children_path shared_node None then [NodeUid_new (uid_volume folder) (LinkId ''p'')] else []), v)"
  unfolding visitor_children_def
  by (subst visitor_children_pages.simps)
     (simp add: op_bind_def on_session_def transport_get_def with_renewal_def visitor_session_def PublicLinkSession_def with_tokens_def
       listing_example_def)

lemma listing_lists: "lists_folders listing_example visitor_client ((=) listing_state) {shared_node, visitor_folder} listing_kids"
proof -
  have ne: "visitor_folder \<noteq> shared_node" "children_path visitor_folder None \<noteq> children_path shared_node None"
    by (simp_all add: visitor_folder_def shared_node_def NodeUid_new_def children_path_def)
  have one: "visitor_enumerate_nodes listing_example visitor_client [visitor_folder] listing_state = Some (Inr [listing_node], listing_state)"
    by (simp add: visitor_enumerate_nodes_def group_uids_def enter_uid_def visitor_folder_def NodeUid_new_def MAX_BATCH_COUNT_def chunks.simps
        fetch_link_details_def on_session_def transport_post_query_def with_renewal_def visitor_session_def PublicLinkSession_def with_tokens_def
        op_bind_def op_try_def visitor_parent_key_def visitor_node_key_def cached_node_key_def listing_state_def visitor_state_def
        shared_node_def visitor_client_def listing_node_def listing_example_def visitor_example_def tree_details_def tree_link_def
        example_link_def visitor_node_def Let_def)
  have none: "visitor_enumerate_nodes listing_example visitor_client [] listing_state = Some (Inr [], listing_state)"
    by (simp add: visitor_enumerate_nodes_def group_uids_def)
  have r: "list_folder listing_example visitor_client shared_node listing_state = Some (Inr [listing_node], listing_state)"
    using one by (simp add: list_folder_def op_bind_def listing_children visitor_folder_def shared_node_def NodeUid_new_def)
  have p: "list_folder listing_example visitor_client visitor_folder listing_state = Some (Inr [], listing_state)"
    using none ne(2) by (simp add: list_folder_def op_bind_def listing_children)
  show ?thesis using r p ne(1) by (auto simp: lists_folders_def listing_kids_def)
qed

theorem subtree_lists_every_level_witness:
  "enumerate_subtree listing_example visitor_client shared_node listing_state = Some (Inr [listing_node], listing_state)"
proof -
  have uid: "n_uid listing_node = visitor_folder"
    by (simp add: listing_node_def visitor_node_def Let_def listing_example_def visitor_example_def tree_details_def tree_link_def
        example_link_def visitor_folder_def)
  have "visitor_folder \<noteq> shared_node" by (simp add: visitor_folder_def shared_node_def NodeUid_new_def)
  then have "finite_below (\<lambda>u. if u = shared_node then 1 else 0) {shared_node, visitor_folder} listing_kids"
    by (simp add: finite_below_def listing_kids_def uid)
  from subtree_lists_every_level [OF listing_lists this refl, of shared_node] show ?thesis
    by (simp add: listing_kids_def uid visitor_folder_def shared_node_def NodeUid_new_def upt_rec)
qed

end
