(* ===== verification/Spec2Isabelle.thy ===== *)
theory Spec2Isabelle
  imports Entity_Cache Single_Flight Events Photos Device_Ops Public_Link
begin

text \<open>
  A verification of proton-sdk-rs, a client for Proton Drive in two crates.
  \<open>proton-sdk\<close> (\<open>src/crates/proton-sdk/src\<close>) has the HTTP client with its retries and
  token refresh, the cache repositories, the OpenPGP layer and the account client that
  unlocks a user's keys; \<open>proton-drive-rs\<close> (\<open>src/crates/proton-drive-rs/src\<close>) has the
  Drive client on top of it: shares and links, their keys, nodes, revisions, uploads,
  downloads and events.

  \<^bold>\<open>How the code is modelled.\<close>
  Structs are records and enums datatypes, with the fields and variants of the source; a
  \<open>Result<T>\<close> is a sum with the error on the left, every error text of the source kept
  (texts that only print a foreign error are the argument that prints it).  Integers whose
  width matters are words.  Text is a list of bytes that is valid UTF-8 where the code relies
  on it.  An \<open>async fn\<close> is a function of the state it may change; where it may never
  return it is an \<open>('a, 'w) op\<close> of theory \<open>Effects\<close>, with \<open>None\<close> for not
  returning, and its loops are \<open>partial_function (option)\<close>, so that a theorem that a call
  returns is a theorem that the value is \<open>Some\<close>.  No fuel bounds a loop of the code except
  where a theorem names it (\<open>rp_depth\<close> in \<open>Pgp\<close>, the nesting of compressed
  messages).  The server, the OpenPGP library, ciphers, hashes, the random source, the clock,
  JSON and the choice of an LRU victim are not under \<open>src/\<close>: they are arguments, and what
  a theorem needs of them is one of its named hypotheses, which a witness discharges for a
  concrete instance.

  \<^bold>\<open>The theories.\<close>
  \<^item> \<open>Prelude\<close>: Rust scalar types, UTF-8, decimal text, slices, and the lemmas on them.
  \<^item> \<open>Api\<close>: \<open>ids.rs\<close>, \<open>api.rs\<close>, \<open>error.rs\<close>, \<open>config.rs\<close>: identifiers,
    the response envelope, codes and errors.
  \<^item> \<open>Http\<close>: \<open>http.rs\<close>: requests, backoff, the two retry loops (locale
    \<open>retry_loop\<close>, interpreted on both), the coalesced token refresh.  A request that must
    not repeat reaches the server at most once unless it never arrived; a burst of rejected
    callers refreshes once; retries are bounded.
  \<^item> \<open>Cache\<close>: \<open>cache.rs\<close> of the SDK: the \<open>CacheRepository\<close> contract (locale
    \<open>cache_repository\<close>), the in-memory cache over any LRU (locale \<open>lru_cache\<close>,
    interpreted on a list), and the encrypting wrapper (locale \<open>encrypted_repository\<close>);
    sublocales show that both keep the contract.  Tag index and entries stay consistent in
    every reachable state; a value sealed is read back, a tampered one clears the cache.
  \<^item> \<open>Node\<close>: \<open>node.rs\<close>, \<open>sharing.rs\<close>, \<open>devices.rs\<close> and the wire types of
    \<open>dtos.rs\<close>: nodes, roles, links, public-link URLs.
  \<^item> \<open>Transport\<close>, \<open>Revision\<close>: \<open>transport.rs\<close>, \<open>revision.rs\<close>: a revision's
    block table from its pages, sessions that are renewed (a renewal may not return) and tables (locale \<open>generational\<close>),
    block sizes, ranged reads.  A read returns exactly the asked slice of the plaintext; a
    listing is complete and contiguous; a burst of stale readers lists once.
  \<^item> \<open>Entity_Cache\<close>: \<open>cache.rs\<close> of the Drive crate, over \<open>cache_repository\<close>.
  \<^item> \<open>Single_Flight\<close>: \<open>single_flight.rs\<close> as a step relation over tasks: a caller
    gets the outcome of a load of its own key, and callers that overlap share one.
  \<^item> \<open>Events\<close>: \<open>events.rs\<close>, \<open>event_manager.rs\<close> and the event half of
    \<open>client.rs\<close>: draining the feed, cursors, invalidation.  Events are published once and in
    order, and an applied event leaves nothing stale behind.
  \<^item> \<open>Upload\<close>: the block upload of \<open>client.rs\<close> over a reader (locale
    \<open>byte_reader\<close>): a written revision describes exactly the content read, batches are
    bounded, expired targets are requested again.
  \<^item> \<open>Effects\<close>: calls that may fail, change state and not return, with the rules that
    push a state predicate through a call.
  \<^item> \<open>Pgp\<close>, \<open>Content\<close>, \<open>Encrypt\<close>: \<open>crypto/\<close> of the SDK: verification
    verdicts, message decryption, content keys and packets, rewrapping, signatures, new keys,
    invitations.
  \<^item> \<open>Srp\<close>, \<open>Login\<close>: \<open>crypto/srp.rs\<close>, \<open>session.rs\<close>: the SRP-6a client and
    verifier over natural numbers, logins, resumed sessions, the second factor.  A client that
    knows the password and a server that holds its verifier compute the same proofs, because
    the modulus test bounds the order of two; no session comes from a server that does not
    prove the verifier.
  \<^item> \<open>Account\<close>: \<open>account.rs\<close> and its modules: key passphrases, unlocking of user and
    address keys, the default address, public keys, the key report.
  \<^item> \<open>Link_Crypto\<close>: \<open>crypto.rs\<close> of the Drive crate: share keys, links, authorship.
  \<^item> \<open>Drive_Keys\<close>: the key half of \<open>client.rs\<close>: the My Files and Photos bootstrap,
    share keys, the batched walk over a link's ancestors.  What the client uses of the layers
    below is the record \<open>drive_env\<close>; \<open>account_drive\<close> builds it from \<open>Account\<close>,
    \<open>Encrypt\<close> and \<open>Link_Crypto\<close>.  The key cache never mixes up nodes, the walk reaches
    a parent's key in a finite tree, and never returns on a cycle of parents.
  \<^item> \<open>Node_Tree\<close>: reading the tree in \<open>client.rs\<close>: a node from its link, the
    read-through lookup, batched enumeration, paged listings, the hierarchy, paths and free
    names; the record \<open>node_env\<close> extends \<open>drive_env\<close> and \<open>account_nodes\<close>
    provides it.  The hierarchy climb ends, the free name is the first free candidate.
  \<^item> \<open>Node_Ops\<close>: changing the tree: folders, renames, moves, copies, batched moves and
    the trash, over \<open>ops_env\<close> and its provider \<open>account_ops\<close>.  A batched move ends
    and reports one outcome per item.
  \<^item> \<open>Drafts\<close>: file uploads: drafts of files and revisions, abandoned drafts, small and
    photo uploads, over \<open>draft_env\<close>, with \<open>content_upload_keys\<close> and
    \<open>account_drafts\<close> as its providers.  A returned upload has sealed a revision that
    describes the content read; no committed file is ever deleted for a draft.
  \<^item> \<open>Download\<close>: reading files back: whole downloads, readers and ranges, the revision
    history and thumbnails, over \<open>download_env\<close>.  A file downloads to exactly what was
    uploaded, a batch of thumbnails reports one outcome per file.
  \<^item> \<open>Sharing\<close>: shares of a node, members, invitations sent and received, public links
    and bookmarks, over \<open>share_env\<close> and its provider \<open>account_sharing\<close>.  Sharing
    invites exactly the newcomers; the owner of a public link reads its secret back.
  \<^item> \<open>Photos\<close>: the timeline, duplicates, albums, transfers into the timeline or an
    album, tags and photo downloads, over \<open>photos_env\<close>.  A transfer ends and reports one
    outcome per photo, the batched duplicate search agrees with the single one, and an album
    is deleted only with its photos saved.
  \<^item> \<open>Device_Ops\<close>: listing, registering, renaming and deleting devices, over
    \<open>device_env\<close> and its provider \<open>account_devices\<close>.  A listing reports every device
    whatever becomes of its name, and the name a rename sends opens with the key packet that the
    server keeps.
  \<^item> \<open>Public_Link\<close>: \<open>public_link.rs\<close>: a public link read without an account: the
    handshake, the session renewed by replaying it, the walk to a node's key, listings,
    downloads and thumbnails, over \<open>visitor_env\<close> and its provider \<open>visitor_on\<close>.
    Whoever opens the link its owner made, with its password, holds the share key; the walk over
    a finite shared tree ends and lists every level, and reaches the key of every node.

  \<^bold>\<open>Schedules.\<close>
  Concurrency is modelled where it is the point: overlapping loads (\<open>Single_Flight\<close>),
  bursts of callers of a refresh (\<open>Http\<close>, \<open>Transport\<close>, \<open>Revision\<close>), the order in
  which uploads complete (\<open>Upload\<close>).  From \<open>Drive_Keys\<close> on one call runs at a time, and
  what the code overlaps runs in the order its results are taken.

  \<^bold>\<open>Not modelled.\<close>
  Telemetry and log lines; the serialization of wire types; the TLS and socket layer; the
  internals of OpenPGP, hashes and bcrypt, which are libraries; tests
  and examples.  \<open>photos.rs\<close>, whose methods only pass on to \<open>client.rs\<close>, beyond its
  data types.  The bound on blocks in flight (\<open>with_max_inflight_blocks\<close>), which limits
  memory and not results.
\<close>

end
